(* ===== verification/Prelude.thy ===== *)
theory Prelude
  imports Complex_Main "HOL-Library.Word" "HOL-Library.Char_ord" "HOL-Library.List_Lexorder"
    "HOL-Library.Product_Lexorder"
begin

text \<open>
  Shared vocabulary of the development. Errors are values of a sum type (\<open>Inl\<close> the error),
  a relational table is the list of its rows in \<open>rowid\<close> order, \<open>UPDATE ... WHERE\<close> is
  \<open>upd_where\<close>, a SQLite transaction is \<open>run_txn\<close> (an exception rolls the state back), and a
  timestamp is the number of microseconds that the fixed-width UTC text of the code denotes.
  The lemmas about tables, folds that may fail, rounding and reachable states are used by every
  component; the collections \<open>txn_simps\<close> and \<open>table_simps\<close> carry the component proofs.
\<close>

named_theorems txn_simps \<open>unfolding of the error plumbing\<close>
named_theorems table_simps \<open>row access after a table update\<close>

type_synonym uuid = "128 word"
type_synonym time = int
type_synonym ('e, 's, 'a) txn = "'s \<Rightarrow> 'e + ('a \<times> 's)"

section \<open>Errors as values\<close>

definition sbind :: "'e + 'a \<Rightarrow> ('a \<Rightarrow> 'e + 'b) \<Rightarrow> 'e + 'b" where
  "sbind m f = (case m of Inl e \<Rightarrow> Inl e | Inr x \<Rightarrow> f x)"

definition guard :: "bool \<Rightarrow> 'e \<Rightarrow> 'e + unit" where
  "guard b e = (if b then Inr () else Inl e)"

definition run_txn :: "('e, 's, 'a) txn \<Rightarrow> 's \<Rightarrow> ('e + 'a) \<times> 's" where
  "run_txn body s = (case body s of Inl e \<Rightarrow> (Inl e, s) | Inr (x, s') \<Rightarrow> (Inr x, s'))"

fun fold_sum :: "('x \<Rightarrow> 's \<Rightarrow> 'e + 's) \<Rightarrow> 'x list \<Rightarrow> 's \<Rightarrow> 'e + 's" where
  "fold_sum f [] s = Inr s"
| "fold_sum f (x # xs) s = sbind (f x s) (fold_sum f xs)"

lemma sbind_simps [simp]:
  "sbind (Inl e) f = Inl e"
  "sbind (Inr x) f = f x"
  by (simp_all add: sbind_def)

lemma sbind_cong:
  assumes "m = m'" and "\<And>x. m' = Inr x \<Longrightarrow> f x = g x"
  shows "sbind m f = sbind m' g"
  using assms by (cases m') auto

lemma sbind_Inr_iff [txn_simps]: "sbind m f = Inr y \<longleftrightarrow> (\<exists>x. m = Inr x \<and> f x = Inr y)"
  by (cases m) auto

lemma sbind_Inl_iff [txn_simps]:
  "sbind m f = Inl e \<longleftrightarrow> m = Inl e \<or> (\<exists>x. m = Inr x \<and> f x = Inl e)"
  by (cases m) auto

lemma guard_iff [txn_simps]:
  "guard b e = Inr u \<longleftrightarrow> b"
  "guard b e = Inl e' \<longleftrightarrow> \<not> b \<and> e' = e"
  by (auto simp: guard_def)

lemma run_txn_simps [txn_simps]:
  "body s = Inl e \<Longrightarrow> run_txn body s = (Inl e, s)"
  "body s = Inr (x, s') \<Longrightarrow> run_txn body s = (Inr x, s')"
  by (simp_all add: run_txn_def)

lemma run_txn_Inl: "run_txn body s = (Inl e, s') \<Longrightarrow> s' = s \<and> body s = Inl e"
  by (auto simp: run_txn_def split: sum.splits)

lemma run_txn_Inr: "run_txn body s = (Inr x, s') \<longleftrightarrow> body s = Inr (x, s')"
  by (auto simp: run_txn_def split: sum.splits)

text \<open>An invariant that the body keeps on success is kept by the transaction.\<close>

lemma run_txn_inv:
  assumes "I s" and "\<And>x s'. body s = Inr (x, s') \<Longrightarrow> I s'"
  shows "I (snd (run_txn body s))"
  using assms by (auto simp: run_txn_def split: sum.splits)

lemma fold_sum_inv:
  assumes "fold_sum f xs s = Inr s'" and "I s"
    and "\<And>x s s'. x \<in> set xs \<Longrightarrow> I s \<Longrightarrow> f x s = Inr s' \<Longrightarrow> I s'"
  shows "I s'"
  using assms
proof (induction xs arbitrary: s)
  case Nil
  then show ?case by simp
next
  case (Cons x xs)
  then obtain t where t: "f x s = Inr t" "fold_sum f xs t = Inr s'"
    by (auto simp: txn_simps)
  with Cons.prems have "I t" by (metis list.set_intros(1))
  with t Cons show ?case by (metis list.set_intros(2))
qed

lemma fold_inv:
  assumes "I s" and "\<And>x s. x \<in> set xs \<Longrightarrow> I s \<Longrightarrow> I (f x s)"
  shows "I (fold f xs s)"
  using assms by (induction xs arbitrary: s) auto

lemma fold_frame:
  assumes "\<And>x s. g (f x s) = g s"
  shows "g (fold f xs s) = g s"
  using assms by (induction xs arbitrary: s) auto

section \<open>Tables\<close>

definition upd_where :: "('r \<Rightarrow> bool) \<Rightarrow> ('r \<Rightarrow> 'r) \<Rightarrow> 'r list \<Rightarrow> 'r list" where
  "upd_where P f rs = map (\<lambda>r. if P r then f r else r) rs"

lemma set_upd_where: "set (upd_where P f rs) = (\<lambda>r. if P r then f r else r) ` set rs"
  by (simp add: upd_where_def)

lemma upd_where_simps [simp]:
  "upd_where P f [] = []"
  "upd_where P f (r # rs) = (if P r then f r else r) # upd_where P f rs"
  "length (upd_where P f rs) = length rs"
  "upd_where P f (rs @ rs') = upd_where P f rs @ upd_where P f rs'"
  by (simp_all add: upd_where_def)

lemma map_upd_where [table_simps]:
  "(\<And>r. k (f r) = k r) \<Longrightarrow> map k (upd_where P f rs) = map k rs"
  by (auto simp: upd_where_def)

lemma find_upd_where [table_simps]:
  assumes "\<And>r. Q (f r) = Q r"
  shows "find Q (upd_where P f rs) = map_option (\<lambda>r. if P r then f r else r) (find Q rs)"
  using assms by (induction rs) auto

lemma filter_upd_where [table_simps]:
  assumes "\<And>r. Q (f r) = Q r"
  shows "filter Q (upd_where P f rs) = upd_where P f (filter Q rs)"
  using assms by (induction rs) auto

lemma upd_where_none: "(\<And>r. r \<in> set rs \<Longrightarrow> \<not> P r) \<Longrightarrow> upd_where P f rs = rs"
  by (induction rs) auto

lemma upd_where_cong:
  "(\<And>r. r \<in> set rs \<Longrightarrow> P r = Q r) \<Longrightarrow> (\<And>r. r \<in> set rs \<Longrightarrow> P r \<Longrightarrow> f r = g r) \<Longrightarrow>
     upd_where P f rs = upd_where Q g rs"
  by (induction rs) auto

lemma find_SomeD: "find P rs = Some r \<Longrightarrow> r \<in> set rs \<and> P r"
  by (induction rs) (auto split: if_splits)

lemma find_NoneD: "find P rs = None \<Longrightarrow> r \<in> set rs \<Longrightarrow> \<not> P r"
  by (simp add: find_None_iff)

lemma find_append_table: "find P (xs @ ys) = (case find P xs of None \<Rightarrow> find P ys | Some r \<Rightarrow> Some r)"
  by (induction xs) auto

lemma find_key_unique:
  assumes "distinct (map k rs)" and "r \<in> set rs" and "k r = x" and "Q r"
  shows "find (\<lambda>r. k r = x \<and> Q r) rs = Some r"
  using assms by (induction rs) (auto simp: image_iff)

lemma distinct_key_eq: "distinct (map k rs) \<Longrightarrow> r \<in> set rs \<Longrightarrow> r' \<in> set rs \<Longrightarrow> k r = k r' \<Longrightarrow> r = r'"
  by (auto simp: distinct_map dest: inj_onD)

lemma key_in_filter:
  assumes "distinct (map k rs)" and "r \<in> set rs"
  shows "k r \<in> k ` set (filter P rs) \<longleftrightarrow> P r"
proof
  assume "k r \<in> k ` set (filter P rs)"
  then obtain r' where "r' \<in> set rs" "P r'" "k r = k r'" by auto
  with assms show "P r" by (metis distinct_key_eq)
qed (use assms in auto)

lemma upd_where_keys:
  assumes "distinct (map k rs)"
  shows "upd_where (\<lambda>r. k r \<in> k ` set (filter P rs)) f rs = upd_where P f rs"
  using key_in_filter [OF assms] by (intro upd_where_cong) auto

lemma map_eq_member: "map h xs = map h ys \<Longrightarrow> x \<in> set xs \<Longrightarrow> \<exists>y \<in> set ys. h y = h x"
  by (metis image_iff list.set_map)

lemma find_map_cong: "(\<And>r. P r = Q r) \<Longrightarrow> find P rs = find Q rs"
  by (induction rs) auto

section \<open>Dictionaries\<close>

text \<open>A Python dictionary in insertion order: assigning to a key that is present replaces the value
  in its place, a new key goes to the end.\<close>

fun dict_put :: "'k \<Rightarrow> 'v \<Rightarrow> ('k \<times> 'v) list \<Rightarrow> ('k \<times> 'v) list" where
  "dict_put k v [] = [(k, v)]"
| "dict_put k v ((k', v') # d) = (if k' = k then (k, v) # d else (k', v') # dict_put k v d)"

definition dict_of :: "('k \<times> 'v) list \<Rightarrow> ('k \<times> 'v) list" where
  "dict_of kvs = fold (\<lambda>(k, v). dict_put k v) kvs []"

lemma map_of_dict_put [simp]: "map_of (dict_put k v d) = (map_of d)(k \<mapsto> v)"
  by (induction d) auto

lemma keys_dict_put: "map fst (dict_put k v d) = (if k \<in> set (map fst d) then map fst d else map fst d @ [k])"
  by (induction d) (force simp: image_iff)+

lemma distinct_dict_put: "distinct (map fst d) \<Longrightarrow> distinct (map fst (dict_put k v d))"
  by (simp add: keys_dict_put)

lemma fold_dict_put:
  "map_of (fold (\<lambda>(k, v). dict_put k v) kvs d) = map_of d ++ map_of (rev kvs)"
  by (induction kvs arbitrary: d) (auto simp: map_add_assoc)

lemma map_of_dict_of: "map_of (dict_of kvs) = map_of (rev kvs)"
  by (simp add: dict_of_def fold_dict_put)

lemma distinct_dict_of: "distinct (map fst (dict_of kvs))"
  unfolding dict_of_def by (rule fold_inv) (auto intro: distinct_dict_put)

lemma dict_of_unique: "distinct (map fst kvs) \<Longrightarrow> map_of (dict_of kvs) = map_of kvs"
  unfolding map_of_dict_of
  by (metis distinct_rev map_of_eqI map_of_inject_set rev_map set_map set_rev)

lemma map_of_rev_SomeD: "map_of (rev kvs) k = Some v \<Longrightarrow> (k, v) \<in> set kvs"
  by (metis map_of_SomeD set_rev)

section \<open>Text\<close>

definition token_char :: "char \<Rightarrow> bool" where
  "token_char c \<longleftrightarrow> (CHR ''a'' \<le> c \<and> c \<le> CHR ''z'') \<or> (CHR ''A'' \<le> c \<and> c \<le> CHR ''Z'')
     \<or> (CHR ''0'' \<le> c \<and> c \<le> CHR ''9'') \<or> c \<in> set ''_./:-''"

definition token_text :: "nat \<Rightarrow> string \<Rightarrow> bool" where
  "token_text n s \<longleftrightarrow> 1 \<le> length s \<and> length s \<le> n \<and> list_all token_char s"

definition hex_digit :: "nat \<Rightarrow> char" where
  "hex_digit n = ''0123456789abcdef'' ! (n mod 16)"

definition hex_char :: "char \<Rightarrow> bool" where
  "hex_char c \<longleftrightarrow> c \<in> set ''0123456789abcdef''"

definition digest_text :: "string \<Rightarrow> bool" where
  "digest_text s \<longleftrightarrow> length s = 64 \<and> list_all hex_char s"

text \<open>The value of a hexadecimal digit; text that is no digit counts as \<open>0\<close>.\<close>

definition hex_value :: "char \<Rightarrow> nat" where
  "hex_value c = (case find (\<lambda>i. hex_digit i = c) [0..<16] of Some i \<Rightarrow> i | None \<Rightarrow> 0)"

definition hex_nat :: "string \<Rightarrow> nat" where
  "hex_nat s = foldl (\<lambda>acc c. 16 * acc + hex_value c) 0 s"

lemma hex_value_less: "hex_value c < 16"
proof (cases "find (\<lambda>i. hex_digit i = c) [0..<16]")
  case (Some i)
  then have "i \<in> set [0..<16]" by (blast dest: find_SomeD)
  with Some show ?thesis by (simp add: hex_value_def)
qed (simp add: hex_value_def)

lemma hex_nat_foldl_less:
  "foldl (\<lambda>acc c. 16 * acc + hex_value c) a s < (a + 1) * 16 ^ length s"
proof (induction s arbitrary: a)
  case (Cons c s)
  have "foldl (\<lambda>acc c. 16 * acc + hex_value c) a (c # s) < (16 * a + hex_value c + 1) * 16 ^ length s"
    using Cons.IH [of "16 * a + hex_value c"] by simp
  also have "\<dots> \<le> (16 * (a + 1)) * 16 ^ length s"
    using hex_value_less [of c] by (intro mult_right_mono) auto
  finally show ?case by (simp add: algebra_simps)
qed simp

lemma hex_nat_less: "hex_nat s < 16 ^ length s"
  using hex_nat_foldl_less [of 0 s] by (simp add: hex_nat_def)

lemma hex_digit_inj: "i < 16 \<Longrightarrow> j < 16 \<Longrightarrow> hex_digit i = hex_digit j \<Longrightarrow> i = j"
proof -
  have "\<forall>i < 16. \<forall>j < 16. hex_digit i = hex_digit j \<longrightarrow> i = j" by code_simp
  then show "i < 16 \<Longrightarrow> j < 16 \<Longrightarrow> hex_digit i = hex_digit j \<Longrightarrow> i = j" by blast
qed

section \<open>Durations\<close>

text \<open>
  \<^verbatim>\<open>timedelta(seconds=x)\<close> keeps whole microseconds, rounded half to even. Seconds are exact
  rationals here: the code's doubles are represented exactly, its arithmetic on them without
  rounding error.
\<close>

definition round_half_even :: "rat \<Rightarrow> int" where
  "round_half_even x = (let f = \<lfloor>x\<rfloor>; d = x - of_int f
     in if d < 1/2 then f else if 1/2 < d then f + 1 else if even f then f else f + 1)"

definition timedelta_us :: "rat \<Rightarrow> int" where
  "timedelta_us s = round_half_even (s * 1000000)"

definition add_seconds :: "time \<Rightarrow> rat \<Rightarrow> time" where
  "add_seconds t s = t + timedelta_us s"

lemma round_half_even_bounds: "\<lfloor>x\<rfloor> \<le> round_half_even x \<and> round_half_even x \<le> \<lfloor>x\<rfloor> + 1"
  by (auto simp: round_half_even_def Let_def)

lemma round_half_even_int [simp]: "round_half_even (of_int n) = n"
  by (simp add: round_half_even_def Let_def)

lemma round_half_even_mono:
  assumes "x \<le> y" shows "round_half_even x \<le> round_half_even y"
proof (cases "\<lfloor>x\<rfloor> = \<lfloor>y\<rfloor>")
  case True
  with assms show ?thesis by (auto simp: round_half_even_def Let_def)
next
  case False
  with assms have "\<lfloor>x\<rfloor> + 1 \<le> \<lfloor>y\<rfloor>" using floor_mono [OF assms] by linarith
  then show ?thesis using round_half_even_bounds [of x] round_half_even_bounds [of y] by linarith
qed

lemma timedelta_us_mono: "x \<le> y \<Longrightarrow> timedelta_us x \<le> timedelta_us y"
  by (simp add: timedelta_us_def round_half_even_mono)

lemma timedelta_us_nonneg: "0 \<le> x \<Longrightarrow> 0 \<le> timedelta_us x"
  using timedelta_us_mono [of 0 x] by (simp add: timedelta_us_def round_half_even_def)

section \<open>Reachable states\<close>

inductive reachable :: "('s \<Rightarrow> bool) \<Rightarrow> ('s \<Rightarrow> 's \<Rightarrow> bool) \<Rightarrow> 's \<Rightarrow> bool"
  for init :: "'s \<Rightarrow> bool" and step :: "'s \<Rightarrow> 's \<Rightarrow> bool" where
  start: "init s \<Longrightarrow> reachable init step s"
| step: "reachable init step s \<Longrightarrow> step s t \<Longrightarrow> reachable init step t"

text \<open>The contract of a component whose every operation keeps an invariant.\<close>

locale invariant_system =
  fixes init :: "'s \<Rightarrow> bool" and step :: "'s \<Rightarrow> 's \<Rightarrow> bool" and inv :: "'s \<Rightarrow> bool"
  assumes init_inv: "init s \<Longrightarrow> inv s"
    and step_inv: "inv s \<Longrightarrow> step s t \<Longrightarrow> inv t"
begin

lemma reachable_inv: "reachable init step s \<Longrightarrow> inv s"
  by (induction rule: reachable.induct) (auto intro: init_inv step_inv)

lemma run_inv: "inv s \<Longrightarrow> step\<^sup>*\<^sup>* s t \<Longrightarrow> inv t"
  by (rotate_tac, induction rule: rtranclp_induct) (auto intro: step_inv)

end

text \<open>
  The contract of a component in which some rows are frozen: a row that satisfies \<open>frozen\<close> is
  the same after any number of operations.
\<close>

locale frozen_rows = invariant_system init step inv
  for init :: "'s \<Rightarrow> bool" and step :: "'s \<Rightarrow> 's \<Rightarrow> bool" and inv :: "'s \<Rightarrow> bool" +
  fixes row :: "'s \<Rightarrow> 'k \<Rightarrow> 'r option" and frozen :: "'r \<Rightarrow> bool" and view :: "'r \<Rightarrow> 'v"
  assumes frozen_step: "inv s \<Longrightarrow> step s t \<Longrightarrow> row s k = Some r \<Longrightarrow> frozen r \<Longrightarrow>
      \<exists>r'. row t k = Some r' \<and> frozen r' \<and> view r' = view r"
begin

lemma frozen_run:
  assumes "step\<^sup>*\<^sup>* s t" and "inv s" and "row s k = Some r" and "frozen r"
  shows "\<exists>r'. row t k = Some r' \<and> frozen r' \<and> view r' = view r"
  using assms(1)
proof (induction rule: rtranclp_induct)
  case base
  with assms show ?case by blast
next
  case (step t u)
  then obtain r' where r': "row t k = Some r'" "frozen r'" "view r' = view r" by blast
  have "inv t" using assms(2) step.hyps(1) by (rule run_inv)
  from frozen_step [OF this step.hyps(2) r'(1,2)] r'(3) show ?case by auto
qed

end

end
