(* ===== verification/Json.thy ===== *)
theory Json
  imports Prelude
begin

text \<open>
  Canonical JSON text, fingerprints and stable identifiers (\<^verbatim>\<open>canonical\<close> and
  \<^verbatim>\<open>fingerprint\<close> of documents/jobs/models.py, \<^verbatim>\<open>stable_id\<close> and \<^verbatim>\<open>Scope.identity\<close> of
  documents/models.py). SHA-256, the SHA-1 based version 5 UUID and the shortest decimal text of a
  double are functions of the record \<open>prims\<close>, an argument of every definition that uses them.
  The lemmas show that the text under a stable identifier determines its parts, and that the
  identity text of a scope determines the scope. \<open>JStr\<close> holds text of code points below 256,
  \<open>JText\<close> text of arbitrary code points (the source text that digestion and publication carry).
\<close>

record prims =
  sha256_hex :: "string \<Rightarrow> string"
  uuid5_url :: "string \<Rightarrow> uuid"
  float_repr :: "rat \<Rightarrow> string"

datatype json =
    JNull
  | JBool bool
  | JInt int
  | JFloat rat
  | JStr string
  | JText "nat list"
  | JArr "json list"
  | JObj "(string \<times> json) list"

section \<open>Printing\<close>

fun digits_rev :: "nat \<Rightarrow> string" where
  "digits_rev n = (if n < 10 then [hex_digit n] else hex_digit (n mod 10) # digits_rev (n div 10))"

declare digits_rev.simps [simp del]

definition nat_text :: "nat \<Rightarrow> string" where
  "nat_text n = rev (digits_rev n)"

definition int_text :: "int \<Rightarrow> string" where
  "int_text i = (if i < 0 then CHR ''-'' # nat_text (nat (- i)) else nat_text (nat i))"

definition quote_char :: char where "quote_char = CHR 0x22"
definition backslash :: char where "backslash = CHR 0x5C"

definition escape_char :: "char \<Rightarrow> string" where
  "escape_char c =
     (if c = quote_char then [backslash, quote_char]
      else if c = backslash then [backslash, backslash]
      else if c = CHR 0x0A then [backslash, CHR ''n'']
      else if c = CHR 0x0D then [backslash, CHR ''r'']
      else if c = CHR 0x09 then [backslash, CHR ''t'']
      else if c = CHR 0x08 then [backslash, CHR ''b'']
      else if c = CHR 0x0C then [backslash, CHR ''f'']
      else if CHR 0x20 \<le> c \<and> c \<le> CHR 0x7E then [c]
      else [backslash, CHR ''u'', CHR ''0'', CHR ''0'',
            hex_digit (of_char c div 16), hex_digit (of_char c mod 16)])"

definition json_string :: "string \<Rightarrow> string" where
  "json_string s = quote_char # concat (map escape_char s) @ [quote_char]"

text \<open>Text of arbitrary code points: beyond Latin-1 a character is printed as its four hexadecimal
  digits, beyond the basic plane as the two surrogates of UTF-16.\<close>

definition escape_unit :: "nat \<Rightarrow> string" where
  "escape_unit n = [backslash, CHR ''u'', hex_digit (n div 4096), hex_digit (n div 256), hex_digit (n div 16), hex_digit n]"

definition escape_point :: "nat \<Rightarrow> string" where
  "escape_point n =
     (if n < 256 then escape_char (char_of n)
      else if n < 0x10000 then escape_unit n
      else escape_unit (0xd800 + (n - 0x10000) div 1024) @ escape_unit (0xdc00 + (n - 0x10000) mod 1024))"

definition json_text :: "nat list \<Rightarrow> string" where
  "json_text t = quote_char # concat (map escape_point t) @ [quote_char]"

fun comma_join :: "string list \<Rightarrow> string" where
  "comma_join [] = []"
| "comma_join [x] = x"
| "comma_join (x # y # zs) = x @ '','' @ comma_join (y # zs)"

function canonical :: "prims \<Rightarrow> json \<Rightarrow> string" where
  "canonical H JNull = ''null''"
| "canonical H (JBool b) = (if b then ''true'' else ''false'')"
| "canonical H (JInt i) = int_text i"
| "canonical H (JFloat x) = float_repr H x"
| "canonical H (JStr s) = json_string s"
| "canonical H (JText t) = json_text t"
| "canonical H (JArr vs) = ''['' @ comma_join (map (canonical H) vs) @ '']''"
| "canonical H (JObj kvs) =
     ''{'' @ comma_join (map (\<lambda>(k, v). json_string k @ '':'' @ canonical H v) (sort_key fst kvs)) @ ''}''"
  by pat_completeness auto

lemma size_json_obj: "(k, v) \<in> set kvs \<Longrightarrow> size v < Suc (size_list (size_prod (\<lambda>_. 0) size) kvs)"
  by (induction kvs) auto

termination canonical
proof (relation "measure (\<lambda>(H, v). size v)", goal_cases)
  case (2 H vs x)
  then show ?case by (induction vs) (auto simp: less_Suc_eq_le)
next
  case (3 H kvs x xa y)
  then show ?case using size_json_obj [of xa y kvs] by (simp add: case_prod_unfold)
qed simp

definition fingerprint :: "prims \<Rightarrow> json \<Rightarrow> string" where
  "fingerprint H v = sha256_hex H (canonical H v)"

definition stable_name :: "string list \<Rightarrow> string" where
  "stable_name parts = ''['' @ comma_join (map json_string parts) @ '']''"

definition stable_id :: "prims \<Rightarrow> string list \<Rightarrow> uuid" where
  "stable_id H parts = uuid5_url H (stable_name parts)"

section \<open>UUID text and scopes\<close>

definition uuid_nibble :: "uuid \<Rightarrow> nat \<Rightarrow> nat" where
  "uuid_nibble u i = unat u div 16 ^ (31 - i) mod 16"

definition uuid_hex :: "uuid \<Rightarrow> string" where
  "uuid_hex u = map (\<lambda>i. hex_digit (uuid_nibble u i)) [0..<32]"

definition uuid_text :: "uuid \<Rightarrow> string" where
  "uuid_text u = (let h = uuid_hex u
     in take 8 h @ ''-'' @ take 4 (drop 8 h) @ ''-'' @ take 4 (drop 12 h) @ ''-''
        @ take 4 (drop 16 h) @ ''-'' @ drop 20 h)"

record scope =
  tenant :: uuid
  owner :: uuid

definition scope_identity :: "scope \<Rightarrow> string" where
  "scope_identity s = uuid_text (tenant s) @ '':'' @ uuid_text (owner s)"

section \<open>The printed text determines the value\<close>

lemma of_char_less_256: "(of_char c :: nat) < 256"
  by (metis atLeastLessThan_iff rangeI range_nat_of_char)

lemma hex_pair_char:
  assumes "hex_digit (of_char c div 16) = hex_digit (of_char d div 16)"
    and "hex_digit (of_char c mod 16) = hex_digit (of_char d mod 16)"
  shows "c = d"
proof -
  have "(of_char e :: nat) div 16 < 16" for e
    using of_char_less_256 [of e] by (intro less_mult_imp_div_less) simp
  then have "(of_char c :: nat) div 16 = of_char d div 16"
    using assms(1) by (intro hex_digit_inj)
  moreover have "(of_char c :: nat) mod 16 = of_char d mod 16"
    using assms(2) by (intro hex_digit_inj) auto
  ultimately have "(of_char c :: nat) = of_char d" by (metis div_mod_decomp)
  then show ?thesis by simp
qed

lemma escape_char_prefix_free:
  assumes "escape_char c @ xs = escape_char d @ ys"
  shows "c = d \<and> xs = ys"
  using assms hex_pair_char [of c d]
  by (auto simp: escape_char_def quote_char_def backslash_def split: if_splits)

lemma escape_char_not_quote: "escape_char c @ xs \<noteq> quote_char # ys"
  by (auto simp: escape_char_def quote_char_def backslash_def)

lemma escape_string_inj:
  assumes "concat (map escape_char s) @ quote_char # xs = concat (map escape_char t) @ quote_char # ys"
  shows "s = t \<and> xs = ys"
  using assms
proof (induction s arbitrary: t)
  case Nil
  then show ?case
    using escape_char_not_quote by (cases t) (auto, metis)
next
  case (Cons c s)
  show ?case
  proof (cases t)
    case Nil
    with Cons.prems show ?thesis by (auto simp: escape_char_not_quote)
  next
    case (Cons d t')
    with Cons.prems
    have "escape_char c @ (concat (map escape_char s) @ quote_char # xs)
        = escape_char d @ (concat (map escape_char t') @ quote_char # ys)" by simp
    from escape_char_prefix_free [OF this] Cons Cons.IH [of t'] show ?thesis by auto
  qed
qed

lemma json_string_inj: "json_string s @ xs = json_string t @ ys \<Longrightarrow> s = t \<and> xs = ys"
  using escape_string_inj [of s xs t ys] by (simp add: json_string_def)

lemma json_string_head: "json_string s @ xs \<noteq> CHR '']'' # ys"
  by (simp add: json_string_def quote_char_def)

lemma comma_join_Cons:
  "comma_join (x # xs) = x @ (if xs = [] then [] else '','' @ comma_join xs)"
  by (cases xs) auto

lemma join_strings_inj:
  assumes "comma_join (map json_string xs) @ '']'' = comma_join (map json_string ys) @ '']''"
  shows "xs = ys"
  using assms
proof (induction xs arbitrary: ys)
  case Nil
  then show ?case by (cases ys) (auto simp: comma_join_Cons json_string_def quote_char_def)
next
  case (Cons x xs)
  show ?case
  proof (cases ys)
    case Nil
    with Cons.prems show ?thesis by (auto simp: comma_join_Cons json_string_def quote_char_def)
  next
    case (Cons y ys')
    have "json_string x @ ((if xs = [] then [] else '','' @ comma_join (map json_string xs)) @ '']'')
        = json_string y @ ((if ys' = [] then [] else '','' @ comma_join (map json_string ys')) @ '']'')"
      using Cons.prems Cons by (simp add: comma_join_Cons)
    from json_string_inj [OF this] Cons Cons.IH [of ys'] show ?thesis
      by (auto split: if_splits)
  qed
qed

lemma stable_name_inj: "stable_name ps = stable_name qs \<Longrightarrow> ps = qs"
  using join_strings_inj [of ps qs] by (simp add: stable_name_def)

lemma nibble_shift: "(n::nat) div 16 ^ k = 16 * (n div 16 ^ Suc k) + n div 16 ^ k mod 16"
  by (metis div_mult2_eq mult.commute mult_div_mod_eq power_Suc2)

lemma nibbles_inj:
  assumes "\<forall>i < n. (a::nat) div 16 ^ i mod 16 = b div 16 ^ i mod 16"
    and "a < 16 ^ n" and "b < 16 ^ n"
  shows "a = b"
proof -
  have "k \<le> n \<Longrightarrow> a div 16 ^ (n - k) = b div 16 ^ (n - k)" for k
  proof (induction k)
    case 0
    with assms(2,3) show ?case by simp
  next
    case (Suc k)
    then have s: "n - k = Suc (n - Suc k)" "n - Suc k < n" by auto
    with Suc have "a div 16 ^ Suc (n - Suc k) = b div 16 ^ Suc (n - Suc k)" by simp
    moreover have "a div 16 ^ (n - Suc k) mod 16 = b div 16 ^ (n - Suc k) mod 16"
      using assms(1) s(2) by blast
    ultimately show ?case using nibble_shift [of a "n - Suc k"] nibble_shift [of b "n - Suc k"] by simp
  qed
  from this [of n] show ?thesis by simp
qed

lemma uuid_hex_length [simp]: "length (uuid_hex u) = 32"
  by (simp add: uuid_hex_def)

lemma uuid_text_length: "length (uuid_text u) = 36"
  by (simp add: uuid_text_def Let_def)

lemma split_hex: "h = take 8 h @ take 4 (drop 8 h) @ take 4 (drop 12 h) @ take 4 (drop 16 h) @ drop 20 h"
proof -
  have "drop 16 h = take 4 (drop 16 h) @ drop 20 h"
    and "drop 12 h = take 4 (drop 12 h) @ drop 16 h"
    and "drop 8 h = take 4 (drop 8 h) @ drop 12 h"
    using append_take_drop_id [of 4 "drop 16 h"] append_take_drop_id [of 4 "drop 12 h"]
      append_take_drop_id [of 4 "drop 8 h"] by simp_all
  then show ?thesis using append_take_drop_id [of 8 h] by metis
qed

lemma uuid_text_hex: "uuid_text u = uuid_text v \<Longrightarrow> uuid_hex u = uuid_hex v"
  using split_hex [of "uuid_hex u"] split_hex [of "uuid_hex v"]
  by (simp add: uuid_text_def Let_def append_eq_append_conv)

lemma uuid_hex_inj: "uuid_hex u = uuid_hex v \<Longrightarrow> u = v"
proof -
  assume eq: "uuid_hex u = uuid_hex v"
  have nib: "uuid_nibble u i = uuid_nibble v i" if "i < 32" for i
  proof -
    have "uuid_hex u ! i = uuid_hex v ! i" using eq by simp
    then have "hex_digit (uuid_nibble u i) = hex_digit (uuid_nibble v i)"
      using that by (simp add: uuid_hex_def del: upt_rec_numeral)
    then show ?thesis by (intro hex_digit_inj) (auto simp: uuid_nibble_def)
  qed
  have "unat u div 16 ^ i mod 16 = unat v div 16 ^ i mod 16" if "i < 32" for i
    using nib [of "31 - i"] that by (simp add: uuid_nibble_def)
  moreover have "unat u < 16 ^ 32" "unat v < 16 ^ 32"
    using unsigned_less [of u, where 'a = nat] unsigned_less [of v, where 'a = nat] by simp_all
  ultimately have "unat u = unat v" by (intro nibbles_inj [of 32]) auto
  then show "u = v" by (metis word_unat_eq_iff)
qed

lemma uuid_text_inj: "uuid_text u = uuid_text v \<Longrightarrow> u = v"
  by (intro uuid_hex_inj uuid_text_hex)

lemma scope_identity_inj: "scope_identity s = scope_identity t \<Longrightarrow> s = t"
  using uuid_text_inj by (auto simp: scope_identity_def append_eq_append_conv uuid_text_length)

lemma scope_identity_eq_iff [simp]: "scope_identity s = scope_identity t \<longleftrightarrow> s = t"
  using scope_identity_inj by blast

text \<open>One instance of the primitives, with constant digests and identifiers, for the concrete
  examples of the development.\<close>

definition sample_prims :: prims where
  "sample_prims = \<lparr>sha256_hex = (\<lambda>s. replicate 64 CHR ''0''), uuid5_url = (\<lambda>s. 7), float_repr = (\<lambda>x. ''1.0'')\<rparr>"

lemma sample_fingerprint [simp]: "fingerprint sample_prims j = replicate 64 CHR ''0''"
  by (simp add: fingerprint_def sample_prims_def)

lemma sample_stable_id [simp]: "stable_id sample_prims xs = 7"
  by (simp add: stable_id_def sample_prims_def)

end
