(* ===== verification/JobModels.thy ===== *)
theory JobModels
  imports Json
begin

text \<open>
  The orchestration contracts of documents/jobs/models.py and documents/jobs/errors.py, with the
  object references of documents/models.py that they use: states, retry policy, processing
  profile, step specification and admission request as records, the validators as predicates, the
  JSON dumps that the fingerprints are taken of, and the sanitised failure taxonomy.
\<close>

section \<open>Object references\<close>

datatype object_kind = Source | Artifact

fun kind_text :: "object_kind \<Rightarrow> string" where
  "kind_text Source = ''source''"
| "kind_text Artifact = ''artifact''"

record object_ref =
  or_scope :: scope
  or_kind :: object_kind
  or_object_id :: uuid
  or_key :: uuid
  or_sha256 :: string
  or_byte_size :: int

definition object_key :: "prims \<Rightarrow> scope \<Rightarrow> object_kind \<Rightarrow> uuid \<Rightarrow> uuid" where
  "object_key H sc kind oid = stable_id H [scope_identity sc, kind_text kind, uuid_text oid]"

definition object_ref_valid :: "prims \<Rightarrow> object_ref \<Rightarrow> bool" where
  "object_ref_valid H r \<longleftrightarrow> digest_text (or_sha256 r) \<and> 0 \<le> or_byte_size r
     \<and> or_key r = object_key H (or_scope r) (or_kind r) (or_object_id r)"

section \<open>States\<close>

datatype job_state =
    J_QUEUED | J_EXTRACTING | J_NORMALIZING | J_VALIDATING | J_COMPLETED | J_FAILED
  | J_CANCEL_REQUESTED | J_CANCELLED | J_PARTIAL

datatype step_state =
    S_PENDING | S_READY | S_RUNNING | S_RETRY_WAIT | S_SUCCEEDED | S_FAILED | S_CANCELLED

datatype stage = EXTRACTING | NORMALIZING | VALIDATING

fun stage_text :: "stage \<Rightarrow> string" where
  "stage_text EXTRACTING = ''EXTRACTING''"
| "stage_text NORMALIZING = ''NORMALIZING''"
| "stage_text VALIDATING = ''VALIDATING''"

fun stage_job_state :: "stage \<Rightarrow> job_state" where
  "stage_job_state EXTRACTING = J_EXTRACTING"
| "stage_job_state NORMALIZING = J_NORMALIZING"
| "stage_job_state VALIDATING = J_VALIDATING"

definition terminal_job :: "job_state \<Rightarrow> bool" where
  "terminal_job s \<longleftrightarrow> s \<in> {J_COMPLETED, J_FAILED, J_CANCELLED, J_PARTIAL}"

definition active_step :: "step_state \<Rightarrow> bool" where
  "active_step s \<longleftrightarrow> s \<in> {S_PENDING, S_READY, S_RETRY_WAIT, S_RUNNING}"

section \<open>Retry policy\<close>

record retry_policy =
  max_attempts :: int
  base_seconds :: rat
  max_seconds :: rat
  budget_seconds :: rat
  jitter_fraction :: rat

definition retry_valid :: "retry_policy \<Rightarrow> bool" where
  "retry_valid p \<longleftrightarrow> 1 \<le> max_attempts p \<and> max_attempts p \<le> 100
     \<and> 0 < base_seconds p \<and> base_seconds p \<le> 86400
     \<and> 0 < max_seconds p \<and> max_seconds p \<le> 86400
     \<and> 0 < budget_seconds p \<and> budget_seconds p \<le> 604800
     \<and> 0 \<le> jitter_fraction p \<and> jitter_fraction p \<le> 1"

definition jitter :: "prims \<Rightarrow> string \<Rightarrow> int \<Rightarrow> rat" where
  "jitter H key attempt =
     of_nat (hex_nat (take 8 (fingerprint H (JArr [JStr key, JInt attempt])))) / 4294967295"

definition delay :: "prims \<Rightarrow> retry_policy \<Rightarrow> string \<Rightarrow> int \<Rightarrow> rat" where
  "delay H p key attempt =
     min (max_seconds p) (base_seconds p * 2 ^ nat (attempt - 1))
       * (1 - jitter_fraction p * jitter H key attempt)"

section \<open>Profiles, steps, admissions\<close>

record processing_profile =
  pf_version :: string
  pf_parser_version :: string
  pf_max_source_bytes :: int
  pf_max_pages :: int
  pf_max_characters :: int
  pf_max_blocks :: int
  pf_max_artifact_bytes :: int
  pf_structure_required :: bool
  pf_retry :: retry_policy

definition profile_valid :: "processing_profile \<Rightarrow> bool" where
  "profile_valid p \<longleftrightarrow> token_text 128 (pf_version p) \<and> token_text 128 (pf_parser_version p)
     \<and> 0 < pf_max_source_bytes p \<and> 0 < pf_max_pages p \<and> 0 < pf_max_characters p
     \<and> 0 < pf_max_blocks p \<and> 0 < pf_max_artifact_bytes p \<and> retry_valid (pf_retry p)"

record step_spec =
  sp_unit_id :: string
  sp_stage :: stage
  sp_schema_version :: string
  sp_config_fingerprint :: string
  sp_depends_on :: "string list"

definition spec_valid :: "step_spec \<Rightarrow> bool" where
  "spec_valid s \<longleftrightarrow> token_text 128 (sp_unit_id s) \<and> token_text 128 (sp_schema_version s)
     \<and> digest_text (sp_config_fingerprint s) \<and> list_all (token_text 128) (sp_depends_on s)"

datatype mime = Text_plain | Application_pdf

fun mime_text :: "mime \<Rightarrow> string" where
  "mime_text Text_plain = ''text/plain''"
| "mime_text Application_pdf = ''application/pdf''"

record admission =
  ad_scope :: scope
  ad_document_id :: uuid
  ad_version_id :: uuid
  ad_source :: object_ref
  ad_request_key :: string
  ad_display_filename :: string
  ad_mime :: mime
  ad_profile :: processing_profile
  ad_steps :: "step_spec list"
  ad_resume_from :: "uuid option"

text \<open>The loop of \<^verbatim>\<open>Admission.valid\<close>: every step is new and depends on earlier steps only.\<close>

fun plan_ok :: "string list \<Rightarrow> step_spec list \<Rightarrow> bool" where
  "plan_ok seen [] \<longleftrightarrow> True"
| "plan_ok seen (s # ss) \<longleftrightarrow> sp_unit_id s \<notin> set seen \<and> set (sp_depends_on s) \<subseteq> set seen
     \<and> distinct (sp_depends_on s) \<and> plan_ok (sp_unit_id s # seen) ss"

definition version_id :: "prims \<Rightarrow> scope \<Rightarrow> uuid \<Rightarrow> string \<Rightarrow> uuid" where
  "version_id H sc doc sha = stable_id H [scope_identity sc, uuid_text doc, sha]"

definition admission_valid :: "prims \<Rightarrow> admission \<Rightarrow> bool" where
  "admission_valid H a \<longleftrightarrow>
     (let expected = version_id H (ad_scope a) (ad_document_id a) (or_sha256 (ad_source a))
      in object_ref_valid H (ad_source a) \<and> token_text 128 (ad_request_key a)
         \<and> length (ad_display_filename a) \<le> 512 \<and> profile_valid (ad_profile a)
         \<and> list_all spec_valid (ad_steps a)
         \<and> or_scope (ad_source a) = ad_scope a \<and> or_kind (ad_source a) = Source
         \<and> ad_version_id a = expected \<and> or_object_id (ad_source a) = expected
         \<and> or_byte_size (ad_source a) \<le> pf_max_source_bytes (ad_profile a)
         \<and> 1 \<le> length (ad_steps a) \<and> length (ad_steps a) \<le> 1000
         \<and> plan_ok [] (ad_steps a))"

section \<open>JSON dumps and fingerprints\<close>

definition uuid_json :: "uuid \<Rightarrow> json" where "uuid_json u = JStr (uuid_text u)"

definition scope_json :: "scope \<Rightarrow> json" where
  "scope_json s = JObj [(''tenant'', uuid_json (tenant s)), (''owner'', uuid_json (owner s))]"

definition ref_json :: "object_ref \<Rightarrow> json" where
  "ref_json r = JObj [(''scope'', scope_json (or_scope r)), (''kind'', JStr (kind_text (or_kind r))),
     (''object_id'', uuid_json (or_object_id r)), (''key'', uuid_json (or_key r)),
     (''sha256'', JStr (or_sha256 r)), (''byte_size'', JInt (or_byte_size r)),
     (''hash_algorithm'', JStr ''sha256'')]"

definition retry_json :: "retry_policy \<Rightarrow> json" where
  "retry_json p = JObj [(''max_attempts'', JInt (max_attempts p)),
     (''base_seconds'', JFloat (base_seconds p)), (''max_seconds'', JFloat (max_seconds p)),
     (''budget_seconds'', JFloat (budget_seconds p)), (''jitter_fraction'', JFloat (jitter_fraction p))]"

definition profile_json :: "processing_profile \<Rightarrow> json" where
  "profile_json p = JObj [(''version'', JStr (pf_version p)), (''artifact_schema'', JStr ''extraction/1''),
     (''extraction_profile'', JStr ''native/1''), (''normalization_profile'', JStr ''identity/1''),
     (''policy_profile'', JStr ''native-policy/1''), (''parser_version'', JStr (pf_parser_version p)),
     (''max_source_bytes'', JInt (pf_max_source_bytes p)), (''max_pages'', JInt (pf_max_pages p)),
     (''max_characters'', JInt (pf_max_characters p)), (''max_blocks'', JInt (pf_max_blocks p)),
     (''max_artifact_bytes'', JInt (pf_max_artifact_bytes p)),
     (''structure_required'', JBool (pf_structure_required p)), (''retry'', retry_json (pf_retry p))]"

definition profile_digest :: "prims \<Rightarrow> processing_profile \<Rightarrow> string" where
  "profile_digest H p = fingerprint H (profile_json p)"

definition spec_json :: "step_spec \<Rightarrow> json" where
  "spec_json s = JObj [(''unit_id'', JStr (sp_unit_id s)), (''stage'', JStr (stage_text (sp_stage s))),
     (''schema_version'', JStr (sp_schema_version s)),
     (''config_fingerprint'', JStr (sp_config_fingerprint s)),
     (''depends_on'', JArr (map JStr (sp_depends_on s)))]"

definition admission_fields :: "admission \<Rightarrow> (string \<times> json) list" where
  "admission_fields a = [(''scope'', scope_json (ad_scope a)), (''document_id'', uuid_json (ad_document_id a)),
     (''document_version_id'', uuid_json (ad_version_id a)), (''source'', ref_json (ad_source a)),
     (''display_filename'', JStr (ad_display_filename a)), (''mime'', JStr (mime_text (ad_mime a)))]"

definition admission_digest :: "prims \<Rightarrow> admission \<Rightarrow> string" where
  "admission_digest H a = fingerprint H (JObj (admission_fields a
     @ [(''profile'', profile_json (ad_profile a)), (''steps'', JArr (map spec_json (ad_steps a))),
        (''resume_from'', case ad_resume_from a of None \<Rightarrow> JNull | Some u \<Rightarrow> uuid_json u)]))"

definition compatibility :: "prims \<Rightarrow> admission \<Rightarrow> string" where
  "compatibility H a = fingerprint H (JObj (admission_fields a
     @ [(''profile'', JStr (profile_digest H (ad_profile a)))]))"

section \<open>Failures\<close>

definition document_categories :: "string list" where
  "document_categories = [''unsupported_format'', ''invalid_document'', ''encrypted_document'',
     ''source_too_large'', ''page_limit_exceeded'', ''extraction_limit_exceeded'',
     ''extraction_failed'', ''integrity_error'', ''storage_error'', ''object_conflict'',
     ''object_not_found'', ''scope_mismatch'', ''serialization_error'', ''invalid_reference'']"

definition categories :: "string list" where
  "categories = document_categories @ [''idempotency_conflict'', ''invalid_transition'',
     ''job_not_found'', ''step_not_found'', ''lease_conflict'', ''stale_fence'', ''lease_expired'',
     ''retry_exhausted'', ''cancelled'', ''ledger_error'', ''dispatch_error'', ''manifest_conflict'',
     ''invalid_configuration'', ''schema_mismatch'', ''worker_interrupted'', ''worker_failed'',
     ''profile_mismatch'', ''inference_rate_limited'', ''inference_timeout'',
     ''inference_unavailable'', ''inference_authentication'', ''inference_configuration'',
     ''inference_invalid_response'', ''inference_context_exceeded'', ''inference_output_limit'',
     ''inference_unknown'', ''governance_denied'', ''security_denied'']"

definition job_error :: "string \<Rightarrow> string" where
  "job_error category = (if category \<in> set categories then category else ''ledger_error'')"

datatype classification = RETRYABLE | NON_RETRYABLE | C_CANCELLED

record failure =
  fl_category :: string
  fl_classification :: classification
  fl_retry_after :: "rat option"

definition sanitized :: "failure \<Rightarrow> failure" where
  "sanitized f = f\<lparr>fl_category :=
     (if fl_category f \<in> set categories then fl_category f else ''worker_failed'')\<rparr>"

text \<open>The exceptions that cross the worker: the errors of documents and jobs and the failures of the
  digestion package with their categories, and any other exception.\<close>

datatype exception_value = Document_error string | Job_error string | Digestion_error_value string | Other_exception

definition classify :: "exception_value \<Rightarrow> bool \<Rightarrow> failure" where
  "classify err transient_storage =
     (let raw = (case err of Document_error c \<Rightarrow> c | Job_error c \<Rightarrow> c | _ \<Rightarrow> ''worker_failed'');
          category = (if raw \<in> set categories then raw else ''worker_failed'');
          kind = (if category = ''cancelled'' then C_CANCELLED
                  else if category = ''worker_interrupted''
                       \<or> (category = ''storage_error'' \<and> transient_storage) then RETRYABLE
                  else NON_RETRYABLE)
      in \<lparr>fl_category = category, fl_classification = kind, fl_retry_after = None\<rparr>)"

section \<open>Lemmas\<close>

lemma terminal_job_simps [simp]:
  "terminal_job J_COMPLETED" "terminal_job J_FAILED" "terminal_job J_CANCELLED" "terminal_job J_PARTIAL"
  "\<not> terminal_job J_QUEUED" "\<not> terminal_job J_CANCEL_REQUESTED" "\<not> terminal_job (stage_job_state s)"
  by (cases s; simp add: terminal_job_def)+

lemma active_step_simps [simp]:
  "active_step S_PENDING" "active_step S_READY" "active_step S_RETRY_WAIT" "active_step S_RUNNING"
  "\<not> active_step S_SUCCEEDED" "\<not> active_step S_FAILED" "\<not> active_step S_CANCELLED"
  by (simp_all add: active_step_def)

lemma jitter_bounds: "0 \<le> jitter H key n \<and> jitter H key n \<le> 1"
proof -
  let ?t = "take 8 (fingerprint H (JArr [JStr key, JInt n]))"
  have "hex_nat ?t < 16 ^ length ?t" by (rule hex_nat_less)
  also have "(16::nat) ^ length ?t \<le> 16 ^ 8" by (intro power_increasing) auto
  finally have "hex_nat ?t \<le> 4294967295" by simp
  then have "(of_nat (hex_nat ?t) :: rat) \<le> 4294967295"
    by (metis of_nat_le_iff of_nat_numeral)
  then show ?thesis by (simp add: jitter_def divide_simps)
qed

lemma delay_bounds:
  assumes "retry_valid p"
  shows "0 \<le> delay H p key n" and "delay H p key n \<le> max_seconds p"
proof -
  let ?m = "min (max_seconds p) (base_seconds p * 2 ^ nat (n - 1))"
  let ?j = "jitter_fraction p * jitter H key n"
  have m: "0 \<le> ?m" using assms by (simp add: retry_valid_def)
  have j: "0 \<le> ?j" "?j \<le> 1"
    using assms jitter_bounds [of H key n] by (auto simp: retry_valid_def mult_le_one)
  from m j show "0 \<le> delay H p key n" by (simp add: delay_def)
  have "delay H p key n \<le> ?m * 1" unfolding delay_def using m j by (intro mult_left_mono) auto
  then show "delay H p key n \<le> max_seconds p" by simp
qed

lemma plan_ok_units:
  "plan_ok seen ss \<Longrightarrow> distinct (map sp_unit_id ss) \<and> set (map sp_unit_id ss) \<inter> set seen = {}"
  by (induction seen ss rule: plan_ok.induct) auto

lemma plan_ok_deps:
  "plan_ok seen ss \<Longrightarrow> i < length ss \<Longrightarrow>
     set (sp_depends_on (ss ! i)) \<subseteq> set seen \<union> sp_unit_id ` set (take i ss)"
proof (induction seen ss arbitrary: i rule: plan_ok.induct)
  case (2 seen s ss)
  then show ?case by (cases i) fastforce+
qed simp

lemma categories_closed [simp]: "job_error c \<in> set categories"
  by (simp add: job_error_def categories_def)

end
