(* ===== verification/ObjectStore.thy ===== *)
theory ObjectStore
  imports JobModels
begin

text \<open>
  The immutable object store of documents/storage.py. The store directory is a map from object
  keys to entries; \<open>Special\<close> is an entry that is not a regular file with one link. The
  temporary file of \<open>put\<close> is gone when the operation ends and is not part of the state. Faults
  of the operating system, which the code reports as \<open>storage_error\<close>, are not modelled. The
  SHA-256 of bytes is the parameter \<open>sha\<close>.
\<close>

type_synonym bytes = "8 word list"

datatype entry = File bytes | Special

type_synonym obj_store = "uuid \<rightharpoonup> entry"

text \<open>\<^verbatim>\<open>stream.read(n)\<close>: a negative count reads everything.\<close>

definition py_read :: "int \<Rightarrow> 'a list \<Rightarrow> 'a list \<times> 'a list" where
  "py_read n rest = (if n < 0 then (rest, []) else (take (nat n) rest, drop (nat n) rest))"

text \<open>The bounded chunk loop of \<open>put\<close>, \<open>_read\<close> and \<open>IntentStore.put\<close>.\<close>

function read_loop :: "int \<Rightarrow> 'a list \<Rightarrow> 'a list \<Rightarrow> string + 'a list" where
  "read_loop m acc rest =
     (case py_read (min 65536 (m - int (length acc) + 1)) rest of (chunk, rest') \<Rightarrow>
        if chunk = [] then Inr acc
        else if int (length acc + length chunk) > m then Inl ''source_too_large''
        else read_loop m (acc @ chunk) rest')"
  by pat_completeness auto
termination read_loop
proof (relation "measure (\<lambda>(m, acc, rest). length rest)", simp, goal_cases)
  case 1
  then show ?case by (auto simp: py_read_def split: if_splits)
qed

declare read_loop.simps [simp del]

lemma read_loop_result:
  assumes "int (length acc) \<le> m"
  shows "read_loop m acc rest = (if int (length acc + length rest) \<le> m then Inr (acc @ rest) else Inl ''source_too_large'')"
  using assms
proof (induction m acc rest rule: read_loop.induct)
  case (1 m acc rest)
  let ?n = "min 65536 (m - int (length acc) + 1)"
  have n: "0 < ?n" using 1(2) by simp
  then have rd: "py_read ?n rest = (take (nat ?n) rest, drop (nat ?n) rest)" by (simp add: py_read_def)
  show ?case
  proof (cases "rest = []")
    case True
    then show ?thesis using 1(2) rd by (simp add: read_loop.simps [of m acc])
  next
    case False
    let ?c = "take (nat ?n) rest"
    have c: "?c \<noteq> []" using False n by simp
    show ?thesis
    proof (cases "int (length acc + length ?c) > m")
      case True
      then have "int (length acc + length rest) > m" by (simp add: min_def split: if_splits)
      with True c show ?thesis by (simp add: read_loop.simps [of m acc] rd)
    next
      case ok: False
      have "read_loop m (acc @ ?c) (drop (nat ?n) rest) =
          (if int (length acc + length rest) \<le> m then Inr (acc @ rest) else Inl ''source_too_large'')"
        using 1(1) [OF rd [symmetric] c ok] ok by (simp add: min_def split: if_splits)
      with ok c show ?thesis by (simp add: read_loop.simps [of m acc] rd)
    qed
  qed
qed

section \<open>Operations\<close>

definition check_ref :: "prims \<Rightarrow> scope \<Rightarrow> object_ref \<Rightarrow> int \<Rightarrow> string + unit" where
  "check_ref H sc ref m =
     (if sc \<noteq> or_scope ref then Inl ''scope_mismatch''
      else if m < 1 \<or> or_byte_size ref > m then Inl ''source_too_large''
      else if or_key ref \<noteq> object_key H sc (or_kind ref) (or_object_id ref) then Inl ''invalid_reference''
      else Inr ())"

definition read_object :: "(bytes \<Rightarrow> string) \<Rightarrow> obj_store \<Rightarrow> object_ref \<Rightarrow> int \<Rightarrow> string + bytes" where
  "read_object sha d ref m =
     (case d (or_key ref) of
        None \<Rightarrow> Inl ''object_not_found''
      | Some Special \<Rightarrow> Inl ''storage_error''
      | Some (File content) \<Rightarrow>
          if int (length content) > m then Inl ''source_too_large''
          else sbind (read_loop m [] content) (\<lambda>data.
            if int (length data) \<noteq> or_byte_size ref \<or> sha data \<noteq> or_sha256 ref then Inl ''integrity_error''
            else Inr data))"

definition put_ref :: "prims \<Rightarrow> (bytes \<Rightarrow> string) \<Rightarrow> scope \<Rightarrow> object_kind \<Rightarrow> uuid \<Rightarrow> bytes \<Rightarrow> object_ref" where
  "put_ref H sha sc kind oid data = \<lparr>or_scope = sc, or_kind = kind, or_object_id = oid,
     or_key = object_key H sc kind oid, or_sha256 = sha data, or_byte_size = int (length data)\<rparr>"

definition put_object :: "prims \<Rightarrow> (bytes \<Rightarrow> string) \<Rightarrow> scope \<Rightarrow> object_kind \<Rightarrow> uuid \<Rightarrow> bytes \<Rightarrow> int \<Rightarrow> string option
    \<Rightarrow> (string, obj_store, object_ref) txn" where
  "put_object H sha sc kind oid stream m expected d =
     (if m < 1 then Inl ''invalid_reference''
      else sbind (read_loop m [] stream) (\<lambda>data.
        if (case expected of None \<Rightarrow> False | Some e \<Rightarrow> sha data \<noteq> e) then Inl ''integrity_error''
        else let ref = put_ref H sha sc kind oid data in
          (case d (or_key ref) of
             None \<Rightarrow> Inr (ref, d(or_key ref \<mapsto> File data))
           | Some _ \<Rightarrow> (case read_object sha d ref m of
               Inl e \<Rightarrow> Inl (if e \<in> {''integrity_error'', ''source_too_large''} then ''object_conflict'' else e)
             | Inr _ \<Rightarrow> Inr (ref, d)))))"

definition store_read :: "prims \<Rightarrow> (bytes \<Rightarrow> string) \<Rightarrow> obj_store \<Rightarrow> scope \<Rightarrow> object_ref \<Rightarrow> int \<Rightarrow> string + bytes" where
  "store_read H sha d sc ref m = sbind (check_ref H sc ref m) (\<lambda>_. read_object sha d ref m)"

definition store_inspect :: "prims \<Rightarrow> (bytes \<Rightarrow> string) \<Rightarrow> obj_store \<Rightarrow> scope \<Rightarrow> object_ref \<Rightarrow> int \<Rightarrow> string + object_ref" where
  "store_inspect H sha d sc ref m = sbind (store_read H sha d sc ref m) (\<lambda>_. Inr ref)"

section \<open>The contract of an immutable store\<close>

text \<open>
  A store that never overwrites: what a key holds after any put is what it held before, and a
  successful put leaves a readable object.
\<close>

locale write_once =
  fixes put :: "'k \<Rightarrow> 'd \<Rightarrow> 's \<Rightarrow> 's option" and lookup :: "'s \<Rightarrow> 'k \<Rightarrow> 'v option" and view :: "'d \<Rightarrow> 'v"
  assumes put_kept: "put k d s = Some s' \<Longrightarrow> lookup s k' = Some w \<Longrightarrow> lookup s' k' = Some w"
    and put_found: "put k d s = Some s' \<Longrightarrow> lookup s' k = Some (view d)"
begin

fun puts :: "('k \<times> 'd) list \<Rightarrow> 's \<Rightarrow> 's" where
  "puts [] s = s"
| "puts ((k, d) # kds) s = (case put k d s of None \<Rightarrow> puts kds s | Some s' \<Rightarrow> puts kds s')"

lemma puts_kept: "lookup s k = Some w \<Longrightarrow> lookup (puts kds s) k = Some w"
  by (induction kds s rule: puts.induct) (auto split: option.splits intro: put_kept)

lemma put_then_puts: "put k d s = Some s1 \<Longrightarrow> lookup (puts kds s1) k = Some (view d)"
  using put_found puts_kept by blast

end

text \<open>What the store shows of an object: digest and size of its bytes.\<close>

definition lookup_object :: "prims \<Rightarrow> (bytes \<Rightarrow> string) \<Rightarrow> obj_store \<Rightarrow> scope \<times> object_kind \<times> uuid \<Rightarrow> (string \<times> nat) option" where
  "lookup_object H sha d k = (case k of (sc, kind, oid) \<Rightarrow> (case d (object_key H sc kind oid) of
     Some (File c) \<Rightarrow> Some (sha c, length c) | _ \<Rightarrow> None))"

definition put_once :: "prims \<Rightarrow> (bytes \<Rightarrow> string) \<Rightarrow> int \<Rightarrow> scope \<times> object_kind \<times> uuid \<Rightarrow> bytes \<Rightarrow> obj_store \<Rightarrow> obj_store option" where
  "put_once H sha m k data d = (case k of (sc, kind, oid) \<Rightarrow>
     (case put_object H sha sc kind oid data m None d of Inl _ \<Rightarrow> None | Inr (_, d') \<Rightarrow> Some d'))"

lemma read_loop_0: "0 \<le> m \<Longrightarrow> read_loop m [] data = (if int (length data) \<le> m then Inr data else Inl ''source_too_large'')"
  using read_loop_result [of "[]" m data] by simp

lemma read_object_Inr:
  "1 \<le> m \<Longrightarrow> read_object sha d ref m = Inr data \<longleftrightarrow>
     d (or_key ref) = Some (File data) \<and> int (length data) \<le> m \<and> int (length data) = or_byte_size ref \<and> sha data = or_sha256 ref"
  by (auto simp: read_object_def read_loop_0 split: option.splits entry.splits if_splits)

lemma put_object_Inr:
  assumes "put_object H sha sc kind oid data m expected d = Inr (ref, d')"
  shows "1 \<le> m" "int (length data) \<le> m" "ref = put_ref H sha sc kind oid data" "expected = None \<or> expected = Some (sha data)"
    "d' = d \<and> (\<exists>c. d (or_key ref) = Some (File c) \<and> sha c = sha data \<and> length c = length data)
       \<or> d (or_key ref) = None \<and> d' = d(or_key ref \<mapsto> File data)"
proof -
  from assms show m: "1 \<le> m" by (auto simp: put_object_def split: if_splits)
  with assms show len: "int (length data) \<le> m" by (auto simp: put_object_def read_loop_0 split: if_splits)
  with assms m have b: "(if (case expected of None \<Rightarrow> False | Some e \<Rightarrow> sha data \<noteq> e) then Inl ''integrity_error''
        else let ref = put_ref H sha sc kind oid data in
          (case d (or_key ref) of
             None \<Rightarrow> Inr (ref, d(or_key ref \<mapsto> File data))
           | Some _ \<Rightarrow> (case read_object sha d ref m of
               Inl e \<Rightarrow> Inl (if e \<in> {''integrity_error'', ''source_too_large''} then ''object_conflict'' else e)
             | Inr _ \<Rightarrow> Inr (ref, d)))) = Inr (ref, d')"
    by (simp add: put_object_def read_loop_0)
  then show "expected = None \<or> expected = Some (sha data)" by (auto split: option.splits if_splits)
  from b show "ref = put_ref H sha sc kind oid data"
    by (auto simp: Let_def split: option.splits if_splits sum.splits)
  from b m show "d' = d \<and> (\<exists>c. d (or_key ref) = Some (File c) \<and> sha c = sha data \<and> length c = length data)
       \<or> d (or_key ref) = None \<and> d' = d(or_key ref \<mapsto> File data)"
    by (auto simp: Let_def read_object_Inr put_ref_def split: option.splits if_splits sum.splits)
qed

interpretation objects: write_once "put_once H sha m" "lookup_object H sha" "\<lambda>data. (sha data, length data)" for H sha m
proof
  fix k data d d' k' w
  assume put: "put_once H sha m k data d = Some d'"
  obtain sc kind oid where k: "k = (sc, kind, oid)" by (cases k)
  from put k obtain ref where p: "put_object H sha sc kind oid data m None d = Inr (ref, d')"
    by (auto simp: put_once_def split: sum.splits)
  note r = put_object_Inr [OF p]
  have key: "or_key ref = object_key H sc kind oid" by (simp add: r(3) put_ref_def)
  show "lookup_object H sha d' k = Some (sha data, length data)"
    using r(5) by (auto simp: lookup_object_def k key)
  show "lookup_object H sha d k' = Some w \<Longrightarrow> lookup_object H sha d' k' = Some w"
    using r(5) by (auto simp: lookup_object_def key split: option.splits entry.splits prod.splits if_splits)
qed

section \<open>Properties\<close>

text \<open>C40: an object that was put can be read back and inspected with the reference that \<open>put\<close> returned, and no
  later put, whatever its scope, kind, identifier, bytes and limit, changes what it holds: the digest
  and the size of every stored object are final.\<close>

theorem put_object_readable_and_final:
  assumes "put_object H sha sc kind oid data m expected d = Inr (ref, d1)"
  shows "(\<exists>c. store_read H sha d1 sc ref m = Inr c \<and> sha c = sha data \<and> length c = length data)
    \<and> store_inspect H sha d1 sc ref m = Inr ref
    \<and> (put_object H sha sc2 kind2 oid2 data2 m2 expected2 d1 = Inr (ref2, d2) \<longrightarrow>
        store_inspect H sha d2 sc ref m = Inr ref)
    \<and> ref = put_ref H sha sc kind oid data"
proof -
  note r = put_object_Inr [OF assms]
  have k: "or_key ref = object_key H sc kind oid" "or_scope ref = sc" "or_kind ref = kind" "or_object_id ref = oid"
    "or_byte_size ref = int (length data)" "or_sha256 ref = sha data" by (simp_all add: r(3) put_ref_def)
  have chk: "check_ref H sc ref m = Inr ()" using r(1,2) by (simp add: check_ref_def k)
  obtain c where c: "d1 (or_key ref) = Some (File c)" "sha c = sha data" "length c = length data" using r(5) by auto
  have rd: "read_object sha d' ref m = Inr c" if "d' (or_key ref) = Some (File c)" for d'
    using r(1,2) c that by (simp add: read_object_Inr k)
  have "d2 (or_key ref) = Some (File c)" if "put_object H sha sc2 kind2 oid2 data2 m2 expected2 d1 = Inr (ref2, d2)"
    using put_object_Inr(5) [OF that] c by auto
  with rd c chk r(3) show ?thesis by (simp add: store_read_def store_inspect_def)
qed

theorem put_object_readable_and_final_witness:
  "\<exists>ref d. put_object sample_prims (\<lambda>_. ''00'') \<lparr>tenant = 1, owner = 2\<rparr> Artifact 5 [65, 66] 10 None Map.empty = Inr (ref, d)
     \<and> store_inspect sample_prims (\<lambda>_. ''00'') d \<lparr>tenant = 1, owner = 2\<rparr> ref 10 = Inr ref"
proof -
  let ?put = "put_object sample_prims (\<lambda>_. ''00'') \<lparr>tenant = 1, owner = 2\<rparr> Artifact 5 [65, 66] 10 None Map.empty"
  obtain ref d where p: "?put = Inr (ref, d)"
    by (simp add: put_object_def read_loop_0 Let_def)
  from put_object_readable_and_final [OF p] p show ?thesis by blast
qed

text \<open>a key that holds an object with another digest or size, within the limit, is refused as a conflict and the store stays as it
  was: nothing is overwritten.\<close>

theorem put_object_conflict:
  assumes "d (object_key H sc kind oid) = Some (File c)" and "sha c \<noteq> sha data \<or> length c \<noteq> length data"
    and "1 \<le> m" and "int (length data) \<le> m"
  shows "run_txn (put_object H sha sc kind oid data m None) d = (Inl ''object_conflict'', d)"
proof -
  have "read_object sha d (put_ref H sha sc kind oid data) m \<in> {Inl ''integrity_error'', Inl ''source_too_large''}"
    using assms by (auto simp: read_object_def put_ref_def read_loop_0)
  then have "put_object H sha sc kind oid data m None d = Inl ''object_conflict''"
    using assms by (auto simp: put_object_def read_loop_0 Let_def put_ref_def)
  then show ?thesis by (simp add: run_txn_def)
qed

theorem put_object_conflict_witness:
  "run_txn (put_object sample_prims (\<lambda>b. map (\<lambda>_. CHR ''0'') b) \<lparr>tenant = 1, owner = 2\<rparr> Artifact 5 [65, 66] 10 None)
     [7 \<mapsto> File [65]] = (Inl ''object_conflict'', [7 \<mapsto> File [65]])"
  by (rule put_object_conflict [where c = "[65]"]) (simp_all add: object_key_def)

end
