(* ===== verification/DocModels.thy ===== *)
theory DocModels
  imports ObjectStore
begin

text \<open>
  The immutable document contracts of documents/models.py, the admission policy of
  documents/policy.py and the evidence resolution of documents/provenance.py. Text is a list of
  Unicode code points; what the code asks Unicode about a code point (\<^verbatim>\<open>str.isprintable\<close>,
  white space for \<^verbatim>\<open>str.strip\<close>) and the ISO text of a time stamp are the fields of
  \<open>lang\<close>. Ratios are exact fractions where the code has floats.
\<close>

type_synonym code_points = "nat list"

record lang =
  uc_printable :: "nat \<Rightarrow> bool"
  uc_space :: "nat \<Rightarrow> bool"
  iso_text :: "time \<Rightarrow> string"

definition newline :: nat where "newline = 10"

definition count_nl :: "code_points \<Rightarrow> nat" where
  "count_nl t = length (filter (\<lambda>c. c = newline) t)"

definition rstrip_nl :: "code_points \<Rightarrow> code_points" where
  "rstrip_nl t = rev (dropWhile (\<lambda>c. c = newline) (rev t))"

definition slice :: "int \<Rightarrow> int \<Rightarrow> 'a list \<Rightarrow> 'a list" where
  "slice a b t = take (nat (b - a)) (drop (nat a) t)"

definition has_text :: "lang \<Rightarrow> code_points \<Rightarrow> bool" where
  "has_text U t \<longleftrightarrow> list_ex (\<lambda>c. \<not> uc_space U c) t"

section \<open>Contracts\<close>

record document =
  dc_document_id :: uuid
  dc_version_id :: uuid
  dc_scope :: scope
  dc_source :: object_ref
  dc_display_filename :: string
  dc_declared_mime :: string
  dc_detected :: mime
  dc_page_count :: "int option"
  dc_language :: "string option"
  dc_language_confidence :: "rat option"
  dc_created_at :: time

definition document_valid :: "prims \<Rightarrow> document \<Rightarrow> bool" where
  "document_valid H d \<longleftrightarrow>
     (let expected = version_id H (dc_scope d) (dc_document_id d) (or_sha256 (dc_source d))
      in object_ref_valid H (dc_source d) \<and> length (dc_display_filename d) \<le> 512
         \<and> (case dc_page_count d of None \<Rightarrow> True | Some n \<Rightarrow> 1 \<le> n)
         \<and> (case dc_language_confidence d of None \<Rightarrow> True | Some c \<Rightarrow> 0 \<le> c \<and> c \<le> 1)
         \<and> or_scope (dc_source d) = dc_scope d \<and> or_kind (dc_source d) = Source
         \<and> dc_version_id d = expected \<and> or_object_id (dc_source d) = expected
         \<and> (dc_detected d = Application_pdf) = (dc_page_count d \<noteq> None))"

record span =
  sn_start :: int
  sn_end :: int
  sn_line_start :: "int option"
  sn_line_end :: "int option"

definition span_valid :: "span \<Rightarrow> bool" where
  "span_valid s \<longleftrightarrow> 0 \<le> sn_start s \<and> 0 \<le> sn_end s \<and> sn_start s \<le> sn_end s
     \<and> (case sn_line_start s of None \<Rightarrow> True | Some a \<Rightarrow> 1 \<le> a)
     \<and> (case sn_line_end s of None \<Rightarrow> True | Some b \<Rightarrow> 1 \<le> b)
     \<and> (sn_line_start s = None) = (sn_line_end s = None)
     \<and> (case (sn_line_start s, sn_line_end s) of (Some a, Some b) \<Rightarrow> a \<le> b | _ \<Rightarrow> True)"

datatype length_unit = Points | Pixels | Relative
datatype origin = Top_left | Bottom_left

record geometry =
  gm_coordinates :: "rat list"
  gm_units :: length_unit
  gm_origin :: origin

datatype visual_state = Unparsed | Unsupported_visual | Parsed

record visual =
  vs_state :: visual_state
  vs_caption :: "code_points option"
  vs_cells :: "code_points list list option"
  vs_image :: "object_ref option"

datatype block_kind = B_text | B_paragraph | B_heading | B_table | B_figure | B_caption | B_unknown

record block =
  bk_block_id :: uuid
  bk_source_id :: uuid
  bk_kind :: block_kind
  bk_reading_order :: int
  bk_source_text :: code_points
  bk_span :: span
  bk_normalized_text :: "code_points option"
  bk_geometry :: "geometry option"
  bk_parent_id :: "uuid option"
  bk_child_ids :: "uuid list"
  bk_visual :: "visual option"

record observations =
  ob_character_count :: int
  ob_printable_ratio :: rat
  ob_replacement_ratio :: rat
  ob_has_native_text :: bool
  ob_has_images :: "bool option"
  ob_has_graphics :: "bool option"
  ob_parser_failed :: bool
  ob_structure_required :: bool
  ob_block_count :: int

definition observations_valid :: "observations \<Rightarrow> bool" where
  "observations_valid x \<longleftrightarrow> 0 \<le> ob_character_count x \<and> 0 \<le> ob_printable_ratio x \<and> ob_printable_ratio x \<le> 1
     \<and> 0 \<le> ob_replacement_ratio x \<and> ob_replacement_ratio x \<le> 1 \<and> 0 \<le> ob_block_count x"

datatype decision_outcome = Native_accepted | Layout_required | Ocr_required | Unsupported | Failed_outcome | Manual_review
datatype tier = Native_tier | Layout_tier | Ocr_tier | No_tier
datatype reason = Native_text | Blank_page | Image_without_text | Structure_requested | Unusable_text | Parser_failure | Unresolved_graphics

record decision =
  dn_source_id :: uuid
  dn_observations :: observations
  dn_outcome :: decision_outcome
  dn_next_tier :: tier
  dn_reason :: reason

datatype unit_status = U_native_text | U_blank | U_image_only | U_unresolved | U_failed
datatype extraction_method = M_native | M_ocr | M_layout

record text_unit =
  tu_source_id :: uuid
  tu_version_id :: uuid
  tu_physical_page :: "int option"
  tu_printed_label :: "code_points option"
  tu_width :: "rat option"
  tu_height :: "rat option"
  tu_rotation :: "int option"
  tu_status :: unit_status
  tu_method :: extraction_method
  tu_parser_version :: string
  tu_text :: code_points
  tu_blocks :: "block list"
  tu_decision :: decision
  tu_ocr_engine :: "string option"
  tu_ocr_model_version :: "string option"
  tu_ocr_confidence :: "rat option"

definition unit_fields_valid :: "prims \<Rightarrow> text_unit \<Rightarrow> bool" where
  "unit_fields_valid H u \<longleftrightarrow> (case tu_physical_page u of None \<Rightarrow> True | Some p \<Rightarrow> 1 \<le> p)
     \<and> (case tu_width u of None \<Rightarrow> True | Some x \<Rightarrow> 0 < x) \<and> (case tu_height u of None \<Rightarrow> True | Some x \<Rightarrow> 0 < x)
     \<and> (case tu_ocr_confidence u of None \<Rightarrow> True | Some c \<Rightarrow> 0 \<le> c \<and> c \<le> 1)
     \<and> observations_valid (dn_observations (tu_decision u))
     \<and> list_all (\<lambda>b. 0 \<le> bk_reading_order b \<and> span_valid (bk_span b)
          \<and> (case bk_visual b of None \<Rightarrow> True | Some v \<Rightarrow> (case vs_image v of None \<Rightarrow> True | Some r \<Rightarrow> object_ref_valid H r))) (tu_blocks u)"

record evidence_ref =
  ev_scope :: scope
  ev_version_id :: uuid
  ev_extraction_id :: uuid
  ev_source_id :: uuid
  ev_block_id :: uuid
  ev_span :: span

record artifact =
  ar_document :: document
  ar_extraction_id :: uuid
  ar_parser_version :: string
  ar_extracted_at :: time
  ar_max_source_bytes :: int
  ar_max_pages :: int
  ar_max_characters :: int
  ar_max_blocks :: int
  ar_structure_required :: bool
  ar_units :: "text_unit list"

definition extraction_identity :: "prims \<Rightarrow> lang \<Rightarrow> scope \<Rightarrow> uuid \<Rightarrow> string \<Rightarrow> time \<Rightarrow> int \<Rightarrow> int \<Rightarrow> int \<Rightarrow> int \<Rightarrow> bool \<Rightarrow> uuid" where
  "extraction_identity H U sc v parser stamp source_bytes pages characters blocks structure =
     stable_id H [scope_identity sc, uuid_text v, ''extraction/1'', ''native/1'', ''identity/1'', ''native-policy/1'', parser,
       iso_text U stamp, int_text source_bytes, int_text pages, int_text characters, int_text blocks,
       if structure then ''True'' else ''False'']"

section \<open>The graph validator\<close>

definition source_identity :: "prims \<Rightarrow> uuid \<Rightarrow> int option \<Rightarrow> uuid" where
  "source_identity H v page = stable_id H [uuid_text v, case page of None \<Rightarrow> ''text'' | Some p \<Rightarrow> ''page:'' @ int_text p]"

definition block_identity :: "prims \<Rightarrow> uuid \<Rightarrow> uuid \<Rightarrow> nat \<Rightarrow> uuid" where
  "block_identity H extraction source i = stable_id H [uuid_text extraction, uuid_text source, nat_text i]"

definition printable_ratio :: "lang \<Rightarrow> code_points \<Rightarrow> rat" where
  "printable_ratio U t = (if t = [] then 1 else of_nat (length (filter (\<lambda>c. uc_printable U c \<or> c \<in> {13, 10, 9}) t)) / of_nat (length t))"

definition replacement_ratio :: "code_points \<Rightarrow> rat" where
  "replacement_ratio t = (if t = [] then 0 else of_nat (length (filter (\<lambda>c. c = 0xfffd) t)) / of_nat (length t))"

definition block_ok :: "prims \<Rightarrow> artifact \<Rightarrow> text_unit \<Rightarrow> nat \<Rightarrow> int \<Rightarrow> int \<Rightarrow> block \<Rightarrow> bool" where
  "block_ok H a u i covered line b \<longleftrightarrow>
     (let ids = set (map bk_block_id (tu_blocks u)); s = bk_span b in
      bk_block_id b = block_identity H (ar_extraction_id a) (tu_source_id u) i
      \<and> bk_source_id b = tu_source_id u \<and> bk_reading_order b = int i \<and> sn_start s = covered
      \<and> sn_end s \<le> int (length (tu_text u)) \<and> slice (sn_start s) (sn_end s) (tu_text u) = bk_source_text b
      \<and> (case bk_normalized_text b of None \<Rightarrow> True | Some t \<Rightarrow> t = bk_source_text b)
      \<and> (case bk_parent_id b of None \<Rightarrow> True | Some p \<Rightarrow> p \<in> ids) \<and> set (bk_child_ids b) \<subseteq> ids
      \<and> (if dc_page_count (ar_document a) = None
         then sn_line_start s = Some line \<and> sn_line_end s = Some (line + int (count_nl (rstrip_nl (bk_source_text b))))
         else sn_line_start s = None)
      \<and> (case bk_visual b of None \<Rightarrow> True | Some v \<Rightarrow>
           (case vs_image v of None \<Rightarrow> True | Some r \<Rightarrow> or_scope r = dc_scope (ar_document a))))"

fun blocks_ok :: "prims \<Rightarrow> artifact \<Rightarrow> text_unit \<Rightarrow> nat \<Rightarrow> int \<Rightarrow> int \<Rightarrow> block list \<Rightarrow> bool" where
  "blocks_ok H a u i covered line [] \<longleftrightarrow> covered = int (length (tu_text u))"
| "blocks_ok H a u i covered line (b # bs) \<longleftrightarrow> block_ok H a u i covered line b
     \<and> blocks_ok H a u (Suc i) (sn_end (bk_span b)) (line + int (count_nl (bk_source_text b))) bs"

definition unit_ok :: "prims \<Rightarrow> lang \<Rightarrow> artifact \<Rightarrow> text_unit \<Rightarrow> bool" where
  "unit_ok H U a u \<longleftrightarrow>
     (let x = dn_observations (tu_decision u) in
      tu_version_id u = dc_version_id (ar_document a) \<and> dn_source_id (tu_decision u) = tu_source_id u
      \<and> tu_parser_version u = ar_parser_version a
      \<and> tu_source_id u = source_identity H (dc_version_id (ar_document a)) (tu_physical_page u)
      \<and> ob_character_count x = int (length (tu_text u))
      \<and> ob_block_count x = int (length (tu_blocks u)) \<and> ob_has_native_text x = has_text U (tu_text u)
      \<and> ob_structure_required x = ar_structure_required a \<and> ob_parser_failed x = (tu_status u = U_failed)
      \<and> \<not> (tu_physical_page u = None \<and> (tu_printed_label u \<noteq> None \<or> tu_width u \<noteq> None \<or> tu_height u \<noteq> None \<or> tu_rotation u \<noteq> None))
      \<and> ob_printable_ratio x = printable_ratio U (tu_text u) \<and> ob_replacement_ratio x = replacement_ratio (tu_text u)
      \<and> distinct (map bk_block_id (tu_blocks u)) \<and> blocks_ok H a u 0 0 1 (tu_blocks u))"

fun units_ok :: "prims \<Rightarrow> lang \<Rightarrow> artifact \<Rightarrow> uuid list \<Rightarrow> text_unit list \<Rightarrow> bool" where
  "units_ok H U a ids [] \<longleftrightarrow> True"
| "units_ok H U a ids (u # us) \<longleftrightarrow> tu_source_id u \<notin> set ids \<and> unit_ok H U a u \<and> units_ok H U a (tu_source_id u # ids) us"

definition page_inventory :: "int option \<Rightarrow> int option list" where
  "page_inventory count = (case count of None \<Rightarrow> [None] | Some n \<Rightarrow> map (\<lambda>i. Some (int (Suc i))) [0..<nat n])"

definition validate_graph :: "prims \<Rightarrow> lang \<Rightarrow> artifact \<Rightarrow> bool" where
  "validate_graph H U a \<longleftrightarrow>
     (let d = ar_document a in
      ar_extraction_id a = extraction_identity H U (dc_scope d) (dc_version_id d) (ar_parser_version a) (ar_extracted_at a)
        (ar_max_source_bytes a) (ar_max_pages a) (ar_max_characters a) (ar_max_blocks a) (ar_structure_required a)
      \<and> or_byte_size (dc_source d) \<le> ar_max_source_bytes a
      \<and> (case dc_page_count d of None \<Rightarrow> 0 | Some n \<Rightarrow> n) \<le> ar_max_pages a
      \<and> map tu_physical_page (ar_units a) = page_inventory (dc_page_count d)
      \<and> units_ok H U a [] (ar_units a)
      \<and> sum_list (map (\<lambda>u. int (length (tu_text u))) (ar_units a)) \<le> ar_max_characters a
      \<and> sum_list (map (\<lambda>u. int (length (tu_blocks u))) (ar_units a)) \<le> ar_max_blocks a)"

definition artifact_valid :: "prims \<Rightarrow> lang \<Rightarrow> artifact \<Rightarrow> bool" where
  "artifact_valid H U a \<longleftrightarrow> document_valid H (ar_document a) \<and> list_all (unit_fields_valid H) (ar_units a)
     \<and> 0 < ar_max_source_bytes a \<and> 0 < ar_max_pages a \<and> 0 < ar_max_characters a \<and> 0 < ar_max_blocks a
     \<and> validate_graph H U a"

section \<open>Policy\<close>

definition decide :: "uuid \<Rightarrow> observations \<Rightarrow> decision" where
  "decide source x =
     (let (res, t, r) =
        (if ob_parser_failed x then (Failed_outcome, No_tier, Parser_failure)
         else if \<not> ob_has_native_text x \<and> ob_has_images x = Some True then (Ocr_required, Ocr_tier, Image_without_text)
         else if ob_replacement_ratio x > 0 \<or> (ob_has_native_text x \<and> ob_printable_ratio x < 1) then (Manual_review, No_tier, Unusable_text)
         else if ob_has_native_text x \<and> ob_structure_required x then (Layout_required, Layout_tier, Structure_requested)
         else if ob_has_native_text x then (Native_accepted, Native_tier, Native_text)
         else if ob_has_graphics x \<noteq> Some False then (Manual_review, No_tier, Unresolved_graphics)
         else (Native_accepted, Native_tier, Blank_page))
      in \<lparr>dn_source_id = source, dn_observations = x, dn_outcome = res, dn_next_tier = t, dn_reason = r\<rparr>)"

section \<open>Provenance\<close>

text \<open>The inner loop over the blocks of a unit: \<open>None\<close> is the \<open>break\<close>.\<close>

fun resolve_blocks :: "text_unit \<Rightarrow> evidence_ref \<Rightarrow> block list \<Rightarrow> code_points option" where
  "resolve_blocks u ref [] = None"
| "resolve_blocks u ref (b # bs) =
     (if bk_block_id b \<noteq> ev_block_id ref then resolve_blocks u ref bs
      else let s = ev_span ref; text = slice (sn_start s) (sn_end s) (tu_text u);
               start = 1 + int (count_nl (slice 0 (sn_start s) (tu_text u))) in
        if \<not> (sn_start (bk_span b) \<le> sn_start s \<and> sn_start s \<le> sn_end s \<and> sn_end s \<le> sn_end (bk_span b)) then None
        else if tu_physical_page u = None
             then (if (sn_line_start s, sn_line_end s) \<noteq> (Some start, Some (start + int (count_nl (rstrip_nl text)))) then None else Some text)
        else if sn_line_start s \<noteq> None then None else Some text)"

fun resolve_units :: "evidence_ref \<Rightarrow> text_unit list \<Rightarrow> string + code_points" where
  "resolve_units ref [] = Inl ''invalid_reference''"
| "resolve_units ref (u # us) =
     (if tu_source_id u \<noteq> ev_source_id ref then resolve_units ref us
      else case resolve_blocks u ref (tu_blocks u) of None \<Rightarrow> resolve_units ref us | Some t \<Rightarrow> Inr t)"

definition resolve :: "artifact \<Rightarrow> scope \<Rightarrow> evidence_ref \<Rightarrow> string + code_points" where
  "resolve a sc ref =
     (if sc \<noteq> dc_scope (ar_document a) \<or> sc \<noteq> ev_scope ref then Inl ''scope_mismatch''
      else if ev_version_id ref \<noteq> dc_version_id (ar_document a) \<or> ev_extraction_id ref \<noteq> ar_extraction_id a then Inl ''invalid_reference''
      else resolve_units ref (ar_units a))"

section \<open>Lemmas\<close>

lemma count_nl_append [simp]: "count_nl (s @ t) = count_nl s + count_nl t"
  by (simp add: count_nl_def)

lemma count_nl_Nil [simp]: "count_nl [] = 0"
  by (simp add: count_nl_def)

lemma slice_drop: "0 \<le> a \<Longrightarrow> a \<le> b \<Longrightarrow> slice a b t @ drop (nat b) t = drop (nat a) t"
proof -
  assume "0 \<le> a" "a \<le> b"
  then have "drop (nat b) t = drop (nat (b - a)) (drop (nat a) t)" by (simp add: nat_diff_distrib add.commute)
  then show ?thesis unfolding slice_def by (simp only: append_take_drop_id)
qed

lemma take_slice: "0 \<le> a \<Longrightarrow> a \<le> b \<Longrightarrow> take (nat b) t = take (nat a) t @ slice a b t"
proof -
  assume "0 \<le> a" "a \<le> b"
  then have "nat b = nat a + nat (b - a)" by simp
  then show ?thesis by (simp add: slice_def take_add)
qed

lemma slice_0: "slice 0 b t = take (nat b) t"
  by (simp add: slice_def)

lemma block_okD:
  assumes "block_ok H a u i c line b"
  shows "sn_start (bk_span b) = c" "sn_end (bk_span b) \<le> int (length (tu_text u))"
    "slice c (sn_end (bk_span b)) (tu_text u) = bk_source_text b"
    "dc_page_count (ar_document a) = None \<Longrightarrow> sn_line_start (bk_span b) = Some line
       \<and> sn_line_end (bk_span b) = Some (line + int (count_nl (rstrip_nl (bk_source_text b))))"
    "dc_page_count (ar_document a) \<noteq> None \<Longrightarrow> sn_line_start (bk_span b) = None"
  using assms unfolding block_ok_def Let_def by auto

lemma blocks_concat:
  assumes "blocks_ok H a u i c line bs" "list_all (\<lambda>b. span_valid (bk_span b)) bs" "0 \<le> c"
  shows "concat (map bk_source_text bs) = drop (nat c) (tu_text u)"
  using assms
proof (induction bs arbitrary: i c line)
  case (Cons b bs)
  then have b: "block_ok H a u i c line b" and v: "c \<le> sn_end (bk_span b)"
    using block_okD(1) by (auto simp: span_valid_def)
  have "concat (map bk_source_text bs) = drop (nat (sn_end (bk_span b))) (tu_text u)"
    by (rule Cons.IH) (use Cons.prems v in auto)
  with slice_drop [OF Cons.prems(3) v, of "tu_text u"] block_okD(3) [OF b] show ?case by simp
qed simp

lemma block_located:
  assumes "blocks_ok H a u i c line bs" "list_all (\<lambda>b. span_valid (bk_span b)) bs" "0 \<le> c"
    and "line = 1 + int (count_nl (take (nat c) (tu_text u)))" and "b \<in> set bs"
  shows "\<exists>i c. 0 \<le> c \<and> block_ok H a u i c (1 + int (count_nl (take (nat c) (tu_text u)))) b"
  using assms
proof (induction bs arbitrary: i c line)
  case (Cons x bs)
  then have x: "block_ok H a u i c line x" and v: "c \<le> sn_end (bk_span x)"
    using block_okD(1) by (auto simp: span_valid_def)
  show ?case
  proof (cases "b = x")
    case True
    with x Cons.prems(3,4) show ?thesis by auto
  next
    case False
    have "line + int (count_nl (bk_source_text x)) = 1 + int (count_nl (take (nat (sn_end (bk_span x))) (tu_text u)))"
      using take_slice [OF Cons.prems(3) v, of "tu_text u"] block_okD(3) [OF x] Cons.prems(4) by simp
    with False Cons.prems v show ?thesis
      by (intro Cons.IH [of "Suc i" "sn_end (bk_span x)" "line + int (count_nl (bk_source_text x))"]) auto
  qed
qed simp

lemma resolve_blocks_find:
  assumes "distinct (map bk_block_id bs)" "b \<in> set bs" "ev_block_id ref = bk_block_id b"
  shows "resolve_blocks u ref bs = resolve_blocks u ref [b]"
  using assms
proof (induction bs)
  case (Cons x bs)
  show ?case
  proof (cases "x = b")
    case False
    with Cons have "bk_block_id x \<noteq> bk_block_id b" by (metis distinct.simps(2) image_eqI list.set_map list.simps(9) set_ConsD)
    with Cons False show ?thesis by simp
  qed (simp add: Cons.prems)
qed simp

lemma units_ok_member: "units_ok H U a ids us \<Longrightarrow> u \<in> set us \<Longrightarrow> unit_ok H U a u"
  by (induction us arbitrary: ids) auto

lemma units_ok_distinct: "units_ok H U a ids us \<Longrightarrow> distinct (map tu_source_id us) \<and> set ids \<inter> tu_source_id ` set us = {}"
proof (induction us arbitrary: ids)
  case (Cons u us)
  from Cons.IH [of "tu_source_id u # ids"] Cons.prems show ?case by auto
qed simp

lemma resolve_units_find:
  assumes "distinct (map tu_source_id us)" "u \<in> set us" "ev_source_id ref = tu_source_id u" "resolve_blocks u ref (tu_blocks u) = Some t"
  shows "resolve_units ref us = Inr t"
  using assms by (induction us) auto

lemma valid_unit:
  assumes "artifact_valid H U a" "u \<in> set (ar_units a)"
  shows "unit_ok H U a u" "unit_fields_valid H u" "distinct (map tu_source_id (ar_units a))"
    "(tu_physical_page u = None) = (dc_page_count (ar_document a) = None)"
proof -
  have g: "units_ok H U a [] (ar_units a)" "map tu_physical_page (ar_units a) = page_inventory (dc_page_count (ar_document a))"
    using assms(1) by (auto simp: artifact_valid_def validate_graph_def Let_def)
  show "unit_ok H U a u" "distinct (map tu_source_id (ar_units a))"
    using units_ok_member [OF g(1) assms(2)] units_ok_distinct [OF g(1)] by auto
  show "unit_fields_valid H u" using assms by (simp add: artifact_valid_def list_all_iff)
  have "tu_physical_page u \<in> set (page_inventory (dc_page_count (ar_document a)))"
    using g(2) assms(2) by (metis image_eqI list.set_map)
  then show "(tu_physical_page u = None) = (dc_page_count (ar_document a) = None)"
    by (auto simp: page_inventory_def split: option.splits)
qed

lemma unit_blocks:
  assumes "unit_ok H U a u" "unit_fields_valid H u"
  shows "blocks_ok H a u 0 0 1 (tu_blocks u)" "list_all (\<lambda>b. span_valid (bk_span b)) (tu_blocks u)"
    "distinct (map bk_block_id (tu_blocks u))"
  using assms by (auto simp: unit_ok_def Let_def unit_fields_valid_def list_all_iff)

section \<open>Properties\<close>

text \<open>The blocks of every unit of a valid artifact partition its text: they lie in reading order without gap or overlap
  and their source texts concatenate to the text of the unit.\<close>

theorem blocks_partition_text:
  assumes "artifact_valid H U a" and "u \<in> set (ar_units a)"
  shows "concat (map bk_source_text (tu_blocks u)) = tu_text u"
  using blocks_concat [OF unit_blocks(1,2) [OF valid_unit(1,2) [OF assms]]] by simp

text \<open>C39: every block of a valid artifact can be cited: the evidence reference with the span of the block resolves, in the
  scope of the document, to the source text of the block.\<close>

theorem block_evidence_resolves:
  assumes "artifact_valid H U a" and "u \<in> set (ar_units a)" and "b \<in> set (tu_blocks u)"
  shows "resolve a (dc_scope (ar_document a)) \<lparr>ev_scope = dc_scope (ar_document a), ev_version_id = dc_version_id (ar_document a),
     ev_extraction_id = ar_extraction_id a, ev_source_id = tu_source_id u, ev_block_id = bk_block_id b, ev_span = bk_span b\<rparr>
   = Inr (bk_source_text b)"
    (is "resolve a _ ?ref = _")
proof -
  note vu = valid_unit [OF assms(1,2)]
  note ub = unit_blocks [OF vu(1,2)]
  obtain i c where c: "0 \<le> c" and b: "block_ok H a u i c (1 + int (count_nl (take (nat c) (tu_text u)))) b"
    using block_located [OF ub(1,2) _ _ assms(3)] by auto
  have sv: "span_valid (bk_span b)" using ub(2) assms(3) by (simp add: list_all_iff)
  have "resolve_blocks u ?ref [b] = Some (bk_source_text b)"
    using block_okD [OF b] sv vu(4) c by (auto simp: Let_def span_valid_def slice_0)
  then have "resolve_blocks u ?ref (tu_blocks u) = Some (bk_source_text b)"
    using resolve_blocks_find [OF ub(3) assms(3), of ?ref u] by simp
  then have "resolve_units ?ref (ar_units a) = Inr (bk_source_text b)"
    by (intro resolve_units_find [OF vu(3) assms(2)]) simp_all
  then show ?thesis by (simp add: resolve_def)
qed

end
