(* ===== verification/Security.thy ===== *)
theory Security
  imports DocModels
begin

text \<open>
  The security authority: principals and sessions (security/models.py), ownership, grants, epochs
  and the audit log (security/authority.py). The database is a record of its five tables.
  An operation is a transaction body; \<open>audited\<close> is the decorator that records a denied mutation
  in a transaction of its own. The readings of the clock inside one operation are one argument
  (\<open>now\<close>, seconds), the capacity of the audit log is \<open>limit\<close>, and the fresh UUID of a grant is
  an argument; the random identifiers of audit rows are left out. The JSON texts under which the
  code stores the identity and the permissions of a principal are the tuple and the set they encode.
  Arguments have the types the code checks for with \<^verbatim>\<open>type(...) is\<close>.
\<close>

section \<open>Principals\<close>

datatype security_error =
  Access_denied | Authentication_required | Security_unavailable | Security_configuration
  | Unsupported_execution | Mixed_owners

datatype action =
  DOCUMENT_READ | DOCUMENT_ANALYZE | DOCUMENT_SHARE | DOCUMENT_DELETE | JOB_READ | JOB_CANCEL
  | SESSION_READ | SESSION_WRITE | PUBLICATION_MANAGE | USAGE_READ | TENANT_ADMIN

fun action_value :: "action \<Rightarrow> string" where
  "action_value DOCUMENT_READ = ''DOCUMENT_READ''"
| "action_value DOCUMENT_ANALYZE = ''DOCUMENT_ANALYZE''"
| "action_value DOCUMENT_SHARE = ''DOCUMENT_SHARE''"
| "action_value DOCUMENT_DELETE = ''DOCUMENT_DELETE''"
| "action_value JOB_READ = ''JOB_READ''"
| "action_value JOB_CANCEL = ''JOB_CANCEL''"
| "action_value SESSION_READ = ''SESSION_READ''"
| "action_value SESSION_WRITE = ''SESSION_WRITE''"
| "action_value PUBLICATION_MANAGE = ''PUBLICATION_MANAGE''"
| "action_value USAGE_READ = ''USAGE_READ''"
| "action_value TENANT_ADMIN = ''TENANT_ADMIN''"

record principal =
  p_issuer :: string
  p_subject :: string
  p_tenant_identity :: string
  p_scope :: scope
  p_permissions :: "action set"
  p_kind :: string
  p_expires :: int

definition identity_part :: "string \<Rightarrow> bool" where
  "identity_part s \<longleftrightarrow> s \<noteq> [] \<and> length s \<le> 2048"

definition make_principal ::
  "prims \<Rightarrow> rat \<Rightarrow> string \<Rightarrow> string \<Rightarrow> string \<Rightarrow> action set \<Rightarrow> string \<Rightarrow> int \<Rightarrow> security_error + principal" where
  "make_principal H now issuer subject tenant_identity permissions kind expires =
     sbind (guard (list_all identity_part [issuer, subject, tenant_identity]
         \<and> kind \<in> {''user'', ''service''} \<and> \<not> rat_of_int expires \<le> now) Authentication_required) (\<lambda>_.
       let t = stable_id H [''polymind-identity/1/tenant'', issuer, tenant_identity];
           w = stable_id H [''polymind-identity/1/owner'', issuer, tenant_identity, subject]
       in Inr \<lparr>p_issuer = issuer, p_subject = subject, p_tenant_identity = tenant_identity,
            p_scope = \<lparr>tenant = t, owner = w\<rparr>, p_permissions = permissions, p_kind = kind, p_expires = expires\<rparr>)"

definition session_payload :: "principal \<Rightarrow> string \<Rightarrow> string" where
  "session_payload p session_id = stable_name
     [''polymind-session/1'', uuid_text (tenant (p_scope p)), uuid_text (owner (p_scope p)), session_id]"

definition session_key :: "prims \<Rightarrow> principal \<Rightarrow> string \<Rightarrow> security_error + string" where
  "session_key H p session_id =
     sbind (guard (1 \<le> length session_id \<and> length session_id \<le> 256) Access_denied)
       (\<lambda>_. Inr (''s1-'' @ sha256_hex H (session_payload p session_id)))"

definition identity_of :: "principal \<Rightarrow> string \<times> string \<times> string" where
  "identity_of p = (p_issuer p, p_tenant_identity p, p_subject p)"

record authorization_snapshot =
  as_principal :: principal
  as_principal_epoch :: int
  as_documents :: "(uuid \<times> scope \<times> int) list"
  as_action :: action
  as_policy_version :: string

section \<open>The database\<close>

datatype doc_state = ACTIVE | TOMBSTONED | PURGE_PENDING

record principal_row =
  pr_owner :: uuid
  pr_tenant :: uuid
  pr_identity :: "string \<times> string \<times> string"
  pr_permissions :: "action set"
  pr_kind :: string
  pr_epoch :: int
  pr_disabled :: bool

record document_row =
  dr_document :: uuid
  dr_tenant :: uuid
  dr_owner :: uuid
  dr_epoch :: int
  dr_state :: doc_state

record grant_row =
  gr_id :: uuid
  gr_document :: uuid
  gr_grantee :: uuid
  gr_created :: rat
  gr_revoked :: "rat option"

record audit_row =
  au_at :: rat
  au_principal :: "uuid option"
  au_tenant :: "uuid option"
  au_action :: string
  au_resource :: "uuid option"
  au_outcome :: string

record purge_row =
  pu_document :: uuid
  pu_inventory :: "string list"
  pu_state :: string
  pu_reason :: string

record authority =
  principals :: "principal_row list"
  documents :: "document_row list"
  grants :: "grant_row list"
  audit_log :: "audit_row list"
  purge :: "purge_row list"

definition empty_authority :: authority where
  "empty_authority = \<lparr>principals = [], documents = [], grants = [], audit_log = [], purge = []\<rparr>"

section \<open>Checks\<close>

definition audit ::
  "nat \<Rightarrow> rat \<Rightarrow> principal option \<Rightarrow> string \<Rightarrow> uuid option \<Rightarrow> string \<Rightarrow> authority \<Rightarrow> security_error + authority" where
  "audit limit now p act resource outcome db =
     (if length (audit_log db) \<ge> limit then Inl Security_unavailable
      else Inr (db\<lparr>audit_log := audit_log db @
        [\<lparr>au_at = now, au_principal = map_option (\<lambda>p. owner (p_scope p)) p,
          au_tenant = map_option (\<lambda>p. tenant (p_scope p)) p, au_action = act,
          au_resource = resource, au_outcome = outcome\<rparr>]\<rparr>))"

definition find_principal :: "uuid \<Rightarrow> authority \<Rightarrow> principal_row option" where
  "find_principal w db = find (\<lambda>r. pr_owner r = w) (principals db)"

definition find_document :: "uuid \<Rightarrow> authority \<Rightarrow> document_row option" where
  "find_document d db = find (\<lambda>r. dr_document r = d) (documents db)"

definition check_principal :: "rat \<Rightarrow> principal \<Rightarrow> authority \<Rightarrow> security_error + principal_row" where
  "check_principal now p db =
     (if rat_of_int (p_expires p) \<le> now then Inl Authentication_required
      else case find_principal (owner (p_scope p)) db of
        None \<Rightarrow> Inl Access_denied
      | Some row \<Rightarrow>
          if pr_disabled row \<or> pr_tenant row \<noteq> tenant (p_scope p) \<or> pr_identity row \<noteq> identity_of p
             \<or> pr_permissions row \<noteq> p_permissions p \<or> pr_kind row \<noteq> p_kind p
          then Inl Access_denied else Inr row)"

definition has_grant :: "uuid \<Rightarrow> uuid \<Rightarrow> authority \<Rightarrow> bool" where
  "has_grant d g db \<longleftrightarrow>
     list_ex (\<lambda>r. gr_document r = d \<and> gr_grantee r = g \<and> gr_revoked r = None) (grants db)"

definition check_document :: "rat \<Rightarrow> principal \<Rightarrow> action \<Rightarrow> uuid \<Rightarrow> authority \<Rightarrow> security_error + document_row" where
  "check_document now p act d db = sbind (check_principal now p db) (\<lambda>_.
     case find_document d db of
       None \<Rightarrow> Inl Access_denied
     | Some row \<Rightarrow>
         if dr_tenant row \<noteq> tenant (p_scope p) \<or> dr_state row \<noteq> ACTIVE then Inl Access_denied
         else if act \<notin> {DOCUMENT_READ, DOCUMENT_ANALYZE, DOCUMENT_SHARE, DOCUMENT_DELETE} then Inl Access_denied
         else if dr_owner row \<noteq> owner (p_scope p) \<and> TENANT_ADMIN \<notin> p_permissions p
                 \<and> (act \<notin> {DOCUMENT_READ, DOCUMENT_ANALYZE} \<or> \<not> has_grant d (owner (p_scope p)) db)
         then Inl Access_denied else Inr row)"

section \<open>Operations\<close>

definition audit_authentication :: "nat \<Rightarrow> rat \<Rightarrow> bool \<Rightarrow> (security_error, authority, unit) txn" where
  "audit_authentication limit now accepted db =
     sbind (audit limit now None ''AUTHENTICATION'' None (if accepted then ''allowed'' else ''denied'') db)
       (\<lambda>db'. Inr ((), db'))"

definition register :: "nat \<Rightarrow> rat \<Rightarrow> principal \<Rightarrow> (security_error, authority, unit) txn" where
  "register limit now p db =
     (if rat_of_int (p_expires p) \<le> now then Inl Authentication_required
      else sbind (case find_principal (owner (p_scope p)) db of
          Some row \<Rightarrow>
            if pr_identity row \<noteq> identity_of p \<or> pr_tenant row \<noteq> tenant (p_scope p) \<or> pr_disabled row
            then Inl Access_denied
            else if pr_permissions row \<noteq> p_permissions p \<or> pr_kind row \<noteq> p_kind p
            then Inr (db\<lparr>principals := upd_where (\<lambda>r. pr_owner r = owner (p_scope p))
                   (\<lambda>r. r\<lparr>pr_permissions := p_permissions p, pr_kind := p_kind p, pr_epoch := pr_epoch r + 1\<rparr>)
                   (principals db)\<rparr>)
            else Inr db
        | None \<Rightarrow> Inr (db\<lparr>principals := principals db @
            [\<lparr>pr_owner = owner (p_scope p), pr_tenant = tenant (p_scope p), pr_identity = identity_of p,
              pr_permissions = p_permissions p, pr_kind = p_kind p, pr_epoch = 0, pr_disabled = False\<rparr>]\<rparr>))
        (\<lambda>db1. sbind (audit limit now (Some p) ''AUTHENTICATION'' None ''allowed'' db1) (\<lambda>db2. Inr ((), db2))))"

definition audited ::
  "nat \<Rightarrow> rat \<Rightarrow> string \<Rightarrow> principal \<Rightarrow> uuid option \<Rightarrow> (security_error, authority, 'a) txn
     \<Rightarrow> authority \<Rightarrow> (security_error + 'a) \<times> authority" where
  "audited limit now act p resource body db = (case body db of
       Inr (x, db') \<Rightarrow> (Inr x, db')
     | Inl e \<Rightarrow> (case audit limit now (Some p) act resource ''denied'' db of
           Inl e' \<Rightarrow> (Inl e', db)
         | Inr db' \<Rightarrow> (Inl e, db')))"

definition register_document_body ::
  "nat \<Rightarrow> rat \<Rightarrow> principal \<Rightarrow> document \<Rightarrow> (security_error, authority, unit) txn" where
  "register_document_body limit now operator doc db = sbind (check_principal now operator db) (\<lambda>_.
     if PUBLICATION_MANAGE \<notin> p_permissions operator \<or> tenant (dc_scope doc) \<noteq> tenant (p_scope operator)
     then Inl Access_denied
     else case find_principal (owner (dc_scope doc)) db of
       None \<Rightarrow> Inl Access_denied
     | Some w \<Rightarrow>
         if pr_tenant w \<noteq> tenant (dc_scope doc) then Inl Access_denied
         else case find_document (dc_document_id doc) db of
           Some row \<Rightarrow>
             if dr_owner row \<noteq> owner (dc_scope doc) \<or> dr_tenant row \<noteq> tenant (dc_scope doc) \<or> dr_state row \<noteq> ACTIVE
             then Inl Access_denied else Inr ((), db)
         | None \<Rightarrow> sbind (audit limit now (Some operator) ''DOCUMENT_REGISTER'' (Some (dc_document_id doc)) ''allowed''
               (db\<lparr>documents := documents db @ [\<lparr>dr_document = dc_document_id doc, dr_tenant = tenant (dc_scope doc),
                    dr_owner = owner (dc_scope doc), dr_epoch = 0, dr_state = ACTIVE\<rparr>]\<rparr>)) (\<lambda>db'. Inr ((), db')))"

definition register_document where
  "register_document limit now operator doc =
     audited limit now ''DOCUMENT_REGISTER'' operator None (register_document_body limit now operator doc)"

datatype resource = No_resource | Document_resource uuid | Scope_resource scope

definition resource_uuid :: "resource \<Rightarrow> uuid option" where
  "resource_uuid r = (case r of Document_resource d \<Rightarrow> Some d | _ \<Rightarrow> None)"

definition authorize_check :: "rat \<Rightarrow> principal \<Rightarrow> action \<Rightarrow> resource \<Rightarrow> authority \<Rightarrow> security_error + unit" where
  "authorize_check now p act res db = sbind (check_principal now p db) (\<lambda>_.
     if act \<in> {PUBLICATION_MANAGE, TENANT_ADMIN} then guard (act \<in> p_permissions p) Access_denied
     else if act \<in> {SESSION_READ, SESSION_WRITE, USAGE_READ} then guard (res = Scope_resource (p_scope p)) Access_denied
     else case res of
         Document_resource d \<Rightarrow> sbind (check_document now p act d db) (\<lambda>_. Inr ())
       | _ \<Rightarrow> Inl Access_denied)"

definition authorize ::
  "nat \<Rightarrow> rat \<Rightarrow> principal \<Rightarrow> action \<Rightarrow> resource \<Rightarrow> authority \<Rightarrow> (security_error + unit) \<times> authority" where
  "authorize limit now p act res db =
     (let denied = (case authorize_check now p act res db of Inl _ \<Rightarrow> True | Inr _ \<Rightarrow> False)
      in case audit limit now (Some p) (action_value act) (resource_uuid res) (if denied then ''denied'' else ''allowed'') db of
           Inl e \<Rightarrow> (Inl e, db)
         | Inr db' \<Rightarrow> (if denied then Inl Access_denied else Inr (), db'))"

fun snapshot_documents ::
  "rat \<Rightarrow> principal \<Rightarrow> action \<Rightarrow> authority \<Rightarrow> uuid list \<Rightarrow> security_error + (uuid \<times> scope \<times> int) list" where
  "snapshot_documents now p act db [] = Inr []"
| "snapshot_documents now p act db (d # ds) = sbind (check_document now p act d db) (\<lambda>r.
     sbind (snapshot_documents now p act db ds) (\<lambda>rest.
       Inr ((d, \<lparr>tenant = dr_tenant r, owner = dr_owner r\<rparr>, dr_epoch r) # rest)))"

definition snapshot ::
  "nat \<Rightarrow> rat \<Rightarrow> principal \<Rightarrow> uuid list \<Rightarrow> action \<Rightarrow> authority \<Rightarrow> (security_error + authorization_snapshot) \<times> authority" where
  "snapshot limit now p ids act db =
     (if length ids > 32 \<or> \<not> distinct ids then (Inl Access_denied, db)
      else let result = sbind (check_principal now p db) (\<lambda>row. sbind (snapshot_documents now p act db ids) (\<lambda>docs.
             Inr \<lparr>as_principal = p, as_principal_epoch = pr_epoch row, as_documents = docs, as_action = act,
               as_policy_version = ''authorization/1''\<rparr>))
       in case audit limit now (Some p) ''AUTHORIZE'' None
            (case result of Inl _ \<Rightarrow> ''denied'' | Inr _ \<Rightarrow> ''allowed'') db of
            Inl e \<Rightarrow> (Inl e, db)
          | Inr db' \<Rightarrow> (case result of Inl _ \<Rightarrow> Inl Access_denied | Inr s \<Rightarrow> Inr s, db'))"

fun revalidate_documents ::
  "rat \<Rightarrow> principal \<Rightarrow> action \<Rightarrow> authority \<Rightarrow> (uuid \<times> scope \<times> int) list \<Rightarrow> security_error + unit" where
  "revalidate_documents now p act db [] = Inr ()"
| "revalidate_documents now p act db ((d, sc, ep) # ds) = sbind (check_document now p act d db) (\<lambda>r.
     if dr_epoch r \<noteq> ep \<or> sc \<noteq> \<lparr>tenant = dr_tenant r, owner = dr_owner r\<rparr> then Inl Access_denied
     else revalidate_documents now p act db ds)"

definition revalidate :: "rat \<Rightarrow> authorization_snapshot \<Rightarrow> authority \<Rightarrow> security_error + unit" where
  "revalidate now s db =
     (if as_policy_version s \<noteq> ''authorization/1'' then Inl Access_denied
      else sbind (check_principal now (as_principal s) db) (\<lambda>row.
        if pr_epoch row \<noteq> as_principal_epoch s then Inl Access_denied
        else revalidate_documents now (as_principal s) (as_action s) db (as_documents s)))"

text \<open>\<^verbatim>\<open>with release(snapshot)\<close>: the guarded action runs only when the snapshot is still valid.\<close>

definition release :: "rat \<Rightarrow> authorization_snapshot \<Rightarrow> authority \<Rightarrow> (unit \<Rightarrow> security_error + 'a) \<Rightarrow> security_error + 'a" where
  "release now s db act = sbind (revalidate now s db) act"

definition share_body ::
  "nat \<Rightarrow> rat \<Rightarrow> uuid \<Rightarrow> principal \<Rightarrow> uuid \<Rightarrow> uuid \<Rightarrow> bool \<Rightarrow> (security_error, authority, uuid) txn" where
  "share_body limit now fresh p d g revoke db = sbind (check_document now p DOCUMENT_SHARE d db) (\<lambda>_.
     case find_principal g db of
       None \<Rightarrow> Inl Access_denied
     | Some grantee \<Rightarrow>
         if pr_tenant grantee \<noteq> tenant (p_scope p) \<or> pr_disabled grantee then Inl Access_denied
         else (case find (\<lambda>r. gr_document r = d \<and> gr_grantee r = g) (grants db) of
           Some row \<Rightarrow>
             if (gr_revoked row \<noteq> None) = revoke then Inr (gr_id row, db)
             else sbind (audit limit now (Some p) (if revoke then ''SHARE_REVOKE'' else ''SHARE_CREATE'') (Some d) ''allowed''
                 (db\<lparr>grants := upd_where (\<lambda>r. gr_document r = d \<and> gr_grantee r = g)
                       (\<lambda>r. r\<lparr>gr_revoked := (if revoke then Some now else None)\<rparr>) (grants db),
                     documents := upd_where (\<lambda>r. dr_document r = d) (\<lambda>r. r\<lparr>dr_epoch := dr_epoch r + 1\<rparr>) (documents db)\<rparr>))
               (\<lambda>db'. Inr (gr_id row, db'))
         | None \<Rightarrow>
             if revoke then Inl Access_denied
             else if fresh \<in> set (map gr_id (grants db)) then Inl Security_unavailable
             else sbind (audit limit now (Some p) ''SHARE_CREATE'' (Some d) ''allowed''
                 (db\<lparr>grants := grants db @ [\<lparr>gr_id = fresh, gr_document = d, gr_grantee = g, gr_created = now, gr_revoked = None\<rparr>],
                     documents := upd_where (\<lambda>r. dr_document r = d) (\<lambda>r. r\<lparr>dr_epoch := dr_epoch r + 1\<rparr>) (documents db)\<rparr>))
               (\<lambda>db'. Inr (fresh, db'))))"

definition share where
  "share limit now fresh p d g revoke =
     audited limit now ''SHARE_MUTATION'' p (Some d) (share_body limit now fresh p d g revoke)"

definition tombstone_body ::
  "nat \<Rightarrow> rat \<Rightarrow> principal \<Rightarrow> uuid \<Rightarrow> (security_error, authority, doc_state) txn" where
  "tombstone_body limit now p d db = sbind (check_principal now p db) (\<lambda>_.
     case find_document d db of
       None \<Rightarrow> Inl Access_denied
     | Some r \<Rightarrow>
         if dr_tenant r \<noteq> tenant (p_scope p) \<or> dr_owner r \<noteq> owner (p_scope p) \<and> TENANT_ADMIN \<notin> p_permissions p
         then Inl Access_denied
         else if dr_state r \<noteq> ACTIVE then Inr (dr_state r, db)
         else sbind (audit limit now (Some p) ''DELETE_REQUESTED'' (Some d) ''allowed'' db) (\<lambda>db1.
           sbind (audit limit now (Some p) ''TOMBSTONED'' (Some d) ''allowed''
             (db1\<lparr>documents := upd_where (\<lambda>r. dr_document r = d)
                    (\<lambda>r. r\<lparr>dr_state := TOMBSTONED, dr_epoch := dr_epoch r + 1\<rparr>) (documents db1),
                  grants := upd_where (\<lambda>r. gr_document r = d)
                    (\<lambda>r. r\<lparr>gr_revoked := (case gr_revoked r of None \<Rightarrow> Some now | Some t \<Rightarrow> Some t)\<rparr>) (grants db1)\<rparr>))
             (\<lambda>db2. Inr (TOMBSTONED, db2))))"

definition tombstone where
  "tombstone limit now p d = audited limit now ''TOMBSTONED'' p (Some d) (tombstone_body limit now p d)"

definition purge_inventory :: "string list" where
  "purge_inventory = [''canonical_source'', ''extraction'', ''digestion_checkpoints'',
     ''retained_publication_manifests'', ''retained_vectors'', ''temporary_objects'', ''conversation_references'']"

definition track_purge_body ::
  "nat \<Rightarrow> rat \<Rightarrow> principal \<Rightarrow> uuid \<Rightarrow> (security_error, authority, purge_row) txn" where
  "track_purge_body limit now operator d db = sbind (check_principal now operator db) (\<lambda>_.
     case find_document d db of
       None \<Rightarrow> Inl Access_denied
     | Some r \<Rightarrow>
         if PUBLICATION_MANAGE \<notin> p_permissions operator \<or> dr_tenant r \<noteq> tenant (p_scope operator)
            \<or> dr_state r \<notin> {TOMBSTONED, PURGE_PENDING}
         then Inl Access_denied
         else let new = \<lparr>pu_document = d, pu_inventory = purge_inventory, pu_state = ''PURGE_PENDING'',
                    pu_reason = ''complete_reference_inventory_and_delete_adapters_required''\<rparr>;
                  row = (case find (\<lambda>r. pu_document r = d) (purge db) of Some old \<Rightarrow> old | None \<Rightarrow> new);
                  rows = (case find (\<lambda>r. pu_document r = d) (purge db) of Some _ \<Rightarrow> purge db | None \<Rightarrow> purge db @ [new])
              in sbind (audit limit now (Some operator) ''PURGE_PENDING'' (Some d) ''allowed''
                   (db\<lparr>purge := rows,
                       documents := upd_where (\<lambda>r. dr_document r = d) (\<lambda>r. r\<lparr>dr_state := PURGE_PENDING\<rparr>) (documents db)\<rparr>))
                 (\<lambda>db'. Inr (row, db')))"

definition track_purge where
  "track_purge limit now operator d =
     audited limit now ''PURGE_PENDING'' operator (Some d) (track_purge_body limit now operator d)"

definition disable_principal_body ::
  "nat \<Rightarrow> rat \<Rightarrow> principal \<Rightarrow> uuid \<Rightarrow> (security_error, authority, unit) txn" where
  "disable_principal_body limit now operator w db = sbind (check_principal now operator db) (\<lambda>_.
     case find_principal w db of
       None \<Rightarrow> Inl Access_denied
     | Some target \<Rightarrow>
         if TENANT_ADMIN \<notin> p_permissions operator \<or> pr_tenant target \<noteq> tenant (p_scope operator)
         then Inl Access_denied
         else sbind (audit limit now (Some operator) ''PRINCIPAL_DISABLE'' (Some w) ''allowed''
              (db\<lparr>principals := upd_where (\<lambda>r. pr_owner r = w \<and> \<not> pr_disabled r)
                   (\<lambda>r. r\<lparr>pr_disabled := True, pr_epoch := pr_epoch r + 1\<rparr>) (principals db)\<rparr>)) (\<lambda>db'. Inr ((), db')))"

definition disable_principal where
  "disable_principal limit now operator w =
     audited limit now ''PRINCIPAL_DISABLE'' operator (Some w) (disable_principal_body limit now operator w)"

end
