(* ===== verification/AuthorityEvents.thy ===== *)
theory AuthorityEvents
  imports Security
begin

text \<open>
  The security authority as a step relation. Every operation is a sequence of small events, each
  labelled with the tenant on whose behalf it happens; the invariant of the tables, the way rows
  evolve (epochs only grow, a disabled principal and a deleted document stay so) and the
  separation of tenants are proved once per event and hold for every history of calls.
\<close>

section \<open>Events\<close>

inductive sec_event :: "nat \<Rightarrow> uuid \<Rightarrow> authority \<Rightarrow> authority \<Rightarrow> bool" for limit :: nat and t :: uuid where
  logged: "length (audit_log db) < limit \<Longrightarrow> sec_event limit t db (db\<lparr>audit_log := audit_log db @ [a]\<rparr>)"
| enrolled: "pr_owner r \<notin> pr_owner ` set (principals db) \<Longrightarrow> pr_tenant r = t \<Longrightarrow>
    sec_event limit t db (db\<lparr>principals := principals db @ [r]\<rparr>)"
| reassigned: "find_principal w db = Some row \<Longrightarrow> pr_tenant row = t \<Longrightarrow>
    sec_event limit t db (db\<lparr>principals := upd_where (\<lambda>r. pr_owner r = w)
      (\<lambda>r. r\<lparr>pr_permissions := ps, pr_kind := k, pr_epoch := pr_epoch r + 1\<rparr>) (principals db)\<rparr>)"
| disabled: "find_principal w db = Some row \<Longrightarrow> pr_tenant row = t \<Longrightarrow>
    sec_event limit t db (db\<lparr>principals := upd_where (\<lambda>r. pr_owner r = w \<and> \<not> pr_disabled r)
      (\<lambda>r. r\<lparr>pr_disabled := True, pr_epoch := pr_epoch r + 1\<rparr>) (principals db)\<rparr>)"
| owned: "dr_document r \<notin> dr_document ` set (documents db) \<Longrightarrow> dr_tenant r = t \<Longrightarrow>
    find_principal (dr_owner r) db = Some w \<Longrightarrow> pr_tenant w = t \<Longrightarrow>
    sec_event limit t db (db\<lparr>documents := documents db @ [r]\<rparr>)"
| granted: "find_document d db = Some r \<Longrightarrow> dr_tenant r = t \<Longrightarrow> dr_state r = ACTIVE \<Longrightarrow>
    gr_document g = d \<Longrightarrow> gr_id g \<notin> gr_id ` set (grants db) \<Longrightarrow>
    find (\<lambda>r. gr_document r = d \<and> gr_grantee r = gr_grantee g) (grants db) = None \<Longrightarrow>
    find_principal (gr_grantee g) db = Some w \<Longrightarrow> pr_tenant w = t \<Longrightarrow>
    sec_event limit t db (db\<lparr>grants := grants db @ [g],
      documents := upd_where (\<lambda>r. dr_document r = d) (\<lambda>r. r\<lparr>dr_epoch := dr_epoch r + 1\<rparr>) (documents db)\<rparr>)"
| regranted: "find_document d db = Some r \<Longrightarrow> dr_tenant r = t \<Longrightarrow> dr_state r = ACTIVE \<Longrightarrow>
    sec_event limit t db (db\<lparr>grants := upd_where (\<lambda>r. gr_document r = d \<and> gr_grantee r = w)
        (\<lambda>r. r\<lparr>gr_revoked := v\<rparr>) (grants db),
      documents := upd_where (\<lambda>r. dr_document r = d) (\<lambda>r. r\<lparr>dr_epoch := dr_epoch r + 1\<rparr>) (documents db)\<rparr>)"
| deleted: "find_document d db = Some r \<Longrightarrow> dr_tenant r = t \<Longrightarrow>
    sec_event limit t db (db\<lparr>documents := upd_where (\<lambda>r. dr_document r = d)
        (\<lambda>r. r\<lparr>dr_state := TOMBSTONED, dr_epoch := dr_epoch r + 1\<rparr>) (documents db),
      grants := upd_where (\<lambda>r. gr_document r = d)
        (\<lambda>r. r\<lparr>gr_revoked := (case gr_revoked r of None \<Rightarrow> Some now | Some x \<Rightarrow> Some x)\<rparr>) (grants db)\<rparr>)"
| purging: "find_document d db = Some r \<Longrightarrow> dr_tenant r = t \<Longrightarrow> dr_state r \<noteq> ACTIVE \<Longrightarrow>
    sec_event limit t db (db\<lparr>purge := ps,
      documents := upd_where (\<lambda>r. dr_document r = d) (\<lambda>r. r\<lparr>dr_state := PURGE_PENDING\<rparr>) (documents db)\<rparr>)"

abbreviation sec_events :: "nat \<Rightarrow> uuid \<Rightarrow> authority \<Rightarrow> authority \<Rightarrow> bool" where
  "sec_events limit t \<equiv> (sec_event limit t)\<^sup>*\<^sup>*"

section \<open>Operations are sequences of events\<close>

lemma audit_event: "audit limit now p act res out db = Inr db' \<Longrightarrow> sec_event limit t db db'"
  by (auto simp: audit_def split: if_splits intro: sec_event.logged)

lemma audit_events: "audit limit now p act res out db = Inr db' \<Longrightarrow> sec_events limit t db db'"
  using audit_event by blast

lemma event_then_audit:
  assumes "sec_event limit t db db1" and "audit limit now p act res out db1 = Inr db'"
  shows "sec_events limit t db db'"
  using assms audit_event by (meson converse_rtranclp_into_rtranclp r_into_rtranclp)

lemma check_principalD:
  assumes "check_principal now p db = Inr row"
  shows "find_principal (owner (p_scope p)) db = Some row" and "pr_tenant row = tenant (p_scope p)"
    and "\<not> pr_disabled row" and "pr_identity row = identity_of p" and "pr_permissions row = p_permissions p"
    and "pr_kind row = p_kind p" and "now < rat_of_int (p_expires p)"
  using assms by (auto simp: check_principal_def split: if_splits option.splits)

lemma check_documentD:
  assumes "check_document now p act d db = Inr r"
  shows "find_document d db = Some r" and "dr_tenant r = tenant (p_scope p)" and "dr_state r = ACTIVE"
    and "dr_owner r = owner (p_scope p) \<or> TENANT_ADMIN \<in> p_permissions p
      \<or> act \<in> {DOCUMENT_READ, DOCUMENT_ANALYZE} \<and> has_grant d (owner (p_scope p)) db"
    and "\<exists>row. check_principal now p db = Inr row"
  using assms by (auto simp: check_document_def txn_simps split: if_splits option.splits)

lemma find_principal_None: "find_principal w db = None \<Longrightarrow> w \<notin> pr_owner ` set (principals db)"
  by (auto simp: find_principal_def find_None_iff)

lemma find_document_None: "find_document d db = None \<Longrightarrow> d \<notin> dr_document ` set (documents db)"
  by (auto simp: find_document_def find_None_iff)

lemma register_events:
  assumes "register limit now p db = Inr (u, db')"
  shows "sec_events limit (tenant (p_scope p)) db db'"
proof (cases "find_principal (owner (p_scope p)) db")
  case None
  then show ?thesis using assms find_principal_None [OF None]
    by (auto simp: register_def txn_simps split: if_splits intro!: event_then_audit [OF sec_event.enrolled])
next
  case (Some row)
  then show ?thesis using assms
    by (auto simp: register_def txn_simps split: if_splits
        intro: event_then_audit [OF sec_event.reassigned [OF Some]] audit_events)
qed

lemma audited_events:
  assumes "\<And>x db'. body db = Inr (x, db') \<Longrightarrow> sec_events limit t db db'"
  shows "sec_events limit t db (snd (audited limit now act p res body db))"
  using assms by (auto simp: audited_def split: sum.splits dest: audit_event)

lemma register_document_events:
  "sec_events limit (tenant (p_scope p)) db (snd (register_document limit now p doc db))"
  unfolding register_document_def
proof (rule audited_events)
  fix x :: unit and db'
  assume "register_document_body limit now p doc db = Inr (x, db')"
  then show "sec_events limit (tenant (p_scope p)) db db'"
    using find_document_None [of "dc_document_id doc" db]
    by (auto simp: register_document_body_def txn_simps split: if_splits option.splits
        intro!: event_then_audit [OF sec_event.owned])
qed

lemma share_events:
  "sec_events limit (tenant (p_scope p)) db (snd (share limit now fresh p d g revoke db))"
  unfolding share_def
proof (rule audited_events)
  fix x db'
  assume body: "share_body limit now fresh p d g revoke db = Inr (x, db')"
  then obtain r w where r: "check_document now p DOCUMENT_SHARE d db = Inr r"
    and w: "find_principal g db = Some w" "pr_tenant w = tenant (p_scope p)"
    by (auto simp: share_body_def txn_simps split: if_splits option.splits)
  note doc = check_documentD(1-3) [OF r]
  show "sec_events limit (tenant (p_scope p)) db db'"
  proof (cases "find (\<lambda>r. gr_document r = d \<and> gr_grantee r = g) (grants db)")
    case None
    let ?g = "\<lparr>gr_id = fresh, gr_document = d, gr_grantee = g, gr_created = now, gr_revoked = None\<rparr>"
    from body None r w show ?thesis
      by (auto simp: share_body_def txn_simps split: if_splits
          intro!: event_then_audit [OF sec_event.granted [OF doc, of ?g w]])
  next
    case (Some row)
    with body r w show ?thesis
      by (auto simp: share_body_def txn_simps split: if_splits
          intro!: event_then_audit [OF sec_event.regranted [OF doc]])
  qed
qed

lemma tombstone_events:
  "sec_events limit (tenant (p_scope p)) db (snd (tombstone limit now p d db))"
  unfolding tombstone_def
proof (rule audited_events)
  fix x db'
  assume body: "tombstone_body limit now p d db = Inr (x, db')"
  then obtain r where r: "find_document d db = Some r" "dr_tenant r = tenant (p_scope p)"
    by (auto simp: tombstone_body_def txn_simps split: if_splits option.splits)
  show "sec_events limit (tenant (p_scope p)) db db'"
  proof (cases "dr_state r = ACTIVE")
    case True
    with body r obtain db1 where one: "audit limit now (Some p) ''DELETE_REQUESTED'' (Some d) ''allowed'' db = Inr db1"
      and two: "audit limit now (Some p) ''TOMBSTONED'' (Some d) ''allowed''
             (db1\<lparr>documents := upd_where (\<lambda>r. dr_document r = d)
                    (\<lambda>r. r\<lparr>dr_state := TOMBSTONED, dr_epoch := dr_epoch r + 1\<rparr>) (documents db1),
                  grants := upd_where (\<lambda>r. gr_document r = d)
                    (\<lambda>r. r\<lparr>gr_revoked := (case gr_revoked r of None \<Rightarrow> Some now | Some x \<Rightarrow> Some x)\<rparr>) (grants db1)\<rparr>) = Inr db'"
      by (auto simp: tombstone_body_def txn_simps split: if_splits)
    have "find_document d db1 = Some r"
      using one r(1) by (auto simp: audit_def find_document_def split: if_splits)
    from event_then_audit [OF sec_event.deleted [OF this r(2)] two] audit_event [OF one]
    show ?thesis by (meson converse_rtranclp_into_rtranclp)
  next
    case False
    with body r show ?thesis by (auto simp: tombstone_body_def txn_simps split: if_splits)
  qed
qed

lemma track_purge_events:
  "sec_events limit (tenant (p_scope p)) db (snd (track_purge limit now p d db))"
  unfolding track_purge_def
proof (rule audited_events)
  fix x db'
  assume body: "track_purge_body limit now p d db = Inr (x, db')"
  then obtain r where r: "find_document d db = Some r" "dr_tenant r = tenant (p_scope p)" "dr_state r \<noteq> ACTIVE"
    by (auto simp: track_purge_body_def txn_simps split: if_splits option.split_asm)
  with body obtain ps where "audit limit now (Some p) ''PURGE_PENDING'' (Some d) ''allowed'' (db\<lparr>purge := ps,
      documents := upd_where (\<lambda>r. dr_document r = d) (\<lambda>r. r\<lparr>dr_state := PURGE_PENDING\<rparr>) (documents db)\<rparr>) = Inr db'"
    by (auto simp: track_purge_body_def Let_def txn_simps split: if_splits)
  then show "sec_events limit (tenant (p_scope p)) db db'"
    by (rule event_then_audit [OF sec_event.purging [OF r]])
qed

lemma disable_principal_events:
  "sec_events limit (tenant (p_scope p)) db (snd (disable_principal limit now p w db))"
  unfolding disable_principal_def
proof (rule audited_events)
  fix x :: unit and db'
  assume "disable_principal_body limit now p w db = Inr (x, db')"
  then show "sec_events limit (tenant (p_scope p)) db db'"
    by (auto simp: disable_principal_body_def txn_simps split: if_splits option.splits
        intro!: event_then_audit [OF sec_event.disabled])
qed

lemma authorize_events: "sec_events limit t db (snd (authorize limit now p act res db))"
  unfolding authorize_def Let_def by (auto split: sum.splits dest: audit_event)

lemma snapshot_events: "sec_events limit t db (snd (snapshot limit now p ids act db))"
  unfolding snapshot_def Let_def by (auto split: sum.splits dest: audit_event)

lemma audit_authentication_events:
  "audit_authentication limit now ok db = Inr (u, db') \<Longrightarrow> sec_events limit t db db'"
  by (auto simp: audit_authentication_def txn_simps dest: audit_event)

section \<open>Histories\<close>

text \<open>\<open>sec_call\<close> is one operation that the principal \<open>p\<close> calls.\<close>

inductive sec_call :: "nat \<Rightarrow> principal \<Rightarrow> authority \<Rightarrow> authority \<Rightarrow> bool" for limit :: nat and p :: principal where
  "register limit now p db = Inr (u, db') \<Longrightarrow> sec_call limit p db db'"
| "sec_call limit p db (snd (register_document limit now p doc db))"
| "sec_call limit p db (snd (authorize limit now p act res db))"
| "sec_call limit p db (snd (snapshot limit now p ids act db))"
| "sec_call limit p db (snd (share limit now fresh p d g revoke db))"
| "sec_call limit p db (snd (tombstone limit now p d db))"
| "sec_call limit p db (snd (track_purge limit now p d db))"
| "sec_call limit p db (snd (disable_principal limit now p w db))"

lemma sec_call_events: "sec_call limit p db db' \<Longrightarrow> sec_events limit (tenant (p_scope p)) db db'"
  by (induction rule: sec_call.induct)
    (blast intro: register_events register_document_events authorize_events snapshot_events share_events
      tombstone_events track_purge_events disable_principal_events)+

inductive sec_step :: "nat \<Rightarrow> authority \<Rightarrow> authority \<Rightarrow> bool" for limit :: nat where
  called: "sec_call limit p db db' \<Longrightarrow> sec_step limit db db'"
| authenticated: "audit_authentication limit now ok db = Inr (u, db') \<Longrightarrow> sec_step limit db db'"

abbreviation sec_reachable :: "nat \<Rightarrow> authority \<Rightarrow> bool" where
  "sec_reachable limit \<equiv> reachable (\<lambda>db. db = empty_authority) (sec_step limit)"

abbreviation sec_run :: "nat \<Rightarrow> authority \<Rightarrow> authority \<Rightarrow> bool" where
  "sec_run limit \<equiv> (sec_step limit)\<^sup>*\<^sup>*"

lemma sec_step_events: "sec_step limit db db' \<Longrightarrow> \<exists>t. sec_events limit t db db'"
  by (auto elim!: sec_step.cases dest: sec_call_events audit_authentication_events)

section \<open>The invariant\<close>

definition owner_ok :: "authority \<Rightarrow> uuid \<Rightarrow> uuid \<Rightarrow> bool" where
  "owner_ok db w t \<longleftrightarrow> (w, t) \<in> set (map (\<lambda>r. (pr_owner r, pr_tenant r)) (principals db))"

definition sec_inv :: "nat \<Rightarrow> authority \<Rightarrow> bool" where
  "sec_inv limit db \<longleftrightarrow>
     distinct (map pr_owner (principals db)) \<and> distinct (map dr_document (documents db))
     \<and> distinct (map gr_id (grants db)) \<and> distinct (map (\<lambda>g. (gr_document g, gr_grantee g)) (grants db))
     \<and> (\<forall>d \<in> set (documents db). owner_ok db (dr_owner d) (dr_tenant d))
     \<and> (\<forall>g \<in> set (grants db). \<exists>d \<in> set (documents db). dr_document d = gr_document g
          \<and> owner_ok db (gr_grantee g) (dr_tenant d) \<and> (dr_state d \<noteq> ACTIVE \<longrightarrow> gr_revoked g \<noteq> None))
     \<and> length (audit_log db) \<le> limit"

lemma owner_ok_upd:
  assumes "\<And>r. pr_owner (f r) = pr_owner r" "\<And>r. pr_tenant (f r) = pr_tenant r"
  shows "owner_ok (db\<lparr>principals := upd_where U f (principals db)\<rparr>) w t = owner_ok db w t"
  by (simp add: owner_ok_def table_simps assms del: set_map)

lemma owner_ok_frame [simp]:
  "owner_ok (db\<lparr>documents := x\<rparr>) = owner_ok db" "owner_ok (db\<lparr>grants := y\<rparr>) = owner_ok db"
  "owner_ok (db\<lparr>purge := z\<rparr>) = owner_ok db" "owner_ok (db\<lparr>audit_log := a\<rparr>) = owner_ok db"
  by (simp_all add: owner_ok_def [abs_def])

lemma owner_ok_append: "owner_ok db w t \<Longrightarrow> owner_ok (db\<lparr>principals := principals db @ [r]\<rparr>) w t"
  by (auto simp: owner_ok_def)

lemma find_principal_ok: "find_principal w db = Some r \<Longrightarrow> owner_ok db w (pr_tenant r)"
  by (auto simp: find_principal_def owner_ok_def dest: find_SomeD)

lemma find_document_member:
  assumes "sec_inv limit db" and "find_document d db = Some r"
  shows "r \<in> set (documents db)" and "dr_document r = d"
    and "r' \<in> set (documents db) \<Longrightarrow> dr_document r' = d \<Longrightarrow> r' = r"
  using assms find_SomeD [of _ "documents db" r]
  by (auto simp: find_document_def sec_inv_def dest: distinct_key_eq)

lemma grant_doc_upd:
  assumes gs: "\<forall>g \<in> set gs. \<exists>d \<in> set ds. dr_document d = gr_document g \<and> ok (gr_grantee g) (dr_tenant d)
      \<and> (dr_state d \<noteq> ACTIVE \<longrightarrow> gr_revoked g \<noteq> None)"
    and f: "\<And>d. dr_document (f d) = dr_document d" "\<And>d. dr_tenant (f d) = dr_tenant d"
    and h: "\<And>g. gr_document (h g) = gr_document g" "\<And>g. gr_grantee (h g) = gr_grantee g"
    and act: "\<And>d g. d \<in> set ds \<Longrightarrow> g \<in> set gs \<Longrightarrow> dr_document d = gr_document g \<Longrightarrow>
       (dr_state d \<noteq> ACTIVE \<longrightarrow> gr_revoked g \<noteq> None) \<Longrightarrow>
       dr_state (if U d then f d else d) \<noteq> ACTIVE \<Longrightarrow> gr_revoked (if V g then h g else g) \<noteq> None"
  shows "\<forall>g \<in> set (upd_where V h gs). \<exists>d \<in> set (upd_where U f ds). dr_document d = gr_document g
      \<and> ok (gr_grantee g) (dr_tenant d) \<and> (dr_state d \<noteq> ACTIVE \<longrightarrow> gr_revoked g \<noteq> None)"
proof
  fix g' assume "g' \<in> set (upd_where V h gs)"
  then obtain g where g: "g \<in> set gs" "g' = (if V g then h g else g)" by (auto simp: set_upd_where)
  then obtain d where d: "d \<in> set ds" "dr_document d = gr_document g" "ok (gr_grantee g) (dr_tenant d)"
    "dr_state d \<noteq> ACTIVE \<longrightarrow> gr_revoked g \<noteq> None" using gs by blast
  let ?d = "if U d then f d else d"
  have "?d \<in> set (upd_where U f ds)" using d(1) by (auto simp: set_upd_where)
  moreover have "dr_document ?d = gr_document g' \<and> ok (gr_grantee g') (dr_tenant ?d)"
    using d f h g(2) by auto
  moreover have "dr_state ?d \<noteq> ACTIVE \<longrightarrow> gr_revoked g' \<noteq> None"
    unfolding g(2) using act [OF d(1) g(1) d(2,4)] by blast
  ultimately show "\<exists>d \<in> set (upd_where U f ds). dr_document d = gr_document g'
      \<and> ok (gr_grantee g') (dr_tenant d) \<and> (dr_state d \<noteq> ACTIVE \<longrightarrow> gr_revoked g' \<noteq> None)" by blast
qed

lemma docs_owner_upd:
  assumes "\<forall>d \<in> set ds. ok (dr_owner d) (dr_tenant d)"
    and "\<And>d. dr_owner (f d) = dr_owner d" "\<And>d. dr_tenant (f d) = dr_tenant d"
  shows "\<forall>d \<in> set (upd_where U f ds). ok (dr_owner d) (dr_tenant d)"
  using assms by (auto simp: set_upd_where)

lemma grant_doc_upd_docs:
  assumes gs: "\<forall>g \<in> set gs. \<exists>d \<in> set ds. dr_document d = gr_document g \<and> ok (gr_grantee g) (dr_tenant d)
      \<and> (dr_state d \<noteq> ACTIVE \<longrightarrow> gr_revoked g \<noteq> None)"
    and f: "\<And>d. dr_document (f d) = dr_document d" "\<And>d. dr_tenant (f d) = dr_tenant d"
    and act: "\<And>d. d \<in> set ds \<Longrightarrow> U d \<Longrightarrow> dr_state (f d) \<noteq> ACTIVE \<Longrightarrow> dr_state d \<noteq> ACTIVE"
  shows "\<forall>g \<in> set gs. \<exists>d \<in> set (upd_where U f ds). dr_document d = gr_document g
      \<and> ok (gr_grantee g) (dr_tenant d) \<and> (dr_state d \<noteq> ACTIVE \<longrightarrow> gr_revoked g \<noteq> None)"
proof -
  have "\<forall>g \<in> set (upd_where (\<lambda>_. False) id gs). \<exists>d \<in> set (upd_where U f ds). dr_document d = gr_document g
      \<and> ok (gr_grantee g) (dr_tenant d) \<and> (dr_state d \<noteq> ACTIVE \<longrightarrow> gr_revoked g \<noteq> None)"
    by (rule grant_doc_upd [OF gs f]) (use act in \<open>auto split: if_splits\<close>)
  then show ?thesis by (simp add: upd_where_none)
qed

lemma sec_invI:
  assumes "distinct (map pr_owner (principals db))" and "distinct (map dr_document (documents db))"
    and "distinct (map gr_id (grants db))" and "distinct (map (\<lambda>g. (gr_document g, gr_grantee g)) (grants db))"
    and "\<forall>d \<in> set (documents db). owner_ok db (dr_owner d) (dr_tenant d)"
    and "\<forall>g \<in> set (grants db). \<exists>d \<in> set (documents db). dr_document d = gr_document g
          \<and> owner_ok db (gr_grantee g) (dr_tenant d) \<and> (dr_state d \<noteq> ACTIVE \<longrightarrow> gr_revoked g \<noteq> None)"
    and "length (audit_log db) \<le> limit"
  shows "sec_inv limit db"
  using assms unfolding sec_inv_def by blast

lemma sec_invD:
  assumes "sec_inv limit db"
  shows "distinct (map pr_owner (principals db))" and "distinct (map dr_document (documents db))"
    and "distinct (map gr_id (grants db))" and "distinct (map (\<lambda>g. (gr_document g, gr_grantee g)) (grants db))"
    and "\<forall>d \<in> set (documents db). owner_ok db (dr_owner d) (dr_tenant d)"
    and "\<forall>g \<in> set (grants db). \<exists>d \<in> set (documents db). dr_document d = gr_document g
          \<and> owner_ok db (gr_grantee g) (dr_tenant d) \<and> (dr_state d \<noteq> ACTIVE \<longrightarrow> gr_revoked g \<noteq> None)"
    and "length (audit_log db) \<le> limit"
  using assms unfolding sec_inv_def by blast+

lemma sec_event_inv:
  assumes "sec_event limit t db db'" and inv: "sec_inv limit db"
  shows "sec_inv limit db'"
proof -
  have docs: "\<forall>d \<in> set (upd_where U f (documents db)). owner_ok db (dr_owner d) (dr_tenant d)"
    if "\<And>d. dr_owner (f d) = dr_owner d" "\<And>d. dr_tenant (f d) = dr_tenant d" for U f
    using docs_owner_upd [OF sec_invD(5) [OF inv] that] .
  from assms(1) show ?thesis
proof cases
  case (enrolled r)
  show ?thesis
    by (rule sec_invI; (use sec_invD [OF inv] enrolled in \<open>simp\<close>)?)
      (use sec_invD(5,6) [OF inv] enrolled(1) in \<open>auto intro!: owner_ok_append\<close>, blast intro: owner_ok_append)
next
  case (reassigned w row ps k)
  then show ?thesis using inv by (simp add: sec_inv_def table_simps owner_ok_upd)
next
  case (disabled w row)
  then show ?thesis using inv by (simp add: sec_inv_def table_simps owner_ok_upd)
next
  case (owned r w)
  then show ?thesis using sec_invD [OF inv] find_principal_ok [OF owned(4)] by (intro sec_invI) auto
next
  case (granted d r g w)
  note mem = find_document_member [OF inv granted(2)]
  have new: "(gr_document g, gr_grantee g) \<notin> (\<lambda>g. (gr_document g, gr_grantee g)) ` set (grants db)"
    using granted(5,7) by (auto simp: find_None_iff)
  have ok: "owner_ok db (gr_grantee g) (dr_tenant r)"
    using find_principal_ok [OF granted(8)] granted(3,9) by simp
  let ?ds = "upd_where (\<lambda>r. dr_document r = d) (\<lambda>r. r\<lparr>dr_epoch := dr_epoch r + 1\<rparr>) (documents db)"
  have old: "\<forall>g \<in> set (grants db). \<exists>d \<in> set ?ds. dr_document d = gr_document g
      \<and> owner_ok db (gr_grantee g) (dr_tenant d) \<and> (dr_state d \<noteq> ACTIVE \<longrightarrow> gr_revoked g \<noteq> None)"
    by (rule grant_doc_upd_docs [OF sec_invD(6) [OF inv]]) auto
  have "r\<lparr>dr_epoch := dr_epoch r + 1\<rparr> \<in> set ?ds" using mem(1,2) by (auto simp: set_upd_where intro!: rev_image_eqI)
  moreover have "dr_document (r\<lparr>dr_epoch := dr_epoch r + 1\<rparr>) = gr_document g
      \<and> owner_ok db (gr_grantee g) (dr_tenant (r\<lparr>dr_epoch := dr_epoch r + 1\<rparr>))
      \<and> dr_state (r\<lparr>dr_epoch := dr_epoch r + 1\<rparr>) = ACTIVE"
    using mem(2) ok granted(4,5) by simp
  ultimately have "\<exists>d \<in> set ?ds. dr_document d = gr_document g
      \<and> owner_ok db (gr_grantee g) (dr_tenant d) \<and> (dr_state d \<noteq> ACTIVE \<longrightarrow> gr_revoked g \<noteq> None)" by blast
  with old show ?thesis unfolding granted(1) using sec_invD [OF inv] granted(6) new
    by (intro sec_invI) (simp_all add: table_simps docs [where f = "\<lambda>r. r\<lparr>dr_epoch := dr_epoch r + 1\<rparr>"])
next
  case (regranted d r w v)
  have active: "dr_state x = ACTIVE" if "x \<in> set (documents db)" "dr_document x = d" for x
    using find_document_member(3) [OF inv regranted(2) that] regranted(4) by simp
  have "\<forall>g \<in> set (upd_where (\<lambda>r. gr_document r = d \<and> gr_grantee r = w) (\<lambda>r. r\<lparr>gr_revoked := v\<rparr>) (grants db)).
      \<exists>d \<in> set (upd_where (\<lambda>r. dr_document r = d) (\<lambda>r. r\<lparr>dr_epoch := dr_epoch r + 1\<rparr>) (documents db)).
      dr_document d = gr_document g \<and> owner_ok db (gr_grantee g) (dr_tenant d)
      \<and> (dr_state d \<noteq> ACTIVE \<longrightarrow> gr_revoked g \<noteq> None)"
    by (rule grant_doc_upd [OF sec_invD(6) [OF inv]]) (auto split: if_splits dest: active)
  then show ?thesis unfolding regranted(1) using sec_invD [OF inv]
    by (intro sec_invI) (simp_all add: table_simps docs [where f = "\<lambda>r. r\<lparr>dr_epoch := dr_epoch r + 1\<rparr>"])
next
  case (deleted d r now)
  have "\<forall>g \<in> set (upd_where (\<lambda>r. gr_document r = d)
        (\<lambda>r. r\<lparr>gr_revoked := (case gr_revoked r of None \<Rightarrow> Some now | Some x \<Rightarrow> Some x)\<rparr>) (grants db)).
      \<exists>d \<in> set (upd_where (\<lambda>r. dr_document r = d)
        (\<lambda>r. r\<lparr>dr_state := TOMBSTONED, dr_epoch := dr_epoch r + 1\<rparr>) (documents db)).
      dr_document d = gr_document g \<and> owner_ok db (gr_grantee g) (dr_tenant d)
      \<and> (dr_state d \<noteq> ACTIVE \<longrightarrow> gr_revoked g \<noteq> None)"
    by (rule grant_doc_upd [OF sec_invD(6) [OF inv]]) (auto split: if_splits option.splits)
  then show ?thesis unfolding deleted(1) using sec_invD [OF inv]
    by (intro sec_invI) (simp_all add: table_simps docs [where f = "\<lambda>r. r\<lparr>dr_state := TOMBSTONED, dr_epoch := dr_epoch r + 1\<rparr>"])
next
  case (purging d r ps)
  have inactive: "dr_state x \<noteq> ACTIVE" if "x \<in> set (documents db)" "dr_document x = d" for x
    using find_document_member(3) [OF inv purging(2) that] purging(4) by simp
  have "\<forall>g \<in> set (grants db). \<exists>d \<in> set (upd_where (\<lambda>r. dr_document r = d)
        (\<lambda>r. r\<lparr>dr_state := PURGE_PENDING\<rparr>) (documents db)).
      dr_document d = gr_document g \<and> owner_ok db (gr_grantee g) (dr_tenant d)
      \<and> (dr_state d \<noteq> ACTIVE \<longrightarrow> gr_revoked g \<noteq> None)"
    by (rule grant_doc_upd_docs [OF sec_invD(6) [OF inv]]) (use inactive in auto)
  then show ?thesis unfolding purging(1) using sec_invD [OF inv]
    by (intro sec_invI) (simp_all add: table_simps docs [where f = "\<lambda>r. r\<lparr>dr_state := PURGE_PENDING\<rparr>"])
qed (use inv in \<open>auto simp: sec_inv_def\<close>)
qed

lemma sec_inv_empty: "sec_inv limit empty_authority"
  by (simp add: sec_inv_def empty_authority_def)

lemma sec_events_inv: "sec_events limit t db db' \<Longrightarrow> sec_inv limit db \<Longrightarrow> sec_inv limit db'"
  by (induction rule: rtranclp_induct) (auto intro: sec_event_inv)

interpretation authority_sys: invariant_system "\<lambda>db. db = empty_authority" "sec_step limit" "sec_inv limit"
  by unfold_locales (auto intro: sec_inv_empty sec_events_inv dest!: sec_step_events)

end
