(* ===== verification/AuthorityTheorems.thy ===== *)
theory AuthorityTheorems
  imports AuthorityEvents
begin

text \<open>
  The properties of the security authority over every history of calls: withdrawn access stays
  withdrawn, epochs make stale snapshots invalid, tenants do not see each other's calls, and every
  change is in the audit log.
\<close>

section \<open>How rows evolve\<close>

definition principal_evolves :: "principal_row \<Rightarrow> principal_row \<Rightarrow> bool" where
  "principal_evolves r r' \<longleftrightarrow> pr_owner r' = pr_owner r \<and> pr_tenant r' = pr_tenant r \<and> pr_identity r' = pr_identity r
     \<and> pr_epoch r \<le> pr_epoch r' \<and> (pr_disabled r \<longrightarrow> pr_disabled r') \<and> (pr_epoch r' = pr_epoch r \<longrightarrow> r' = r)"

definition document_evolves :: "document_row \<Rightarrow> document_row \<Rightarrow> bool" where
  "document_evolves r r' \<longleftrightarrow> dr_document r' = dr_document r \<and> dr_tenant r' = dr_tenant r \<and> dr_owner r' = dr_owner r
     \<and> dr_epoch r \<le> dr_epoch r' \<and> (dr_state r \<noteq> ACTIVE \<longrightarrow> dr_state r' \<noteq> ACTIVE)
     \<and> (dr_epoch r' = dr_epoch r \<longrightarrow> dr_state r = ACTIVE \<longrightarrow> dr_state r' = ACTIVE)"

definition doc_grants :: "uuid \<Rightarrow> authority \<Rightarrow> grant_row list" where
  "doc_grants d db = filter (\<lambda>g. gr_document g = d) (grants db)"

definition sec_evolves :: "authority \<Rightarrow> authority \<Rightarrow> bool" where
  "sec_evolves db db' \<longleftrightarrow>
     (\<forall>w r. find_principal w db = Some r \<longrightarrow> (\<exists>r'. find_principal w db' = Some r' \<and> principal_evolves r r'))
     \<and> (\<forall>d r. find_document d db = Some r \<longrightarrow> (\<exists>r'. find_document d db' = Some r' \<and> document_evolves r r'
          \<and> (dr_epoch r' = dr_epoch r \<longrightarrow> doc_grants d db' = doc_grants d db)))
     \<and> (\<exists>xs. audit_log db' = audit_log db @ xs)"

lemma sec_evolves_principal:
  "sec_evolves db db' \<Longrightarrow> find_principal w db = Some r \<Longrightarrow> \<exists>r'. find_principal w db' = Some r' \<and> principal_evolves r r'"
  by (simp add: sec_evolves_def)

lemma sec_evolves_document:
  "sec_evolves db db' \<Longrightarrow> find_document d db = Some r \<Longrightarrow> \<exists>r'. find_document d db' = Some r' \<and> document_evolves r r'
     \<and> (dr_epoch r' = dr_epoch r \<longrightarrow> doc_grants d db' = doc_grants d db)"
  by (simp add: sec_evolves_def)

lemma sec_evolvesI:
  assumes "\<And>w r. find_principal w db = Some r \<Longrightarrow> \<exists>r'. find_principal w db' = Some r' \<and> principal_evolves r r'"
    and "\<And>d r. find_document d db = Some r \<Longrightarrow> \<exists>r'. find_document d db' = Some r' \<and> document_evolves r r'
          \<and> (dr_epoch r' = dr_epoch r \<longrightarrow> doc_grants d db' = doc_grants d db)"
    and "audit_log db' = audit_log db @ xs"
  shows "sec_evolves db db'"
  using assms unfolding sec_evolves_def by blast

lemma principal_evolves_refl [simp]: "principal_evolves r r"
  by (simp add: principal_evolves_def)

lemma document_evolves_refl [simp]: "document_evolves r r"
  by (simp add: document_evolves_def)

lemma principal_evolves_trans: "principal_evolves r s \<Longrightarrow> principal_evolves s t \<Longrightarrow> principal_evolves r t"
  by (auto simp: principal_evolves_def)

lemma document_evolves_trans: "document_evolves r s \<Longrightarrow> document_evolves s t \<Longrightarrow> document_evolves r t"
  by (auto simp: document_evolves_def)

lemma sec_evolves_refl [simp]: "sec_evolves db db"
  by (simp add: sec_evolves_def)

lemma sec_evolves_trans:
  assumes ab: "sec_evolves a b" and bc: "sec_evolves b c"
  shows "sec_evolves a c"
proof -
  from ab bc obtain xs where xs: "audit_log c = audit_log a @ xs"
    unfolding sec_evolves_def by (metis append.assoc)
  show ?thesis
  proof (rule sec_evolvesI [OF _ _ xs])
    fix w r assume "find_principal w a = Some r"
    then show "\<exists>r'. find_principal w c = Some r' \<and> principal_evolves r r'"
      using sec_evolves_principal [OF ab] sec_evolves_principal [OF bc] principal_evolves_trans by meson
  next
    fix d r assume "find_document d a = Some r"
    then obtain s where s: "find_document d b = Some s" "document_evolves r s"
      "dr_epoch s = dr_epoch r \<longrightarrow> doc_grants d b = doc_grants d a" using sec_evolves_document [OF ab] by blast
    then obtain t where t: "find_document d c = Some t" "document_evolves s t"
      "dr_epoch t = dr_epoch s \<longrightarrow> doc_grants d c = doc_grants d b" using sec_evolves_document [OF bc] by blast
    have "dr_epoch t = dr_epoch r \<longrightarrow> dr_epoch s = dr_epoch r \<and> dr_epoch t = dr_epoch s"
      using s(2) t(2) by (auto simp: document_evolves_def)
    then have "dr_epoch t = dr_epoch r \<longrightarrow> doc_grants d c = doc_grants d a" using s(3) t(3) by metis
    with t(1) document_evolves_trans [OF s(2) t(2)]
    show "\<exists>r'. find_document d c = Some r' \<and> document_evolves r r'
        \<and> (dr_epoch r' = dr_epoch r \<longrightarrow> doc_grants d c = doc_grants d a)" by blast
  qed
qed

lemma filter_upd_other:
  assumes "\<And>r. r \<in> set rs \<Longrightarrow> U r \<Longrightarrow> \<not> Q r \<and> \<not> Q (f r)"
  shows "filter Q (upd_where U f rs) = filter Q rs"
  using assms by (induction rs) auto

lemma find_upd_self:
  "(\<And>r. Q (f r) = Q r) \<Longrightarrow> find Q (upd_where Q f rs) = map_option f (find Q rs)"
  "(\<And>r. Q (f r) = Q r) \<Longrightarrow>
     find Q (upd_where (\<lambda>r. Q r \<and> P r) f rs) = map_option (\<lambda>r. if P r then f r else r) (find Q rs)"
  by (induction rs) auto

lemmas authority_rows = find_principal_def find_document_def doc_grants_def table_simps

lemma sec_event_evolves:
  assumes "sec_event limit t db db'" and "sec_inv limit db"
  shows "sec_evolves db db'"
  using assms(1)
proof cases
  case (logged a)
  then show ?thesis by (intro sec_evolvesI [where xs = "[a]"]) (simp_all add: authority_rows)
next
  case (enrolled r)
  then show ?thesis by (intro sec_evolvesI [where xs = "[]"]) (auto simp: authority_rows find_append_table)
next
  case (reassigned w row ps k)
  then show ?thesis
    by (intro sec_evolvesI [where xs = "[]"]) (auto simp: authority_rows principal_evolves_def)
next
  case (disabled w row)
  then show ?thesis
    by (intro sec_evolvesI [where xs = "[]"]) (auto simp: authority_rows principal_evolves_def)
next
  case (owned r w)
  then show ?thesis by (intro sec_evolvesI [where xs = "[]"]) (auto simp: authority_rows find_append_table)
next
  case (granted d r g w)
  then show ?thesis
    by (intro sec_evolvesI [where xs = "[]"]) (auto simp: authority_rows document_evolves_def dest: find_SomeD)
next
  case (regranted d r w v)
  have "filter (\<lambda>g. gr_document g = d') (upd_where (\<lambda>r. gr_document r = d \<and> gr_grantee r = w) (\<lambda>r. r\<lparr>gr_revoked := v\<rparr>) (grants db))
      = filter (\<lambda>g. gr_document g = d') (grants db)" if "d' \<noteq> d" for d'
    using that by (intro filter_upd_other) auto
  with regranted show ?thesis
    by (intro sec_evolvesI [where xs = "[]"]) (auto simp: authority_rows document_evolves_def dest: find_SomeD)
next
  case (deleted d r now)
  have "filter (\<lambda>g. gr_document g = d') (upd_where (\<lambda>r. gr_document r = d)
        (\<lambda>r. r\<lparr>gr_revoked := (case gr_revoked r of None \<Rightarrow> Some now | Some x \<Rightarrow> Some x)\<rparr>) (grants db))
      = filter (\<lambda>g. gr_document g = d') (grants db)" if "d' \<noteq> d" for d'
    using that by (intro filter_upd_other) auto
  with deleted show ?thesis
    by (intro sec_evolvesI [where xs = "[]"]) (auto simp: authority_rows document_evolves_def dest: find_SomeD)
next
  case (purging d r ps)
  have same: "x = r" if "find (\<lambda>r. dr_document r = e) (documents db) = Some x" "dr_document x = d" for e x
    using find_document_member(3) [OF assms(2) purging(2)] find_SomeD [OF that(1)] that(2) by blast
  from purging show ?thesis
    by (intro sec_evolvesI [where xs = "[]"]) (auto simp: authority_rows document_evolves_def dest: same)
qed

lemma sec_events_evolves: "sec_events limit t db db' \<Longrightarrow> sec_inv limit db \<Longrightarrow> sec_evolves db db'"
proof (induction rule: rtranclp_induct)
  case (step y z)
  then show ?case using sec_event_evolves sec_events_inv sec_evolves_trans by metis
qed simp

lemma sec_step_evolves: "sec_step limit db db' \<Longrightarrow> sec_inv limit db \<Longrightarrow> sec_evolves db db'"
  using sec_step_events sec_events_evolves by blast

lemma sec_run_evolves:
  assumes "sec_run limit db db'" and "sec_inv limit db"
  shows "sec_evolves db db'"
  using assms
proof (induction rule: rtranclp_induct)
  case (step y z)
  have "sec_inv limit y" using step.hyps(1) step.prems authority_sys.run_inv by blast
  then show ?case using step sec_step_evolves sec_evolves_trans by blast
qed simp

interpretation deleted_documents:
  frozen_rows "\<lambda>db. db = empty_authority" "sec_step limit" "sec_inv limit" "\<lambda>db d. find_document d db"
    "\<lambda>r. dr_state r \<noteq> ACTIVE" "\<lambda>r. (dr_document r, dr_tenant r, dr_owner r)"
  by unfold_locales (auto dest!: sec_step_evolves dest: sec_evolves_document simp: document_evolves_def)

interpretation disabled_principals:
  frozen_rows "\<lambda>db. db = empty_authority" "sec_step limit" "sec_inv limit" "\<lambda>db w. find_principal w db"
    pr_disabled "\<lambda>r. (pr_owner r, pr_tenant r, pr_identity r)"
  by unfold_locales (auto dest!: sec_step_evolves dest: sec_evolves_principal simp: principal_evolves_def)

section \<open>Snapshots\<close>

lemma snapshot_documents_member:
  assumes "snapshot_documents now p act db ids = Inr docs" and "d \<in> set ids"
  shows "\<exists>r. find_document d db = Some r \<and> (d, \<lparr>tenant = dr_tenant r, owner = dr_owner r\<rparr>, dr_epoch r) \<in> set docs"
  using assms
proof (induction ids arbitrary: docs)
  case (Cons e ids)
  then show ?case by (auto simp: txn_simps dest: check_documentD(1))
qed simp

lemma revalidate_documentsD:
  "revalidate_documents now p act db docs = Inr u \<Longrightarrow> (d, sc, ep) \<in> set docs \<Longrightarrow>
     \<exists>r. check_document now p act d db = Inr r \<and> dr_epoch r = ep"
  by (induction docs) (auto simp: txn_simps split: if_splits)

lemma revalidateD:
  assumes "revalidate now s db = Inr u"
  shows "\<exists>row. check_principal now (as_principal s) db = Inr row \<and> pr_epoch row = as_principal_epoch s"
    and "(d, sc, ep) \<in> set (as_documents s) \<Longrightarrow>
      \<exists>r. check_document now (as_principal s) (as_action s) d db = Inr r \<and> dr_epoch r = ep"
  using assms by (auto simp: revalidate_def txn_simps split: if_splits dest: revalidate_documentsD)

lemma snapshotD:
  assumes "snapshot limit now p ids act db = (Inr s, db')"
  shows "as_principal s = p" and "as_action s = act"
    and "\<exists>row. check_principal now p db = Inr row \<and> as_principal_epoch s = pr_epoch row"
    and "d \<in> set ids \<Longrightarrow> \<exists>r sc. find_document d db = Some r \<and> (d, sc, dr_epoch r) \<in> set (as_documents s)"
    and "\<exists>a. db' = db\<lparr>audit_log := audit_log db @ [a]\<rparr>"
proof -
  from assms obtain row docs where "check_principal now p db = Inr row"
    "snapshot_documents now p act db ids = Inr docs"
    "s = \<lparr>as_principal = p, as_principal_epoch = pr_epoch row, as_documents = docs, as_action = act,
       as_policy_version = ''authorization/1''\<rparr>" "\<exists>a. db' = db\<lparr>audit_log := audit_log db @ [a]\<rparr>"
    by (auto simp: snapshot_def Let_def sbind_def audit_def split: if_splits sum.splits)
  then show "as_principal s = p" "as_action s = act"
    "\<exists>row. check_principal now p db = Inr row \<and> as_principal_epoch s = pr_epoch row"
    "\<exists>a. db' = db\<lparr>audit_log := audit_log db @ [a]\<rparr>"
    "d \<in> set ids \<Longrightarrow> \<exists>r sc. find_document d db = Some r \<and> (d, sc, dr_epoch r) \<in> set (as_documents s)"
    using snapshot_documents_member [of now p act db ids docs d] by auto
qed

lemma stale_document_refused:
  assumes snap: "snapshot limit now p ids act db0 = (Inr s, db1)" and d: "d \<in> set ids"
    and old: "find_document d db0 = Some r" and cur: "find_document d db = Some r'"
    and newer: "dr_epoch r < dr_epoch r' \<or> dr_state r' \<noteq> ACTIVE"
  shows "\<exists>e. revalidate now' s db = Inl e"
proof (cases "revalidate now' s db")
  case (Inr u)
  from snapshotD(4) [OF snap d] old obtain sc where "(d, sc, dr_epoch r) \<in> set (as_documents s)" by auto
  from revalidateD(2) [OF Inr this] obtain q where
    "check_document now' (as_principal s) (as_action s) d db = Inr q" "dr_epoch q = dr_epoch r" by blast
  then show ?thesis using check_documentD(1,3) cur newer by fastforce
qed simp

lemma snapshot_evolves:
  assumes "snapshot limit now p ids act db0 = (Inr s, db1)" and "sec_inv limit db0" and "sec_run limit db1 db2"
  shows "sec_evolves db0 db2" and "sec_inv limit db2" and "sec_inv limit db1"
proof -
  have step: "sec_step limit db0 db1"
    using assms(1) sec_step.called [OF sec_call.intros(4) [of limit p db0 now ids act]] by simp
  then have "sec_run limit db0 db2" using assms(3) by (rule converse_rtranclp_into_rtranclp)
  then show "sec_evolves db0 db2" "sec_inv limit db2" "sec_inv limit db1"
    using sec_run_evolves authority_sys.run_inv authority_sys.step_inv assms(2) step by blast+
qed

section \<open>Separation of tenants\<close>

definition tenant_view :: "uuid \<Rightarrow> authority \<Rightarrow> principal_row list \<times> document_row list \<times> grant_row list" where
  "tenant_view u db =
     (filter (\<lambda>r. pr_tenant r = u) (principals db), filter (\<lambda>r. dr_tenant r = u) (documents db),
      filter (\<lambda>g. gr_document g \<in> dr_document ` set (filter (\<lambda>r. dr_tenant r = u) (documents db))) (grants db))"

lemma find_principal_tenant:
  assumes "sec_inv limit db" and "find_principal w db = Some row" and "r \<in> set (principals db)" and "pr_owner r = w"
  shows "r = row"
  using assms find_SomeD [of _ "principals db" row] sec_invD(1) [OF assms(1)]
  by (auto simp: find_principal_def dest: distinct_key_eq)

lemma sec_event_view:
  assumes "sec_event limit t db db'" and inv: "sec_inv limit db" and "t \<noteq> u"
  shows "tenant_view u db' = tenant_view u db"
  using assms(1)
proof cases
  case (reassigned w row ps k)
  then show ?thesis using find_principal_tenant [OF inv reassigned(2)] assms(3)
    by (auto simp: tenant_view_def intro!: filter_upd_other)
next
  case (disabled w row)
  then show ?thesis using find_principal_tenant [OF inv disabled(2)] assms(3)
    by (auto simp: tenant_view_def intro!: filter_upd_other)
next
  case (owned r w)
  then show ?thesis using assms(3) by (simp add: tenant_view_def)
next
  case (granted d r g w)
  note mem = find_document_member [OF inv granted(2)]
  have "filter (\<lambda>r. dr_tenant r = u) (documents db') = filter (\<lambda>r. dr_tenant r = u) (documents db)"
    unfolding granted(1) using mem(3) granted(3) assms(3) by (auto intro!: filter_upd_other)
  moreover have "gr_document g \<notin> dr_document ` set (filter (\<lambda>r. dr_tenant r = u) (documents db))"
    using mem(3) granted(3,5) assms(3) by auto
  ultimately show ?thesis by (simp add: tenant_view_def granted(1))
next
  case (regranted d r w v)
  note mem = find_document_member(3) [OF inv regranted(2)]
  have "filter (\<lambda>r. dr_tenant r = u) (documents db') = filter (\<lambda>r. dr_tenant r = u) (documents db)"
    unfolding regranted(1) using mem regranted(3) assms(3) by (auto intro!: filter_upd_other)
  moreover have "d \<notin> dr_document ` set (filter (\<lambda>r. dr_tenant r = u) (documents db))"
    using mem regranted(3) assms(3) by auto
  ultimately show ?thesis by (auto simp: tenant_view_def regranted(1) intro!: filter_upd_other)
next
  case (deleted d r now)
  note mem = find_document_member(3) [OF inv deleted(2)]
  have "filter (\<lambda>r. dr_tenant r = u) (documents db') = filter (\<lambda>r. dr_tenant r = u) (documents db)"
    unfolding deleted(1) using mem deleted(3) assms(3) by (auto intro!: filter_upd_other)
  moreover have "d \<notin> dr_document ` set (filter (\<lambda>r. dr_tenant r = u) (documents db))"
    using mem deleted(3) assms(3) by auto
  ultimately show ?thesis by (auto simp: tenant_view_def deleted(1) intro!: filter_upd_other)
next
  case (purging d r ps)
  note mem = find_document_member(3) [OF inv purging(2)]
  have "filter (\<lambda>r. dr_tenant r = u) (documents db') = filter (\<lambda>r. dr_tenant r = u) (documents db)"
    unfolding purging(1) using mem purging(3) assms(3) by (auto intro!: filter_upd_other)
  then show ?thesis by (simp add: tenant_view_def purging(1))
qed (use assms(3) in \<open>auto simp: tenant_view_def\<close>)

lemma sec_events_view:
  assumes "sec_events limit t db db'" and "sec_inv limit db" and "t \<noteq> u"
  shows "tenant_view u db' = tenant_view u db"
  using assms
proof (induction rule: rtranclp_induct)
  case (step y z)
  then show ?case using sec_event_view sec_events_inv by metis
qed simp

section \<open>Audit\<close>

definition accounted :: "principal \<Rightarrow> authority \<Rightarrow> authority \<Rightarrow> bool" where
  "accounted p db db' \<longleftrightarrow> db' = db \<or> (\<exists>xs. xs \<noteq> [] \<and> audit_log db' = audit_log db @ xs
     \<and> list_all (\<lambda>a. au_principal a = Some (owner (p_scope p)) \<and> au_tenant a = Some (tenant (p_scope p))) xs)"

lemma audit_accounted:
  "audit limit now (Some p) act res out db1 = Inr db' \<Longrightarrow> audit_log db1 = audit_log db \<Longrightarrow> accounted p db db'"
  by (auto simp: audit_def accounted_def split: if_splits)

lemma audited_accounted:
  assumes "\<And>x db'. body db = Inr (x, db') \<Longrightarrow> accounted p db db'"
  shows "accounted p db (snd (audited limit now act p res body db))"
  using assms by (auto simp: audited_def split: sum.splits intro: audit_accounted) (simp add: accounted_def)

lemma accounted_refl [simp]: "accounted p db db"
  by (simp add: accounted_def)

lemma sec_call_accounted: "sec_call limit p db db' \<Longrightarrow> accounted p db db'"
proof (induction rule: sec_call.induct)
  case (1 now db u db')
  then show ?case
    by (auto simp: register_def txn_simps split: if_splits option.splits intro: audit_accounted)
next
  case (2 db now doc)
  show ?case unfolding register_document_def
    by (rule audited_accounted)
      (auto simp: register_document_body_def txn_simps split: if_splits option.splits intro: audit_accounted)
next
  case (3 db now act res)
  show ?case by (auto simp: authorize_def Let_def split: sum.splits intro: audit_accounted)
next
  case (4 db now ids act)
  show ?case by (auto simp: snapshot_def Let_def split: sum.splits intro: audit_accounted)
next
  case (5 db now fresh d g revoke)
  show ?case unfolding share_def
    by (rule audited_accounted)
      (auto simp: share_body_def txn_simps split: if_splits option.splits intro: audit_accounted)
next
  case (6 db now d)
  show ?case unfolding tombstone_def
  proof (rule audited_accounted)
    fix x db' assume "tombstone_body limit now p d db = Inr (x, db')"
    then show "accounted p db db'"
      by (auto simp: tombstone_body_def txn_simps audit_def split: if_splits option.splits)
        (simp_all add: accounted_def)
  qed
next
  case (7 db now d)
  show ?case unfolding track_purge_def
    by (rule audited_accounted)
      (auto simp: track_purge_body_def Let_def txn_simps split: if_splits option.splits intro: audit_accounted)
next
  case (8 db now w)
  show ?case unfolding disable_principal_def
    by (rule audited_accounted)
      (auto simp: disable_principal_body_def txn_simps split: if_splits option.splits intro: audit_accounted)
qed

section \<open>A sample history\<close>

definition sample_admin :: principal where
  "sample_admin = \<lparr>p_issuer = ''i'', p_subject = ''a'', p_tenant_identity = ''t'', p_scope = \<lparr>tenant = 1, owner = 10\<rparr>,
     p_permissions = {PUBLICATION_MANAGE, TENANT_ADMIN}, p_kind = ''user'', p_expires = 1000\<rparr>"

definition sample_guest :: principal where
  "sample_guest = \<lparr>p_issuer = ''i'', p_subject = ''b'', p_tenant_identity = ''t'', p_scope = \<lparr>tenant = 1, owner = 11\<rparr>,
     p_permissions = {}, p_kind = ''user'', p_expires = 1000\<rparr>"

definition sample_principal_row :: "principal \<Rightarrow> principal_row" where
  "sample_principal_row p = \<lparr>pr_owner = owner (p_scope p), pr_tenant = tenant (p_scope p), pr_identity = identity_of p,
     pr_permissions = p_permissions p, pr_kind = p_kind p, pr_epoch = 0, pr_disabled = False\<rparr>"

definition sample_event :: "principal \<Rightarrow> string \<Rightarrow> uuid option \<Rightarrow> audit_row" where
  "sample_event p act res = \<lparr>au_at = 0, au_principal = Some (owner (p_scope p)), au_tenant = Some (tenant (p_scope p)),
     au_action = act, au_resource = res, au_outcome = ''allowed''\<rparr>"

definition sample_document :: document where
  "sample_document = \<lparr>dc_document_id = 5, dc_version_id = 7, dc_scope = \<lparr>tenant = 1, owner = 10\<rparr>,
     dc_source = \<lparr>or_scope = \<lparr>tenant = 1, owner = 10\<rparr>, or_kind = Source, or_object_id = 7, or_key = 7,
       or_sha256 = replicate 64 CHR ''0'', or_byte_size = 3\<rparr>,
     dc_display_filename = ''f.txt'', dc_declared_mime = ''text/plain'', dc_detected = Text_plain,
     dc_page_count = None, dc_language = None, dc_language_confidence = None, dc_created_at = 0\<rparr>"

definition sample_enrolled :: authority where
  "sample_enrolled = \<lparr>principals = [sample_principal_row sample_admin, sample_principal_row sample_guest], documents = [], grants = [],
     audit_log = [sample_event sample_admin ''AUTHENTICATION'' None, sample_event sample_guest ''AUTHENTICATION'' None],
     purge = []\<rparr>"

definition sample_shared :: authority where
  "sample_shared = sample_enrolled\<lparr>
     documents := [\<lparr>dr_document = 5, dr_tenant = 1, dr_owner = 10, dr_epoch = 1, dr_state = ACTIVE\<rparr>],
     grants := [\<lparr>gr_id = 3, gr_document = 5, gr_grantee = 11, gr_created = 0, gr_revoked = None\<rparr>],
     audit_log := audit_log sample_enrolled @
       [sample_event sample_admin ''DOCUMENT_REGISTER'' (Some 5), sample_event sample_admin ''SHARE_CREATE'' (Some 5)]\<rparr>"

lemmas authority_sample_defs = sample_admin_def sample_guest_def sample_principal_row_def sample_event_def sample_document_def
  sample_enrolled_def sample_shared_def empty_authority_def find_principal_def find_document_def
  check_principal_def check_document_def has_grant_def audit_def audited_def identity_of_def

lemma reachable_call: "sec_reachable limit db \<Longrightarrow> sec_call limit p db db' \<Longrightarrow> sec_reachable limit db'"
  by (rule reachable.step) (auto intro: sec_step.called)

lemma sample_enrolled_reachable: "sec_reachable 50 sample_enrolled"
proof -
  let ?one = "sample_enrolled\<lparr>principals := [sample_principal_row sample_admin],
    audit_log := [sample_event sample_admin ''AUTHENTICATION'' None]\<rparr>"
  have "register 50 0 sample_admin empty_authority = Inr ((), ?one)"
    by (simp add: register_def authority_sample_defs)
  then have "sec_reachable 50 ?one" by (blast intro: reachable.intros sec_step.called sec_call.intros(1))
  moreover have "register 50 0 sample_guest ?one = Inr ((), sample_enrolled)"
    by (simp add: register_def authority_sample_defs)
  ultimately show ?thesis by (blast intro: reachable.step sec_step.called sec_call.intros(1))
qed

lemma sample_shared_reachable: "sec_reachable 50 sample_shared"
proof -
  let ?two = "sample_enrolled\<lparr>
     documents := [\<lparr>dr_document = 5, dr_tenant = 1, dr_owner = 10, dr_epoch = 0, dr_state = ACTIVE\<rparr>],
     audit_log := audit_log sample_enrolled @ [sample_event sample_admin ''DOCUMENT_REGISTER'' (Some 5)]\<rparr>"
  have two: "snd (register_document 50 0 sample_admin sample_document sample_enrolled) = ?two"
    by (simp add: register_document_def register_document_body_def authority_sample_defs)
  have "sec_reachable 50 ?two"
    using reachable_call [OF sample_enrolled_reachable sec_call.intros(2) [of 50 sample_admin sample_enrolled 0 sample_document]]
    unfolding two .
  from reachable_call [OF this sec_call.intros(5) [of 50 sample_admin ?two 0 3 5 11 False]]
  have "sec_reachable 50 (snd (share 50 0 3 sample_admin 5 11 False ?two))" .
  moreover have "snd (share 50 0 3 sample_admin 5 11 False ?two) = sample_shared"
    by (simp add: share_def share_body_def authority_sample_defs)
  ultimately show ?thesis by (simp only:)
qed

section \<open>Properties\<close>

text \<open>C4: A revocation that has been acknowledged blocks every later release. If a snapshot covers a
  document, and afterwards an active grant on that document is revoked, then whatever else happens
  before or after, revalidating the snapshot fails, so nothing guarded by it is released, even when
  the same grant is created again.\<close>

theorem revocation_blocks_release:
  assumes "sec_reachable limit db0" and snap: "snapshot limit now0 p ids act db0 = (Inr s, db1)" and d: "d \<in> set ids"
    and run1: "sec_run limit db1 db2" and grant: "has_grant d g db2"
    and revoke: "share limit now1 fresh q d g True db2 = (Inr gid, db3)" and run2: "sec_run limit db3 db4"
  shows "\<exists>e. revalidate now2 s db4 = Inl e \<and> release now2 s db4 out = Inl e"
proof -
  have inv0: "sec_inv limit db0" using assms(1) by (rule authority_sys.reachable_inv)
  note ev = snapshot_evolves [OF snap inv0 run1]
  have step: "sec_step limit db2 db3"
    using revoke sec_step.called [OF sec_call.intros(5) [of limit q db2 now1 fresh d g True]] by simp
  have inv3: "sec_inv limit db3" using ev(2) step by (rule authority_sys.step_inv)
  from snapshotD(4) [OF snap d] obtain r where r: "find_document d db0 = Some r" by blast
  then obtain r2 where r2: "find_document d db2 = Some r2" "dr_epoch r \<le> dr_epoch r2"
    using sec_evolves_document [OF ev(1)] by (auto simp: document_evolves_def)
  from grant obtain row where "row \<in> set (grants db2)" "gr_document row = d" "gr_grantee row = g" "gr_revoked row = None"
    by (auto simp: has_grant_def list_ex_iff)
  then have row: "find (\<lambda>r. gr_document r = d \<and> gr_grantee r = g) (grants db2) = Some row"
    using find_key_unique [OF sec_invD(4) [OF ev(2)], of row "(d, g)" "\<lambda>_. True"] by simp
  have body: "share_body limit now1 fresh q d g True db2 = Inr (gid, db3)"
    using revoke by (auto simp: share_def audited_def split: sum.splits)
  then have "documents db3 = upd_where (\<lambda>r. dr_document r = d) (\<lambda>r. r\<lparr>dr_epoch := dr_epoch r + 1\<rparr>) (documents db2)"
    using row \<open>gr_revoked row = None\<close>
    by (auto simp: share_body_def audit_def txn_simps split: if_splits option.splits)
  then have "find_document d db3 = Some (r2\<lparr>dr_epoch := dr_epoch r2 + 1\<rparr>)"
    using r2(1) by (simp add: find_document_def find_upd_self)
  then obtain r4 where r4: "find_document d db4 = Some r4" "dr_epoch r < dr_epoch r4"
    using sec_evolves_document [OF sec_run_evolves [OF run2 inv3]] r2(2) by (fastforce simp: document_evolves_def)
  then obtain e where "revalidate now2 s db4 = Inl e" using stale_document_refused [OF snap d r r4(1)] by blast
  then show ?thesis by (simp add: release_def)
qed

theorem revocation_blocks_release_witness:
  "\<exists>e. revalidate 2
     \<lparr>as_principal = sample_guest, as_principal_epoch = 0, as_documents = [(5, \<lparr>tenant = 1, owner = 10\<rparr>, 1)],
       as_action = DOCUMENT_ANALYZE, as_policy_version = ''authorization/1''\<rparr>
     (snd (share 50 1 4 sample_admin 5 11 True (snd (snapshot 50 1 sample_guest [5] DOCUMENT_ANALYZE sample_shared)))) = Inl e"
proof -
  let ?s = "\<lparr>as_principal = sample_guest, as_principal_epoch = 0, as_documents = [(5, \<lparr>tenant = 1, owner = 10\<rparr>, 1)],
       as_action = DOCUMENT_ANALYZE, as_policy_version = ''authorization/1''\<rparr>"
  let ?db1 = "snd (snapshot 50 1 sample_guest [5] DOCUMENT_ANALYZE sample_shared)"
  let ?db3 = "snd (share 50 1 4 sample_admin 5 11 True ?db1)"
  have snap: "snapshot 50 1 sample_guest [5] DOCUMENT_ANALYZE sample_shared = (Inr ?s, ?db1)"
    by (simp add: snapshot_def authority_sample_defs)
  have grant: "has_grant 5 11 ?db1" by (simp add: snapshot_def authority_sample_defs)
  have "share 50 1 4 sample_admin 5 11 True ?db1 = (Inr 3, ?db3)"
    by (simp add: snapshot_def share_def share_body_def authority_sample_defs)
  from revocation_blocks_release [OF sample_shared_reachable snap _ rtranclp.rtrancl_refl grant this
      rtranclp.rtrancl_refl, of 2 "\<lambda>_. Inr ()"]
  show ?thesis by auto
qed

text \<open>C26: Deletion is final. Once a tombstone request on a document has returned, in every later state
  no principal passes the access check for it under any action, no grant on it is active, and
  registering it again is refused.\<close>

theorem deletion_is_final:
  assumes "sec_reachable limit db" and tomb: "tombstone limit now q d db = (Inr st, db1)" and run: "sec_run limit db1 db2"
  shows "(\<exists>e. check_document now' p act d db2 = Inl e) \<and> \<not> has_grant d g db2
    \<and> (dc_document_id doc = d \<longrightarrow> (\<exists>e. fst (register_document limit now' p doc db2) = Inl e))"
proof -
  have inv: "sec_inv limit db" using assms(1) by (rule authority_sys.reachable_inv)
  have step: "sec_step limit db db1"
    using tomb sec_step.called [OF sec_call.intros(6) [of limit q db now d]] by simp
  have inv1: "sec_inv limit db1" using inv step by (rule authority_sys.step_inv)
  have "tombstone_body limit now q d db = Inr (st, db1)"
    using tomb by (auto simp: tombstone_def audited_def split: sum.splits)
  then obtain r where r: "find_document d db1 = Some r" "dr_state r \<noteq> ACTIVE"
    by (auto simp: tombstone_body_def txn_simps audit_def find_document_def find_upd_self split: if_splits option.splits)
  obtain r2 where r2: "find_document d db2 = Some r2" "dr_state r2 \<noteq> ACTIVE"
    using deleted_documents.frozen_run [OF run inv1 r] by blast
  have inv2: "sec_inv limit db2" using inv1 run by (rule authority_sys.run_inv)
  have "\<not> has_grant d g db2"
    using sec_invD(6) [OF inv2] find_document_member(3) [OF inv2 r2(1)] r2(2)
    by (fastforce simp: has_grant_def list_ex_iff)
  moreover have "\<exists>e. check_document now' p act d db2 = Inl e"
    using r2 check_documentD(1,3) [of now' p act d db2] by (cases "check_document now' p act d db2") fastforce+
  moreover have "\<exists>e. fst (register_document limit now' p doc db2) = Inl e" if "dc_document_id doc = d"
    using r2 that by (cases "check_principal now' p db2")
      (auto simp: register_document_def audited_def register_document_body_def split: sum.splits if_splits option.splits)
  ultimately show ?thesis by blast
qed

theorem deletion_is_final_witness:
  "(\<exists>e. check_document 2 sample_guest DOCUMENT_READ 5 (snd (tombstone 50 1 sample_admin 5 sample_shared)) = Inl e)
   \<and> \<not> has_grant 5 11 (snd (tombstone 50 1 sample_admin 5 sample_shared))
   \<and> (\<exists>e. fst (register_document 50 2 sample_admin sample_document (snd (tombstone 50 1 sample_admin 5 sample_shared))) = Inl e)"
proof -
  let ?db1 = "snd (tombstone 50 1 sample_admin 5 sample_shared)"
  have tomb: "tombstone 50 1 sample_admin 5 sample_shared = (Inr TOMBSTONED, ?db1)"
    by (simp add: tombstone_def tombstone_body_def authority_sample_defs)
  note final = deletion_is_final [OF sample_shared_reachable tomb rtranclp.rtrancl_refl]
  show ?thesis
    using final [of 2 sample_guest DOCUMENT_READ 11] final [of 2 sample_admin _ _ sample_document]
    by (auto simp: sample_document_def)
qed

text \<open>A disabled principal stays locked out. Once disabling it has returned, in every later state its
  token is refused whatever it claims, it cannot register again, and every snapshot it holds is invalid.\<close>

theorem disabled_principal_locked_out:
  assumes "sec_reachable limit db" and off: "disable_principal limit now q w db = (Inr u, db1)" and run: "sec_run limit db1 db2"
    and "owner (p_scope p) = w"
  shows "(\<exists>e. check_principal now' p db2 = Inl e) \<and> (\<exists>e. register limit now' p db2 = Inl e)
    \<and> (as_principal s = p \<longrightarrow> (\<exists>e. revalidate now' s db2 = Inl e))"
proof -
  have inv: "sec_inv limit db" using assms(1) by (rule authority_sys.reachable_inv)
  have step: "sec_step limit db db1"
    using off sec_step.called [OF sec_call.intros(8) [of limit q db now w]] by simp
  have inv1: "sec_inv limit db1" using inv step by (rule authority_sys.step_inv)
  have "disable_principal_body limit now q w db = Inr (u, db1)"
    using off by (auto simp: disable_principal_def audited_def split: sum.splits)
  then obtain r where r: "find_principal w db1 = Some r" "pr_disabled r"
    by (auto simp: disable_principal_body_def txn_simps audit_def find_principal_def find_upd_self split: if_splits option.splits)
  obtain r2 where r2: "find_principal w db2 = Some r2" "pr_disabled r2"
    using disabled_principals.frozen_run [OF run inv1 r] by blast
  have off2: "\<exists>e. check_principal now' p db2 = Inl e" using r2 assms(4) by (simp add: check_principal_def)
  moreover have "\<exists>e. register limit now' p db2 = Inl e" using r2 assms(4) by (simp add: register_def)
  moreover have "as_principal s = p \<longrightarrow> (\<exists>e. revalidate now' s db2 = Inl e)"
    using off2 by (auto simp: revalidate_def)
  ultimately show ?thesis by blast
qed

theorem disabled_principal_locked_out_witness:
  "\<exists>e. check_principal 2 sample_guest (snd (disable_principal 50 1 sample_admin 11 sample_shared)) = Inl e"
proof -
  let ?db1 = "snd (disable_principal 50 1 sample_admin 11 sample_shared)"
  have "disable_principal 50 1 sample_admin 11 sample_shared = (Inr (), ?db1)"
    by (simp add: disable_principal_def disable_principal_body_def authority_sample_defs)
  from disabled_principal_locked_out [OF sample_shared_reachable this rtranclp.rtrancl_refl, of sample_guest]
  show ?thesis by (simp add: sample_guest_def)
qed

text \<open>C28: Tenants are separated. Whatever operation a principal calls, with whatever arguments and whether
  or not it is allowed, the principals, documents and grants of every other tenant are exactly as before.\<close>

theorem tenant_separation:
  assumes "sec_reachable limit db" and "sec_call limit p db db'" and "tenant (p_scope p) \<noteq> u"
  shows "tenant_view u db' = tenant_view u db"
  using authority_sys.reachable_inv [OF assms(1)] sec_call_events [OF assms(2)] assms(3) by (metis sec_events_view)

theorem tenant_separation_witness:
  "tenant_view 2 (snd (tombstone 50 1 sample_admin 5 sample_shared)) = tenant_view 2 sample_shared"
  by (rule tenant_separation [OF sample_shared_reachable sec_call.intros(6)]) (simp add: sample_admin_def)

text \<open>Every change is audited and the log fails closed. A call either leaves the whole database as it
  was or appends to the audit log only entries that name the caller and its tenant; the log never
  exceeds its capacity and never loses an entry, and when it is full no call changes anything.\<close>

theorem audit_accounts_for_every_change:
  assumes "sec_reachable limit db" and "sec_call limit p db db'"
  shows "(db' = db \<or> (\<exists>xs. xs \<noteq> [] \<and> audit_log db' = audit_log db @ xs
      \<and> list_all (\<lambda>a. au_principal a = Some (owner (p_scope p)) \<and> au_tenant a = Some (tenant (p_scope p))) xs))
    \<and> length (audit_log db') \<le> limit \<and> (length (audit_log db) = limit \<longrightarrow> db' = db)"
proof -
  have "sec_inv limit db'"
    using authority_sys.reachable_inv [OF assms(1)] sec_step.called [OF assms(2)] authority_sys.step_inv by blast
  then have len: "length (audit_log db') \<le> limit" by (rule sec_invD)
  with sec_call_accounted [OF assms(2)] show ?thesis by (auto simp: accounted_def)
qed

theorem audit_accounts_for_every_change_witness:
  "length (audit_log (snd (tombstone 50 1 sample_admin 5 sample_shared))) = 6"
proof -
  let ?db' = "snd (tombstone 50 1 sample_admin 5 sample_shared)"
  note acc = audit_accounts_for_every_change [OF sample_shared_reachable sec_call.intros(6) [of 50 sample_admin sample_shared 1 5]]
  then have "length (audit_log ?db') \<le> 50" by (rule conjunct2 [THEN conjunct1])
  then show ?thesis by (simp add: tombstone_def tombstone_body_def authority_sample_defs)
qed

text \<open>Sessions of different owners never share a key by construction: if two session keys are equal,
  then either the two principals have the same scope and the session names are equal, or two different
  payload texts have the same SHA-256 digest.\<close>

theorem session_keys_separate:
  assumes "session_key H p a = Inr k" and "session_key H q b = Inr k"
  shows "p_scope p = p_scope q \<and> a = b
    \<or> session_payload p a \<noteq> session_payload q b \<and> sha256_hex H (session_payload p a) = sha256_hex H (session_payload q b)"
proof (cases "session_payload p a = session_payload q b")
  case True
  then have "uuid_text (tenant (p_scope p)) = uuid_text (tenant (p_scope q))
      \<and> uuid_text (owner (p_scope p)) = uuid_text (owner (p_scope q)) \<and> a = b"
    unfolding session_payload_def by (auto dest: stable_name_inj)
  then have "scope_identity (p_scope p) = scope_identity (p_scope q)" "a = b" by (auto simp: scope_identity_def)
  then show ?thesis by simp
next
  case False
  then show ?thesis using assms by (auto simp: session_key_def txn_simps)
qed

theorem session_keys_separate_witness:
  "p_scope sample_admin = p_scope sample_guest \<and> ''x'' = ''x''
    \<or> session_payload sample_admin ''x'' \<noteq> session_payload sample_guest ''x''
      \<and> sha256_hex sample_prims (session_payload sample_admin ''x'') = sha256_hex sample_prims (session_payload sample_guest ''x'')"
  by (rule session_keys_separate [where k = "''s1-'' @ replicate 64 CHR ''0''"])
    (simp_all add: session_key_def guard_def sample_prims_def)

end
