(* ===== verification/MemoryStore.thy ===== *)
theory MemoryStore
  imports AuthorityTheorems "HOL-Library.Sublist"
begin

text \<open>
  Conversation memory: the file store and the Redis store of memory/memory_store.py and the request
  facade of security/memory.py. The file is its parsed content or one of the ways in which reading
  it fails; an operation holds the lock of the file, so it is one function of the content. The
  Redis client is an argument (record \<open>redis_client\<close>): its commands as functions of the state of the
  server, an exception as the name of its class. A stored value is the JSON value that its text
  denotes, or undecodable bytes. Timestamps are arguments. The locale \<open>conversation_store\<close> is the
  contract of a store that keeps what it is given, and what follows from it is proved once; the Redis store keeps it
  between two expirations of a session. The locale \<open>keyed_store\<close> is what the facade relies on.
\<close>

section \<open>Errors and messages\<close>

datatype memory_error =
    Memory_unavailable | Memory_timeout | Memory_protocol | Memory_read | Memory_write

fun memory_category :: "memory_error \<Rightarrow> string" where
  "memory_category Memory_unavailable = ''memory_unreachable''"
| "memory_category Memory_timeout = ''memory_timeout''"
| "memory_category Memory_protocol = ''memory_protocol''"
| "memory_category Memory_read = ''memory_read_failure''"
| "memory_category Memory_write = ''memory_write_failure''"

text \<open>What leaves a store: an error of its own, or an exception of the language that it does not
  translate.\<close>

datatype memory_exn = Memory_error memory_error | Unicode_decode_error | Attribute_error

definition message :: "string \<Rightarrow> nat list \<Rightarrow> string \<Rightarrow> (string \<times> json) list" where
  "message role content now = [(''role'', JStr role), (''content'', JText content), (''timestamp'', JStr now)]"

text \<open>The slices \<^verbatim>\<open>xs[k:]\<close> and \<^verbatim>\<open>xs[:k]\<close>: a negative index counts from the end, an index out of range is
  clamped.\<close>

definition slice_index :: "nat \<Rightarrow> int \<Rightarrow> nat" where
  "slice_index n k = nat (if k < 0 then max 0 (int n + k) else min k (int n))"

definition slice_from :: "int \<Rightarrow> 'a list \<Rightarrow> 'a list" where
  "slice_from k xs = drop (slice_index (length xs) k) xs"

definition slice_to :: "int \<Rightarrow> 'a list \<Rightarrow> 'a list" where
  "slice_to k xs = take (slice_index (length xs) k) xs"

section \<open>The file store\<close>

datatype file_content =
    File_missing
  | File_unreadable
  | File_not_utf8
  | File_not_json
  | File_json json

definition read_unlocked :: "file_content \<Rightarrow> memory_exn + json list" where
  "read_unlocked f = (case f of
      File_missing \<Rightarrow> Inr []
    | File_unreadable \<Rightarrow> Inl (Memory_error Memory_read)
    | File_not_utf8 \<Rightarrow> Inl Unicode_decode_error
    | File_not_json \<Rightarrow> Inl (Memory_error Memory_protocol)
    | File_json (JArr items) \<Rightarrow> Inr items
    | File_json _ \<Rightarrow> Inl (Memory_error Memory_protocol))"

text \<open>The replacement of the file is atomic: it happens as a whole (\<open>io\<close>), or the operating system
  reports an error and the file is as before.\<close>

definition write_unlocked :: "bool \<Rightarrow> json list \<Rightarrow> file_content \<Rightarrow> (memory_exn + unit) \<times> file_content" where
  "write_unlocked io items f =
     (if io then (Inr (), File_json (JArr items)) else (Inl (Memory_error Memory_write), f))"

text \<open>\<^verbatim>\<open>item.get("session_id")\<close>: an item that is not an object has no such method.\<close>

definition item_session :: "json \<Rightarrow> memory_exn + json option" where
  "item_session item = (case item of JObj d \<Rightarrow> Inr (map_of d ''session_id'') | _ \<Rightarrow> Inl Attribute_error)"

fun session_flags :: "string \<Rightarrow> json list \<Rightarrow> memory_exn + (json \<times> bool) list" where
  "session_flags sid [] = Inr []"
| "session_flags sid (item # items) = sbind (item_session item) (\<lambda>v.
     sbind (session_flags sid items) (\<lambda>r. Inr ((item, v = Some (JStr sid)) # r)))"

definition file_get_history ::
  "int \<Rightarrow> string \<Rightarrow> int option \<Rightarrow> file_content \<Rightarrow> memory_exn + json list" where
  "file_get_history history_limit sid limit f =
     sbind (read_unlocked f) (\<lambda>items.
     sbind (session_flags sid items) (\<lambda>flags.
       let history = map fst (filter snd flags);
           effective_limit = (case limit of None \<Rightarrow> history_limit | Some l \<Rightarrow> l)
       in Inr (if effective_limit \<noteq> 0 then slice_from (- effective_limit) history else [])))"

definition file_append_exchange ::
  "int \<Rightarrow> bool \<Rightarrow> string \<Rightarrow> string \<Rightarrow> string \<Rightarrow> nat list \<Rightarrow> nat list \<Rightarrow> file_content
     \<Rightarrow> (memory_exn + unit) \<times> file_content" where
  "file_append_exchange history_limit io now now' sid query answer f =
     (case sbind (read_unlocked f) (\<lambda>items.
        session_flags sid (items @ [JObj ((''session_id'', JStr sid) # message ''user'' query now),
                                    JObj ((''session_id'', JStr sid) # message ''assistant'' answer now')])) of
        Inl e \<Rightarrow> (Inl e, f)
      | Inr flags \<Rightarrow>
          let indexes = map fst (filter (\<lambda>(i, _, own). own) (enumerate 0 flags));
              remove = set (slice_to (- history_limit) indexes);
              data = (if remove \<noteq> {} then map (fst \<circ> snd) (filter (\<lambda>(i, _). i \<notin> remove) (enumerate 0 flags))
                      else map fst flags)
          in write_unlocked io data f)"

definition file_clear_session ::
  "bool \<Rightarrow> string \<Rightarrow> file_content \<Rightarrow> (memory_exn + unit) \<times> file_content" where
  "file_clear_session io sid f =
     (case sbind (read_unlocked f) (session_flags sid) of
        Inl e \<Rightarrow> (Inl e, f)
      | Inr flags \<Rightarrow> write_unlocked io (map fst (filter (\<lambda>(_, own). \<not> own) flags)) f)"

definition file_clear_all :: "bool \<Rightarrow> file_content \<Rightarrow> (memory_exn + unit) \<times> file_content" where
  "file_clear_all io f = write_unlocked io [] f"

section \<open>The Redis store\<close>

datatype redis_value = Encoded json | Undecodable

datatype redis_command =
    Rpush string "redis_value list"
  | Ltrim string int int
  | Expire string int

text \<open>The client: a read command, the execution of a transaction, and the deletion of a key. A failing
  call gives the name of the class of its exception.\<close>

record 'w redis_client =
  rc_lrange :: "string \<Rightarrow> int \<Rightarrow> int \<Rightarrow> 'w \<Rightarrow> string + redis_value list"
  rc_execute :: "redis_command list \<Rightarrow> 'w \<Rightarrow> (string + unit) \<times> 'w"
  rc_delete :: "string \<Rightarrow> 'w \<Rightarrow> (string + unit) \<times> 'w"
  rc_ping :: "'w \<Rightarrow> string + bool"

definition redis_key :: "prims \<Rightarrow> string \<Rightarrow> string \<Rightarrow> string" where
  "redis_key H key_prefix sid = key_prefix @ '':'' @ sha256_hex H sid"

definition lower_char :: "char \<Rightarrow> char" where
  "lower_char c = (if CHR ''A'' \<le> c \<and> c \<le> CHR ''Z'' then char_of (of_char c + 32 :: nat) else c)"

definition text_contains :: "string \<Rightarrow> string \<Rightarrow> bool" where
  "text_contains part s \<longleftrightarrow> list_ex (prefix part) (suffixes s)"

datatype memory_operation = Op_read | Op_write

definition normalize_error :: "string \<Rightarrow> memory_operation \<Rightarrow> memory_error" where
  "normalize_error class_name op =
     (let name = map lower_char class_name in
      if text_contains ''timeout'' name then Memory_timeout
      else if text_contains ''connection'' name then Memory_unavailable
      else if op = Op_read then Memory_read else Memory_write)"

definition json_is_str :: "json option \<Rightarrow> bool" where
  "json_is_str v \<longleftrightarrow> (case v of Some (JStr _) \<Rightarrow> True | Some (JText _) \<Rightarrow> True | _ \<Rightarrow> False)"

definition decode_message :: "redis_value \<Rightarrow> memory_exn + json" where
  "decode_message v = (case v of
      Encoded (JObj d) \<Rightarrow>
        if map_of d ''role'' \<in> {Some (JStr ''user''), Some (JStr ''assistant'')}
           \<and> json_is_str (map_of d ''content'') \<and> json_is_str (map_of d ''timestamp'')
        then Inr (JObj d) else Inl (Memory_error Memory_protocol)
    | _ \<Rightarrow> Inl (Memory_error Memory_protocol))"

fun decode_messages :: "redis_value list \<Rightarrow> memory_exn + json list" where
  "decode_messages [] = Inr []"
| "decode_messages (v # vs) = sbind (decode_message v) (\<lambda>m. sbind (decode_messages vs) (\<lambda>ms. Inr (m # ms)))"

record redis_config =
  rd_history_limit :: int
  rd_ttl_seconds :: int
  rd_key_prefix :: string

definition redis_get_history ::
  "prims \<Rightarrow> 'w redis_client \<Rightarrow> redis_config \<Rightarrow> string \<Rightarrow> int option \<Rightarrow> 'w \<Rightarrow> memory_exn + json list" where
  "redis_get_history H client cfg sid limit w =
     (let effective_limit = (case limit of None \<Rightarrow> rd_history_limit cfg | Some l \<Rightarrow> l) in
      if effective_limit = 0 then Inr []
      else case rc_lrange client (redis_key H (rd_key_prefix cfg) sid) (- effective_limit) (- 1) w of
          Inl e \<Rightarrow> Inl (Memory_error (normalize_error e Op_read))
        | Inr values \<Rightarrow> decode_messages values)"

definition write_result :: "(string + unit) \<times> 'w \<Rightarrow> (memory_exn + unit) \<times> 'w" where
  "write_result r = (case r of
      (Inl e, w) \<Rightarrow> (Inl (Memory_error (normalize_error e Op_write)), w)
    | (Inr u, w) \<Rightarrow> (Inr (), w))"

definition redis_append_exchange ::
  "prims \<Rightarrow> 'w redis_client \<Rightarrow> redis_config \<Rightarrow> string \<Rightarrow> string \<Rightarrow> string \<Rightarrow> nat list \<Rightarrow> nat list \<Rightarrow> 'w
     \<Rightarrow> (memory_exn + unit) \<times> 'w" where
  "redis_append_exchange H client cfg now now' sid query answer w =
     (let key = redis_key H (rd_key_prefix cfg) sid;
          values = [Encoded (JObj (message ''user'' query now)), Encoded (JObj (message ''assistant'' answer now'))]
      in write_result (rc_execute client
           ([Rpush key values, Ltrim key (- rd_history_limit cfg) (- 1)]
             @ (if rd_ttl_seconds cfg \<noteq> 0 then [Expire key (rd_ttl_seconds cfg)] else [])) w))"

definition redis_clear_session ::
  "prims \<Rightarrow> 'w redis_client \<Rightarrow> redis_config \<Rightarrow> string \<Rightarrow> 'w \<Rightarrow> (memory_exn + unit) \<times> 'w" where
  "redis_clear_session H client cfg sid w =
     write_result (rc_delete client (redis_key H (rd_key_prefix cfg) sid) w)"

record memory_readiness =
  mr_provider :: string
  mr_ready :: bool
  mr_status :: string

definition redis_check_readiness :: "'w redis_client \<Rightarrow> 'w \<Rightarrow> memory_readiness" where
  "redis_check_readiness client w = (case rc_ping client w of
      Inr ready \<Rightarrow> \<lparr>mr_provider = ''redis'', mr_ready = ready,
        mr_status = (if ready then ''ready'' else ''memory_unavailable'')\<rparr>
    | Inl e \<Rightarrow> \<lparr>mr_provider = ''redis'', mr_ready = False,
        mr_status = memory_category (normalize_error e Op_read)\<rparr>)"
section \<open>The facade of a request\<close>

text \<open>Any store behind the interface of the facade.\<close>

record 's memory_port =
  mp_get_history :: "string \<Rightarrow> int option \<Rightarrow> 's \<Rightarrow> memory_exn + json list"
  mp_append_exchange :: "string \<Rightarrow> string \<Rightarrow> string \<Rightarrow> nat list \<Rightarrow> nat list \<Rightarrow> 's \<Rightarrow> (memory_exn + unit) \<times> 's"
  mp_clear_session :: "string \<Rightarrow> 's \<Rightarrow> (memory_exn + unit) \<times> 's"

datatype scoped_exn = Scoped_security security_error | Scoped_memory memory_exn

definition scoped_memory ::
  "nat \<Rightarrow> rat \<Rightarrow> principal \<Rightarrow> authority \<Rightarrow> (security_error + authorization_snapshot) \<times> authority" where
  "scoped_memory audit_limit now p db = snapshot audit_limit now p [] DOCUMENT_ANALYZE db"

definition scoped_run ::
  "prims \<Rightarrow> rat \<Rightarrow> authorization_snapshot \<Rightarrow> authority \<Rightarrow> string \<Rightarrow> (string \<Rightarrow> 's \<Rightarrow> (memory_exn + 'a) \<times> 's)
     \<Rightarrow> 's \<Rightarrow> (scoped_exn + 'a) \<times> 's" where
  "scoped_run H now snap db sid act s =
     (case release now snap db (\<lambda>_. session_key H (as_principal snap) sid) of
        Inl e \<Rightarrow> (Inl (Scoped_security e), s)
      | Inr key \<Rightarrow> (case act key s of
            (Inl e, s') \<Rightarrow> (Inl (Scoped_memory e), s')
          | (Inr x, s') \<Rightarrow> (Inr x, s')))"

definition without_session :: "json \<Rightarrow> memory_exn + json" where
  "without_session m = (case m of
      JObj d \<Rightarrow> Inr (JObj (filter (\<lambda>(k, v). k \<noteq> ''session_id'') d)) | _ \<Rightarrow> Inl Attribute_error)"

fun without_sessions :: "json list \<Rightarrow> memory_exn + json list" where
  "without_sessions [] = Inr []"
| "without_sessions (m # ms) = sbind (without_session m) (\<lambda>m'. sbind (without_sessions ms) (\<lambda>ms'. Inr (m' # ms')))"

definition scoped_get_history ::
  "prims \<Rightarrow> rat \<Rightarrow> authorization_snapshot \<Rightarrow> authority \<Rightarrow> 's memory_port \<Rightarrow> string \<Rightarrow> int option \<Rightarrow> 's
     \<Rightarrow> (scoped_exn + json list) \<times> 's" where
  "scoped_get_history H now snap db port sid limit =
     scoped_run H now snap db sid (\<lambda>key s. (sbind (mp_get_history port key limit s) without_sessions, s))"

definition scoped_append_exchange ::
  "prims \<Rightarrow> rat \<Rightarrow> authorization_snapshot \<Rightarrow> authority \<Rightarrow> 's memory_port \<Rightarrow> string \<Rightarrow> string \<Rightarrow> string \<Rightarrow> nat list
     \<Rightarrow> nat list \<Rightarrow> 's \<Rightarrow> (scoped_exn + unit) \<times> 's" where
  "scoped_append_exchange H now snap db port t t' sid query answer =
     scoped_run H now snap db sid (\<lambda>key. mp_append_exchange port t t' key query answer)"

definition scoped_clear_session ::
  "prims \<Rightarrow> rat \<Rightarrow> authorization_snapshot \<Rightarrow> authority \<Rightarrow> 's memory_port \<Rightarrow> string \<Rightarrow> 's
     \<Rightarrow> (scoped_exn + unit) \<times> 's" where
  "scoped_clear_session H now snap db port sid = scoped_run H now snap db sid (mp_clear_session port)"

definition file_port :: "int \<Rightarrow> bool \<Rightarrow> file_content memory_port" where
  "file_port history_limit io =
     \<lparr>mp_get_history = file_get_history history_limit,
      mp_append_exchange = file_append_exchange history_limit io,
      mp_clear_session = file_clear_session io\<rparr>"

definition redis_port :: "prims \<Rightarrow> 'w redis_client \<Rightarrow> redis_config \<Rightarrow> 'w memory_port" where
  "redis_port H client cfg =
     \<lparr>mp_get_history = redis_get_history H client cfg,
      mp_append_exchange = redis_append_exchange H client cfg,
      mp_clear_session = redis_clear_session H client cfg\<rparr>"

section \<open>Slices and trimming\<close>

lemma length_slice_from: "0 < k \<Longrightarrow> length (slice_from (- k) xs) \<le> nat k"
  by (auto simp: slice_from_def slice_index_def)



lemma slice_from_twice: "0 < k \<Longrightarrow> slice_from (- k) (slice_from (- k) xs) = slice_from (- k) xs"
  by (auto simp: slice_from_def slice_index_def min_def max_def nat_diff_distrib')

text \<open>Removing the entries at the first \<open>n\<close> indexes of a kind drops the first \<open>n\<close> of that kind and keeps
  the others.\<close>

definition trimmed :: "('a \<Rightarrow> bool) \<Rightarrow> nat \<Rightarrow> nat \<Rightarrow> 'a list \<Rightarrow> 'a list" where
  "trimmed P n k xs = map snd (filter (\<lambda>(i, _). i \<notin> set (take n (map fst (filter (P \<circ> snd) (enumerate k xs)))))
     (enumerate k xs))"

lemma enumerate_index_ge: "p \<in> set (enumerate k xs) \<Longrightarrow> k \<le> fst p"
  by (auto simp: in_set_enumerate_eq)

lemma trimmed_Cons:
  "trimmed P n k (x # xs) = (if P x then (case n of 0 \<Rightarrow> x # xs | Suc m \<Rightarrow> trimmed P m (Suc k) xs)
     else x # trimmed P n (Suc k) xs)"
proof -
  let ?I = "\<lambda>m. set (take m (map fst (filter (P \<circ> snd) (enumerate (Suc k) xs))))"
  have ge: "Suc k \<le> i" if "i \<in> ?I m" for i m
    using that by (auto dest!: in_set_takeD dest: enumerate_index_ge)
  have nth: "filter (\<lambda>(i, _). i \<notin> insert k (?I m)) (enumerate (Suc k) xs)
      = filter (\<lambda>(i, _). i \<notin> ?I m) (enumerate (Suc k) xs)" for m
    by (rule filter_cong) (auto dest: enumerate_index_ge)
  have out: "k \<notin> ?I n" using ge by fastforce
  show ?thesis
  proof (cases "P x")
    case True
    then show ?thesis using nth by (cases n) (simp_all add: trimmed_def)
  next
    case False
    then show ?thesis using out by (simp add: trimmed_def)
  qed
qed

lemma trimmed_Nil [simp]: "trimmed P n k [] = []"
  by (simp add: trimmed_def)

lemma trimmed_own: "filter P (trimmed P n k xs) = drop n (filter P xs)"
  by (induction xs arbitrary: n k) (auto simp: trimmed_Cons split: nat.splits)

lemma trimmed_other: "(\<And>x. Q x \<Longrightarrow> \<not> P x) \<Longrightarrow> filter Q (trimmed P n k xs) = filter Q xs"
proof (induction xs arbitrary: n k)
  case Nil
  then show ?case by simp
next
  case (Cons x xs)
  then show ?case by (auto simp: trimmed_Cons split: nat.splits)
qed

lemma trimmed_subset: "set (trimmed P n k xs) \<subseteq> set xs"
  by (auto simp: trimmed_def in_set_enumerate_eq)
section \<open>The file store on its items\<close>

definition own :: "string \<Rightarrow> json \<Rightarrow> bool" where
  "own sid item \<longleftrightarrow> item_session item = Inr (Some (JStr sid))"

definition is_object :: "json \<Rightarrow> bool" where
  "is_object item \<longleftrightarrow> (case item of JObj _ \<Rightarrow> True | _ \<Rightarrow> False)"

lemma session_flags_iff:
  "session_flags sid items = Inr flags \<longleftrightarrow> list_all is_object items \<and> flags = map (\<lambda>i. (i, own sid i)) items"
  by (induction items arbitrary: flags)
    (auto simp: txn_simps item_session_def is_object_def own_def split: json.splits)

lemma session_flags_objects:
  "list_all is_object items \<Longrightarrow> session_flags sid items = Inr (map (\<lambda>i. (i, own sid i)) items)"
  by (simp add: session_flags_iff)

lemma enumerate_map: "enumerate k (map f xs) = map (\<lambda>(i, x). (i, f x)) (enumerate k xs)"
  by (induction xs arbitrary: k) auto

lemma own_different: "own sid item \<Longrightarrow> own other item \<Longrightarrow> sid = other"
  by (simp add: own_def)

definition exchange :: "string \<Rightarrow> string \<Rightarrow> nat list \<Rightarrow> nat list \<Rightarrow> (string \<times> json) list list" where
  "exchange now now' query answer = [message ''user'' query now, message ''assistant'' answer now']"

definition tagged :: "string \<Rightarrow> (string \<times> json) list \<Rightarrow> json" where
  "tagged sid m = JObj ((''session_id'', JStr sid) # m)"

lemma tagged_own [simp]: "own other (tagged sid m) \<longleftrightarrow> other = sid"
  by (auto simp: own_def item_session_def tagged_def)

lemma tagged_object [simp]: "is_object (tagged sid m)"
  by (simp add: is_object_def tagged_def)

text \<open>The whole effect of an append that reads well-formed items.\<close>

definition appended :: "int \<Rightarrow> string \<Rightarrow> json list \<Rightarrow> json list \<Rightarrow> json list" where
  "appended hl sid new items = trimmed (own sid)
     (slice_index (length (filter (own sid) (items @ new))) (- hl)) 0 (items @ new)"

lemma file_append_eq:
  assumes "read_unlocked f = Inr items" and "list_all is_object items"
  shows "file_append_exchange hl io now now' sid query answer f =
    write_unlocked io (appended hl sid (map (tagged sid) (exchange now now' query answer)) items) f"
proof -
  let ?new = "map (tagged sid) (exchange now now' query answer)"
  let ?all = "items @ ?new"
  have flags: "session_flags sid ?all = Inr (map (\<lambda>i. (i, own sid i)) ?all)"
    using assms(2) by (intro session_flags_objects) (auto simp: list_all_iff)
  have ix: "map fst (filter (\<lambda>(i, _, own). own) (enumerate 0 (map (\<lambda>i. (i, own sid i)) xs)))
      = map fst (filter (own sid \<circ> snd) (enumerate 0 xs))" for xs
    by (simp add: enumerate_map filter_map comp_def case_prod_beta)
  have len: "length (map fst (filter (own sid \<circ> snd) (enumerate k xs))) = length (filter (own sid) xs)" for k xs
    by (induction xs arbitrary: k) auto
  have data: "map (fst \<circ> snd) (filter (\<lambda>(i, _). i \<notin> R) (enumerate 0 (map (\<lambda>i. (i, own sid i)) xs)))
      = map snd (filter (\<lambda>(i, _). i \<notin> R) (enumerate 0 xs))" for xs R
    by (simp add: enumerate_map filter_map comp_def case_prod_unfold)
  have all: "items @ [JObj ((''session_id'', JStr sid) # message ''user'' query now),
      JObj ((''session_id'', JStr sid) # message ''assistant'' answer now')] = ?all"
    by (simp add: exchange_def tagged_def)
  have keep: "(if R \<noteq> {} then map snd (filter (\<lambda>(i, _). i \<notin> R) (enumerate 0 xs)) else xs)
      = map snd (filter (\<lambda>(i, _). i \<notin> R) (enumerate 0 xs))" for R and xs :: "json list"
    by (cases "R = {}") simp_all
  have plain: "map fst (map (\<lambda>i. (i, own sid i)) xs) = xs" for xs
    by (simp add: comp_def)
  show ?thesis
    unfolding file_append_exchange_def all assms(1) sbind_simps flags sum.case Let_def ix data plain
      slice_to_def len keep appended_def trimmed_def by (rule refl)
qed

lemma file_append_SuccessD:
  assumes "file_append_exchange hl io now now' sid query answer f = (Inr u, f')"
  obtains items where "read_unlocked f = Inr items" and "list_all is_object items" and "io"
    and "f' = File_json (JArr (appended hl sid (map (tagged sid) (exchange now now' query answer)) items))"
proof -
  from assms obtain items where items: "read_unlocked f = Inr items"
    by (cases "read_unlocked f") (auto simp: file_append_exchange_def)
  moreover have "list_all is_object items"
    using assms items
    by (auto simp: file_append_exchange_def session_flags_iff split: sum.splits)
  ultimately show ?thesis
    using assms file_append_eq [of f items hl io now now' sid query answer] that
    by (auto simp: write_unlocked_def split: if_splits)
qed

lemma appended_own: "list_all (own sid) new \<Longrightarrow>
    filter (own sid) (appended hl sid new items) = slice_from (- hl) (filter (own sid) items @ new)"
  by (simp add: appended_def trimmed_own slice_from_def list_all_iff filter_id_conv)

lemma appended_other: "other \<noteq> sid \<Longrightarrow> list_all (own sid) new \<Longrightarrow>
    filter (own other) (appended hl sid new items) = filter (own other) items"
  by (simp add: appended_def list_all_iff) (subst trimmed_other, auto dest: own_different simp: filter_empty_conv)

lemma appended_subset: "set (appended hl sid new items) \<subseteq> set items \<union> set new"
  unfolding appended_def using trimmed_subset by fastforce

lemma flagged_history: "map fst (filter snd (map (\<lambda>i. (i, own sid i)) items)) = filter (own sid) items"
  by (induction items) auto

lemma file_get_eq:
  assumes "read_unlocked f = Inr items" and "list_all is_object items"
  shows "file_get_history hl sid limit f =
    (let e = (case limit of None \<Rightarrow> hl | Some l \<Rightarrow> l)
     in Inr (if e \<noteq> 0 then slice_from (- e) (filter (own sid) items) else []))"
  using assms by (simp add: file_get_history_def session_flags_objects flagged_history Let_def)

lemma file_append_failed:
  "file_append_exchange hl io now now' sid query answer f = (Inl e, f') \<Longrightarrow> f' = f"
  by (auto simp: file_append_exchange_def write_unlocked_def Let_def split: sum.splits if_splits)

lemma read_written [simp]: "read_unlocked (File_json (JArr items)) = Inr items"
  by (simp add: read_unlocked_def)
lemma file_append_other:
  assumes "file_append_exchange hl io now now' sid query answer f = (r, f')" and "other \<noteq> sid"
  shows "file_get_history hl other l f' = file_get_history hl other l f"
proof (cases r)
  case (Inl e)
  with assms(1) show ?thesis by (auto dest: file_append_failed)
next
  case (Inr u)
  let ?new = "map (tagged sid) (exchange now now' query answer)"
  from assms(1) Inr obtain items where items: "read_unlocked f = Inr items" "list_all is_object items"
      and f': "f' = File_json (JArr (appended hl sid ?new items))"
    by (auto elim: file_append_SuccessD)
  have ok: "list_all is_object (appended hl sid ?new items)"
    using appended_subset [of hl sid ?new items] items(2) by (fastforce simp: list_all_iff)
  have read': "read_unlocked f' = Inr (appended hl sid ?new items)" by (simp add: f')
  show ?thesis
    using assms(2) by (simp add: file_get_eq [OF read' ok] file_get_eq [OF items] Let_def appended_other list_all_iff)
qed

section \<open>The contract of a store\<close>

text \<open>The abstract specification: every session is the list of its recent messages.\<close>

datatype memory_call =
    Append_call string string string "nat list" "nat list"
  | Clear_call string

primrec call_session :: "memory_call \<Rightarrow> string" where
  "call_session (Append_call now now' sid query answer) = sid"
| "call_session (Clear_call sid) = sid"



section \<open>The file store keeps the contract\<close>

definition memory_message :: "(string \<times> json) list \<Rightarrow> bool" where
  "memory_message m \<longleftrightarrow> (\<exists>role content now. m = message role content now \<and> role \<in> {''user'', ''assistant''})"



definition item_message :: "json \<Rightarrow> json" where
  "item_message item = (case item of JObj d \<Rightarrow> JObj (filter (\<lambda>(k, v). k \<noteq> ''session_id'') d) | _ \<Rightarrow> item)"



lemma item_message_tagged [simp]: "memory_message m \<Longrightarrow> item_message (tagged sid m) = JObj m"
  by (auto simp: item_message_def tagged_def memory_message_def message_def)




lemma tagged_new: "list_all (own sid) (map (tagged sid) ms)"
  by (simp add: list_all_iff)

lemma file_clear_eq:
  assumes "read_unlocked f = Inr items" and "list_all is_object items"
  shows "file_clear_session io sid f = write_unlocked io (filter (\<lambda>i. \<not> own sid i) items) f"
proof -
  have "map fst (filter (\<lambda>(_, own). \<not> own) (map (\<lambda>i. (i, own sid i)) xs)) = filter (\<lambda>i. \<not> own sid i) xs" for xs
    by (induction xs) auto
  with assms show ?thesis by (simp add: file_clear_session_def session_flags_objects)
qed


section \<open>The Redis store keeps the contract between expirations\<close>

text \<open>The documented behaviour of the commands, on a view of what the server holds: under every key a list and the time at
  which the key expires, if any; a key that does not exist is the empty list, and a key that has expired does not exist. Indexes from the end are
  negative, a range out of bounds is clamped, a list that becomes empty is deleted, \<^verbatim>\<open>EXPIRE\<close> sets the time of an existing key and deletes it
  when the duration is not positive, and the commands of a transaction run in order, at one time of the server. No call fails. Time passes
  between the calls (\<open>pass\<close>).\<close>

definition redis_range :: "int \<Rightarrow> int \<Rightarrow> 'a list \<Rightarrow> 'a list" where
  "redis_range start stop xs =
     (let n = int (length xs);
          a = max 0 (if start < 0 then start + n else start);
          b = min (n - 1) (if stop < 0 then stop + n else stop)
      in if a > b then [] else take (nat (b - a + 1)) (drop (nat a) xs))"

type_synonym redis_entry = "redis_value list \<times> int option"

definition redis_live :: "int \<Rightarrow> redis_entry \<Rightarrow> redis_entry" where
  "redis_live now e = (case snd e of Some t \<Rightarrow> if t \<le> now then ([], None) else e | None \<Rightarrow> e)"

definition redis_kept :: "redis_entry \<Rightarrow> redis_entry" where
  "redis_kept e = (if fst e = [] then ([], None) else e)"

fun redis_apply :: "int \<Rightarrow> redis_command \<Rightarrow> (string \<Rightarrow> redis_entry) \<Rightarrow> string \<Rightarrow> redis_entry" where
  "redis_apply now (Rpush key values) v = v(key := (let (xs, d) = redis_live now (v key) in (xs @ values, d)))"
| "redis_apply now (Ltrim key a b) v = v(key := (let (xs, d) = redis_live now (v key) in redis_kept (redis_range a b xs, d)))"
| "redis_apply now (Expire key ttl) v = v(key := (let (xs, d) = redis_live now (v key)
     in redis_kept (if ttl \<le> 0 then [] else xs, Some (now + ttl))))"

definition redis_documented ::
  "'w redis_client \<Rightarrow> ('w \<Rightarrow> string \<Rightarrow> redis_entry) \<Rightarrow> ('w \<Rightarrow> int) \<Rightarrow> (int \<Rightarrow> 'w \<Rightarrow> 'w) \<Rightarrow> bool" where
  "redis_documented client held clock pass \<longleftrightarrow>
     (\<forall>key a b w. rc_lrange client key a b w = Inr (redis_range a b (fst (redis_live (clock w) (held w key))))) \<and>
     (\<forall>cs w. \<exists>w'. rc_execute client cs w = (Inr (), w') \<and> held w' = fold (redis_apply (clock w)) cs (held w) \<and> clock w' = clock w) \<and>
     (\<forall>key w. \<exists>w'. rc_delete client key w = (Inr (), w') \<and> held w' = (held w)(key := ([], None)) \<and> clock w' = clock w) \<and>
     (\<forall>d w. held (pass d w) = held w \<and> clock (pass d w) = clock w + d)"

lemma redis_range_slice: "redis_range k (- 1) xs = slice_from k xs"
proof (cases "k < 0")
  case True
  then show ?thesis by (auto simp: redis_range_def slice_from_def slice_index_def Let_def max_def add.commute)
next
  case False
  then show ?thesis by (auto simp: redis_range_def slice_from_def slice_index_def Let_def min_def)
qed

primrec redis_step :: "prims \<Rightarrow> 'w redis_client \<Rightarrow> redis_config \<Rightarrow> memory_call \<Rightarrow> 'w \<Rightarrow> 'w" where
  "redis_step H client cfg (Append_call now now' sid query answer) w =
     snd (redis_append_exchange H client cfg now now' sid query answer w)"
| "redis_step H client cfg (Clear_call sid) w = snd (redis_clear_session H client cfg sid w)"



lemma redis_key_inj:
  "inj_on (sha256_hex H) names \<Longrightarrow> a \<in> names \<Longrightarrow> b \<in> names \<Longrightarrow> redis_key H p a = redis_key H p b \<longleftrightarrow> a = b"
  by (auto simp: redis_key_def dest: inj_onD)

text \<open>The entry that an append leaves, from the values that were live: the most recent ones, with the time of expiry renewed when
  there is one.\<close>

definition renewed :: "redis_config \<Rightarrow> int \<Rightarrow> redis_value list \<Rightarrow> redis_entry \<Rightarrow> redis_entry" where
  "renewed cfg now new e =
     (let xs = slice_from (- rd_history_limit cfg) (fst (redis_live now e) @ new); ttl = rd_ttl_seconds cfg
      in redis_kept (if ttl = 0 then (xs, snd (redis_live now e)) else if ttl < 0 then ([], None) else (xs, Some (now + ttl))))"

lemma redis_live_kept: "redis_live now (redis_kept (xs, snd (redis_live now e))) = redis_kept (xs, snd (redis_live now e))"
  by (auto simp: redis_live_def redis_kept_def split: option.splits)

lemma redis_step_held:
  assumes doc: "redis_documented client held clock pass"
  shows "held (redis_step H client cfg c w) =
      (let key = redis_key H (rd_key_prefix cfg) (call_session c) in
       (held w)(key := (case c of
           Append_call now now' sid query answer \<Rightarrow> renewed cfg (clock w) (map (Encoded \<circ> JObj) (exchange now now' query answer)) (held w key)
         | Clear_call sid \<Rightarrow> ([], None))))"
    and "clock (redis_step H client cfg c w) = clock w"
proof -
  have "held (redis_step H client cfg c w) =
      (let key = redis_key H (rd_key_prefix cfg) (call_session c) in
       (held w)(key := (case c of
           Append_call now now' sid query answer \<Rightarrow> renewed cfg (clock w) (map (Encoded \<circ> JObj) (exchange now now' query answer)) (held w key)
         | Clear_call sid \<Rightarrow> ([], None)))) \<and> clock (redis_step H client cfg c w) = clock w"
  proof (cases c)
    case (Append_call now now' sid query answer)
    let ?key = "redis_key H (rd_key_prefix cfg) sid"
    let ?new = "map (Encoded \<circ> JObj) (exchange now now' query answer)"
    let ?cs = "[Rpush ?key ?new, Ltrim ?key (- rd_history_limit cfg) (- 1)] @ (if rd_ttl_seconds cfg \<noteq> 0 then [Expire ?key (rd_ttl_seconds cfg)] else [])"
    obtain w' where w': "rc_execute client ?cs w = (Inr (), w')" "held w' = fold (redis_apply (clock w)) ?cs (held w)" "clock w' = clock w"
      using doc unfolding redis_documented_def by blast
    have pushed: "redis_live (clock w) (xs, snd (redis_live (clock w) e)) = (xs, snd (redis_live (clock w) e))" for xs e
      by (auto simp: redis_live_def split: option.splits)
    have "held w' = (held w)(?key := renewed cfg (clock w) ?new (held w ?key))"
      unfolding w'(2) by (cases "redis_live (clock w) (held w ?key)")
        (auto simp: renewed_def redis_range_slice Let_def redis_live_kept pushed [of _ "held w ?key", simplified] redis_kept_def redis_live_def
          split: option.splits if_splits)
    then show ?thesis using w'(1,3)
      by (simp add: Append_call redis_append_exchange_def write_result_def exchange_def Let_def)
  next
    case (Clear_call sid)
    let ?key = "redis_key H (rd_key_prefix cfg) sid"
    obtain w' where "rc_delete client ?key w = (Inr (), w')" "held w' = (held w)(?key := ([], None))" "clock w' = clock w"
      using doc unfolding redis_documented_def by blast
    then show ?thesis by (simp add: Clear_call redis_clear_session_def write_result_def Let_def)
  qed
  then show "held (redis_step H client cfg c w) =
      (let key = redis_key H (rd_key_prefix cfg) (call_session c) in
       (held w)(key := (case c of
           Append_call now now' sid query answer \<Rightarrow> renewed cfg (clock w) (map (Encoded \<circ> JObj) (exchange now now' query answer)) (held w key)
         | Clear_call sid \<Rightarrow> ([], None))))" "clock (redis_step H client cfg c w) = clock w" by simp_all
qed
















section \<open>Reading\<close>





section \<open>Properties\<close>


text \<open>A server of the documented kind: its time, and the entries themselves.\<close>

definition listing_client :: "(int \<times> (string \<Rightarrow> redis_entry)) redis_client" where
  "listing_client = \<lparr>rc_lrange = (\<lambda>key a b w. Inr (redis_range a b (fst (redis_live (fst w) (snd w key))))),
     rc_execute = (\<lambda>cs w. (Inr (), (fst w, fold (redis_apply (fst w)) cs (snd w)))),
     rc_delete = (\<lambda>key w. (Inr (), (fst w, (snd w)(key := ([], None))))), rc_ping = (\<lambda>w. Inr True)\<rparr>"

definition listing_pass :: "int \<Rightarrow> int \<times> (string \<Rightarrow> redis_entry) \<Rightarrow> int \<times> (string \<Rightarrow> redis_entry)" where
  "listing_pass d w = (fst w + d, snd w)"

lemma listing_client_documented: "redis_documented listing_client snd fst listing_pass"
  by (simp add: redis_documented_def listing_client_def listing_pass_def)

definition plain_prims :: prims where
  "plain_prims = sample_prims\<lparr>sha256_hex := (\<lambda>s. s)\<rparr>"


definition sample_redis_config :: redis_config where
  "sample_redis_config = \<lparr>rd_history_limit = 3, rd_ttl_seconds = 60, rd_key_prefix = ''polymind:memory''\<rparr>"



text \<open>A successful append to the file store, from any readable content, keeps the most recent messages of
  the session up to the limit and ends with the new exchange; every other session reads as before, for every
  requested limit. A failed append leaves the file as it was.\<close>

theorem file_append_effect:
  assumes limit: "2 \<le> hl" and run: "file_append_exchange hl io now now' sid query answer f = (r, f')"
  shows "(\<exists>e. r = Inl e) \<and> f' = f
    \<or> (\<exists>kept. file_get_history hl sid None f' = Inr (kept @ map (tagged sid) (exchange now now' query answer))
        \<and> length kept + 2 \<le> nat hl
        \<and> (\<forall>other l. other \<noteq> sid \<longrightarrow> file_get_history hl other l f' = file_get_history hl other l f))"
proof (cases r)
  case (Inl e)
  with run have "f' = f" by (simp add: file_append_failed)
  with Inl show ?thesis by blast
next
  case (Inr u)
  let ?new = "map (tagged sid) (exchange now now' query answer)"
  from run Inr obtain items where items: "read_unlocked f = Inr items" "list_all is_object items"
      and f': "f' = File_json (JArr (appended hl sid ?new items))"
    by (auto elim: file_append_SuccessD)
  have ok: "list_all is_object (appended hl sid ?new items)"
    using appended_subset [of hl sid ?new items] items(2) by (fastforce simp: list_all_iff)
  have read': "read_unlocked f' = Inr (appended hl sid ?new items)" by (simp add: f')
  let ?old = "filter (own sid) items"
  define n where "n = slice_index (length ?old + 2) (- hl)"
  have len: "length ?new = 2" by (simp add: exchange_def)
  have n: "n \<le> length ?old" "length ?old - n + 2 \<le> nat hl"
    using limit by (auto simp: n_def slice_index_def)
  have "slice_from (- hl) (?old @ ?new) = drop n ?old @ ?new"
    using n(1) len by (simp add: slice_from_def n_def)
  moreover have "file_get_history hl sid None f' = Inr (slice_from (- hl) (slice_from (- hl) (?old @ ?new)))"
    using limit by (simp add: file_get_eq [OF read' ok] Let_def appended_own tagged_new)
  ultimately have "file_get_history hl sid None f' = Inr (drop n ?old @ ?new)"
    using limit slice_from_twice [of hl "?old @ ?new"] by simp
  moreover have "length (drop n ?old) + 2 \<le> nat hl" using n(2) by simp
  ultimately show ?thesis using file_append_other [OF run] by blast
qed
theorem file_append_effect_witness:
  "\<exists>kept. file_get_history 3 ''a'' None (snd (file_append_exchange 3 True ''t'' ''u'' ''a'' [1] [2] File_missing))
      = Inr (kept @ map (tagged ''a'') (exchange ''t'' ''u'' [1] [2])) \<and> length kept + 2 \<le> nat 3"
proof -
  have run: "file_append_exchange 3 True ''t'' ''u'' ''a'' [1] [2] File_missing
      = (Inr (), snd (file_append_exchange 3 True ''t'' ''u'' ''a'' [1] [2] File_missing))"
    by (simp add: file_append_eq [where items = "[]"] read_unlocked_def write_unlocked_def)
  have "2 \<le> (3 :: int)" by simp
  from file_append_effect [OF this run] show ?thesis by auto
qed

text \<open>Two kinds of damage that the file store reports as exceptions of the language, where the Redis store
  reports its protocol error.\<close>

lemma file_damage_untranslated:
  "file_get_history hl sid limit File_not_utf8 = Inl Unicode_decode_error
   \<and> file_get_history hl sid limit (File_json (JArr [JNull])) = Inl Attribute_error
   \<and> decode_message Undecodable = Inl (Memory_error Memory_protocol)
   \<and> decode_message (Encoded JNull) = Inl (Memory_error Memory_protocol)"
  by (simp add: file_get_history_def read_unlocked_def item_session_def decode_message_def)

section \<open>The facade over a store\<close>

text \<open>What the facade relies on: a write under one key does not change what is read under another.\<close>

locale keyed_store =
  fixes port :: "'s memory_port" and names :: "string set"
  assumes append_other: "k \<in> names \<Longrightarrow> key \<in> names \<Longrightarrow> k \<noteq> key \<Longrightarrow>
      mp_get_history port k l (snd (mp_append_exchange port t t' key query answer s)) = mp_get_history port k l s"
    and clear_other: "k \<in> names \<Longrightarrow> key \<in> names \<Longrightarrow> k \<noteq> key \<Longrightarrow>
      mp_get_history port k l (snd (mp_clear_session port key s)) = mp_get_history port k l s"

primrec scoped_call ::
  "prims \<Rightarrow> rat \<Rightarrow> authorization_snapshot \<Rightarrow> authority \<Rightarrow> 's memory_port \<Rightarrow> memory_call \<Rightarrow> 's \<Rightarrow> (scoped_exn + unit) \<times> 's" where
  "scoped_call H now snap db port (Append_call t t' sid query answer) = scoped_append_exchange H now snap db port t t' sid query answer"
| "scoped_call H now snap db port (Clear_call sid) = scoped_clear_session H now snap db port sid"

lemma scoped_run_denied:
  "revalidate now snap db = Inl e \<Longrightarrow> scoped_run H now snap db sid act s = (Inl (Scoped_security e), s)"
  by (simp add: scoped_run_def release_def)

lemma scoped_call_denied:
  "revalidate now snap db = Inl e \<Longrightarrow> scoped_call H now snap db port c s = (Inl (Scoped_security e), s)"
  by (cases c) (simp_all add: scoped_append_exchange_def scoped_clear_session_def scoped_run_denied)

lemma scoped_get_denied:
  "revalidate now snap db = Inl e \<Longrightarrow> scoped_get_history H now snap db port sid limit s = (Inl (Scoped_security e), s)"
  by (simp add: scoped_get_history_def scoped_run_denied)

lemma scoped_run_state:
  "snd (scoped_run H now snap db sid act s) = s
    \<or> (\<exists>key. session_key H (as_principal snap) sid = Inr key \<and> snd (scoped_run H now snap db sid act s) = snd (act key s))"
  by (auto simp: scoped_run_def release_def txn_simps split: sum.split prod.split)

lemma scoped_get_cong:
  assumes "\<And>key. session_key H (as_principal snap) sid = Inr key \<Longrightarrow> mp_get_history port key limit s = mp_get_history port key limit s'"
  shows "fst (scoped_get_history H now snap db port sid limit s) = fst (scoped_get_history H now snap db port sid limit s')"
  using assms by (auto simp: scoped_get_history_def scoped_run_def release_def txn_simps split: sum.split)

context keyed_store begin

lemma scoped_read_unchanged:
  assumes keys: "\<And>k key. session_key H (as_principal snap') b = Inr k \<Longrightarrow> session_key H (as_principal snap) (call_session c) = Inr key
      \<Longrightarrow> k \<in> names \<and> key \<in> names \<and> k \<noteq> key"
  shows "fst (scoped_get_history H now' snap' db' port b limit (snd (scoped_call H now snap db port c s)))
    = fst (scoped_get_history H now' snap' db' port b limit s)"
proof (rule scoped_get_cong)
  fix k
  assume k: "session_key H (as_principal snap') b = Inr k"
  show "mp_get_history port k limit (snd (scoped_call H now snap db port c s)) = mp_get_history port k limit s"
  proof (cases c)
    case (Append_call t t' sid query answer)
    then show ?thesis
      using scoped_run_state [of H now snap db sid "\<lambda>key. mp_append_exchange port t t' key query answer" s] keys [OF k] append_other
      by (auto simp: scoped_append_exchange_def)
  next
    case (Clear_call sid)
    then show ?thesis
      using scoped_run_state [of H now snap db sid "mp_clear_session port" s] keys [OF k] clear_other
      by (auto simp: scoped_clear_session_def)
  qed
qed

end

lemma file_clear_other:
  assumes "other \<noteq> sid"
  shows "file_get_history hl other l (snd (file_clear_session io sid f)) = file_get_history hl other l f"
proof (cases "sbind (read_unlocked f) (session_flags sid)")
  case (Inl e)
  then show ?thesis by (simp add: file_clear_session_def)
next
  case (Inr flags)
  then obtain items where items: "read_unlocked f = Inr items" "list_all is_object items"
    by (auto simp: txn_simps session_flags_iff)
  have "filter (own other) (filter (\<lambda>i. \<not> own sid i) items) = filter (own other) items"
    using assms by (auto dest: own_different intro: filter_cong)
  moreover have "list_all is_object (filter (\<lambda>i. \<not> own sid i) items)" using items(2) by (auto simp: list_all_iff)
  ultimately show ?thesis
    by (cases io) (simp_all add: file_clear_eq [OF items] write_unlocked_def file_get_eq [OF items] file_get_eq [OF read_written] Let_def)
qed

interpretation file_sessions: keyed_store "file_port hl io" UNIV for hl io
proof
  fix k key l t t' query answer s
  assume k: "k \<noteq> (key :: string)"
  obtain r f where "file_append_exchange hl io t t' key query answer s = (r, f)" by fastforce
  then show "mp_get_history (file_port hl io) k l (snd (mp_append_exchange (file_port hl io) t t' key query answer s))
      = mp_get_history (file_port hl io) k l s"
    using file_append_other k by (simp add: file_port_def)
  show "mp_get_history (file_port hl io) k l (snd (mp_clear_session (file_port hl io) key s)) = mp_get_history (file_port hl io) k l s"
    using file_clear_other k by (simp add: file_port_def)
qed

lemma redis_other_session:
  assumes doc: "redis_documented client held clock pass" and key: "redis_key H (rd_key_prefix cfg) k \<noteq> redis_key H (rd_key_prefix cfg) (call_session c)"
  shows "redis_get_history H client cfg k l (redis_step H client cfg c w) = redis_get_history H client cfg k l w"
proof -
  let ?w = "redis_step H client cfg c w" and ?key = "redis_key H (rd_key_prefix cfg) k"
  have "held ?w ?key = held w ?key" "clock ?w = clock w"
    using redis_step_held [OF doc, of H cfg c w] key by (simp_all add: Let_def del: redis_step.simps)
  then have "rc_lrange client ?key a b ?w = rc_lrange client ?key a b w" for a b
    using doc by (simp add: redis_documented_def del: redis_step.simps)
  then show ?thesis by (simp add: redis_get_history_def Let_def del: redis_step.simps)
qed

lemma redis_keyed_store:
  assumes doc: "redis_documented client held clock pass" and inj: "inj_on (sha256_hex H) names"
  shows "keyed_store (redis_port H client cfg) names"
proof
  fix k key l t t' query answer w
  assume k: "k \<in> names" "key \<in> names" "k \<noteq> key"
  then have key: "redis_key H (rd_key_prefix cfg) k \<noteq> redis_key H (rd_key_prefix cfg) key" using redis_key_inj [OF inj] by blast
  show "mp_get_history (redis_port H client cfg) k l (snd (mp_append_exchange (redis_port H client cfg) t t' key query answer w))
      = mp_get_history (redis_port H client cfg) k l w"
    using redis_other_session [OF doc, of H cfg k "Append_call t t' key query answer" l w] key by (simp add: redis_port_def)
  show "mp_get_history (redis_port H client cfg) k l (snd (mp_clear_session (redis_port H client cfg) key w))
      = mp_get_history (redis_port H client cfg) k l w"
    using redis_other_session [OF doc, of H cfg k "Clear_call key" l w] key by (simp add: redis_port_def)
qed

lemma session_keys_differ:
  assumes "p_scope p \<noteq> p_scope q" and "inj_on (sha256_hex H) {session_payload p a, session_payload q b}"
    and "session_key H p a = Inr k" and "session_key H q b = Inr k'"
  shows "k \<noteq> k'"
  using session_keys_separate [of H p a k q b] assms by (auto dest: inj_onD)

definition session_names :: "prims \<Rightarrow> principal \<Rightarrow> string \<Rightarrow> principal \<Rightarrow> string \<Rightarrow> string set" where
  "session_names H p a q b = {session_payload p a, session_payload q b,
     ''s1-'' @ sha256_hex H (session_payload p a), ''s1-'' @ sha256_hex H (session_payload q b)}"

lemma session_keys_apart:
  assumes "p_scope p \<noteq> p_scope q" and "inj_on (sha256_hex H) (session_names H p a q b)"
    and "session_key H p a = Inr k" and "session_key H q b = Inr k'"
  shows "k \<noteq> k' \<and> {k, k'} \<subseteq> session_names H p a q b"
proof -
  have "inj_on (sha256_hex H) {session_payload p a, session_payload q b}" using assms(2) by (rule inj_on_subset) (auto simp: session_names_def)
  from session_keys_differ [OF assms(1) this assms(3,4)] show ?thesis
    using assms(3,4) by (auto simp: session_names_def session_key_def txn_simps)
qed

text \<open>C38: Conversation memory is scoped, over either store. What a principal appends or clears through the request facade does not change what
  a principal of another scope reads in any session, whatever session names they choose, in the file store and in the
  Redis store; and a facade whose authorization has been withdrawn neither reads nor writes. It relies on distinct SHA-256 digests of the two
  session payloads and of the two session keys, and, for Redis, on its documented commands and on client calls that succeed.\<close>

theorem scoped_memory_isolated:
  assumes scopes: "p_scope (as_principal snap) \<noteq> p_scope (as_principal snap')"
    and inj: "inj_on (sha256_hex H) (session_names H (as_principal snap) (call_session c) (as_principal snap') b)"
    and doc: "redis_documented client held clock pass"
  shows "fst (scoped_get_history H now' snap' db' (file_port hl io) b limit (snd (scoped_call H now snap db (file_port hl io) c f)))
      = fst (scoped_get_history H now' snap' db' (file_port hl io) b limit f)
    \<and> fst (scoped_get_history H now' snap' db' (redis_port H client cfg) b limit (snd (scoped_call H now snap db (redis_port H client cfg) c w)))
      = fst (scoped_get_history H now' snap' db' (redis_port H client cfg) b limit w)
    \<and> (\<forall>e. revalidate now snap db = Inl e \<longrightarrow>
        scoped_call H now snap db (file_port hl io) c f = (Inl (Scoped_security e), f)
        \<and> scoped_call H now snap db (redis_port H client cfg) c w = (Inl (Scoped_security e), w)
        \<and> scoped_get_history H now snap db (file_port hl io) a limit f = (Inl (Scoped_security e), f)
        \<and> scoped_get_history H now snap db (redis_port H client cfg) a limit w = (Inl (Scoped_security e), w))"
proof (intro conjI allI impI)
  let ?N = "session_names H (as_principal snap) (call_session c) (as_principal snap') b"
  have keys: "k \<noteq> key \<and> {k, key} \<subseteq> ?N"
    if "session_key H (as_principal snap') b = Inr k" "session_key H (as_principal snap) (call_session c) = Inr key" for k key
    using session_keys_apart [OF scopes inj that(2,1)] by blast
  show "fst (scoped_get_history H now' snap' db' (file_port hl io) b limit (snd (scoped_call H now snap db (file_port hl io) c f)))
      = fst (scoped_get_history H now' snap' db' (file_port hl io) b limit f)"
    using keys by (intro file_sessions.scoped_read_unchanged) auto
  show "fst (scoped_get_history H now' snap' db' (redis_port H client cfg) b limit (snd (scoped_call H now snap db (redis_port H client cfg) c w)))
      = fst (scoped_get_history H now' snap' db' (redis_port H client cfg) b limit w)"
    using keys by (intro keyed_store.scoped_read_unchanged [OF redis_keyed_store [OF doc inj]]) auto
qed (simp_all add: scoped_call_denied scoped_get_denied)

definition sample_memory_snapshot :: "principal \<Rightarrow> authorization_snapshot" where
  "sample_memory_snapshot p = \<lparr>as_principal = p, as_principal_epoch = 0, as_documents = [],
     as_action = DOCUMENT_ANALYZE, as_policy_version = ''authorization/1''\<rparr>"

definition sample_memory_read :: "'s memory_port \<Rightarrow> principal \<Rightarrow> 's \<Rightarrow> scoped_exn + json list" where
  "sample_memory_read port p s = fst (scoped_get_history plain_prims 0 (sample_memory_snapshot p) sample_enrolled port ''x'' None s)"

definition sample_memory_write :: "'s memory_port \<Rightarrow> 's \<Rightarrow> (scoped_exn + unit) \<times> 's" where
  "sample_memory_write port s = scoped_call plain_prims 0 (sample_memory_snapshot sample_admin) sample_enrolled port
     (Append_call ''t'' ''u'' ''x'' [3] [4]) s"

lemma sample_memory_valid: "p \<in> {sample_admin, sample_guest} \<Longrightarrow> revalidate 0 (sample_memory_snapshot p) sample_enrolled = Inr ()"
  by (elim insertE) (simp_all, code_simp+)

lemma sample_session_key: "session_key plain_prims p ''x'' = Inr (''s1-'' @ session_payload p ''x'')"
  by (simp add: session_key_def plain_prims_def txn_simps)

lemma sample_memory_run:
  assumes "p \<in> {sample_admin, sample_guest}"
  shows "scoped_run plain_prims 0 (sample_memory_snapshot p) sample_enrolled ''x'' act s =
    (case act (''s1-'' @ session_payload p ''x'') s of (Inl e, s') \<Rightarrow> (Inl (Scoped_memory e), s') | (Inr x, s') \<Rightarrow> (Inr x, s'))"
  using sample_memory_valid [OF assms] by (simp add: scoped_run_def release_def sample_session_key sample_memory_snapshot_def)

lemma sample_file_memory:
  "fst (sample_memory_write (file_port 6 True) File_missing) = Inr ()"
  "sample_memory_read (file_port 6 True) sample_admin (snd (sample_memory_write (file_port 6 True) File_missing)) = Inr (map JObj (exchange ''t'' ''u'' [3] [4]))"
  "sample_memory_read (file_port 6 True) sample_guest File_missing = Inr []"
proof -
  define sid where "sid = ''s1-'' @ session_payload sample_admin ''x''"
  let ?new = "exchange ''t'' ''u'' [3] [4]" and ?adm = "sample_admin"
  note run = sample_memory_run [of ?adm, folded sid_def, simplified]
  have missing: "read_unlocked File_missing = Inr []" by (simp add: read_unlocked_def)
  have "appended 6 sid (map (tagged sid) ?new) [] = map (tagged sid) ?new"
    by (simp add: appended_def exchange_def slice_index_def trimmed_def)
  then have app: "file_append_exchange 6 True ''t'' ''u'' sid [3] [4] File_missing = (Inr (), File_json (JArr (map (tagged sid) ?new)))"
    using file_append_eq [OF missing, of 6 True "''t''" "''u''" sid "[3]" "[4]"] by (simp add: write_unlocked_def)
  then have wr: "sample_memory_write (file_port 6 True) File_missing = (Inr (), File_json (JArr (map (tagged sid) ?new)))"
    by (simp add: sample_memory_write_def scoped_append_exchange_def run file_port_def)
  then show "fst (sample_memory_write (file_port 6 True) File_missing) = Inr ()" by simp
  have wo: "without_sessions (map (tagged sid) ?new) = Inr (map JObj ?new)"
    by (simp add: exchange_def tagged_def without_session_def message_def)
  have "list_all is_object (map (tagged sid) ?new)" by (simp add: list_all_iff)
  from file_get_eq [OF read_written this, of 6 sid None]
  have "file_get_history 6 sid None (File_json (JArr (map (tagged sid) ?new))) = Inr (map (tagged sid) ?new)"
    by (simp add: slice_from_def slice_index_def exchange_def)
  then show "sample_memory_read (file_port 6 True) sample_admin (snd (sample_memory_write (file_port 6 True) File_missing)) = Inr (map JObj ?new)"
    using wo unfolding wr by (simp add: sample_memory_read_def scoped_get_history_def run file_port_def)
  show "sample_memory_read (file_port 6 True) sample_guest File_missing = Inr []"
    by (simp add: sample_memory_read_def scoped_get_history_def sample_memory_run file_port_def file_get_eq [OF missing] slice_from_def)
qed

definition empty_server :: "int \<times> (string \<Rightarrow> redis_entry)" where
  "empty_server = (0, \<lambda>_. ([], None))"

lemma sample_redis_memory:
  "fst (sample_memory_write (redis_port plain_prims listing_client sample_redis_config) empty_server) = Inr ()"
  "sample_memory_read (redis_port plain_prims listing_client sample_redis_config) sample_admin
     (snd (sample_memory_write (redis_port plain_prims listing_client sample_redis_config) empty_server)) = Inr (map JObj (exchange ''t'' ''u'' [3] [4]))"
  "sample_memory_read (redis_port plain_prims listing_client sample_redis_config) sample_guest empty_server = Inr []"
proof -
  define sid where "sid = ''s1-'' @ session_payload sample_admin ''x''"
  note run = sample_memory_run [of sample_admin, folded sid_def, simplified]
  let ?new = "exchange ''t'' ''u'' [3] [4]" and ?rp = "redis_port plain_prims listing_client sample_redis_config"
  let ?key = "redis_key plain_prims (rd_key_prefix sample_redis_config) sid"
  have app: "redis_append_exchange plain_prims listing_client sample_redis_config ''t'' ''u'' sid [3] [4] empty_server
      = (Inr (), (0, (\<lambda>_. ([], None))(?key := (map (Encoded \<circ> JObj) ?new, Some 60))))"
    by (simp add: redis_append_exchange_def listing_client_def empty_server_def sample_redis_config_def redis_range_slice slice_from_def slice_index_def
        redis_live_def redis_kept_def exchange_def write_result_def Let_def)
  then have wr: "sample_memory_write ?rp empty_server = (Inr (), (0, (\<lambda>_. ([], None))(?key := (map (Encoded \<circ> JObj) ?new, Some 60))))"
    by (simp add: sample_memory_write_def scoped_append_exchange_def run redis_port_def)
  then show "fst (sample_memory_write ?rp empty_server) = Inr ()" by simp
  have dec: "decode_messages (map (Encoded \<circ> JObj) ?new) = Inr (map JObj ?new)" "without_sessions (map JObj ?new) = Inr (map JObj ?new)"
    by (simp_all add: exchange_def decode_message_def message_def json_is_str_def without_session_def)
  have "redis_get_history plain_prims listing_client sample_redis_config sid None (0, (\<lambda>_. ([], None))(?key := (map (Encoded \<circ> JObj) ?new, Some 60)))
      = Inr (map JObj ?new)"
    using dec(1) by (simp add: redis_get_history_def listing_client_def redis_range_slice slice_from_def slice_index_def redis_live_def
        exchange_def sample_redis_config_def [THEN arg_cong [where f = rd_history_limit]] Let_def)
  then show "sample_memory_read ?rp sample_admin (snd (sample_memory_write ?rp empty_server)) = Inr (map JObj ?new)"
    using dec(2) unfolding wr by (simp add: sample_memory_read_def scoped_get_history_def run redis_port_def)
  show "sample_memory_read ?rp sample_guest empty_server = Inr []"
    by (simp add: sample_memory_read_def scoped_get_history_def sample_memory_run redis_port_def redis_get_history_def listing_client_def
        empty_server_def redis_range_slice slice_from_def redis_live_def Let_def)
qed

text \<open>The administrator appends and reads the exchange; the guest, under the same session name, reads nothing.\<close>

theorem scoped_memory_isolated_witness:
  "fst (sample_memory_write (file_port 6 True) File_missing) = Inr ()
   \<and> sample_memory_read (file_port 6 True) sample_admin (snd (sample_memory_write (file_port 6 True) File_missing)) = Inr (map JObj (exchange ''t'' ''u'' [3] [4]))
   \<and> sample_memory_read (file_port 6 True) sample_guest (snd (sample_memory_write (file_port 6 True) File_missing)) = Inr []
   \<and> fst (sample_memory_write (redis_port plain_prims listing_client sample_redis_config) empty_server) = Inr ()
   \<and> sample_memory_read (redis_port plain_prims listing_client sample_redis_config) sample_admin
        (snd (sample_memory_write (redis_port plain_prims listing_client sample_redis_config) empty_server)) = Inr (map JObj (exchange ''t'' ''u'' [3] [4]))
   \<and> sample_memory_read (redis_port plain_prims listing_client sample_redis_config) sample_guest
        (snd (sample_memory_write (redis_port plain_prims listing_client sample_redis_config) empty_server)) = Inr []"
proof -
  let ?rp = "redis_port plain_prims listing_client sample_redis_config"
  have inj: "inj_on (sha256_hex plain_prims) A" for A by (simp add: plain_prims_def)
  have scopes: "p_scope (as_principal (sample_memory_snapshot sample_admin)) \<noteq> p_scope (as_principal (sample_memory_snapshot sample_guest))"
    by (simp add: sample_memory_snapshot_def sample_admin_def sample_guest_def)
  note iso = scoped_memory_isolated [OF scopes inj listing_client_documented, where now = 0 and now' = 0 and db = sample_enrolled and db' = sample_enrolled
    and b = "''x''" and c = "Append_call ''t'' ''u'' ''x'' [3] [4]" and hl = 6 and io = True and limit = None and f = File_missing
    and cfg = sample_redis_config and w = empty_server]
  have "sample_memory_read (file_port 6 True) sample_guest (snd (sample_memory_write (file_port 6 True) File_missing)) = Inr []"
    using conjunct1 [OF iso] sample_file_memory(3) unfolding sample_memory_read_def sample_memory_write_def by simp
  moreover have "sample_memory_read ?rp sample_guest (snd (sample_memory_write ?rp empty_server)) = Inr []"
    using conjunct1 [OF conjunct2 [OF iso]] sample_redis_memory(3) unfolding sample_memory_read_def sample_memory_write_def by simp
  ultimately show ?thesis using sample_file_memory(1,2) sample_redis_memory(1,2) by blast
qed

end
