(* ===== verification/JobLedger.thy ===== *)
theory JobLedger
  imports JobModels
begin

text \<open>
  The SQLite job ledger of documents/jobs/sqlite.py. The database is the record \<open>ledger\<close> with
  one list of rows per table, and every method of \<^verbatim>\<open>SQLiteJobLedger\<close> is a transaction
  body that returns an error category or its result with the new database. A column that holds the
  JSON text of a model holds the model, and the column \<open>scope\<close> holds the scope whose
  identity text the code stores (\<open>scope_identity\<close> is injective). The clock reading \<open>now\<close>
  and the random identifiers (\<open>ids\<close>) are arguments. The unique constraints on job, run, step
  and step-key columns are checked where rows are inserted; the other constraints of the schema
  are invariants, proved in LedgerInvariants.
\<close>

record progress =
  pg_total :: nat
  pg_completed :: nat
  pg_running :: nat
  pg_retrying :: nat
  pg_failed :: nat
  pg_cancelled :: nat
  pg_pending :: nat
  pg_current_stage :: "stage option"

record job_row =
  jr_job_id :: uuid
  jr_run_id :: uuid
  jr_scope :: scope
  jr_request_key :: string
  jr_fingerprint :: string
  jr_version_id :: uuid
  jr_source_key :: uuid
  jr_generation :: nat
  jr_request :: admission
  jr_created_at :: time
  jr_updated_at :: time
  jr_document_created_at :: time
  jr_state :: job_state
  jr_cancel_requested :: bool
  jr_progress :: progress
  jr_terminal_category :: "string option"

record step_row =
  sr_step_id :: uuid
  sr_job_id :: uuid
  sr_unit_id :: string
  sr_spec :: step_spec
  sr_step_key :: string
  sr_input_fingerprint :: string
  sr_execution_at :: time
  sr_state :: step_state
  sr_attempt_count :: nat
  sr_fence :: nat
  sr_lease_owner :: "string option"
  sr_lease_expires_at :: "time option"
  sr_not_before :: time
  sr_started_at :: "time option"
  sr_finished_at :: "time option"
  sr_failure_category :: "string option"
  sr_reused_from :: "uuid option"

record attempt_row =
  at_step_id :: uuid
  at_number :: nat
  at_worker :: string
  at_fence :: nat
  at_started_at :: time
  at_finished_at :: "time option"
  at_outcome :: step_state
  at_category :: "string option"
  at_classification :: "classification option"
  at_not_before :: "time option"

record manifest_row =
  mf_step_id :: uuid
  mf_manifest :: "object_ref list"
  mf_committed_at :: time
  mf_fence :: nat

record outbox_row =
  ob_dispatch_id :: nat
  ob_step_id :: uuid
  ob_created_at :: time
  ob_available_at :: time
  ob_delivered_at :: "time option"

record dead_letter =
  dl_step_id :: uuid
  dl_category :: string
  dl_classification :: classification
  dl_created_at :: time

record intent_row =
  it_step_id :: uuid
  it_object_key :: uuid
  it_ref :: object_ref
  it_created_at :: time

record ledger =
  jobs :: "job_row list"
  job_steps :: "step_row list"
  step_attempts :: "attempt_row list"
  artifact_manifests :: "manifest_row list"
  manifest_objects :: "(uuid \<times> uuid) list"
  outbox :: "outbox_row list"
  outbox_sequence :: nat
  dead_letter_rows :: "dead_letter list"
  object_intents :: "intent_row list"

record lease =
  ls_scope :: scope
  ls_job_id :: uuid
  ls_step_id :: uuid
  ls_owner :: string
  ls_fence :: nat

record dispatch =
  dp_dispatch_id :: nat
  dp_scope :: scope
  dp_job_id :: uuid
  dp_step_id :: uuid

record reconciliation =
  rc_expired :: nat
  rc_dispatch_repairs :: nat
  rc_terminal_repairs :: nat
  rc_pending_outbox :: nat
  rc_orphan_candidates :: nat

record job_settings =
  st_lease_seconds :: rat
  st_redelivery_seconds :: rat
  st_orphan_grace_seconds :: rat

definition settings_valid :: "job_settings \<Rightarrow> bool" where
  "settings_valid st \<longleftrightarrow> 0 < st_lease_seconds st \<and> st_lease_seconds st \<le> 3600
     \<and> 0 < st_redelivery_seconds st \<and> st_redelivery_seconds st \<le> 3600
     \<and> 0 \<le> st_orphan_grace_seconds st \<and> st_orphan_grace_seconds st \<le> 31536000"

definition empty_ledger :: ledger where
  "empty_ledger = \<lparr>jobs = [], job_steps = [], step_attempts = [], artifact_manifests = [],
     manifest_objects = [], outbox = [], outbox_sequence = 0, dead_letter_rows = [], object_intents = []\<rparr>"

definition bounded :: "int \<Rightarrow> string + nat" where
  "bounded limit = (if 1 \<le> limit \<and> limit \<le> 1000 then Inr (nat limit) else Inl ''invalid_configuration'')"

section \<open>Row access\<close>

definition ledger_job :: "ledger \<Rightarrow> scope \<Rightarrow> uuid \<Rightarrow> string + job_row" where
  "ledger_job db sc jid =
     (case find (\<lambda>r. jr_job_id r = jid \<and> jr_scope r = sc) (jobs db) of
        None \<Rightarrow> Inl ''job_not_found'' | Some r \<Rightarrow> Inr r)"

definition ledger_step :: "ledger \<Rightarrow> uuid \<Rightarrow> uuid \<Rightarrow> string + step_row" where
  "ledger_step db jid sid =
     (case find (\<lambda>r. sr_step_id r = sid \<and> sr_job_id r = jid) (job_steps db) of
        None \<Rightarrow> Inl ''step_not_found'' | Some r \<Rightarrow> Inr r)"

definition steps_of :: "ledger \<Rightarrow> uuid \<Rightarrow> step_row list" where
  "steps_of db jid = filter (\<lambda>r. sr_job_id r = jid) (job_steps db)"

definition manifest_of :: "ledger \<Rightarrow> uuid \<Rightarrow> object_ref list" where
  "manifest_of db sid = (case find (\<lambda>m. mf_step_id m = sid) (artifact_manifests db) of
     None \<Rightarrow> [] | Some m \<Rightarrow> mf_manifest m)"

definition step_model :: "ledger \<Rightarrow> step_row \<Rightarrow> step_row \<times> object_ref list" where
  "step_model db r = (r, manifest_of db (sr_step_id r))"

definition upd_step :: "uuid \<Rightarrow> (step_row \<Rightarrow> step_row) \<Rightarrow> ledger \<Rightarrow> ledger" where
  "upd_step sid f db = db\<lparr>job_steps := upd_where (\<lambda>r. sr_step_id r = sid) f (job_steps db)\<rparr>"

definition upd_job :: "uuid \<Rightarrow> (job_row \<Rightarrow> job_row) \<Rightarrow> ledger \<Rightarrow> ledger" where
  "upd_job jid f db = db\<lparr>jobs := upd_where (\<lambda>r. jr_job_id r = jid) f (jobs db)\<rparr>"

definition upd_attempt :: "(attempt_row \<Rightarrow> bool) \<Rightarrow> (attempt_row \<Rightarrow> attempt_row) \<Rightarrow> ledger \<Rightarrow> ledger" where
  "upd_attempt P f db = db\<lparr>step_attempts := upd_where P f (step_attempts db)\<rparr>"

definition enqueue :: "uuid \<Rightarrow> time \<Rightarrow> time \<Rightarrow> ledger \<Rightarrow> ledger" where
  "enqueue sid now available db = db\<lparr>
     outbox := outbox db @ [\<lparr>ob_dispatch_id = Suc (outbox_sequence db), ob_step_id = sid,
       ob_created_at = now, ob_available_at = available, ob_delivered_at = None\<rparr>],
     outbox_sequence := Suc (outbox_sequence db)\<rparr>"

section \<open>Activation and refresh\<close>

text \<open>\<open>all(rows[parent]['state'] == 'SUCCEEDED' ...)\<close>; \<open>None\<close> is the missing key.\<close>

fun parents_done :: "step_row list \<Rightarrow> string list \<Rightarrow> bool option" where
  "parents_done rows [] = Some True"
| "parents_done rows (p # ps) = (case find (\<lambda>r. sr_unit_id r = p) rows of
     None \<Rightarrow> None
   | Some r \<Rightarrow> if sr_state r = S_SUCCEEDED then parents_done rows ps else Some False)"

definition parent_manifests :: "ledger \<Rightarrow> step_row list \<Rightarrow> step_spec \<Rightarrow> json" where
  "parent_manifests db rows spec = JArr (map (\<lambda>p. case find (\<lambda>r. sr_unit_id r = p) rows of
     None \<Rightarrow> JNull | Some r \<Rightarrow> JArr (map ref_json (manifest_of db (sr_step_id r)))) (sp_depends_on spec))"

definition step_input :: "prims \<Rightarrow> admission \<Rightarrow> step_spec \<Rightarrow> json \<Rightarrow> string" where
  "step_input H request spec parents =
     fingerprint H (JArr [JStr (compatibility H request), spec_json spec, parents])"

definition step_key :: "prims \<Rightarrow> admission \<Rightarrow> uuid \<Rightarrow> nat \<Rightarrow> string \<Rightarrow> string" where
  "step_key H request run generation inputs =
     fingerprint H (JArr [JStr (scope_identity (ad_scope request)), JStr (uuid_text (ad_version_id request)),
       JStr (uuid_text run), JInt (int generation), JStr inputs])"

definition activate_step :: "prims \<Rightarrow> job_row \<Rightarrow> time \<Rightarrow> step_row list \<Rightarrow> step_row \<Rightarrow> ledger \<Rightarrow> string + ledger" where
  "activate_step H job now rows row db =
     (if sr_state row \<noteq> S_PENDING then Inr db
      else case parents_done rows (sp_depends_on (sr_spec row)) of
        None \<Rightarrow> Inl ''KeyError''
      | Some False \<Rightarrow> Inr db
      | Some True \<Rightarrow>
          (let inputs = step_input H (jr_request job) (sr_spec row) (parent_manifests db rows (sr_spec row));
               key = step_key H (jr_request job) (jr_run_id job) (jr_generation job) inputs
           in if \<exists>r \<in> set (job_steps db). sr_step_key r = key \<and> sr_step_id r \<noteq> sr_step_id row
              then Inl ''ledger_error''
              else Inr (enqueue (sr_step_id row) now now
                (upd_step (sr_step_id row)
                  (\<lambda>r. r\<lparr>sr_state := S_READY, sr_step_key := key, sr_input_fingerprint := inputs\<rparr>) db))))"

definition activate :: "prims \<Rightarrow> job_row \<Rightarrow> time \<Rightarrow> ledger \<Rightarrow> string + ledger" where
  "activate H job now db =
     (let rows = steps_of db (jr_job_id job) in fold_sum (activate_step H job now rows) rows db)"

definition count_state :: "step_state \<Rightarrow> step_row list \<Rightarrow> nat" where
  "count_state s rows = length (filter (\<lambda>r. sr_state r = s) rows)"

definition current_stage :: "step_row list \<Rightarrow> stage option" where
  "current_stage rows = map_option (\<lambda>r. sp_stage (sr_spec r)) (find (\<lambda>r. sr_state r = S_RUNNING) rows)"

definition progress_of :: "step_row list \<Rightarrow> progress" where
  "progress_of rows = \<lparr>pg_total = length rows, pg_completed = count_state S_SUCCEEDED rows,
     pg_running = count_state S_RUNNING rows, pg_retrying = count_state S_RETRY_WAIT rows,
     pg_failed = count_state S_FAILED rows, pg_cancelled = count_state S_CANCELLED rows,
     pg_pending = count_state S_PENDING rows + count_state S_READY rows,
     pg_current_stage = current_stage rows\<rparr>"

definition refreshed_state :: "job_row \<Rightarrow> step_row list \<Rightarrow> job_state" where
  "refreshed_state job rows =
     (if terminal_job (jr_state job) then jr_state job
      else if jr_cancel_requested job then
        (if 0 < count_state S_RUNNING rows then J_CANCEL_REQUESTED else J_CANCELLED)
      else if 0 < count_state S_FAILED rows then J_FAILED
      else if count_state S_SUCCEEDED rows = length rows then J_COMPLETED
      else case current_stage rows of None \<Rightarrow> J_QUEUED | Some s \<Rightarrow> stage_job_state s)"

definition refresh :: "uuid \<Rightarrow> time \<Rightarrow> ledger \<Rightarrow> ledger" where
  "refresh jid now db = (let rows = steps_of db jid in
     upd_job jid (\<lambda>j. j\<lparr>jr_state := refreshed_state j rows, jr_progress := progress_of rows,
       jr_updated_at := now\<rparr>) db)"

section \<open>Admission\<close>

definition insert_job :: "job_row \<Rightarrow> ledger \<Rightarrow> string + ledger" where
  "insert_job job db =
     (if \<exists>r \<in> set (jobs db). jr_job_id r = jr_job_id job \<or> jr_run_id r = jr_run_id job
        \<or> (jr_scope r = jr_scope job \<and> jr_request_key r = jr_request_key job)
        \<or> (jr_scope r = jr_scope job \<and> jr_version_id r = jr_version_id job \<and> jr_generation r = jr_generation job)
      then Inl ''ledger_error'' else Inr (db\<lparr>jobs := jobs db @ [job]\<rparr>))"

definition insert_step :: "step_row \<Rightarrow> ledger \<Rightarrow> string + ledger" where
  "insert_step row db =
     (if \<exists>r \<in> set (job_steps db). sr_step_id r = sr_step_id row \<or> sr_step_key r = sr_step_key row
        \<or> (sr_job_id r = sr_job_id row \<and> sr_unit_id r = sr_unit_id row)
      then Inl ''ledger_error'' else Inr (db\<lparr>job_steps := job_steps db @ [row]\<rparr>))"

definition planned_step :: "prims \<Rightarrow> job_row \<Rightarrow> uuid \<Rightarrow> step_spec \<Rightarrow> time \<Rightarrow> time \<Rightarrow> step_row" where
  "planned_step H job sid spec now execution = \<lparr>sr_step_id = sid, sr_job_id = jr_job_id job,
     sr_unit_id = sp_unit_id spec, sr_spec = spec,
     sr_step_key = fingerprint H (JArr [JStr (uuid_text (jr_run_id job)), spec_json spec, JStr ''planned'']),
     sr_input_fingerprint = compatibility H (jr_request job), sr_execution_at = execution,
     sr_state = S_PENDING, sr_attempt_count = 0, sr_fence = 0, sr_lease_owner = None,
     sr_lease_expires_at = None, sr_not_before = now, sr_started_at = None, sr_finished_at = None,
     sr_failure_category = None, sr_reused_from = None\<rparr>"

definition reused_step :: "prims \<Rightarrow> job_row \<Rightarrow> uuid \<Rightarrow> step_spec \<Rightarrow> time \<Rightarrow> step_row \<Rightarrow> step_row" where
  "reused_step H job sid spec now old = \<lparr>sr_step_id = sid, sr_job_id = jr_job_id job,
     sr_unit_id = sp_unit_id spec, sr_spec = spec,
     sr_step_key = step_key H (jr_request job) (jr_run_id job) (jr_generation job) (sr_input_fingerprint old),
     sr_input_fingerprint = sr_input_fingerprint old, sr_execution_at = sr_execution_at old,
     sr_state = S_SUCCEEDED, sr_attempt_count = 0, sr_fence = 0, sr_lease_owner = None,
     sr_lease_expires_at = None, sr_not_before = now, sr_started_at = None, sr_finished_at = Some now,
     sr_failure_category = None, sr_reused_from = Some (sr_step_id old)\<rparr>"

definition copy_manifest :: "uuid \<Rightarrow> time \<Rightarrow> uuid \<Rightarrow> ledger \<Rightarrow> string + ledger" where
  "copy_manifest sid now old db =
     (case find (\<lambda>m. mf_step_id m = old) (artifact_manifests db) of
        None \<Rightarrow> Inl ''ledger_error''
      | Some m \<Rightarrow> Inr (db\<lparr>artifact_manifests := artifact_manifests db @
            [\<lparr>mf_step_id = sid, mf_manifest = mf_manifest m, mf_committed_at = now, mf_fence = 0\<rparr>],
          manifest_objects := manifest_objects db @ map (\<lambda>r. (sid, or_key r)) (mf_manifest m)\<rparr>))"

definition reuse_candidate :: "step_row list \<Rightarrow> string list \<Rightarrow> step_spec \<Rightarrow> step_row option" where
  "reuse_candidate reusable copied spec =
     (case find (\<lambda>r. sr_unit_id r = sp_unit_id spec) reusable of
        None \<Rightarrow> None
      | Some old \<Rightarrow> if sr_spec old = spec \<and> set (sp_depends_on spec) \<subseteq> set copied then Some old else None)"

fun admit_steps :: "prims \<Rightarrow> job_row \<Rightarrow> time \<Rightarrow> time \<Rightarrow> step_row list \<Rightarrow> uuid list \<Rightarrow> string list
    \<Rightarrow> step_spec list \<Rightarrow> ledger \<Rightarrow> string + ledger" where
  "admit_steps H job now execution reusable ids copied [] db = Inr db"
| "admit_steps H job now execution reusable [] copied (spec # specs) db = Inl ''ledger_error''"
| "admit_steps H job now execution reusable (sid # ids) copied (spec # specs) db =
     (case reuse_candidate reusable copied spec of
        None \<Rightarrow> sbind (insert_step (planned_step H job sid spec now execution) db)
          (admit_steps H job now execution reusable ids copied specs)
      | Some old \<Rightarrow> sbind (insert_step (reused_step H job sid spec now old) db) (\<lambda>db.
          sbind (copy_manifest sid now (sr_step_id old) db)
            (admit_steps H job now execution reusable ids (sp_unit_id spec # copied) specs)))"

definition next_generation :: "ledger \<Rightarrow> admission \<Rightarrow> nat" where
  "next_generation db request = Suc (foldr max (map jr_generation (filter (\<lambda>r.
     jr_scope r = ad_scope request \<and> jr_version_id r = ad_version_id request) (jobs db))) 0)"

definition execution_time :: "ledger \<Rightarrow> admission \<Rightarrow> time \<Rightarrow> time" where
  "execution_time db request now =
     (case map sr_execution_at (filter (\<lambda>s. \<exists>j \<in> set (jobs db). jr_job_id j = sr_job_id s
         \<and> jr_scope j = ad_scope request \<and> jr_version_id j = ad_version_id request) (job_steps db)) of
        [] \<Rightarrow> now
      | t # ts \<Rightarrow> max now (fold max ts t + 1))"

definition new_job :: "prims \<Rightarrow> uuid \<Rightarrow> uuid \<Rightarrow> admission \<Rightarrow> time \<Rightarrow> time \<Rightarrow> nat \<Rightarrow> job_row" where
  "new_job H jid run request now document_time generation = \<lparr>jr_job_id = jid, jr_run_id = run,
     jr_scope = ad_scope request, jr_request_key = ad_request_key request,
     jr_fingerprint = admission_digest H request, jr_version_id = ad_version_id request,
     jr_source_key = or_key (ad_source request), jr_generation = generation, jr_request = request,
     jr_created_at = now, jr_updated_at = now, jr_document_created_at = document_time,
     jr_state = J_QUEUED, jr_cancel_requested = False, jr_progress = progress_of [],
     jr_terminal_category = None\<rparr>"

definition resume_source :: "prims \<Rightarrow> admission \<Rightarrow> ledger \<Rightarrow> string + (job_row option \<times> step_row list)" where
  "resume_source H request db =
     (case ad_resume_from request of
        None \<Rightarrow> Inr (None, [])
      | Some prior_id \<Rightarrow> sbind (ledger_job db (ad_scope request) prior_id) (\<lambda>prior.
          if \<not> terminal_job (jr_state prior) then Inl ''invalid_transition''
          else if ad_document_id (jr_request prior) \<noteq> ad_document_id request
               \<or> ad_version_id (jr_request prior) \<noteq> ad_version_id request then Inl ''invalid_transition''
          else Inr (Some prior, if compatibility H (jr_request prior) = compatibility H request
                 then filter (\<lambda>r. sr_state r = S_SUCCEEDED) (steps_of db (jr_job_id prior)) else [])))"

definition admit :: "prims \<Rightarrow> uuid list \<Rightarrow> admission \<Rightarrow> time \<Rightarrow> (string, ledger, job_row) txn" where
  "admit H ids request now db =
     (if \<not> admission_valid H request then Inl ''invalid_configuration''
      else case find (\<lambda>r. jr_scope r = ad_scope request \<and> jr_request_key r = ad_request_key request) (jobs db) of
        Some existing \<Rightarrow>
          if jr_fingerprint existing \<noteq> admission_digest H request then Inl ''idempotency_conflict''
          else Inr (existing, db)
      | None \<Rightarrow> sbind (resume_source H request db) (\<lambda>(prior, reusable).
          case ids of jid # run # step_ids \<Rightarrow>
            (let document_time = (case prior of None \<Rightarrow> now | Some p \<Rightarrow> jr_document_created_at p);
                 job = new_job H jid run request now document_time (next_generation db request)
             in sbind (insert_job job db) (\<lambda>db1.
                sbind (admit_steps H job now (execution_time db1 request now) reusable step_ids [] (ad_steps request) db1) (\<lambda>db2.
                sbind (activate H job now db2) (\<lambda>db3.
                let db4 = refresh jid now db3 in
                sbind (ledger_job db4 (ad_scope request) jid) (\<lambda>r. Inr (r, db4))))))
          | _ \<Rightarrow> Inl ''ledger_error''))"

definition get_job :: "scope \<Rightarrow> uuid \<Rightarrow> (string, ledger, job_row) txn" where
  "get_job sc jid db = sbind (ledger_job db sc jid) (\<lambda>j. Inr (j, db))"

definition steps :: "scope \<Rightarrow> uuid \<Rightarrow> (string, ledger, (step_row \<times> object_ref list) list) txn" where
  "steps sc jid db = sbind (ledger_job db sc jid) (\<lambda>_. Inr (map (step_model db) (steps_of db jid), db))"

definition attempts :: "scope \<Rightarrow> uuid \<Rightarrow> uuid \<Rightarrow> (string, ledger, attempt_row list) txn" where
  "attempts sc jid sid db = sbind (ledger_job db sc jid) (\<lambda>_. sbind (ledger_step db jid sid) (\<lambda>_.
     Inr (sort_key at_number (filter (\<lambda>a. at_step_id a = sid) (step_attempts db)), db)))"

section \<open>Cancellation and failure\<close>

definition cancel_step :: "uuid \<Rightarrow> time \<Rightarrow> ledger \<Rightarrow> ledger" where
  "cancel_step sid now db =
     upd_attempt (\<lambda>a. at_step_id a = sid \<and> at_outcome a = S_RUNNING)
       (\<lambda>a. a\<lparr>at_outcome := S_CANCELLED, at_finished_at := Some now, at_category := Some ''cancelled'',
          at_classification := Some C_CANCELLED\<rparr>)
     (upd_step sid (\<lambda>r. r\<lparr>sr_state := S_CANCELLED, sr_finished_at := Some now,
        sr_failure_category := Some ''cancelled'', sr_lease_owner := None, sr_lease_expires_at := None\<rparr>) db)"

definition cancel_steps :: "step_row list \<Rightarrow> time \<Rightarrow> ledger \<Rightarrow> ledger" where
  "cancel_steps rows now db = fold (\<lambda>r. cancel_step (sr_step_id r) now) rows db"

definition cancel_job :: "uuid \<Rightarrow> time \<Rightarrow> ledger \<Rightarrow> ledger" where
  "cancel_job jid now db =
     (let db1 = upd_job jid (\<lambda>j. j\<lparr>jr_cancel_requested := True, jr_state := J_CANCEL_REQUESTED\<rparr>) db
      in cancel_steps (filter (\<lambda>r. sr_state r \<in> {S_PENDING, S_READY, S_RETRY_WAIT}) (steps_of db1 jid)) now db1)"

definition add_dead_letter :: "uuid \<Rightarrow> failure \<Rightarrow> time \<Rightarrow> ledger \<Rightarrow> ledger" where
  "add_dead_letter sid f now db =
     (if \<exists>d \<in> set (dead_letter_rows db). dl_step_id d = sid then db
      else db\<lparr>dead_letter_rows := dead_letter_rows db @ [\<lparr>dl_step_id = sid, dl_category = fl_category f,
        dl_classification = fl_classification f, dl_created_at = now\<rparr>]\<rparr>)"

definition terminal_failure :: "step_row \<Rightarrow> failure \<Rightarrow> time \<Rightarrow> ledger \<Rightarrow> ledger" where
  "terminal_failure row f now db =
     (let db1 = upd_step (sr_step_id row) (\<lambda>r. r\<lparr>sr_state := S_FAILED, sr_finished_at := Some now,
            sr_failure_category := Some (fl_category f), sr_lease_owner := None, sr_lease_expires_at := None\<rparr>) db;
          db2 = add_dead_letter (sr_step_id row) f now db1;
          db3 = upd_job (sr_job_id row) (\<lambda>j. j\<lparr>jr_state := J_FAILED, jr_terminal_category := Some (fl_category f)\<rparr>) db2
      in cancel_steps (filter (\<lambda>r. active_step (sr_state r)) (steps_of db3 (sr_job_id row))) now db3)"

definition finish_attempt :: "step_row \<Rightarrow> failure \<Rightarrow> time \<Rightarrow> time option \<Rightarrow> ledger \<Rightarrow> ledger" where
  "finish_attempt row f now retry_at =
     upd_attempt (\<lambda>a. at_step_id a = sr_step_id row \<and> at_fence a = sr_fence row)
       (\<lambda>a. a\<lparr>at_outcome := (if retry_at = None then S_FAILED else S_RETRY_WAIT), at_finished_at := Some now,
          at_category := Some (fl_category f), at_classification := Some (fl_classification f),
          at_not_before := retry_at\<rparr>)"

definition failure_step :: "prims \<Rightarrow> job_row \<Rightarrow> step_row \<Rightarrow> failure \<Rightarrow> time \<Rightarrow> ledger \<Rightarrow> string + ledger" where
  "failure_step H job row f now db =
     (case sr_started_at row of
        None \<Rightarrow> Inl ''ledger_error''
      | Some started \<Rightarrow>
          (let policy = pf_retry (ad_profile (jr_request job));
               wait = max (delay H policy (sr_step_key row) (int (max (sr_attempt_count row) 1)))
                          (case fl_retry_after f of None \<Rightarrow> 0 | Some s \<Rightarrow> s);
               retry_at = add_seconds now wait;
               deadline = add_seconds started (budget_seconds policy);
               retry = (fl_classification f = RETRYABLE \<and> int (sr_attempt_count row) < max_attempts policy
                        \<and> retry_at < deadline);
               category = (if retry \<or> fl_classification f \<noteq> RETRYABLE then fl_category f else ''retry_exhausted'');
               db1 = finish_attempt row f now (if retry then Some retry_at else None) db;
               db2 = (if retry
                  then enqueue (sr_step_id row) now retry_at
                    (upd_step (sr_step_id row) (\<lambda>r. r\<lparr>sr_state := S_RETRY_WAIT, sr_not_before := retry_at,
                       sr_failure_category := Some category, sr_lease_owner := None, sr_lease_expires_at := None\<rparr>) db1)
                  else terminal_failure row (f\<lparr>fl_category := category, fl_retry_after := None\<rparr>) now db1)
           in Inr (refresh (sr_job_id row) now db2)))"

definition interrupted :: failure where
  "interrupted = \<lparr>fl_category = ''worker_interrupted'', fl_classification = RETRYABLE, fl_retry_after = None\<rparr>"

definition exhausted :: failure where
  "exhausted = \<lparr>fl_category = ''retry_exhausted'', fl_classification = NON_RETRYABLE, fl_retry_after = None\<rparr>"

section \<open>Leases\<close>

definition check_lease :: "ledger \<Rightarrow> lease \<Rightarrow> time \<Rightarrow> bool \<Rightarrow> string + (job_row \<times> step_row)" where
  "check_lease db l now settling =
     sbind (ledger_job db (ls_scope l) (ls_job_id l)) (\<lambda>job.
     sbind (ledger_step db (ls_job_id l) (ls_step_id l)) (\<lambda>row.
       if sr_fence row \<noteq> ls_fence l \<or> sr_lease_owner row \<noteq> Some (ls_owner l) then Inl ''stale_fence''
       else if sr_state row \<noteq> S_RUNNING then Inl ''invalid_transition''
       else if \<not> settling \<and> jr_cancel_requested job then Inl ''cancelled''
       else if \<not> settling \<and> terminal_job (jr_state job) then Inl ''invalid_transition''
       else if settling then Inr (job, row)
       else case sr_lease_expires_at row of
         None \<Rightarrow> Inl ''ledger_error''
       | Some t \<Rightarrow> if t \<le> now then Inl ''lease_expired'' else Inr (job, row)))"

text \<open>A running row always has the time at which its lease ends; a row without one, for which the source would raise, is not expired here.\<close>

definition expired :: "step_row \<Rightarrow> time \<Rightarrow> bool" where
  "expired row now \<longleftrightarrow> sr_state row = S_RUNNING
     \<and> (case sr_lease_expires_at row of None \<Rightarrow> False | Some t \<Rightarrow> t \<le> now)"

definition over_budget :: "job_row \<Rightarrow> step_row \<Rightarrow> time \<Rightarrow> bool" where
  "over_budget job row now \<longleftrightarrow> (case sr_started_at row of None \<Rightarrow> False
     | Some t \<Rightarrow> add_seconds t (budget_seconds (pf_retry (ad_profile (jr_request job)))) \<le> now)"

definition start_attempt :: "job_settings \<Rightarrow> step_row \<Rightarrow> string \<Rightarrow> time \<Rightarrow> ledger \<Rightarrow> ledger" where
  "start_attempt st row own now db =
     (let number = Suc (sr_attempt_count row); fence = Suc (sr_fence row);
          db1 = upd_step (sr_step_id row) (\<lambda>r. r\<lparr>sr_state := S_RUNNING, sr_attempt_count := number,
            sr_fence := fence, sr_lease_owner := Some own,
            sr_lease_expires_at := Some (add_seconds now (st_lease_seconds st)),
            sr_started_at := Some (case sr_started_at r of None \<Rightarrow> now | Some t \<Rightarrow> t),
            sr_failure_category := None\<rparr>) db
      in db1\<lparr>step_attempts := step_attempts db1 @ [\<lparr>at_step_id = sr_step_id row, at_number = number,
           at_worker = own, at_fence = fence, at_started_at = now, at_finished_at = None,
           at_outcome = S_RUNNING, at_category = None, at_classification = None, at_not_before = None\<rparr>]\<rparr>)"

definition claim :: "prims \<Rightarrow> job_settings \<Rightarrow> scope \<Rightarrow> uuid \<Rightarrow> uuid \<Rightarrow> string \<Rightarrow> time
    \<Rightarrow> (string, ledger, lease option) txn" where
  "claim H st sc jid sid own now db =
     (if \<not> token_text 128 own then Inl ''invalid_configuration''
      else sbind (ledger_job db sc jid) (\<lambda>job.
           sbind (ledger_step db jid sid) (\<lambda>row0.
           if jr_cancel_requested job \<or> terminal_job (jr_state job) then Inr (None, db)
           else sbind (if expired row0 now then failure_step H job row0 interrupted now db else Inr db) (\<lambda>db1.
           sbind (ledger_step db1 jid sid) (\<lambda>row.
           if sr_state row \<notin> {S_READY, S_RETRY_WAIT} \<or> now < sr_not_before row then Inr (None, db1)
           else if over_budget job row now
             then Inr (None, refresh jid now (terminal_failure row exhausted now db1))
           else Inr (Some \<lparr>ls_scope = sc, ls_job_id = jid, ls_step_id = sid, ls_owner = own,
                        ls_fence = Suc (sr_fence row)\<rparr>,
                     refresh jid now (start_attempt st row own now db1)))))))"

definition renew :: "job_settings \<Rightarrow> lease \<Rightarrow> time \<Rightarrow> (string, ledger, unit) txn" where
  "renew st l now db = sbind (check_lease db l now False) (\<lambda>_.
     Inr ((), upd_step (ls_step_id l) (\<lambda>r. r\<lparr>sr_lease_expires_at := Some (add_seconds now (st_lease_seconds st))\<rparr>) db))"

section \<open>Commit\<close>

definition manifest_valid :: "prims \<Rightarrow> lease \<Rightarrow> object_ref list \<Rightarrow> bool" where
  "manifest_valid H l refs \<longleftrightarrow> list_all (object_ref_valid H) refs \<and> 1 \<le> length refs \<and> length refs \<le> 1000
     \<and> distinct (map or_key refs) \<and> list_all (\<lambda>r. or_scope r = ls_scope l \<and> or_kind r = Artifact) refs"

definition intended :: "ledger \<Rightarrow> uuid \<Rightarrow> object_ref \<Rightarrow> bool" where
  "intended db sid ref = (case find (\<lambda>i. it_step_id i = sid \<and> it_object_key i = or_key ref) (object_intents db) of
     None \<Rightarrow> False | Some i \<Rightarrow> it_ref i = ref)"

definition accept_manifest :: "lease \<Rightarrow> object_ref list \<Rightarrow> time \<Rightarrow> ledger \<Rightarrow> ledger" where
  "accept_manifest l refs now db =
     upd_attempt (\<lambda>a. at_step_id a = ls_step_id l \<and> at_fence a = ls_fence l)
       (\<lambda>a. a\<lparr>at_outcome := S_SUCCEEDED, at_finished_at := Some now\<rparr>)
     (upd_step (ls_step_id l) (\<lambda>r. r\<lparr>sr_state := S_SUCCEEDED, sr_finished_at := Some now,
        sr_lease_owner := None, sr_lease_expires_at := None\<rparr>)
     (db\<lparr>artifact_manifests := artifact_manifests db @ [\<lparr>mf_step_id = ls_step_id l, mf_manifest = refs,
           mf_committed_at = now, mf_fence = ls_fence l\<rparr>],
         manifest_objects := manifest_objects db @ map (\<lambda>r. (ls_step_id l, or_key r)) refs\<rparr>))"

definition commit :: "prims \<Rightarrow> lease \<Rightarrow> object_ref list \<Rightarrow> time
    \<Rightarrow> (string, ledger, step_row \<times> object_ref list) txn" where
  "commit H l refs now db =
     (if \<not> manifest_valid H l refs then Inl ''manifest_conflict''
      else sbind (ledger_job db (ls_scope l) (ls_job_id l)) (\<lambda>job.
           sbind (ledger_step db (ls_job_id l) (ls_step_id l)) (\<lambda>row.
           if sr_state row = S_SUCCEEDED then
             (case find (\<lambda>m. mf_step_id m = ls_step_id l) (artifact_manifests db) of
                None \<Rightarrow> Inl ''ledger_error''
              | Some prior \<Rightarrow>
                  if mf_fence prior \<noteq> ls_fence l
                     \<or> (case find (\<lambda>a. at_step_id a = ls_step_id l \<and> at_fence a = ls_fence l) (step_attempts db) of
                          None \<Rightarrow> True | Some a \<Rightarrow> at_worker a \<noteq> ls_owner l)
                  then Inl ''stale_fence''
                  else if mf_manifest prior \<noteq> refs then Inl ''manifest_conflict''
                  else Inr (step_model db row, db))
           else sbind (check_lease db l now False) (\<lambda>_.
             if \<not> list_all (intended db (ls_step_id l)) refs then Inl ''manifest_conflict''
             else sbind (activate H job now (accept_manifest l refs now db)) (\<lambda>db1.
               let db2 = refresh (ls_job_id l) now db1 in
               sbind (ledger_step db2 (ls_job_id l) (ls_step_id l)) (\<lambda>r. Inr (step_model db2 r, db2)))))))"

section \<open>Failure, cancellation, intents\<close>

definition fail :: "prims \<Rightarrow> lease \<Rightarrow> failure \<Rightarrow> time \<Rightarrow> (string, ledger, unit) txn" where
  "fail H l f now db =
     (let f = sanitized f in
      sbind (check_lease db l now False) (\<lambda>(job, row).
        if fl_classification f = C_CANCELLED
        then Inr ((), refresh (sr_job_id row) now
               (cancel_step (sr_step_id row) now (cancel_job (jr_job_id job) now db)))
        else sbind (failure_step H job row f now db) (\<lambda>db1. Inr ((), db1))))"

definition cancel :: "scope \<Rightarrow> uuid \<Rightarrow> time \<Rightarrow> (string, ledger, job_row) txn" where
  "cancel sc jid now db = sbind (ledger_job db sc jid) (\<lambda>job.
     if terminal_job (jr_state job) then Inr (job, db)
     else let db1 = refresh jid now (cancel_job jid now db) in
          sbind (ledger_job db1 sc jid) (\<lambda>j. Inr (j, db1)))"

definition settle_cancel :: "lease \<Rightarrow> time \<Rightarrow> (string, ledger, unit) txn" where
  "settle_cancel l now db = sbind (check_lease db l now True) (\<lambda>(job, row).
     if \<not> jr_cancel_requested job then Inl ''invalid_transition''
     else Inr ((), refresh (ls_job_id l) now (cancel_step (sr_step_id row) now db)))"

definition register_object :: "prims \<Rightarrow> lease \<Rightarrow> object_ref \<Rightarrow> time \<Rightarrow> (string, ledger, unit) txn" where
  "register_object H l ref now db =
     (if \<not> object_ref_valid H ref then Inl ''manifest_conflict''
      else if or_scope ref \<noteq> ls_scope l then Inl ''scope_mismatch''
      else sbind (check_lease db l now False) (\<lambda>_.
        case find (\<lambda>i. it_step_id i = ls_step_id l \<and> it_object_key i = or_key ref) (object_intents db) of
          Some i \<Rightarrow> if it_ref i \<noteq> ref then Inl ''manifest_conflict'' else Inr ((), db)
        | None \<Rightarrow> Inr ((), db\<lparr>object_intents := object_intents db @ [\<lparr>it_step_id = ls_step_id l,
            it_object_key = or_key ref, it_ref = ref, it_created_at = now\<rparr>]\<rparr>)))"

section \<open>Dispatch and reconciliation\<close>

definition job_of_step :: "ledger \<Rightarrow> step_row \<Rightarrow> job_row option" where
  "job_of_step db s = find (\<lambda>j. jr_job_id j = sr_job_id s) (jobs db)"

text \<open>The join conditions on a waiting step of a job that is neither cancelled nor settled.\<close>

definition dispatchable :: "ledger \<Rightarrow> step_row \<Rightarrow> bool" where
  "dispatchable db s \<longleftrightarrow> sr_state s \<in> {S_READY, S_RETRY_WAIT} \<and> (case job_of_step db s of None \<Rightarrow> False
     | Some j \<Rightarrow> \<not> jr_cancel_requested j \<and> \<not> terminal_job (jr_state j))"

definition step_of_outbox :: "ledger \<Rightarrow> outbox_row \<Rightarrow> step_row option" where
  "step_of_outbox db b = find (\<lambda>s. sr_step_id s = ob_step_id b) (job_steps db)"

definition make_dispatch :: "ledger \<Rightarrow> outbox_row \<Rightarrow> dispatch option" where
  "make_dispatch db b = (case step_of_outbox db b of None \<Rightarrow> None | Some s \<Rightarrow>
     (case job_of_step db s of None \<Rightarrow> None | Some j \<Rightarrow> Some \<lparr>dp_dispatch_id = ob_dispatch_id b,
        dp_scope = ad_scope (jr_request j), dp_job_id = jr_job_id j, dp_step_id = sr_step_id s\<rparr>))"

definition outbox_due :: "ledger \<Rightarrow> time \<Rightarrow> outbox_row \<Rightarrow> bool" where
  "outbox_due db now b \<longleftrightarrow> ob_delivered_at b = None \<and> ob_available_at b \<le> now
     \<and> (case step_of_outbox db b of None \<Rightarrow> False | Some s \<Rightarrow> dispatchable db s \<and> sr_not_before s \<le> now)"

definition pending_dispatch :: "int \<Rightarrow> time \<Rightarrow> (string, ledger, dispatch list) txn" where
  "pending_dispatch limit now db = sbind (bounded limit) (\<lambda>n.
     Inr (List.map_filter (make_dispatch db)
       (take n (sort_key ob_dispatch_id (filter (outbox_due db now) (outbox db)))), db))"

definition mark_delivered :: "dispatch \<Rightarrow> time \<Rightarrow> (string, ledger, unit) txn" where
  "mark_delivered d now db =
     sbind (ledger_job db (dp_scope d) (dp_job_id d)) (\<lambda>_.
     sbind (ledger_step db (dp_job_id d) (dp_step_id d)) (\<lambda>_.
     let hit = (\<lambda>b. ob_dispatch_id b = dp_dispatch_id d \<and> ob_step_id b = dp_step_id d) in
     if \<not> list_ex hit (outbox db) then Inl ''dispatch_error''
     else Inr ((), db\<lparr>outbox := upd_where hit
       (\<lambda>b. b\<lparr>ob_delivered_at := Some (case ob_delivered_at b of None \<Rightarrow> now | Some t \<Rightarrow> t)\<rparr>) (outbox db)\<rparr>)))"

definition orphan :: "ledger \<Rightarrow> time \<Rightarrow> intent_row \<Rightarrow> bool" where
  "orphan db cutoff i \<longleftrightarrow> it_created_at i \<le> cutoff
     \<and> (\<exists>s \<in> set (job_steps db). sr_step_id s = it_step_id i \<and> \<not> active_step (sr_state s))
     \<and> \<not> (\<exists>j \<in> set (jobs db). jr_source_key j = it_object_key i)
     \<and> \<not> (\<exists>m \<in> set (manifest_objects db). snd m = it_object_key i)
     \<and> \<not> (\<exists>i' \<in> set (object_intents db). it_object_key i' = it_object_key i
          \<and> (\<exists>s \<in> set (job_steps db). sr_step_id s = it_step_id i' \<and> active_step (sr_state s)))"

definition orphans :: "job_settings \<Rightarrow> time \<Rightarrow> nat \<Rightarrow> ledger \<Rightarrow> object_ref list" where
  "orphans st now n db = take n (remdups (map it_ref (sort_key (\<lambda>i. (it_created_at i, it_step_id i, it_object_key i))
     (filter (orphan db (now - timedelta_us (st_orphan_grace_seconds st))) (object_intents db)))))"

definition orphan_candidates :: "job_settings \<Rightarrow> int \<Rightarrow> time \<Rightarrow> (string, ledger, object_ref list) txn" where
  "orphan_candidates st limit now db = sbind (bounded limit) (\<lambda>n. Inr (orphans st now n db, db))"

definition reconcile_expired :: "prims \<Rightarrow> time \<Rightarrow> step_row \<Rightarrow> ledger \<times> nat \<Rightarrow> string + (ledger \<times> nat)" where
  "reconcile_expired H now row0 s = (case s of (db, n) \<Rightarrow>
     sbind (ledger_step db (sr_job_id row0) (sr_step_id row0)) (\<lambda>row.
     if sr_state row \<noteq> S_RUNNING then Inr (db, n)
     else case find (\<lambda>j. jr_job_id j = sr_job_id row) (jobs db) of
       None \<Rightarrow> Inl ''ledger_error''
     | Some job \<Rightarrow>
         if jr_cancel_requested job \<or> terminal_job (jr_state job)
         then Inr (refresh (sr_job_id row) now (cancel_step (sr_step_id row) now db), Suc n)
         else sbind (failure_step H job row interrupted now db) (\<lambda>db1. Inr (db1, Suc n))))"

definition expired_rows :: "time \<Rightarrow> nat \<Rightarrow> ledger \<Rightarrow> step_row list" where
  "expired_rows now n db = take n (sort_key (\<lambda>r. case sr_lease_expires_at r of None \<Rightarrow> 0 | Some t \<Rightarrow> t)
     (filter (\<lambda>r. expired r now) (job_steps db)))"

definition stranded_rows :: "nat \<Rightarrow> ledger \<Rightarrow> step_row list" where
  "stranded_rows n db = take n (filter (\<lambda>s. active_step (sr_state s) \<and> (case job_of_step db s of
     None \<Rightarrow> False | Some j \<Rightarrow> terminal_job (jr_state j))) (job_steps db))"

definition settle_stranded :: "time \<Rightarrow> step_row \<Rightarrow> ledger \<Rightarrow> ledger" where
  "settle_stranded now row db = refresh (sr_job_id row) now (cancel_step (sr_step_id row) now db)"

definition undispatched :: "time \<Rightarrow> time \<Rightarrow> ledger \<Rightarrow> step_row \<Rightarrow> bool" where
  "undispatched now cutoff db s \<longleftrightarrow> dispatchable db s \<and> sr_not_before s \<le> now
     \<and> \<not> (\<exists>b \<in> set (outbox db). ob_step_id b = sr_step_id s
          \<and> (case ob_delivered_at b of None \<Rightarrow> True | Some t \<Rightarrow> cutoff < t))"

definition pending_outbox :: "ledger \<Rightarrow> nat" where
  "pending_outbox db = length (filter (\<lambda>b. ob_delivered_at b = None
     \<and> (case step_of_outbox db b of None \<Rightarrow> False | Some s \<Rightarrow> dispatchable db s)) (outbox db))"

definition reconcile :: "prims \<Rightarrow> job_settings \<Rightarrow> int \<Rightarrow> time \<Rightarrow> (string, ledger, reconciliation) txn" where
  "reconcile H st limit now db = sbind (bounded limit) (\<lambda>n.
     sbind (fold_sum (reconcile_expired H now) (expired_rows now n db) (db, 0)) (\<lambda>(db1, expired_count).
     let stranded = stranded_rows n db1;
         db2 = fold (settle_stranded now) stranded db1;
         repairs = take n (filter (undispatched now (now - timedelta_us (st_redelivery_seconds st)) db2) (job_steps db2));
         db3 = fold (\<lambda>r. enqueue (sr_step_id r) now now) repairs db2
     in Inr (\<lparr>rc_expired = expired_count, rc_dispatch_repairs = length repairs,
               rc_terminal_repairs = length stranded, rc_pending_outbox = pending_outbox db3,
               rc_orphan_candidates = length (orphans st now n db3)\<rparr>, db3)))"

definition dead_letters :: "scope \<Rightarrow> uuid \<Rightarrow> (string, ledger, dead_letter list) txn" where
  "dead_letters sc jid db = sbind (ledger_job db sc jid) (\<lambda>_.
     Inr (filter (\<lambda>d. \<exists>s \<in> set (job_steps db). sr_step_id s = dl_step_id d \<and> sr_job_id s = jid)
       (dead_letter_rows db), db))"

section \<open>Operations as one step relation\<close>

text \<open>
  A call of the ledger: the operation with its arguments and the clock reading of its
  transaction. Queries leave the database unchanged and are not listed.
\<close>

datatype ledger_call =
    Admit "uuid list" admission time
  | Claim scope uuid uuid string time
  | Renew lease time
  | Commit lease "object_ref list" time
  | Fail lease failure time
  | Cancel scope uuid time
  | Settle_cancel lease time
  | Register_object lease object_ref time
  | Mark_delivered dispatch time
  | Reconcile int time

definition forget :: "('e, 's, 'a) txn \<Rightarrow> 's \<Rightarrow> 'e + 's" where
  "forget body s = (case body s of Inl e \<Rightarrow> Inl e | Inr (x, s') \<Rightarrow> Inr s')"

fun ledger_op :: "prims \<Rightarrow> job_settings \<Rightarrow> ledger_call \<Rightarrow> ledger \<Rightarrow> string + ledger" where
  "ledger_op H st (Admit ids request now) = forget (admit H ids request now)"
| "ledger_op H st (Claim sc jid sid own now) = forget (claim H st sc jid sid own now)"
| "ledger_op H st (Renew l now) = forget (renew st l now)"
| "ledger_op H st (Commit l refs now) = forget (commit H l refs now)"
| "ledger_op H st (Fail l f now) = forget (fail H l f now)"
| "ledger_op H st (Cancel sc jid now) = forget (cancel sc jid now)"
| "ledger_op H st (Settle_cancel l now) = forget (settle_cancel l now)"
| "ledger_op H st (Register_object l ref now) = forget (register_object H l ref now)"
| "ledger_op H st (Mark_delivered d now) = forget (mark_delivered d now)"
| "ledger_op H st (Reconcile limit now) = forget (reconcile H st limit now)"

inductive ledger_step_rel :: "prims \<Rightarrow> job_settings \<Rightarrow> ledger \<Rightarrow> ledger \<Rightarrow> bool"
  for H :: prims and st :: job_settings where
  call: "ledger_op H st c db = Inr db' \<Longrightarrow> ledger_step_rel H st db db'"
| failed: "ledger_op H st c db = Inl e \<Longrightarrow> ledger_step_rel H st db db"

inductive_cases ledger_step_relE: "ledger_step_rel H st db db'"

end
