(* ===== verification/LedgerInvariants.thy ===== *)
theory LedgerInvariants
  imports JobLedger
begin

text \<open>
  Invariants of the job ledger. \<open>core_inv\<close> states the schema constraints and what the
  columns of one step say together (lease, fence, attempts, manifest, dependencies);
  \<open>live_inv\<close> relates the row of a job to its steps (progress, terminal states,
  cancellation). Every operation keeps both, so they hold in every reachable database.
\<close>

section \<open>Frames of the primitive updates\<close>

lemma upd_step_frame [simp]:
  "jobs (upd_step sid f db) = jobs db"
  "job_steps (upd_step sid f db) = upd_where (\<lambda>r. sr_step_id r = sid) f (job_steps db)"
  "step_attempts (upd_step sid f db) = step_attempts db"
  "artifact_manifests (upd_step sid f db) = artifact_manifests db"
  "manifest_objects (upd_step sid f db) = manifest_objects db"
  "outbox (upd_step sid f db) = outbox db"
  "object_intents (upd_step sid f db) = object_intents db"
  "dead_letter_rows (upd_step sid f db) = dead_letter_rows db"
  by (simp_all add: upd_step_def)

lemma upd_job_frame [simp]:
  "jobs (upd_job jid g db) = upd_where (\<lambda>r. jr_job_id r = jid) g (jobs db)"
  "job_steps (upd_job jid g db) = job_steps db"
  "step_attempts (upd_job jid g db) = step_attempts db"
  "artifact_manifests (upd_job jid g db) = artifact_manifests db"
  "manifest_objects (upd_job jid g db) = manifest_objects db"
  "outbox (upd_job jid g db) = outbox db"
  "object_intents (upd_job jid g db) = object_intents db"
  by (simp_all add: upd_job_def)

lemma upd_attempt_frame [simp]:
  "jobs (upd_attempt P h db) = jobs db"
  "job_steps (upd_attempt P h db) = job_steps db"
  "step_attempts (upd_attempt P h db) = upd_where P h (step_attempts db)"
  "artifact_manifests (upd_attempt P h db) = artifact_manifests db"
  "manifest_objects (upd_attempt P h db) = manifest_objects db"
  "outbox (upd_attempt P h db) = outbox db"
  "object_intents (upd_attempt P h db) = object_intents db"
  by (simp_all add: upd_attempt_def)

lemma enqueue_frame [simp]:
  "jobs (enqueue sid now t db) = jobs db"
  "job_steps (enqueue sid now t db) = job_steps db"
  "step_attempts (enqueue sid now t db) = step_attempts db"
  "artifact_manifests (enqueue sid now t db) = artifact_manifests db"
  "manifest_objects (enqueue sid now t db) = manifest_objects db"
  "object_intents (enqueue sid now t db) = object_intents db"
  by (simp_all add: enqueue_def)

lemma add_dead_letter_frame [simp]:
  "jobs (add_dead_letter sid f now db) = jobs db"
  "job_steps (add_dead_letter sid f now db) = job_steps db"
  "step_attempts (add_dead_letter sid f now db) = step_attempts db"
  "artifact_manifests (add_dead_letter sid f now db) = artifact_manifests db"
  "manifest_objects (add_dead_letter sid f now db) = manifest_objects db"
  "outbox (add_dead_letter sid f now db) = outbox db"
  "object_intents (add_dead_letter sid f now db) = object_intents db"
  by (simp_all add: add_dead_letter_def)

lemma refresh_frame [simp]:
  "job_steps (refresh jid now db) = job_steps db"
  "step_attempts (refresh jid now db) = step_attempts db"
  "artifact_manifests (refresh jid now db) = artifact_manifests db"
  "manifest_objects (refresh jid now db) = manifest_objects db"
  "outbox (refresh jid now db) = outbox db"
  "object_intents (refresh jid now db) = object_intents db"
  by (simp_all add: refresh_def Let_def)

definition cancel_row :: "time \<Rightarrow> step_row \<Rightarrow> step_row" where
  "cancel_row now r = r\<lparr>sr_state := S_CANCELLED, sr_finished_at := Some now,
     sr_failure_category := Some ''cancelled'', sr_lease_owner := None, sr_lease_expires_at := None\<rparr>"

lemma cancel_row_fields [simp]:
  "sr_step_id (cancel_row now r) = sr_step_id r" "sr_job_id (cancel_row now r) = sr_job_id r"
  "sr_unit_id (cancel_row now r) = sr_unit_id r" "sr_spec (cancel_row now r) = sr_spec r"
  "sr_state (cancel_row now r) = S_CANCELLED" "sr_fence (cancel_row now r) = sr_fence r"
  "sr_attempt_count (cancel_row now r) = sr_attempt_count r"
  "sr_lease_owner (cancel_row now r) = None" "sr_lease_expires_at (cancel_row now r) = None"
  "sr_started_at (cancel_row now r) = sr_started_at r"
  "cancel_row now (cancel_row now r) = cancel_row now r"
  by (simp_all add: cancel_row_def)

lemma cancel_step_frame [simp]:
  "jobs (cancel_step sid now db) = jobs db"
  "job_steps (cancel_step sid now db) = upd_where (\<lambda>r. sr_step_id r = sid) (cancel_row now) (job_steps db)"
  "artifact_manifests (cancel_step sid now db) = artifact_manifests db"
  "manifest_objects (cancel_step sid now db) = manifest_objects db"
  "outbox (cancel_step sid now db) = outbox db"
  "object_intents (cancel_step sid now db) = object_intents db"
  by (simp_all add: cancel_step_def cancel_row_def [abs_def])

lemma cancel_steps_frame [simp]:
  "jobs (cancel_steps rows now db) = jobs db"
  "artifact_manifests (cancel_steps rows now db) = artifact_manifests db"
  "manifest_objects (cancel_steps rows now db) = manifest_objects db"
  "outbox (cancel_steps rows now db) = outbox db"
  "object_intents (cancel_steps rows now db) = object_intents db"
  by (simp_all add: cancel_steps_def fold_frame)

lemma cancel_steps_rows:
  "job_steps (cancel_steps rows now db) =
     upd_where (\<lambda>r. sr_step_id r \<in> sr_step_id ` set rows) (cancel_row now) (job_steps db)"
  unfolding cancel_steps_def
proof (induction rows arbitrary: db)
  case (Cons x xs)
  then show ?case by (auto simp: upd_where_def)
qed (simp add: upd_where_def)

section \<open>The core invariant\<close>

definition lease_ok :: "step_row \<Rightarrow> bool" where
  "lease_ok r \<longleftrightarrow> (sr_state r = S_RUNNING \<longleftrightarrow> sr_lease_owner r \<noteq> None)
     \<and> (sr_lease_owner r = None \<longleftrightarrow> sr_lease_expires_at r = None)
     \<and> (sr_state r = S_RUNNING \<longrightarrow> sr_started_at r \<noteq> None)"

definition count_ok :: "int \<Rightarrow> step_row \<Rightarrow> bool" where
  "count_ok m r \<longleftrightarrow> sr_attempt_count r = sr_fence r \<and> int (sr_attempt_count r) \<le> m
     \<and> (sr_state r \<in> {S_PENDING, S_READY} \<longrightarrow> sr_attempt_count r = 0)
     \<and> (sr_state r = S_RETRY_WAIT \<longrightarrow> int (sr_attempt_count r) < m)"

definition step_attempts_of :: "ledger \<Rightarrow> uuid \<Rightarrow> attempt_row list" where
  "step_attempts_of db sid = filter (\<lambda>a. at_step_id a = sid) (step_attempts db)"

definition attempts_ok :: "attempt_row list \<Rightarrow> step_row \<Rightarrow> bool" where
  "attempts_ok as r \<longleftrightarrow> map at_number as = [1..<Suc (sr_attempt_count r)]
     \<and> map at_fence as = [1..<Suc (sr_attempt_count r)]
     \<and> (\<forall>a \<in> set as. at_outcome a = S_RUNNING \<longleftrightarrow> sr_state r = S_RUNNING \<and> at_fence a = sr_fence r)"

definition has_manifest :: "ledger \<Rightarrow> uuid \<Rightarrow> bool" where
  "has_manifest db sid \<longleftrightarrow> sid \<in> mf_step_id ` set (artifact_manifests db)"

definition started_state :: "step_state \<Rightarrow> bool" where
  "started_state s \<longleftrightarrow> s \<in> {S_READY, S_RUNNING, S_RETRY_WAIT, S_SUCCEEDED}"

definition unit_succeeded :: "ledger \<Rightarrow> uuid \<Rightarrow> string \<Rightarrow> bool" where
  "unit_succeeded db jid u \<longleftrightarrow> (\<exists>r \<in> set (job_steps db). sr_job_id r = jid \<and> sr_unit_id r = u \<and> sr_state r = S_SUCCEEDED)"

definition deps_ok :: "ledger \<Rightarrow> step_row \<Rightarrow> bool" where
  "deps_ok db r \<longleftrightarrow> (started_state (sr_state r) \<longrightarrow>
     (\<forall>u \<in> set (sp_depends_on (sr_spec r)). unit_succeeded db (sr_job_id r) u))"

definition policy_of :: "job_row \<Rightarrow> retry_policy" where
  "policy_of j = pf_retry (ad_profile (jr_request j))"

definition row_inv :: "ledger \<Rightarrow> step_row \<Rightarrow> bool" where
  "row_inv db r \<longleftrightarrow> lease_ok r \<and> attempts_ok (step_attempts_of db (sr_step_id r)) r
     \<and> (sr_state r = S_SUCCEEDED \<longleftrightarrow> has_manifest db (sr_step_id r)) \<and> deps_ok db r
     \<and> (\<exists>j \<in> set (jobs db). jr_job_id j = sr_job_id r \<and> count_ok (max_attempts (policy_of j)) r)"

definition core_inv :: "ledger \<Rightarrow> bool" where
  "core_inv db \<longleftrightarrow> distinct (map sr_step_id (job_steps db)) \<and> distinct (map jr_job_id (jobs db))
     \<and> distinct (map mf_step_id (artifact_manifests db))
     \<and> mf_step_id ` set (artifact_manifests db) \<subseteq> sr_step_id ` set (job_steps db)
     \<and> at_step_id ` set (step_attempts db) \<subseteq> sr_step_id ` set (job_steps db)
     \<and> (\<forall>j \<in> set (jobs db). retry_valid (policy_of j))
     \<and> (\<forall>r \<in> set (job_steps db). row_inv db r)"

lemma core_distinct:
  "core_inv db \<Longrightarrow> distinct (map sr_step_id (job_steps db))"
  "core_inv db \<Longrightarrow> distinct (map jr_job_id (jobs db))"
  by (simp_all add: core_inv_def)

lemma core_invI:
  assumes "distinct (map sr_step_id (job_steps db))" "distinct (map jr_job_id (jobs db))"
    "distinct (map mf_step_id (artifact_manifests db))"
    "mf_step_id ` set (artifact_manifests db) \<subseteq> sr_step_id ` set (job_steps db)"
    "at_step_id ` set (step_attempts db) \<subseteq> sr_step_id ` set (job_steps db)"
    "\<And>j. j \<in> set (jobs db) \<Longrightarrow> retry_valid (policy_of j)"
    "\<And>r. r \<in> set (job_steps db) \<Longrightarrow> row_inv db r"
  shows "core_inv db"
  using assms by (simp add: core_inv_def)

lemma core_foreign:
  "core_inv db \<Longrightarrow> mf_step_id ` set (artifact_manifests db) \<subseteq> sr_step_id ` set (job_steps db)"
  "core_inv db \<Longrightarrow> at_step_id ` set (step_attempts db) \<subseteq> sr_step_id ` set (job_steps db)"
  "core_inv db \<Longrightarrow> distinct (map mf_step_id (artifact_manifests db))"
  "core_inv db \<Longrightarrow> j \<in> set (jobs db) \<Longrightarrow> retry_valid (policy_of j)"
  by (simp_all add: core_inv_def)

lemma core_row: "core_inv db \<Longrightarrow> r \<in> set (job_steps db) \<Longrightarrow> row_inv db r"
  by (simp add: core_inv_def)

lemma ledger_stepD:
  "ledger_step db jid sid = Inr r \<Longrightarrow> r \<in> set (job_steps db) \<and> sr_step_id r = sid \<and> sr_job_id r = jid"
  by (auto simp: ledger_step_def split: option.splits dest: find_SomeD)

lemma ledger_jobD:
  "ledger_job db sc jid = Inr j \<Longrightarrow> j \<in> set (jobs db) \<and> jr_job_id j = jid \<and> jr_scope j = sc"
  by (auto simp: ledger_job_def split: option.splits dest: find_SomeD)

lemma check_leaseD:
  assumes "check_lease db l now settling = Inr (job, row)"
  shows "job \<in> set (jobs db)" "jr_job_id job = ls_job_id l" "row \<in> set (job_steps db)"
    "sr_step_id row = ls_step_id l" "sr_job_id row = ls_job_id l" "sr_state row = S_RUNNING"
    "sr_fence row = ls_fence l" "sr_lease_owner row = Some (ls_owner l)"
    "\<not> settling \<Longrightarrow> \<not> jr_cancel_requested job \<and> \<not> terminal_job (jr_state job)"
  using assms
  by (auto simp: check_lease_def txn_simps split: if_splits option.splits dest!: ledger_stepD ledger_jobD)

text \<open>
  The workhorse: one step row and what belongs to it change, every other row keeps its attempts
  and its manifest, and no success is taken back.
\<close>

lemma core_upd:
  assumes inv: "core_inv db"
    and r0: "r0 \<in> set (job_steps db)" "sr_step_id r0 = sid"
    and steps': "job_steps db' = upd_where (\<lambda>r. sr_step_id r = sid) f (job_steps db)"
    and jobs': "map (\<lambda>j. (jr_job_id j, policy_of j)) (jobs db') = map (\<lambda>j. (jr_job_id j, policy_of j)) (jobs db)"
    and att: "\<And>x. x \<noteq> sid \<Longrightarrow> step_attempts_of db' x = step_attempts_of db x"
    and attk: "at_step_id ` set (step_attempts db') \<subseteq> insert sid (at_step_id ` set (step_attempts db))"
    and man: "distinct (map mf_step_id (artifact_manifests db'))"
      "mf_step_id ` set (artifact_manifests db') \<subseteq> insert sid (mf_step_id ` set (artifact_manifests db))"
      "mf_step_id ` set (artifact_manifests db) \<subseteq> mf_step_id ` set (artifact_manifests db')"
    and same: "sr_step_id (f r0) = sid" "sr_job_id (f r0) = sr_job_id r0"
      "sr_unit_id (f r0) = sr_unit_id r0" "sr_spec (f r0) = sr_spec r0"
    and keep: "sr_state r0 = S_SUCCEEDED \<Longrightarrow> sr_state (f r0) = S_SUCCEEDED"
    and new: "lease_ok (f r0)" "attempts_ok (step_attempts_of db' sid) (f r0)"
      "sr_state (f r0) = S_SUCCEEDED \<longleftrightarrow> has_manifest db' sid"
      "\<And>j. j \<in> set (jobs db) \<Longrightarrow> jr_job_id j = sr_job_id r0 \<Longrightarrow> retry_valid (policy_of j) \<Longrightarrow>
         count_ok (max_attempts (policy_of j)) r0 \<Longrightarrow> count_ok (max_attempts (policy_of j)) (f r0)"
    and deps: "started_state (sr_state (f r0)) \<Longrightarrow>
         started_state (sr_state r0) \<or> (\<forall>u \<in> set (sp_depends_on (sr_spec r0)). unit_succeeded db (sr_job_id r0) u)"
  shows "core_inv db'"
proof -
  have uniq: "r = r0" if "r \<in> set (job_steps db)" "sr_step_id r = sid" for r
    using distinct_key_eq [OF core_distinct(1) [OF inv] that(1) r0(1)] that r0 by simp
  have rows: "set (job_steps db') = (\<lambda>r. if sr_step_id r = sid then f r0 else r) ` set (job_steps db)"
    unfolding steps' set_upd_where by (rule image_cong) (auto dest: uniq)
  have ids: "map sr_step_id (job_steps db') = map sr_step_id (job_steps db)"
    unfolding steps' upd_where_def using same(1) by (auto dest: uniq)
  have pol: "\<exists>j' \<in> set (jobs db'). jr_job_id j' = jr_job_id j \<and> policy_of j' = policy_of j"
    if "j \<in> set (jobs db)" for j
    using map_eq_member [OF jobs' [symmetric] that] by auto
  have pol': "\<exists>j \<in> set (jobs db). jr_job_id j = jr_job_id j' \<and> policy_of j = policy_of j'"
    if "j' \<in> set (jobs db')" for j'
    using map_eq_member [OF jobs' that] by auto
  have succ: "unit_succeeded db' jid u" if "unit_succeeded db jid u" for jid u
  proof -
    from that obtain r where r: "r \<in> set (job_steps db)" "sr_job_id r = jid" "sr_unit_id r = u" "sr_state r = S_SUCCEEDED"
      by (auto simp: unit_succeeded_def)
    then have "(if sr_step_id r = sid then f r0 else r) \<in> set (job_steps db')" unfolding rows by auto
    with r show ?thesis unfolding unit_succeeded_def
      by (intro bexI [of _ "if sr_step_id r = sid then f r0 else r"]) (auto simp: same dest: uniq keep)
  qed
  have hm: "has_manifest db' x = has_manifest db x" if "x \<noteq> sid" for x
    using man(2,3) that by (auto simp: has_manifest_def)
  have rows_inv: "row_inv db' r'" if "r' \<in> set (job_steps db')" for r'
  proof -
    from that rows obtain r where r: "r \<in> set (job_steps db)" and r': "r' = (if sr_step_id r = sid then f r0 else r)"
      by auto
    have ri: "row_inv db r" using inv r by (rule core_row)
    show ?thesis
    proof (cases "sr_step_id r = sid")
      case True
      then have eq: "r = r0" "r' = f r0" using uniq r r' by auto
      have "deps_ok db' (f r0)"
        using ri deps succ unfolding deps_ok_def row_inv_def eq by (auto simp: same)
      moreover obtain j where j: "j \<in> set (jobs db)" "jr_job_id j = sr_job_id r0"
          "count_ok (max_attempts (policy_of j)) r0"
        using ri unfolding row_inv_def eq by blast
      moreover have "retry_valid (policy_of j)" using inv j(1) by (simp add: core_inv_def)
      ultimately show ?thesis
        using new pol [OF j(1)] unfolding row_inv_def eq by (metis same(1,2))
    next
      case False
      with r' have eq: "r' = r" by simp
      have "deps_ok db' r" using ri succ by (auto simp: row_inv_def deps_ok_def)
      moreover obtain j where j: "j \<in> set (jobs db)" "jr_job_id j = sr_job_id r"
          "count_ok (max_attempts (policy_of j)) r"
        using ri unfolding row_inv_def by blast
      ultimately show ?thesis
        using ri hm [OF False] att [OF False] pol [OF j(1)] unfolding row_inv_def eq by metis
    qed
  qed
  have job_ids: "map jr_job_id (jobs db') = map jr_job_id (jobs db)"
    using arg_cong [OF jobs', of "map fst"] by (simp add: comp_def)
  have sid: "sid \<in> sr_step_id ` set (job_steps db)" using r0 by auto
  have step_ids: "sr_step_id ` set (job_steps db') = sr_step_id ` set (job_steps db)"
    using arg_cong [OF ids, of set] by simp
  show ?thesis
  proof (rule core_invI)
    show "distinct (map sr_step_id (job_steps db'))" using core_distinct(1) [OF inv] ids by metis
    show "distinct (map jr_job_id (jobs db'))" using core_distinct(2) [OF inv] job_ids by metis
    show "distinct (map mf_step_id (artifact_manifests db'))" by (rule man(1))
    show "mf_step_id ` set (artifact_manifests db') \<subseteq> sr_step_id ` set (job_steps db')"
      using man(2) core_foreign(1) [OF inv] sid unfolding step_ids by blast
    show "at_step_id ` set (step_attempts db') \<subseteq> sr_step_id ` set (job_steps db')"
      using attk core_foreign(2) [OF inv] sid unfolding step_ids by blast
    show "retry_valid (policy_of j')" if "j' \<in> set (jobs db')" for j'
      using pol' [OF that] core_foreign(4) [OF inv] by metis
  qed (rule rows_inv)
qed

section \<open>Primitive updates keep the core invariant\<close>

lemma core_frame:
  assumes inv: "core_inv db"
    and same: "job_steps db' = job_steps db" "step_attempts db' = step_attempts db"
      "artifact_manifests db' = artifact_manifests db"
    and jobs': "map (\<lambda>j. (jr_job_id j, policy_of j)) (jobs db') = map (\<lambda>j. (jr_job_id j, policy_of j)) (jobs db)"
  shows "core_inv db'"
proof (rule core_invI)
  show "distinct (map jr_job_id (jobs db'))"
    using core_distinct(2) [OF inv] arg_cong [OF jobs', of "map fst"] by (simp add: comp_def)
  show "retry_valid (policy_of j')" if "j' \<in> set (jobs db')" for j'
    using map_eq_member [OF jobs' that] core_foreign(4) [OF inv] by (metis prod.inject)
  show "row_inv db' r" if "r \<in> set (job_steps db')" for r
  proof -
    have ri: "row_inv db r" using core_row [OF inv] that same by simp
    then obtain j where j: "j \<in> set (jobs db)" "jr_job_id j = sr_job_id r" "count_ok (max_attempts (policy_of j)) r"
      by (auto simp: row_inv_def)
    obtain j' where "j' \<in> set (jobs db')" "jr_job_id j' = jr_job_id j" "policy_of j' = policy_of j"
      using map_eq_member [OF jobs' [symmetric] j(1)] by auto
    with ri j show ?thesis
      unfolding row_inv_def deps_ok_def unit_succeeded_def has_manifest_def step_attempts_of_def same
      by metis
  qed
qed (use core_distinct [OF inv] core_foreign [OF inv] same in simp_all)

lemma core_upd_job:
  "core_inv db \<Longrightarrow> (\<And>j. jr_job_id (g j) = jr_job_id j) \<Longrightarrow> (\<And>j. jr_request (g j) = jr_request j) \<Longrightarrow>
     core_inv (upd_job jid g db)"
  by (erule core_frame) (auto simp: upd_where_def policy_of_def)

lemma core_refresh: "core_inv db \<Longrightarrow> core_inv (refresh jid now db)"
  by (simp add: refresh_def Let_def core_upd_job)

lemma core_enqueue: "core_inv db \<Longrightarrow> core_inv (enqueue sid now t db)"
  by (erule core_frame) simp_all

lemma core_add_dead_letter: "core_inv db \<Longrightarrow> core_inv (add_dead_letter sid f now db)"
  by (erule core_frame) simp_all

lemma step_attempts_upd:
  "(\<And>a. at_step_id (h a) = at_step_id a) \<Longrightarrow>
     filter (\<lambda>a. at_step_id a = x) (upd_where P h as) = upd_where P h (filter (\<lambda>a. at_step_id a = x) as)"
  by (rule filter_upd_where) simp

lemma upd_where_other_step:
  "(\<And>a. P a \<Longrightarrow> at_step_id a = sid) \<Longrightarrow> x \<noteq> sid \<Longrightarrow>
     upd_where P h (filter (\<lambda>a. at_step_id a = x) as) = filter (\<lambda>a. at_step_id a = x) as"
  by (rule upd_where_none) auto

lemma attempts_ok_settle:
  assumes "attempts_ok as r" and "sr_attempt_count r' = sr_attempt_count r"
    and "sr_state r' \<noteq> S_RUNNING"
    and "\<And>a. at_number (h a) = at_number a" "\<And>a. at_fence (h a) = at_fence a" "\<And>a. at_outcome (h a) \<noteq> S_RUNNING"
    and "\<And>a. a \<in> set as \<Longrightarrow> at_outcome a = S_RUNNING \<Longrightarrow> P a"
  shows "attempts_ok (upd_where P h as) r'"
  using assms by (auto simp: attempts_ok_def set_upd_where map_upd_where)

lemma set_keys_upd_where: "(\<And>a. k (h a) = k a) \<Longrightarrow> k ` set (upd_where P h as) = k ` set as"
  by (metis list.set_map map_upd_where)

text \<open>A running or waiting row settles: its state leaves the active states without a manifest,
  or it goes back to waiting; its open attempt is closed.\<close>

lemma core_settle:
  assumes inv: "core_inv db" and r0: "r0 \<in> set (job_steps db)" "sr_step_id r0 = sid"
    and ns: "sr_state r0 \<noteq> S_SUCCEEDED" "sr_state (f r0) \<noteq> S_SUCCEEDED" "sr_state (f r0) \<noteq> S_RUNNING"
    and same: "sr_step_id (f r0) = sid" "sr_job_id (f r0) = sr_job_id r0" "sr_unit_id (f r0) = sr_unit_id r0"
      "sr_spec (f r0) = sr_spec r0" "sr_attempt_count (f r0) = sr_attempt_count r0" "sr_fence (f r0) = sr_fence r0"
      "sr_lease_owner (f r0) = None" "sr_lease_expires_at (f r0) = None"
    and st: "sr_state (f r0) \<in> {S_FAILED, S_CANCELLED} \<or>
       sr_state (f r0) = S_RETRY_WAIT \<and> sr_state r0 = S_RUNNING \<and>
         (\<forall>j \<in> set (jobs db). jr_job_id j = sr_job_id r0 \<longrightarrow> int (sr_attempt_count r0) < max_attempts (policy_of j))"
    and h: "\<And>a. at_step_id (h a) = at_step_id a" "\<And>a. at_number (h a) = at_number a"
      "\<And>a. at_fence (h a) = at_fence a" "\<And>a. at_outcome (h a) \<noteq> S_RUNNING"
    and P: "\<And>a. P a \<Longrightarrow> at_step_id a = sid"
      "\<And>a. a \<in> set (step_attempts db) \<Longrightarrow> at_step_id a = sid \<Longrightarrow> at_outcome a = S_RUNNING \<Longrightarrow>
         at_fence a = sr_fence r0 \<Longrightarrow> P a"
  shows "core_inv (upd_step sid f (upd_attempt P h db))"
proof (rule core_upd [OF inv r0, where f = f])
  have ri: "row_inv db r0" using inv r0(1) by (rule core_row)
  show "attempts_ok (step_attempts_of (upd_step sid f (upd_attempt P h db)) sid) (f r0)"
    using ri ns(3) same h P(2) unfolding row_inv_def step_attempts_of_def r0(2)
    by (auto simp: step_attempts_upd intro!: attempts_ok_settle) (auto simp: attempts_ok_def)
  show "lease_ok (f r0)" using same ns by (simp add: lease_ok_def)
  have "\<not> has_manifest db sid" using ri ns r0 by (simp add: row_inv_def)
  then show "(sr_state (f r0) = S_SUCCEEDED) = has_manifest (upd_step sid f (upd_attempt P h db)) sid"
    using ns by (simp add: has_manifest_def)
  show "count_ok (max_attempts (policy_of j)) (f r0)"
    if "j \<in> set (jobs db)" "jr_job_id j = sr_job_id r0" "count_ok (max_attempts (policy_of j)) r0" for j
    using that st same by (auto simp: count_ok_def)
  show "started_state (sr_state (f r0)) \<Longrightarrow> started_state (sr_state r0) \<or>
      (\<forall>u \<in> set (sp_depends_on (sr_spec r0)). unit_succeeded db (sr_job_id r0) u)"
    using st by (auto simp: started_state_def)
  show "step_attempts_of (upd_step sid f (upd_attempt P h db)) x = step_attempts_of db x" if "x \<noteq> sid" for x
    using that P(1) by (simp add: step_attempts_of_def step_attempts_upd h upd_where_other_step [of P sid])
qed (use core_foreign(3) [OF inv] same ns in \<open>auto simp: set_keys_upd_where h\<close>)

lemma upd_step_attempt_swap: "upd_attempt P h (upd_step sid f db) = upd_step sid f (upd_attempt P h db)"
  by (simp add: upd_attempt_def upd_step_def)

lemma core_cancel_step:
  assumes inv: "core_inv db" and ns: "\<And>r. r \<in> set (job_steps db) \<Longrightarrow> sr_step_id r = sid \<Longrightarrow> sr_state r \<noteq> S_SUCCEEDED"
  shows "core_inv (cancel_step sid now db)"
proof (cases "\<exists>r \<in> set (job_steps db). sr_step_id r = sid")
  case True
  then obtain r0 where r0: "r0 \<in> set (job_steps db)" "sr_step_id r0 = sid" by blast
  show ?thesis
    unfolding cancel_step_def upd_step_attempt_swap
    by (rule core_settle [OF inv r0]) (use ns r0 in auto)
next
  case False
  then have "at_step_id a \<noteq> sid" if "a \<in> set (step_attempts db)" for a
    using core_foreign(2) [OF inv] that by (metis image_eqI image_iff subsetD)
  with False show ?thesis
    by (intro core_frame [OF inv]) (auto simp: cancel_step_def intro!: upd_where_none)
qed

lemma core_cancel_steps:
  assumes "core_inv db"
    and "\<And>r. r \<in> set (job_steps db) \<Longrightarrow> sr_step_id r \<in> sr_step_id ` set rows \<Longrightarrow> sr_state r \<noteq> S_SUCCEEDED"
  shows "core_inv (cancel_steps rows now db)"
proof -
  let ?I = "\<lambda>db. core_inv db \<and> (\<forall>r \<in> set (job_steps db). sr_step_id r \<in> sr_step_id ` set rows \<longrightarrow> sr_state r \<noteq> S_SUCCEEDED)"
  have "?I (cancel_steps rows now db)"
    unfolding cancel_steps_def
    by (rule fold_inv [where I = ?I]) (use assms in \<open>auto intro!: core_cancel_step simp: set_upd_where\<close>)
  then show ?thesis by blast
qed

lemma core_running_attempt:
  "core_inv db \<Longrightarrow> r \<in> set (job_steps db) \<Longrightarrow> a \<in> set (step_attempts db) \<Longrightarrow> at_step_id a = sr_step_id r \<Longrightarrow>
     at_outcome a = S_RUNNING \<Longrightarrow> sr_state r = S_RUNNING \<and> at_fence a = sr_fence r"
  using core_row [of db r] by (auto simp: row_inv_def attempts_ok_def step_attempts_of_def)

lemma upd_attempt_none: "upd_attempt (\<lambda>_. False) h db = db"
  by (simp add: upd_attempt_def upd_where_none)

definition failed_row :: "failure \<Rightarrow> time \<Rightarrow> step_row \<Rightarrow> step_row" where
  "failed_row f now r = r\<lparr>sr_state := S_FAILED, sr_finished_at := Some now,
     sr_failure_category := Some (fl_category f), sr_lease_owner := None, sr_lease_expires_at := None\<rparr>"

definition retry_row :: "string \<Rightarrow> time \<Rightarrow> step_row \<Rightarrow> step_row" where
  "retry_row category retry_at r = r\<lparr>sr_state := S_RETRY_WAIT, sr_not_before := retry_at,
     sr_failure_category := Some category, sr_lease_owner := None, sr_lease_expires_at := None\<rparr>"

definition ready_row :: "string \<Rightarrow> string \<Rightarrow> step_row \<Rightarrow> step_row" where
  "ready_row key inputs r = r\<lparr>sr_state := S_READY, sr_step_key := key, sr_input_fingerprint := inputs\<rparr>"

lemma failed_row_fields [simp]:
  "sr_step_id (failed_row f now r) = sr_step_id r" "sr_job_id (failed_row f now r) = sr_job_id r"
  "sr_unit_id (failed_row f now r) = sr_unit_id r" "sr_spec (failed_row f now r) = sr_spec r"
  "sr_state (failed_row f now r) = S_FAILED" "sr_fence (failed_row f now r) = sr_fence r"
  "sr_attempt_count (failed_row f now r) = sr_attempt_count r"
  "sr_started_at (failed_row f now r) = sr_started_at r"
  "sr_lease_owner (failed_row f now r) = None" "sr_lease_expires_at (failed_row f now r) = None"
  by (simp_all add: failed_row_def)

lemma retry_row_fields [simp]:
  "sr_step_id (retry_row c t r) = sr_step_id r" "sr_job_id (retry_row c t r) = sr_job_id r"
  "sr_unit_id (retry_row c t r) = sr_unit_id r" "sr_spec (retry_row c t r) = sr_spec r"
  "sr_state (retry_row c t r) = S_RETRY_WAIT" "sr_fence (retry_row c t r) = sr_fence r"
  "sr_attempt_count (retry_row c t r) = sr_attempt_count r" "sr_not_before (retry_row c t r) = t"
  "sr_started_at (retry_row c t r) = sr_started_at r"
  "sr_lease_owner (retry_row c t r) = None" "sr_lease_expires_at (retry_row c t r) = None"
  by (simp_all add: retry_row_def)

lemma ready_row_fields [simp]:
  "sr_step_id (ready_row k i r) = sr_step_id r" "sr_job_id (ready_row k i r) = sr_job_id r"
  "sr_unit_id (ready_row k i r) = sr_unit_id r" "sr_spec (ready_row k i r) = sr_spec r"
  "sr_state (ready_row k i r) = S_READY" "sr_fence (ready_row k i r) = sr_fence r"
  "sr_attempt_count (ready_row k i r) = sr_attempt_count r" "sr_started_at (ready_row k i r) = sr_started_at r"
  "sr_lease_owner (ready_row k i r) = sr_lease_owner r" "sr_lease_expires_at (ready_row k i r) = sr_lease_expires_at r"
  by (simp_all add: ready_row_def)

lemma core_fail_running:
  assumes "core_inv db" "row \<in> set (job_steps db)" "sr_state row = S_RUNNING"
  shows "core_inv (upd_step (sr_step_id row) (failed_row g now) (finish_attempt row f now x db))"
  unfolding finish_attempt_def
  by (rule core_settle [OF assms(1,2) refl]) (use assms in auto)

lemma core_fail_waiting:
  assumes "core_inv db" "row \<in> set (job_steps db)" "sr_state row \<noteq> S_RUNNING" "sr_state row \<noteq> S_SUCCEEDED"
  shows "core_inv (upd_step (sr_step_id row) (failed_row f now) db)"
proof -
  have "core_inv (upd_step (sr_step_id row) (failed_row f now) (upd_attempt (\<lambda>_. False) (\<lambda>a. a\<lparr>at_outcome := S_FAILED\<rparr>) db))"
    by (rule core_settle [OF assms(1,2) refl]) (use assms core_running_attempt [OF assms(1,2)] in auto)
  then show ?thesis by (simp add: upd_attempt_none)
qed

lemma core_retry:
  assumes "core_inv db" "row \<in> set (job_steps db)" "sr_state row = S_RUNNING"
    and "job \<in> set (jobs db)" "jr_job_id job = sr_job_id row" "int (sr_attempt_count row) < max_attempts (policy_of job)"
  shows "core_inv (upd_step (sr_step_id row) (retry_row category retry_at) (finish_attempt row f now x db))"
proof -
  have "j = job" if "j \<in> set (jobs db)" "jr_job_id j = sr_job_id row" for j
    using distinct_key_eq [OF core_distinct(2) [OF assms(1)] that(1) assms(4)] that assms(5) by simp
  then have lim: "\<forall>j \<in> set (jobs db). jr_job_id j = sr_job_id row \<longrightarrow> int (sr_attempt_count row) < max_attempts (policy_of j)"
    using assms(6) by metis
  show ?thesis
    unfolding finish_attempt_def
    by (rule core_settle [OF assms(1,2) refl]) (simp_all add: assms(3) lim)
qed

lemma terminal_failure_alt:
  "terminal_failure row f now db =
     (let db3 = upd_job (sr_job_id row) (\<lambda>j. j\<lparr>jr_state := J_FAILED, jr_terminal_category := Some (fl_category f)\<rparr>)
            (add_dead_letter (sr_step_id row) f now (upd_step (sr_step_id row) (failed_row f now) db))
      in cancel_steps (filter (\<lambda>r. active_step (sr_state r)) (steps_of db3 (sr_job_id row))) now db3)"
  by (simp add: terminal_failure_def failed_row_def [abs_def] Let_def)

lemma core_cancel_active:
  assumes "core_inv db" and "\<And>r. r \<in> set rows \<Longrightarrow> r \<in> set (job_steps db) \<and> sr_state r \<noteq> S_SUCCEEDED"
  shows "core_inv (cancel_steps rows now db)"
proof (rule core_cancel_steps [OF assms(1)])
  fix r assume "r \<in> set (job_steps db)" "sr_step_id r \<in> sr_step_id ` set rows"
  then obtain r' where "r' \<in> set rows" "sr_step_id r = sr_step_id r'" by auto
  with assms \<open>r \<in> _\<close> show "sr_state r \<noteq> S_SUCCEEDED"
    by (metis core_distinct(1) distinct_key_eq)
qed

lemma core_terminal_failure:
  assumes "core_inv (upd_step (sr_step_id row) (failed_row f now) db)"
  shows "core_inv (terminal_failure row f now db)"
  unfolding terminal_failure_alt Let_def
  by (rule core_cancel_active) (auto intro!: core_upd_job core_add_dead_letter assms simp: steps_of_def)

lemma parents_doneD:
  "parents_done rows ps = Some True \<Longrightarrow> p \<in> set ps \<Longrightarrow>
     \<exists>r \<in> set rows. sr_unit_id r = p \<and> sr_state r = S_SUCCEEDED"
  by (induction rows ps rule: parents_done.induct) (auto split: option.splits if_splits dest: find_SomeD)

lemma core_ready:
  assumes inv: "core_inv db" and row: "row \<in> set (job_steps db)" "sr_state row = S_PENDING"
    and deps: "\<forall>u \<in> set (sp_depends_on (sr_spec row)). unit_succeeded db (sr_job_id row) u"
  shows "core_inv (upd_step (sr_step_id row) (ready_row key inputs) db)"
proof (rule core_upd [OF inv row(1) refl, where f = "ready_row key inputs"])
  have ri: "row_inv db row" using inv row(1) by (rule core_row)
  show "lease_ok (ready_row key inputs row)" using ri row by (auto simp: row_inv_def lease_ok_def)
  show "attempts_ok (step_attempts_of (upd_step (sr_step_id row) (ready_row key inputs) db) (sr_step_id row)) (ready_row key inputs row)"
    using ri row by (simp add: row_inv_def attempts_ok_def step_attempts_of_def)
  show "(sr_state (ready_row key inputs row) = S_SUCCEEDED) = has_manifest (upd_step (sr_step_id row) (ready_row key inputs) db) (sr_step_id row)"
    using ri row by (simp add: row_inv_def has_manifest_def)
qed (use core_foreign(3) [OF inv] row deps in \<open>auto simp: step_attempts_of_def count_ok_def\<close>)

definition running_row :: "job_settings \<Rightarrow> string \<Rightarrow> time \<Rightarrow> step_row \<Rightarrow> step_row \<Rightarrow> step_row" where
  "running_row st own now row r = r\<lparr>sr_state := S_RUNNING, sr_attempt_count := Suc (sr_attempt_count row),
     sr_fence := Suc (sr_fence row), sr_lease_owner := Some own,
     sr_lease_expires_at := Some (add_seconds now (st_lease_seconds st)),
     sr_started_at := Some (case sr_started_at r of None \<Rightarrow> now | Some t \<Rightarrow> t), sr_failure_category := None\<rparr>"

definition open_attempt :: "step_row \<Rightarrow> string \<Rightarrow> time \<Rightarrow> attempt_row" where
  "open_attempt row own now = \<lparr>at_step_id = sr_step_id row, at_number = Suc (sr_attempt_count row),
     at_worker = own, at_fence = Suc (sr_fence row), at_started_at = now, at_finished_at = None,
     at_outcome = S_RUNNING, at_category = None, at_classification = None, at_not_before = None\<rparr>"

lemma running_row_fields [simp]:
  "sr_step_id (running_row st own now row r) = sr_step_id r" "sr_job_id (running_row st own now row r) = sr_job_id r"
  "sr_unit_id (running_row st own now row r) = sr_unit_id r" "sr_spec (running_row st own now row r) = sr_spec r"
  "sr_state (running_row st own now row r) = S_RUNNING" "sr_fence (running_row st own now row r) = Suc (sr_fence row)"
  "sr_attempt_count (running_row st own now row r) = Suc (sr_attempt_count row)"
  "sr_lease_owner (running_row st own now row r) = Some own"
  "sr_lease_expires_at (running_row st own now row r) = Some (add_seconds now (st_lease_seconds st))"
  "sr_started_at (running_row st own now row r) \<noteq> None"
  by (simp_all add: running_row_def)

lemma start_attempt_frame [simp]:
  "jobs (start_attempt st row own now db) = jobs db"
  "job_steps (start_attempt st row own now db) =
     upd_where (\<lambda>r. sr_step_id r = sr_step_id row) (running_row st own now row) (job_steps db)"
  "step_attempts (start_attempt st row own now db) = step_attempts db @ [open_attempt row own now]"
  "artifact_manifests (start_attempt st row own now db) = artifact_manifests db"
  "manifest_objects (start_attempt st row own now db) = manifest_objects db"
  "outbox (start_attempt st row own now db) = outbox db"
  "object_intents (start_attempt st row own now db) = object_intents db"
  by (simp_all add: start_attempt_def Let_def running_row_def [abs_def] open_attempt_def)

lemma core_start:
  assumes inv: "core_inv db" and row: "row \<in> set (job_steps db)" "sr_state row \<in> {S_READY, S_RETRY_WAIT}"
  shows "core_inv (start_attempt st row own now db)"
proof (rule core_upd [OF inv row(1) refl, where f = "running_row st own now row"])
  have ri: "row_inv db row" using inv row(1) by (rule core_row)
  then have cnt: "sr_fence row = sr_attempt_count row" by (auto simp: row_inv_def count_ok_def)
  have idle: "\<forall>a \<in> set (step_attempts_of db (sr_step_id row)). at_outcome a \<noteq> S_RUNNING \<and> at_fence a \<le> sr_fence row"
  proof
    fix a assume a: "a \<in> set (step_attempts_of db (sr_step_id row))"
    then have "at_fence a \<in> set [1..<Suc (sr_attempt_count row)]"
      using ri by (metis attempts_ok_def image_eqI list.set_map row_inv_def)
    with a ri row cnt show "at_outcome a \<noteq> S_RUNNING \<and> at_fence a \<le> sr_fence row"
      by (auto simp: row_inv_def attempts_ok_def)
  qed
  show "lease_ok (running_row st own now row row)" by (simp add: lease_ok_def)
  show "attempts_ok (step_attempts_of (start_attempt st row own now db) (sr_step_id row)) (running_row st own now row row)"
    using ri idle cnt
    by (auto simp: row_inv_def attempts_ok_def step_attempts_of_def open_attempt_def)
  show "(sr_state (running_row st own now row row) = S_SUCCEEDED) = has_manifest (start_attempt st row own now db) (sr_step_id row)"
    using ri row by (auto simp: row_inv_def has_manifest_def)
  show "count_ok (max_attempts (policy_of j)) (running_row st own now row row)"
    if "retry_valid (policy_of j)" "count_ok (max_attempts (policy_of j)) row" for j
    using that row by (auto simp: count_ok_def retry_valid_def)
  show "started_state (sr_state row) \<or> (\<forall>u \<in> set (sp_depends_on (sr_spec row)). unit_succeeded db (sr_job_id row) u)"
    using row by (auto simp: started_state_def)
qed (use core_foreign(3) [OF inv] row in \<open>auto simp: step_attempts_of_def open_attempt_def\<close>)

lemma core_renew:
  assumes inv: "core_inv db" and row: "row \<in> set (job_steps db)" "sr_state row = S_RUNNING" "sr_step_id row = sid"
  shows "core_inv (upd_step sid (\<lambda>r. r\<lparr>sr_lease_expires_at := Some t\<rparr>) db)"
proof -
  have ri: "row_inv db row" using inv row(1) by (rule core_row)
  show ?thesis
    by (rule core_upd [OF inv row(1,3), where f = "\<lambda>r. r\<lparr>sr_lease_expires_at := Some t\<rparr>"])
      (use core_foreign(3) [OF inv] row ri in
        \<open>auto simp: step_attempts_of_def lease_ok_def count_ok_def attempts_ok_def row_inv_def has_manifest_def\<close>)
qed

definition succeeded_row :: "time \<Rightarrow> step_row \<Rightarrow> step_row" where
  "succeeded_row now r = r\<lparr>sr_state := S_SUCCEEDED, sr_finished_at := Some now,
     sr_lease_owner := None, sr_lease_expires_at := None\<rparr>"

lemma succeeded_row_fields [simp]:
  "sr_step_id (succeeded_row now r) = sr_step_id r" "sr_job_id (succeeded_row now r) = sr_job_id r"
  "sr_unit_id (succeeded_row now r) = sr_unit_id r" "sr_spec (succeeded_row now r) = sr_spec r"
  "sr_state (succeeded_row now r) = S_SUCCEEDED" "sr_fence (succeeded_row now r) = sr_fence r"
  "sr_attempt_count (succeeded_row now r) = sr_attempt_count r"
  "sr_started_at (succeeded_row now r) = sr_started_at r"
  "sr_lease_owner (succeeded_row now r) = None" "sr_lease_expires_at (succeeded_row now r) = None"
  by (simp_all add: succeeded_row_def)

lemma accept_manifest_frame [simp]:
  "jobs (accept_manifest l refs now db) = jobs db"
  "job_steps (accept_manifest l refs now db) =
     upd_where (\<lambda>r. sr_step_id r = ls_step_id l) (succeeded_row now) (job_steps db)"
  "step_attempts (accept_manifest l refs now db) = upd_where
     (\<lambda>a. at_step_id a = ls_step_id l \<and> at_fence a = ls_fence l)
     (\<lambda>a. a\<lparr>at_outcome := S_SUCCEEDED, at_finished_at := Some now\<rparr>) (step_attempts db)"
  "artifact_manifests (accept_manifest l refs now db) = artifact_manifests db @
     [\<lparr>mf_step_id = ls_step_id l, mf_manifest = refs, mf_committed_at = now, mf_fence = ls_fence l\<rparr>]"
  "manifest_objects (accept_manifest l refs now db) = manifest_objects db @ map (\<lambda>r. (ls_step_id l, or_key r)) refs"
  "outbox (accept_manifest l refs now db) = outbox db"
  "object_intents (accept_manifest l refs now db) = object_intents db"
  by (simp_all add: accept_manifest_def succeeded_row_def [abs_def])

lemma core_accept:
  assumes inv: "core_inv db" and row: "row \<in> set (job_steps db)" "sr_step_id row = ls_step_id l"
    "sr_state row = S_RUNNING" "sr_fence row = ls_fence l"
  shows "core_inv (accept_manifest l refs now db)"
proof (rule core_upd [OF inv row(1,2), where f = "succeeded_row now"])
  have ri: "row_inv db row" using inv row(1) by (rule core_row)
  then have nm: "\<not> has_manifest db (ls_step_id l)" using row by (simp add: row_inv_def)
  show "distinct (map mf_step_id (artifact_manifests (accept_manifest l refs now db)))"
    using core_foreign(3) [OF inv] nm by (simp add: has_manifest_def)
  show "lease_ok (succeeded_row now row)" by (simp add: lease_ok_def)
  show "attempts_ok (step_attempts_of (accept_manifest l refs now db) (ls_step_id l)) (succeeded_row now row)"
    using ri row unfolding row_inv_def step_attempts_of_def
    by (auto simp: step_attempts_upd intro!: attempts_ok_settle) (auto simp: attempts_ok_def)
  show "(sr_state (succeeded_row now row) = S_SUCCEEDED) = has_manifest (accept_manifest l refs now db) (ls_step_id l)"
    by (simp add: has_manifest_def)
  show "step_attempts_of (accept_manifest l refs now db) x = step_attempts_of db x" if "x \<noteq> ls_step_id l" for x
    using that by (auto simp: step_attempts_of_def step_attempts_upd intro!: upd_where_none)
qed (use row in \<open>auto simp: set_keys_upd_where count_ok_def started_state_def\<close>)

text \<open>Induction over the activations of one call of \<^verbatim>\<open>_activate\<close>.\<close>

lemma activate_step_cases:
  assumes "activate_step H job now rows row db = Inr db'"
  obtains (skip) "db' = db"
  | (ready) key inputs where "sr_state row = S_PENDING" "parents_done rows (sp_depends_on (sr_spec row)) = Some True"
      "\<And>r. r \<in> set (job_steps db) \<Longrightarrow> sr_step_key r = key \<Longrightarrow> sr_step_id r = sr_step_id row"
      "db' = enqueue (sr_step_id row) now now (upd_step (sr_step_id row) (ready_row key inputs) db)"
  using assms
  by (auto simp: activate_step_def Let_def ready_row_def [abs_def] split: if_splits option.splits bool.splits)

lemma activate_fold_rule:
  assumes "fold_sum (activate_step H job now rows) xs db = Inr db'"
    and "core_inv db" "I db" "set xs \<subseteq> set (job_steps db)" "distinct (map sr_step_id xs)"
    and "\<forall>r \<in> set rows \<union> set xs. sr_job_id r = jid"
    and "\<forall>r \<in> set rows. sr_state r = S_SUCCEEDED \<longrightarrow> r \<in> set (job_steps db)"
    and step: "\<And>db row key inputs. I db \<Longrightarrow> core_inv db \<Longrightarrow> row \<in> set (job_steps db) \<Longrightarrow> sr_job_id row = jid \<Longrightarrow>
       sr_state row = S_PENDING \<Longrightarrow> \<forall>u \<in> set (sp_depends_on (sr_spec row)). unit_succeeded db jid u \<Longrightarrow>
       I (enqueue (sr_step_id row) now now (upd_step (sr_step_id row) (ready_row key inputs) db))"
  shows "core_inv db' \<and> I db'"
  using assms(1-7)
proof (induction xs arbitrary: db)
  case (Cons x xs)
  then obtain db1 where db1: "activate_step H job now rows x db = Inr db1"
      "fold_sum (activate_step H job now rows) xs db1 = Inr db'"
    by (auto simp: txn_simps)
  from db1(1) show ?case
  proof (cases rule: activate_step_cases)
    case skip
    with Cons db1 show ?thesis by auto
  next
    case (ready key inputs)
    have x: "x \<in> set (job_steps db)" "sr_job_id x = jid" using Cons.prems by auto
    have deps: "\<forall>u \<in> set (sp_depends_on (sr_spec x)). unit_succeeded db jid u"
      using parents_doneD [OF ready(2)] Cons.prems(6,7) unfolding unit_succeeded_def by blast
    have other: "r \<in> set (job_steps db1)" if "r \<in> set (job_steps db)" "sr_step_id r \<noteq> sr_step_id x" for r
      using that ready(4) by (force simp: set_upd_where)
    have "core_inv db1"
      unfolding ready(4) using Cons.prems(2) x ready(1) deps by (intro core_enqueue core_ready) auto
    moreover have "I db1" unfolding ready(4) by (rule step) (use Cons.prems x ready(1) deps in auto)
    moreover have "set xs \<subseteq> set (job_steps db1)"
    proof
      fix r assume r: "r \<in> set xs"
      then have "sr_step_id r \<noteq> sr_step_id x" using Cons.prems(5) by (metis distinct.simps(2) imageI list.set_map list.simps(9))
      with r Cons.prems(4) show "r \<in> set (job_steps db1)" by (intro other) auto
    qed
    moreover have "\<forall>r \<in> set rows. sr_state r = S_SUCCEEDED \<longrightarrow> r \<in> set (job_steps db1)"
    proof (intro ballI impI)
      fix r assume r: "r \<in> set rows" "sr_state r = S_SUCCEEDED"
      with Cons.prems(7) have rin: "r \<in> set (job_steps db)" by blast
      have "sr_step_id r = sr_step_id x \<Longrightarrow> r = x"
        by (rule distinct_key_eq [OF core_distinct(1) [OF Cons.prems(2)] rin x(1)])
      with r(2) ready(1) have "sr_step_id r \<noteq> sr_step_id x" by auto
      with rin show "r \<in> set (job_steps db1)" by (rule other)
    qed
    ultimately show ?thesis using Cons.IH [OF db1(2)] Cons.prems(5,6) by auto
  qed
qed simp

lemma activate_rule:
  assumes "activate H job now db = Inr db'" and "core_inv db" "I db"
    and step: "\<And>db row key inputs. I db \<Longrightarrow> core_inv db \<Longrightarrow> row \<in> set (job_steps db) \<Longrightarrow>
       sr_job_id row = jr_job_id job \<Longrightarrow> sr_state row = S_PENDING \<Longrightarrow>
       \<forall>u \<in> set (sp_depends_on (sr_spec row)). unit_succeeded db (jr_job_id job) u \<Longrightarrow>
       I (enqueue (sr_step_id row) now now (upd_step (sr_step_id row) (ready_row key inputs) db))"
  shows "core_inv db' \<and> I db'"
proof (rule activate_fold_rule [OF _ assms(2,3) _ _ _ _ step, where rows = "steps_of db (jr_job_id job)"
      and xs = "steps_of db (jr_job_id job)" and jid = "jr_job_id job" and H = H and job = job])
  show "fold_sum (activate_step H job now (steps_of db (jr_job_id job))) (steps_of db (jr_job_id job)) db = Inr db'"
    using assms(1) by (simp add: activate_def Let_def)
  show "distinct (map sr_step_id (steps_of db (jr_job_id job)))"
    using core_distinct(1) [OF assms(2)] by (simp add: steps_of_def distinct_map_filter)
qed (auto simp: steps_of_def)

end
