(* ===== verification/LedgerEvents.thy ===== *)
theory LedgerEvents
  imports LedgerInvariants
begin

text \<open>
  The ledger as a state machine of guarded events. \<open>ledger_event\<close> has one rule per kind of
  change the operations make (admission, start of an attempt, retry, failure, commit,
  cancellation, and the log entries); each event keeps \<open>core_inv\<close> and \<open>live_inv\<close>.
  LedgerRefinement shows that every operation of the ledger is a sequence of such events.
\<close>

section \<open>Jobs and their steps\<close>

definition waiting :: "step_state \<Rightarrow> bool" where
  "waiting s \<longleftrightarrow> s \<in> {S_PENDING, S_READY, S_RETRY_WAIT}"

definition pre_live :: "step_row list \<Rightarrow> job_row \<Rightarrow> bool" where
  "pre_live rows j \<longleftrightarrow> (terminal_job (jr_state j) \<longrightarrow> (\<forall>r \<in> set rows. \<not> active_step (sr_state r)))
     \<and> (jr_cancel_requested j \<longrightarrow> (\<forall>r \<in> set rows. \<not> waiting (sr_state r)))
     \<and> (\<forall>r \<in> set rows. sr_state r = S_FAILED \<longrightarrow> jr_state j = J_FAILED)
     \<and> (jr_state j = J_COMPLETED \<longrightarrow> (\<forall>r \<in> set rows. sr_state r = S_SUCCEEDED))"

definition job_live :: "step_row list \<Rightarrow> job_row \<Rightarrow> bool" where
  "job_live rows j \<longleftrightarrow> pre_live rows j \<and> jr_progress j = progress_of rows"

definition live_inv :: "ledger \<Rightarrow> bool" where
  "live_inv db \<longleftrightarrow> (\<forall>j \<in> set (jobs db). job_live (steps_of db (jr_job_id j)) j)"

definition ledger_inv :: "ledger \<Rightarrow> bool" where
  "ledger_inv db \<longleftrightarrow> core_inv db \<and> live_inv db"

definition running_job :: "ledger \<Rightarrow> job_row \<Rightarrow> bool" where
  "running_job db j \<longleftrightarrow> j \<in> set (jobs db) \<and> \<not> jr_cancel_requested j \<and> \<not> terminal_job (jr_state j)"

lemma active_waiting: "active_step s \<longleftrightarrow> waiting s \<or> s = S_RUNNING"
  by (cases s) (auto simp: waiting_def)

lemma count_state_pos: "0 < count_state s rows \<longleftrightarrow> (\<exists>r \<in> set rows. sr_state r = s)"
  by (auto simp: count_state_def filter_empty_conv)

lemma count_all_succeeded:
  "count_state S_SUCCEEDED rows = length rows \<Longrightarrow> r \<in> set rows \<Longrightarrow> sr_state r = S_SUCCEEDED"
proof -
  assume c: "count_state S_SUCCEEDED rows = length rows" and r: "r \<in> set rows"
  have "length (filter (\<lambda>r. sr_state r = S_SUCCEEDED) rows) < length rows" if "sr_state r \<noteq> S_SUCCEEDED"
    using r that by (rule length_filter_less)
  with c show "sr_state r = S_SUCCEEDED" by (auto simp: count_state_def)
qed

lemma refreshed_pre_live:
  assumes "pre_live rows j"
  shows "job_live rows (j\<lparr>jr_state := refreshed_state j rows, jr_progress := progress_of rows, jr_updated_at := now\<rparr>)"
proof -
  have nf: "\<not> (\<exists>r \<in> set rows. sr_state r = S_FAILED)" if "\<not> terminal_job (jr_state j)"
    using assms that by (auto simp: pre_live_def terminal_job_def)
  consider (t) "terminal_job (jr_state j)" | (c) "\<not> terminal_job (jr_state j)" "jr_cancel_requested j"
    | (n) "\<not> terminal_job (jr_state j)" "\<not> jr_cancel_requested j" by blast
  then show ?thesis
  proof cases
    case t
    with assms show ?thesis by (auto simp: job_live_def pre_live_def refreshed_state_def)
  next
    case c
    with assms nf [OF c(1)] show ?thesis
      by (auto simp: job_live_def pre_live_def refreshed_state_def count_state_pos active_waiting)
  next
    case n
    let ?s = "refreshed_state j rows"
    have none: "count_state S_FAILED rows = 0" using nf [OF n(1)] count_state_pos [of S_FAILED rows] by simp
    show ?thesis
    proof (cases "count_state S_SUCCEEDED rows = length rows")
      case True
      then have "?s = J_COMPLETED" using n none by (simp add: refreshed_state_def)
      with n count_all_succeeded [OF True] show ?thesis by (simp add: job_live_def pre_live_def)
    next
      case False
      then have s: "?s = (case current_stage rows of None \<Rightarrow> J_QUEUED | Some s \<Rightarrow> stage_job_state s)"
        using n none by (simp add: refreshed_state_def)
      then have "\<not> terminal_job ?s" by (simp split: option.splits)
      then have "?s \<noteq> J_COMPLETED" "\<not> terminal_job ?s" by auto
      with n nf [OF n(1)] show ?thesis by (auto simp: job_live_def pre_live_def)
    qed
  qed
qed

lemma live_refresh:
  assumes "live_inv db"
    and "\<And>j. j \<in> set (jobs db') \<Longrightarrow> jr_job_id j \<noteq> jid \<Longrightarrow> j \<in> set (jobs db)"
    and "\<And>x. x \<noteq> jid \<Longrightarrow> steps_of db' x = steps_of db x"
    and "\<And>j. j \<in> set (jobs db') \<Longrightarrow> jr_job_id j = jid \<Longrightarrow> pre_live (steps_of db' jid) j"
  shows "live_inv (refresh jid now db')"
  unfolding live_inv_def
proof
  fix j assume "j \<in> set (jobs (refresh jid now db'))"
  then obtain j0 where j0: "j0 \<in> set (jobs db')" and j: "j = (if jr_job_id j0 = jid
      then j0\<lparr>jr_state := refreshed_state j0 (steps_of db' jid), jr_progress := progress_of (steps_of db' jid), jr_updated_at := now\<rparr>
      else j0)"
    by (auto simp: refresh_def Let_def set_upd_where)
  have st: "steps_of (refresh jid now db') x = steps_of db' x" for x by (simp add: steps_of_def)
  show "job_live (steps_of (refresh jid now db') (jr_job_id j)) j"
  proof (cases "jr_job_id j0 = jid")
    case True
    with j show ?thesis unfolding st using refreshed_pre_live [OF assms(4) [OF j0 True]] by simp
  next
    case False
    with j assms(1-3) j0 show ?thesis unfolding st by (simp add: live_inv_def)
  qed
qed

lemma live_frame:
  "live_inv db \<Longrightarrow> job_steps db' = job_steps db \<Longrightarrow> jobs db' = jobs db \<Longrightarrow> live_inv db'"
  by (simp add: live_inv_def steps_of_def)

lemma live_pre: "live_inv db \<Longrightarrow> j \<in> set (jobs db) \<Longrightarrow> pre_live (steps_of db (jr_job_id j)) j"
  by (simp add: live_inv_def job_live_def)

lemma steps_of_upd_where:
  "job_steps db' = upd_where P f (job_steps db) \<Longrightarrow> (\<And>r. sr_job_id (f r) = sr_job_id r) \<Longrightarrow>
     steps_of db' x = upd_where P f (steps_of db x)"
  by (simp add: steps_of_def filter_upd_where)

lemma steps_of_other:
  assumes "job_steps db' = upd_where P f (job_steps db)" and "\<And>r. sr_job_id (f r) = sr_job_id r"
    and "\<And>r. r \<in> set (job_steps db) \<Longrightarrow> P r \<Longrightarrow> sr_job_id r = jid" and "x \<noteq> jid"
  shows "steps_of db' x = steps_of db x"
  using assms by (subst steps_of_upd_where [OF assms(1,2)]) (auto intro!: upd_where_none simp: steps_of_def)

lemma step_job_unique:
  "core_inv db \<Longrightarrow> row \<in> set (job_steps db) \<Longrightarrow> r \<in> set (job_steps db) \<Longrightarrow> sr_step_id r = sr_step_id row \<Longrightarrow>
     sr_job_id r = sr_job_id row"
  by (metis core_distinct(1) distinct_key_eq)

text \<open>A running job stays free of failed steps: only its own rows move, to states other than failed.\<close>

definition quiet :: "uuid \<Rightarrow> ledger \<Rightarrow> ledger \<Rightarrow> bool" where
  "quiet jid db db' \<longleftrightarrow> jobs db' = jobs db \<and> (\<forall>x. x \<noteq> jid \<longrightarrow> steps_of db' x = steps_of db x)
     \<and> (\<forall>r \<in> set (steps_of db' jid). sr_state r \<noteq> S_FAILED)"

lemma quiet_refl:
  "live_inv db \<Longrightarrow> running_job db job \<Longrightarrow> quiet (jr_job_id job) db db"
  using live_pre [of db job] by (auto simp: quiet_def running_job_def pre_live_def)

lemma quiet_upd:
  assumes "quiet jid db db1" and "core_inv db1" and "row \<in> set (job_steps db1)" "sr_job_id row = jid"
    and "job_steps db2 = upd_where (\<lambda>r. sr_step_id r = sr_step_id row) f (job_steps db1)" and "jobs db2 = jobs db1"
    and "\<And>r. sr_job_id (f r) = sr_job_id r" "\<And>r. sr_state (f r) \<noteq> S_FAILED"
  shows "quiet jid db db2"
proof -
  have "steps_of db2 x = steps_of db1 x" if "x \<noteq> jid" for x
    using step_job_unique [OF assms(2,3)] assms(4) that by (intro steps_of_other [OF assms(5,7)]) auto
  with assms(1,6,8) show ?thesis
    unfolding quiet_def steps_of_upd_where [OF assms(5,7)] by (auto simp: set_upd_where)
qed

lemma quiet_append:
  assumes "quiet jid db db1" and "job_steps db2 = job_steps db1 @ [row]" and "jobs db2 = jobs db1"
    and "sr_job_id row = jid" "sr_state row \<noteq> S_FAILED"
  shows "quiet jid db db2"
proof -
  have "steps_of db2 x = steps_of db1 x @ (if x = jid then [row] else [])" for x
    using assms(2,4) by (auto simp: steps_of_def)
  with assms show ?thesis by (auto simp: quiet_def)
qed

lemma quiet_live:
  assumes inv: "core_inv db" "live_inv db" and job: "running_job db job" and q: "quiet (jr_job_id job) db db'"
  shows "live_inv (refresh (jr_job_id job) now db')"
proof (rule live_refresh [OF inv(2)])
  fix j assume j: "j \<in> set (jobs db')" "jr_job_id j = jr_job_id job"
  then have "j = job"
    using job q inv(1) unfolding quiet_def running_job_def by (metis core_distinct(2) distinct_key_eq)
  then show "pre_live (steps_of db' (jr_job_id job)) j"
    using job q by (auto simp: pre_live_def running_job_def quiet_def)
qed (use q in \<open>auto simp: quiet_def\<close>)

section \<open>Events\<close>

inductive ledger_event :: "prims \<Rightarrow> job_settings \<Rightarrow> ledger \<Rightarrow> ledger \<Rightarrow> bool"
  for H :: prims and st :: job_settings where
  ev_admit: "\<lbrakk>admission_valid H request;
      job = new_job H jid run request now t (next_generation db request);
      set reusable \<subseteq> set (job_steps db); \<forall>r \<in> set reusable. sr_state r = S_SUCCEEDED;
      insert_job job db = Inr db1;
      admit_steps H job now ex reusable ids [] (ad_steps request) db1 = Inr db2;
      activate H job now db2 = Inr db3\<rbrakk> \<Longrightarrow> ledger_event H st db (refresh jid now db3)"
| ev_start: "\<lbrakk>running_job db job; row \<in> set (job_steps db); sr_job_id row = jr_job_id job;
      sr_state row \<in> {S_READY, S_RETRY_WAIT}; sr_not_before row \<le> now; \<not> over_budget job row now; token_text 128 own\<rbrakk> \<Longrightarrow>
      ledger_event H st db (refresh (jr_job_id job) now (start_attempt st row own now db))"
| ev_renew: "\<lbrakk>running_job db job; row \<in> set (job_steps db); sr_job_id row = jr_job_id job;
      sr_state row = S_RUNNING; sr_step_id row = sid\<rbrakk> \<Longrightarrow>
      ledger_event H st db (upd_step sid (\<lambda>r. r\<lparr>sr_lease_expires_at := Some (add_seconds now (st_lease_seconds st))\<rparr>) db)"
| ev_commit: "\<lbrakk>running_job db job; row \<in> set (job_steps db); sr_job_id row = jr_job_id job;
      sr_state row = S_RUNNING; sr_step_id row = ls_step_id l; sr_fence row = ls_fence l;
      sr_lease_owner row = Some (ls_owner l); manifest_valid H l refs; list_all (intended db (ls_step_id l)) refs;
      activate H job now (accept_manifest l refs now db) = Inr db1\<rbrakk> \<Longrightarrow>
      ledger_event H st db (refresh (jr_job_id job) now db1)"
| ev_retry: "\<lbrakk>running_job db job; row \<in> set (job_steps db); sr_job_id row = jr_job_id job; sr_state row = S_RUNNING;
      fl_classification f = RETRYABLE; int (sr_attempt_count row) < max_attempts (policy_of job);
      now \<le> retry_at; sr_started_at row = Some started; retry_at < add_seconds started (budget_seconds (policy_of job))\<rbrakk> \<Longrightarrow>
      ledger_event H st db (refresh (jr_job_id job) now (enqueue (sr_step_id row) now retry_at
        (upd_step (sr_step_id row) (retry_row category retry_at) (finish_attempt row f now (Some retry_at) db))))"
| ev_fail_running: "\<lbrakk>running_job db job; row \<in> set (job_steps db); sr_job_id row = jr_job_id job; sr_state row = S_RUNNING\<rbrakk> \<Longrightarrow>
      ledger_event H st db (refresh (jr_job_id job) now (terminal_failure row g now (finish_attempt row f now None db)))"
| ev_fail_waiting: "\<lbrakk>running_job db job; row \<in> set (job_steps db); sr_job_id row = jr_job_id job;
      sr_state row \<in> {S_READY, S_RETRY_WAIT}; over_budget job row now\<rbrakk> \<Longrightarrow>
      ledger_event H st db (refresh (jr_job_id job) now (terminal_failure row exhausted now db))"
| ev_cancel: "\<lbrakk>job \<in> set (jobs db); \<not> terminal_job (jr_state job)\<rbrakk> \<Longrightarrow>
      ledger_event H st db (refresh (jr_job_id job) now (cancel_job (jr_job_id job) now db))"
| ev_cancel_running: "\<lbrakk>running_job db job; row \<in> set (job_steps db); sr_job_id row = jr_job_id job; sr_state row = S_RUNNING\<rbrakk> \<Longrightarrow>
      ledger_event H st db (refresh (jr_job_id job) now (cancel_step (sr_step_id row) now (cancel_job (jr_job_id job) now db)))"
| ev_settle: "\<lbrakk>job \<in> set (jobs db); jr_cancel_requested job; row \<in> set (job_steps db);
      sr_job_id row = jr_job_id job; sr_state row = S_RUNNING\<rbrakk> \<Longrightarrow>
      ledger_event H st db (refresh (jr_job_id job) now (cancel_step (sr_step_id row) now db))"
| ev_intent: "\<lbrakk>object_ref_valid H ref; find (\<lambda>i. it_step_id i = sid \<and> it_object_key i = or_key ref) (object_intents db) = None\<rbrakk> \<Longrightarrow>
      ledger_event H st db (db\<lparr>object_intents := object_intents db @ [\<lparr>it_step_id = sid, it_object_key = or_key ref, it_ref = ref, it_created_at = now\<rparr>]\<rparr>)"
| ev_delivered: "ledger_event H st db (db\<lparr>outbox := upd_where P
      (\<lambda>b. b\<lparr>ob_delivered_at := Some (case ob_delivered_at b of None \<Rightarrow> now | Some t \<Rightarrow> t)\<rparr>) (outbox db)\<rparr>)"
| ev_redispatch: "ledger_event H st db (enqueue sid now now db)"

inductive_cases ledger_eventE: "ledger_event H st db db'"

section \<open>Events keep the core invariant\<close>

lemma core_append:
  assumes inv: "core_inv db"
    and steps': "job_steps db' = job_steps db @ [row]" and jobs': "jobs db' = jobs db"
    and att: "step_attempts db' = step_attempts db"
    and man: "artifact_manifests db' = artifact_manifests db @ ms" "distinct (map mf_step_id ms)" "mf_step_id ` set ms \<subseteq> {sr_step_id row}"
    and fresh: "sr_step_id row \<notin> sr_step_id ` set (job_steps db)"
    and row: "lease_ok row" "sr_attempt_count row = 0" "sr_fence row = 0" "sr_state row \<in> {S_PENDING, S_SUCCEEDED}"
      "sr_state row = S_SUCCEEDED \<longleftrightarrow> ms \<noteq> []"
      "sr_state row = S_SUCCEEDED \<Longrightarrow> \<forall>u \<in> set (sp_depends_on (sr_spec row)). unit_succeeded db (sr_job_id row) u"
    and job: "job \<in> set (jobs db)" "jr_job_id job = sr_job_id row"
  shows "core_inv db'"
proof (rule core_invI)
  have succ: "unit_succeeded db jid u \<Longrightarrow> unit_succeeded db' jid u" for jid u
    by (auto simp: unit_succeeded_def steps')
  have fm: "sr_step_id row \<notin> mf_step_id ` set (artifact_manifests db)"
    and fa: "sr_step_id row \<notin> at_step_id ` set (step_attempts db)"
    using core_foreign(1,2) [OF inv] fresh by auto
  show "distinct (map sr_step_id (job_steps db'))" using core_distinct(1) [OF inv] fresh by (simp add: steps')
  show "distinct (map jr_job_id (jobs db'))" using core_distinct(2) [OF inv] by (simp add: jobs')
  show "distinct (map mf_step_id (artifact_manifests db'))"
  proof -
    have "x \<notin> mf_step_id ` set ms" if "x \<in> mf_step_id ` set (artifact_manifests db)" for x
      using fm that singletonD [OF subsetD [OF man(3), of x]] by metis
    then have "mf_step_id ` set (artifact_manifests db) \<inter> mf_step_id ` set ms = {}" by (simp add: disjoint_iff)
    with core_foreign(3) [OF inv] man(2) show ?thesis by (simp add: man(1))
  qed
  show "mf_step_id ` set (artifact_manifests db') \<subseteq> sr_step_id ` set (job_steps db')"
    using core_foreign(1) [OF inv] man by (auto simp: steps')
  show "at_step_id ` set (step_attempts db') \<subseteq> sr_step_id ` set (job_steps db')"
    using core_foreign(2) [OF inv] by (auto simp: steps' att)
  show "retry_valid (policy_of j)" if "j \<in> set (jobs db')" for j
    using core_foreign(4) [OF inv] that by (simp add: jobs')
  fix r assume "r \<in> set (job_steps db')"
  then consider "r = row" | "r \<in> set (job_steps db)" by (auto simp: steps')
  then show "row_inv db' r"
  proof cases
    case 1
    have "step_attempts_of db' (sr_step_id row) = []"
      using fa unfolding step_attempts_of_def att filter_empty_conv by (metis imageI)
    moreover have "has_manifest db' (sr_step_id row) \<longleftrightarrow> ms \<noteq> []"
      using man(1,3) fm by (cases ms) (auto simp: has_manifest_def)
    moreover have "deps_ok db' row" using row(4,6) succ by (auto simp: deps_ok_def started_state_def)
    moreover have "count_ok (max_attempts (policy_of job)) row"
      using row(2-4) core_foreign(4) [OF inv job(1)] by (auto simp: count_ok_def retry_valid_def)
    ultimately show ?thesis
      using 1 row(1,2,5) job jobs' unfolding row_inv_def by (auto simp: attempts_ok_def)
  next
    case 2
    have "sr_step_id r \<noteq> sr_step_id row" using 2 fresh by (metis imageI)
    then have "has_manifest db' (sr_step_id r) \<longleftrightarrow> has_manifest db (sr_step_id r)"
      using man(1,3) by (auto simp: has_manifest_def)
    with core_row [OF inv 2] succ show ?thesis
      by (auto simp: row_inv_def jobs' att step_attempts_of_def deps_ok_def)
  qed
qed

lemma insert_stepD:
  "insert_step row db = Inr db' \<Longrightarrow> db' = db\<lparr>job_steps := job_steps db @ [row]\<rparr>
     \<and> sr_step_id row \<notin> sr_step_id ` set (job_steps db)"
  by (auto simp: insert_step_def split: if_splits)

lemma copy_manifestD:
  "copy_manifest sid now old db = Inr db' \<Longrightarrow> \<exists>m. db' = db\<lparr>artifact_manifests := artifact_manifests db @
      [\<lparr>mf_step_id = sid, mf_manifest = m, mf_committed_at = now, mf_fence = 0\<rparr>],
      manifest_objects := manifest_objects db @ map (\<lambda>r. (sid, or_key r)) m\<rparr>
    \<and> (\<exists>r \<in> set (artifact_manifests db). mf_step_id r = old \<and> mf_manifest r = m)"
  by (auto simp: copy_manifest_def split: option.splits dest: find_SomeD)

lemma reuse_candidateD:
  "reuse_candidate reusable copied spec = Some old \<Longrightarrow> old \<in> set reusable \<and> sr_spec old = spec
     \<and> set (sp_depends_on spec) \<subseteq> set copied"
  by (auto simp: reuse_candidate_def split: option.splits if_splits dest: find_SomeD)

lemma planned_step_fields [simp]:
  "sr_step_id (planned_step H job sid spec now ex) = sid" "sr_job_id (planned_step H job sid spec now ex) = jr_job_id job"
  "sr_unit_id (planned_step H job sid spec now ex) = sp_unit_id spec" "sr_spec (planned_step H job sid spec now ex) = spec"
  "sr_state (planned_step H job sid spec now ex) = S_PENDING" "sr_attempt_count (planned_step H job sid spec now ex) = 0"
  "sr_fence (planned_step H job sid spec now ex) = 0" "lease_ok (planned_step H job sid spec now ex)"
  by (simp_all add: planned_step_def lease_ok_def)

lemma reused_step_fields [simp]:
  "sr_step_id (reused_step H job sid spec now old) = sid" "sr_job_id (reused_step H job sid spec now old) = jr_job_id job"
  "sr_unit_id (reused_step H job sid spec now old) = sp_unit_id spec" "sr_spec (reused_step H job sid spec now old) = spec"
  "sr_state (reused_step H job sid spec now old) = S_SUCCEEDED" "sr_attempt_count (reused_step H job sid spec now old) = 0"
  "sr_fence (reused_step H job sid spec now old) = 0" "lease_ok (reused_step H job sid spec now old)"
  by (simp_all add: reused_step_def lease_ok_def)

text \<open>
  Induction over the rows that one admission inserts: a property of databases that inserting a
  planned or a reused row keeps holds after the loop.
\<close>

lemma admit_steps_rule:
  assumes "admit_steps H job now ex reusable ids copied specs db = Inr db'"
    and "core_inv db" "I db" "job' \<in> set (jobs db)" "jr_job_id job' = jr_job_id job"
    and "\<forall>u \<in> set copied. unit_succeeded db (jr_job_id job) u" and "set specs \<subseteq> S"
    and planned: "\<And>db sid spec. I db \<Longrightarrow> core_inv db \<Longrightarrow> spec \<in> S \<Longrightarrow> sid \<notin> sr_step_id ` set (job_steps db) \<Longrightarrow>
       I (db\<lparr>job_steps := job_steps db @ [planned_step H job sid spec now ex]\<rparr>)"
    and reused: "\<And>db db1 sid spec old. I db \<Longrightarrow> core_inv db \<Longrightarrow> spec \<in> S \<Longrightarrow> sid \<notin> sr_step_id ` set (job_steps db) \<Longrightarrow>
       old \<in> set reusable \<Longrightarrow> sr_spec old = spec \<Longrightarrow>
       copy_manifest sid now (sr_step_id old) (db\<lparr>job_steps := job_steps db @ [reused_step H job sid spec now old]\<rparr>) = Inr db1 \<Longrightarrow> I db1"
  shows "core_inv db' \<and> I db'"
  using assms(1-7)
proof (induction specs arbitrary: ids copied db)
  case (Cons spec specs)
  then obtain sid ids' where ids: "ids = sid # ids'" by (cases ids) auto
  note prems = Cons.prems [unfolded ids]
  show ?case
  proof (cases "reuse_candidate reusable copied spec")
    case None
    let ?row = "planned_step H job sid spec now ex"
    from prems(1) None obtain db1 where ins: "insert_step ?row db = Inr db1"
      and rest: "admit_steps H job now ex reusable ids' copied specs db1 = Inr db'"
      by (auto simp: txn_simps)
    from insert_stepD [OF ins] have db1: "db1 = db\<lparr>job_steps := job_steps db @ [?row]\<rparr>"
      and fresh: "sid \<notin> sr_step_id ` set (job_steps db)" by auto
    have c: "core_inv db1"
      by (rule core_append [OF prems(2), where row = ?row and ms = "[]" and job = job']) (use db1 fresh prems(4,5) in auto)
    have i: "I db1" unfolding db1 by (rule planned [OF prems(3,2) _ fresh]) (use prems(7) in simp)
    have "\<forall>u \<in> set copied. unit_succeeded db1 (jr_job_id job) u"
      using prems(6) by (auto simp: db1 unit_succeeded_def)
    with prems(4,7) show ?thesis by (intro Cons.IH [OF rest c i _ prems(5)]) (auto simp: db1)
  next
    case (Some old)
    let ?row = "reused_step H job sid spec now old"
    from prems(1) Some obtain db0 db1 where ins: "insert_step ?row db = Inr db0"
      and cp: "copy_manifest sid now (sr_step_id old) db0 = Inr db1"
      and rest: "admit_steps H job now ex reusable ids' (sp_unit_id spec # copied) specs db1 = Inr db'"
      by (auto simp: txn_simps)
    note old = reuse_candidateD [OF Some]
    from insert_stepD [OF ins] have db0: "db0 = db\<lparr>job_steps := job_steps db @ [?row]\<rparr>"
      and fresh: "sid \<notin> sr_step_id ` set (job_steps db)" by auto
    from copy_manifestD [OF cp] obtain m where db1: "db1 = db0\<lparr>artifact_manifests := artifact_manifests db0 @
        [\<lparr>mf_step_id = sid, mf_manifest = m, mf_committed_at = now, mf_fence = 0\<rparr>],
        manifest_objects := manifest_objects db0 @ map (\<lambda>r. (sid, or_key r)) m\<rparr>" by blast
    have c: "core_inv db1"
      by (rule core_append [OF prems(2), where row = ?row and job = job' and
            ms = "[\<lparr>mf_step_id = sid, mf_manifest = m, mf_committed_at = now, mf_fence = 0\<rparr>]"])
        (use db1 db0 fresh prems(4-6) old in auto)
    have i: "I db1" by (rule reused [OF prems(3,2) _ fresh _ _ cp [unfolded db0]]) (use old prems(7) in auto)
    have "\<forall>u \<in> set (sp_unit_id spec # copied). unit_succeeded db1 (jr_job_id job) u"
      using prems(6) by (auto simp: db1 db0 unit_succeeded_def)
    with prems(4,7) show ?thesis by (intro Cons.IH [OF rest c i _ prems(5)]) (auto simp: db1 db0)
  qed
qed simp

lemma insert_jobD:
  "insert_job job db = Inr db' \<Longrightarrow> db' = db\<lparr>jobs := jobs db @ [job]\<rparr> \<and> jr_job_id job \<notin> jr_job_id ` set (jobs db)"
  by (auto simp: insert_job_def split: if_splits)

lemma core_insert_job:
  assumes inv: "core_inv db" and "jr_job_id job \<notin> jr_job_id ` set (jobs db)" "retry_valid (policy_of job)"
  shows "core_inv (db\<lparr>jobs := jobs db @ [job]\<rparr>)"
proof (rule core_invI)
  fix r assume "r \<in> set (job_steps (db\<lparr>jobs := jobs db @ [job]\<rparr>))"
  then have "row_inv db r" using core_row [OF inv] by simp
  then show "row_inv (db\<lparr>jobs := jobs db @ [job]\<rparr>) r"
    by (auto simp: row_inv_def step_attempts_of_def has_manifest_def deps_ok_def unit_succeeded_def)
qed (use core_distinct [OF inv] core_foreign [OF inv] assms in auto)

lemma policy_new_job [simp]: "policy_of (new_job H jid run request now t g) = pf_retry (ad_profile request)"
  by (simp add: policy_of_def new_job_def)

lemma new_job_fields [simp]:
  "jr_job_id (new_job H jid run request now t g) = jid" "jr_cancel_requested (new_job H jid run request now t g) = False"
  "jr_state (new_job H jid run request now t g) = J_QUEUED" "jr_request (new_job H jid run request now t g) = request"
  by (simp_all add: new_job_def)

lemma admission_retry: "admission_valid H a \<Longrightarrow> retry_valid (pf_retry (ad_profile a))"
  by (simp add: admission_valid_def profile_valid_def Let_def)

lemma activate_core: "activate H job now db = Inr db' \<Longrightarrow> core_inv db \<Longrightarrow> core_inv db'"
  using activate_rule [where I = "\<lambda>_. True"] by blast

lemma no_steps_without_job:
  "core_inv db \<Longrightarrow> jid \<notin> jr_job_id ` set (jobs db) \<Longrightarrow> r \<in> set (job_steps db) \<Longrightarrow> sr_job_id r \<noteq> jid"
  using core_row [of db r] unfolding row_inv_def by (metis imageI)

lemma quiet_activate:
  assumes act: "activate H job now db1 = Inr db2" and "core_inv db1" "quiet (jr_job_id job) db db1"
  shows "core_inv db2 \<and> quiet (jr_job_id job) db db2"
proof (rule activate_rule [where I = "quiet (jr_job_id job) db", OF act assms(2,3)])
  fix d row key inputs
  assume "quiet (jr_job_id job) db d" "core_inv d" "row \<in> set (job_steps d)" "sr_job_id row = jr_job_id job"
  then show "quiet (jr_job_id job) db (enqueue (sr_step_id row) now now (upd_step (sr_step_id row) (ready_row key inputs) d))"
    by (rule quiet_upd [where f = "ready_row key inputs"]) simp_all
qed

text \<open>The database after the rows of an admission are inserted and activated.\<close>

lemma admit_event_rule:
  assumes inv: "core_inv db" and val: "admission_valid H request"
    and job: "job = new_job H jid run request now t g"
    and ins: "insert_job job db = Inr db1"
    and adm: "admit_steps H job now ex reusable ids [] (ad_steps request) db1 = Inr db2"
    and act: "activate H job now db2 = Inr db3"
  shows "core_inv db3" "quiet jid db1 db3" "jid \<notin> jr_job_id ` set (jobs db)" "db1 = db\<lparr>jobs := jobs db @ [job]\<rparr>"
proof -
  from insert_jobD [OF ins] have db1: "db1 = db\<lparr>jobs := jobs db @ [job]\<rparr>"
    and fresh: "jid \<notin> jr_job_id ` set (jobs db)" by (auto simp: job)
  have c1: "core_inv db1" unfolding db1
    by (rule core_insert_job) (use inv fresh admission_retry [OF val] in \<open>auto simp: job\<close>)
  have q1: "quiet jid db1 db1"
    using no_steps_without_job [OF inv fresh] by (auto simp: quiet_def db1 steps_of_def)
  have jid: "jr_job_id job = jid" by (simp add: job)
  have "core_inv db2 \<and> quiet jid db1 db2"
  proof (rule admit_steps_rule [where I = "quiet jid db1", OF adm c1 q1, where job' = job and S = UNIV])
    fix d sid spec assume "quiet jid db1 d"
    then show "quiet jid db1 (d\<lparr>job_steps := job_steps d @ [planned_step H job sid spec now ex]\<rparr>)"
      by (rule quiet_append [where row = "planned_step H job sid spec now ex"]) (simp_all add: jid)
  next
    fix d d1 sid spec old
    assume q: "quiet jid db1 d"
      and "copy_manifest sid now (sr_step_id old) (d\<lparr>job_steps := job_steps d @ [reused_step H job sid spec now old]\<rparr>) = Inr d1"
    then have "job_steps d1 = job_steps d @ [reused_step H job sid spec now old]" "jobs d1 = jobs d"
      by (auto dest!: copy_manifestD)
    with q show "quiet jid db1 d1" by (rule quiet_append) (simp_all add: jid)
  qed (simp_all add: db1)
  then have "core_inv db3 \<and> quiet jid db1 db3"
    using quiet_activate [OF act, unfolded jid] by blast
  with fresh db1 show "core_inv db3" "quiet jid db1 db3" "jid \<notin> jr_job_id ` set (jobs db)"
    "db1 = db\<lparr>jobs := jobs db @ [job]\<rparr>" by auto
qed

lemma core_cancel_job: "core_inv db \<Longrightarrow> core_inv (cancel_job jid now db)"
  unfolding cancel_job_def Let_def
  by (rule core_cancel_active) (auto intro!: core_upd_job simp: steps_of_def)

lemma finish_attempt_frame [simp]:
  "jobs (finish_attempt row f now x db) = jobs db" "job_steps (finish_attempt row f now x db) = job_steps db"
  "artifact_manifests (finish_attempt row f now x db) = artifact_manifests db"
  "outbox (finish_attempt row f now x db) = outbox db"
  "object_intents (finish_attempt row f now x db) = object_intents db"
  "manifest_objects (finish_attempt row f now x db) = manifest_objects db"
  by (simp_all add: finish_attempt_def)

lemma cancel_job_rows:
  assumes "core_inv db"
  shows "job_steps (cancel_job jid now db) =
    upd_where (\<lambda>r. sr_job_id r = jid \<and> waiting (sr_state r)) (cancel_row now) (job_steps db)"
  unfolding cancel_job_def Let_def cancel_steps_rows steps_of_def waiting_def upd_job_frame filter_filter
  by (rule upd_where_keys [OF core_distinct(1) [OF assms]])

lemma terminal_failure_rows:
  assumes "core_inv (upd_step (sr_step_id row) (failed_row f now) db)"
  shows "job_steps (terminal_failure row f now db) =
    upd_where (\<lambda>r. sr_job_id r = sr_job_id row \<and> active_step (sr_state r)) (cancel_row now)
      (upd_where (\<lambda>r. sr_step_id r = sr_step_id row) (failed_row f now) (job_steps db))"
proof -
  let ?t = "upd_where (\<lambda>r. sr_step_id r = sr_step_id row) (failed_row f now) (job_steps db)"
  have d: "distinct (map sr_step_id ?t)" using core_distinct(1) [OF assms] by simp
  from upd_where_keys [OF d] show ?thesis
    unfolding terminal_failure_alt Let_def cancel_steps_rows steps_of_def upd_job_frame add_dead_letter_frame
      upd_step_frame filter_filter .
qed

lemma terminal_failure_jobs:
  "jobs (terminal_failure row f now db) = upd_where (\<lambda>r. jr_job_id r = sr_job_id row)
     (\<lambda>j. j\<lparr>jr_state := J_FAILED, jr_terminal_category := Some (fl_category f)\<rparr>) (jobs db)"
  by (simp add: terminal_failure_alt Let_def)

lemma cancel_job_jobs:
  "jobs (cancel_job jid now db) = upd_where (\<lambda>r. jr_job_id r = jid)
     (\<lambda>j. j\<lparr>jr_cancel_requested := True, jr_state := J_CANCEL_REQUESTED\<rparr>) (jobs db)"
  by (simp add: cancel_job_def Let_def)

lemma core_event:
  assumes "ledger_event H st db db'" and inv: "core_inv db"
  shows "core_inv db'"
  using assms(1)
proof cases
  case (ev_admit request job jid run now t reusable db1 ex ids db2 db3)
  then show ?thesis using admit_event_rule(1) [OF inv ev_admit(2,3,6,7,8)] core_refresh by blast
next
  case (ev_commit job row l refs now db1)
  then show ?thesis using activate_core core_accept [OF inv] core_refresh by blast
next
  case (ev_cancel_running job row now)
  have "sr_state r \<noteq> S_SUCCEEDED" if "r \<in> set (job_steps (cancel_job (jr_job_id job) now db))" "sr_step_id r = sr_step_id row" for r
    using that ev_cancel_running distinct_key_eq [OF core_distinct(1) [OF inv] _ ev_cancel_running(3)]
    unfolding cancel_job_rows [OF inv] by (fastforce simp: set_upd_where split: if_splits)
  with ev_cancel_running inv show ?thesis by (auto intro!: core_refresh core_cancel_step core_cancel_job)
next
  case (ev_settle job row now)
  have "sr_state r \<noteq> S_SUCCEEDED" if "r \<in> set (job_steps db)" "sr_step_id r = sr_step_id row" for r
    using that ev_settle distinct_key_eq [OF core_distinct(1) [OF inv] that(1) ev_settle(4)] by auto
  with ev_settle inv show ?thesis by (auto intro!: core_refresh core_cancel_step)
next
  case (ev_retry job row f retry_at started now category)
  then show ?thesis using inv by (auto intro!: core_refresh core_enqueue core_retry [of _ _ job] simp: running_job_def)
next
  case (ev_fail_running job row now g f)
  then show ?thesis using inv by (auto intro!: core_refresh core_terminal_failure core_fail_running)
next
  case (ev_fail_waiting job row now)
  then show ?thesis using inv by (auto intro!: core_refresh core_terminal_failure core_fail_waiting)
next
  case (ev_renew job row sid now)
  then show ?thesis using core_renew [OF inv] by blast
qed (use inv in \<open>auto intro!: core_refresh core_start core_cancel_job core_enqueue intro: core_frame [OF inv]\<close>)

end
