(* ===== verification/LedgerLive.thy ===== *)
theory LedgerLive
  imports LedgerEvents
begin

text \<open>
  Every event keeps \<open>live_inv\<close>: a terminal job has no active step, a job whose cancellation was
  requested has no waiting step, only a failed job has a failed step, and the stored progress is
  the one computed from the steps.
\<close>

lemma count_state_upd:
  "(\<And>r. sr_state (f r) = sr_state r) \<Longrightarrow> count_state s (upd_where P f rows) = count_state s rows"
  by (induction rows) (auto simp: count_state_def upd_where_def)

lemma current_stage_upd:
  "(\<And>r. sr_state (f r) = sr_state r) \<Longrightarrow> (\<And>r. sr_spec (f r) = sr_spec r) \<Longrightarrow>
     current_stage (upd_where P f rows) = current_stage rows"
  by (induction rows) (auto simp: current_stage_def upd_where_def)

lemma job_live_upd:
  "job_live rows j \<Longrightarrow> (\<And>r. sr_state (f r) = sr_state r) \<Longrightarrow> (\<And>r. sr_spec (f r) = sr_spec r) \<Longrightarrow>
     job_live (upd_where P f rows) j"
  by (auto simp: job_live_def pre_live_def progress_of_def count_state_upd current_stage_upd set_upd_where)

lemma live_upd_same:
  assumes "live_inv db" and "\<And>r. sr_state (f r) = sr_state r" "\<And>r. sr_spec (f r) = sr_spec r"
    "\<And>r. sr_job_id (f r) = sr_job_id r"
  shows "live_inv (upd_step sid f db)"
  using assms by (auto simp: live_inv_def steps_of_upd_where [OF _ assms(4)] intro!: job_live_upd)

lemma the_job:
  "core_inv db \<Longrightarrow> job \<in> set (jobs db) \<Longrightarrow> j \<in> set (jobs db) \<Longrightarrow> jr_job_id j = jr_job_id job \<Longrightarrow> j = job"
  by (metis core_distinct(2) distinct_key_eq)

lemma live_quiet_step:
  assumes inv: "core_inv db" "live_inv db" and job: "running_job db job"
    and row: "row \<in> set (job_steps db)" "sr_job_id row = jr_job_id job"
    and db': "job_steps db' = upd_where (\<lambda>r. sr_step_id r = sr_step_id row) f (job_steps db)" "jobs db' = jobs db"
    and f: "\<And>r. sr_job_id (f r) = sr_job_id r" "\<And>r. sr_state (f r) \<noteq> S_FAILED"
  shows "live_inv (refresh (jr_job_id job) now db')"
  by (rule quiet_live [OF inv job quiet_upd [OF quiet_refl [OF inv(2) job] inv(1) row db' f]])

text \<open>A job's own rows and its job row change; the rows of other jobs do not.\<close>

lemma live_change:
  assumes inv: "core_inv db" "live_inv db" and job: "job \<in> set (jobs db)"
    and jobs': "jobs db' = upd_where (\<lambda>r. jr_job_id r = jr_job_id job) g (jobs db)"
    and other: "\<And>x. x \<noteq> jr_job_id job \<Longrightarrow> steps_of db' x = steps_of db x"
    and pre: "pre_live (steps_of db' (jr_job_id job)) (g job)"
    and g: "\<And>j. jr_job_id (g j) = jr_job_id j"
  shows "live_inv (refresh (jr_job_id job) now db')"
proof (rule live_refresh [OF inv(2) _ other])
  fix j assume "j \<in> set (jobs db')" "jr_job_id j \<noteq> jr_job_id job"
  then show "j \<in> set (jobs db)" using g by (auto simp: jobs' set_upd_where)
next
  fix j assume "j \<in> set (jobs db')" "jr_job_id j = jr_job_id job"
  then have "j = g job" using g the_job [OF inv(1) job] by (auto simp: jobs' set_upd_where)
  with pre show "pre_live (steps_of db' (jr_job_id job)) j" by simp
qed

lemma steps_of_rows:
  assumes "job_steps db' = upd_where (\<lambda>r. sr_job_id r = jid \<and> Q r) f (job_steps db)" "\<And>r. sr_job_id (f r) = sr_job_id r"
  shows "steps_of db' x = (if x = jid then upd_where Q f (steps_of db x) else steps_of db x)"
  unfolding steps_of_upd_where [OF assms] by (auto simp: steps_of_def upd_where_def intro!: map_idI)

lemma live_cancel_job:
  assumes inv: "core_inv db" "live_inv db" and job: "job \<in> set (jobs db)" "\<not> terminal_job (jr_state job)"
  shows "live_inv (refresh (jr_job_id job) now (cancel_job (jr_job_id job) now db))"
proof (rule live_change [OF inv job(1) cancel_job_jobs])
  show "steps_of (cancel_job (jr_job_id job) now db) x = steps_of db x" if "x \<noteq> jr_job_id job" for x
    using that by (simp add: steps_of_rows [OF cancel_job_rows [OF inv(1)]])
  show "pre_live (steps_of (cancel_job (jr_job_id job) now db) (jr_job_id job))
     (job\<lparr>jr_cancel_requested := True, jr_state := J_CANCEL_REQUESTED\<rparr>)"
    using live_pre [OF inv(2) job(1)] job(2)
    by (auto simp: steps_of_rows [OF cancel_job_rows [OF inv(1)]] pre_live_def set_upd_where waiting_def terminal_job_def)
qed simp

lemma live_terminal_failure:
  assumes inv: "core_inv db" "live_inv db" and job: "running_job db job"
    and row: "row \<in> set (job_steps db)" "sr_job_id row = jr_job_id job"
    and db1: "job_steps db1 = job_steps db" "jobs db1 = jobs db"
    and core: "core_inv (upd_step (sr_step_id row) (failed_row f now) db1)"
  shows "live_inv (refresh (jr_job_id job) now (terminal_failure row f now db1))"
proof (rule live_change [OF inv])
  let ?u = "upd_step (sr_step_id row) (failed_row f now) db1"
  note rows = steps_of_rows [OF terminal_failure_rows [OF core, folded upd_step_frame], OF cancel_row_fields(2), unfolded row(2)]
  show "job \<in> set (jobs db)" "jr_job_id (j\<lparr>jr_state := J_FAILED, jr_terminal_category := Some (fl_category f)\<rparr>) = jr_job_id j" for j
    using job by (simp_all add: running_job_def)
  show "jobs (terminal_failure row f now db1) = upd_where (\<lambda>r. jr_job_id r = jr_job_id job)
     (\<lambda>j. j\<lparr>jr_state := J_FAILED, jr_terminal_category := Some (fl_category f)\<rparr>) (jobs db)"
    using terminal_failure_jobs [of row f now db1] by (simp add: row db1)
  show "steps_of (terminal_failure row f now db1) x = steps_of db x" if "x \<noteq> jr_job_id job" for x
  proof -
    have "steps_of ?u x = steps_of db x"
      by (rule steps_of_other [where jid = "jr_job_id job" and f = "failed_row f now" and
            P = "\<lambda>r. sr_step_id r = sr_step_id row"])
        (use that step_job_unique [OF inv(1) row(1)] row(2) in \<open>auto simp: db1\<close>)
    with that show ?thesis by (simp add: rows)
  qed
  show "pre_live (steps_of (terminal_failure row f now db1) (jr_job_id job))
      (job\<lparr>jr_state := J_FAILED, jr_terminal_category := Some (fl_category f)\<rparr>)"
    using job by (auto simp: rows pre_live_def set_upd_where running_job_def)
qed

lemma cancel_step_rows:
  "job_steps (cancel_step sid now db) = upd_where (\<lambda>r. sr_step_id r = sid) (cancel_row now) (job_steps db)"
  "jobs (cancel_step sid now db) = jobs db"
  by simp_all

lemma live_cancel_running:
  assumes inv: "core_inv db" "live_inv db" and job: "job \<in> set (jobs db)" "jr_cancel_requested job"
    and row: "row \<in> set (job_steps db)" "sr_job_id row = jr_job_id job" "sr_state row = S_RUNNING"
  shows "live_inv (refresh (jr_job_id job) now (cancel_step (sr_step_id row) now db))"
proof (rule live_change [OF inv job(1), where g = id])
  note rows = steps_of_upd_where [OF cancel_step_rows(1) cancel_row_fields(2)]
  show "steps_of (cancel_step (sr_step_id row) now db) x = steps_of db x" if "x \<noteq> jr_job_id job" for x
    by (rule steps_of_other [OF cancel_step_rows(1), where jid = "jr_job_id job"])
      (use that step_job_unique [OF inv(1) row(1)] row(2) in auto)
  have "row \<in> set (steps_of db (jr_job_id job))" using row by (simp add: steps_of_def)
  with live_pre [OF inv(2) job(1)] row have "\<not> terminal_job (jr_state job)" by (auto simp: pre_live_def)
  with live_pre [OF inv(2) job(1)] job(2)
  show "pre_live (steps_of (cancel_step (sr_step_id row) now db) (jr_job_id job)) (id job)"
    by (auto simp: pre_live_def rows set_upd_where waiting_def)
qed (simp_all add: upd_where_def id_def cong: if_cong)

lemma live_cancel_both:
  assumes inv: "core_inv db" "live_inv db" and job: "running_job db job"
    and row: "row \<in> set (job_steps db)" "sr_job_id row = jr_job_id job" "sr_state row = S_RUNNING"
  shows "live_inv (refresh (jr_job_id job) now (cancel_step (sr_step_id row) now (cancel_job (jr_job_id job) now db)))"
proof (rule live_change [OF inv])
  let ?c = "cancel_job (jr_job_id job) now db"
  note crow = steps_of_rows [OF cancel_job_rows [OF inv(1)] cancel_row_fields(2)]
  note rows = steps_of_upd_where [OF cancel_step_rows(1) cancel_row_fields(2)]
  show "job \<in> set (jobs db)" using job by (simp add: running_job_def)
  show "jobs (cancel_step (sr_step_id row) now ?c) = upd_where (\<lambda>r. jr_job_id r = jr_job_id job)
      (\<lambda>j. j\<lparr>jr_cancel_requested := True, jr_state := J_CANCEL_REQUESTED\<rparr>) (jobs db)"
    by (simp add: cancel_job_jobs)
  show "steps_of (cancel_step (sr_step_id row) now ?c) x = steps_of db x" if x: "x \<noteq> jr_job_id job" for x
  proof -
    have "sr_step_id r \<noteq> sr_step_id row" if "r \<in> set (steps_of db x)" for r
      using that x row step_job_unique [OF inv(1) row(1), of r] by (auto simp: steps_of_def)
    then show ?thesis using x by (auto simp: rows crow intro!: upd_where_none)
  qed
  show "pre_live (steps_of (cancel_step (sr_step_id row) now ?c) (jr_job_id job))
      (job\<lparr>jr_cancel_requested := True, jr_state := J_CANCEL_REQUESTED\<rparr>)"
    using live_pre [OF inv(2), of job] job
    by (auto simp: rows crow pre_live_def set_upd_where waiting_def terminal_job_def running_job_def)
qed simp

lemma live_event:
  assumes "ledger_event H st db db'" and inv: "core_inv db" "live_inv db"
  shows "live_inv db'"
  using assms(1)
proof cases
  case (ev_admit request job jid run now t reusable db1 ex ids db2 db3)
  note rule = admit_event_rule [OF inv(1) ev_admit(2,3,6,7,8)]
  show ?thesis unfolding ev_admit(1)
  proof (rule live_refresh [OF inv(2)])
    fix j assume "j \<in> set (jobs db3)"
    then have j: "j = job \<or> j \<in> set (jobs db)" using rule(2,4) by (auto simp: quiet_def)
    then show "jr_job_id j \<noteq> jid \<Longrightarrow> j \<in> set (jobs db)" using ev_admit(3) by auto
    assume "jr_job_id j = jid"
    with j rule(3) have "j = job" by (metis imageI)
    with rule(2) ev_admit(3) show "pre_live (steps_of db3 jid) j" by (auto simp: quiet_def pre_live_def)
  qed (use rule(2,4) in \<open>auto simp: quiet_def steps_of_def\<close>)
next
  case (ev_start job row now own)
  show ?thesis unfolding ev_start(1) by (rule live_quiet_step [OF inv ev_start(2-4), where f = "running_row st own now row"]) auto
next
  case (ev_renew job row sid now)
  show ?thesis unfolding ev_renew(1) by (rule live_upd_same [OF inv(2)]) auto
next
  case (ev_commit job row l refs now db1)
  have "quiet (jr_job_id job) db (accept_manifest l refs now db)"
    by (rule quiet_upd [OF quiet_refl [OF inv(2) ev_commit(2)] inv(1) ev_commit(3,4), where f = "succeeded_row now"])
      (simp_all add: ev_commit)
  then show ?thesis unfolding ev_commit(1)
    using quiet_activate [OF ev_commit(11) core_accept [OF inv(1) ev_commit(3,6,5,7)]] quiet_live [OF inv ev_commit(2)] by blast
next
  case (ev_retry job row f now retry_at started category)
  show ?thesis unfolding ev_retry(1)
    by (rule live_quiet_step [OF inv ev_retry(2-4), where f = "retry_row category retry_at"]) auto
next
  case (ev_fail_running job row now g f)
  show ?thesis unfolding ev_fail_running(1)
    by (rule live_terminal_failure [OF inv ev_fail_running(2-4)]) (use ev_fail_running inv in \<open>auto intro: core_fail_running\<close>)
next
  case (ev_fail_waiting job row now)
  show ?thesis unfolding ev_fail_waiting(1)
    by (rule live_terminal_failure [OF inv ev_fail_waiting(2-4)]) (use ev_fail_waiting inv in \<open>auto intro: core_fail_waiting\<close>)
next
  case (ev_cancel job now)
  then show ?thesis using live_cancel_job [OF inv] by blast
next
  case (ev_cancel_running job row now)
  then show ?thesis using live_cancel_both [OF inv] by blast
next
  case (ev_settle job row now)
  then show ?thesis using live_cancel_running [OF inv] by blast
qed (use inv in \<open>auto intro: live_frame\<close>)

lemma ledger_inv_event: "ledger_event H st db db' \<Longrightarrow> ledger_inv db \<Longrightarrow> ledger_inv db'"
  by (simp add: ledger_inv_def core_event live_event)

lemma ledger_inv_empty: "ledger_inv empty_ledger"
  by (auto simp: ledger_inv_def core_inv_def live_inv_def empty_ledger_def)

end
