(* ===== verification/LedgerRefinement.thy ===== *)
theory LedgerRefinement
  imports LedgerLive
begin

text \<open>
  Every operation of the ledger is a sequence of the events of LedgerEvents. The invariant of
  the database follows for every history of calls, and so does what histories keep: settled rows,
  manifests, fences.
\<close>

abbreviation events :: "prims \<Rightarrow> job_settings \<Rightarrow> ledger \<Rightarrow> ledger \<Rightarrow> bool" where
  "events H st \<equiv> (ledger_event H st)\<^sup>*\<^sup>*"

lemma events_inv: "events H st db db' \<Longrightarrow> ledger_inv db \<Longrightarrow> ledger_inv db'"
  by (induction rule: rtranclp_induct) (auto intro: ledger_inv_event)

lemma events1: "ledger_event H st db db' \<Longrightarrow> events H st db db'"
  by (rule r_into_rtranclp)

lemma check_lease_running:
  "check_lease db l now False = Inr (job, row) \<Longrightarrow> running_job db job \<and> row \<in> set (job_steps db)
     \<and> sr_job_id row = jr_job_id job \<and> sr_state row = S_RUNNING \<and> sr_step_id row = ls_step_id l
     \<and> sr_fence row = ls_fence l \<and> sr_lease_owner row = Some (ls_owner l) \<and> jr_job_id job = ls_job_id l"
  using check_leaseD [of db l now False job row] by (simp add: running_job_def)

lemma failure_step_event:
  assumes inv: "core_inv db" and job: "running_job db job"
    and row: "row \<in> set (job_steps db)" "sr_job_id row = jr_job_id job" "sr_state row = S_RUNNING"
    and ok: "failure_step H job row f now db = Inr db'"
  shows "ledger_event H st db db'"
proof -
  from ok obtain started where st: "sr_started_at row = Some started"
    by (auto simp: failure_step_def split: option.splits)
  let ?p = "policy_of job"
  let ?wait = "max (delay H ?p (sr_step_key row) (int (max (sr_attempt_count row) 1)))
     (case fl_retry_after f of None \<Rightarrow> 0 | Some s \<Rightarrow> s)"
  let ?at = "add_seconds now ?wait"
  let ?retry = "fl_classification f = RETRYABLE \<and> int (sr_attempt_count row) < max_attempts ?p
     \<and> ?at < add_seconds started (budget_seconds ?p)"
  have "retry_valid ?p" using core_foreign(4) [OF inv] job by (auto simp: running_job_def)
  then have "0 \<le> ?wait" using delay_bounds(1) by (simp add: le_max_iff_disj)
  then have at: "now \<le> ?at" using timedelta_us_nonneg by (simp add: add_seconds_def)
  note unf = failure_step_def st policy_of_def [symmetric] Let_def
  show ?thesis
  proof (cases ?retry)
    case True
    with ok have "db' = refresh (jr_job_id job) now (enqueue (sr_step_id row) now ?at
        (upd_step (sr_step_id row) (retry_row (fl_category f) ?at) (finish_attempt row f now (Some ?at) db)))"
      by (simp add: unf row retry_row_def [abs_def])
    with True at st show ?thesis by (auto intro!: ev_retry [OF job row])
  next
    case False
    with ok obtain g where "db' = refresh (jr_job_id job) now (terminal_failure row g now (finish_attempt row f now None db))"
      by (auto simp: unf row)
    then show ?thesis by (auto intro!: ev_fail_running [OF job row])
  qed
qed

lemma refresh_requests:
  "map (\<lambda>j. (jr_job_id j, jr_request j)) (jobs (refresh jid now db)) = map (\<lambda>j. (jr_job_id j, jr_request j)) (jobs db)"
  by (simp add: refresh_def Let_def map_upd_where)

lemma failure_step_requests:
  assumes "failure_step H job row f now db = Inr db'"
  shows "map (\<lambda>j. (jr_job_id j, jr_request j)) (jobs db') = map (\<lambda>j. (jr_job_id j, jr_request j)) (jobs db)"
proof -
  from assms obtain at' g d where "db' = refresh (sr_job_id row) now d"
    "d = enqueue (sr_step_id row) now at' (upd_step (sr_step_id row) g (finish_attempt row f now (Some at') db))
     \<or> (\<exists>g. d = terminal_failure row g now (finish_attempt row f now None db))"
    unfolding failure_step_def Let_def by (cases "sr_started_at row") (auto split: if_splits)
  then show ?thesis by (auto simp: refresh_requests terminal_failure_jobs map_upd_where)
qed

section \<open>Each operation is a sequence of events\<close>

lemma admit_cases:
  assumes "admit H ids request now db = Inr (x, db')"
  obtains (old) "db' = db" "x \<in> set (jobs db)" "jr_scope x = ad_scope request" "jr_request_key x = ad_request_key request"
      "jr_fingerprint x = admission_digest H request"
  | (new) jid run step_ids reusable t job ex db1 db2 db3 where "admission_valid H request"
      "job = new_job H jid run request now t (next_generation db request)"
      "set reusable \<subseteq> set (job_steps db)" "\<forall>r \<in> set reusable. sr_state r = S_SUCCEEDED"
      "insert_job job db = Inr db1" "admit_steps H job now ex reusable step_ids [] (ad_steps request) db1 = Inr db2"
      "activate H job now db2 = Inr db3" "db' = refresh jid now db3" "ledger_job db' (ad_scope request) jid = Inr x"
proof (cases "find (\<lambda>r. jr_scope r = ad_scope request \<and> jr_request_key r = ad_request_key request) (jobs db)")
  case (Some existing)
  with assms have "db' = db" "x = existing" "jr_fingerprint x = admission_digest H request"
    by (auto simp: admit_def split: if_splits)
  with find_SomeD [OF Some] show thesis by (intro old) auto
next
  case None
  with assms obtain prior reusable where val: "admission_valid H request"
    and res: "resume_source H request db = Inr (prior, reusable)"
    by (auto simp: admit_def txn_simps split: if_splits)
  with assms None obtain jid run step_ids where ids: "ids = jid # run # step_ids"
    by (auto simp: admit_def split: list.splits)
  define job where "job = new_job H jid run request now (case prior of None \<Rightarrow> now | Some p \<Rightarrow> jr_document_created_at p) (next_generation db request)"
  from assms None val res ids obtain db1 db2 db3 where ops: "insert_job job db = Inr db1"
      "admit_steps H job now (execution_time db1 request now) reusable step_ids [] (ad_steps request) db1 = Inr db2"
      "activate H job now db2 = Inr db3" "db' = refresh jid now db3" "ledger_job db' (ad_scope request) jid = Inr x"
    by (auto simp: admit_def txn_simps Let_def job_def)
  have "set reusable \<subseteq> set (job_steps db)" "\<forall>r \<in> set reusable. sr_state r = S_SUCCEEDED"
    using res by (auto simp: resume_source_def txn_simps steps_of_def split: option.splits if_splits)
  from new [OF val job_def this ops] show thesis .
qed

lemma admit_events:
  assumes "admit H ids request now db = Inr (x, db')"
  shows "events H st db db'"
  using assms
proof (cases rule: admit_cases)
  case (new jid run step_ids reusable t job ex db1 db2 db3)
  from events1 [OF ev_admit [OF new(1-7), where st = st]] show ?thesis by (simp add: new(8))
qed simp

lemma renew_events:
  assumes "renew st l now db = Inr (x, db')"
  shows "events H st db db'"
proof -
  from assms obtain job row where l: "check_lease db l now False = Inr (job, row)"
    and db': "db' = upd_step (ls_step_id l) (\<lambda>r. r\<lparr>sr_lease_expires_at := Some (add_seconds now (st_lease_seconds st))\<rparr>) db"
    by (auto simp: renew_def txn_simps)
  from check_lease_running [OF l] show ?thesis unfolding db' by (intro events1 ev_renew [of db job row]) auto
qed

lemma commit_events:
  assumes "commit H l refs now db = Inr (x, db')"
  shows "events H st db db'"
proof -
  from assms obtain job row where val: "manifest_valid H l refs"
    and job: "ledger_job db (ls_scope l) (ls_job_id l) = Inr job" and row: "ledger_step db (ls_job_id l) (ls_step_id l) = Inr row"
    by (auto simp: commit_def txn_simps split: if_splits)
  show ?thesis
  proof (cases "sr_state row = S_SUCCEEDED")
    case True
    with assms val job row show ?thesis by (auto simp: commit_def split: option.splits if_splits)
  next
    case False
    with assms val job row obtain job' row' db1 where l: "check_lease db l now False = Inr (job', row')"
      and i: "list_all (intended db (ls_step_id l)) refs" and act: "activate H job now (accept_manifest l refs now db) = Inr db1"
      and db': "db' = refresh (ls_job_id l) now db1"
      by (auto simp: commit_def txn_simps Let_def split: if_splits)
    from l job have "job' = job" by (auto simp: check_lease_def txn_simps split: if_splits option.splits)
    with check_lease_running [OF l] have r: "running_job db job" "row' \<in> set (job_steps db)" "sr_job_id row' = jr_job_id job"
      "sr_state row' = S_RUNNING" "sr_step_id row' = ls_step_id l" "sr_fence row' = ls_fence l"
      "sr_lease_owner row' = Some (ls_owner l)" and jid: "jr_job_id job = ls_job_id l" by auto
    from events1 [OF ev_commit [OF r val i act, where st = st]] show ?thesis by (simp add: jid db')
  qed
qed

lemma fail_events:
  assumes "fail H l f now db = Inr (x, db')" and "core_inv db"
  shows "events H st db db'"
proof -
  from assms(1) obtain job row where l: "check_lease db l now False = Inr (job, row)"
    and rest: "(if fl_classification (sanitized f) = C_CANCELLED
        then Inr ((), refresh (sr_job_id row) now (cancel_step (sr_step_id row) now (cancel_job (jr_job_id job) now db)))
        else sbind (failure_step H job row (sanitized f) now db) (\<lambda>db1. Inr ((), db1))) = Inr (x, db')"
    by (auto simp: fail_def Let_def sbind_Inr_iff [of "check_lease db l now False"])
  from check_lease_running [OF l] have r: "running_job db job" "row \<in> set (job_steps db)" "sr_job_id row = jr_job_id job"
    "sr_state row = S_RUNNING" by auto
  show ?thesis
  proof (cases "fl_classification (sanitized f) = C_CANCELLED")
    case True
    with rest r(3) events1 [OF ev_cancel_running [OF r], of H st now] show ?thesis by simp
  next
    case False
    with rest have "failure_step H job row (sanitized f) now db = Inr db'" by (auto simp: txn_simps)
    from events1 [OF failure_step_event [OF assms(2) r this]] show ?thesis .
  qed
qed

lemma cancel_events:
  assumes "cancel sc jid now db = Inr (x, db')"
  shows "events H st db db'"
proof -
  from assms obtain job where job: "ledger_job db sc jid = Inr job" by (auto simp: cancel_def txn_simps)
  with assms ledger_jobD [OF job] show ?thesis
    by (cases "terminal_job (jr_state job)") (auto simp: cancel_def txn_simps Let_def intro!: events1 ev_cancel [of job])
qed

lemma settle_cancel_events:
  assumes "settle_cancel l now db = Inr (x, db')"
  shows "events H st db db'"
proof -
  from assms obtain job row where l: "check_lease db l now True = Inr (job, row)" and c: "jr_cancel_requested job"
    and db': "db' = refresh (ls_job_id l) now (cancel_step (sr_step_id row) now db)"
    by (auto simp: settle_cancel_def txn_simps split: if_splits)
  note d = check_leaseD(1-6) [OF l]
  show ?thesis unfolding db' d(2) [symmetric] by (rule events1, rule ev_settle [OF d(1) c d(3)]) (use d in auto)
qed

lemma register_object_events: "register_object H l ref now db = Inr (x, db') \<Longrightarrow> events H st db db'"
  by (auto simp: register_object_def txn_simps split: if_splits option.splits intro!: events1 ev_intent)

lemma mark_delivered_events: "mark_delivered d now db = Inr (x, db') \<Longrightarrow> events H st db db'"
  by (auto simp: mark_delivered_def txn_simps Let_def split: if_splits intro!: events1 ev_delivered)

lemma running_jobI:
  assumes "ledger_inv db" "job \<in> set (jobs db)" "row \<in> set (job_steps db)" "sr_job_id row = jr_job_id job"
    "waiting (sr_state row)"
  shows "running_job db job"
proof -
  have "row \<in> set (steps_of db (jr_job_id job))" using assms by (simp add: steps_of_def)
  moreover have "pre_live (steps_of db (jr_job_id job)) job"
    using assms live_pre by (simp add: ledger_inv_def)
  ultimately show ?thesis using assms by (auto simp: running_job_def pre_live_def active_waiting)
qed

lemma claim_settled_events:
  assumes inv: "ledger_inv db" and job: "job \<in> set (jobs db)" "jr_job_id job = jid"
    and row: "ledger_step db jid sid = Inr row" and own: "token_text 128 own"
    and db': "(if sr_state row \<notin> {S_READY, S_RETRY_WAIT} \<or> now < sr_not_before row then Inr (None, db)
           else if over_budget job row now
             then Inr (None, refresh jid now (terminal_failure row exhausted now db))
           else Inr (Some l, refresh jid now (start_attempt st row own now db))) = Inr (x, db')"
  shows "events H st db db'"
proof (cases "sr_state row \<notin> {S_READY, S_RETRY_WAIT} \<or> now < sr_not_before row")
  case False
  have r: "row \<in> set (job_steps db)" "sr_job_id row = jr_job_id job" using ledger_stepD [OF row] job by auto
  have run: "running_job db job" by (rule running_jobI [OF inv job(1) r]) (use False in \<open>auto simp: waiting_def\<close>)
  from False have s: "sr_state row \<in> {S_READY, S_RETRY_WAIT}" "sr_not_before row \<le> now" by auto
  show ?thesis
  proof (cases "over_budget job row now")
    case True
    with False db' job(2) events1 [OF ev_fail_waiting [OF run r s(1) True]] show ?thesis by auto
  next
    case no: False
    with False db' job(2) events1 [OF ev_start [OF run r s no own]] show ?thesis by auto
  qed
qed (use db' in auto)

lemma claim_events:
  assumes "claim H st sc jid sid own now db = Inr (x, db')" and inv: "ledger_inv db"
  shows "events H st db db'"
proof -
  from assms(1) obtain job row0 where own: "token_text 128 own"
    and job: "ledger_job db sc jid = Inr job" and row0: "ledger_step db jid sid = Inr row0"
    by (auto simp: claim_def txn_simps split: if_splits)
  show ?thesis
  proof (cases "jr_cancel_requested job \<or> terminal_job (jr_state job)")
    case True
    with assms(1) own job row0 show ?thesis by (simp add: claim_def)
  next
    case False
    with assms(1) own job row0 obtain db1 row where
      first: "(if expired row0 now then failure_step H job row0 interrupted now db else Inr db) = Inr db1"
      and row: "ledger_step db1 jid sid = Inr row"
      and rest: "(if sr_state row \<notin> {S_READY, S_RETRY_WAIT} \<or> now < sr_not_before row then Inr (None, db1)
           else if over_budget job row now then Inr (None, refresh jid now (terminal_failure row exhausted now db1))
           else Inr (Some \<lparr>ls_scope = sc, ls_job_id = jid, ls_step_id = sid, ls_owner = own, ls_fence = Suc (sr_fence row)\<rparr>,
                     refresh jid now (start_attempt st row own now db1))) = (Inr (x, db') :: string + lease option \<times> ledger)"
      by (simp add: claim_def sbind_Inr_iff del: insert_iff split del: if_split) blast
    note j = ledger_jobD [OF job] and r0 = ledger_stepD [OF row0]
    have run: "running_job db job" using j False by (simp add: running_job_def)
    have e1: "events H st db db1"
    proof (cases "expired row0 now")
      case True
      then have "sr_state row0 = S_RUNNING" by (simp add: expired_def)
      with True first j r0 inv run show ?thesis
        by (intro events1 failure_step_event [of db job row0]) (auto simp: ledger_inv_def)
    qed (use first in simp)
    have req: "map (\<lambda>j. (jr_job_id j, jr_request j)) (jobs db1) = map (\<lambda>j. (jr_job_id j, jr_request j)) (jobs db)"
      using first failure_step_requests by (auto split: if_splits)
    from j obtain job1 where j1: "job1 \<in> set (jobs db1)" "jr_job_id job1 = jid" "jr_request job1 = jr_request job"
      using map_eq_member [OF req [symmetric], of job] by auto
    then have b: "over_budget job r now = over_budget job1 r now" for r by (simp add: over_budget_def split: option.splits)
    have "events H st db1 db'"
      by (rule claim_settled_events [OF events_inv [OF e1 inv] j1(1,2) row own rest [unfolded b]])
    with e1 show ?thesis by (rule rtranclp_trans)
  qed
qed

lemma reconcile_expired_events:
  assumes "reconcile_expired H now row0 (db, n) = Inr (db', n')" and inv: "ledger_inv db"
  shows "events H st db db'"
proof -
  from assms(1) obtain row where row: "ledger_step db (sr_job_id row0) (sr_step_id row0) = Inr row"
    by (auto simp: reconcile_expired_def txn_simps)
  note r = ledger_stepD [OF row]
  show ?thesis
  proof (cases "sr_state row = S_RUNNING")
    case True
    with assms(1) row obtain job where f: "find (\<lambda>j. jr_job_id j = sr_job_id row) (jobs db) = Some job"
      by (auto simp: reconcile_expired_def split: option.splits)
    then have j: "job \<in> set (jobs db)" "sr_job_id row = jr_job_id job" by (auto dest: find_SomeD)
    have "row \<in> set (steps_of db (jr_job_id job))" using r j by (simp add: steps_of_def)
    then have nt: "\<not> terminal_job (jr_state job)"
      using live_pre [of db job] inv j True by (auto simp: ledger_inv_def pre_live_def)
    show ?thesis
    proof (cases "jr_cancel_requested job")
      case c: True
      with assms(1) row f True have "db' = refresh (jr_job_id job) now (cancel_step (sr_step_id row) now db)"
        by (simp add: reconcile_expired_def j)
      with events1 [OF ev_settle [OF j(1) c _ j(2) True]] r show ?thesis by simp
    next
      case False
      with assms(1) row f True nt have "failure_step H job row interrupted now db = Inr db'"
        by (auto simp: reconcile_expired_def txn_simps)
      moreover have "running_job db job" using j False nt by (simp add: running_job_def)
      ultimately show ?thesis
        using events1 [OF failure_step_event [of db job row]] r j True inv by (auto simp: ledger_inv_def)
    qed
  next
    case False
    with assms(1) row show ?thesis by (simp add: reconcile_expired_def)
  qed
qed

lemma stranded_empty:
  assumes "ledger_inv db" shows "stranded_rows n db = []"
proof -
  have "\<not> (active_step (sr_state s) \<and> (case job_of_step db s of None \<Rightarrow> False | Some j \<Rightarrow> terminal_job (jr_state j)))"
    if "s \<in> set (job_steps db)" for s
    using live_pre [of db] assms that
    by (fastforce simp: job_of_step_def ledger_inv_def pre_live_def steps_of_def split: option.splits dest: find_SomeD)
  then show ?thesis by (simp add: stranded_rows_def)
qed

lemma reconcile_fold_events:
  assumes "fold_sum (reconcile_expired H now) rows (db, 0) = Inr (db', n)" and "ledger_inv db"
  shows "events H st db db'"
proof -
  have "(\<lambda>s. events H st db (fst s)) (db', n)"
  proof (rule fold_sum_inv [OF assms(1)])
    fix row s s' assume e: "events H st db (fst s)" and s: "reconcile_expired H now row s = Inr s'"
    then have "events H st (fst s) (fst s')"
      using reconcile_expired_events [of H now row "fst s" "snd s" "fst s'" "snd s'"] events_inv [OF e assms(2)] by simp
    with e show "events H st db (fst s')" by (rule rtranclp_trans)
  qed simp
  then show ?thesis by simp
qed

lemma reconcile_events:
  assumes "reconcile H st limit now db = Inr (x, db')" and inv: "ledger_inv db"
  shows "events H st db db'"
proof -
  from assms(1) obtain n k db1 where fold: "fold_sum (reconcile_expired H now) (expired_rows now n db) (db, 0) = Inr (db1, k)"
    and db': "db' = fold (\<lambda>r. enqueue (sr_step_id r) now now) (take n (filter
      (undispatched now (now - timedelta_us (st_redelivery_seconds st)) (fold (settle_stranded now) (stranded_rows n db1) db1))
      (job_steps (fold (settle_stranded now) (stranded_rows n db1) db1)))) (fold (settle_stranded now) (stranded_rows n db1) db1)"
    by (auto simp: reconcile_def txn_simps Let_def)
  have e1: "events H st db db1" by (rule reconcile_fold_events [OF fold inv])
  then have "stranded_rows n db1 = []" using stranded_empty events_inv inv by blast
  with db' have "\<exists>rows :: step_row list. db' = fold (\<lambda>r. enqueue (sr_step_id r) now now) rows db1" by auto
  moreover have "events H st db1 (fold (\<lambda>r. enqueue (sr_step_id r) now now) rows db1)" for rows :: "step_row list"
    by (rule fold_inv) (auto intro: rtranclp.rtrancl_into_rtrancl ev_redispatch)
  ultimately show ?thesis using e1 by (metis rtranclp_trans)
qed

lemma forgetD: "forget body db = Inr db' \<Longrightarrow> \<exists>x. body db = Inr (x, db')"
  by (auto simp: forget_def split: sum.splits)

lemma ledger_op_events:
  assumes "ledger_op H st c db = Inr db'" and "ledger_inv db"
  shows "events H st db db'"
  using assms
  by (cases c) (auto dest!: forgetD simp: ledger_inv_def
      elim: admit_events renew_events commit_events fail_events cancel_events settle_cancel_events
        register_object_events mark_delivered_events
      intro: claim_events reconcile_events)

lemma ledger_step_events: "ledger_step_rel H st db db' \<Longrightarrow> ledger_inv db \<Longrightarrow> events H st db db'"
  by (auto elim!: ledger_step_relE intro: ledger_op_events)

end
