(* ===== verification/LedgerHistory.thy ===== *)
theory LedgerHistory
  imports LedgerRefinement
begin

text \<open>
  What the history of the ledger keeps. \<open>step_evolves\<close> and \<open>job_evolves\<close> relate a row to the
  row of the same identifier in any later database: identity and plan never change, fences and
  attempt counts only grow, settled rows are final, and a running row with the same fence is the
  same lease.
\<close>

definition step_evolves :: "step_row \<Rightarrow> step_row \<Rightarrow> bool" where
  "step_evolves r r' \<longleftrightarrow> sr_step_id r' = sr_step_id r \<and> sr_job_id r' = sr_job_id r \<and> sr_unit_id r' = sr_unit_id r
     \<and> sr_spec r' = sr_spec r \<and> sr_fence r \<le> sr_fence r' \<and> sr_attempt_count r \<le> sr_attempt_count r'
     \<and> (\<not> active_step (sr_state r) \<longrightarrow> r' = r)
     \<and> (sr_state r' = S_RUNNING \<and> sr_fence r' = sr_fence r \<longrightarrow> sr_state r = S_RUNNING \<and> sr_lease_owner r' = sr_lease_owner r)"

definition job_evolves :: "job_row \<Rightarrow> job_row \<Rightarrow> bool" where
  "job_evolves j j' \<longleftrightarrow> jr_job_id j' = jr_job_id j \<and> jr_scope j' = jr_scope j \<and> jr_request j' = jr_request j
     \<and> jr_run_id j' = jr_run_id j \<and> jr_generation j' = jr_generation j \<and> jr_fingerprint j' = jr_fingerprint j
     \<and> jr_request_key j' = jr_request_key j
     \<and> (terminal_job (jr_state j) \<longrightarrow> j' = j) \<and> (jr_cancel_requested j \<longrightarrow> jr_cancel_requested j')"

definition rows_evolve :: "('r \<Rightarrow> 'r \<Rightarrow> bool) \<Rightarrow> 'r list \<Rightarrow> 'r list \<Rightarrow> bool" where
  "rows_evolve R xs ys \<longleftrightarrow> (\<forall>x \<in> set xs. \<exists>y \<in> set ys. R x y)"

definition evolves :: "ledger \<Rightarrow> ledger \<Rightarrow> bool" where
  "evolves db db' \<longleftrightarrow> rows_evolve step_evolves (job_steps db) (job_steps db')
     \<and> rows_evolve job_evolves (jobs db) (jobs db')
     \<and> set (artifact_manifests db) \<subseteq> set (artifact_manifests db')"

lemma step_evolves_refl [simp]: "step_evolves r r"
  by (simp add: step_evolves_def)

lemma step_evolvesD:
  assumes "step_evolves r r'"
  shows "sr_step_id r' = sr_step_id r" "sr_job_id r' = sr_job_id r" "sr_unit_id r' = sr_unit_id r" "sr_spec r' = sr_spec r"
    "sr_fence r \<le> sr_fence r'" "sr_attempt_count r \<le> sr_attempt_count r'" "\<not> active_step (sr_state r) \<Longrightarrow> r' = r"
    "sr_state r' = S_RUNNING \<Longrightarrow> sr_fence r' = sr_fence r \<Longrightarrow> sr_state r = S_RUNNING \<and> sr_lease_owner r' = sr_lease_owner r"
  using assms unfolding step_evolves_def by blast+

lemma step_evolves_trans:
  assumes a: "step_evolves r r1" and b: "step_evolves r1 r2" shows "step_evolves r r2"
  unfolding step_evolves_def
proof (intro conjI impI)
  show "r2 = r" if "\<not> active_step (sr_state r)"
    using step_evolvesD(7) [OF a that] step_evolvesD(7) [OF b] that by blast
  assume run: "sr_state r2 = S_RUNNING \<and> sr_fence r2 = sr_fence r"
  with step_evolvesD(5) [OF a] step_evolvesD(5) [OF b] have eq: "sr_fence r1 = sr_fence r" "sr_fence r2 = sr_fence r1" by auto
  with run step_evolvesD(8) [OF b] step_evolvesD(8) [OF a]
  show "sr_state r = S_RUNNING" "sr_lease_owner r2 = sr_lease_owner r" by metis+
qed (use step_evolvesD(1-6) [OF a] step_evolvesD(1-6) [OF b] in auto)

lemma job_evolves_refl [simp]: "job_evolves j j"
  by (simp add: job_evolves_def)

lemma job_evolves_trans: "job_evolves j j1 \<Longrightarrow> job_evolves j1 j2 \<Longrightarrow> job_evolves j j2"
  unfolding job_evolves_def by metis

lemma rows_evolve_trans:
  "(\<And>x y z. R x y \<Longrightarrow> R y z \<Longrightarrow> R x z) \<Longrightarrow> rows_evolve R xs ys \<Longrightarrow> rows_evolve R ys zs \<Longrightarrow> rows_evolve R xs zs"
  unfolding rows_evolve_def by meson

lemma rows_evolve_subset: "(\<And>x. R x x) \<Longrightarrow> set xs \<subseteq> set ys \<Longrightarrow> rows_evolve R xs ys"
  by (auto simp: rows_evolve_def)

lemma rows_evolve_upd:
  "(\<And>x. R x x) \<Longrightarrow> (\<And>x. x \<in> set xs \<Longrightarrow> P x \<Longrightarrow> R x (f x)) \<Longrightarrow> rows_evolve R xs (upd_where P f xs)"
  unfolding rows_evolve_def
proof
  fix x assume r: "\<And>x. R x x" "\<And>x. x \<in> set xs \<Longrightarrow> P x \<Longrightarrow> R x (f x)" and x: "x \<in> set xs"
  have "(if P x then f x else x) \<in> set (upd_where P f xs)" using x unfolding set_upd_where by (rule imageI)
  moreover have "R x (if P x then f x else x)" using r x by simp
  ultimately show "\<exists>y \<in> set (upd_where P f xs). R x y" by blast
qed

lemma evolves_refl [simp]: "evolves db db"
  by (simp add: evolves_def rows_evolve_subset)

lemma evolves_trans: "evolves db db1 \<Longrightarrow> evolves db1 db2 \<Longrightarrow> evolves db db2"
  using rows_evolve_trans [of step_evolves] rows_evolve_trans [of job_evolves] step_evolves_trans job_evolves_trans
  unfolding evolves_def by blast

lemma steps_keep:
  "rows_evolve step_evolves (job_steps db) (job_steps db') \<Longrightarrow> jobs db' = jobs db \<Longrightarrow>
     set (artifact_manifests db) \<subseteq> set (artifact_manifests db') \<Longrightarrow> evolves db db'"
  by (simp add: evolves_def rows_evolve_subset)

text \<open>One row of a job that is not settled moves.\<close>

lemma evolves_row:
  assumes inv: "core_inv db" and row: "row \<in> set (job_steps db)"
    and db': "job_steps db' = upd_where (\<lambda>r. sr_step_id r = sr_step_id row) f (job_steps db)"
    and "jobs db' = jobs db" "set (artifact_manifests db) \<subseteq> set (artifact_manifests db')"
    and "step_evolves row (f row)"
  shows "evolves db db'"
proof (rule steps_keep [OF _ assms(4,5)])
  have "r = row" if "r \<in> set (job_steps db)" "sr_step_id r = sr_step_id row" for r
    using distinct_key_eq [OF core_distinct(1) [OF inv] that(1) row that(2)] .
  with assms(6) show "rows_evolve step_evolves (job_steps db) (job_steps db')"
    unfolding db' by (intro rows_evolve_upd) auto
qed

lemma evolves_refresh:
  assumes e: "evolves db db'" and job: "\<And>j. j \<in> set (jobs db) \<Longrightarrow> jr_job_id j = jid \<Longrightarrow> \<not> terminal_job (jr_state j)"
  shows "evolves db (refresh jid now db')"
proof -
  have "rows_evolve job_evolves (jobs db) (jobs (refresh jid now db'))"
    unfolding rows_evolve_def
  proof
    fix j assume j: "j \<in> set (jobs db)"
    then obtain j' where j': "j' \<in> set (jobs db')" "job_evolves j j'"
      using e by (auto simp: evolves_def rows_evolve_def)
    let ?f = "\<lambda>r. r\<lparr>jr_state := refreshed_state r (steps_of db' jid), jr_progress := progress_of (steps_of db' jid), jr_updated_at := now\<rparr>"
    have "(if jr_job_id j' = jid then ?f j' else j') \<in> set (jobs (refresh jid now db'))"
      unfolding refresh_def Let_def upd_job_frame set_upd_where using j'(1) by (rule imageI)
    moreover have "job_evolves j (if jr_job_id j' = jid then ?f j' else j')"
      using j'(2) job [OF j] by (auto simp: job_evolves_def)
    ultimately show "\<exists>y \<in> set (jobs (refresh jid now db')). job_evolves j y" by blast
  qed
  with e show ?thesis by (simp add: evolves_def)
qed

lemma evolves_refresh_running:
  "evolves db db' \<Longrightarrow> core_inv db \<Longrightarrow> job \<in> set (jobs db) \<Longrightarrow> \<not> terminal_job (jr_state job) \<Longrightarrow>
     evolves db (refresh (jr_job_id job) now db')"
  using the_job by (intro evolves_refresh) metis+

text \<open>The rows and the job row of one unsettled job move together.\<close>

lemma evolves_job:
  assumes "rows_evolve step_evolves (job_steps db) (job_steps db')"
    and "jobs db' = upd_where (\<lambda>r. jr_job_id r = jr_job_id job) g (jobs db)"
    and "job_evolves job (g job)" and "job \<in> set (jobs db)" and "core_inv db"
    and "set (artifact_manifests db) \<subseteq> set (artifact_manifests db')"
  shows "evolves db db'"
proof -
  have "rows_evolve job_evolves (jobs db) (jobs db')" unfolding assms(2)
    by (rule rows_evolve_upd) (use assms(3) the_job [OF assms(5,4)] in auto)
  with assms show ?thesis by (simp add: evolves_def)
qed

lemma evolves_activate:
  assumes "activate H job now db1 = Inr db2" "core_inv db1" "evolves db db1"
  shows "core_inv db2 \<and> evolves db db2"
proof (rule activate_rule [where I = "evolves db", OF assms])
  fix d row key inputs
  assume e: "evolves db d" and d: "core_inv d" "row \<in> set (job_steps d)" and p: "sr_state row = S_PENDING"
  have "evolves d (enqueue (sr_step_id row) now now (upd_step (sr_step_id row) (ready_row key inputs) d))"
    by (rule evolves_row [OF d, where f = "ready_row key inputs"]) (use p in \<open>auto simp: step_evolves_def\<close>)
  with e show "evolves db (enqueue (sr_step_id row) now now (upd_step (sr_step_id row) (ready_row key inputs) d))"
    by (rule evolves_trans)
qed

lemma evolves_append:
  "evolves db d \<Longrightarrow> set (job_steps d) \<subseteq> set (job_steps d') \<Longrightarrow> jobs d' = jobs d \<Longrightarrow>
     set (artifact_manifests d) \<subseteq> set (artifact_manifests d') \<Longrightarrow> evolves db d'"
  by (erule evolves_trans) (simp add: evolves_def rows_evolve_subset)

lemma evolves_admit:
  assumes adm: "admit_steps H job now ex reusable ids [] (ad_steps request) db1 = Inr db2"
    and "core_inv db1" "job \<in> set (jobs db1)"
  shows "core_inv db2 \<and> evolves db1 db2"
  by (rule admit_steps_rule [where I = "evolves db1", OF adm assms(2) _ assms(3), where S = UNIV])
    (auto elim!: evolves_append dest!: copy_manifestD)

lemma evolves_cancel_job:
  assumes "core_inv db" "job \<in> set (jobs db)" "\<not> terminal_job (jr_state job)"
  shows "evolves db (cancel_job (jr_job_id job) now db)"
proof (rule evolves_job [OF _ cancel_job_jobs _ assms(2,1)])
  show "rows_evolve step_evolves (job_steps db) (job_steps (cancel_job (jr_job_id job) now db))"
    unfolding cancel_job_rows [OF assms(1)]
    by (rule rows_evolve_upd) (auto simp: step_evolves_def active_waiting)
qed (use assms in \<open>auto simp: job_evolves_def cancel_job_def Let_def\<close>)

lemma evolves_cancel_step:
  assumes "core_inv db" "row \<in> set (job_steps db)" "active_step (sr_state row)"
  shows "evolves db (cancel_step (sr_step_id row) now db)"
  by (rule evolves_row [OF assms(1,2) cancel_step_rows(1)]) (use assms in \<open>auto simp: step_evolves_def\<close>)

lemma evolves_terminal_failure:
  assumes inv: "core_inv db" and job: "running_job db job"
    and row: "row \<in> set (job_steps db)" "sr_job_id row = jr_job_id job" "active_step (sr_state row)"
    and db1: "job_steps db1 = job_steps db" "jobs db1 = jobs db" "artifact_manifests db1 = artifact_manifests db"
    and core: "core_inv (upd_step (sr_step_id row) (failed_row f now) db1)"
  shows "evolves db (terminal_failure row f now db1)"
proof (rule evolves_job [OF _ _ _ _ inv])
  have "r = row" if "r \<in> set (job_steps db)" "sr_step_id r = sr_step_id row" for r
    using distinct_key_eq [OF core_distinct(1) [OF inv] that(1) row(1) that(2)] .
  then have "rows_evolve step_evolves (job_steps db) (upd_where (\<lambda>r. sr_step_id r = sr_step_id row) (failed_row f now) (job_steps db))"
    by (intro rows_evolve_upd) (use row(3) in \<open>auto simp: step_evolves_def\<close>)
  moreover have "rows_evolve step_evolves rows (upd_where (\<lambda>r. sr_job_id r = sr_job_id row \<and> active_step (sr_state r)) (cancel_row now) rows)" for rows
    by (rule rows_evolve_upd) (auto simp: step_evolves_def)
  ultimately show "rows_evolve step_evolves (job_steps db) (job_steps (terminal_failure row f now db1))"
    unfolding terminal_failure_rows [OF core] db1 using rows_evolve_trans [of step_evolves] step_evolves_trans by blast
  show "jobs (terminal_failure row f now db1) = upd_where (\<lambda>r. jr_job_id r = jr_job_id job)
     (\<lambda>j. j\<lparr>jr_state := J_FAILED, jr_terminal_category := Some (fl_category f)\<rparr>) (jobs db)"
    by (simp add: terminal_failure_jobs row db1)
qed (use job in \<open>auto simp: running_job_def job_evolves_def terminal_failure_alt Let_def db1\<close>)

lemma evolves_event:
  assumes "ledger_event H st db db'" and inv: "core_inv db" "live_inv db"
  shows "evolves db db'"
  using assms(1)
proof cases
  case (ev_admit request job jid run now t reusable db1 ex ids db2 db3)
  note rule = admit_event_rule [OF inv(1) ev_admit(2,3,6,7,8)]
  have "core_inv db1" unfolding rule(4)
    by (rule core_insert_job) (use inv rule(3) admission_retry [OF ev_admit(2)] in \<open>auto simp: ev_admit(3)\<close>)
  then have "core_inv db2 \<and> evolves db1 db2" by (rule evolves_admit [OF ev_admit(7)]) (simp add: rule(4))
  then have "evolves db1 db3" using evolves_activate [OF ev_admit(8)] by blast
  moreover have "evolves db db1" by (simp add: rule(4) evolves_def rows_evolve_subset subset_insertI)
  ultimately have "evolves db db3" by (rule evolves_trans [rotated])
  then show ?thesis unfolding ev_admit(1) by (rule evolves_refresh) (use rule(3) in blast)
next
  case (ev_start job row now own)
  have "evolves db (start_attempt st row own now db)"
    by (rule evolves_row [OF inv(1) ev_start(3), where f = "running_row st own now row"])
      (use ev_start in \<open>auto simp: step_evolves_def\<close>)
  with ev_start inv show ?thesis by (auto intro!: evolves_refresh_running simp: running_job_def)
next
  case (ev_renew job row sid now)
  show ?thesis unfolding ev_renew(1)
    by (rule evolves_row [OF inv(1) ev_renew(3)]) (use ev_renew in \<open>auto simp: step_evolves_def\<close>)
next
  case (ev_commit job row l refs now db1)
  have "evolves db (accept_manifest l refs now db)"
    by (rule evolves_row [OF inv(1) ev_commit(3), where f = "succeeded_row now"])
      (use ev_commit in \<open>auto simp: step_evolves_def\<close>)
  then have "evolves db db1"
    using evolves_activate [OF ev_commit(11) core_accept [OF inv(1) ev_commit(3,6,5,7)]] by blast
  with ev_commit inv show ?thesis by (auto intro!: evolves_refresh_running simp: running_job_def)
next
  case (ev_retry job row f now retry_at started category)
  have "evolves db (enqueue (sr_step_id row) now retry_at
      (upd_step (sr_step_id row) (retry_row category retry_at) (finish_attempt row f now (Some retry_at) db)))"
    by (rule evolves_row [OF inv(1) ev_retry(3), where f = "retry_row category retry_at"])
      (use ev_retry in \<open>auto simp: step_evolves_def\<close>)
  with ev_retry inv show ?thesis by (auto intro!: evolves_refresh_running simp: running_job_def)
next
  case (ev_fail_running job row now g f)
  have "evolves db (terminal_failure row g now (finish_attempt row f now None db))"
    by (rule evolves_terminal_failure [OF inv(1) ev_fail_running(2-4)])
      (use ev_fail_running inv in \<open>auto intro: core_fail_running\<close>)
  with ev_fail_running inv show ?thesis by (auto intro!: evolves_refresh_running simp: running_job_def)
next
  case (ev_fail_waiting job row now)
  have "evolves db (terminal_failure row exhausted now db)"
    by (rule evolves_terminal_failure [OF inv(1) ev_fail_waiting(2-4)])
      (use ev_fail_waiting inv in \<open>auto intro: core_fail_waiting\<close>)
  with ev_fail_waiting inv show ?thesis by (auto intro!: evolves_refresh_running simp: running_job_def)
next
  case (ev_cancel job now)
  then show ?thesis using inv by (auto intro!: evolves_refresh_running evolves_cancel_job)
next
  case (ev_cancel_running job row now)
  have c: "evolves db (cancel_job (jr_job_id job) now db)"
    by (rule evolves_cancel_job) (use inv ev_cancel_running in \<open>auto simp: running_job_def\<close>)
  have "row \<in> set (job_steps (cancel_job (jr_job_id job) now db))"
    using ev_cancel_running(3,5) by (auto simp: cancel_job_rows [OF inv(1)] set_upd_where waiting_def image_iff intro!: bexI [of _ row])
  then have "evolves db (cancel_step (sr_step_id row) now (cancel_job (jr_job_id job) now db))"
    by (intro evolves_trans [OF c] evolves_cancel_step core_cancel_job [OF inv(1)]) (use ev_cancel_running in auto)
  with ev_cancel_running inv show ?thesis by (auto intro!: evolves_refresh_running simp: running_job_def)
next
  case (ev_settle job row now)
  have "row \<in> set (steps_of db (jr_job_id job))" using ev_settle by (simp add: steps_of_def)
  then have "\<not> terminal_job (jr_state job)" using live_pre [OF inv(2) ev_settle(2)] ev_settle(6) by (auto simp: pre_live_def)
  moreover have "evolves db (cancel_step (sr_step_id row) now db)"
    by (rule evolves_cancel_step [OF inv(1) ev_settle(4)]) (simp add: ev_settle(6))
  ultimately show ?thesis unfolding ev_settle(1) by (intro evolves_refresh_running inv(1) ev_settle(2))
qed (simp_all add: evolves_def rows_evolve_subset)

lemma evolves_events: "events H st db db' \<Longrightarrow> ledger_inv db \<Longrightarrow> evolves db db'"
proof (induction rule: rtranclp_induct)
  case (step y z)
  have "ledger_inv y" using events_inv step by blast
  then have "evolves y z" using evolves_event step.hyps(2) by (simp add: ledger_inv_def)
  with step show ?case by (auto intro: evolves_trans)
qed simp

end
