(* ===== verification/JobSamples.thy ===== *)
theory JobSamples
  imports LedgerHistory
begin

definition sample_scope :: scope where "sample_scope = \<lparr>tenant = 1, owner = 2\<rparr>"

definition sample_digest :: string where "sample_digest = replicate 64 CHR ''a''"

definition sample_version :: uuid where
  "sample_version = version_id sample_prims sample_scope 3 sample_digest"

definition sample_source :: object_ref where
  "sample_source = \<lparr>or_scope = sample_scope, or_kind = Source, or_object_id = sample_version,
     or_key = object_key sample_prims sample_scope Source sample_version, or_sha256 = sample_digest, or_byte_size = 10\<rparr>"

definition sample_retry :: retry_policy where
  "sample_retry = \<lparr>max_attempts = 2, base_seconds = 1, max_seconds = 60, budget_seconds = 3600, jitter_fraction = 0\<rparr>"

definition sample_profile :: processing_profile where
  "sample_profile = \<lparr>pf_version = ''p1'', pf_parser_version = ''q1'', pf_max_source_bytes = 100, pf_max_pages = 10,
     pf_max_characters = 100, pf_max_blocks = 10, pf_max_artifact_bytes = 100, pf_structure_required = False, pf_retry = sample_retry\<rparr>"

definition sample_spec :: "string \<Rightarrow> stage \<Rightarrow> string list \<Rightarrow> step_spec" where
  "sample_spec u s deps = \<lparr>sp_unit_id = u, sp_stage = s, sp_schema_version = ''s1'', sp_config_fingerprint = sample_digest, sp_depends_on = deps\<rparr>"

definition sample_admission :: admission where
  "sample_admission = \<lparr>ad_scope = sample_scope, ad_document_id = 3, ad_version_id = sample_version, ad_source = sample_source,
     ad_request_key = ''r1'', ad_display_filename = ''a.txt'', ad_mime = Text_plain, ad_profile = sample_profile,
     ad_steps = [sample_spec ''x'' EXTRACTING []], ad_resume_from = None\<rparr>"


definition sample_settings :: job_settings where
  "sample_settings = \<lparr>st_lease_seconds = 30, st_redelivery_seconds = 30, st_orphan_grace_seconds = 60\<rparr>"

lemmas sample_defs = sample_scope_def sample_version_def sample_source_def sample_retry_def sample_profile_def
  sample_spec_def sample_admission_def sample_settings_def

lemma sample_digest_text [simp]: "digest_text sample_digest" by code_simp

lemma sample_tokens [simp]:
  "token_text 128 ''r1''" "token_text 128 ''p1''" "token_text 128 ''q1''" "token_text 128 ''s1''"
  "token_text 128 ''x''" "token_text 128 ''w1''"
  by code_simp+

lemma sample_valid: "admission_valid sample_prims sample_admission"
  by (simp add: admission_valid_def sample_defs object_ref_valid_def object_key_def version_id_def profile_valid_def
     retry_valid_def spec_valid_def)

definition sample_artifact :: object_ref where
  "sample_artifact = \<lparr>or_scope = sample_scope, or_kind = Artifact, or_object_id = 20, or_key = 7,
     or_sha256 = sample_digest, or_byte_size = 1\<rparr>"

definition sample_job :: "job_state \<Rightarrow> progress \<Rightarrow> time \<Rightarrow> job_row" where
  "sample_job s p t = (new_job sample_prims 10 11 sample_admission 0 0 1)\<lparr>jr_state := s, jr_progress := p, jr_updated_at := t\<rparr>"

definition sample_row :: step_row where
  "sample_row = (planned_step sample_prims (sample_job J_QUEUED (progress_of []) 0) 12 (sample_spec ''x'' EXTRACTING []) 0 0)
     \<lparr>sr_state := S_READY\<rparr>"

definition sample_running_row :: step_row where
  "sample_running_row = sample_row\<lparr>sr_state := S_RUNNING, sr_attempt_count := 1, sr_fence := 1,
     sr_lease_owner := Some ''w1'', sr_lease_expires_at := Some 30000001, sr_started_at := Some 1\<rparr>"

definition sample_done_row :: step_row where
  "sample_done_row = sample_running_row\<lparr>sr_state := S_SUCCEEDED, sr_finished_at := Some 3,
     sr_lease_owner := None, sr_lease_expires_at := None\<rparr>"

definition sample_dispatch_row :: outbox_row where
  "sample_dispatch_row = \<lparr>ob_dispatch_id = 1, ob_step_id = 12, ob_created_at = 0, ob_available_at = 0, ob_delivered_at = None\<rparr>"

definition sample_attempt :: attempt_row where
  "sample_attempt = \<lparr>at_step_id = 12, at_number = 1, at_worker = ''w1'', at_fence = 1, at_started_at = 1, at_finished_at = None,
     at_outcome = S_RUNNING, at_category = None, at_classification = None, at_not_before = None\<rparr>"

definition sample_lease :: lease where
  "sample_lease = \<lparr>ls_scope = sample_scope, ls_job_id = 10, ls_step_id = 12, ls_owner = ''w1'', ls_fence = 1\<rparr>"

definition sample_intent :: intent_row where
  "sample_intent = \<lparr>it_step_id = 12, it_object_key = 7, it_ref = sample_artifact, it_created_at = 2\<rparr>"

definition sample_progress :: "nat \<Rightarrow> nat \<Rightarrow> nat \<Rightarrow> stage option \<Rightarrow> progress" where
  "sample_progress c r p s = \<lparr>pg_total = 1, pg_completed = c, pg_running = r, pg_retrying = 0, pg_failed = 0, pg_cancelled = 0,
     pg_pending = p, pg_current_stage = s\<rparr>"

definition sample_queued :: ledger where
  "sample_queued = \<lparr>jobs = [sample_job J_QUEUED (sample_progress 0 0 1 None) 0], job_steps = [sample_row],
     step_attempts = [], artifact_manifests = [], manifest_objects = [], outbox = [sample_dispatch_row], outbox_sequence = 1,
     dead_letter_rows = [], object_intents = []\<rparr>"

definition sample_running :: ledger where
  "sample_running = sample_queued\<lparr>jobs := [sample_job J_EXTRACTING (sample_progress 0 1 0 (Some EXTRACTING)) 1],
     job_steps := [sample_running_row], step_attempts := [sample_attempt]\<rparr>"

definition sample_registered :: ledger where
  "sample_registered = sample_running\<lparr>object_intents := [sample_intent]\<rparr>"

definition sample_done :: ledger where
  "sample_done = sample_registered\<lparr>jobs := [sample_job J_COMPLETED (sample_progress 1 0 0 None) 3],
     job_steps := [sample_done_row], step_attempts := [sample_attempt\<lparr>at_outcome := S_SUCCEEDED, at_finished_at := Some 3\<rparr>],
     artifact_manifests := [\<lparr>mf_step_id = 12, mf_manifest = [sample_artifact], mf_committed_at = 3, mf_fence = 1\<rparr>],
     manifest_objects := [(12, 7)]\<rparr>"

lemmas sample_rows = sample_job_def sample_row_def sample_running_row_def sample_done_row_def sample_dispatch_row_def
  sample_attempt_def sample_lease_def sample_intent_def sample_progress_def sample_queued_def sample_running_def
  sample_registered_def sample_done_def sample_artifact_def

lemmas sample_ops = resume_source_def insert_job_def Let_def reuse_candidate_def insert_step_def
   activate_def steps_of_def activate_step_def planned_step_def enqueue_def upd_step_def upd_attempt_def
   refresh_def upd_job_def ledger_job_def ledger_step_def new_job_def progress_of_def count_state_def current_stage_def
   refreshed_state_def step_key_def step_input_def compatibility_def execution_time_def next_generation_def

lemma sample_seconds [simp]: "timedelta_us 30 = 30000000" "timedelta_us 60 = 60000000" "timedelta_us 3600 = 3600000000" "timedelta_us 1 = 1000000"
  by (simp_all add: timedelta_us_def round_half_even_def)

lemma sample_admit:
  "admit sample_prims [10, 11, 12] sample_admission 0 empty_ledger = Inr (sample_job J_QUEUED (sample_progress 0 0 1 None) 0, sample_queued)"
  by (simp add: admit_def sample_valid empty_ledger_def) (simp add: sample_ops sample_defs sample_rows)

lemma sample_claim:
  "claim sample_prims sample_settings sample_scope 10 12 ''w1'' 1 sample_queued = Inr (Some sample_lease, sample_running)"
  by (simp add: claim_def terminal_job_def expired_def over_budget_def start_attempt_def add_seconds_def sample_ops sample_defs sample_rows)

lemma sample_register:
  "register_object sample_prims sample_lease sample_artifact 2 sample_running = Inr ((), sample_registered)"
  by (simp add: register_object_def terminal_job_def check_lease_def object_ref_valid_def object_key_def sample_ops sample_defs sample_rows)

lemma sample_commit:
  "commit sample_prims sample_lease [sample_artifact] 3 sample_registered = Inr ((sample_done_row, [sample_artifact]), sample_done)"
  by (simp add: commit_def terminal_job_def manifest_valid_def check_lease_def object_ref_valid_def object_key_def intended_def
      accept_manifest_def step_model_def manifest_of_def sample_ops sample_defs sample_rows)

lemma sample_reachable:
  "reachable (\<lambda>db. db = empty_ledger) (ledger_step_rel sample_prims sample_settings) sample_queued"
  "reachable (\<lambda>db. db = empty_ledger) (ledger_step_rel sample_prims sample_settings) sample_running"
  "reachable (\<lambda>db. db = empty_ledger) (ledger_step_rel sample_prims sample_settings) sample_registered"
  "reachable (\<lambda>db. db = empty_ledger) (ledger_step_rel sample_prims sample_settings) sample_done"
proof -
  let ?r = "reachable (\<lambda>db. db = empty_ledger) (ledger_step_rel sample_prims sample_settings)"
  have next_op: "?r db \<Longrightarrow> ledger_op sample_prims sample_settings c db = Inr db' \<Longrightarrow> ?r db'" for c db db'
    by (auto intro: reachable.step ledger_step_rel.call)
  have "?r empty_ledger" by (rule reachable.start) simp
  from next_op [OF this, of "Admit [10, 11, 12] sample_admission 0"] show q: "?r sample_queued"
    by (simp add: forget_def sample_admit)
  from next_op [OF q, of "Claim sample_scope 10 12 ''w1'' 1"] show r: "?r sample_running"
    by (simp add: forget_def sample_claim)
  from next_op [OF r, of "Register_object sample_lease sample_artifact 2"] show g: "?r sample_registered"
    by (simp add: forget_def sample_register)
  from next_op [OF g, of "Commit sample_lease [sample_artifact] 3"] show "?r sample_done"
    by (simp add: forget_def sample_commit)
qed

end
