(* ===== verification/LedgerTheorems.thy ===== *)
theory LedgerTheorems
  imports JobSamples
begin

text \<open>
  The properties of the job ledger over every history of calls that starts from the empty
  database, each with a concrete instance from JobSamples. The interpretations make the contracts
  of Prelude available for the ledger.
\<close>

abbreviation ledger_reachable :: "prims \<Rightarrow> job_settings \<Rightarrow> ledger \<Rightarrow> bool" where
  "ledger_reachable H st \<equiv> reachable (\<lambda>db. db = empty_ledger) (ledger_step_rel H st)"

abbreviation ledger_run :: "prims \<Rightarrow> job_settings \<Rightarrow> ledger \<Rightarrow> ledger \<Rightarrow> bool" where
  "ledger_run H st \<equiv> (ledger_step_rel H st)\<^sup>*\<^sup>*"

lemma ledger_inv_step: "ledger_inv db \<Longrightarrow> ledger_step_rel H st db db' \<Longrightarrow> ledger_inv db'"
  using ledger_step_events events_inv by blast

lemma step_lookup_evolves:
  assumes "ledger_inv s" "ledger_inv t" "evolves s t" and "find (\<lambda>r. sr_step_id r = k) (job_steps s) = Some r"
  shows "\<exists>r'. find (\<lambda>r. sr_step_id r = k) (job_steps t) = Some r' \<and> step_evolves r r'"
proof -
  from find_SomeD [OF assms(4)] have r: "r \<in> set (job_steps s)" "sr_step_id r = k" by auto
  with assms(3) obtain r' where r': "r' \<in> set (job_steps t)" "step_evolves r r'"
    by (auto simp: evolves_def rows_evolve_def)
  then have k: "sr_step_id r' = k" using r step_evolvesD(1) by metis
  then obtain r'' where f: "find (\<lambda>r. sr_step_id r = k) (job_steps t) = Some r''"
    using r' by (cases "find (\<lambda>r. sr_step_id r = k) (job_steps t)") (auto simp: find_None_iff)
  have "core_inv t" using assms(2) by (simp add: ledger_inv_def)
  then have "r'' = r'" using find_SomeD [OF f] r' k by (metis core_distinct(1) distinct_key_eq)
  with f r' show ?thesis by blast
qed

lemma job_lookup_evolves:
  assumes "ledger_inv s" "ledger_inv t" "evolves s t" and "find (\<lambda>j. jr_job_id j = k) (jobs s) = Some j"
  shows "\<exists>j'. find (\<lambda>j. jr_job_id j = k) (jobs t) = Some j' \<and> job_evolves j j'"
proof -
  from find_SomeD [OF assms(4)] have r: "j \<in> set (jobs s)" "jr_job_id j = k" by auto
  with assms(3) obtain j' where j': "j' \<in> set (jobs t)" "job_evolves j j'"
    by (auto simp: evolves_def rows_evolve_def)
  then have k: "jr_job_id j' = k" using r unfolding job_evolves_def by metis
  then obtain j'' where f: "find (\<lambda>j. jr_job_id j = k) (jobs t) = Some j''"
    using j' by (cases "find (\<lambda>j. jr_job_id j = k) (jobs t)") (auto simp: find_None_iff)
  have "core_inv t" using assms(2) by (simp add: ledger_inv_def)
  then have "j'' = j'" using find_SomeD [OF f] j' k the_job by metis
  with f j' show ?thesis by blast
qed

lemma step_evolves_rel: "ledger_inv s \<Longrightarrow> ledger_step_rel H st s t \<Longrightarrow> ledger_inv t \<and> evolves s t"
  using ledger_step_events evolves_events events_inv by blast

interpretation ledger_sys: invariant_system "\<lambda>db. db = empty_ledger" "ledger_step_rel H st" ledger_inv for H st
  by unfold_locales (auto simp: ledger_inv_empty intro: ledger_inv_step)

interpretation settled_steps: frozen_rows "\<lambda>db. db = empty_ledger" "ledger_step_rel H st" ledger_inv
  "\<lambda>db k. find (\<lambda>r. sr_step_id r = k) (job_steps db)" "\<lambda>r. \<not> active_step (sr_state r)" "\<lambda>r. r" for H st
proof
  fix s t k r
  assume "ledger_inv s" "ledger_step_rel H st s t" "find (\<lambda>r. sr_step_id r = k) (job_steps s) = Some r" "\<not> active_step (sr_state r)"
  then show "\<exists>r'. find (\<lambda>r. sr_step_id r = k) (job_steps t) = Some r' \<and> \<not> active_step (sr_state r') \<and> r' = r"
    using step_evolves_rel step_lookup_evolves step_evolvesD(7) by metis
qed

interpretation settled_jobs: frozen_rows "\<lambda>db. db = empty_ledger" "ledger_step_rel H st" ledger_inv
  "\<lambda>db k. find (\<lambda>j. jr_job_id j = k) (jobs db)" "\<lambda>j. terminal_job (jr_state j)" "\<lambda>j. j" for H st
proof
  fix s t k j
  assume "ledger_inv s" "ledger_step_rel H st s t" "find (\<lambda>j. jr_job_id j = k) (jobs s) = Some j" "terminal_job (jr_state j)"
  then show "\<exists>j'. find (\<lambda>j. jr_job_id j = k) (jobs t) = Some j' \<and> terminal_job (jr_state j') \<and> j' = j"
    using step_evolves_rel [of s H st t] job_lookup_evolves [of s t k j] unfolding job_evolves_def by metis
qed

lemma run_evolves: "ledger_run H st s t \<Longrightarrow> ledger_inv s \<Longrightarrow> ledger_inv t \<and> evolves s t"
proof (induction rule: rtranclp_induct)
  case (step y z)
  then show ?case using step_evolves_rel evolves_trans by blast
qed simp

section \<open>Properties\<close>

lemma reachable_row:
  assumes "ledger_reachable H st db" "r \<in> set (job_steps db)"
  shows "row_inv db r" "core_inv db" "live_inv db"
  using ledger_sys.reachable_inv [OF assms(1)] assms(2) core_row by (auto simp: ledger_inv_def)

text \<open>C1: every operation of the job ledger that succeeds in a reachable database is a sequence of the
  guarded events of the abstract machine: admission, start of an attempt, renewal, commit, retry,
  failure, cancellation, and entries of the logs.\<close>

theorem ledger_operations_refine_events:
  assumes "ledger_reachable H st db" and "ledger_op H st c db = Inr db'"
  shows "(ledger_event H st)\<^sup>*\<^sup>* db db'"
  using ledger_op_events [OF assms(2)] ledger_sys.reachable_inv [OF assms(1)] by blast

theorem ledger_operations_refine_events_witness:
  "(ledger_event sample_prims sample_settings)\<^sup>*\<^sup>* sample_registered sample_done \<and> sample_registered \<noteq> sample_done"
proof
  have "ledger_op sample_prims sample_settings (Commit sample_lease [sample_artifact] 3) sample_registered = Inr sample_done"
    by (simp add: forget_def sample_commit)
  with ledger_operations_refine_events [OF sample_reachable(3)]
  show "(ledger_event sample_prims sample_settings)\<^sup>*\<^sup>* sample_registered sample_done" by blast
qed (simp add: sample_rows)

text \<open>C21: a step never has more attempts than its job's retry policy allows; its attempt rows are numbered
  and fenced 1, 2, ... without gaps, their number is the attempt count of the step, and the fence of
  the step is that count.\<close>

theorem attempts_bounded:
  assumes "ledger_reachable H st db" and "r \<in> set (job_steps db)"
  shows "(\<exists>j \<in> set (jobs db). jr_job_id j = sr_job_id r \<and> int (sr_attempt_count r) \<le> max_attempts (pf_retry (ad_profile (jr_request j))))
    \<and> map at_number (filter (\<lambda>a. at_step_id a = sr_step_id r) (step_attempts db)) = [1..<Suc (sr_attempt_count r)]
    \<and> map at_fence (filter (\<lambda>a. at_step_id a = sr_step_id r) (step_attempts db)) = [1..<Suc (sr_attempt_count r)]
    \<and> sr_fence r = sr_attempt_count r"
  using reachable_row(1) [OF assms]
  by (auto simp: row_inv_def attempts_ok_def step_attempts_of_def count_ok_def policy_of_def)

theorem attempts_bounded_witness:
  "map at_fence (filter (\<lambda>a. at_step_id a = 12) (step_attempts sample_running)) = [1] \<and> sr_fence sample_running_row = 1"
  using attempts_bounded [OF sample_reachable(2), of sample_running_row]
  by (simp add: sample_rows planned_step_def)

text \<open>C22: a step that is ready, running, waiting for a retry or done has every step it depends on done, with an
  accepted manifest.\<close>

theorem dependencies_done_first:
  assumes "ledger_reachable H st db" and "r \<in> set (job_steps db)"
    and "sr_state r \<in> {S_READY, S_RUNNING, S_RETRY_WAIT, S_SUCCEEDED}"
  shows "\<forall>u \<in> set (sp_depends_on (sr_spec r)). \<exists>p \<in> set (job_steps db).
    sr_job_id p = sr_job_id r \<and> sr_unit_id p = u \<and> sr_state p = S_SUCCEEDED
    \<and> (\<exists>m \<in> set (artifact_manifests db). mf_step_id m = sr_step_id p)"
proof
  fix u assume "u \<in> set (sp_depends_on (sr_spec r))"
  with reachable_row(1) [OF assms(1,2)] assms(3) have "unit_succeeded db (sr_job_id r) u"
    by (auto simp: row_inv_def deps_ok_def started_state_def)
  then obtain p where p: "p \<in> set (job_steps db)" "sr_job_id p = sr_job_id r" "sr_unit_id p = u" "sr_state p = S_SUCCEEDED"
    by (auto simp: unit_succeeded_def)
  then have "has_manifest db (sr_step_id p)" using reachable_row(1) [OF assms(1), of p] by (simp add: row_inv_def)
  with p show "\<exists>p \<in> set (job_steps db). sr_job_id p = sr_job_id r \<and> sr_unit_id p = u \<and> sr_state p = S_SUCCEEDED
      \<and> (\<exists>m \<in> set (artifact_manifests db). mf_step_id m = sr_step_id p)"
    unfolding has_manifest_def by (metis imageE)
qed

theorem dependencies_done_first_witness:
  "sr_state sample_running_row = S_RUNNING \<and> list_all (\<lambda>u. unit_succeeded sample_running 10 u) (sp_depends_on (sr_spec sample_running_row))"
proof
  have row: "sample_running_row \<in> set (job_steps sample_running)" by (simp add: sample_rows)
  show st: "sr_state sample_running_row = S_RUNNING" by (simp add: sample_rows)
  have jid: "sr_job_id sample_running_row = 10" by (simp add: sample_rows)
  from dependencies_done_first [OF sample_reachable(2) row] st
  show "list_all (\<lambda>u. unit_succeeded sample_running 10 u) (sp_depends_on (sr_spec sample_running_row))"
    unfolding list_all_iff unit_succeeded_def jid by blast
qed

text \<open>A step is done exactly when its manifest was accepted, and it has one manifest.\<close>

theorem manifest_iff_succeeded:
  assumes "ledger_reachable H st db" and "r \<in> set (job_steps db)"
  shows "(sr_state r = S_SUCCEEDED \<longleftrightarrow> (\<exists>m \<in> set (artifact_manifests db). mf_step_id m = sr_step_id r))
    \<and> distinct (map mf_step_id (artifact_manifests db))"
proof
  have "sr_state r = S_SUCCEEDED \<longleftrightarrow> has_manifest db (sr_step_id r)"
    using reachable_row(1) [OF assms] by (simp add: row_inv_def)
  then show "sr_state r = S_SUCCEEDED \<longleftrightarrow> (\<exists>m \<in> set (artifact_manifests db). mf_step_id m = sr_step_id r)"
    unfolding has_manifest_def by (metis imageE imageI)
qed (rule core_foreign(3) [OF reachable_row(2) [OF assms]])

theorem manifest_iff_succeeded_witness:
  "sr_state sample_done_row = S_SUCCEEDED \<and> (\<exists>m \<in> set (artifact_manifests sample_done). mf_step_id m = 12)"
  using manifest_iff_succeeded [OF sample_reachable(4), of sample_done_row]
  by (simp add: sample_rows planned_step_def)

text \<open>The stored job row is a summary of its steps: the progress counters are exact, a terminal job has no
  active step, a completed job has only succeeded steps, only a failed job has a failed step, and a
  job whose cancellation was requested has no waiting step.\<close>

theorem job_row_summarises_steps:
  assumes "ledger_reachable H st db" and "j \<in> set (jobs db)"
  shows "jr_progress j = progress_of (steps_of db (jr_job_id j))
    \<and> (terminal_job (jr_state j) \<longrightarrow> (\<forall>r \<in> set (steps_of db (jr_job_id j)). \<not> active_step (sr_state r)))
    \<and> (jr_state j = J_COMPLETED \<longrightarrow> (\<forall>r \<in> set (steps_of db (jr_job_id j)). sr_state r = S_SUCCEEDED))
    \<and> (\<forall>r \<in> set (steps_of db (jr_job_id j)). sr_state r = S_FAILED \<longrightarrow> jr_state j = J_FAILED)
    \<and> (jr_cancel_requested j \<longrightarrow> (\<forall>r \<in> set (steps_of db (jr_job_id j)). sr_state r \<notin> {S_PENDING, S_READY, S_RETRY_WAIT}))"
proof -
  have "job_live (steps_of db (jr_job_id j)) j"
    using ledger_sys.reachable_inv [OF assms(1)] assms(2) by (simp add: ledger_inv_def live_inv_def)
  then show ?thesis by (simp add: job_live_def pre_live_def waiting_def)
qed

theorem job_row_summarises_steps_witness:
  "list_all (\<lambda>r. sr_state r = S_SUCCEEDED) (steps_of sample_done 10) \<and> steps_of sample_done 10 \<noteq> []"
  using job_row_summarises_steps [OF sample_reachable(4), of "sample_job J_COMPLETED (sample_progress 1 0 0 None) 3"]
  by (simp add: sample_rows planned_step_def new_job_def steps_of_def)

text \<open>C5: what is settled is final: along every continuation of a reachable history a settled step row, the row
  of a terminal job and an accepted manifest stay as they are.\<close>

theorem settled_rows_are_final:
  assumes "ledger_reachable H st db" and "ledger_run H st db db'"
  shows "(find (\<lambda>r. sr_step_id r = k) (job_steps db) = Some r \<and> \<not> active_step (sr_state r) \<longrightarrow>
      find (\<lambda>r. sr_step_id r = k) (job_steps db') = Some r)
    \<and> (find (\<lambda>j. jr_job_id j = k) (jobs db) = Some j \<and> terminal_job (jr_state j) \<longrightarrow>
      find (\<lambda>j. jr_job_id j = k) (jobs db') = Some j)
    \<and> set (artifact_manifests db) \<subseteq> set (artifact_manifests db')"
proof -
  have inv: "ledger_inv db" by (rule ledger_sys.reachable_inv [OF assms(1)])
  show ?thesis
    using settled_steps.frozen_run [OF assms(2) inv, of k r] settled_jobs.frozen_run [OF assms(2) inv, of k j]
      run_evolves [OF assms(2) inv] by (auto simp: evolves_def)
qed

theorem settled_rows_are_final_witness:
  "find (\<lambda>r. sr_step_id r = 12) (job_steps sample_done) = Some sample_done_row
    \<and> set (artifact_manifests sample_registered) \<subseteq> set (artifact_manifests sample_done)"
proof -
  have "ledger_step_rel sample_prims sample_settings sample_registered sample_done"
    by (rule ledger_step_rel.call [of _ _ "Commit sample_lease [sample_artifact] 3"]) (simp add: forget_def sample_commit)
  then have run: "ledger_run sample_prims sample_settings sample_registered sample_done" by (rule r_into_rtranclp)
  from settled_rows_are_final [OF sample_reachable(3) run]
    settled_rows_are_final [OF sample_reachable(4) rtranclp.rtrancl_refl, of 12 sample_done_row]
  show ?thesis by (simp add: sample_rows planned_step_def)
qed

text \<open>C2: a lease that is no longer current never becomes current again: once the step has moved past the
  fence of the lease, or is not running for it, every later lease check (of a commit, a renewal, a
  failure report, an object registration or a cancel settlement) is an error.\<close>

theorem stale_lease_stays_rejected:
  assumes "ledger_reachable H st db" and "ledger_run H st db db'"
    and "row \<in> set (job_steps db)" and "sr_step_id row = ls_step_id l" and "ls_fence l \<le> sr_fence row"
    and "\<not> (sr_state row = S_RUNNING \<and> sr_fence row = ls_fence l \<and> sr_lease_owner row = Some (ls_owner l))"
  shows "\<exists>e. check_lease db' l now settling = Inl e"
proof (cases "check_lease db' l now settling")
  case (Inr p)
  then obtain j r where l: "check_lease db' l now settling = Inr (j, r)" by (cases p) auto
  note d = check_leaseD [OF l]
  have inv: "ledger_inv db" by (rule ledger_sys.reachable_inv [OF assms(1)])
  from run_evolves [OF assms(2) inv] have inv': "core_inv db'" and ev: "evolves db db'" by (auto simp: ledger_inv_def)
  from ev assms(3) obtain r' where r': "r' \<in> set (job_steps db')" "step_evolves row r'"
    by (auto simp: evolves_def rows_evolve_def)
  have "sr_step_id r' = sr_step_id r" using step_evolvesD(1) [OF r'(2)] assms(4) d(4) by simp
  then have "r' = r" using distinct_key_eq [OF core_distinct(1) [OF inv'] r'(1) d(3)] by simp
  with r' have e: "step_evolves row r" by simp
  then have f: "sr_fence r = sr_fence row" using step_evolvesD(5) [OF e] d(7) assms(5) by simp
  from step_evolvesD(8) [OF e d(6) f] d(7,8) f assms(6) show ?thesis by simp
qed simp

theorem stale_lease_stays_rejected_witness:
  "\<exists>e. check_lease sample_done sample_lease 4 False = Inl e"
  by (rule stale_lease_stays_rejected [OF sample_reachable(4) rtranclp.rtrancl_refl, of sample_done_row])
    (simp_all add: sample_rows planned_step_def)

end
