(* ===== verification/LedgerIdentity.thy ===== *)
theory LedgerIdentity
  imports LedgerTheorems
begin

text \<open>
  Identities of the admitted jobs: scope, request key, fingerprint and request of a job row never
  change, the row agrees with its request, and no two jobs of a scope share a request key or a
  generation of a version. From this follow the idempotence of admission and what the relay of the
  outbox may rely on.
\<close>

definition job_ident :: "job_row \<Rightarrow> uuid \<times> uuid \<times> scope \<times> string \<times> string \<times> uuid \<times> nat \<times> admission" where
  "job_ident j = (jr_job_id j, jr_run_id j, jr_scope j, jr_request_key j, jr_fingerprint j, jr_version_id j, jr_generation j, jr_request j)"

lemma idents_upd: "(\<And>j. job_ident (f j) = job_ident j) \<Longrightarrow> map job_ident (upd_where P f js) = map job_ident js"
  by (rule map_upd_where)

lemma refresh_idents [simp]: "map job_ident (jobs (refresh jid now db)) = map job_ident (jobs db)"
  by (simp add: refresh_def Let_def idents_upd job_ident_def)

lemma cancel_job_idents [simp]: "map job_ident (jobs (cancel_job jid now db)) = map job_ident (jobs db)"
  by (simp add: cancel_job_jobs idents_upd job_ident_def)

lemma terminal_failure_idents [simp]: "map job_ident (jobs (terminal_failure row f now db)) = map job_ident (jobs db)"
  by (simp add: terminal_failure_jobs idents_upd job_ident_def)

lemma activate_jobs:
  assumes "activate H job now db = Inr db'" "core_inv db" shows "jobs db' = jobs db"
  using activate_rule [where I = "\<lambda>d. jobs d = jobs db", OF assms refl] by simp

lemma event_idents:
  assumes "ledger_event H st db db'" and inv: "core_inv db"
  shows "map job_ident (jobs db') = map job_ident (jobs db) \<or>
    (\<exists>jid run request now t job db1. admission_valid H request \<and> job = new_job H jid run request now t (next_generation db request)
       \<and> insert_job job db = Inr db1 \<and> map job_ident (jobs db') = map job_ident (jobs db) @ [job_ident job])"
  using assms(1)
proof cases
  case (ev_admit request job jid run now t reusable db1 ex ids db2 db3)
  note rule = admit_event_rule [OF inv ev_admit(2,3,6,7,8)]
  have "jobs db3 = jobs db @ [job]" using rule(2,4) by (simp add: quiet_def)
  then have "map job_ident (jobs db') = map job_ident (jobs db) @ [job_ident job]" by (simp add: ev_admit(1))
  with ev_admit(2,3,6) show ?thesis by blast
next
  case (ev_commit job row l refs now db1)
  have "jobs db1 = jobs db" using activate_jobs [OF ev_commit(11) core_accept [OF inv ev_commit(3,6,5,7)]] by simp
  then show ?thesis by (simp add: ev_commit(1))
qed simp_all

definition ident_inv :: "prims \<Rightarrow> ledger \<Rightarrow> bool" where
  "ident_inv H db \<longleftrightarrow> (\<forall>j \<in> set (jobs db). jr_scope j = ad_scope (jr_request j) \<and> jr_request_key j = ad_request_key (jr_request j)
       \<and> jr_fingerprint j = admission_digest H (jr_request j) \<and> jr_version_id j = ad_version_id (jr_request j)
       \<and> admission_valid H (jr_request j))
     \<and> distinct (map (\<lambda>j. (jr_scope j, jr_request_key j)) (jobs db))
     \<and> distinct (map (\<lambda>j. (jr_scope j, jr_version_id j, jr_generation j)) (jobs db))
     \<and> distinct (map jr_run_id (jobs db))"

definition ident_ok :: "prims \<Rightarrow> uuid \<times> uuid \<times> scope \<times> string \<times> string \<times> uuid \<times> nat \<times> admission \<Rightarrow> bool" where
  "ident_ok H k = (case k of (jid, run, sc, key, fp, v, g, request) \<Rightarrow> sc = ad_scope request \<and> key = ad_request_key request
     \<and> fp = admission_digest H request \<and> v = ad_version_id request \<and> admission_valid H request)"

definition request_slot :: "uuid \<times> uuid \<times> scope \<times> string \<times> string \<times> uuid \<times> nat \<times> admission \<Rightarrow> scope \<times> string" where
  "request_slot k = (case k of (jid, run, sc, key, fp, v, g, request) \<Rightarrow> (sc, key))"

definition version_slot :: "uuid \<times> uuid \<times> scope \<times> string \<times> string \<times> uuid \<times> nat \<times> admission \<Rightarrow> scope \<times> uuid \<times> nat" where
  "version_slot k = (case k of (jid, run, sc, key, fp, v, g, request) \<Rightarrow> (sc, v, g))"

definition run_slot :: "uuid \<times> uuid \<times> scope \<times> string \<times> string \<times> uuid \<times> nat \<times> admission \<Rightarrow> uuid" where
  "run_slot k = (case k of (jid, run, sc, key, fp, v, g, request) \<Rightarrow> run)"

definition idents_ok :: "prims \<Rightarrow> (uuid \<times> uuid \<times> scope \<times> string \<times> string \<times> uuid \<times> nat \<times> admission) list \<Rightarrow> bool" where
  "idents_ok H ks \<longleftrightarrow> list_all (ident_ok H) ks \<and> distinct (map request_slot ks) \<and> distinct (map version_slot ks) \<and> distinct (map run_slot ks)"

lemma ident_inv_alt: "ident_inv H db \<longleftrightarrow> idents_ok H (map job_ident (jobs db))"
  by (simp add: ident_inv_def idents_ok_def list_all_iff ident_ok_def job_ident_def comp_def request_slot_def version_slot_def run_slot_def)

lemma idents_ok_append:
  "idents_ok H ks \<Longrightarrow> ident_ok H k \<Longrightarrow> request_slot k \<notin> request_slot ` set ks \<Longrightarrow> version_slot k \<notin> version_slot ` set ks \<Longrightarrow>
     run_slot k \<notin> run_slot ` set ks \<Longrightarrow> idents_ok H (ks @ [k])"
  by (simp add: idents_ok_def)

lemma ident_inv_insert:
  assumes "ident_inv H db" "admission_valid H request" "job = new_job H jid run request now t g" "insert_job job db = Inr db1"
    and "map job_ident (jobs db') = map job_ident (jobs db) @ [job_ident job]"
  shows "ident_inv H db'"
  unfolding ident_inv_alt assms(5)
proof (rule idents_ok_append)
  have new: "\<not> (jr_run_id r = jr_run_id job \<or> (jr_scope r = jr_scope job \<and> jr_request_key r = jr_request_key job)
      \<or> (jr_scope r = jr_scope job \<and> jr_version_id r = jr_version_id job \<and> jr_generation r = jr_generation job))"
    if "r \<in> set (jobs db)" for r
    using assms(4) that by (auto simp: insert_job_def split: if_splits)
  show "idents_ok H (map job_ident (jobs db))" using assms(1) by (simp add: ident_inv_alt)
  show "ident_ok H (job_ident job)" using assms(2,3) by (simp add: ident_ok_def job_ident_def new_job_def)
  show "request_slot (job_ident job) \<notin> request_slot ` set (map job_ident (jobs db))"
    "version_slot (job_ident job) \<notin> version_slot ` set (map job_ident (jobs db))"
    "run_slot (job_ident job) \<notin> run_slot ` set (map job_ident (jobs db))"
    using new by (force simp: job_ident_def request_slot_def version_slot_def run_slot_def)+
qed

lemma ident_inv_event: "ledger_event H st db db' \<Longrightarrow> ledger_inv db \<Longrightarrow> ident_inv H db \<Longrightarrow> ident_inv H db'"
  using event_idents [of H st db db'] ident_inv_insert [of H db] ident_inv_alt [of H db] ident_inv_alt [of H db']
  unfolding ledger_inv_def by metis

definition full_inv :: "prims \<Rightarrow> ledger \<Rightarrow> bool" where
  "full_inv H db \<longleftrightarrow> ledger_inv db \<and> ident_inv H db"

lemma full_inv_events: "events H st db db' \<Longrightarrow> full_inv H db \<Longrightarrow> full_inv H db'"
  by (induction rule: rtranclp_induct) (auto simp: full_inv_def intro: ledger_inv_event ident_inv_event)

interpretation ledger_ident: invariant_system "\<lambda>db. db = empty_ledger" "ledger_step_rel H st" "full_inv H" for H st
proof
  show "db = empty_ledger \<Longrightarrow> full_inv H db" for db
    using ledger_inv_empty by (simp add: full_inv_def ident_inv_def) (simp add: empty_ledger_def)
  show "full_inv H s \<Longrightarrow> ledger_step_rel H st s t \<Longrightarrow> full_inv H t" for s t
    using ledger_step_events full_inv_events unfolding full_inv_def by blast
qed

section \<open>Properties\<close>

text \<open>C23: admission is idempotent: repeating an admitted request, at any later time and with any fresh identifiers,
  returns the job that the first call created and changes nothing; reusing its request key for a
  request with another fingerprint is an idempotency conflict that changes nothing.\<close>

theorem admit_idempotent:
  assumes "ledger_reachable H st db" and "admit H ids request now db = Inr (job, db1)" and "ledger_run H st db1 db2"
    and "admission_valid H other" and "ad_scope other = ad_scope request" and "ad_request_key other = ad_request_key request"
  shows "(admission_digest H other = admission_digest H request \<longrightarrow>
      (\<exists>job2. admit H ids2 other now2 db2 = Inr (job2, db2) \<and> jr_job_id job2 = jr_job_id job))
    \<and> (admission_digest H other \<noteq> admission_digest H request \<longrightarrow>
      admit H ids2 other now2 db2 = Inl ''idempotency_conflict'')"
proof -
  have inv: "full_inv H db" by (rule ledger_ident.reachable_inv [OF assms(1)])
  have e1: "events H st db db1" by (rule admit_events [OF assms(2)])
  have inv1: "full_inv H db1" by (rule full_inv_events [OF e1 inv])
  have inv2: "full_inv H db2" by (rule ledger_ident.run_inv [OF inv1 assms(3)])
  have job: "job \<in> set (jobs db1) \<and> jr_scope job = ad_scope request \<and> jr_request_key job = ad_request_key request
      \<and> jr_fingerprint job = admission_digest H request"
    using assms(2)
  proof (cases rule: admit_cases)
    case (new jid run step_ids reusable t job' ex db1' db2' db3')
    note r = ledger_jobD [OF new(9)]
    have c: "core_inv db" using inv by (simp add: full_inv_def ledger_inv_def)
    note rule = admit_event_rule [OF c new(1,2,5-7)]
    have "map job_ident (jobs db1) = map job_ident (jobs db @ [job'])"
      using rule(2,4) by (simp add: new(8) quiet_def)
    then obtain j where j: "j \<in> set (jobs db1)" "job_ident j = job_ident job'"
      using map_eq_member [of job_ident "jobs db @ [job']" "jobs db1" job'] by auto
    then have "jr_job_id j = jid" by (simp add: job_ident_def new(2))
    then have "j = job" using the_job [of db1 job j] inv1 r j by (simp add: full_inv_def ledger_inv_def)
    with j r show ?thesis by (simp add: job_ident_def new(2)) (simp add: new_job_def)
  qed auto
  then obtain j where j: "j \<in> set (jobs db2)" "job_evolves job j"
    using run_evolves [OF assms(3)] inv1 by (auto simp: full_inv_def evolves_def rows_evolve_def)
  with job have jk: "jr_job_id j = jr_job_id job" "jr_scope j = ad_scope other" "jr_request_key j = ad_request_key other"
    "jr_fingerprint j = admission_digest H request" using assms(5,6) unfolding job_evolves_def by metis+
  have "find (\<lambda>r. jr_scope r = ad_scope other \<and> jr_request_key r = ad_request_key other) (jobs db2) = Some j"
  proof (cases "find (\<lambda>r. jr_scope r = ad_scope other \<and> jr_request_key r = ad_request_key other) (jobs db2)")
    case None
    with j jk show ?thesis by (simp add: find_None_iff)
  next
    case (Some k)
    have "distinct (map (\<lambda>j. (jr_scope j, jr_request_key j)) (jobs db2))" using inv2 by (simp add: full_inv_def ident_inv_def)
    with find_SomeD [OF Some] j jk have "k = j"
      using distinct_key_eq [of "\<lambda>j. (jr_scope j, jr_request_key j)" "jobs db2" k j] by simp
    with Some show ?thesis by simp
  qed
  with jk assms(4) show ?thesis by (auto simp: admit_def)
qed

theorem admit_idempotent_witness:
  "\<exists>job2. admit sample_prims [] sample_admission 9 sample_done = Inr (job2, sample_done) \<and> jr_job_id job2 = 10"
proof -
  have step: "ledger_step_rel sample_prims sample_settings db db'" if "ledger_op sample_prims sample_settings c db = Inr db'" for c db db'
    using that by (rule ledger_step_rel.call)
  have "ledger_step_rel sample_prims sample_settings sample_queued sample_running"
    by (rule step [of "Claim sample_scope 10 12 ''w1'' 1"]) (simp add: forget_def sample_claim)
  moreover have "ledger_step_rel sample_prims sample_settings sample_running sample_registered"
    by (rule step [of "Register_object sample_lease sample_artifact 2"]) (simp add: forget_def sample_register)
  moreover have "ledger_step_rel sample_prims sample_settings sample_registered sample_done"
    by (rule step [of "Commit sample_lease [sample_artifact] 3"]) (simp add: forget_def sample_commit)
  ultimately have run: "ledger_run sample_prims sample_settings sample_queued sample_done"
    by (meson converse_rtranclp_into_rtranclp rtranclp.rtrancl_refl)
  have "ledger_reachable sample_prims sample_settings empty_ledger" by (rule reachable.start) simp
  from admit_idempotent [OF this sample_admit run sample_valid refl refl, of "[]" 9]
  show ?thesis by (simp add: sample_job_def)
qed

end
