(* ===== verification/Worker.thy ===== *)
theory Worker
  imports LedgerIdentity ObjectStore
begin

text \<open>
  Local dispatch and execution: documents/jobs/worker.py (the local dispatcher, the outbox relay,
  the intent-registering store and one round of a worker) and the admission service of
  documents/jobs/service.py. The world is the ledger, the object store and the queue of the local
  dispatcher. Each call of the ledger is a transaction of its own with its own clock reading, so an
  exception keeps what earlier calls did: results are pairs of an outcome and a world. The step
  handler and the failure classifier are arguments.
\<close>

record world =
  wd_ledger :: ledger
  wd_store :: obj_store
  wd_queue :: "dispatch list"

text \<open>Every error of the ledger is a \<open>JobError\<close>, except the missing key of \<open>_activate\<close>.\<close>

definition ledger_exn :: "string \<Rightarrow> exception_value" where
  "ledger_exn e = (if e = ''KeyError'' then Other_exception else Job_error e)"

section \<open>Local dispatcher and relay\<close>

definition send :: "dispatch \<Rightarrow> dispatch list \<Rightarrow> dispatch list" where
  "send m q = q @ [m]"

definition receive :: "dispatch list \<Rightarrow> dispatch option" where
  "receive q = (case q of [] \<Rightarrow> None | m # _ \<Rightarrow> Some m)"

definition acknowledge :: "dispatch \<Rightarrow> dispatch list \<Rightarrow> dispatch list" where
  "acknowledge m q = (if q \<noteq> [] \<and> hd q = m then tl q else q)"

fun relay_loop :: "(nat \<Rightarrow> time) \<Rightarrow> nat \<Rightarrow> dispatch list \<Rightarrow> ledger \<Rightarrow> dispatch list \<Rightarrow> (string + nat) \<times> ledger \<times> dispatch list" where
  "relay_loop t count [] db q = (Inr count, db, q)"
| "relay_loop t count (m # ms) db q =
     (case mark_delivered m (t (Suc count)) db of
        Inl e \<Rightarrow> (Inl e, db, send m q)
      | Inr (_, db') \<Rightarrow> relay_loop t (Suc count) ms db' (send m q))"

definition relay :: "(nat \<Rightarrow> time) \<Rightarrow> int \<Rightarrow> ledger \<Rightarrow> dispatch list \<Rightarrow> (string + nat) \<times> ledger \<times> dispatch list" where
  "relay t limit db q = (case pending_dispatch limit (t 0) db of
     Inl e \<Rightarrow> (Inl e, db, q) | Inr (ms, _) \<Rightarrow> relay_loop t 0 ms db q)"

section \<open>The intent store\<close>

definition intent_put :: "prims \<Rightarrow> (bytes \<Rightarrow> string) \<Rightarrow> lease \<Rightarrow> time \<Rightarrow> scope \<Rightarrow> object_kind \<Rightarrow> uuid \<Rightarrow> bytes \<Rightarrow> int \<Rightarrow> string option
    \<Rightarrow> world \<Rightarrow> (exception_value + object_ref) \<times> world" where
  "intent_put H sha l now sc kind oid stream m expected w =
     (if sc \<noteq> ls_scope l then (Inl (Job_error ''scope_mismatch''), w)
      else case read_loop m [] stream of
        Inl e \<Rightarrow> (Inl (Document_error e), w)
      | Inr data \<Rightarrow>
          if (case expected of None \<Rightarrow> False | Some e \<Rightarrow> e \<noteq> sha data) then (Inl (Document_error ''integrity_error''), w)
          else let ref = put_ref H sha sc kind oid data in
            (case register_object H l ref now (wd_ledger w) of
               Inl e \<Rightarrow> (Inl (ledger_exn e), w)
             | Inr (_, db) \<Rightarrow>
                 (let w1 = w\<lparr>wd_ledger := db\<rparr> in
                  case put_object H sha sc kind oid data m (Some (sha data)) (wd_store w1) of
                    Inl e \<Rightarrow> (Inl (Document_error e), w1)
                  | Inr (written, d) \<Rightarrow>
                      (if written \<noteq> ref then Inl (Document_error ''integrity_error'') else Inr written, w1\<lparr>wd_store := d\<rparr>))))"

definition intent_read :: "prims \<Rightarrow> (bytes \<Rightarrow> string) \<Rightarrow> lease \<Rightarrow> scope \<Rightarrow> object_ref \<Rightarrow> int \<Rightarrow> world \<Rightarrow> exception_value + bytes" where
  "intent_read H sha l sc ref m w =
     (if sc \<noteq> ls_scope l then Inl (Job_error ''scope_mismatch'')
      else case store_read H sha (wd_store w) sc ref m of Inl e \<Rightarrow> Inl (Document_error e) | Inr data \<Rightarrow> Inr data)"

definition intent_inspect :: "prims \<Rightarrow> (bytes \<Rightarrow> string) \<Rightarrow> lease \<Rightarrow> scope \<Rightarrow> object_ref \<Rightarrow> int \<Rightarrow> world \<Rightarrow> exception_value + object_ref" where
  "intent_inspect H sha l sc ref m w =
     (if sc \<noteq> ls_scope l then Inl (Job_error ''scope_mismatch'')
      else case store_inspect H sha (wd_store w) sc ref m of Inl e \<Rightarrow> Inl (Document_error e) | Inr r \<Rightarrow> Inr r)"

section \<open>One round of a worker\<close>

type_synonym handler = "job_row \<Rightarrow> step_row \<times> object_ref list \<Rightarrow> lease \<Rightarrow> world \<Rightarrow> (exception_value + object_ref list) \<times> world"

fun inspect_all :: "prims \<Rightarrow> (bytes \<Rightarrow> string) \<Rightarrow> lease \<Rightarrow> scope \<Rightarrow> int \<Rightarrow> world \<Rightarrow> object_ref list \<Rightarrow> exception_value + unit" where
  "inspect_all H sha l sc m w [] = Inr ()"
| "inspect_all H sha l sc m w (r # rs) = sbind (intent_inspect H sha l sc r m w) (\<lambda>_. inspect_all H sha l sc m w rs)"

definition settle_or_raise :: "lease \<Rightarrow> exception_value \<Rightarrow> time \<Rightarrow> world \<Rightarrow> exception_value option \<times> world" where
  "settle_or_raise l err now w =
     (if err = Job_error ''cancelled''
      then (case settle_cancel l now (wd_ledger w) of
              Inl e \<Rightarrow> (if e \<in> {''stale_fence'', ''invalid_transition''} then None else Some (ledger_exn e), w)
            | Inr (_, db) \<Rightarrow> (None, w\<lparr>wd_ledger := db\<rparr>))
      else if err \<in> {Job_error ''stale_fence'', Job_error ''lease_expired'', Job_error ''invalid_transition''} then (None, w)
      else (Some err, w))"

definition report :: "prims \<Rightarrow> (exception_value \<Rightarrow> failure) \<Rightarrow> lease \<Rightarrow> (nat \<Rightarrow> time) \<Rightarrow> exception_value + object_ref list \<Rightarrow> world
    \<Rightarrow> exception_value option \<times> world" where
  "report H classifier l t outcome w =
     (case outcome of
        Inl exn \<Rightarrow> (case fail H l (classifier exn) (t 1) (wd_ledger w) of
            Inl e \<Rightarrow> settle_or_raise l (ledger_exn e) (t 2) w
          | Inr (_, db) \<Rightarrow> (None, w\<lparr>wd_ledger := db\<rparr>))
      | Inr manifest \<Rightarrow> (case commit H l manifest (t 1) (wd_ledger w) of
            Inl e \<Rightarrow> settle_or_raise l (ledger_exn e) (t 2) w
          | Inr (_, db) \<Rightarrow> (None, w\<lparr>wd_ledger := db\<rparr>)))"

definition execute :: "prims \<Rightarrow> (bytes \<Rightarrow> string) \<Rightarrow> handler \<Rightarrow> (exception_value \<Rightarrow> failure) \<Rightarrow> dispatch \<Rightarrow> lease \<Rightarrow> (nat \<Rightarrow> time) \<Rightarrow> world
    \<Rightarrow> exception_value option \<times> world" where
  "execute H sha handler classifier m l t w =
     (case get_job (dp_scope m) (dp_job_id m) (wd_ledger w) of
        Inl e \<Rightarrow> (Some (ledger_exn e), w)
      | Inr (job, _) \<Rightarrow> (case steps (dp_scope m) (dp_job_id m) (wd_ledger w) of
          Inl e \<Rightarrow> (Some (ledger_exn e), w)
        | Inr (models, _) \<Rightarrow> (case find (\<lambda>s. sr_step_id (fst s) = dp_step_id m) models of
            None \<Rightarrow> (Some Other_exception, w)
          | Some step \<Rightarrow> (case handler job step l w of (outcome, w1) \<Rightarrow>
              report H classifier l t (sbind outcome (\<lambda>manifest.
                sbind (inspect_all H sha l (dp_scope m) (pf_max_artifact_bytes (ad_profile (jr_request job))) w1 manifest)
                  (\<lambda>_. Inr manifest))) w1))))"

definition once :: "prims \<Rightarrow> (bytes \<Rightarrow> string) \<Rightarrow> job_settings \<Rightarrow> handler \<Rightarrow> (exception_value \<Rightarrow> failure) \<Rightarrow> string \<Rightarrow> (nat \<Rightarrow> time) \<Rightarrow> world
    \<Rightarrow> (exception_value + bool) \<times> world" where
  "once H sha st handler classifier own t w =
     (case receive (wd_queue w) of
        None \<Rightarrow> (Inr False, w)
      | Some m \<Rightarrow> (case claim H st (dp_scope m) (dp_job_id m) (dp_step_id m) own (t 0) (wd_ledger w) of
          Inl e \<Rightarrow> (Inl (ledger_exn e), w)
        | Inr (claimed, db) \<Rightarrow>
            (case (case claimed of None \<Rightarrow> (None, w\<lparr>wd_ledger := db\<rparr>)
                   | Some l \<Rightarrow> execute H sha handler classifier m l t (w\<lparr>wd_ledger := db\<rparr>)) of
               (Some e, w') \<Rightarrow> (Inl e, w')
             | (None, w') \<Rightarrow> (Inr True, w'\<lparr>wd_queue := acknowledge m (wd_queue w')\<rparr>))))"

section \<open>The admission service\<close>

fun inspect_refs :: "prims \<Rightarrow> (bytes \<Rightarrow> string) \<Rightarrow> scope \<Rightarrow> int \<Rightarrow> obj_store \<Rightarrow> object_ref list \<Rightarrow> exception_value + unit" where
  "inspect_refs H sha sc m d [] = Inr ()"
| "inspect_refs H sha sc m d (r # rs) = (case store_inspect H sha d sc r m of
     Inl e \<Rightarrow> Inl (Document_error e)
   | Inr r' \<Rightarrow> if r' \<noteq> r then Inl (Document_error ''integrity_error'') else inspect_refs H sha sc m d rs)"

fun verify_reuse :: "prims \<Rightarrow> (bytes \<Rightarrow> string) \<Rightarrow> admission \<Rightarrow> obj_store \<Rightarrow> (step_row \<times> object_ref list) list \<Rightarrow> string list \<Rightarrow> step_spec list
    \<Rightarrow> exception_value + unit" where
  "verify_reuse H sha request d old reusable [] = Inr ()"
| "verify_reuse H sha request d old reusable (spec # specs) =
     (case find (\<lambda>s. sp_unit_id (sr_spec (fst s)) = sp_unit_id spec) old of
        Some (row, manifest) \<Rightarrow>
          if sr_state row = S_SUCCEEDED \<and> sr_spec row = spec \<and> set (sp_depends_on spec) \<subseteq> set reusable
          then sbind (inspect_refs H sha (ad_scope request) (pf_max_artifact_bytes (ad_profile request)) d manifest)
                 (\<lambda>_. verify_reuse H sha request d old (sp_unit_id spec # reusable) specs)
          else verify_reuse H sha request d old reusable specs
      | None \<Rightarrow> verify_reuse H sha request d old reusable specs)"

definition lift_job :: "string + 'a \<Rightarrow> exception_value + 'a" where
  "lift_job r = (case r of Inl e \<Rightarrow> Inl (ledger_exn e) | Inr x \<Rightarrow> Inr x)"

definition service_admit :: "prims \<Rightarrow> (bytes \<Rightarrow> string) \<Rightarrow> uuid list \<Rightarrow> admission \<Rightarrow> time \<Rightarrow> obj_store \<Rightarrow> (exception_value, ledger, job_row) txn" where
  "service_admit H sha ids request now d db =
     (if \<not> admission_valid H request then Inl (Job_error ''invalid_configuration'')
      else case store_inspect H sha d (ad_scope request) (ad_source request) (pf_max_source_bytes (ad_profile request)) of
        Inl e \<Rightarrow> Inl (Document_error e)
      | Inr verified \<Rightarrow>
          if verified \<noteq> ad_source request then Inl (Document_error ''integrity_error'')
          else sbind (case ad_resume_from request of
                 None \<Rightarrow> Inr ()
               | Some prior_id \<Rightarrow> sbind (lift_job (get_job (ad_scope request) prior_id db)) (\<lambda>(prior, _).
                   if compatibility H (jr_request prior) = compatibility H request
                   then sbind (lift_job (steps (ad_scope request) (jr_job_id prior) db)) (\<lambda>(models, _).
                          verify_reuse H sha request d models [] (ad_steps request))
                   else Inr ()))
            (\<lambda>_. lift_job (admit H ids request now db)))"

section \<open>The dispatcher as a queue\<close>

text \<open>
  The contract of a work dispatcher: what is received is the oldest message that was sent and not
  acknowledged, and only the acknowledgement of that message removes it.
\<close>

locale dispatcher =
  fixes send_op :: "'m \<Rightarrow> 'q \<Rightarrow> 'q" and receive_op :: "'q \<Rightarrow> 'm option" and ack_op :: "'m \<Rightarrow> 'q \<Rightarrow> 'q"
    and pending :: "'q \<Rightarrow> 'm list"
  assumes pending_send: "pending (send_op m q) = pending q @ [m]"
    and receive_pending: "receive_op q = (case pending q of [] \<Rightarrow> None | m # _ \<Rightarrow> Some m)"
    and pending_ack: "receive_op q = Some m \<Longrightarrow> pending (ack_op m q) = tl (pending q)"
    and ack_other: "receive_op q \<noteq> Some m \<Longrightarrow> pending (ack_op m q) = pending q"
begin

lemma pending_sends: "pending (fold send_op ms q) = pending q @ ms"
  by (induction ms arbitrary: q) (simp_all add: pending_send)

lemma redelivered_until_ack: "receive_op q = Some m \<Longrightarrow> m' \<noteq> m \<Longrightarrow> receive_op (ack_op m' q) = Some m"
  by (simp add: receive_pending ack_other)

end

interpretation local_queue: dispatcher send receive acknowledge "\<lambda>q. q"
  by unfold_locales (auto simp: send_def receive_def acknowledge_def split: list.splits)

section \<open>Relay\<close>

lemma mark_delivered_ok:
  assumes "ident_inv H db" "b \<in> set (outbox db)" "make_dispatch db b = Some d" "core_inv db"
  shows "\<exists>db'. mark_delivered d now db = Inr ((), db')"
proof -
  from assms(3) obtain s j where s: "find (\<lambda>s. sr_step_id s = ob_step_id b) (job_steps db) = Some s"
    and j: "find (\<lambda>j. jr_job_id j = sr_job_id s) (jobs db) = Some j"
    and d: "d = \<lparr>dp_dispatch_id = ob_dispatch_id b, dp_scope = ad_scope (jr_request j), dp_job_id = jr_job_id j, dp_step_id = sr_step_id s\<rparr>"
    by (auto simp: make_dispatch_def step_of_outbox_def job_of_step_def split: option.splits)
  note s' = find_SomeD [OF s] and j' = find_SomeD [OF j]
  have "jr_scope j = ad_scope (jr_request j)" using assms(1) j' by (simp add: ident_inv_def)
  then have "\<exists>r. ledger_job db (dp_scope d) (dp_job_id d) = Inr r"
    using j' by (auto simp: ledger_job_def d find_None_iff split: option.splits)
  moreover have "\<exists>r. ledger_step db (dp_job_id d) (dp_step_id d) = Inr r"
    using s' j' by (auto simp: ledger_step_def d find_None_iff split: option.splits)
  moreover have "list_ex (\<lambda>b'. ob_dispatch_id b' = dp_dispatch_id d \<and> ob_step_id b' = dp_step_id d) (outbox db)"
    using assms(2) s' by (auto simp: list_ex_iff d)
  ultimately show ?thesis by (auto simp: mark_delivered_def Let_def)
qed

lemma mark_delivered_frame:
  assumes "mark_delivered d now db = Inr ((), db')"
  shows "jobs db' = jobs db" "job_steps db' = job_steps db" "map ob_step_id (outbox db') = map ob_step_id (outbox db)"
    "map (\<lambda>b. (ob_dispatch_id b, ob_step_id b)) (outbox db') = map (\<lambda>b. (ob_dispatch_id b, ob_step_id b)) (outbox db)"
  using assms by (auto simp: mark_delivered_def txn_simps Let_def map_upd_where split: if_splits)

lemma make_dispatch_cong:
  "jobs db' = jobs db \<Longrightarrow> job_steps db' = job_steps db \<Longrightarrow> ob_dispatch_id b' = ob_dispatch_id b \<Longrightarrow> ob_step_id b' = ob_step_id b \<Longrightarrow>
     make_dispatch db' b' = make_dispatch db b"
  by (simp add: make_dispatch_def step_of_outbox_def job_of_step_def split: option.splits)

lemma relay_loop_total:
  assumes "full_inv H db" and "\<forall>m \<in> set ms. \<exists>b \<in> set (outbox db). make_dispatch db b = Some m"
  shows "\<exists>db'. relay_loop t count ms db q = (Inr (count + length ms), db', q @ ms) \<and> events H st db db'"
  using assms
proof (induction ms arbitrary: count db q)
  case (Cons m ms)
  from Cons.prems(2) obtain b where b: "b \<in> set (outbox db)" "make_dispatch db b = Some m" by auto
  obtain db1 where m: "mark_delivered m (t (Suc count)) db = Inr ((), db1)"
    using mark_delivered_ok [OF _ b] Cons.prems(1) by (auto simp: full_inv_def ledger_inv_def)
  note fr = mark_delivered_frame [OF m]
  have e: "events H st db db1" by (rule mark_delivered_events [OF m])
  have "\<exists>b' \<in> set (outbox db1). make_dispatch db1 b' = Some m'" if m': "m' \<in> set ms" for m'
  proof -
    from Cons.prems(2) m' obtain b where b: "b \<in> set (outbox db)" "make_dispatch db b = Some m'" by auto
    obtain b' where b': "b' \<in> set (outbox db1)" "(ob_dispatch_id b', ob_step_id b') = (ob_dispatch_id b, ob_step_id b)"
      using map_eq_member [OF fr(4) [symmetric] b(1)] by auto
    then have "make_dispatch db1 b' = Some m'" using make_dispatch_cong [OF fr(1,2), of b' b] b(2) by simp
    with b'(1) show ?thesis by blast
  qed
  from Cons.IH [OF full_inv_events [OF e Cons.prems(1)], of "Suc count" "send m q"] this e m
  show ?case by (auto simp: send_def)
qed simp

text \<open>The relay of the outbox never fails on a reachable ledger: it sends every due dispatch in order to the
  end of the queue, returns their number, and changes the ledger only by delivery marks.\<close>

theorem relay_sends_all_due:
  assumes "ledger_reachable H st db" and "pending_dispatch limit (t 0) db = Inr (ms, db0)"
  shows "\<exists>db'. relay t limit db q = (Inr (length ms), db', q @ ms) \<and> (ledger_event H st)\<^sup>*\<^sup>* db db'"
proof -
  have "\<forall>m \<in> set ms. \<exists>b \<in> set (outbox db). make_dispatch db b = Some m"
    using assms(2) by (auto simp: pending_dispatch_def txn_simps List.map_filter_def dest!: in_set_takeD) blast
  from relay_loop_total [OF ledger_ident.reachable_inv [OF assms(1)] this, of t 0 q st] assms(2)
  show ?thesis by (auto simp: relay_def)
qed

lemma sample_pending:
  "pending_dispatch 5 0 sample_queued = Inr ([\<lparr>dp_dispatch_id = 1, dp_scope = sample_scope, dp_job_id = 10, dp_step_id = 12\<rparr>], sample_queued)"
  by (simp add: pending_dispatch_def bounded_def outbox_due_def step_of_outbox_def dispatchable_def job_of_step_def make_dispatch_def
      List.map_filter_def sample_rows sample_defs planned_step_def new_job_def)

theorem relay_sends_all_due_witness:
  "\<exists>db'. relay (\<lambda>_. 0) 5 sample_queued [] = (Inr 1, db', [\<lparr>dp_dispatch_id = 1, dp_scope = sample_scope, dp_job_id = 10, dp_step_id = 12\<rparr>])"
  using relay_sends_all_due [OF sample_reachable(1), of 5 "\<lambda>_. 0" "[\<lparr>dp_dispatch_id = 1, dp_scope = sample_scope, dp_job_id = 10, dp_step_id = 12\<rparr>]" sample_queued "[]"]
    sample_pending by auto

section \<open>Worker rounds\<close>

text \<open>A handler reaches the ledger only through ledger operations; other processes may act meanwhile.\<close>

definition well_behaved :: "prims \<Rightarrow> job_settings \<Rightarrow> handler \<Rightarrow> bool" where
  "well_behaved H st handler \<longleftrightarrow> (\<forall>job step l w. (ledger_step_rel H st)\<^sup>*\<^sup>* (wd_ledger w) (wd_ledger (snd (handler job step l w)))
     \<and> wd_queue (snd (handler job step l w)) = wd_queue w)"

lemma ledger_call_run:
  "ledger_op H st c db = Inr db' \<Longrightarrow> (ledger_step_rel H st)\<^sup>*\<^sup>* db db'"
  by (auto intro: ledger_step_rel.call)

lemma op_runs:
  "claim H st sc jid sid own now db = Inr (x, db') \<Longrightarrow> (ledger_step_rel H st)\<^sup>*\<^sup>* db db'"
  "fail H l f now db = Inr (y, db') \<Longrightarrow> (ledger_step_rel H st)\<^sup>*\<^sup>* db db'"
  "commit H l refs now db = Inr (z, db') \<Longrightarrow> (ledger_step_rel H st)\<^sup>*\<^sup>* db db'"
  "settle_cancel l now db = Inr (y, db') \<Longrightarrow> (ledger_step_rel H st)\<^sup>*\<^sup>* db db'"
  using ledger_call_run [of H st "Claim sc jid sid own now" db db'] ledger_call_run [of H st "Fail l f now" db db']
    ledger_call_run [of H st "Commit l refs now" db db'] ledger_call_run [of H st "Settle_cancel l now" db db']
  by (simp_all add: forget_def)

lemma settle_run:
  assumes "settle_or_raise l err now w = (r, w')"
  shows "(ledger_step_rel H st)\<^sup>*\<^sup>* (wd_ledger w) (wd_ledger w') \<and> wd_queue w' = wd_queue w"
  using assms op_runs(4) by (auto simp: settle_or_raise_def split: if_splits sum.splits prod.splits)

lemma report_run:
  assumes "report H classifier l t outcome w = (r, w')"
  shows "(ledger_step_rel H st)\<^sup>*\<^sup>* (wd_ledger w) (wd_ledger w') \<and> wd_queue w' = wd_queue w"
proof (cases outcome)
  case (Inl exn)
  show ?thesis
  proof (cases "fail H l (classifier exn) (t 1) (wd_ledger w)")
    case (Inl e)
    with assms \<open>outcome = Inl exn\<close> settle_run [of l "ledger_exn e" "t 2" w r w'] show ?thesis by (simp add: report_def)
  next
    case (Inr p)
    with assms \<open>outcome = Inl exn\<close> op_runs(2) [of H l "classifier exn" "t 1" "wd_ledger w" "fst p" "snd p"]
    show ?thesis by (auto simp: report_def split: prod.splits)
  qed
next
  case (Inr refs)
  show ?thesis
  proof (cases "commit H l refs (t 1) (wd_ledger w)")
    case (Inl e)
    with assms \<open>outcome = Inr refs\<close> settle_run [of l "ledger_exn e" "t 2" w r w'] show ?thesis by (simp add: report_def)
  next
    case (Inr p)
    with assms \<open>outcome = Inr refs\<close> op_runs(3) [of H l refs "t 1" "wd_ledger w" "fst p" "snd p"]
    show ?thesis by (auto simp: report_def split: prod.splits)
  qed
qed

lemma execute_run:
  assumes "execute H sha handler classifier m l t w = (r, w')" and "well_behaved H st handler"
  shows "(ledger_step_rel H st)\<^sup>*\<^sup>* (wd_ledger w) (wd_ledger w') \<and> wd_queue w' = wd_queue w"
proof -
  have h: "(ledger_step_rel H st)\<^sup>*\<^sup>* (wd_ledger w) (wd_ledger w1) \<and> wd_queue w1 = wd_queue w"
    if "handler job step l w = (outcome, w1)" for job step outcome w1
    using assms(2) that unfolding well_behaved_def by (metis snd_conv)
  from assms(1) show ?thesis
    by (auto simp: execute_def split: sum.splits prod.splits option.splits dest!: h report_run [where st = st] intro: rtranclp_trans)
qed

lemma once_run:
  assumes "once H sha st handler classifier own t w = (r, w')" and "well_behaved H st handler"
  shows "(ledger_step_rel H st)\<^sup>*\<^sup>* (wd_ledger w) (wd_ledger w')
    \<and> wd_queue w' = (case r of Inr True \<Rightarrow> tl (wd_queue w) | _ \<Rightarrow> wd_queue w)"
proof (cases "wd_queue w")
  case Nil
  with assms(1) show ?thesis by (auto simp: once_def receive_def)
next
  case (Cons m q)
  show ?thesis
  proof (cases "claim H st (dp_scope m) (dp_job_id m) (dp_step_id m) own (t 0) (wd_ledger w)")
    case (Inl e)
    with assms(1) Cons show ?thesis by (auto simp: once_def receive_def)
  next
    case (Inr p)
    obtain claimed db where p: "p = (claimed, db)" by (cases p)
    have run: "(ledger_step_rel H st)\<^sup>*\<^sup>* (wd_ledger w) db"
      using op_runs(1) Inr p by blast
    let ?x = "case claimed of None \<Rightarrow> (None, w\<lparr>wd_ledger := db\<rparr>) | Some l \<Rightarrow> execute H sha handler classifier m l t (w\<lparr>wd_ledger := db\<rparr>)"
    obtain e w1 where x: "?x = (e, w1)" by (cases ?x)
    have r1: "(ledger_step_rel H st)\<^sup>*\<^sup>* db (wd_ledger w1) \<and> wd_queue w1 = wd_queue w"
      using x execute_run [of H sha handler classifier m _ t "w\<lparr>wd_ledger := db\<rparr>" e w1, OF _ assms(2)]
      by (cases claimed) auto
    from assms(1) Cons Inr p x have "r = (case e of None \<Rightarrow> Inr True | Some e \<Rightarrow> Inl e)"
      "w' = (case e of None \<Rightarrow> w1\<lparr>wd_queue := acknowledge m (wd_queue w1)\<rparr> | Some e \<Rightarrow> w1)"
      by (auto simp: once_def receive_def split: option.splits)
    with r1 run Cons show ?thesis by (auto simp: acknowledge_def split: option.splits)
  qed
qed

text \<open>With such a handler the rounds keep the ledger in its reachable states.\<close>

lemma worker_round_reachable:
  assumes "ledger_reachable H st (wd_ledger w)" and "well_behaved H st handler"
    and "once H sha st handler classifier own t w = (r, w')"
  shows "ledger_reachable H st (wd_ledger w') \<and> wd_queue w' = (case r of Inr True \<Rightarrow> tl (wd_queue w) | _ \<Rightarrow> wd_queue w)"
proof -
  note run = once_run [OF assms(3,2)]
  from run assms(1) have "ledger_reachable H st (wd_ledger w')"
    by (induction rule: rtranclp_induct [OF conjunct1 [OF run]]) (auto intro: reachable.step)
  with run show ?thesis by simp
qed

lemma activate_manifests:
  assumes "activate H job now db = Inr db'"
  shows "artifact_manifests db' = artifact_manifests db"
proof -
  have "artifact_manifests d' = artifact_manifests d" if "fold_sum (activate_step H job now rows) xs d = Inr d'" for rows xs d d'
    using that
  proof (induction xs arbitrary: d)
    case (Cons x xs)
    then obtain d1 where d1: "activate_step H job now rows x d = Inr d1" "fold_sum (activate_step H job now rows) xs d1 = Inr d'"
      by (auto simp: txn_simps)
    have "artifact_manifests d1 = artifact_manifests d"
      using d1(1) by (auto simp: activate_step_def Let_def split: if_splits option.splits bool.splits)
    with Cons.IH [OF d1(2)] show ?case by simp
  qed simp
  then show ?thesis using assms unfolding activate_def Let_def by blast
qed

text \<open>What a successful commit leaves: the manifest of the leased step under the fence of the lease, new or already there.\<close>

lemma commit_manifests:
  assumes "commit H l refs now db = Inr (x, db')"
  shows "artifact_manifests db' = artifact_manifests db \<and> (\<exists>p \<in> set (artifact_manifests db). mf_step_id p = ls_step_id l \<and> mf_manifest p = refs \<and> mf_fence p = ls_fence l)
    \<or> artifact_manifests db' = artifact_manifests db @ [\<lparr>mf_step_id = ls_step_id l, mf_manifest = refs, mf_committed_at = now, mf_fence = ls_fence l\<rparr>]
      \<and> list_all (intended db (ls_step_id l)) refs \<and> (\<exists>p. check_lease db l now False = Inr p)"
proof -
  obtain job row where j: "ledger_job db (ls_scope l) (ls_job_id l) = Inr job" "ledger_step db (ls_job_id l) (ls_step_id l) = Inr row"
    using assms by (auto simp: commit_def txn_simps split: if_split_asm)
  show ?thesis
  proof (cases "sr_state row = S_SUCCEEDED")
    case True
    then show ?thesis using assms j by (auto simp: commit_def split: if_split_asm option.split_asm dest!: find_SomeD)
  next
    case False
    with assms j obtain p db1 where "check_lease db l now False = Inr p" "list_all (intended db (ls_step_id l)) refs"
      "activate H job now (accept_manifest l refs now db) = Inr db1" "db' = refresh (ls_job_id l) now db1"
      by (auto simp: commit_def txn_simps Let_def split: if_split_asm)
    then show ?thesis using activate_manifests [of H job now "accept_manifest l refs now db" db1] by (auto simp: accept_manifest_def)
  qed
qed

lemma commit_lost:
  assumes "check_lease db l now False = Inl e" "e \<noteq> ''cancelled''"
  shows "(\<exists>x. commit H l refs now db = Inr (x, db)) \<or> (\<exists>e'. commit H l refs now db = Inl e' \<and> e' \<noteq> ''cancelled'')"
  using assms by (auto simp: commit_def ledger_job_def ledger_step_def sbind_def split: option.splits sum.splits)

lemma failure_step_manifests: "failure_step H job row f now db = Inr db' \<Longrightarrow> artifact_manifests db' = artifact_manifests db"
  by (auto simp: failure_step_def terminal_failure_def finish_attempt_def Let_def split: option.splits)

lemma fail_manifests: "fail H l f now db = Inr (x, db') \<Longrightarrow> artifact_manifests db' = artifact_manifests db"
  by (auto simp: fail_def cancel_job_def Let_def txn_simps case_prod_unfold dest: failure_step_manifests split: if_split_asm)

lemma settle_cancel_manifests: "settle_cancel l now db = Inr (x, db') \<Longrightarrow> artifact_manifests db' = artifact_manifests db"
  by (auto simp: settle_cancel_def txn_simps case_prod_unfold split: if_split_asm)

lemma settle_or_raise_frame:
  assumes "settle_or_raise l err now w = (r, w')"
  shows "wd_store w' = wd_store w" "wd_queue w' = wd_queue w" "artifact_manifests (wd_ledger w') = artifact_manifests (wd_ledger w)"
    "err \<noteq> Job_error ''cancelled'' \<Longrightarrow> w' = w"
  using assms settle_cancel_manifests by (auto simp: settle_or_raise_def split: if_split_asm sum.split_asm prod.split_asm)

text \<open>The failure of a step is written on the attempt of the lease, and the cancellation of the remaining steps leaves it there.\<close>

definition attempt_failed :: "uuid \<Rightarrow> nat \<Rightarrow> string \<Rightarrow> ledger \<Rightarrow> bool" where
  "attempt_failed sid fence category db \<longleftrightarrow> (\<forall>a \<in> set (step_attempts db). at_step_id a = sid \<and> at_fence a = fence
     \<longrightarrow> at_category a = Some category \<and> at_outcome a \<in> {S_FAILED, S_RETRY_WAIT})"

lemma attempt_failed_cong: "step_attempts db = step_attempts db' \<Longrightarrow> attempt_failed sid fence category db = attempt_failed sid fence category db'"
  by (simp add: attempt_failed_def)

lemma attempt_failed_cancel:
  "attempt_failed sid fence category db \<Longrightarrow> attempt_failed sid fence category (cancel_steps rows now db)"
proof (induction rows arbitrary: db)
  case (Cons r rows)
  have "attempt_failed sid fence category (cancel_step (sr_step_id r) now db)"
    using Cons.prems by (fastforce simp: attempt_failed_def cancel_step_def upd_attempt_def upd_step_def set_upd_where)
  with Cons.IH show ?case by (simp add: cancel_steps_def)
qed (simp add: cancel_steps_def)

lemma attempt_failed_finish: "attempt_failed (sr_step_id row) (sr_fence row) (fl_category f) (finish_attempt row f now retry_at db)"
  by (auto simp: attempt_failed_def finish_attempt_def upd_attempt_def set_upd_where)

lemma terminal_failure_attempts:
  assumes "attempt_failed sid fence category db"
  shows "attempt_failed sid fence category (terminal_failure row f now db)"
  unfolding terminal_failure_def Let_def
  by (rule attempt_failed_cancel, rule attempt_failed_cong [THEN iffD1, OF _ assms]) (simp add: upd_job_def upd_step_def add_dead_letter_def)

lemma failure_recorded:
  assumes "check_lease db l now False = Inr (job, row)" "sr_started_at row \<noteq> None" "fl_classification (sanitized f) \<noteq> C_CANCELLED"
  obtains db' where "fail H l f now db = Inr ((), db')" "attempt_failed (ls_step_id l) (ls_fence l) (fl_category (sanitized f)) db'"
proof -
  have row: "sr_step_id row = ls_step_id l" "sr_fence row = ls_fence l"
    using assms(1) by (auto simp: check_lease_def ledger_step_def txn_simps dest!: find_SomeD split: if_split_asm option.split_asm)
  obtain db' where db': "failure_step H job row (sanitized f) now db = Inr db'" using assms(2) by (auto simp: failure_step_def Let_def)
  note fin = attempt_failed_finish [of row "sanitized f" now _ db, unfolded row]
  have "attempt_failed (ls_step_id l) (ls_fence l) (fl_category (sanitized f)) db'"
  proof -
    from db' consider (retry) t db1 where "db' = refresh (sr_job_id row) now (enqueue (sr_step_id row) now t (upd_step (sr_step_id row) db1
          (finish_attempt row (sanitized f) now (Some t) db)))"
      | (final) g where "db' = refresh (sr_job_id row) now (terminal_failure row g now (finish_attempt row (sanitized f) now None db))"
      by (auto simp: failure_step_def Let_def split: option.splits if_split_asm)
    then show ?thesis
    proof cases
      case retry
      then show ?thesis using fin by (simp add: attempt_failed_def)
    next
      case final
      then show ?thesis using terminal_failure_attempts [OF fin] by (simp add: attempt_failed_def)
    qed
  qed
  moreover have "fail H l f now db = Inr ((), db')" using assms(1,3) db' by (simp add: fail_def Let_def)
  ultimately show thesis using that by blast
qed

text \<open>A reference whose object is in the store with the size and digest that it names, within the limit.\<close>

definition object_verified :: "(bytes \<Rightarrow> string) \<Rightarrow> obj_store \<Rightarrow> scope \<Rightarrow> int \<Rightarrow> object_ref \<Rightarrow> bool" where
  "object_verified sha d sc limit ref \<longleftrightarrow> or_scope ref = sc \<and> or_byte_size ref \<le> limit
     \<and> (\<exists>data. d (or_key ref) = Some (File data) \<and> int (length data) = or_byte_size ref \<and> sha data = or_sha256 ref)"

lemma inspect_all_verified:
  "inspect_all H sha l sc limit w refs = Inr () \<Longrightarrow> list_all (object_verified sha (wd_store w) (ls_scope l) limit) refs"
proof (induction refs)
  case (Cons r rs)
  then obtain r' where "intent_inspect H sha l sc r limit w = Inr r'" "inspect_all H sha l sc limit w rs = Inr ()" by (auto simp: txn_simps)
  moreover have "object_verified sha (wd_store w) (ls_scope l) limit r" if "intent_inspect H sha l sc r limit w = Inr r'" for r'
  proof -
    from that obtain data where "sc = ls_scope l" "check_ref H sc r limit = Inr ()" "read_object sha (wd_store w) r limit = Inr data"
      by (auto simp: intent_inspect_def store_inspect_def store_read_def txn_simps split: if_split_asm sum.split_asm)
    then show ?thesis using read_object_Inr [of limit sha "wd_store w" r data] by (auto simp: check_ref_def object_verified_def split: if_split_asm)
  qed
  ultimately show ?case using Cons.IH by simp
qed simp

text \<open>What the worker makes of the outcome of the handler: the first failure of the handler or of an inspection, or the manifest.\<close>

definition checked_outcome :: "prims \<Rightarrow> (bytes \<Rightarrow> string) \<Rightarrow> lease \<Rightarrow> scope \<Rightarrow> int \<Rightarrow> exception_value + object_ref list \<Rightarrow> world
    \<Rightarrow> exception_value + object_ref list" where
  "checked_outcome H sha l sc limit outcome w =
     sbind outcome (\<lambda>refs. sbind (inspect_all H sha l sc limit w refs) (\<lambda>_. Inr refs))"

lemma checked_outcomeD:
  "checked_outcome H sha l sc limit outcome w = Inr refs
    \<Longrightarrow> outcome = Inr refs \<and> list_all (object_verified sha (wd_store w) (ls_scope l) limit) refs"
  using inspect_all_verified by (auto simp: checked_outcome_def txn_simps)

lemma once_reports:
  assumes "wd_queue w = m # q"
    and "claim H st (dp_scope m) (dp_job_id m) (dp_step_id m) own (t 0) (wd_ledger w) = Inr (Some l, db)"
    and "get_job (dp_scope m) (dp_job_id m) db = Inr (job, db)"
    and "find (\<lambda>s. sr_step_id (fst s) = dp_step_id m) (map (step_model db) (steps_of db (dp_job_id m))) = Some step"
    and "handler job step l (w\<lparr>wd_ledger := db\<rparr>) = (outcome, w1)"
    and "once H sha st handler classifier own t w = (r, w')"
  obtains e w2 where "report H classifier l t (checked_outcome H sha l (dp_scope m) (pf_max_artifact_bytes (ad_profile (jr_request job))) outcome w1) w1 = (e, w2)"
    "r = (case e of None \<Rightarrow> Inr True | Some x \<Rightarrow> Inl x)" "w' = (if e = None then w2\<lparr>wd_queue := acknowledge m (wd_queue w2)\<rparr> else w2)"
proof -
  have "steps (dp_scope m) (dp_job_id m) db = Inr (map (step_model db) (steps_of db (dp_job_id m)), db)"
    using assms(3) by (auto simp: get_job_def steps_def txn_simps)
  then have exec: "execute H sha handler classifier m l t (w\<lparr>wd_ledger := db\<rparr>)
      = report H classifier l t (checked_outcome H sha l (dp_scope m) (pf_max_artifact_bytes (ad_profile (jr_request job))) outcome w1) w1"
    using assms(3-5) by (simp add: execute_def checked_outcome_def)
  obtain e w2 where rep: "report H classifier l t (checked_outcome H sha l (dp_scope m) (pf_max_artifact_bytes (ad_profile (jr_request job))) outcome w1) w1 = (e, w2)"
    by fastforce
  then have "r = (case e of None \<Rightarrow> Inr True | Some x \<Rightarrow> Inl x) \<and> w' = (if e = None then w2\<lparr>wd_queue := acknowledge m (wd_queue w2)\<rparr> else w2)"
    using assms(1,2,6) exec by (cases e) (auto simp: once_def receive_def)
  then show thesis using that rep by blast
qed

lemma report_frame:
  assumes rep: "report H classifier l t res w = (e, w')"
  shows "wd_store w' = wd_store w" "wd_queue w' = wd_queue w"
    "check_lease (wd_ledger w) l (t 1) False = Inl x \<Longrightarrow> x \<noteq> ''cancelled'' \<Longrightarrow> wd_ledger w' = wd_ledger w"
proof -
  have exn: "ledger_exn e' = Job_error ''cancelled'' \<longleftrightarrow> e' = ''cancelled''" for e' by (simp add: ledger_exn_def)
  show "wd_store w' = wd_store w" "wd_queue w' = wd_queue w"
    using rep by (auto simp: report_def dest: settle_or_raise_frame split: sum.split_asm prod.split_asm)
  assume lost: "check_lease (wd_ledger w) l (t 1) False = Inl x" "x \<noteq> ''cancelled''"
  then have "fail H l f (t 1) (wd_ledger w) = Inl x" for f by (simp add: fail_def Let_def)
  then have "report H classifier l t (Inl exn) w = settle_or_raise l (ledger_exn x) (t 2) w" for exn by (simp add: report_def)
  moreover have "report H classifier l t (Inr refs) w = (None, w)
      \<or> (\<exists>y. y \<noteq> ''cancelled'' \<and> report H classifier l t (Inr refs) w = settle_or_raise l (ledger_exn y) (t 2) w)" for refs
    using commit_lost [OF lost, of H refs] by (auto simp: report_def)
  ultimately show "wd_ledger w' = wd_ledger w"
    using rep lost(2) settle_or_raise_frame(4) exn by (cases res) (metis prod.inject)+
qed

lemma report_manifests:
  assumes "report H classifier l t res w = (e, w')"
  shows "artifact_manifests (wd_ledger w') = artifact_manifests (wd_ledger w)
    \<or> (\<exists>refs. res = Inr refs \<and> e = None \<and> list_all (intended (wd_ledger w) (ls_step_id l)) refs
        \<and> (\<exists>p. check_lease (wd_ledger w) l (t 1) False = Inr p)
        \<and> artifact_manifests (wd_ledger w') = artifact_manifests (wd_ledger w)
            @ [\<lparr>mf_step_id = ls_step_id l, mf_manifest = refs, mf_committed_at = t 1, mf_fence = ls_fence l\<rparr>])"
proof (cases res)
  case (Inl exn)
  then show ?thesis using assms
    by (auto simp: report_def dest: settle_or_raise_frame fail_manifests split: sum.split_asm prod.split_asm)
next
  case (Inr refs)
  show ?thesis
  proof (cases "commit H l refs (t 1) (wd_ledger w)")
    case (Inl x)
    then show ?thesis using assms Inr by (auto simp: report_def dest: settle_or_raise_frame)
  next
    case (Inr y)
    then show ?thesis using assms \<open>res = Inr refs\<close> commit_manifests [of H l refs "t 1" "wd_ledger w" "fst y" "snd y"]
      by (auto simp: report_def split: prod.split_asm)
  qed
qed

text \<open>C20: A round of a worker accepts only what it verified. For any handler, whatever it does to the ledger and the store and whatever other processes do
  meanwhile: the only manifest that the worker itself can add is the one the handler returned, for the leased step under the fence of the lease, and then every
  reference in it is in the store with its size and digest and within the artifact limit, was intended by the step, and the lease still
  held. When the handler raises or an inspection fails while the lease holds, the attempt of the lease carries the classified failure and no
  manifest is added. A manifest that passes the checks and the commit is recorded. A worker that has lost its lease leaves the ledger as it is. The message is
  acknowledged exactly when the round returns true, and the store is as the handler left it.\<close>

theorem worker_round_commits_verified:
  assumes queue: "wd_queue w = m # q"
    and claimed: "claim H st (dp_scope m) (dp_job_id m) (dp_step_id m) own (t 0) (wd_ledger w) = Inr (Some l, db)"
    and job: "get_job (dp_scope m) (dp_job_id m) db = Inr (job, db)"
    and step: "find (\<lambda>s. sr_step_id (fst s) = dp_step_id m) (map (step_model db) (steps_of db (dp_job_id m))) = Some step"
    and handled: "handler job step l (w\<lparr>wd_ledger := db\<rparr>) = (outcome, w1)"
    and round: "once H sha st handler classifier own t w = (r, w')"
  shows "wd_store w' = wd_store w1
    \<and> wd_queue w' = (if r = Inr True then acknowledge m (wd_queue w1) else wd_queue w1)
    \<and> (artifact_manifests (wd_ledger w') = artifact_manifests (wd_ledger w1)
       \<or> (\<exists>refs. outcome = Inr refs \<and> r = Inr True
           \<and> list_all (object_verified sha (wd_store w1) (ls_scope l) (pf_max_artifact_bytes (ad_profile (jr_request job)))) refs
           \<and> list_all (intended (wd_ledger w1) (ls_step_id l)) refs \<and> (\<exists>p. check_lease (wd_ledger w1) l (t 1) False = Inr p)
           \<and> artifact_manifests (wd_ledger w') = artifact_manifests (wd_ledger w1)
               @ [\<lparr>mf_step_id = ls_step_id l, mf_manifest = refs, mf_committed_at = t 1, mf_fence = ls_fence l\<rparr>]))
    \<and> (\<forall>exn jb row. checked_outcome H sha l (dp_scope m) (pf_max_artifact_bytes (ad_profile (jr_request job))) outcome w1 = Inl exn
         \<and> check_lease (wd_ledger w1) l (t 1) False = Inr (jb, row) \<and> sr_started_at row \<noteq> None
         \<and> fl_classification (sanitized (classifier exn)) \<noteq> C_CANCELLED
         \<longrightarrow> r = Inr True \<and> artifact_manifests (wd_ledger w') = artifact_manifests (wd_ledger w1)
           \<and> attempt_failed (ls_step_id l) (ls_fence l) (fl_category (sanitized (classifier exn))) (wd_ledger w'))
    \<and> (\<forall>refs x. checked_outcome H sha l (dp_scope m) (pf_max_artifact_bytes (ad_profile (jr_request job))) outcome w1 = Inr refs
         \<and> commit H l refs (t 1) (wd_ledger w1) = Inr x
         \<longrightarrow> r = Inr True \<and> (\<exists>p \<in> set (artifact_manifests (wd_ledger w')). mf_step_id p = ls_step_id l \<and> mf_manifest p = refs \<and> mf_fence p = ls_fence l))
    \<and> (\<forall>x. check_lease (wd_ledger w1) l (t 1) False = Inl x \<and> x \<noteq> ''cancelled'' \<longrightarrow> wd_ledger w' = wd_ledger w1)"
proof -
  let ?res = "checked_outcome H sha l (dp_scope m) (pf_max_artifact_bytes (ad_profile (jr_request job))) outcome w1"
  obtain e w2 where rep: "report H classifier l t ?res w1 = (e, w2)" and r: "r = (case e of None \<Rightarrow> Inr True | Some x \<Rightarrow> Inl x)"
    and w': "w' = (if e = None then w2\<lparr>wd_queue := acknowledge m (wd_queue w2)\<rparr> else w2)"
    using once_reports [OF assms] by blast
  have rT: "r = Inr True \<longleftrightarrow> e = None" using r by (cases e) auto
  have led: "wd_ledger w' = wd_ledger w2" "wd_store w' = wd_store w2" using w' by (auto split: if_splits)
  have queues: "wd_queue w' = (if r = Inr True then acknowledge m (wd_queue w1) else wd_queue w1)"
    using w' rT report_frame(2) [OF rep] by simp
  have recorded: "r = Inr True \<and> artifact_manifests (wd_ledger w') = artifact_manifests (wd_ledger w1)
      \<and> attempt_failed (ls_step_id l) (ls_fence l) (fl_category (sanitized (classifier exn))) (wd_ledger w')"
    if fails: "?res = Inl exn" "check_lease (wd_ledger w1) l (t 1) False = Inr (jb, row)" "sr_started_at row \<noteq> None"
      "fl_classification (sanitized (classifier exn)) \<noteq> C_CANCELLED" for exn jb row
  proof -
    obtain d where d: "fail H l (classifier exn) (t 1) (wd_ledger w1) = Inr ((), d)"
      "attempt_failed (ls_step_id l) (ls_fence l) (fl_category (sanitized (classifier exn))) d"
      using failure_recorded [OF fails(2-4)] by blast
    then have "e = None" "wd_ledger w2 = d" using rep fails(1) by (auto simp: report_def)
    then show ?thesis using d fail_manifests [OF d(1)] rT led by simp
  qed
  have committed: "r = Inr True \<and> (\<exists>p \<in> set (artifact_manifests (wd_ledger w')). mf_step_id p = ls_step_id l \<and> mf_manifest p = refs \<and> mf_fence p = ls_fence l)"
    if good: "?res = Inr refs" "commit H l refs (t 1) (wd_ledger w1) = Inr x" for refs x
  proof -
    have "e = None" "wd_ledger w2 = snd x" using rep good by (auto simp: report_def split: prod.split_asm)
    then show ?thesis using commit_manifests [of H l refs "t 1" "wd_ledger w1" "fst x" "snd x"] good(2) rT led by auto
  qed
  have manifests: "artifact_manifests (wd_ledger w') = artifact_manifests (wd_ledger w1)
      \<or> (\<exists>refs. outcome = Inr refs \<and> r = Inr True
           \<and> list_all (object_verified sha (wd_store w1) (ls_scope l) (pf_max_artifact_bytes (ad_profile (jr_request job)))) refs
           \<and> list_all (intended (wd_ledger w1) (ls_step_id l)) refs \<and> (\<exists>p. check_lease (wd_ledger w1) l (t 1) False = Inr p)
           \<and> artifact_manifests (wd_ledger w') = artifact_manifests (wd_ledger w1)
               @ [\<lparr>mf_step_id = ls_step_id l, mf_manifest = refs, mf_committed_at = t 1, mf_fence = ls_fence l\<rparr>])"
    using report_manifests [OF rep] checked_outcomeD led(1) rT by metis
  have lost: "wd_ledger w' = wd_ledger w1" if "check_lease (wd_ledger w1) l (t 1) False = Inl x" "x \<noteq> ''cancelled''" for x
    using report_frame(3) [OF rep that] led(1) by simp
  have store: "wd_store w' = wd_store w1" using report_frame(1) [OF rep] led(2) by simp
  show ?thesis
    by (rule conjI [OF store], rule conjI [OF queues], rule conjI [OF manifests], intro conjI [OF allI [OF allI [OF allI]]] conjI [OF allI [OF allI]] allI impI; elim conjE)
      (rule recorded committed lost; assumption)+
qed

definition sample_round_world :: world where
  "sample_round_world = \<lparr>wd_ledger = sample_queued, wd_store = Map.empty, wd_queue = [\<lparr>dp_dispatch_id = 1, dp_scope = sample_scope, dp_job_id = 10, dp_step_id = 12\<rparr>]\<rparr>"

definition sample_handler :: handler where
  "sample_handler j s l w = (Inr [sample_artifact], w\<lparr>wd_ledger := sample_registered, wd_store := [7 \<mapsto> File [65]]\<rparr>)"

text \<open>A round that registers and writes an artifact and commits it: the manifest is recorded and the message acknowledged.\<close>

theorem worker_round_commits_verified_witness:
  "case once sample_prims (\<lambda>_. sample_digest) sample_settings sample_handler (\<lambda>e. classify e False) ''w1'' (\<lambda>i. if i = 0 then 1 else 3) sample_round_world of
     (r, w') \<Rightarrow> r = Inr True \<and> wd_queue w' = [] \<and> list_ex (\<lambda>p. mf_step_id p = 12 \<and> mf_manifest p = [sample_artifact] \<and> mf_fence p = 1) (artifact_manifests (wd_ledger w'))"
proof -
  let ?m = "\<lparr>dp_dispatch_id = 1, dp_scope = sample_scope, dp_job_id = 10, dp_step_id = 12\<rparr>"
  let ?t = "\<lambda>i :: nat. if i = 0 then 1 else 3 :: time"
  let ?w1 = "sample_round_world\<lparr>wd_ledger := sample_registered, wd_store := [7 \<mapsto> File [65]]\<rparr>"
  obtain r w' where round: "once sample_prims (\<lambda>_. sample_digest) sample_settings sample_handler (\<lambda>e. classify e False) ''w1'' ?t sample_round_world = (r, w')"
    by fastforce
  have queue: "wd_queue sample_round_world = [?m]" by (simp add: sample_round_world_def)
  have claimed: "claim sample_prims sample_settings (dp_scope ?m) (dp_job_id ?m) (dp_step_id ?m) ''w1'' (?t 0) (wd_ledger sample_round_world) = Inr (Some sample_lease, sample_running)"
    using sample_claim by (simp add: sample_round_world_def)
  obtain job where job: "get_job (dp_scope ?m) (dp_job_id ?m) sample_running = Inr (job, sample_running)" "pf_max_artifact_bytes (ad_profile (jr_request job)) \<ge> 1"
    by (simp add: get_job_def ledger_job_def sample_rows sample_defs new_job_def)
  obtain step where step: "find (\<lambda>s. sr_step_id (fst s) = dp_step_id ?m) (map (step_model sample_running) (steps_of sample_running (dp_job_id ?m))) = Some step"
    by (simp add: steps_of_def step_model_def sample_rows sample_defs planned_step_def new_job_def)
  have handled: "sample_handler job step sample_lease (sample_round_world\<lparr>wd_ledger := sample_running\<rparr>) = (Inr [sample_artifact], ?w1)"
    by (simp add: sample_handler_def)
  have checked: "checked_outcome sample_prims (\<lambda>_. sample_digest) sample_lease (dp_scope ?m) (pf_max_artifact_bytes (ad_profile (jr_request job))) (Inr [sample_artifact]) ?w1
      = Inr [sample_artifact]"
    using job(2) by (simp add: checked_outcome_def intent_inspect_def store_inspect_def store_read_def check_ref_def read_object_def read_loop_0 sample_lease_def
      sample_artifact_def object_key_def)
  have "r = Inr True \<and> (\<exists>p \<in> set (artifact_manifests (wd_ledger w')). mf_step_id p = ls_step_id sample_lease \<and> mf_manifest p = [sample_artifact] \<and> mf_fence p = ls_fence sample_lease)
      \<and> wd_queue w' = (if r = Inr True then acknowledge ?m (wd_queue ?w1) else wd_queue ?w1)"
    using worker_round_commits_verified [OF queue claimed job(1) step handled round] checked sample_commit by auto
  then show ?thesis unfolding round by (auto simp: list_ex_iff sample_lease_def acknowledge_def sample_round_world_def)
qed

text \<open>delivery is at least once and harmless: a round on a message whose step is settled, or whose job is settled or
  being cancelled, acknowledges the message and changes neither the ledger nor the store.\<close>

theorem redelivery_harmless:
  assumes "wd_queue w = m # q" and "token_text 128 own"
    and "ledger_job (wd_ledger w) (dp_scope m) (dp_job_id m) = Inr job"
    and "ledger_step (wd_ledger w) (dp_job_id m) (dp_step_id m) = Inr row"
    and "\<not> active_step (sr_state row) \<or> jr_cancel_requested job \<or> terminal_job (jr_state job)"
  shows "once H sha st handler classifier own t w = (Inr True, w\<lparr>wd_queue := q\<rparr>)"
proof -
  have "claim H st (dp_scope m) (dp_job_id m) (dp_step_id m) own (t 0) (wd_ledger w) = Inr (None, wd_ledger w)"
    using assms(2-5) by (auto simp: claim_def expired_def)
  with assms(1) show ?thesis by (simp add: once_def receive_def acknowledge_def)
qed

theorem redelivery_harmless_witness:
  "once sample_prims (\<lambda>_. ''00'') sample_settings (\<lambda>j s l w. (Inr [], w)) (\<lambda>e. classify e False) ''w1'' (\<lambda>_. 9)
     \<lparr>wd_ledger = sample_done, wd_store = Map.empty, wd_queue = [\<lparr>dp_dispatch_id = 1, dp_scope = sample_scope, dp_job_id = 10, dp_step_id = 12\<rparr>]\<rparr>
   = (Inr True, \<lparr>wd_ledger = sample_done, wd_store = Map.empty, wd_queue = []\<rparr>)"
proof -
  let ?m = "\<lparr>dp_dispatch_id = 1, dp_scope = sample_scope, dp_job_id = 10, dp_step_id = 12\<rparr>"
  let ?w = "\<lparr>wd_ledger = sample_done, wd_store = Map.empty, wd_queue = [?m]\<rparr>"
  have "ledger_job (wd_ledger ?w) (dp_scope ?m) (dp_job_id ?m) = Inr (sample_job J_COMPLETED (sample_progress 1 0 0 None) 3)"
    by (simp add: ledger_job_def sample_rows sample_defs new_job_def)
  moreover have "ledger_step (wd_ledger ?w) (dp_job_id ?m) (dp_step_id ?m) = Inr sample_done_row"
    by (simp add: ledger_step_def sample_rows planned_step_def new_job_def)
  moreover have "\<not> active_step (sr_state sample_done_row)" by (simp add: sample_rows)
  ultimately show ?thesis
    using redelivery_harmless [of ?w ?m "[]" "''w1''"] by simp
qed

section \<open>Intents\<close>

lemma register_object_intended:
  assumes "register_object H l ref now db = Inr (u, db')"
  shows "intended db' (ls_step_id l) ref"
proof (cases "find (\<lambda>i. it_step_id i = ls_step_id l \<and> it_object_key i = or_key ref) (object_intents db)")
  case None
  with assms have db': "object_intents db' = object_intents db @ [\<lparr>it_step_id = ls_step_id l, it_object_key = or_key ref, it_ref = ref, it_created_at = now\<rparr>]"
    by (auto simp: register_object_def txn_simps split: if_splits)
  from None have "find (\<lambda>i. it_step_id i = ls_step_id l \<and> it_object_key i = or_key ref) (xs @ ys) = find (\<lambda>i. it_step_id i = ls_step_id l \<and> it_object_key i = or_key ref) ys"
    if "xs = object_intents db" for xs ys
    using that by (simp add: find_append_table)
  then show ?thesis by (simp add: intended_def db')
next
  case (Some i)
  with assms show ?thesis by (auto simp: register_object_def txn_simps intended_def split: if_splits)
qed

lemma intendedD:
  "intended db sid ref \<Longrightarrow> \<exists>i \<in> set (object_intents db). it_step_id i = sid \<and> it_object_key i = or_key ref \<and> it_ref i = ref"
  by (auto simp: intended_def split: option.splits dest!: find_SomeD)

lemma intent_put_intended:
  assumes "intent_put H sha l now sc kind oid stream m expected w = (Inr ref, w')"
  shows "intended (wd_ledger w') (ls_step_id l) ref"
  using assms register_object_intended
  by (auto simp: intent_put_def Let_def split: if_splits sum.splits option.splits prod.splits)

text \<open>The intent is registered before the write: whenever a put through the intent store changes the object store,
  also when it then fails, the object it created is named by an intent of the leased step with its
  digest and size; and when it succeeds the object can be inspected and is accepted in a manifest of
  that step.\<close>

theorem intent_precedes_write:
  assumes "intent_put H sha l now sc kind oid stream m expected w = (r, w')"
  shows "(wd_store w' k \<noteq> wd_store w k \<longrightarrow> (\<exists>i \<in> set (object_intents (wd_ledger w')). it_step_id i = ls_step_id l \<and> it_object_key i = k
        \<and> (\<exists>data. wd_store w' k = Some (File data) \<and> or_sha256 (it_ref i) = sha data \<and> or_byte_size (it_ref i) = int (length data))))
    \<and> (r = Inr ref \<longrightarrow> store_inspect H sha (wd_store w') sc ref m = Inr ref \<and> intended (wd_ledger w') (ls_step_id l) ref)"
proof (cases "\<exists>data db. sc = ls_scope l \<and> read_loop m [] stream = Inr data \<and> (expected = None \<or> expected = Some (sha data))
      \<and> register_object H l (put_ref H sha sc kind oid data) now (wd_ledger w) = Inr ((), db)")
  case False
  with assms have "w' = w \<and> (\<exists>e. r = Inl e)"
    by (auto simp: intent_put_def Let_def split: if_splits sum.splits option.splits prod.splits)
  then show ?thesis by auto
next
  case True
  then obtain data db where sc: "sc = ls_scope l" and rd: "read_loop m [] stream = Inr data"
    and ex: "expected = None \<or> expected = Some (sha data)"
    and reg: "register_object H l (put_ref H sha sc kind oid data) now (wd_ledger w) = Inr ((), db)" by auto
  let ?ref = "put_ref H sha sc kind oid data"
  have int: "intended db (ls_step_id l) ?ref" by (rule register_object_intended [OF reg])
  show ?thesis
  proof (cases "put_object H sha sc kind oid data m (Some (sha data)) (wd_store w)")
    case (Inl e)
    with assms sc rd ex reg have "w' = w\<lparr>wd_ledger := db\<rparr> \<and> r = Inl (Document_error e)"
      by (auto simp: intent_put_def Let_def)
    then show ?thesis by auto
  next
    case (Inr p)
    then obtain written d where p: "put_object H sha sc kind oid data m (Some (sha data)) (wd_store w) = Inr (written, d)" by (cases p) auto
    note q = put_object_Inr [OF p]
    from assms sc rd ex reg p q(3) have w': "w' = w\<lparr>wd_ledger := db, wd_store := d\<rparr>" and r: "r = Inr ?ref"
      by (auto simp: intent_put_def Let_def)
    have "store_inspect H sha d sc ?ref m = Inr ?ref"
      using q(1,2,5) unfolding q(3)
      by (auto simp: store_inspect_def store_read_def check_ref_def put_ref_def read_object_def read_loop_0)
    moreover have "wd_store w k \<noteq> d k \<Longrightarrow> k = or_key ?ref \<and> d k = Some (File data)"
      using q(5) unfolding q(3) by (auto split: if_splits)
    moreover obtain i where "i \<in> set (object_intents db)" "it_step_id i = ls_step_id l" "it_object_key i = or_key ?ref" "it_ref i = ?ref"
      using intendedD [OF int] by blast
    moreover have "or_sha256 ?ref = sha data" "or_byte_size ?ref = int (length data)" by (simp_all add: put_ref_def)
    ultimately show ?thesis
      using int w' r by auto metis
  qed
qed

theorem intent_precedes_write_witness:
  "\<exists>i \<in> set (object_intents (wd_ledger (snd (intent_put sample_prims (\<lambda>_. sample_digest) sample_lease 2 sample_scope Artifact 20 [65] 10 None
     \<lparr>wd_ledger = sample_running, wd_store = Map.empty, wd_queue = []\<rparr>)))). it_step_id i = 12 \<and> it_object_key i = 7"
  (is "\<exists>i \<in> set (object_intents (wd_ledger (snd ?p))). _")
proof -
  have ref: "put_ref sample_prims (\<lambda>_. sample_digest) sample_scope Artifact 20 [65] = sample_artifact"
    by (simp add: put_ref_def sample_artifact_def object_key_def)
  have sc: "sample_scope = ls_scope sample_lease" by (simp add: sample_lease_def)
  have p: "?p = (Inr sample_artifact, \<lparr>wd_ledger = sample_registered, wd_store = [7 \<mapsto> File [65]], wd_queue = []\<rparr>)"
    by (simp add: intent_put_def read_loop_0 ref sample_register put_object_def Let_def sc [symmetric])
      (simp add: sample_artifact_def)
  from intent_precedes_write [OF p, of 7] show ?thesis unfolding p by (auto simp: sample_lease_def)
qed

text \<open>The admission service admits only what it verified: when it returns a job, the source object of the request was
  read from the store with the size and digest that the request names.\<close>

theorem service_admits_verified_source:
  assumes "service_admit H sha ids request now d db = Inr (job, db')"
  shows "admission_valid H request \<and> admit H ids request now db = Inr (job, db')
    \<and> (\<exists>data. d (or_key (ad_source request)) = Some (File data) \<and> sha data = or_sha256 (ad_source request)
        \<and> int (length data) = or_byte_size (ad_source request) \<and> int (length data) \<le> pf_max_source_bytes (ad_profile request))"
proof -
  let ?m = "pf_max_source_bytes (ad_profile request)"
  from assms have v: "admission_valid H request"
    and insp: "\<exists>r. store_inspect H sha d (ad_scope request) (ad_source request) ?m = Inr r"
    and adm: "lift_job (admit H ids request now db) = Inr (job, db')"
    by (auto simp: service_admit_def txn_simps split: if_splits sum.splits)
  from v have m: "1 \<le> ?m" by (simp add: admission_valid_def profile_valid_def Let_def)
  from insp obtain data where "read_object sha d (ad_source request) ?m = Inr data"
    by (auto simp: store_inspect_def store_read_def txn_simps)
  with m v adm show ?thesis by (auto simp: read_object_Inr lift_job_def split: sum.splits)
qed

theorem service_admits_verified_source_witness:
  "\<exists>data. [7 \<mapsto> File (replicate 10 (0 :: 8 word))] (or_key (ad_source sample_admission)) = Some (File data) \<and> length data = 10"
proof -
  let ?d = "[7 \<mapsto> File (replicate 10 (0 :: 8 word))]"
  have "store_inspect sample_prims (\<lambda>_. sample_digest) ?d (ad_scope sample_admission) (ad_source sample_admission)
      (pf_max_source_bytes (ad_profile sample_admission)) = Inr sample_source"
    by (simp add: store_inspect_def store_read_def check_ref_def read_object_def read_loop_0 sample_defs object_key_def version_id_def)
  then have "service_admit sample_prims (\<lambda>_. sample_digest) [10, 11, 12] sample_admission 0 ?d empty_ledger
      = Inr (sample_job J_QUEUED (sample_progress 0 0 1 None) 0, sample_queued)"
    by (simp add: service_admit_def sample_valid sample_admit lift_job_def) (simp add: sample_admission_def)
  from service_admits_verified_source [OF this] obtain data where
    "?d (or_key (ad_source sample_admission)) = Some (File data)" "int (length data) = or_byte_size (ad_source sample_admission)" by blast
  moreover have "or_byte_size (ad_source sample_admission) = 10" by (simp add: sample_admission_def sample_source_def)
  ultimately show ?thesis by auto
qed

end
