(* ===== verification/TextExtraction.thy ===== *)
theory TextExtraction
  imports DocModels
begin

text \<open>
  The extraction service of documents/extraction.py: bounded read, format check, text units, and
  the canonical artifact that is stored. The parser runner (pypdf), the object store (any
  implementation of the port, over a world \<open>'w\<close>) and the serialisation of the artifact are
  arguments. Strict UTF-8 decoding is modelled on the byte values.
\<close>

record parsed_page =
  pp_ordinal :: int
  pp_text :: code_points
  pp_label :: "code_points option"
  pp_width :: "rat option"
  pp_height :: "rat option"
  pp_rotation :: "int option"
  pp_has_images :: "bool option"
  pp_has_graphics :: "bool option"
  pp_failed :: bool

record limits =
  lm_source_bytes :: int
  lm_pages :: int
  lm_characters :: int
  lm_blocks :: int
  lm_artifact_bytes :: int

definition profile_limits :: "processing_profile \<Rightarrow> limits" where
  "profile_limits p = \<lparr>lm_source_bytes = pf_max_source_bytes p, lm_pages = pf_max_pages p, lm_characters = pf_max_characters p,
     lm_blocks = pf_max_blocks p, lm_artifact_bytes = pf_max_artifact_bytes p\<rparr>"

section \<open>UTF-8\<close>

definition cont_byte :: "nat \<Rightarrow> bool" where
  "cont_byte b \<longleftrightarrow> 0x80 \<le> b \<and> b \<le> 0xBF"

fun utf8_decode :: "nat list \<Rightarrow> code_points option" where
  "utf8_decode [] = Some []"
| "utf8_decode (b0 # bs) =
     (if b0 < 0x80 then map_option ((#) b0) (utf8_decode bs)
      else case bs of
        b1 # bs1 \<Rightarrow>
          if 0xC2 \<le> b0 \<and> b0 \<le> 0xDF then
            (if cont_byte b1 then map_option ((#) ((b0 - 0xC0) * 64 + (b1 - 0x80))) (utf8_decode bs1) else None)
          else (case bs1 of
            b2 # bs2 \<Rightarrow>
              if 0xE0 \<le> b0 \<and> b0 \<le> 0xEF then
                (if cont_byte b1 \<and> cont_byte b2 \<and> (b0 = 0xE0 \<longrightarrow> 0xA0 \<le> b1) \<and> (b0 = 0xED \<longrightarrow> b1 \<le> 0x9F)
                 then map_option ((#) ((b0 - 0xE0) * 4096 + (b1 - 0x80) * 64 + (b2 - 0x80))) (utf8_decode bs2) else None)
              else (case bs2 of
                b3 # bs3 \<Rightarrow>
                  if 0xF0 \<le> b0 \<and> b0 \<le> 0xF4 \<and> cont_byte b1 \<and> cont_byte b2 \<and> cont_byte b3
                     \<and> (b0 = 0xF0 \<longrightarrow> 0x90 \<le> b1) \<and> (b0 = 0xF4 \<longrightarrow> b1 \<le> 0x8F)
                  then map_option ((#) ((b0 - 0xF0) * 262144 + (b1 - 0x80) * 4096 + (b2 - 0x80) * 64 + (b3 - 0x80))) (utf8_decode bs3)
                  else None
              | [] \<Rightarrow> None)
          | [] \<Rightarrow> None)
      | [] \<Rightarrow> None)"

section \<open>Format\<close>

definition lower_char :: "char \<Rightarrow> char" where
  "lower_char c = (if 65 \<le> (of_char c :: nat) \<and> (of_char c :: nat) \<le> 90 then char_of ((of_char c :: nat) + 32) else c)"

fun split_at_char :: "char \<Rightarrow> string \<Rightarrow> string list" where
  "split_at_char c [] = [[]]"
| "split_at_char c (x # xs) = (if x = c then [] # split_at_char c xs
     else case split_at_char c xs of [] \<Rightarrow> [[x]] | p # ps \<Rightarrow> (x # p) # ps)"

text \<open>\<^verbatim>\<open>PurePosixPath(name).suffix\<close>: the last component that is neither empty nor a dot, from its last dot when that
  is neither its first nor its last character.\<close>

definition path_suffix :: "string \<Rightarrow> string" where
  "path_suffix path =
     (case rev (filter (\<lambda>p. p \<noteq> [] \<and> p \<noteq> ''.'') (split_at_char CHR ''/'' path)) of
        [] \<Rightarrow> []
      | name # _ \<Rightarrow>
          (case rev (split_at_char CHR ''.'' name) of
             ext # _ # _ \<Rightarrow> if ext \<noteq> [] \<and> length ext + 1 < length name then CHR ''.'' # ext else []
           | _ \<Rightarrow> []))"

definition detect :: "bytes \<Rightarrow> mime" where
  "detect data = (if take 5 data = [0x25, 0x50, 0x44, 0x46, 0x2D] then Application_pdf else Text_plain)"

definition format_of :: "bytes \<Rightarrow> string \<Rightarrow> string \<Rightarrow> string + mime" where
  "format_of data filename declared =
     (if data = [] then Inl ''invalid_document''
      else let detected = detect data;
               suffix = map lower_char (path_suffix (map (\<lambda>c. if c = backslash then CHR ''/'' else c) filename));
               extension = (if suffix = ''.pdf'' then Some Application_pdf else if suffix = ''.txt'' then Some Text_plain else None)
           in if declared \<notin> {''application/pdf'', ''text/plain''} \<or> declared \<noteq> mime_text detected
                 \<or> (suffix \<noteq> [] \<and> extension \<noteq> Some detected)
              then Inl ''unsupported_format'' else Inr detected)"

section \<open>Units\<close>

fun split_nl :: "code_points \<Rightarrow> code_points list" where
  "split_nl [] = [[]]"
| "split_nl (c # t) = (if c = newline then [] # split_nl t else case split_nl t of [] \<Rightarrow> [[c]] | p # ps \<Rightarrow> (c # p) # ps)"

fun with_nl :: "code_points list \<Rightarrow> code_points list" where
  "with_nl [] = []"
| "with_nl [p] = [p]"
| "with_nl (p # q # ps) = (p @ [newline]) # with_nl (q # ps)"

definition make_block :: "prims \<Rightarrow> uuid \<Rightarrow> uuid \<Rightarrow> bool \<Rightarrow> nat \<Rightarrow> nat \<Rightarrow> code_points \<Rightarrow> block" where
  "make_block H extraction source plain i offset piece = \<lparr>bk_block_id = block_identity H extraction source i, bk_source_id = source,
     bk_kind = B_text, bk_reading_order = int i, bk_source_text = piece,
     bk_span = \<lparr>sn_start = int offset, sn_end = int (offset + length piece),
       sn_line_start = (if plain then Some (int i + 1) else None), sn_line_end = (if plain then Some (int i + 1) else None)\<rparr>,
     bk_normalized_text = None, bk_geometry = None, bk_parent_id = None, bk_child_ids = [], bk_visual = None\<rparr>"

fun build_blocks :: "prims \<Rightarrow> uuid \<Rightarrow> uuid \<Rightarrow> bool \<Rightarrow> int \<Rightarrow> nat \<Rightarrow> nat \<Rightarrow> code_points list \<Rightarrow> string + block list" where
  "build_blocks H extraction source plain m i offset [] = Inr []"
| "build_blocks H extraction source plain m i offset (p # ps) =
     (if p = [] then build_blocks H extraction source plain m i offset ps
      else if int i \<ge> m then Inl ''extraction_limit_exceeded''
      else sbind (build_blocks H extraction source plain m (Suc i) (offset + length p) ps)
             (\<lambda>bs. Inr (make_block H extraction source plain i offset p # bs)))"

definition observe :: "lang \<Rightarrow> parsed_page \<Rightarrow> bool \<Rightarrow> nat \<Rightarrow> observations" where
  "observe U page structure blocks = \<lparr>ob_character_count = int (length (pp_text page)),
     ob_printable_ratio = printable_ratio U (pp_text page), ob_replacement_ratio = replacement_ratio (pp_text page),
     ob_has_native_text = has_text U (pp_text page), ob_has_images = pp_has_images page, ob_has_graphics = pp_has_graphics page,
     ob_parser_failed = pp_failed page, ob_structure_required = structure, ob_block_count = int blocks\<rparr>"

definition unit_status_of :: "lang \<Rightarrow> parsed_page \<Rightarrow> unit_status" where
  "unit_status_of U page = (if pp_failed page then U_failed else if has_text U (pp_text page) then U_native_text
     else if pp_has_images page = Some True then U_image_only else if pp_has_graphics page \<noteq> Some False then U_unresolved else U_blank)"

definition make_unit :: "prims \<Rightarrow> lang \<Rightarrow> uuid \<Rightarrow> uuid \<Rightarrow> string \<Rightarrow> limits \<Rightarrow> bool \<Rightarrow> bool \<Rightarrow> parsed_page \<Rightarrow> string + text_unit" where
  "make_unit H U v extraction parser lmt structure plain page =
     (let physical = (if plain then None else Some (pp_ordinal page));
          source = source_identity H v physical;
          text = pp_text page;
          pieces = (if plain then with_nl (split_nl text) else if text = [] then [] else [text]) in
      if plain \<and> int (count_nl text + (if text \<noteq> [] \<and> last text = newline then 0 else 1)) > lm_blocks lmt
      then Inl ''extraction_limit_exceeded''
      else sbind (build_blocks H extraction source plain (lm_blocks lmt) 0 0 pieces) (\<lambda>blocks.
        let u = \<lparr>tu_source_id = source, tu_version_id = v, tu_physical_page = physical, tu_printed_label = pp_label page,
              tu_width = pp_width page, tu_height = pp_height page, tu_rotation = pp_rotation page,
              tu_status = unit_status_of U page, tu_method = M_native, tu_parser_version = parser, tu_text = text, tu_blocks = blocks,
              tu_decision = decide source (observe U page structure (length blocks)),
              tu_ocr_engine = None, tu_ocr_model_version = None, tu_ocr_confidence = None\<rparr>
        in if unit_fields_valid H u then Inr u else Inl ''extraction_failed''))"

fun make_units :: "(parsed_page \<Rightarrow> string + text_unit) \<Rightarrow> parsed_page list \<Rightarrow> string + text_unit list" where
  "make_units f [] = Inr []"
| "make_units f (p # ps) = sbind (f p) (\<lambda>u. sbind (make_units f ps) (\<lambda>us. Inr (u # us)))"

section \<open>Extraction\<close>

record request =
  rq_scope :: scope
  rq_document_id :: uuid
  rq_display_filename :: string
  rq_declared_mime :: string
  rq_limits :: limits
  rq_created_at :: time
  rq_extracted_at :: time
  rq_expected_sha256 :: "string option"
  rq_structure_required :: bool

record parser =
  pr_version :: string
  pr_parse :: "bytes \<Rightarrow> limits \<Rightarrow> exception_value + parsed_page list"

definition text_pages :: "lang \<Rightarrow> limits \<Rightarrow> bytes \<Rightarrow> string + parsed_page list" where
  "text_pages U lmt data =
     (case utf8_decode (map unat data) of
        None \<Rightarrow> Inl ''invalid_document''
      | Some text \<Rightarrow>
          if \<not> has_text U text \<or> list_ex (\<lambda>c. c < 32 \<and> c \<notin> {13, 10, 9}) text then Inl ''invalid_document''
          else if int (length text) > lm_characters lmt then Inl ''extraction_limit_exceeded''
          else Inr [\<lparr>pp_ordinal = 1, pp_text = text, pp_label = None, pp_width = None, pp_height = None, pp_rotation = None,
                 pp_has_images = Some False, pp_has_graphics = Some False, pp_failed = False\<rparr>])"

definition pdf_pages :: "parser \<Rightarrow> limits \<Rightarrow> bytes \<Rightarrow> string + parsed_page list" where
  "pdf_pages runner lmt data =
     (case pr_parse runner data lmt of
        Inl (Document_error c) \<Rightarrow> Inl c
      | Inl _ \<Rightarrow> Inl ''extraction_failed''
      | Inr pages \<Rightarrow>
          if pages = [] then Inl ''invalid_document''
          else if int (length pages) > lm_pages lmt then Inl ''page_limit_exceeded''
          else if map pp_ordinal pages \<noteq> map (\<lambda>i. int (Suc i)) [0..<length pages] then Inl ''extraction_failed''
          else Inr pages)"

definition prepare :: "prims \<Rightarrow> lang \<Rightarrow> (bytes \<Rightarrow> string) \<Rightarrow> parser \<Rightarrow> request \<Rightarrow> bytes \<Rightarrow> string + (bytes \<times> mime \<times> string \<times> uuid \<times> uuid \<times> text_unit list)" where
  "prepare H U sha runner rq stream =
     (let lmt = rq_limits rq in
      if length (rq_display_filename rq) > 512 then Inl ''invalid_document''
      else sbind (read_loop (lm_source_bytes lmt) [] stream) (\<lambda>data.
      if (case rq_expected_sha256 rq of None \<Rightarrow> False | Some e \<Rightarrow> e \<noteq> sha data) then Inl ''integrity_error''
      else sbind (format_of data (rq_display_filename rq) (rq_declared_mime rq)) (\<lambda>detected.
      sbind (if detected = Text_plain then text_pages U lmt data else pdf_pages runner lmt data) (\<lambda>pages.
      let version = (if detected = Text_plain then ''utf8-strict/1'' else pr_version runner);
          v = version_id H (rq_scope rq) (rq_document_id rq) (sha data);
          extraction = extraction_identity H U (rq_scope rq) v version (rq_extracted_at rq) (lm_source_bytes lmt) (lm_pages lmt)
            (lm_characters lmt) (lm_blocks lmt) (rq_structure_required rq) in
      if sum_list (map (\<lambda>p. int (length (pp_text p))) pages) > lm_characters lmt then Inl ''extraction_limit_exceeded''
      else sbind (make_units (make_unit H U v extraction version lmt (rq_structure_required rq) (detected = Text_plain)) pages) (\<lambda>units.
      if sum_list (map (\<lambda>u. int (length (tu_blocks u))) units) > lm_blocks lmt then Inl ''extraction_limit_exceeded''
      else Inr (data, detected, version, v, extraction, units))))))"

definition make_artifact :: "request \<Rightarrow> object_ref \<Rightarrow> mime \<Rightarrow> string \<Rightarrow> uuid \<Rightarrow> uuid \<Rightarrow> text_unit list \<Rightarrow> artifact" where
  "make_artifact rq source detected version v extraction units = \<lparr>
     ar_document = \<lparr>dc_document_id = rq_document_id rq, dc_version_id = v, dc_scope = rq_scope rq, dc_source = source,
       dc_display_filename = rq_display_filename rq, dc_declared_mime = rq_declared_mime rq, dc_detected = detected,
       dc_page_count = (if detected = Application_pdf then Some (int (length units)) else None), dc_language = None,
       dc_language_confidence = None, dc_created_at = rq_created_at rq\<rparr>,
     ar_extraction_id = extraction, ar_parser_version = version, ar_extracted_at = rq_extracted_at rq,
     ar_max_source_bytes = lm_source_bytes (rq_limits rq), ar_max_pages = lm_pages (rq_limits rq),
     ar_max_characters = lm_characters (rq_limits rq), ar_max_blocks = lm_blocks (rq_limits rq),
     ar_structure_required = rq_structure_required rq, ar_units = units\<rparr>"

text \<open>The store port: \<^verbatim>\<open>put(scope, kind, object_id, stream, max_bytes, expected_sha256)\<close> over a world.\<close>

type_synonym 'w put_port = "scope \<Rightarrow> object_kind \<Rightarrow> uuid \<Rightarrow> bytes \<Rightarrow> int \<Rightarrow> string option \<Rightarrow> 'w \<Rightarrow> (exception_value + object_ref) \<times> 'w"

definition extract_document :: "prims \<Rightarrow> lang \<Rightarrow> (bytes \<Rightarrow> string) \<Rightarrow> parser \<Rightarrow> (artifact \<Rightarrow> bytes) \<Rightarrow> 'w put_port \<Rightarrow> request \<Rightarrow> bytes
    \<Rightarrow> 'w \<Rightarrow> (exception_value + artifact \<times> object_ref) \<times> 'w" where
  "extract_document H U sha runner serialize put rq stream w =
     (case prepare H U sha runner rq stream of
        Inl e \<Rightarrow> (Inl (Document_error e), w)
      | Inr (data, detected, version, v, extraction, units) \<Rightarrow>
          (case put (rq_scope rq) Source v data (lm_source_bytes (rq_limits rq)) (Some (sha data)) w of
             (Inl e, w1) \<Rightarrow> (Inl e, w1)
           | (Inr source, w1) \<Rightarrow>
               (let a = make_artifact rq source detected version v extraction units in
                if \<not> artifact_valid H U a then (Inl (Document_error ''extraction_failed''), w1)
                else let encoded = serialize a in
                  if int (length encoded) > lm_artifact_bytes (rq_limits rq) then (Inl (Document_error ''extraction_limit_exceeded''), w1)
                  else (case put (rq_scope rq) Artifact extraction encoded (lm_artifact_bytes (rq_limits rq)) (Some (sha encoded)) w1 of
                     (Inl e, w2) \<Rightarrow> (Inl e, w2)
                   | (Inr ref, w2) \<Rightarrow> (Inr (a, ref), w2)))))"

section \<open>Lines\<close>

fun lines_ok :: "code_points list \<Rightarrow> bool" where
  "lines_ok [] \<longleftrightarrow> True"
| "lines_ok [p] \<longleftrightarrow> count_nl p = 0"
| "lines_ok (p # q # ps) \<longleftrightarrow> (\<exists>x. p = x @ [newline] \<and> count_nl x = 0) \<and> lines_ok (q # ps)"

lemma split_nl_nonempty: "split_nl t \<noteq> []"
  by (cases t) (auto split: list.splits)

lemma with_nl_Cons: "ps \<noteq> [] \<Longrightarrow> with_nl (p # ps) = (p @ [newline]) # with_nl ps"
  by (cases ps) auto

lemma with_nl_concat: "concat (with_nl (split_nl t)) = t"
proof (induction t)
  case (Cons c t)
  obtain p ps where s: "split_nl t = p # ps" using split_nl_nonempty by (cases "split_nl t") auto
  with Cons show ?case by (cases ps) (auto simp: split_nl_nonempty)
qed simp

lemma split_nl_free: "p \<in> set (split_nl t) \<Longrightarrow> count_nl p = 0"
proof (induction t arbitrary: p)
  case (Cons c t)
  obtain q ps where s: "split_nl t = q # ps" using split_nl_nonempty by (cases "split_nl t") auto
  with Cons show ?case by (auto simp: count_nl_def split: if_splits)
qed simp

lemma lines_ok_with_nl: "(\<And>p. p \<in> set ps \<Longrightarrow> count_nl p = 0) \<Longrightarrow> lines_ok (with_nl ps)"
proof (induction ps rule: with_nl.induct)
  case (3 p q ps)
  then have "lines_ok (with_nl (q # ps))" "count_nl p = 0" by auto
  then show ?case by (cases ps) auto
qed auto

lemma lines_ok_Cons:
  assumes "lines_ok (p # ps)"
  shows "count_nl (rstrip_nl p) = 0" "lines_ok ps" "ps \<noteq> [] \<Longrightarrow> count_nl p = 1 \<and> p \<noteq> []"
proof -
  have free: "count_nl (rstrip_nl x) = 0" if "count_nl x = 0" for x
  proof -
    have "c \<noteq> newline" if "c \<in> set (dropWhile (\<lambda>c. c = newline) (rev x))" for c
      using \<open>count_nl x = 0\<close> set_dropWhileD [OF that] by (auto simp: count_nl_def filter_empty_conv)
    then have "filter (\<lambda>c. c = newline) (dropWhile (\<lambda>c. c = newline) (rev x)) = []" unfolding filter_empty_conv by blast
    then show ?thesis by (simp add: rstrip_nl_def count_nl_def rev_filter [symmetric])
  qed
  have "count_nl (rstrip_nl (x @ [newline])) = 0" if "count_nl x = 0" for x
    using free [OF that] by (simp add: rstrip_nl_def)
  with assms free show "count_nl (rstrip_nl p) = 0" by (cases ps) auto
  from assms show "lines_ok ps" by (cases ps) auto
  from assms show "ps \<noteq> [] \<Longrightarrow> count_nl p = 1 \<and> p \<noteq> []" by (cases ps) (auto simp: count_nl_def)
qed

section \<open>Extracted units satisfy the validator\<close>

lemma slice_prefix: "drop n t = p @ rest \<Longrightarrow> slice (int n) (int (n + length p)) t = p"
  by (simp add: slice_def)

lemma make_block_ok:
  assumes "drop off (tu_text u) = p @ rest" "off + length p \<le> length (tu_text u)"
    and "ar_extraction_id a = extraction" "tu_source_id u = source" "(dc_page_count (ar_document a) = None) = plain"
    and "plain \<Longrightarrow> line = int i + 1 \<and> count_nl (rstrip_nl p) = 0"
  shows "block_ok H a u i (int off) line (make_block H extraction source plain i off p)"
  using assms slice_prefix [OF assms(1)] by (auto simp: block_ok_def make_block_def Let_def)

lemma build_blocks_ok:
  assumes "build_blocks H extraction source plain m i off ps = Inr bs" and "drop off (tu_text u) = concat ps" "off \<le> length (tu_text u)"
    and "ar_extraction_id a = extraction" "tu_source_id u = source" "(dc_page_count (ar_document a) = None) = plain"
    and "plain \<Longrightarrow> lines_ok ps" and "plain \<Longrightarrow> ps \<noteq> [] \<Longrightarrow> line = int i + 1"
  shows "blocks_ok H a u i (int off) line bs"
  using assms
proof (induction ps arbitrary: i off line bs)
  case Nil
  then show ?case by simp
next
  case (Cons p ps)
  show ?case
  proof (cases "p = []")
    case True
    have "ps = []" if plain using lines_ok_Cons(3) [of p ps] Cons.prems(7) [OF that] True by auto
    with Cons True show ?thesis by (intro Cons.IH) auto
  next
    case False
    with Cons.prems(1) obtain bs' where bs: "bs = make_block H extraction source plain i off p # bs'"
      and rest: "build_blocks H extraction source plain m (Suc i) (off + length p) ps = Inr bs'"
      by (auto simp: txn_simps split: if_splits)
    have len: "off + length p \<le> length (tu_text u)"
      using arg_cong [OF Cons.prems(2), of length] Cons.prems(3) by simp
    have "block_ok H a u i (int off) line (make_block H extraction source plain i off p)"
      using Cons.prems lines_ok_Cons(1) by (intro make_block_ok [OF _ len]) auto
    moreover have "blocks_ok H a u (Suc i) (int (off + length p)) (line + int (count_nl p)) bs'"
    proof (rule Cons.IH [OF rest])
      have "drop (off + length p) (tu_text u) = drop (length p) (drop off (tu_text u))" by (simp add: add.commute)
      then show "drop (off + length p) (tu_text u) = concat ps" using Cons.prems(2) by simp
      show "plain \<Longrightarrow> lines_ok ps" using Cons.prems(7) lines_ok_Cons(2) by blast
      show "plain \<Longrightarrow> ps \<noteq> [] \<Longrightarrow> line + int (count_nl p) = int (Suc i) + 1"
        using Cons.prems(7,8) lines_ok_Cons(3) [of p ps] by auto
    qed (use Cons.prems len in auto)
    ultimately show ?thesis by (simp add: bs) (simp add: make_block_def)
  qed
qed

lemma build_blocks_spans:
  "build_blocks H extraction source plain m i off ps = Inr bs \<Longrightarrow>
     list_all (\<lambda>b. 0 \<le> bk_reading_order b \<and> span_valid (bk_span b) \<and> bk_visual b = None) bs"
  by (induction ps arbitrary: i off bs) (auto simp: txn_simps make_block_def span_valid_def split: if_splits)

lemma make_unitD:
  assumes "make_unit H U v extraction version lmt structure plain page = Inr u"
  shows "tu_version_id u = v" "tu_parser_version u = version" "tu_physical_page u = (if plain then None else Some (pp_ordinal page))"
    "tu_source_id u = source_identity H v (tu_physical_page u)" "tu_text u = pp_text page" "unit_fields_valid H u"
    "tu_decision u = decide (tu_source_id u) (observe U page structure (length (tu_blocks u)))"
    "tu_status u = unit_status_of U page" "tu_printed_label u = pp_label page" "tu_width u = pp_width page" "tu_height u = pp_height page"
    "tu_rotation u = pp_rotation page"
    "build_blocks H extraction (tu_source_id u) plain (lm_blocks lmt) 0 0
       (if plain then with_nl (split_nl (pp_text page)) else if pp_text page = [] then [] else [pp_text page]) = Inr (tu_blocks u)"
  using assms by (auto simp: make_unit_def Let_def txn_simps split: if_splits)

lemma decide_fields [simp]: "dn_source_id (decide src x) = src" "dn_observations (decide src x) = x"
  by (simp_all add: decide_def Let_def split: prod.splits)

lemma unit_status_failed [simp]: "(unit_status_of U page = U_failed) = pp_failed page"
  by (simp add: unit_status_of_def)

lemma make_unit_ok:
  assumes u: "make_unit H U v extraction version lmt structure plain page = Inr u"
    and a: "ar_extraction_id a = extraction" "(dc_page_count (ar_document a) = None) = plain" "dc_version_id (ar_document a) = v"
      "ar_parser_version a = version" "ar_structure_required a = structure"
    and ids: "distinct (map bk_block_id (tu_blocks u))"
    and page: "plain \<Longrightarrow> pp_label page = None \<and> pp_width page = None \<and> pp_height page = None \<and> pp_rotation page = None"
  shows "unit_ok H U a u"
proof -
  note d = make_unitD [OF u]
  have "blocks_ok H a u 0 (int 0) 1 (tu_blocks u)"
    by (rule build_blocks_ok [OF d(13)]) (use d(5) a with_nl_concat lines_ok_with_nl [OF split_nl_free] in auto)
  with d(1-5) d(7-12) a ids page show ?thesis
    by (auto simp: unit_ok_def Let_def observe_def split: if_splits)
qed

lemma make_units_all2: "make_units f ps = Inr us \<Longrightarrow> list_all2 (\<lambda>p u. f p = Inr u) ps us"
  by (induction ps arbitrary: us) (auto simp: txn_simps)

lemma list_all2_map_eq: "list_all2 R xs ys \<Longrightarrow> (\<And>x y. R x y \<Longrightarrow> g y = h x) \<Longrightarrow> map g ys = map h xs"
  by (induction rule: list_all2_induct) auto

lemma units_okI:
  "distinct (map tu_source_id us) \<Longrightarrow> set ids \<inter> tu_source_id ` set us = {} \<Longrightarrow> (\<And>u. u \<in> set us \<Longrightarrow> unit_ok H U a u) \<Longrightarrow>
     units_ok H U a ids us"
  by (induction us arbitrary: ids) auto

lemma prepareD:
  assumes "prepare H U sha runner rq stream = Inr (data, detected, version, v, extraction, units)"
  shows "length (rq_display_filename rq) \<le> 512" "0 \<le> lm_source_bytes (rq_limits rq) \<Longrightarrow> int (length data) \<le> lm_source_bytes (rq_limits rq)"
    "v = version_id H (rq_scope rq) (rq_document_id rq) (sha data)"
    "extraction = extraction_identity H U (rq_scope rq) v version (rq_extracted_at rq) (lm_source_bytes (rq_limits rq)) (lm_pages (rq_limits rq))
            (lm_characters (rq_limits rq)) (lm_blocks (rq_limits rq)) (rq_structure_required rq)"
    "\<exists>pages. (if detected = Text_plain then text_pages U (rq_limits rq) data else pdf_pages runner (rq_limits rq) data) = Inr pages
       \<and> sum_list (map (\<lambda>p. int (length (pp_text p))) pages) \<le> lm_characters (rq_limits rq)
       \<and> make_units (make_unit H U v extraction version (rq_limits rq) (rq_structure_required rq) (detected = Text_plain)) pages = Inr units"
    "sum_list (map (\<lambda>u. int (length (tu_blocks u))) units) \<le> lm_blocks (rq_limits rq)"
    "detected = detect data"
proof -
  from assms obtain pages where a: "\<not> length (rq_display_filename rq) > 512"
    and rd: "read_loop (lm_source_bytes (rq_limits rq)) [] stream = Inr data"
    and f: "format_of data (rq_display_filename rq) (rq_declared_mime rq) = Inr detected"
    and p: "(if detected = Text_plain then text_pages U (rq_limits rq) data else pdf_pages runner (rq_limits rq) data) = Inr pages"
    and s: "\<not> sum_list (map (\<lambda>p. int (length (pp_text p))) pages) > lm_characters (rq_limits rq)"
    and m: "make_units (make_unit H U v extraction version (rq_limits rq) (rq_structure_required rq) (detected = Text_plain)) pages = Inr units"
    and b: "\<not> sum_list (map (\<lambda>u. int (length (tu_blocks u))) units) > lm_blocks (rq_limits rq)"
    and v: "v = version_id H (rq_scope rq) (rq_document_id rq) (sha data)"
      "extraction = extraction_identity H U (rq_scope rq) v version (rq_extracted_at rq) (lm_source_bytes (rq_limits rq)) (lm_pages (rq_limits rq))
            (lm_characters (rq_limits rq)) (lm_blocks (rq_limits rq)) (rq_structure_required rq)"
    unfolding prepare_def Let_def by (auto simp: txn_simps split: if_splits)
  show "length (rq_display_filename rq) \<le> 512" using a by simp
  show "0 \<le> lm_source_bytes (rq_limits rq) \<Longrightarrow> int (length data) \<le> lm_source_bytes (rq_limits rq)"
    using rd read_loop_0 [of "lm_source_bytes (rq_limits rq)" stream] by (auto split: if_splits)
  show "detected = detect data" using f by (auto simp: format_of_def Let_def split: if_splits)
  show "\<exists>pages. (if detected = Text_plain then text_pages U (rq_limits rq) data else pdf_pages runner (rq_limits rq) data) = Inr pages
       \<and> sum_list (map (\<lambda>p. int (length (pp_text p))) pages) \<le> lm_characters (rq_limits rq)
       \<and> make_units (make_unit H U v extraction version (rq_limits rq) (rq_structure_required rq) (detected = Text_plain)) pages = Inr units"
    using p s m by auto
  show "sum_list (map (\<lambda>u. int (length (tu_blocks u))) units) \<le> lm_blocks (rq_limits rq)" using b by simp
  show "v = version_id H (rq_scope rq) (rq_document_id rq) (sha data)"
    "extraction = extraction_identity H U (rq_scope rq) v version (rq_extracted_at rq) (lm_source_bytes (rq_limits rq)) (lm_pages (rq_limits rq))
            (lm_characters (rq_limits rq)) (lm_blocks (rq_limits rq)) (rq_structure_required rq)" by (rule v)+
qed

lemma pages_facts:
  assumes "(if detected = Text_plain then text_pages U lmt data else pdf_pages runner lmt data) = Inr pages"
  shows "detected = Text_plain \<Longrightarrow> \<exists>p. pages = [p] \<and> pp_label p = None \<and> pp_width p = None \<and> pp_height p = None \<and> pp_rotation p = None"
    "detected \<noteq> Text_plain \<Longrightarrow> pages \<noteq> [] \<and> int (length pages) \<le> lm_pages lmt \<and> map pp_ordinal pages = map (\<lambda>i. int (Suc i)) [0..<length pages]"
  using assms by (auto simp: text_pages_def pdf_pages_def split: option.splits if_splits sum.splits exception_value.splits)

section \<open>Property\<close>

text \<open>C35: extraction never builds an artifact that its own validator rejects: when the input is accepted and no two derived
  identifiers of the document collide, the artifact made of the stored source and the extracted units
  satisfies every check of the artifact contract (identities, page inventory, observations, contiguous
  block coverage, line numbers, budgets), for text and for PDF.\<close>

theorem extraction_passes_validator:
  assumes prep: "prepare H U sha runner rq stream = Inr (data, detected, version, v, extraction, units)"
    and pos: "0 < lm_source_bytes (rq_limits rq)" "0 < lm_pages (rq_limits rq)" "0 < lm_characters (rq_limits rq)" "0 < lm_blocks (rq_limits rq)"
    and sha: "digest_text (sha data)"
    and ids: "distinct (map tu_source_id units)" "\<forall>u \<in> set units. distinct (map bk_block_id (tu_blocks u))"
  shows "artifact_valid H U (make_artifact rq (put_ref H sha (rq_scope rq) Source v data) detected version v extraction units)"
proof -
  let ?a = "make_artifact rq (put_ref H sha (rq_scope rq) Source v data) detected version v extraction units"
  note p = prepareD [OF prep]
  from p(5) obtain pages where pg: "(if detected = Text_plain then text_pages U (rq_limits rq) data else pdf_pages runner (rq_limits rq) data) = Inr pages"
    and chars: "sum_list (map (\<lambda>p. int (length (pp_text p))) pages) \<le> lm_characters (rq_limits rq)"
    and mk: "make_units (make_unit H U v extraction version (rq_limits rq) (rq_structure_required rq) (detected = Text_plain)) pages = Inr units" by auto
  note all = make_units_all2 [OF mk] and f = pages_facts [OF pg]
  have len: "length units = length pages" using list_all2_lengthD [OF all] by simp
  have page: "\<exists>q \<in> set pages. make_unit H U v extraction version (rq_limits rq) (rq_structure_required rq) (detected = Text_plain) q = Inr u"
    if "u \<in> set units" for u using all that unfolding list_all2_conv_all_nth by (metis in_set_conv_nth)
  have pdf: "(detected = Application_pdf) = (detected \<noteq> Text_plain)" by (cases detected) auto
  have unit: "unit_ok H U ?a u" if "u \<in> set units" for u
  proof -
    from page [OF that] obtain q where q: "q \<in> set pages"
      "make_unit H U v extraction version (rq_limits rq) (rq_structure_required rq) (detected = Text_plain) q = Inr u" by blast
    show ?thesis
      by (rule make_unit_ok [OF q(2)]) (use that ids(2) f(1) q(1) in \<open>auto simp: make_artifact_def pdf\<close>)
  qed
  have fields: "unit_fields_valid H u" if "u \<in> set units" for u using page [OF that] make_unitD(6) by blast
  have texts: "map (\<lambda>u. int (length (tu_text u))) units = map (\<lambda>p. int (length (pp_text p))) pages"
    by (rule list_all2_map_eq [OF all]) (simp add: make_unitD(5))
  have inv: "map tu_physical_page units = page_inventory (if detected = Application_pdf then Some (int (length units)) else None)"
  proof (cases "detected = Text_plain")
    case True
    with f(1) all obtain q u where "pages = [q]" "units = [u]" by (auto simp: list_all2_Cons1)
    with True all show ?thesis by (auto simp: page_inventory_def dest: make_unitD(3))
  next
    case False
    have "map tu_physical_page units = map (\<lambda>p. Some (pp_ordinal p)) pages"
      by (rule list_all2_map_eq [OF all]) (use False in \<open>simp add: make_unitD(3)\<close>)
    also have "\<dots> = map Some (map pp_ordinal pages)" by simp
    finally show ?thesis using False f(2) len pdf by (simp add: page_inventory_def comp_def)
  qed
  have "document_valid H (ar_document ?a)"
    using p(1,3) sha len f(2) by (auto simp: document_valid_def make_artifact_def Let_def object_ref_valid_def put_ref_def pdf Suc_le_eq)
  moreover have "validate_graph H U ?a"
    unfolding validate_graph_def Let_def
  proof (intro conjI)
    show "units_ok H U ?a [] (ar_units ?a)" by (rule units_okI) (use ids(1) unit in \<open>auto simp: make_artifact_def\<close>)
    show "(case dc_page_count (ar_document ?a) of None \<Rightarrow> 0 | Some n \<Rightarrow> n) \<le> ar_max_pages ?a"
      using f(2) len pos(2) by (auto simp: make_artifact_def pdf)
  qed (use p(2,4,6) pos inv chars texts in \<open>auto simp: make_artifact_def put_ref_def\<close>)
  ultimately show ?thesis
    using fields pos by (simp add: artifact_valid_def list_all_iff) (simp add: make_artifact_def)
qed

section \<open>A concrete extraction\<close>

definition sample_lang :: lang where
  "sample_lang = \<lparr>uc_printable = (\<lambda>c. 32 \<le> c), uc_space = (\<lambda>c. c = 32 \<or> c = 10), iso_text = (\<lambda>t. ''t'')\<rparr>"

definition sample_request :: request where
  "sample_request = \<lparr>rq_scope = \<lparr>tenant = 1, owner = 2\<rparr>, rq_document_id = 3, rq_display_filename = [], rq_declared_mime = ''text/plain'',
     rq_limits = \<lparr>lm_source_bytes = 100, lm_pages = 10, lm_characters = 100, lm_blocks = 10, lm_artifact_bytes = 1000\<rparr>,
     rq_created_at = 0, rq_extracted_at = 0, rq_expected_sha256 = None, rq_structure_required = False\<rparr>"

definition sample_parser :: parser where
  "sample_parser = \<lparr>pr_version = ''none'', pr_parse = (\<lambda>d l. Inl Other_exception)\<rparr>"

definition sample_hex :: string where "sample_hex = replicate 64 CHR ''a''"

definition sample_unit :: text_unit where
  "sample_unit = \<lparr>tu_source_id = 7, tu_version_id = 7, tu_physical_page = None, tu_printed_label = None, tu_width = None,
     tu_height = None, tu_rotation = None, tu_status = U_native_text, tu_method = M_native, tu_parser_version = ''utf8-strict/1'',
     tu_text = [104, 105], tu_blocks = [make_block sample_prims 7 7 True 0 0 [104, 105]],
     tu_decision = decide 7 \<lparr>ob_character_count = 2, ob_printable_ratio = 1, ob_replacement_ratio = 0, ob_has_native_text = True,
       ob_has_images = Some False, ob_has_graphics = Some False, ob_parser_failed = False, ob_structure_required = False, ob_block_count = 1\<rparr>,
     tu_ocr_engine = None, tu_ocr_model_version = None, tu_ocr_confidence = None\<rparr>"

lemma sample_hex_digest: "digest_text sample_hex" by code_simp

lemma sample_format: "format_of [104, 105] [] ''text/plain'' = Inr Text_plain"
  by (simp add: format_of_def detect_def path_suffix_def Let_def)

lemma sample_pages: "text_pages sample_lang (rq_limits sample_request) [104, 105] = Inr [\<lparr>pp_ordinal = 1, pp_text = [104, 105], pp_label = None,
    pp_width = None, pp_height = None, pp_rotation = None, pp_has_images = Some False, pp_has_graphics = Some False, pp_failed = False\<rparr>]"
  by (simp add: text_pages_def sample_lang_def sample_request_def has_text_def)

lemma sample_make_unit:
  "make_unit sample_prims sample_lang 7 7 ''utf8-strict/1'' (rq_limits sample_request) False True
     \<lparr>pp_ordinal = 1, pp_text = [104, 105], pp_label = None, pp_width = None, pp_height = None, pp_rotation = None,
      pp_has_images = Some False, pp_has_graphics = Some False, pp_failed = False\<rparr> = Inr sample_unit"
  by (simp add: make_unit_def Let_def count_nl_def newline_def sample_request_def source_identity_def sample_unit_def
      observe_def printable_ratio_def replacement_ratio_def has_text_def sample_lang_def unit_status_of_def
      unit_fields_valid_def observations_valid_def make_block_def span_valid_def)

lemma sample_prepare:
  "prepare sample_prims sample_lang (\<lambda>_. sample_hex) sample_parser sample_request [104, 105]
     = Inr ([104, 105], Text_plain, ''utf8-strict/1'', 7, 7, [sample_unit])"
  unfolding prepare_def Let_def
  using sample_format sample_pages sample_make_unit
  by (simp add: read_loop_0 sample_request_def version_id_def extraction_identity_def) (simp add: sample_unit_def)

definition sample_artifact_model :: artifact where
  "sample_artifact_model = make_artifact sample_request (put_ref sample_prims (\<lambda>_. sample_hex) (rq_scope sample_request) Source 7 [104, 105])
     Text_plain ''utf8-strict/1'' 7 7 [sample_unit]"

theorem extraction_passes_validator_witness:
  "artifact_valid sample_prims sample_lang (make_artifact sample_request
     (put_ref sample_prims (\<lambda>_. sample_hex) (rq_scope sample_request) Source 7 [104, 105]) Text_plain ''utf8-strict/1'' 7 7 [sample_unit])"
  by (rule extraction_passes_validator [OF sample_prepare])
    (simp_all add: sample_request_def sample_hex_digest sample_unit_def)

lemma sample_artifact_valid: "artifact_valid sample_prims sample_lang sample_artifact_model"
  by (simp add: artifact_valid_def sample_artifact_model_def make_artifact_def document_valid_def Let_def object_ref_valid_def put_ref_def
      sample_request_def version_id_def object_key_def sample_hex_digest sample_unit_def unit_fields_valid_def observations_valid_def
      make_block_def span_valid_def validate_graph_def extraction_identity_def page_inventory_def unit_ok_def source_identity_def
      has_text_def sample_lang_def printable_ratio_def replacement_ratio_def block_ok_def block_identity_def slice_def count_nl_def
      rstrip_nl_def newline_def)

theorem blocks_partition_text_witness:
  "concat (map bk_source_text (tu_blocks sample_unit)) = [104, 105]"
  using blocks_partition_text [OF sample_artifact_valid, of sample_unit]
  by (simp add: sample_artifact_model_def make_artifact_def) (simp add: sample_unit_def)

theorem block_evidence_resolves_witness:
  "\<exists>ref. resolve sample_artifact_model \<lparr>tenant = 1, owner = 2\<rparr> ref = Inr [104, 105]"
proof -
  have u: "sample_unit \<in> set (ar_units sample_artifact_model)" by (simp add: sample_artifact_model_def make_artifact_def)
  have b: "make_block sample_prims 7 7 True 0 0 [104, 105] \<in> set (tu_blocks sample_unit)" by (simp add: sample_unit_def)
  have "dc_scope (ar_document sample_artifact_model) = \<lparr>tenant = 1, owner = 2\<rparr>"
    by (simp add: sample_artifact_model_def make_artifact_def sample_request_def)
  with block_evidence_resolves [OF sample_artifact_valid u b] show ?thesis by (auto simp: make_block_def)
qed

end
