(* ===== verification/Pipeline.thy ===== *)
theory Pipeline
  imports Worker TextExtraction
begin

text \<open>
  The extraction step handler of documents/jobs/worker.py: extraction through the intent store of
  the leased step. Its manifest is one that the ledger accepts.
\<close>

definition intent_port :: "prims \<Rightarrow> (bytes \<Rightarrow> string) \<Rightarrow> lease \<Rightarrow> time \<Rightarrow> world put_port" where
  "intent_port H sha l now sc kind oid stream m expected = intent_put H sha l now sc kind oid stream m expected"

definition handler_request :: "job_row \<Rightarrow> step_row \<Rightarrow> request" where
  "handler_request job row = (let a = jr_request job; p = ad_profile a in
     \<lparr>rq_scope = ad_scope a, rq_document_id = ad_document_id a, rq_display_filename = ad_display_filename a,
      rq_declared_mime = mime_text (ad_mime a), rq_limits = profile_limits p, rq_created_at = jr_document_created_at job,
      rq_extracted_at = sr_execution_at row, rq_expected_sha256 = Some (or_sha256 (ad_source a)),
      rq_structure_required = pf_structure_required p\<rparr>)"

definition extraction_handler :: "prims \<Rightarrow> lang \<Rightarrow> (bytes \<Rightarrow> string) \<Rightarrow> parser \<Rightarrow> (artifact \<Rightarrow> bytes) \<Rightarrow> time \<Rightarrow> handler" where
  "extraction_handler H U sha runner serialize now job step l w =
     (let a = jr_request job; p = ad_profile a; spec = sr_spec (fst step);
          actual = (if ad_mime a = Text_plain then ''utf8-strict/1'' else pr_version runner) in
      if sp_stage spec \<noteq> EXTRACTING \<or> pf_parser_version p \<noteq> actual \<or> sp_schema_version spec \<noteq> ''extraction/1''
         \<or> sp_config_fingerprint spec \<noteq> fingerprint H (JObj [])
      then (Inl (Job_error ''profile_mismatch''), w)
      else case intent_read H sha l (ad_scope a) (ad_source a) (pf_max_source_bytes p) w of
        Inl e \<Rightarrow> (Inl e, w)
      | Inr data \<Rightarrow>
          (case extract_document H U sha runner serialize (intent_port H sha l now) (handler_request job (fst step)) data w of
             (Inl e, w1) \<Rightarrow> (Inl e, w1)
           | (Inr (art, ref), w1) \<Rightarrow>
               (if dc_source (ar_document art) \<noteq> ad_source a then Inl (Document_error ''integrity_error'') else Inr [ref], w1)))"

lemma intent_put_run:
  assumes "intent_put H sha l now sc kind oid stream m expected w = (r, w')"
  shows "(ledger_step_rel H st)\<^sup>*\<^sup>* (wd_ledger w) (wd_ledger w') \<and> wd_queue w' = wd_queue w"
proof -
  have "(ledger_step_rel H st)\<^sup>*\<^sup>* db db'" if "register_object H l ref now db = Inr ((), db')" for ref db db'
    using ledger_call_run [of H st "Register_object l ref now" db db'] that by (simp add: forget_def)
  with assms show ?thesis
    by (auto simp: intent_put_def Let_def split: if_splits sum.splits prod.splits option.splits)
qed

lemma extract_document_run:
  assumes "extract_document H U sha runner serialize (intent_port H sha l now) rq stream w = (r, w')"
  shows "(ledger_step_rel H st)\<^sup>*\<^sup>* (wd_ledger w) (wd_ledger w') \<and> wd_queue w' = wd_queue w"
  using assms
  by (auto simp: extract_document_def intent_port_def Let_def split: sum.splits prod.splits if_splits
      dest!: intent_put_run [where st = st] intro: rtranclp_trans)

lemma extract_document_Inr:
  assumes "extract_document H U sha runner serialize (intent_port H sha l now) rq stream w = (Inr (a, ref), w')"
  shows "intended (wd_ledger w') (ls_step_id l) ref \<and> or_kind ref = Artifact \<and> or_scope ref = ls_scope l \<and> object_ref_valid H ref
    \<and> artifact_valid H U a"
proof -
  from assms obtain w1 extraction encoded m e where art: "artifact_valid H U a"
    and put: "intent_put H sha l now (rq_scope rq) Artifact extraction encoded m e w1 = (Inr ref, w')"
    by (auto simp: extract_document_def intent_port_def Let_def split: sum.splits prod.splits if_splits)
  from put have ref: "ref = put_ref H sha (rq_scope rq) Artifact extraction (case read_loop m [] encoded of Inr d \<Rightarrow> d)"
    and sc: "rq_scope rq = ls_scope l"
    and val: "object_ref_valid H ref"
    by (auto simp: intent_put_def Let_def register_object_def split: if_splits sum.splits prod.splits option.splits)
  have "intended (wd_ledger w') (ls_step_id l) ref" by (rule intent_put_intended [OF put])
  with ref sc val art show ?thesis by (simp add: put_ref_def)
qed

section \<open>Properties\<close>

text \<open>The extraction handler acts on the ledger only through ledger operations and never touches the queue, so the
  worker guarantees apply to it.\<close>

theorem extraction_handler_well_behaved:
  "well_behaved H st (extraction_handler H U sha runner serialize now)"
  unfolding well_behaved_def
proof (intro allI)
  fix job step l w
  let ?r = "extraction_handler H U sha runner serialize now job step l w"
  show "(ledger_step_rel H st)\<^sup>*\<^sup>* (wd_ledger w) (wd_ledger (snd ?r)) \<and> wd_queue (snd ?r) = wd_queue w"
    by (auto simp: extraction_handler_def Let_def split: sum.splits prod.splits dest!: extract_document_run [where st = st])
qed

text \<open>Whatever the extraction handler returns as a manifest is one that the ledger can accept: it is a valid manifest of
  artifact objects in the scope of the lease, and every object of it is intended for the leased step.\<close>

theorem extraction_manifest_acceptable:
  "case extraction_handler H U sha runner serialize now job step l w of
     (Inl e, w') \<Rightarrow> True
   | (Inr refs, w') \<Rightarrow> manifest_valid H l refs \<and> list_all (intended (wd_ledger w') (ls_step_id l)) refs"
  by (auto simp: extraction_handler_def Let_def manifest_valid_def split: sum.splits prod.splits dest!: extract_document_Inr)

end
