(* ===== verification/DigestDiagnostics.thy ===== *)
theory DigestDiagnostics
  imports Json
begin

text \<open>
  The closed diagnostics of documents/digestion/diagnostics.py and the failures of
  documents/digestion/models.py: the reason and diagnostic enumerations, the paths that may leave
  the validator, and the selection of one diagnostic from the error list of the schema validator.
  A location is the tuple of keys and indices that the schema validator reports (\<open>None\<close> when it
  is no tuple); what else an error carries is never read.
\<close>

section \<open>Reasons\<close>

datatype validation_reason =
    MALFORMED_JSON | DUPLICATE_JSON_KEY | INVALID_UUID | INVALID_SUBJECT_TOKEN | INVALID_TEXT_BOUND
  | MISSING_REQUIRED_FIELD | INVALID_FIELD_TYPE | FORBIDDEN_EXTRA_FIELD | INVALID_ENUM
  | OTHER_PYDANTIC_VALIDATION | CANONICAL_ENCODING_FAILED | CANONICAL_REVALIDATION_FAILED
  | OTHER_CANONICAL_FAILURE | STAGE_ID_MISMATCH | STAGE_KIND_MISMATCH | UNAVAILABLE_WITH_CLAIMS
  | UNAVAILABLE_MISSING_LIMITATION | ANALYZED_WITHOUT_CLAIMS | UNAVAILABLE_REDUCTION | CLAIM_ID_MISMATCH
  | DUPLICATE_CLAIM_ID | ORIGINATING_STAGE_MISMATCH | SUBJECT_ON_NONFACT | FOREIGN_EVIDENCE
  | DUPLICATE_EVIDENCE | INVALID_QUALIFICATION_SOURCE | INVALID_CHILD_LINK | DUPLICATE_CHILD_LINK
  | UNSUPPORTED_FACT | OTHER_EVIDENCE_VALIDATION | MISSING_SOURCE_COVERAGE | MISSING_CHILD_COVERAGE
  | OTHER_COVERAGE_FAILURE | RAW_RESPONSE_LIMIT | CANONICAL_RESPONSE_LIMIT | CLAIM_LIMIT
  | ANNOTATION_LIMIT | TEXT_LIMIT

text \<open>The members with their values, in declaration order.\<close>

definition reason_members :: "(validation_reason \<times> string) list" where
  "reason_members = [(MALFORMED_JSON, ''malformed_json''), (DUPLICATE_JSON_KEY, ''duplicate_json_key''),
     (INVALID_UUID, ''invalid_uuid''), (INVALID_SUBJECT_TOKEN, ''invalid_subject_token''),
     (INVALID_TEXT_BOUND, ''invalid_text_bound''), (MISSING_REQUIRED_FIELD, ''missing_required_field''),
     (INVALID_FIELD_TYPE, ''invalid_field_type''), (FORBIDDEN_EXTRA_FIELD, ''forbidden_extra_field''),
     (INVALID_ENUM, ''invalid_enum''), (OTHER_PYDANTIC_VALIDATION, ''other_pydantic_validation''),
     (CANONICAL_ENCODING_FAILED, ''canonical_encoding_failed''),
     (CANONICAL_REVALIDATION_FAILED, ''canonical_revalidation_failed''),
     (OTHER_CANONICAL_FAILURE, ''other_canonical_failure''), (STAGE_ID_MISMATCH, ''stage_id_mismatch''),
     (STAGE_KIND_MISMATCH, ''stage_kind_mismatch''), (UNAVAILABLE_WITH_CLAIMS, ''unavailable_with_claims''),
     (UNAVAILABLE_MISSING_LIMITATION, ''unavailable_missing_limitation''),
     (ANALYZED_WITHOUT_CLAIMS, ''analyzed_without_claims''), (UNAVAILABLE_REDUCTION, ''unavailable_reduction''),
     (CLAIM_ID_MISMATCH, ''claim_id_mismatch''), (DUPLICATE_CLAIM_ID, ''duplicate_claim_id''),
     (ORIGINATING_STAGE_MISMATCH, ''originating_stage_mismatch''), (SUBJECT_ON_NONFACT, ''subject_on_nonfact''),
     (FOREIGN_EVIDENCE, ''foreign_evidence''), (DUPLICATE_EVIDENCE, ''duplicate_evidence''),
     (INVALID_QUALIFICATION_SOURCE, ''invalid_qualification_source''), (INVALID_CHILD_LINK, ''invalid_child_link''),
     (DUPLICATE_CHILD_LINK, ''duplicate_child_link''), (UNSUPPORTED_FACT, ''unsupported_fact''),
     (OTHER_EVIDENCE_VALIDATION, ''other_evidence_validation''), (MISSING_SOURCE_COVERAGE, ''missing_source_coverage''),
     (MISSING_CHILD_COVERAGE, ''missing_child_coverage''), (OTHER_COVERAGE_FAILURE, ''other_coverage_failure''),
     (RAW_RESPONSE_LIMIT, ''raw_response_limit''), (CANONICAL_RESPONSE_LIMIT, ''canonical_response_limit''),
     (CLAIM_LIMIT, ''claim_limit''), (ANNOTATION_LIMIT, ''annotation_limit''), (TEXT_LIMIT, ''text_limit'')]"

definition reason_value :: "validation_reason \<Rightarrow> string" where
  "reason_value r = (case map_of reason_members r of Some s \<Rightarrow> s | None \<Rightarrow> [])"

fun position :: "'a \<Rightarrow> 'a list \<Rightarrow> nat" where
  "position x [] = 0"
| "position x (y # ys) = (if x = y then 0 else Suc (position x ys))"

definition priorities :: "validation_reason \<Rightarrow> nat" where
  "priorities r = position r (map fst reason_members)"

section \<open>Paths\<close>

datatype path_part = PStr string | PInt int

type_synonym path = "path_part list"

definition scalar_fields :: "string list" where
  "scalar_fields = [''schema_version'', ''stage_id'', ''kind'', ''outcome'']"

definition claim_fields :: "string list" where
  "claim_fields = [''claim_id'', ''originating_stage'', ''text'', ''kind'', ''subject'', ''stance'', ''status'']"

definition path_key :: "path_part \<Rightarrow> string list \<Rightarrow> bool" where
  "path_key p names \<longleftrightarrow> (case p of PStr s \<Rightarrow> s \<in> set names | PInt _ \<Rightarrow> False)"

definition path_index :: "path_part \<Rightarrow> int \<Rightarrow> bool" where
  "path_index p limit \<longleftrightarrow> (case p of PStr _ \<Rightarrow> False | PInt i \<Rightarrow> 0 \<le> i \<and> i < limit)"

definition safe_tail :: "path \<Rightarrow> bool" where
  "safe_tail tail \<longleftrightarrow>
     tail = []
     \<or> (length tail = 1 \<and> path_key (tail ! 0) (claim_fields @ [''evidence_ids'', ''contradicting_evidence_ids'', ''qualifications'', ''lineage'']))
     \<or> (length tail = 2 \<and> path_key (tail ! 0) [''evidence_ids'', ''contradicting_evidence_ids''] \<and> path_index (tail ! 1) 4096)
     \<or> (2 \<le> length tail \<and> path_key (tail ! 0) [''qualifications'', ''lineage''] \<and> path_index (tail ! 1) 64
        \<and> (length tail = 2
           \<or> (length tail = 3 \<and> path_key (tail ! 2)
                (if tail ! 0 = PStr ''qualifications'' then [''text'', ''evidence_ids''] else [''stage_id'', ''claim_id'']))
           \<or> (length tail = 4 \<and> tail ! 0 = PStr ''qualifications'' \<and> tail ! 2 = PStr ''evidence_ids'' \<and> path_index (tail ! 3) 4096)))"

definition safe_path :: "path option \<Rightarrow> path" where
  "safe_path loc = (case loc of None \<Rightarrow> [] | Some path \<Rightarrow>
     if length path = 1 \<and> path_key (path ! 0) (scalar_fields @ [''claims'', ''open_questions'', ''limitations'']) then path
     else if length path = 2 \<and> path_key (path ! 0) [''open_questions'', ''limitations''] \<and> path_index (path ! 1) 64 then path
     else if length path < 2 \<or> path ! 0 \<noteq> PStr ''claims'' \<or> \<not> path_index (path ! 1) 64 then []
     else if safe_tail (drop 2 path) then path
     else [])"

section \<open>Diagnostics\<close>

record pydantic_diagnostic =
  pd_reason :: validation_reason
  pd_path :: path
  pd_error_count :: int

definition path_json :: "path_part \<Rightarrow> json" where
  "path_json p = (case p of PStr s \<Rightarrow> JStr s | PInt i \<Rightarrow> JInt i)"

definition diagnostic_evidence :: "pydantic_diagnostic \<Rightarrow> json" where
  "diagnostic_evidence d = JObj [(''reason'', JStr (reason_value (pd_reason d))),
     (''path'', JArr (map path_json (safe_path (Some (pd_path d))))),
     (''error_count'', JInt (if 0 < pd_error_count d then min (pd_error_count d) 64 else 1))]"

text \<open>Python's \<^verbatim>\<open>repr\<close> of a tuple of field names and indices.\<close>

definition part_repr :: "path_part \<Rightarrow> string" where
  "part_repr p = (case p of PStr s \<Rightarrow> CHR 0x27 # s @ [CHR 0x27] | PInt i \<Rightarrow> int_text i)"

fun join_parts :: "string list \<Rightarrow> string" where
  "join_parts [] = []"
| "join_parts [x] = x"
| "join_parts (x # y # zs) = x @ '', '' @ join_parts (y # zs)"

definition path_repr :: "path \<Rightarrow> string" where
  "path_repr p = (case p of [x] \<Rightarrow> ''('' @ part_repr x @ '',)'' | _ \<Rightarrow> ''('' @ join_parts (map part_repr p) @ '')'')"

definition error_reason :: "path \<Rightarrow> string \<Rightarrow> validation_reason" where
  "error_reason path kind =
     (if path = [] then OTHER_PYDANTIC_VALIDATION
      else if kind \<in> {''uuid_parsing'', ''uuid_type'', ''uuid_version''} then INVALID_UUID
      else if last path = PStr ''subject'' \<and> kind \<in> {''string_pattern_mismatch'', ''string_too_long'', ''string_too_short''}
        then INVALID_SUBJECT_TOKEN
      else if kind \<in> {''string_too_long'', ''string_too_short''} then INVALID_TEXT_BOUND
      else if kind = ''missing'' then MISSING_REQUIRED_FIELD
      else if kind = ''literal_error'' then INVALID_ENUM
      else if kind \<in> {''string_type'', ''tuple_type'', ''list_type'', ''model_type'', ''dict_type''} then INVALID_FIELD_TYPE
      else OTHER_PYDANTIC_VALIDATION)"

definition error_diagnostic :: "int \<Rightarrow> path option \<times> string \<Rightarrow> pydantic_diagnostic" where
  "error_diagnostic n err =
     (let path = safe_path (fst err) in
      if snd err = ''extra_forbidden''
      then \<lparr>pd_reason = FORBIDDEN_EXTRA_FIELD, pd_path = [], pd_error_count = min n 64\<rparr>
      else \<lparr>pd_reason = error_reason path (snd err), pd_path = path, pd_error_count = min n 64\<rparr>)"

text \<open>\<^verbatim>\<open>min\<close> with a key: the first of the least elements.\<close>

fun min_by :: "('a \<Rightarrow> 'k::linorder) \<Rightarrow> 'a \<Rightarrow> 'a list \<Rightarrow> 'a" where
  "min_by k x [] = x"
| "min_by k x (y # ys) = min_by k (if k y < k x then y else x) ys"

definition other_diagnostic :: pydantic_diagnostic where
  "other_diagnostic = \<lparr>pd_reason = OTHER_PYDANTIC_VALIDATION, pd_path = [], pd_error_count = 1\<rparr>"

text \<open>\<open>None\<close> stands for an exception that is not a validation error.\<close>

definition classify_pydantic :: "(path option \<times> string) list option \<Rightarrow> pydantic_diagnostic" where
  "classify_pydantic exc = (case exc of None \<Rightarrow> other_diagnostic
     | Some errors \<Rightarrow> (case map (error_diagnostic (int (length errors))) errors of
         [] \<Rightarrow> other_diagnostic
       | d # ds \<Rightarrow> min_by (\<lambda>d. (priorities (pd_reason d), path_repr (pd_path d))) d ds))"

section \<open>Failures\<close>

datatype validation_diagnostic =
    D_JSON_DECODE | D_DUPLICATE_JSON_KEY | D_PYDANTIC_VALIDATION | D_CANONICAL_SERIALIZATION | D_STAGE_BINDING
  | D_CLAIM_IDENTITY | D_CLAIM_CONTRACT | D_EVIDENCE_VALIDATION | D_COVERAGE_VALIDATION | D_RESPONSE_LIMIT

record digestion_error =
  de_category :: string
  de_diagnostic :: "validation_diagnostic option"
  de_reason :: "validation_reason option"
  de_pydantic :: "pydantic_diagnostic option"

definition digestion_categories :: "string list" where
  "digestion_categories = [''structural_planning_failed'', ''analysis_failed'', ''reducer_failed'',
     ''evidence_validation_failed'', ''coverage_failed'', ''inference_contract_error'',
     ''synthesis_limit_exceeded'', ''incompatible_checkpoint'']"

definition digestion_failure :: "string \<Rightarrow> validation_diagnostic option \<Rightarrow> validation_reason option
    \<Rightarrow> pydantic_diagnostic option \<Rightarrow> digestion_error" where
  "digestion_failure category d r p = \<lparr>
     de_category = (if category \<in> set digestion_categories then category else ''inference_contract_error''),
     de_diagnostic = d, de_reason = r, de_pydantic = p\<rparr>"

text \<open>What the functions of the digestion package raise: their own failure, or any other exception
  (a schema validation error of a constructor, a missing key).\<close>

datatype digestion_exception = Digestion_failure digestion_error | Other_failure

abbreviation dfail :: "string \<Rightarrow> digestion_exception" where
  "dfail c \<equiv> Digestion_failure (digestion_failure c None None None)"

abbreviation dreject :: "string \<Rightarrow> validation_diagnostic \<Rightarrow> validation_reason \<Rightarrow> digestion_exception" where
  "dreject c d r \<equiv> Digestion_failure (digestion_failure c (Some d) (Some r) None)"

section \<open>Nothing of the rejected content leaves the validator\<close>

definition path_vocabulary :: "string list" where
  "path_vocabulary = scalar_fields @ claim_fields @ [''claims'', ''open_questions'', ''limitations'', ''evidence_ids'',
     ''contradicting_evidence_ids'', ''qualifications'', ''lineage'']"

definition closed_part :: "path_part \<Rightarrow> bool" where
  "closed_part p \<longleftrightarrow> (case p of PStr s \<Rightarrow> s \<in> set path_vocabulary | PInt i \<Rightarrow> 0 \<le> i \<and> i < 4096)"

lemmas path_defs = path_key_def path_index_def closed_part_def path_vocabulary_def scalar_fields_def claim_fields_def

lemma path_key_closed: "path_key p names \<Longrightarrow> set names \<subseteq> set path_vocabulary \<Longrightarrow> closed_part p"
  by (auto simp: path_key_def closed_part_def split: path_part.splits)

lemma path_index_closed: "path_index p n \<Longrightarrow> n \<le> 4096 \<Longrightarrow> closed_part p"
  by (auto simp: path_index_def closed_part_def split: path_part.splits)

lemma list_all_short:
  "length xs = 1 \<Longrightarrow> list_all P xs = P (xs ! 0)"
  "length xs = 2 \<Longrightarrow> list_all P xs = (P (xs ! 0) \<and> P (xs ! 1))"
  "length xs = 3 \<Longrightarrow> list_all P xs = (P (xs ! 0) \<and> P (xs ! 1) \<and> P (xs ! 2))"
  "length xs = 4 \<Longrightarrow> list_all P xs = (P (xs ! 0) \<and> P (xs ! 1) \<and> P (xs ! 2) \<and> P (xs ! 3))"
  by (auto simp: list_all_length less_Suc_eq numeral_eq_Suc)

lemma safe_tail_closed: "safe_tail t \<Longrightarrow> list_all closed_part t \<and> length t \<le> 4"
  unfolding safe_tail_def
  by (elim disjE conjE; simp add: list_all_short)
    (auto simp: path_defs split: path_part.splits if_splits)

lemma safe_path_closed: "list_all closed_part (safe_path loc) \<and> length (safe_path loc) \<le> 6"
proof (cases loc)
  case (Some p)
  have two: "list_all closed_part p \<and> length p \<le> 6"
    if long: "\<not> length p < 2" and "p ! 0 = PStr ''claims''" "path_index (p ! 1) 64" "safe_tail (drop 2 p)"
  proof -
    obtain x y t where p: "p = x # y # t" using long by (cases p; cases "tl p") auto
    with that safe_tail_closed [of t] show ?thesis by (auto simp: path_defs split: path_part.splits)
  qed
  have one: "closed_part q" if "path_key q (scalar_fields @ [''claims'', ''open_questions'', ''limitations''])" for q
    using that by (auto simp: path_defs split: path_part.splits)
  have index: "closed_part q" if "path_key q [''open_questions'', ''limitations''] \<or> path_index q 64" for q
    using that by (auto simp: path_defs split: path_part.splits)
  show ?thesis
    using Some two by (simp add: safe_path_def list_all_short one index)
qed (simp add: safe_path_def)

lemma min_by_member: "min_by k x ys \<in> set (x # ys)"
proof (induction ys arbitrary: x)
  case (Cons y ys)
  from Cons.IH [of "if k y < k x then y else x"] show ?case by (auto split: if_splits)
qed simp

lemma min_by_le: "y \<in> set (x # ys) \<Longrightarrow> k (min_by k x ys) \<le> k y"
proof (induction ys arbitrary: x y)
  case (Cons z ys)
  have *: "k (min_by k (if k z < k x then z else x) ys) \<le> k (if k z < k x then z else x)"
    by (rule Cons.IH) simp
  show ?case
  proof (cases "y \<in> set ys")
    case True
    then show ?thesis using Cons.IH [of y "if k z < k x then z else x"] by simp
  next
    case False
    with Cons.prems have "y = x \<or> y = z" by auto
    with * show ?thesis by (auto split: if_splits intro: order_trans)
  qed
qed simp

definition closed_diagnostic :: "pydantic_diagnostic \<Rightarrow> bool" where
  "closed_diagnostic d \<longleftrightarrow> list_all closed_part (pd_path d) \<and> length (pd_path d) \<le> 6
     \<and> 1 \<le> pd_error_count d \<and> pd_error_count d \<le> 64 \<and> priorities (pd_reason d) \<le> 9"

lemma error_reason_priority: "priorities (error_reason p k) \<le> 9"
  by (simp add: error_reason_def priorities_def reason_members_def)

lemma error_diagnostic_closed: "1 \<le> n \<Longrightarrow> closed_diagnostic (error_diagnostic n e)"
  using safe_path_closed [of "fst e"] error_reason_priority [of "safe_path (fst e)" "snd e"]
  by (auto simp: closed_diagnostic_def error_diagnostic_def Let_def)
    (simp add: priorities_def reason_members_def)

lemma other_diagnostic_closed: "closed_diagnostic other_diagnostic"
  by (simp add: closed_diagnostic_def other_diagnostic_def priorities_def reason_members_def)

text \<open>Whatever the schema validator rejects, the diagnostic that survives is content-free: its path uses only
  the field names of the stage result schema and indices below 4096 and has at most six parts, its error count lies
  between 1 and 64, and its reason is one of the schema reasons.\<close>

theorem pydantic_diagnostic_closed: "closed_diagnostic (classify_pydantic exc)"
proof (cases exc)
  case (Some errors)
  show ?thesis
  proof (cases "map (error_diagnostic (int (length errors))) errors")
    case (Cons d ds)
    then have "1 \<le> int (length errors)" by (cases errors) auto
    moreover have "min_by (\<lambda>d. (priorities (pd_reason d), path_repr (pd_path d))) d ds
        \<in> set (map (error_diagnostic (int (length errors))) errors)"
      using min_by_member [of "\<lambda>d. (priorities (pd_reason d), path_repr (pd_path d))" d ds] Cons by simp
    ultimately have "closed_diagnostic (min_by (\<lambda>d. (priorities (pd_reason d), path_repr (pd_path d))) d ds)"
      using error_diagnostic_closed by fastforce
    then show ?thesis using Some Cons by (simp add: classify_pydantic_def)
  qed (simp add: Some classify_pydantic_def other_diagnostic_closed)
qed (simp add: classify_pydantic_def other_diagnostic_closed)

end
