(* ===== verification/DigestModels.thy ===== *)
theory DigestModels
  imports DocModels DigestDiagnostics
begin

text \<open>
  The contracts of documents/digestion/models.py: profile, structural tree, source pieces, chunks,
  reducers, claims, stage requests and results, checkpoints, coverage and the final digest, their
  schema constraints as predicates and the JSON dumps that sizes and identifiers are taken of.
  Generated and source text is a list of code points, a fraction an exact rational.
\<close>

section \<open>Profile\<close>

record managed_input_budget =
  mb_input_bytes :: int
  mb_base_bytes :: int
  mb_child_bytes :: int

record digestion_profile =
  dp_version :: string
  dp_structure_profile :: string
  dp_chunking_profile :: string
  dp_inference_profile :: string
  dp_inference_config :: string
  dp_reducer_profile :: string
  dp_prompt_profile :: string
  dp_context_tokens :: int
  dp_reserved_output_tokens :: int
  dp_template_tokens :: int
  dp_chunk_characters :: int
  dp_max_fan_in :: int
  dp_max_result_characters :: int
  dp_max_response_bytes :: "int option"
  dp_managed_input_budget :: "managed_input_budget option"
  dp_max_claims :: int
  dp_max_claim_characters :: int
  dp_max_annotations :: int
  dp_max_source_units :: int
  dp_max_chunks :: int
  dp_max_steps :: int
  dp_max_artifact_bytes :: int
  dp_max_depth :: int
  dp_allow_partial :: bool
  dp_minimum_coverage :: rat
  dp_max_failed_units :: int

definition budget_valid :: "managed_input_budget \<Rightarrow> bool" where
  "budget_valid b \<longleftrightarrow> 0 < mb_input_bytes b \<and> 0 < mb_base_bytes b \<and> 1024 < mb_child_bytes b"

definition digestion_profile_valid :: "digestion_profile \<Rightarrow> bool" where
  "digestion_profile_valid p \<longleftrightarrow>
     list_all (token_text 128) [dp_version p, dp_structure_profile p, dp_chunking_profile p, dp_inference_profile p,
       dp_reducer_profile p, dp_prompt_profile p]
     \<and> digest_text (dp_inference_config p)
     \<and> 0 < dp_context_tokens p \<and> 0 < dp_reserved_output_tokens p \<and> 0 \<le> dp_template_tokens p \<and> 0 < dp_chunk_characters p
     \<and> 2 \<le> dp_max_fan_in p \<and> dp_max_fan_in p \<le> 64 \<and> 0 < dp_max_result_characters p
     \<and> (case dp_max_response_bytes p of None \<Rightarrow> True | Some n \<Rightarrow> 0 < n \<and> n \<le> 4000000)
     \<and> (case dp_managed_input_budget p of None \<Rightarrow> True | Some b \<Rightarrow> budget_valid b)
     \<and> 1 \<le> dp_max_claims p \<and> dp_max_claims p \<le> 64 \<and> 64 \<le> dp_max_claim_characters p \<and> dp_max_claim_characters p \<le> 4096
     \<and> 0 \<le> dp_max_annotations p \<and> dp_max_annotations p \<le> 64
     \<and> 0 < dp_max_source_units p \<and> dp_max_source_units p \<le> 100000 \<and> 0 < dp_max_chunks p \<and> dp_max_chunks p \<le> 900
     \<and> 3 \<le> dp_max_steps p \<and> dp_max_steps p \<le> 1000 \<and> 0 < dp_max_artifact_bytes p
     \<and> 1 \<le> dp_max_depth p \<and> dp_max_depth p \<le> 64
     \<and> 0 \<le> dp_minimum_coverage p \<and> dp_minimum_coverage p \<le> 1 \<and> 0 \<le> dp_max_failed_units p
     \<and> dp_reserved_output_tokens p + dp_template_tokens p < dp_context_tokens p"

definition budget_json :: "managed_input_budget \<Rightarrow> json" where
  "budget_json b = JObj [(''input_bytes'', JInt (mb_input_bytes b)), (''base_bytes'', JInt (mb_base_bytes b)),
     (''child_bytes'', JInt (mb_child_bytes b))]"

text \<open>The serializer leaves the two optional fields out when they are not set.\<close>

definition digestion_profile_json :: "digestion_profile \<Rightarrow> json" where
  "digestion_profile_json p = JObj ([(''version'', JStr (dp_version p)), (''structure_profile'', JStr (dp_structure_profile p)),
     (''chunking_profile'', JStr (dp_chunking_profile p)), (''inference_profile'', JStr (dp_inference_profile p)),
     (''inference_config'', JStr (dp_inference_config p)), (''reducer_profile'', JStr (dp_reducer_profile p)),
     (''prompt_profile'', JStr (dp_prompt_profile p)), (''output_schema'', JStr ''stage-result/1''),
     (''role'', JStr ''summarization''), (''capability'', JStr ''structured-output''),
     (''context_tokens'', JInt (dp_context_tokens p)), (''reserved_output_tokens'', JInt (dp_reserved_output_tokens p)),
     (''template_tokens'', JInt (dp_template_tokens p)), (''chunk_characters'', JInt (dp_chunk_characters p)),
     (''max_fan_in'', JInt (dp_max_fan_in p)), (''max_result_characters'', JInt (dp_max_result_characters p)),
     (''max_claims'', JInt (dp_max_claims p)), (''max_claim_characters'', JInt (dp_max_claim_characters p)),
     (''max_annotations'', JInt (dp_max_annotations p)), (''max_source_units'', JInt (dp_max_source_units p)),
     (''max_chunks'', JInt (dp_max_chunks p)), (''max_steps'', JInt (dp_max_steps p)),
     (''max_artifact_bytes'', JInt (dp_max_artifact_bytes p)), (''max_depth'', JInt (dp_max_depth p)),
     (''overlap_characters'', JInt 0), (''estimator'', JStr ''json-characters/1''),
     (''allow_partial'', JBool (dp_allow_partial p)), (''minimum_coverage'', JFloat (dp_minimum_coverage p)),
     (''max_failed_units'', JInt (dp_max_failed_units p))]
     @ (case dp_max_response_bytes p of None \<Rightarrow> [] | Some n \<Rightarrow> [(''max_response_bytes'', JInt n)])
     @ (case dp_managed_input_budget p of None \<Rightarrow> [] | Some b \<Rightarrow> [(''managed_input_budget'', budget_json b)]))"

definition response_byte_limit :: "digestion_profile \<Rightarrow> int" where
  "response_byte_limit p = (case dp_max_response_bytes p of None \<Rightarrow> dp_max_result_characters p | Some n \<Rightarrow> n)"

definition digestion_profile_digest :: "prims \<Rightarrow> digestion_profile \<Rightarrow> string" where
  "digestion_profile_digest H p = fingerprint H (digestion_profile_json p)"

section \<open>Structure\<close>

datatype unit_kind = K_document | K_section | K_subsection | K_fallback
datatype unit_source = US_heading | US_page | US_text | US_root
datatype unit_confidence = Source_declared | Fallback_confidence

record structural_unit =
  su_id :: uuid
  su_parent :: "uuid option"
  su_children :: "uuid list"
  su_order :: int
  su_kind :: unit_kind
  su_heading :: "code_points option"
  su_path :: "code_points list"
  su_source :: unit_source
  su_confidence :: unit_confidence
  su_blocks :: "uuid list"
  su_sources :: "uuid list"
  su_pages :: "int list"

record structural_map =
  sm_extraction :: object_ref
  sm_version_id :: uuid
  sm_profile :: string
  sm_units :: "structural_unit list"

definition find_unit :: "structural_unit list \<Rightarrow> uuid \<Rightarrow> structural_unit option" where
  "find_unit us k = find (\<lambda>u. su_id u = k) us"

text \<open>The check of the children of one unit: each exists, names this unit as its parent, and carries
  its own index.\<close>

definition children_ok :: "structural_unit list \<Rightarrow> structural_unit \<Rightarrow> bool" where
  "children_ok us u \<longleftrightarrow> list_all (\<lambda>(i, c). case find_unit us c of None \<Rightarrow> False
      | Some x \<Rightarrow> su_parent x = Some (su_id u) \<and> su_order x = int i) (enumerate 0 (su_children u))"

text \<open>The depth-first walk: \<open>None\<close> is a rejected relationship, otherwise the visited keys. The top of
  the stack is the head of the list.\<close>

function tree_walk :: "structural_unit list \<Rightarrow> uuid list \<Rightarrow> uuid list \<Rightarrow> uuid list option" where
  "tree_walk us [] visited = Some visited"
| "tree_walk us (key # stack) visited =
     (if key \<in> set visited then None
      else case find_unit us key of None \<Rightarrow> None
        | Some u \<Rightarrow> if children_ok us u then tree_walk us (rev (su_children u) @ stack) (key # visited) else None)"
  by pat_completeness auto

lemma find_unit_id: "find_unit us k = Some u \<Longrightarrow> u \<in> set us \<and> su_id u = k"
  unfolding find_unit_def by (drule find_SomeD) simp

termination tree_walk
proof (relation "measure (\<lambda>(us, stack, visited). card (su_id ` set us - set visited))", goal_cases)
  case (2 us key stack visited u)
  from find_unit_id [OF this(2)] have "key \<in> su_id ` set us" by auto
  with 2(1) have "su_id ` set us - set (key # visited) \<subset> su_id ` set us - set visited" by auto
  then show ?case by (simp add: psubset_card_mono)
qed simp

definition structural_map_valid :: "structural_map \<Rightarrow> bool" where
  "structural_map_valid m \<longleftrightarrow> list_all (\<lambda>u. 0 \<le> su_order u) (sm_units m)
     \<and> distinct (map su_id (sm_units m))
     \<and> (case sm_units m of [] \<Rightarrow> False | first # _ \<Rightarrow> su_parent first = None \<and> su_kind first = K_document
        \<and> (case tree_walk (sm_units m) [su_id first] [] of None \<Rightarrow> False
            | Some visited \<Rightarrow> length visited = length (sm_units m)))"

section \<open>Pieces, chunks and reducers\<close>

datatype limitation = Visual_uninterpreted | Hard_split | No_limitation

fun limitation_text :: "limitation \<Rightarrow> string" where
  "limitation_text Visual_uninterpreted = ''visual_uninterpreted''"
| "limitation_text Hard_split = ''hard_split''"
| "limitation_text No_limitation = ''none''"

fun block_kind_text :: "block_kind \<Rightarrow> string" where
  "block_kind_text B_text = ''text''"
| "block_kind_text B_paragraph = ''paragraph''"
| "block_kind_text B_heading = ''heading''"
| "block_kind_text B_table = ''table''"
| "block_kind_text B_figure = ''figure''"
| "block_kind_text B_caption = ''caption''"
| "block_kind_text B_unknown = ''unknown''"

record source_piece =
  pc_evidence :: evidence_ref
  pc_text :: code_points
  pc_kind :: block_kind
  pc_cells :: "code_points list list option"
  pc_limitation :: limitation

definition opt_json :: "('a \<Rightarrow> json) \<Rightarrow> 'a option \<Rightarrow> json" where
  "opt_json f x = (case x of None \<Rightarrow> JNull | Some v \<Rightarrow> f v)"

definition span_json :: "span \<Rightarrow> json" where
  "span_json s = JObj [(''start'', JInt (sn_start s)), (''end'', JInt (sn_end s)),
     (''line_start'', opt_json JInt (sn_line_start s)), (''line_end'', opt_json JInt (sn_line_end s))]"

definition evidence_json :: "evidence_ref \<Rightarrow> json" where
  "evidence_json e = JObj [(''scope'', scope_json (ev_scope e)), (''document_version_id'', uuid_json (ev_version_id e)),
     (''extraction_id'', uuid_json (ev_extraction_id e)), (''source_id'', uuid_json (ev_source_id e)),
     (''block_id'', uuid_json (ev_block_id e)), (''span'', span_json (ev_span e))]"

definition cells_json :: "code_points list list option \<Rightarrow> json" where
  "cells_json c = opt_json (\<lambda>rows. JArr (map (\<lambda>row. JArr (map JText row)) rows)) c"

definition piece_json :: "source_piece \<Rightarrow> json" where
  "piece_json p = JObj [(''evidence'', evidence_json (pc_evidence p)), (''text'', JText (pc_text p)),
     (''kind'', JStr (block_kind_text (pc_kind p))), (''cells'', cells_json (pc_cells p)),
     (''limitation'', JStr (limitation_text (pc_limitation p)))]"

definition evidence_id :: "prims \<Rightarrow> source_piece \<Rightarrow> uuid" where
  "evidence_id H p = stable_id H [''source-evidence/1'', fingerprint H (evidence_json (pc_evidence p))]"

record analysis_chunk =
  ch_id :: uuid
  ch_version_id :: uuid
  ch_structural_parent :: uuid
  ch_path :: "code_points list"
  ch_sequence :: int
  ch_profile :: string
  ch_pieces :: "source_piece list"
  ch_estimated_tokens :: int

record reduction_node =
  rn_stage_id :: uuid
  rn_structural_parent :: uuid
  rn_children :: "uuid list"
  rn_level :: int
  rn_path :: "code_points list"
  rn_estimated_tokens :: int

record plan =
  pl_profile :: digestion_profile
  pl_structure :: structural_map
  pl_chunks :: "analysis_chunk list"
  pl_reducers :: "reduction_node list"
  pl_root_id :: uuid
  pl_eligible :: "uuid list"
  pl_skipped :: "uuid list"
  pl_unsupported :: "uuid list"

section \<open>Claims and results\<close>

record claim_link =
  lk_stage_id :: uuid
  lk_claim_id :: uuid

record qualification =
  ql_text :: code_points
  ql_evidence_ids :: "uuid list"

datatype claim_kind = C_fact | C_unknown | C_unsupported | C_commentary | C_structural
datatype stance = Affirmed | Denied | Unknown_stance
datatype claim_status = Supported | Unknown_status | Unsupported_status

record digest_claim =
  cl_id :: uuid
  cl_originating_stage :: uuid
  cl_text :: code_points
  cl_kind :: claim_kind
  cl_evidence_ids :: "uuid list"
  cl_contradicting :: "uuid list"
  cl_qualifications :: "qualification list"
  cl_lineage :: "claim_link list"
  cl_subject :: "string option"
  cl_stance :: stance
  cl_status :: claim_status

datatype stage_kind = Analysis | Reduction
datatype stage_outcome = Analyzed | Unavailable

record stage_result =
  rs_stage_id :: uuid
  rs_kind :: stage_kind
  rs_outcome :: stage_outcome
  rs_claims :: "digest_claim list"
  rs_open_questions :: "code_points list"
  rs_limitations :: "code_points list"

fun claim_kind_text :: "claim_kind \<Rightarrow> string" where
  "claim_kind_text C_fact = ''fact''"
| "claim_kind_text C_unknown = ''unknown''"
| "claim_kind_text C_unsupported = ''unsupported''"
| "claim_kind_text C_commentary = ''commentary''"
| "claim_kind_text C_structural = ''structural''"

fun stance_text :: "stance \<Rightarrow> string" where
  "stance_text Affirmed = ''affirmed''"
| "stance_text Denied = ''denied''"
| "stance_text Unknown_stance = ''unknown''"

fun claim_status_text :: "claim_status \<Rightarrow> string" where
  "claim_status_text Supported = ''supported''"
| "claim_status_text Unknown_status = ''unknown''"
| "claim_status_text Unsupported_status = ''unsupported''"

fun stage_kind_text :: "stage_kind \<Rightarrow> string" where
  "stage_kind_text Analysis = ''analysis''"
| "stage_kind_text Reduction = ''reduction''"

fun stage_outcome_text :: "stage_outcome \<Rightarrow> string" where
  "stage_outcome_text Analyzed = ''analyzed''"
| "stage_outcome_text Unavailable = ''unavailable''"

definition bounded_text :: "code_points \<Rightarrow> bool" where
  "bounded_text t \<longleftrightarrow> 1 \<le> length t \<and> length t \<le> 4096"

definition claim_valid :: "digest_claim \<Rightarrow> bool" where
  "claim_valid c \<longleftrightarrow> bounded_text (cl_text c) \<and> list_all (\<lambda>q. bounded_text (ql_text q)) (cl_qualifications c)
     \<and> (case cl_subject c of None \<Rightarrow> True | Some s \<Rightarrow> token_text 128 s)"

definition stage_result_valid :: "stage_result \<Rightarrow> bool" where
  "stage_result_valid r \<longleftrightarrow> list_all claim_valid (rs_claims r) \<and> list_all bounded_text (rs_open_questions r)
     \<and> list_all bounded_text (rs_limitations r)"

definition link_json :: "claim_link \<Rightarrow> json" where
  "link_json l = JObj [(''stage_id'', uuid_json (lk_stage_id l)), (''claim_id'', uuid_json (lk_claim_id l))]"

definition qualification_json :: "qualification \<Rightarrow> json" where
  "qualification_json q = JObj [(''text'', JText (ql_text q)), (''evidence_ids'', JArr (map uuid_json (ql_evidence_ids q)))]"

definition claim_json :: "digest_claim \<Rightarrow> json" where
  "claim_json c = JObj [(''claim_id'', uuid_json (cl_id c)), (''originating_stage'', uuid_json (cl_originating_stage c)),
     (''text'', JText (cl_text c)), (''kind'', JStr (claim_kind_text (cl_kind c))),
     (''evidence_ids'', JArr (map uuid_json (cl_evidence_ids c))),
     (''contradicting_evidence_ids'', JArr (map uuid_json (cl_contradicting c))),
     (''qualifications'', JArr (map qualification_json (cl_qualifications c))),
     (''lineage'', JArr (map link_json (cl_lineage c))), (''subject'', opt_json JStr (cl_subject c)),
     (''stance'', JStr (stance_text (cl_stance c))), (''status'', JStr (claim_status_text (cl_status c)))]"

definition stage_result_json :: "stage_result \<Rightarrow> json" where
  "stage_result_json r = JObj [(''schema_version'', JStr ''stage-result/1''), (''stage_id'', uuid_json (rs_stage_id r)),
     (''kind'', JStr (stage_kind_text (rs_kind r))), (''outcome'', JStr (stage_outcome_text (rs_outcome r))),
     (''claims'', JArr (map claim_json (rs_claims r))), (''open_questions'', JArr (map JText (rs_open_questions r))),
     (''limitations'', JArr (map JText (rs_limitations r)))]"

section \<open>Requests and checkpoints\<close>

record proposition_row =
  pr_subject :: string
  pr_affirmed :: bool
  pr_denied :: bool

record inherited_summary_row =
  is_analyzed_pieces :: int
  is_failed_pieces :: int
  is_qualifications :: int
  is_contradictions :: int
  is_open_questions :: int

record child_input =
  ci_artifact :: object_ref
  ci_result :: stage_result
  ci_inherited :: inherited_summary_row

record stage_request =
  rq_stage_id :: uuid
  rq_stage :: stage_kind
  rq_profile :: digestion_profile
  rq_path :: "code_points list"
  rq_source_data :: "source_piece list"
  rq_children :: "child_input list"

definition summary_valid :: "inherited_summary_row \<Rightarrow> bool" where
  "summary_valid s \<longleftrightarrow> 0 \<le> is_analyzed_pieces s \<and> 0 \<le> is_failed_pieces s \<and> 0 \<le> is_qualifications s
     \<and> 0 \<le> is_contradictions s \<and> 0 \<le> is_open_questions s"

definition summary_json :: "inherited_summary_row \<Rightarrow> json" where
  "summary_json s = JObj [(''analyzed_pieces'', JInt (is_analyzed_pieces s)), (''failed_pieces'', JInt (is_failed_pieces s)),
     (''qualifications'', JInt (is_qualifications s)), (''contradictions'', JInt (is_contradictions s)),
     (''open_questions'', JInt (is_open_questions s)), (''source_set'', JStr ''application-owned-source-lineage'')]"

definition child_json :: "child_input \<Rightarrow> json" where
  "child_json c = JObj [(''artifact'', ref_json (ci_artifact c)), (''result'', stage_result_json (ci_result c)),
     (''inherited'', summary_json (ci_inherited c)), (''material_kind'', JStr ''generated-intermediate'')]"

definition request_json :: "stage_request \<Rightarrow> json" where
  "request_json r = JObj [(''schema_version'', JStr ''stage-request/1''), (''stage_id'', uuid_json (rq_stage_id r)),
     (''stage'', JStr (stage_kind_text (rq_stage r))), (''profile'', digestion_profile_json (rq_profile r)),
     (''structural_path'', JArr (map JText (rq_path r))), (''source_data'', JArr (map piece_json (rq_source_data r))),
     (''children'', JArr (map child_json (rq_children r))),
     (''instructions'', JStr ''Analyze data; inherit all child claims and their qualifications/conflicts.''),
     (''tools'', JArr [])]"

definition material_boundary :: "prims \<Rightarrow> stage_request \<Rightarrow> bool" where
  "material_boundary H r = (case rq_stage r of
       Analysis \<Rightarrow> rq_source_data r \<noteq> [] \<and> rq_children r = [] \<and> distinct (map (evidence_id H) (rq_source_data r))
     | Reduction \<Rightarrow> rq_source_data r = [] \<and> int (length (rq_children r)) \<le> dp_max_fan_in (rq_profile r)
         \<and> distinct (map (\<lambda>c. rs_stage_id (ci_result c)) (rq_children r)))"

definition request_valid :: "prims \<Rightarrow> stage_request \<Rightarrow> bool" where
  "request_valid H r \<longleftrightarrow> digestion_profile_valid (rq_profile r)
     \<and> list_all (\<lambda>p. span_valid (ev_span (pc_evidence p))) (rq_source_data r)
     \<and> list_all (\<lambda>c. object_ref_valid H (ci_artifact c) \<and> stage_result_valid (ci_result c) \<and> summary_valid (ci_inherited c)) (rq_children r)
     \<and> material_boundary H r"

record checkpoint =
  cp_plan_hash :: string
  cp_parents :: "object_ref list"
  cp_result :: stage_result
  cp_inherited :: inherited_summary_row
  cp_propositions :: "proposition_row list"

record coverage =
  cv_eligible :: "uuid list"
  cv_analyzed :: "uuid list"
  cv_failed :: "uuid list"
  cv_skipped :: "uuid list"
  cv_unsupported :: "uuid list"
  cv_included :: "uuid list"
  cv_fraction :: rat

record contradiction =
  ct_subject :: string
  ct_affirmed :: "uuid list"
  ct_denied :: "uuid list"

record section_summary =
  ss_unit_id :: uuid
  ss_stage_id :: uuid
  ss_synthesis :: code_points

datatype digest_status = D_COMPLETE | D_PARTIAL | D_FAILED

record digest_artifact =
  da_version_id :: uuid
  da_extraction :: object_ref
  da_plan :: object_ref
  da_profile :: string
  da_status :: digest_status
  da_executive_summary :: code_points
  da_root :: uuid
  da_sections :: "section_summary list"
  da_findings :: "digest_claim list"
  da_synthesis_claims :: "digest_claim list"
  da_qualifications :: "qualification list"
  da_contradictions :: "contradiction list"
  da_open_questions :: "code_points list"
  da_coverage :: coverage
  da_limitations :: "code_points list"
  da_evidence :: "evidence_ref list"
  da_checkpoints :: "object_ref list"

section \<open>The structural tree\<close>

text \<open>An accepted map is a tree: every unit is reached from the root exactly once.\<close>

lemma tree_walk_visited:
  assumes "tree_walk us stack visited = Some vs" and "distinct visited" and "set visited \<subseteq> su_id ` set us"
  shows "distinct vs \<and> set vs \<subseteq> su_id ` set us \<and> set visited \<union> set stack \<subseteq> set vs"
  using assms
proof (induction us stack visited rule: tree_walk.induct)
  case (2 us key stack visited)
  then obtain u where u: "key \<notin> set visited" "find_unit us key = Some u" "children_ok us u"
    "tree_walk us (rev (su_children u) @ stack) (key # visited) = Some vs"
    by (auto split: if_splits option.splits)
  from find_unit_id [OF u(2)] have "key \<in> su_id ` set us" by auto
  with 2(1) [OF u(1,2,3,4)] 2(3,4) u(1) show ?case by auto
qed auto

text \<open>What the walk accepts is closed under the child relation, with the links checked.\<close>

lemma tree_walk_closed:
  assumes "tree_walk us stack visited = Some vs" and "key \<in> set vs" and "key \<notin> set visited"
  shows "\<exists>u. find_unit us key = Some u \<and> children_ok us u \<and> set (su_children u) \<subseteq> set vs"
  using assms
proof (induction us stack visited rule: tree_walk.induct)
  case (2 us k stack visited)
  then obtain u where u: "k \<notin> set visited" "find_unit us k = Some u" "children_ok us u"
    "tree_walk us (rev (su_children u) @ stack) (k # visited) = Some vs"
    by (auto split: if_splits option.splits)
  show ?case
  proof (cases "key = k")
    case True
    have "set (rev (su_children u) @ stack) \<subseteq> set vs"
      using u(4)
    proof -
      have gen: "tree_walk us st v = Some w \<Longrightarrow> set v \<union> set st \<subseteq> set w" for us st v w
        by (induction us st v rule: tree_walk.induct) (auto split: if_splits option.splits)
      show ?thesis using gen [OF u(4)] by blast
    qed
    with u True show ?thesis by auto
  next
    case False
    with 2(1) [OF u(1,2,3,4)] 2(3,4) show ?thesis by auto
  qed
qed auto

lemma structural_map_tree:
  assumes "structural_map_valid m" and "u \<in> set (sm_units m)"
  shows "children_ok (sm_units m) u"
proof -
  obtain first rest vs where m: "sm_units m = first # rest" "distinct (map su_id (sm_units m))"
    "tree_walk (sm_units m) [su_id first] [] = Some vs" "length vs = length (sm_units m)"
    using assms(1) by (auto simp: structural_map_valid_def split: list.splits option.splits)
  have v: "distinct vs" "set vs \<subseteq> su_id ` set (sm_units m)"
    using tree_walk_visited [OF m(3)] by auto
  then have "card (set vs) = card (su_id ` set (sm_units m))"
    using m(2,4) by (metis distinct_card length_map list.set_map)
  with v(2) have "set vs = su_id ` set (sm_units m)" by (intro card_subset_eq) auto
  with assms(2) have "su_id u \<in> set vs" by auto
  from tree_walk_closed [OF m(3) this] obtain x where x: "find_unit (sm_units m) (su_id u) = Some x" "children_ok (sm_units m) x"
    by auto
  have "x = u" using find_unit_id [OF x(1)] assms(2) m(2) by (metis distinct_key_eq)
  with x show ?thesis by simp
qed

end
