(* ===== verification/DigestSizing.thy ===== *)
theory DigestSizing
  imports DigestModels
begin

text \<open>
  Canonical encoding and size accounting: \<^verbatim>\<open>encode\<close> of documents/digestion/codec.py, the
  contributions of documents/digestion/sizing.py and the request admission \<^verbatim>\<open>check_request\<close> of
  documents/digestion/planning.py. One canonical JSON character counts as one estimated token.
\<close>

section \<open>Encoding\<close>

text \<open>\<^verbatim>\<open>encode\<close> dumps, validates the dump again and prints it; \<open>ok\<close> is the outcome of that validation.\<close>

definition encode :: "prims \<Rightarrow> bool \<Rightarrow> json \<Rightarrow> digestion_exception + string" where
  "encode H ok payload =
     (if ok then Inr (canonical H payload)
      else Inl (dreject ''inference_contract_error'' D_CANONICAL_SERIALIZATION CANONICAL_REVALIDATION_FAILED))"

definition estimate :: "string \<Rightarrow> int" where
  "estimate s = int (length s)"

definition request_size :: "prims \<Rightarrow> stage_request \<Rightarrow> digestion_exception + int" where
  "request_size H r = sbind (encode H (request_valid H r) (request_json r))
     (\<lambda>text. Inr (estimate text + dp_template_tokens (rq_profile r)))"

section \<open>Managed envelopes\<close>

definition child_wrapper_bytes :: int where "child_wrapper_bytes = 1024"

definition escaped_size :: "prims \<Rightarrow> json \<Rightarrow> int" where
  "escaped_size H v = int (length (canonical H (JStr (canonical H v)))) - 2"

definition sorted_ids :: "uuid list \<Rightarrow> json" where
  "sorted_ids us = JArr (map JStr (sort (remdups (map uuid_text us))))"

definition result_contribution :: "prims \<Rightarrow> stage_result \<Rightarrow> int" where
  "result_contribution H r =
     escaped_size H (stage_result_json r)
     + escaped_size H (JArr (map (\<lambda>c. JObj [(''stage_id'', uuid_json (rs_stage_id r)), (''claim_id'', uuid_json (cl_id c))]) (rs_claims r)))
     + escaped_size H (sorted_ids (concat (map (\<lambda>c. cl_evidence_ids c @ cl_contradicting c) (rs_claims r)))) + 8"

definition child_contribution :: "prims \<Rightarrow> child_input \<Rightarrow> int" where
  "child_contribution H c = result_contribution H (ci_result c) + escaped_size H (child_json c)
     - escaped_size H (stage_result_json (ci_result c))"

text \<open>The budget of the profile is passed by the callers, which have checked that there is one.\<close>

definition reduction_size :: "prims \<Rightarrow> managed_input_budget \<Rightarrow> code_points list \<Rightarrow> int \<Rightarrow> int" where
  "reduction_size H b path children = mb_base_bytes b + escaped_size H (JArr (map JText path)) - escaped_size H (JArr [])
     + children * mb_child_bytes b"

definition analysis_size :: "prims \<Rightarrow> managed_input_budget \<Rightarrow> stage_request \<Rightarrow> int" where
  "analysis_size H b r = reduction_size H b (rq_path r) 0
     + escaped_size H (JArr (map (\<lambda>p. JObj [(''evidence_id'', uuid_json (evidence_id H p)), (''text'', JText (pc_text p)),
         (''kind'', JStr (block_kind_text (pc_kind p))), (''cells'', cells_json (pc_cells p)),
         (''limitation'', JStr (limitation_text (pc_limitation p)))]) (rq_source_data r)))
     + escaped_size H (sorted_ids (map (evidence_id H) (rq_source_data r)))"

section \<open>Request admission\<close>

definition rendered_size :: "prims \<Rightarrow> managed_input_budget \<Rightarrow> stage_request \<Rightarrow> int" where
  "rendered_size H b r = (case rq_stage r of Analysis \<Rightarrow> analysis_size H b r
     | Reduction \<Rightarrow> reduction_size H b (rq_path r) (int (length (rq_children r))))"

definition check_request :: "prims \<Rightarrow> stage_request \<Rightarrow> digestion_exception + int" where
  "check_request H r = sbind (request_size H r) (\<lambda>raw.
     sbind (case dp_managed_input_budget (rq_profile r) of
         None \<Rightarrow> Inr raw
       | Some b \<Rightarrow>
           if list_ex (\<lambda>c. mb_child_bytes b < child_contribution H c) (rq_children r) \<or> mb_input_bytes b < rendered_size H b r
           then Inl (dfail ''synthesis_limit_exceeded'') else Inr (max raw (rendered_size H b r))) (\<lambda>size.
     if dp_context_tokens (rq_profile r) < size + dp_reserved_output_tokens (rq_profile r)
     then Inl (dfail ''synthesis_limit_exceeded'') else Inr size))"

text \<open>An admitted request is valid and leaves room for the reserved output in the context.\<close>

lemma check_request_fits:
  assumes "check_request H r = Inr n"
  shows "request_valid H r"
    "int (length (canonical H (request_json r))) + dp_template_tokens (rq_profile r) \<le> n"
    "n + dp_reserved_output_tokens (rq_profile r) \<le> dp_context_tokens (rq_profile r)"
    "\<And>b. dp_managed_input_budget (rq_profile r) = Some b \<Longrightarrow> rendered_size H b r \<le> mb_input_bytes b
       \<and> list_all (\<lambda>c. child_contribution H c \<le> mb_child_bytes b) (rq_children r)"
  using assms
  by (auto simp: check_request_def request_size_def encode_def estimate_def txn_simps list_ex_iff list_all_iff
      split: if_splits option.splits)

end
