(* ===== verification/DigestPlanning.thy ===== *)
theory DigestPlanning
  imports DigestSizing
begin

text \<open>
  The deterministic planner of documents/digestion/planning.py: the structural map of an artifact,
  the source inventory, the chunks of source pieces and the reduction tree. A failure of the
  planner's own is a \<open>Digestion_failure\<close>; a schema error of a constructor and a missing key are
  \<open>Other_failure\<close>, which \<open>build_plan\<close> turns into \<^verbatim>\<open>structural_planning_failed\<close>. The
  serialisation of the artifact and the hash of the bytes are arguments.
\<close>

declare sbind_cong [fundef_cong]

section \<open>The structural map\<close>

type_synonym headings = "(uuid \<times> block) list"

definition all_blocks :: "artifact \<Rightarrow> block list" where
  "all_blocks a = concat (map tu_blocks (ar_units a))"

definition inventory :: "artifact \<Rightarrow> (text_unit \<times> block) list" where
  "inventory a = concat (map (\<lambda>u. map (Pair u) (tu_blocks u)) (ar_units a))"

definition headings_of :: "artifact \<Rightarrow> headings" where
  "headings_of a = filter (\<lambda>(k, b). bk_kind b = B_heading) (dict_of (map (\<lambda>b. (bk_block_id b, b)) (all_blocks a)))"

text \<open>The walk up the declared parents of a heading.\<close>

function heading_chain :: "headings \<Rightarrow> int \<Rightarrow> uuid list \<Rightarrow> uuid option \<Rightarrow> digestion_exception + unit" where
  "heading_chain hs depth seen None = Inr ()"
| "heading_chain hs depth seen (Some p) =
     (if p \<in> set seen \<or> depth < int (length seen) then Inl (dfail ''structural_planning_failed'')
      else case map_of hs p of None \<Rightarrow> Inl Other_failure
        | Some b \<Rightarrow> heading_chain hs depth (p # seen) (bk_parent_id b))"
  by pat_completeness auto

termination heading_chain
  by (relation "measure (\<lambda>(hs, depth, seen, p). nat (depth + 1 - int (length seen)))") auto

definition check_headings :: "headings \<Rightarrow> int \<Rightarrow> digestion_exception + unit" where
  "check_headings hs depth = fold_sum (\<lambda>(k, b) _.
     if (case bk_parent_id b of None \<Rightarrow> False | Some p \<Rightarrow> map_of hs p = None)
     then Inl (dfail ''structural_planning_failed'') else heading_chain hs depth [k] (bk_parent_id b)) hs ()"

definition structure_root :: "prims \<Rightarrow> artifact \<Rightarrow> digestion_profile \<Rightarrow> uuid" where
  "structure_root H a p = stable_id H [uuid_text (ar_extraction_id a), digestion_profile_digest H p, ''structure-root'']"

definition heading_node :: "prims \<Rightarrow> uuid \<Rightarrow> uuid \<Rightarrow> uuid" where
  "heading_node H root_id k = stable_id H [uuid_text root_id, uuid_text k]"

definition fallback_node :: "prims \<Rightarrow> uuid \<Rightarrow> uuid" where
  "fallback_node H root_id = stable_id H [uuid_text root_id, ''fallback'']"

definition root_unit :: "uuid \<Rightarrow> structural_unit" where
  "root_unit root_id = \<lparr>su_id = root_id, su_parent = None, su_children = [], su_order = 0, su_kind = K_document, su_heading = None,
     su_path = [], su_source = US_root, su_confidence = Source_declared, su_blocks = [], su_sources = [], su_pages = []\<rparr>"

text \<open>\<^verbatim>\<open>add\<close>: nothing for a key that is present, otherwise a new last node, linked from its parent.\<close>

definition add_node :: "uuid \<Rightarrow> uuid \<Rightarrow> unit_kind \<Rightarrow> unit_source \<Rightarrow> unit_confidence \<Rightarrow> code_points option \<Rightarrow> code_points list
    \<Rightarrow> structural_unit list \<Rightarrow> digestion_exception + structural_unit list" where
  "add_node key parent kind src conf heading path nodes =
     (if find_unit nodes key \<noteq> None then Inr nodes
      else case find_unit nodes parent of None \<Rightarrow> Inl Other_failure
        | Some pn \<Rightarrow> Inr (upd_where (\<lambda>u. su_id u = parent) (\<lambda>u. u\<lparr>su_children := su_children u @ [key]\<rparr>) nodes
            @ [\<lparr>su_id = key, su_parent = Some parent, su_children = [], su_order = int (length (su_children pn)), su_kind = kind,
                su_heading = heading, su_path = path, su_source = src, su_confidence = conf, su_blocks = [], su_sources = [], su_pages = []\<rparr>]))"

definition add_fallback :: "prims \<Rightarrow> document \<Rightarrow> uuid \<Rightarrow> structural_unit list \<Rightarrow> digestion_exception + structural_unit list" where
  "add_fallback H d root_id nodes = add_node (fallback_node H root_id) root_id K_fallback
     (if dc_page_count d \<noteq> None then US_page else US_text) Fallback_confidence None [] nodes"

text \<open>The node that owns the block: its own for a heading, the heading's for a block that names one,
  the one before otherwise.\<close>

definition choose_node :: "prims \<Rightarrow> headings \<Rightarrow> uuid \<Rightarrow> block \<Rightarrow> structural_unit list \<times> uuid option
    \<Rightarrow> digestion_exception + (structural_unit list \<times> uuid option)" where
  "choose_node H hs root_id b = (\<lambda>(nodes, current).
     case map_of hs (bk_block_id b) of
       Some h \<Rightarrow>
         (let parent_key = bk_parent_id h;
              parent = (case parent_key of None \<Rightarrow> root_id | Some k \<Rightarrow> heading_node H root_id k);
              key = heading_node H root_id (bk_block_id b) in
          case find_unit nodes parent of None \<Rightarrow> Inl (dfail ''structural_planning_failed'')
          | Some pn \<Rightarrow> sbind (add_node key parent (if parent_key \<noteq> None then K_subsection else K_section) US_heading Source_declared
              (Some (bk_source_text b)) (su_path pn @ [bk_source_text b]) nodes) (\<lambda>nodes'. Inr (nodes', Some key)))
     | None \<Rightarrow>
         (case bk_parent_id b of
            Some k \<Rightarrow>
              if map_of hs k = None then Inr (nodes, current)
              else if find_unit nodes (heading_node H root_id k) = None then Inl (dfail ''structural_planning_failed'')
              else Inr (nodes, Some (heading_node H root_id k))
          | None \<Rightarrow> Inr (nodes, current)))"

definition record_block :: "text_unit \<Rightarrow> block \<Rightarrow> structural_unit \<Rightarrow> structural_unit" where
  "record_block u b n = n\<lparr>su_blocks := su_blocks n @ [bk_block_id b],
     su_sources := (if su_sources n = [] \<or> last (su_sources n) \<noteq> tu_source_id u then su_sources n @ [tu_source_id u] else su_sources n),
     su_pages := (case tu_physical_page u of None \<Rightarrow> su_pages n
        | Some p \<Rightarrow> if p \<noteq> 0 \<and> (su_pages n = [] \<or> last (su_pages n) \<noteq> p) then su_pages n @ [p] else su_pages n)\<rparr>"

definition place_block :: "prims \<Rightarrow> document \<Rightarrow> headings \<Rightarrow> uuid \<Rightarrow> text_unit \<times> block \<Rightarrow> structural_unit list \<times> uuid option
    \<Rightarrow> digestion_exception + (structural_unit list \<times> uuid option)" where
  "place_block H d hs root_id ub st =
     sbind (choose_node H hs root_id (snd ub) st) (\<lambda>(nodes, current).
     sbind (case current of Some c \<Rightarrow> Inr (nodes, c)
              | None \<Rightarrow> sbind (add_fallback H d root_id nodes) (\<lambda>nodes'. Inr (nodes', fallback_node H root_id))) (\<lambda>(nodes', c).
     Inr (upd_where (\<lambda>n. su_id n = c) (record_block (fst ub) (snd ub)) nodes', Some c)))"

definition finish_root :: "artifact \<Rightarrow> uuid \<Rightarrow> structural_unit list \<Rightarrow> structural_unit list" where
  "finish_root a root_id nodes = upd_where (\<lambda>n. su_id n = root_id) (\<lambda>n. n\<lparr>su_sources := map tu_source_id (ar_units a),
     su_pages := concat (map (\<lambda>u. case tu_physical_page u of None \<Rightarrow> [] | Some p \<Rightarrow> [p]) (ar_units a))\<rparr>) nodes"

definition build_structure :: "prims \<Rightarrow> artifact \<Rightarrow> object_ref \<Rightarrow> digestion_profile \<Rightarrow> digestion_exception + structural_map" where
  "build_structure H a ref p =
     (let root_id = structure_root H a p; hs = headings_of a; d = ar_document a in
      sbind (check_headings hs (dp_max_depth p)) (\<lambda>_.
      sbind (fold_sum (place_block H d hs root_id) (inventory a) ([root_unit root_id], None)) (\<lambda>(nodes, _).
      sbind (if (case find_unit nodes root_id of Some n \<Rightarrow> su_children n = [] | None \<Rightarrow> False) then add_fallback H d root_id nodes else Inr nodes) (\<lambda>nodes'.
      let m = \<lparr>sm_extraction = ref, sm_version_id = dc_version_id d, sm_profile = digestion_profile_digest H p,
               sm_units = finish_root a root_id nodes'\<rparr>
      in if structural_map_valid m then Inr m else Inl Other_failure))))"

section \<open>The source inventory\<close>

record inventory_split =
  iv_eligible :: "uuid list"
  iv_skipped :: "uuid list"
  iv_unsupported :: "uuid list"

definition unit_ids :: "text_unit \<Rightarrow> uuid list" where
  "unit_ids u = (if tu_blocks u = [] then [tu_source_id u] else map bk_block_id (tu_blocks u))"

definition unit_unsupported :: "text_unit \<Rightarrow> bool" where
  "unit_unsupported u \<longleftrightarrow> tu_status u = U_failed \<or> dn_outcome (tu_decision u) \<noteq> Native_accepted"

definition sort_unit :: "lang \<Rightarrow> text_unit \<Rightarrow> inventory_split \<Rightarrow> inventory_split" where
  "sort_unit U u iv =
     (if unit_unsupported u then iv\<lparr>iv_unsupported := iv_unsupported iv @ unit_ids u\<rparr>
      else if \<not> has_text U (tu_text u) then iv\<lparr>iv_skipped := iv_skipped iv @ unit_ids u\<rparr>
      else iv\<lparr>iv_eligible := iv_eligible iv @ unit_ids u\<rparr>)"

definition source_inventory :: "lang \<Rightarrow> artifact \<Rightarrow> inventory_split" where
  "source_inventory U a = fold (sort_unit U) (ar_units a) \<lparr>iv_eligible = [], iv_skipped = [], iv_unsupported = []\<rparr>"

section \<open>Chunks\<close>

definition make_chunk :: "prims \<Rightarrow> artifact \<Rightarrow> digestion_profile \<Rightarrow> nat \<Rightarrow> structural_unit \<Rightarrow> source_piece list
    \<Rightarrow> digestion_exception + analysis_chunk" where
  "make_chunk H a p n node pieces =
     (let profile_hash = digestion_profile_digest H p;
          key = stable_id H ([uuid_text (ar_extraction_id a), profile_hash, ''chunk'', uuid_text (su_id node)]
                  @ map (\<lambda>x. uuid_text (evidence_id H x)) pieces);
          request = \<lparr>rq_stage_id = key, rq_stage = Analysis, rq_profile = p, rq_path = su_path node, rq_source_data = pieces, rq_children = []\<rparr> in
      if \<not> request_valid H request then Inl Other_failure
      else sbind (check_request H request) (\<lambda>size.
        Inr \<lparr>ch_id = key, ch_version_id = dc_version_id (ar_document a), ch_structural_parent = su_id node, ch_path = su_path node,
             ch_sequence = int n, ch_profile = profile_hash, ch_pieces = pieces, ch_estimated_tokens = size\<rparr>))"

definition append_chunk :: "prims \<Rightarrow> artifact \<Rightarrow> digestion_profile \<Rightarrow> structural_unit \<Rightarrow> source_piece list \<Rightarrow> analysis_chunk list
    \<Rightarrow> digestion_exception + analysis_chunk list" where
  "append_chunk H a p node pieces chunks =
     (if pieces = [] then Inr chunks
      else if dp_max_chunks p \<le> int (length chunks) then Inl (dfail ''synthesis_limit_exceeded'')
      else sbind (make_chunk H a p (length chunks) node pieces) (\<lambda>c. Inr (chunks @ [c])))"

text \<open>The source of a block as the planner sees it: the unit, the block and the parsed cells.\<close>

definition block_cells :: "block \<Rightarrow> code_points list list option" where
  "block_cells b = (case bk_visual b of None \<Rightarrow> None | Some v \<Rightarrow> if vs_state v = Parsed then vs_cells v else None)"

definition make_piece :: "artifact \<Rightarrow> text_unit \<Rightarrow> block \<Rightarrow> int \<Rightarrow> int option \<Rightarrow> int \<Rightarrow> source_piece" where
  "make_piece a u b start line fin =
     (let text = slice start fin (tu_text u); split = (start \<noteq> sn_start (bk_span b) \<or> fin \<noteq> sn_end (bk_span b)) in
      \<lparr>pc_evidence = \<lparr>ev_scope = dc_scope (ar_document a), ev_version_id = dc_version_id (ar_document a),
         ev_extraction_id = ar_extraction_id a, ev_source_id = tu_source_id u, ev_block_id = bk_block_id b,
         ev_span = \<lparr>sn_start = start, sn_end = fin, sn_line_start = line,
           sn_line_end = (case line of None \<Rightarrow> None | Some l \<Rightarrow> Some (l + int (count_nl (rstrip_nl text))))\<rparr>\<rparr>,
       pc_text = text, pc_kind = bk_kind b, pc_cells = block_cells b,
       pc_limitation = (if bk_kind b \<in> {B_table, B_figure} \<and> block_cells b = None then Visual_uninterpreted
                        else if split then Hard_split else No_limitation)\<rparr>)"

text \<open>The inner loop: the piece is halved until a chunk of it alone is admitted.\<close>

function fit_piece :: "prims \<Rightarrow> artifact \<Rightarrow> digestion_profile \<Rightarrow> nat \<Rightarrow> structural_unit \<Rightarrow> text_unit \<Rightarrow> block \<Rightarrow> int \<Rightarrow> int option \<Rightarrow> int
    \<Rightarrow> digestion_exception + (int \<times> source_piece)" where
  "fit_piece H a p n node u b start line fin =
     (let piece = make_piece a u b start line fin in
      if \<not> span_valid (ev_span (pc_evidence piece)) then Inl Other_failure
      else if block_cells b \<noteq> None \<and> (start \<noteq> sn_start (bk_span b) \<or> fin \<noteq> sn_end (bk_span b)) then Inl (dfail ''synthesis_limit_exceeded'')
      else case make_chunk H a p n node [piece] of
          Inr _ \<Rightarrow> Inr (fin, piece)
        | Inl Other_failure \<Rightarrow> Inl Other_failure
        | Inl (Digestion_failure e) \<Rightarrow>
            if block_cells b \<noteq> None \<or> fin - start \<le> 1 then Inl (Digestion_failure e)
            else fit_piece H a p n node u b start line (start + (fin - start) div 2))"
  by pat_completeness auto

termination fit_piece
  by (relation "measure (\<lambda>(H, a, p, n, node, u, b, start, line, fin). nat (fin - start))") auto

declare fit_piece.simps [simp del]

lemma fit_piece_result:
  assumes "fit_piece H a p n node u b start line fin = Inr (e, piece)"
  shows "piece = make_piece a u b start line e \<and> span_valid (ev_span (pc_evidence piece)) \<and> e \<le> fin \<and> (start < fin \<longrightarrow> start < e)
     \<and> (fin \<le> start \<longrightarrow> e = fin)"
  using assms
proof (induction H a p n node u b start line fin rule: fit_piece.induct)
  case (1 H a p n node u b start line fin)
  show ?case
  proof (cases "make_chunk H a p n node [make_piece a u b start line fin]")
    case (Inr c)
    with 1(2) show ?thesis by (subst (asm) fit_piece.simps) (auto simp: Let_def split: if_splits)
  next
    case (Inl x)
    with 1(2) have x: "span_valid (ev_span (pc_evidence (make_piece a u b start line fin)))"
      "\<not> (block_cells b \<noteq> None \<and> (start \<noteq> sn_start (bk_span b) \<or> fin \<noteq> sn_end (bk_span b)))"
      "\<exists>err. x = Digestion_failure err" "\<not> (block_cells b \<noteq> None \<or> fin - start \<le> 1)"
      "fit_piece H a p n node u b start line (start + (fin - start) div 2) = Inr (e, piece)"
      by (subst (asm) fit_piece.simps; auto simp: Let_def split: if_splits digestion_exception.splits)+
    then obtain err where "x = Digestion_failure err" by blast
    from 1(1) [OF refl _ x(2) Inl this x(4,5)] x(1,4) have
      "piece = make_piece a u b start line e \<and> span_valid (ev_span (pc_evidence piece)) \<and> e \<le> start + (fin - start) div 2
       \<and> (start < start + (fin - start) div 2 \<longrightarrow> start < e)" by blast
    with x(4) show ?thesis by auto
  qed
qed

text \<open>The state of the chunk loop: the finished chunks, the pending pieces and their characters.\<close>

type_synonym pending = "analysis_chunk list \<times> source_piece list \<times> int"

definition place_piece :: "prims \<Rightarrow> artifact \<Rightarrow> digestion_profile \<Rightarrow> structural_unit \<Rightarrow> source_piece \<Rightarrow> pending \<Rightarrow> digestion_exception + pending" where
  "place_piece H a p node piece = (\<lambda>(chunks, pieces, characters).
     let size = int (length (pc_text piece)); small = (characters + size \<le> dp_chunk_characters p) in
     sbind (if pieces \<noteq> [] \<and> small
            then (case make_chunk H a p (length chunks) node (pieces @ [piece]) of
                    Inr _ \<Rightarrow> Inr True | Inl (Digestion_failure _) \<Rightarrow> Inr False | Inl Other_failure \<Rightarrow> Inl Other_failure)
            else Inr small) (\<lambda>fits.
     if pieces \<noteq> [] \<and> \<not> fits
     then sbind (append_chunk H a p node pieces chunks) (\<lambda>chunks'. Inr (chunks', [piece], size))
     else Inr (chunks, pieces @ [piece], characters + size)))"

text \<open>\<^verbatim>\<open>str.rfind\<close> of a line feed between two offsets.\<close>

definition rfind_nl :: "code_points \<Rightarrow> int \<Rightarrow> int \<Rightarrow> int option" where
  "rfind_nl t start fin = (case find (\<lambda>i. t ! i = newline) (rev [nat start..<min (nat fin) (length t)]) of None \<Rightarrow> None | Some i \<Rightarrow> Some (int i))"

definition window_end :: "digestion_profile \<Rightarrow> text_unit \<Rightarrow> block \<Rightarrow> int \<Rightarrow> int" where
  "window_end p u b start =
     (let fin = min (sn_end (bk_span b)) (start + dp_chunk_characters p) in
      if fin < sn_end (bk_span b)
      then (case rfind_nl (tu_text u) start fin of None \<Rightarrow> fin | Some i \<Rightarrow> if start \<le> i then i + 1 else fin)
      else fin)"

lemma window_end_bounds:
  assumes "0 < dp_chunk_characters p"
  shows "window_end p u b start \<le> sn_end (bk_span b)"
    "start < sn_end (bk_span b) \<Longrightarrow> start < window_end p u b start"
proof -
  have r: "i < fin" if "rfind_nl (tu_text u) start fin = Some i" for i fin
    using that find_SomeD [of "\<lambda>i. tu_text u ! i = newline"]
    by (fastforce simp: rfind_nl_def split: option.splits)
  show "window_end p u b start \<le> sn_end (bk_span b)"
    using r by (auto simp: window_end_def Let_def split: option.splits) fastforce
  show "start < sn_end (bk_span b) \<Longrightarrow> start < window_end p u b start"
    using assms by (auto simp: window_end_def Let_def split: option.splits)
qed

text \<open>The loop over one block. The profile is validated before, so that a chunk has at least one
  character; the first branch is never taken.\<close>

function split_block :: "prims \<Rightarrow> artifact \<Rightarrow> digestion_profile \<Rightarrow> structural_unit \<Rightarrow> text_unit \<Rightarrow> block \<Rightarrow> int \<Rightarrow> int option \<Rightarrow> bool
    \<Rightarrow> pending \<Rightarrow> digestion_exception + pending" where
  "split_block H a p node u b start line first st =
     (if dp_chunk_characters p \<le> 0 then Inl Other_failure
      else if \<not> (start < sn_end (bk_span b) \<or> first) then Inr st
      else sbind (fit_piece H a p (length (fst st)) node u b start line (window_end p u b start)) (\<lambda>r.
        sbind (place_piece H a p node (snd r) st) (\<lambda>st'.
          split_block H a p node u b (fst r) (map_option (\<lambda>l. l + int (count_nl (pc_text (snd r)))) line) False st')))"
  by pat_completeness auto

termination split_block
proof (relation "measure (\<lambda>(H, a, p, node, u, b, start, line, first, st). nat (sn_end (bk_span b) - start) + (if first then 1 else 0))",
    goal_cases)
  case (2 H a p node u b start line first st r st')
  obtain e piece where r: "r = (e, piece)" by (cases r)
  have w: "window_end p u b start \<le> sn_end (bk_span b)" "start < sn_end (bk_span b) \<Longrightarrow> start < window_end p u b start"
    using window_end_bounds [where p = p and u = u and b = b and start = start] 2(1) by auto
  have f: "e \<le> window_end p u b start" "start < window_end p u b start \<Longrightarrow> start < e"
      "window_end p u b start \<le> start \<Longrightarrow> e = window_end p u b start"
    using fit_piece_result 2(3) r by blast+
  show ?case
  proof (cases "start < sn_end (bk_span b)")
    case True
    with w f r show ?thesis by auto
  next
    case False
    with 2(2) have "first" by blast
    moreover have "e = window_end p u b start" using f(3) w(1) False by linarith
    moreover have "window_end p u b start = sn_end (bk_span b)"
      using False 2(1) by (auto simp: window_end_def Let_def)
    ultimately show ?thesis using r by simp
  qed
qed simp

declare split_block.simps [simp del]

definition owners :: "structural_unit list \<Rightarrow> (uuid \<times> structural_unit) list" where
  "owners us = dict_of (concat (map (\<lambda>n. map (\<lambda>k. (k, n)) (su_blocks n)) us))"

definition extend_groups :: "structural_unit list \<Rightarrow> text_unit \<times> block \<Rightarrow> (structural_unit \<times> uuid list) list
    \<Rightarrow> digestion_exception + (structural_unit \<times> uuid list) list" where
  "extend_groups us ub groups =
     (case map_of (owners us) (bk_block_id (snd ub)) of None \<Rightarrow> Inl Other_failure
      | Some n \<Rightarrow>
          if groups = [] \<or> su_id (fst (last groups)) \<noteq> su_id n then Inr (groups @ [(n, [bk_block_id (snd ub)])])
          else Inr (butlast groups @ [(fst (last groups), snd (last groups) @ [bk_block_id (snd ub)])]))"

definition block_index :: "artifact \<Rightarrow> (uuid \<times> text_unit \<times> block) list" where
  "block_index a = dict_of (map (\<lambda>(u, b). (bk_block_id b, u, b)) (inventory a))"

definition chunk_block :: "prims \<Rightarrow> artifact \<Rightarrow> digestion_profile \<Rightarrow> uuid list \<Rightarrow> structural_unit \<Rightarrow> uuid \<Rightarrow> pending
    \<Rightarrow> digestion_exception + pending" where
  "chunk_block H a p eligible node k st =
     (if k \<notin> set eligible then Inr st
      else case map_of (block_index a) k of None \<Rightarrow> Inl Other_failure
        | Some (u, b) \<Rightarrow> split_block H a p node u b (sn_start (bk_span b)) (sn_line_start (bk_span b)) True st)"

definition chunk_group :: "prims \<Rightarrow> artifact \<Rightarrow> digestion_profile \<Rightarrow> uuid list \<Rightarrow> structural_unit \<times> uuid list \<Rightarrow> analysis_chunk list
    \<Rightarrow> digestion_exception + analysis_chunk list" where
  "chunk_group H a p eligible g chunks =
     sbind (fold_sum (chunk_block H a p eligible (fst g)) (snd g) (chunks, [], 0)) (\<lambda>(chunks', pieces, _).
     append_chunk H a p (fst g) pieces chunks')"

section \<open>Reduction\<close>

function batches :: "nat \<Rightarrow> 'a list \<Rightarrow> 'a list list" where
  "batches n xs = (if xs = [] \<or> n = 0 then [] else take n xs # batches n (drop n xs))"
  by pat_completeness auto

termination batches
  by (relation "measure (\<lambda>(n, xs). length xs)") auto

declare batches.simps [simp del]

record reduction_state =
  rd_reducers :: "reduction_node list"
  rd_levels :: "(uuid \<times> int) list"
  rd_positions :: "(uuid \<times> int) list"

definition known :: "(uuid \<times> int) list \<Rightarrow> uuid list \<Rightarrow> int list option" where
  "known d ks = those (map (map_of d) ks)"

text \<open>One reducer over a batch of children; \<open>per\<close> is the estimated size of a child.\<close>

definition reduce_one :: "prims \<Rightarrow> artifact \<Rightarrow> digestion_profile \<Rightarrow> nat \<Rightarrow> structural_unit \<Rightarrow> int \<Rightarrow> int \<Rightarrow> uuid list
    \<Rightarrow> reduction_state \<times> uuid list \<Rightarrow> digestion_exception + (reduction_state \<times> uuid list)" where
  "reduce_one H a p n_chunks node overhead per batch = (\<lambda>(st, following).
     case (known (rd_levels st) batch, known (rd_positions st) batch) of
       (Some (l # ls), Some (q # qs)) \<Rightarrow>
         (let level = 1 + fold max ls l;
              key = stable_id H ([uuid_text (ar_extraction_id a), digestion_profile_digest H p, ''reduction'', uuid_text (su_id node)]
                      @ map uuid_text batch) in
          if dp_max_depth p < level then Inl (dfail ''synthesis_limit_exceeded'')
          else let st' = st\<lparr>rd_reducers := rd_reducers st @ [\<lparr>rn_stage_id = key, rn_structural_parent = su_id node, rn_children = batch,
                              rn_level = level, rn_path = su_path node, rn_estimated_tokens = overhead + int (length batch) * per\<rparr>],
                         rd_levels := dict_put key level (rd_levels st),
                         rd_positions := dict_put key (fold min qs q) (rd_positions st)\<rparr> in
            if dp_max_steps p < int n_chunks + int (length (rd_reducers st')) + 2 then Inl (dfail ''synthesis_limit_exceeded'')
            else Inr (st', following @ [key]))
     | _ \<Rightarrow> Inl Other_failure)"

lemma batches_length: "2 \<le> n \<Longrightarrow> 2 \<le> length xs \<Longrightarrow> length (batches n xs) < length xs"
proof (induction n xs rule: batches.induct)
  case (1 n xs)
  show ?case
  proof (cases "2 \<le> length (drop n xs)")
    case True
    moreover have "\<not> (xs = [] \<or> n = 0)" using 1(2,3) by auto
    ultimately have "length (batches n (drop n xs)) < length (drop n xs)" using 1(1,2) by blast
    with 1(2,3) show ?thesis by (subst batches.simps) auto
  next
    case False
    then have "length (batches n (drop n xs)) \<le> length (drop n xs)"
      using 1(2) by (subst batches.simps, cases "drop n xs") (auto simp: batches.simps)
    with 1(2,3) False show ?thesis by (subst batches.simps) auto
  qed
qed

text \<open>The rounds of \<^verbatim>\<open>reduce_group\<close>. A round that does not shrink the list would repeat for ever; the
  capacity check of \<open>reduce_group\<close> excludes it (\<open>reduction_round_shrinks\<close>).\<close>

function reduce_rounds :: "prims \<Rightarrow> artifact \<Rightarrow> digestion_profile \<Rightarrow> nat \<Rightarrow> structural_unit \<Rightarrow> int \<Rightarrow> int \<Rightarrow> nat \<Rightarrow> uuid list \<Rightarrow> reduction_state
    \<Rightarrow> digestion_exception + (uuid \<times> reduction_state)" where
  "reduce_rounds H a p n_chunks node overhead per capacity current st =
     sbind (fold_sum (reduce_one H a p n_chunks node overhead per) (batches capacity current) (st, [])) (\<lambda>r.
     if length (snd r) = 1 then Inr (hd (snd r), fst r)
     else if length (snd r) < length current then reduce_rounds H a p n_chunks node overhead per capacity (snd r) (fst r)
     else Inl Other_failure)"
  by pat_completeness auto

termination reduce_rounds
  by (relation "measure (\<lambda>(H, a, p, n_chunks, node, overhead, per, capacity, current, st). length current)") auto

declare reduce_rounds.simps [simp del]

definition empty_request :: "digestion_profile \<Rightarrow> uuid \<Rightarrow> code_points list \<Rightarrow> stage_request" where
  "empty_request p root_id path = \<lparr>rq_stage_id = root_id, rq_stage = Reduction, rq_profile = p, rq_path = path, rq_source_data = [], rq_children = []\<rparr>"

definition reduce_group :: "prims \<Rightarrow> artifact \<Rightarrow> digestion_profile \<Rightarrow> uuid \<Rightarrow> nat \<Rightarrow> structural_unit \<Rightarrow> uuid list \<Rightarrow> reduction_state
    \<Rightarrow> digestion_exception + (uuid option \<times> reduction_state)" where
  "reduce_group H a p root_id n_chunks node children st =
     (if children = [] then Inr (None, st)
      else sbind (request_size H (empty_request p root_id [])) (\<lambda>base.
        sbind (encode H (request_valid H (empty_request p root_id (su_path node))) (request_json (empty_request p root_id (su_path node)))) (\<lambda>text.
        let room = dp_context_tokens p - dp_reserved_output_tokens p - (base + int (length text) + 512);
            per_child = dp_max_result_characters p + 1024;
            (overhead, per, capacity, least) = (case dp_managed_input_budget p of
                None \<Rightarrow> (base + int (length text) + 512, per_child, min (dp_max_fan_in p) (room div per_child), 2)
              | Some b \<Rightarrow> (reduction_size H b (su_path node) 0, mb_child_bytes b,
                  min (dp_max_fan_in p) (min (room div mb_child_bytes b)
                    ((mb_input_bytes b - reduction_size H b (su_path node) 0) div mb_child_bytes b)),
                  min 2 (int (length children))))
        in if capacity < least then Inl (dfail ''synthesis_limit_exceeded'')
           else sbind (reduce_rounds H a p n_chunks node overhead per (nat capacity) children st) (\<lambda>(k, st'). Inr (Some k, st')))))"

definition reduce_node :: "prims \<Rightarrow> artifact \<Rightarrow> digestion_profile \<Rightarrow> uuid \<Rightarrow> analysis_chunk list \<Rightarrow> structural_unit
    \<Rightarrow> reduction_state \<times> (uuid \<times> uuid option) list \<Rightarrow> digestion_exception + (reduction_state \<times> (uuid \<times> uuid option) list)" where
  "reduce_node H a p root_id chunks node = (\<lambda>(st, outputs).
     let own = map ch_id (filter (\<lambda>c. ch_structural_parent c = su_id node) chunks);
         children = own @ concat (map (\<lambda>k. case map_of outputs k of Some (Some x) \<Rightarrow> [x] | _ \<Rightarrow> []) (su_children node));
         place = (\<lambda>k. case map_of (rd_positions st) k of Some i \<Rightarrow> i | None \<Rightarrow> 0) in
     sbind (reduce_group H a p root_id (length chunks) node (sort_key place children) st) (\<lambda>(r, st').
     Inr (st', dict_put (su_id node) r outputs)))"

section \<open>The plan\<close>

definition build_core :: "prims \<Rightarrow> lang \<Rightarrow> artifact \<Rightarrow> object_ref \<Rightarrow> digestion_profile \<Rightarrow> digestion_exception + plan" where
  "build_core H U a ref p =
     (if dp_max_source_units p < int (length (inventory a)) + int (length (filter (\<lambda>u. tu_blocks u = []) (ar_units a)))
      then Inl (dfail ''synthesis_limit_exceeded'')
      else sbind (build_structure H a ref p) (\<lambda>m.
        let iv = source_inventory U a; root_id = su_id (hd (sm_units m)) in
        sbind (fold_sum (extend_groups (sm_units m)) (inventory a) []) (\<lambda>groups.
        sbind (fold_sum (chunk_group H a p (iv_eligible iv)) groups []) (\<lambda>chunks.
        if chunks = [] then Inl (dfail ''coverage_failed'')
        else sbind (fold_sum (reduce_node H a p root_id chunks) (rev (sm_units m))
               (\<lparr>rd_reducers = [], rd_levels = dict_of (map (\<lambda>c. (ch_id c, 0)) chunks),
                 rd_positions = dict_of (map (\<lambda>c. (ch_id c, ch_sequence c)) chunks)\<rparr>, [])) (\<lambda>(st, outputs).
        case map_of outputs root_id of
          Some (Some k) \<Rightarrow> Inr \<lparr>pl_profile = p, pl_structure = m, pl_chunks = chunks, pl_reducers = rd_reducers st, pl_root_id = k,
             pl_eligible = iv_eligible iv, pl_skipped = iv_skipped iv, pl_unsupported = iv_unsupported iv\<rparr>
        | _ \<Rightarrow> Inl Other_failure)))))"

definition build_plan :: "prims \<Rightarrow> lang \<Rightarrow> (bytes \<Rightarrow> string) \<Rightarrow> (artifact \<Rightarrow> bytes) \<Rightarrow> artifact \<Rightarrow> object_ref \<Rightarrow> digestion_profile
    \<Rightarrow> digestion_error + plan" where
  "build_plan H U sha serialize a ref p =
     (let r = (if \<not> artifact_valid H U a \<or> \<not> digestion_profile_valid p then Inl Other_failure
               else if or_scope ref \<noteq> dc_scope (ar_document a) \<or> or_kind ref \<noteq> Artifact \<or> or_object_id ref \<noteq> ar_extraction_id a
                   \<or> or_sha256 ref \<noteq> sha (serialize a) \<or> or_byte_size ref \<noteq> int (length (serialize a))
               then Inl (dfail ''evidence_validation_failed'')
               else build_core H U a ref p)
      in case r of Inr x \<Rightarrow> Inr x | Inl (Digestion_failure e) \<Rightarrow> Inl e
         | Inl Other_failure \<Rightarrow> Inl (digestion_failure ''structural_planning_failed'' None None None))"

end
