(* ===== verification/DigestPlanTheorems.thy ===== *)
theory DigestPlanTheorems
  imports DigestPlanning
begin

text \<open>
  What an accepted digestion plan guarantees. Its chunks carry the text of the eligible blocks
  once and in reading order, every piece is exact evidence of the artifact, and the chunks,
  reducers and requests stay within the limits of the profile.
\<close>

section \<open>Pieces of a block\<close>

definition line_at :: "text_unit \<Rightarrow> int \<Rightarrow> int option" where
  "line_at u start = (if tu_physical_page u = None then Some (1 + int (count_nl (take (nat start) (tu_text u)))) else None)"

definition piece_of :: "artifact \<Rightarrow> text_unit \<Rightarrow> block \<Rightarrow> source_piece \<Rightarrow> bool" where
  "piece_of a u b x \<longleftrightarrow> (\<exists>start fin. x = make_piece a u b start (line_at u start) fin
     \<and> sn_start (bk_span b) \<le> start \<and> start \<le> fin \<and> fin \<le> sn_end (bk_span b))"

definition pending_pieces :: "pending \<Rightarrow> source_piece list" where
  "pending_pieces st = concat (map ch_pieces (fst st)) @ fst (snd st)"

definition pieces_text :: "source_piece list \<Rightarrow> code_points" where
  "pieces_text xs = concat (map pc_text xs)"

lemma make_chunk_pieces: "make_chunk H a p n node xs = Inr c \<Longrightarrow> ch_pieces c = xs"
  by (auto simp: make_chunk_def Let_def txn_simps split: if_splits)

lemma append_chunk_pieces:
  "append_chunk H a p node xs chunks = Inr chunks' \<Longrightarrow> concat (map ch_pieces chunks') = concat (map ch_pieces chunks) @ xs"
  by (auto simp: append_chunk_def txn_simps make_chunk_pieces split: if_splits)

lemma place_piece_pieces:
  "place_piece H a p node x st = Inr st' \<Longrightarrow> pending_pieces st' = pending_pieces st @ [x]"
  by (cases st) (auto simp: place_piece_def Let_def txn_simps pending_pieces_def append_chunk_pieces
      split: if_splits sum.splits digestion_exception.splits)

lemma slice_append: "0 \<le> x \<Longrightarrow> x \<le> y \<Longrightarrow> y \<le> z \<Longrightarrow> slice x y t @ slice y z t = slice x z t"
proof -
  assume *: "0 \<le> x" "x \<le> y" "y \<le> z"
  then have "nat (z - x) = nat (y - x) + nat (z - y)" "nat x + nat (y - x) = nat y" by auto
  then show ?thesis by (simp add: slice_def take_add add.commute)
qed

lemma line_at_advance:
  assumes "0 \<le> start" "start \<le> e"
  shows "map_option (\<lambda>l. l + int (count_nl (slice start e (tu_text u)))) (line_at u start) = line_at u e"
  using take_slice [OF assms, of "tu_text u"] by (simp add: line_at_def)

lemma split_block_pieces:
  assumes "split_block H a p node u b start line first st = Inr st'"
    and "line = line_at u start" "sn_start (bk_span b) \<le> start" "start \<le> sn_end (bk_span b)" "0 \<le> sn_start (bk_span b)"
  shows "\<exists>xs. pending_pieces st' = pending_pieces st @ xs \<and> list_all (piece_of a u b) xs
     \<and> pieces_text xs = slice start (sn_end (bk_span b)) (tu_text u)"
  using assms
proof (induction H a p node u b start line first st rule: split_block.induct)
  case (1 H a p node u b start line first st)
  note prems = 1(2-)
  show ?case
  proof (cases "start < sn_end (bk_span b) \<or> first")
    case False
    with prems have "st' = st" "start = sn_end (bk_span b)"
      by (subst (asm) split_block.simps; auto split: if_splits)+
    then show ?thesis by (intro exI [of _ "[]"]) (simp add: pieces_text_def slice_def)
  next
    case True
    with prems(1) obtain e x st1 where s: "0 < dp_chunk_characters p"
      "fit_piece H a p (length (fst st)) node u b start line (window_end p u b start) = Inr (e, x)"
      "place_piece H a p node x st = Inr st1"
      "split_block H a p node u b e (map_option (\<lambda>l. l + int (count_nl (pc_text x))) line) False st1 = Inr st'"
      by (subst (asm) split_block.simps) (auto simp: txn_simps split: if_splits)
    note f = fit_piece_result [OF s(2)]
    note w = window_end_bounds [OF s(1), where u = u and b = b and start = start]
    have e: "start \<le> e" "e \<le> sn_end (bk_span b)"
    proof -
      show "e \<le> sn_end (bk_span b)" using f w(1) by linarith
      show "start \<le> e"
      proof (cases "start < sn_end (bk_span b)")
        case False
        then have "window_end p u b start = start" using prems(4) s(1) by (simp add: window_end_def Let_def)
        with f show ?thesis by auto
      qed (use f w(2) in force)
    qed
    have x: "x = make_piece a u b start (line_at u start) e" "pc_text x = slice start e (tu_text u)"
      using f prems(2) by (auto simp: make_piece_def Let_def)
    have "map_option (\<lambda>l. l + int (count_nl (pc_text x))) line = line_at u e"
      using line_at_advance [of start e u] prems(2,3,5) e(1) x(2) by simp
    then obtain xs where xs: "pending_pieces st' = pending_pieces st1 @ xs" "list_all (piece_of a u b) xs"
        "pieces_text xs = slice e (sn_end (bk_span b)) (tu_text u)"
      using 1(1) [of "(e, x)" st1] s True prems(3,5) e by auto
    have "piece_of a u b x" using x(1) prems(3) e by (auto simp: piece_of_def)
    moreover have "pieces_text (x # xs) = slice start (sn_end (bk_span b)) (tu_text u)"
      using slice_append [of start e "sn_end (bk_span b)" "tu_text u"] prems(3,5) e x(2) xs(3) by (simp add: pieces_text_def)
    ultimately show ?thesis
      using place_piece_pieces [OF s(3)] xs(1,2) by (intro exI [of _ "x # xs"]) simp
  qed
qed

section \<open>Groups\<close>

lemma in_inventory: "(u, b) \<in> set (inventory a) \<longleftrightarrow> u \<in> set (ar_units a) \<and> b \<in> set (tu_blocks u)"
  by (auto simp: inventory_def)

lemma inventory_blocks: "map snd (inventory a) = all_blocks a"
proof -
  have "map snd (concat (map (\<lambda>u. map (Pair u) (tu_blocks u)) us)) = concat (map tu_blocks us)" for us
    by (induction us) (auto simp: comp_def)
  then show ?thesis by (simp add: inventory_def all_blocks_def)
qed

lemma block_index_lookup:
  assumes "distinct (map bk_block_id (all_blocks a))" and "(u, b) \<in> set (inventory a)"
  shows "map_of (block_index a) (bk_block_id b) = Some (u, b)"
proof -
  have "map fst (map (\<lambda>(u, b). (bk_block_id b, u, b)) (inventory a)) = map bk_block_id (all_blocks a)"
    by (auto simp flip: inventory_blocks)
  with assms show ?thesis
    unfolding block_index_def by (subst dict_of_unique) (auto intro!: map_of_is_SomeI)
qed

lemma valid_block:
  assumes "artifact_valid H U a" and "(u, b) \<in> set (inventory a)"
  shows "0 \<le> sn_start (bk_span b)" "sn_start (bk_span b) \<le> sn_end (bk_span b)"
    "slice (sn_start (bk_span b)) (sn_end (bk_span b)) (tu_text u) = bk_source_text b"
    "sn_line_start (bk_span b) = line_at u (sn_start (bk_span b))"
proof -
  have u: "u \<in> set (ar_units a)" "b \<in> set (tu_blocks u)" using assms(2) by (auto simp: in_inventory)
  note v = valid_unit [OF assms(1) u(1)]
  note bl = unit_blocks [OF v(1,2)]
  from block_located [OF bl(1,2) _ _ u(2)] obtain i c where
    c: "0 \<le> c" "block_ok H a u i c (1 + int (count_nl (take (nat c) (tu_text u)))) b" by auto
  note d = block_okD [OF c(2)]
  show "0 \<le> sn_start (bk_span b)" using d(1) c(1) by simp
  show "sn_start (bk_span b) \<le> sn_end (bk_span b)" using bl(2) u(2) by (auto simp: list_all_iff span_valid_def)
  show "slice (sn_start (bk_span b)) (sn_end (bk_span b)) (tu_text u) = bk_source_text b" using d(1,3) by simp
  show "sn_line_start (bk_span b) = line_at u (sn_start (bk_span b))"
    using d(1,4,5) v(4) by (auto simp: line_at_def)
qed

text \<open>The pieces that a list of blocks contributes.\<close>

definition source_pieces :: "artifact \<Rightarrow> (text_unit \<times> block) list \<Rightarrow> source_piece list \<Rightarrow> bool" where
  "source_pieces a ubs xs \<longleftrightarrow> pieces_text xs = concat (map (\<lambda>(u, b). bk_source_text b) ubs)
     \<and> (\<forall>x \<in> set xs. \<exists>(u, b) \<in> set ubs. piece_of a u b x)"

lemma source_pieces_append: "source_pieces a us xs \<Longrightarrow> source_pieces a vs ys \<Longrightarrow> source_pieces a (us @ vs) (xs @ ys)"
  by (fastforce simp: source_pieces_def pieces_text_def)

definition picked :: "uuid list \<Rightarrow> (text_unit \<times> block) list \<Rightarrow> (text_unit \<times> block) list" where
  "picked eligible ubs = filter (\<lambda>(u, b). bk_block_id b \<in> set eligible) ubs"

lemma chunk_block_pieces:
  assumes v: "artifact_valid H U a" "distinct (map bk_block_id (all_blocks a))" "(u, b) \<in> set (inventory a)"
    and "chunk_block H a p eligible node (bk_block_id b) st = Inr st'"
  shows "\<exists>xs. pending_pieces st' = pending_pieces st @ xs \<and> source_pieces a (picked eligible [(u, b)]) xs"
proof (cases "bk_block_id b \<in> set eligible")
  case True
  note vb = valid_block [OF v(1,3)]
  have "split_block H a p node u b (sn_start (bk_span b)) (sn_line_start (bk_span b)) True st = Inr st'"
    using assms(4) True block_index_lookup [OF v(2,3)] by (simp add: chunk_block_def)
  from split_block_pieces [OF this vb(4) order_refl vb(2,1)] obtain xs where
    "pending_pieces st' = pending_pieces st @ xs" "list_all (piece_of a u b) xs" "pieces_text xs = bk_source_text b"
    using vb(3) by auto
  then show ?thesis using True by (auto simp: picked_def source_pieces_def list_all_iff)
next
  case False
  with assms(4) show ?thesis
    by (auto simp: chunk_block_def picked_def source_pieces_def pieces_text_def)
qed

lemma chunk_blocks_pieces:
  assumes "artifact_valid H U a" "distinct (map bk_block_id (all_blocks a))" "set ubs \<subseteq> set (inventory a)"
    and "fold_sum (chunk_block H a p eligible node) (map (\<lambda>(u, b). bk_block_id b) ubs) st = Inr st'"
  shows "\<exists>xs. pending_pieces st' = pending_pieces st @ xs \<and> source_pieces a (picked eligible ubs) xs"
  using assms(3,4)
proof (induction ubs arbitrary: st)
  case Nil
  then show ?case by (auto simp: picked_def source_pieces_def pieces_text_def)
next
  case (Cons ub ubs)
  obtain u b where ub: "ub = (u, b)" by (cases ub)
  with Cons.prems obtain t where t: "chunk_block H a p eligible node (bk_block_id b) st = Inr t"
    "fold_sum (chunk_block H a p eligible node) (map (\<lambda>(u, b). bk_block_id b) ubs) t = Inr st'"
    by (auto simp: txn_simps)
  have "(u, b) \<in> set (inventory a)" using Cons.prems(1) ub by simp
  from chunk_block_pieces [OF assms(1,2) this t(1)] Cons.IH [OF _ t(2)] Cons.prems(1)
  obtain xs ys where "pending_pieces t = pending_pieces st @ xs" "source_pieces a (picked eligible [(u, b)]) xs"
    "pending_pieces st' = pending_pieces t @ ys" "source_pieces a (picked eligible ubs) ys" by auto
  moreover have "picked eligible (ub # ubs) = picked eligible [(u, b)] @ picked eligible ubs" by (simp add: picked_def ub)
  ultimately show ?case using source_pieces_append by (metis append.assoc)
qed

lemma extend_groups_ids:
  assumes "fold_sum (extend_groups us) ubs groups = Inr groups'"
  shows "concat (map snd groups') = concat (map snd groups) @ map (\<lambda>(u, b). bk_block_id b) ubs"
  using assms
proof (induction ubs arbitrary: groups)
  case (Cons ub ubs)
  then obtain g where g: "extend_groups us ub groups = Inr g" "fold_sum (extend_groups us) ubs g = Inr groups'"
    by (auto simp: txn_simps)
  have "concat (map snd g) = concat (map snd groups) @ [bk_block_id (snd ub)]"
  proof (cases "groups = []")
    case False
    then obtain gs k where "groups = gs @ [k]" by (metis append_butlast_last_id)
    with g(1) show ?thesis by (auto simp: extend_groups_def split: option.splits if_splits)
  qed (use g(1) in \<open>auto simp: extend_groups_def split: option.splits\<close>)
  with Cons.IH [OF g(2)] show ?case by (cases ub) simp
qed simp

lemma chunk_groups_pieces:
  assumes "artifact_valid H U a" "distinct (map bk_block_id (all_blocks a))"
    and "fold_sum (chunk_group H a p eligible) groups chunks = Inr chunks'"
    and "concat (map snd groups) = map (\<lambda>(u, b). bk_block_id b) ubs" "set ubs \<subseteq> set (inventory a)"
  shows "\<exists>xs. concat (map ch_pieces chunks') = concat (map ch_pieces chunks) @ xs \<and> source_pieces a (picked eligible ubs) xs"
  using assms(3-)
proof (induction groups arbitrary: chunks ubs)
  case Nil
  then show ?case by (auto simp: picked_def source_pieces_def pieces_text_def)
next
  case (Cons g groups)
  from Cons.prems obtain c where c: "chunk_group H a p eligible g chunks = Inr c"
    "fold_sum (chunk_group H a p eligible) groups c = Inr chunks'" by (auto simp: txn_simps)
  from c(1) obtain chunks1 pieces n where
    p1: "fold_sum (chunk_block H a p eligible (fst g)) (snd g) (chunks, [], 0) = Inr (chunks1, pieces, n)"
    and p2: "append_chunk H a p (fst g) pieces chunks1 = Inr c" by (auto simp: chunk_group_def txn_simps)
  from Cons.prems(2) obtain vs ws where vw: "ubs = vs @ ws" "snd g = map (\<lambda>(u, b). bk_block_id b) vs"
    "concat (map snd groups) = map (\<lambda>(u, b). bk_block_id b) ws"
    by (auto simp: append_eq_map_conv)
  from chunk_blocks_pieces [OF assms(1,2) _ p1 [unfolded vw(2)]] Cons.prems(3) vw(1) obtain xs where
    "pending_pieces (chunks1, pieces, n) = pending_pieces (chunks, [], 0) @ xs" "source_pieces a (picked eligible vs) xs" by auto
  then have xs: "concat (map ch_pieces c) = concat (map ch_pieces chunks) @ xs" "source_pieces a (picked eligible vs) xs"
    using append_chunk_pieces [OF p2] by (auto simp: pending_pieces_def)
  from Cons.IH [OF c(2) vw(3)] Cons.prems(3) vw(1) obtain ys where
    "concat (map ch_pieces chunks') = concat (map ch_pieces c) @ ys" "source_pieces a (picked eligible ws) ys" by auto
  with xs source_pieces_append show ?case unfolding vw(1) picked_def filter_append by (metis append.assoc)
qed

section \<open>Evidence\<close>

lemma piece_of_fields:
  assumes "piece_of a u b x"
  shows "ev_scope (pc_evidence x) = dc_scope (ar_document a)" "ev_version_id (pc_evidence x) = dc_version_id (ar_document a)"
    "ev_extraction_id (pc_evidence x) = ar_extraction_id a" "ev_source_id (pc_evidence x) = tu_source_id u"
    "ev_block_id (pc_evidence x) = bk_block_id b"
  using assms by (auto simp: piece_of_def make_piece_def Let_def)

lemma piece_resolves:
  assumes "artifact_valid H U a" and "(u, b) \<in> set (inventory a)" and "piece_of a u b x"
  shows "resolve a (dc_scope (ar_document a)) (pc_evidence x) = Inr (pc_text x)"
proof -
  have u: "u \<in> set (ar_units a)" "b \<in> set (tu_blocks u)" using assms(2) by (auto simp: in_inventory)
  note v = valid_unit [OF assms(1) u(1)]
  note bl = unit_blocks [OF v(1,2)]
  note f = piece_of_fields [OF assms(3)]
  have "resolve_blocks u (pc_evidence x) (tu_blocks u) = resolve_blocks u (pc_evidence x) [b]"
    by (rule resolve_blocks_find [OF bl(3) u(2) f(5)])
  also have "\<dots> = Some (pc_text x)"
    using assms(3) by (cases "tu_physical_page u") (auto simp: piece_of_def make_piece_def Let_def line_at_def slice_0)
  finally have "resolve_units (pc_evidence x) (ar_units a) = Inr (pc_text x)"
    by (rule resolve_units_find [OF v(3) u(1) f(4)])
  then show ?thesis using f by (simp add: resolve_def)
qed

section \<open>The whole plan\<close>

lemma build_core_steps:
  assumes "build_core H U a ref p = Inr pl"
  obtains m groups chunks st outputs k where
    "build_structure H a ref p = Inr m" "fold_sum (extend_groups (sm_units m)) (inventory a) [] = Inr groups"
    "fold_sum (chunk_group H a p (iv_eligible (source_inventory U a))) groups [] = Inr chunks" "chunks \<noteq> []"
    "fold_sum (reduce_node H a p (su_id (hd (sm_units m))) chunks) (rev (sm_units m))
       (\<lparr>rd_reducers = [], rd_levels = dict_of (map (\<lambda>c. (ch_id c, 0)) chunks),
         rd_positions = dict_of (map (\<lambda>c. (ch_id c, ch_sequence c)) chunks)\<rparr>, []) = Inr (st, outputs)"
    "map_of outputs (su_id (hd (sm_units m))) = Some (Some k)"
    "pl = \<lparr>pl_profile = p, pl_structure = m, pl_chunks = chunks, pl_reducers = rd_reducers st, pl_root_id = k,
       pl_eligible = iv_eligible (source_inventory U a), pl_skipped = iv_skipped (source_inventory U a),
       pl_unsupported = iv_unsupported (source_inventory U a)\<rparr>"
  using assms unfolding build_core_def Let_def
  by (auto simp: txn_simps split: if_splits option.splits)

lemma build_core_chunks:
  assumes "build_core H U a ref p = Inr pl"
  shows "\<exists>us groups. fold_sum (extend_groups us) (inventory a) [] = Inr groups
     \<and> fold_sum (chunk_group H a p (pl_eligible pl)) groups [] = Inr (pl_chunks pl)"
  by (rule build_core_steps [OF assms]) auto

lemma build_core_reducers:
  assumes "build_core H U a ref p = Inr pl"
  shows "\<exists>root_id nodes st outputs. fold_sum (reduce_node H a p root_id (pl_chunks pl)) nodes
       (\<lparr>rd_reducers = [], rd_levels = dict_of (map (\<lambda>c. (ch_id c, 0)) (pl_chunks pl)),
         rd_positions = dict_of (map (\<lambda>c. (ch_id c, ch_sequence c)) (pl_chunks pl))\<rparr>, []) = Inr (st, outputs)
     \<and> map_of outputs root_id = Some (Some (pl_root_id pl)) \<and> pl_reducers pl = rd_reducers st"
  by (rule build_core_steps [OF assms]) auto

lemma build_planD:
  assumes "build_plan H U sha serialize a ref p = Inr pl"
  shows "artifact_valid H U a" "digestion_profile_valid p" "build_core H U a ref p = Inr pl"
  using assms by (auto simp: build_plan_def Let_def split: if_splits sum.splits digestion_exception.splits)

text \<open>C9: a plan loses and repeats nothing. When the block identifiers of the artifact are distinct, the texts of the pieces of
  all chunks, in order, are exactly the source texts of the eligible blocks in reading order, and the evidence reference of
  every piece resolves in the artifact to the text of the piece.\<close>

theorem plan_chunks_partition_source:
  assumes "build_plan H U sha serialize a ref p = Inr pl"
    and "distinct (map bk_block_id (all_blocks a))"
  shows "concat (map pc_text (concat (map ch_pieces (pl_chunks pl))))
      = concat (map bk_source_text (filter (\<lambda>b. bk_block_id b \<in> set (pl_eligible pl)) (all_blocks a)))
     \<and> (\<forall>c \<in> set (pl_chunks pl). \<forall>x \<in> set (ch_pieces c). resolve a (dc_scope (ar_document a)) (pc_evidence x) = Inr (pc_text x))"
proof -
  note v = build_planD [OF assms(1)]
  from build_core_chunks [OF v(3)] obtain us groups where g: "fold_sum (extend_groups us) (inventory a) [] = Inr groups"
    "fold_sum (chunk_group H a p (pl_eligible pl)) groups [] = Inr (pl_chunks pl)" by blast
  have "concat (map snd groups) = map (\<lambda>(u, b). bk_block_id b) (inventory a)" using extend_groups_ids [OF g(1)] by simp
  from chunk_groups_pieces [OF v(1) assms(2) g(2) this order_refl]
  have s: "source_pieces a (picked (pl_eligible pl) (inventory a)) (concat (map ch_pieces (pl_chunks pl)))" by simp
  have "map (\<lambda>(u, b). bk_source_text b) (picked (pl_eligible pl) ubs)
      = map bk_source_text (filter (\<lambda>b. bk_block_id b \<in> set (pl_eligible pl)) (map snd ubs))" for ubs
    by (induction ubs) (auto simp: picked_def)
  with s have "pieces_text (concat (map ch_pieces (pl_chunks pl)))
      = concat (map bk_source_text (filter (\<lambda>b. bk_block_id b \<in> set (pl_eligible pl)) (all_blocks a)))"
    by (simp add: source_pieces_def flip: inventory_blocks)
  moreover have "resolve a (dc_scope (ar_document a)) (pc_evidence x) = Inr (pc_text x)"
    if "c \<in> set (pl_chunks pl)" "x \<in> set (ch_pieces c)" for c x
  proof -
    from that have "x \<in> set (concat (map ch_pieces (pl_chunks pl)))" by auto
    with s obtain u b where "(u, b) \<in> set (inventory a)" "piece_of a u b x"
      by (fastforce simp: source_pieces_def picked_def)
    then show ?thesis by (rule piece_resolves [OF v(1)])
  qed
  ultimately show ?thesis by (simp add: pieces_text_def)
qed

section \<open>Limits\<close>

definition chunk_within :: "prims \<Rightarrow> digestion_profile \<Rightarrow> analysis_chunk \<Rightarrow> bool" where
  "chunk_within H p c \<longleftrightarrow> ch_pieces c \<noteq> [] \<and> ch_estimated_tokens c + dp_reserved_output_tokens p \<le> dp_context_tokens p
     \<and> check_request H \<lparr>rq_stage_id = ch_id c, rq_stage = Analysis, rq_profile = p, rq_path = ch_path c,
         rq_source_data = ch_pieces c, rq_children = []\<rparr> = Inr (ch_estimated_tokens c)"

definition reducer_within :: "digestion_profile \<Rightarrow> reduction_node \<Rightarrow> bool" where
  "reducer_within p r \<longleftrightarrow> rn_children r \<noteq> [] \<and> int (length (rn_children r)) \<le> dp_max_fan_in p \<and> rn_level r \<le> dp_max_depth p"

lemma make_chunk_within: "make_chunk H a p n node xs = Inr c \<Longrightarrow> xs \<noteq> [] \<Longrightarrow> chunk_within H p c"
  by (auto simp: make_chunk_def Let_def chunk_within_def txn_simps split: if_splits dest: check_request_fits(3))

definition chunks_within :: "prims \<Rightarrow> digestion_profile \<Rightarrow> analysis_chunk list \<Rightarrow> bool" where
  "chunks_within H p cs \<longleftrightarrow> list_all (chunk_within H p) cs \<and> int (length cs) \<le> dp_max_chunks p"

lemma append_chunk_within:
  assumes "append_chunk H a p node xs cs = Inr cs'" and "chunks_within H p cs"
  shows "chunks_within H p cs'"
proof (cases "xs = []")
  case False
  with assms obtain c where "make_chunk H a p (length cs) node xs = Inr c" "cs' = cs @ [c]" "int (length cs) < dp_max_chunks p"
    by (auto simp: append_chunk_def txn_simps split: if_splits)
  with make_chunk_within False assms(2) show ?thesis by (simp add: chunks_within_def)
qed (use assms in \<open>simp add: append_chunk_def\<close>)

lemma place_piece_within:
  "place_piece H a p node x st = Inr st' \<Longrightarrow> chunks_within H p (fst st) \<Longrightarrow> chunks_within H p (fst st')"
  by (cases st) (auto simp: place_piece_def Let_def txn_simps append_chunk_within
      split: if_splits sum.splits digestion_exception.splits)

lemma split_block_within:
  assumes "split_block H a p node u b start line first st = Inr st'" and "chunks_within H p (fst st)"
  shows "chunks_within H p (fst st')"
  using assms
proof (induction H a p node u b start line first st rule: split_block.induct)
  case (1 H a p node u b start line first st)
  show ?case
  proof (cases "start < sn_end (bk_span b) \<or> first")
    case True
    with 1(2) obtain r st1 where s: "0 < dp_chunk_characters p"
      "fit_piece H a p (length (fst st)) node u b start line (window_end p u b start) = Inr r"
      "place_piece H a p node (snd r) st = Inr st1"
      "split_block H a p node u b (fst r) (map_option (\<lambda>l. l + int (count_nl (pc_text (snd r)))) line) False st1 = Inr st'"
      by (subst (asm) split_block.simps) (auto simp: txn_simps split: if_splits)
    then show ?thesis using 1(1) [of r st1] place_piece_within [OF s(3) 1(3)] True by auto
  qed (use 1(2,3) in \<open>subst (asm) split_block.simps, auto split: if_splits\<close>)
qed

lemma chunk_group_within:
  assumes "chunk_group H a p eligible g cs = Inr cs'" and "chunks_within H p cs"
  shows "chunks_within H p cs'"
proof -
  from assms(1) obtain cs1 xs n where
    s: "fold_sum (chunk_block H a p eligible (fst g)) (snd g) (cs, [], 0) = Inr (cs1, xs, n)" "append_chunk H a p (fst g) xs cs1 = Inr cs'"
    by (auto simp: chunk_group_def txn_simps)
  have "chunks_within H p (fst (cs1, xs, n))"
    by (rule fold_sum_inv [where I = "\<lambda>st. chunks_within H p (fst st)", OF s(1)])
      (use assms(2) in \<open>auto simp: chunk_block_def split: if_splits option.splits dest: split_block_within\<close>)
  with append_chunk_within [OF s(2)] show ?thesis by simp
qed

text \<open>The rounds of a reduction: with a capacity of at least two, or a single child, a round that is not the last one
  leaves fewer nodes.\<close>

lemma reduce_one_following: "reduce_one H a p n node overhead per batch r = Inr r' \<Longrightarrow> length (snd r') = Suc (length (snd r))"
  by (cases r) (auto simp: reduce_one_def Let_def split: option.splits list.splits if_splits)

lemma reduction_following:
  "fold_sum (reduce_one H a p n node overhead per) bs r = Inr r' \<Longrightarrow> length (snd r') = length (snd r) + length bs"
  by (induction bs arbitrary: r) (auto simp: txn_simps dest!: reduce_one_following)

lemma reduction_round_shrinks:
  assumes "fold_sum (reduce_one H a p n node overhead per) (batches capacity current) (st, []) = Inr r"
    and "current \<noteq> []" and "2 \<le> capacity \<or> 1 \<le> capacity \<and> length current = 1"
  shows "length (snd r) = 1 \<or> length (snd r) < length current"
proof (cases "length current = 1")
  case True
  with assms(3) have "batches capacity current = [current]"
    by (cases current; cases capacity) (auto simp: batches.simps)
  with reduction_following [OF assms(1)] show ?thesis by simp
next
  case False
  with assms(2,3) have "2 \<le> capacity" "2 \<le> length current" by (cases current; auto simp: Suc_le_eq)+
  from batches_length [OF this] reduction_following [OF assms(1)] show ?thesis by simp
qed

lemma batches_short: "b \<in> set (batches n xs) \<Longrightarrow> b \<noteq> [] \<and> length b \<le> n"
proof (induction n xs rule: batches.induct)
  case (1 n xs)
  then show ?case by (subst (asm) (2) batches.simps) (auto split: if_splits)
qed

definition reduction_within :: "digestion_profile \<Rightarrow> nat \<Rightarrow> reduction_state \<Rightarrow> bool" where
  "reduction_within p n st \<longleftrightarrow> list_all (reducer_within p) (rd_reducers st)
     \<and> (rd_reducers st \<noteq> [] \<longrightarrow> int n + int (length (rd_reducers st)) + 2 \<le> dp_max_steps p)"

lemma reduce_one_within:
  assumes "reduce_one H a p n node overhead per batch r = Inr r'" and "batch \<noteq> []" "int (length batch) \<le> dp_max_fan_in p"
    and "reduction_within p n (fst r)"
  shows "reduction_within p n (fst r') \<and> rd_reducers (fst r') \<noteq> []"
  using assms
  by (cases r) (auto simp: reduce_one_def Let_def reduction_within_def reducer_within_def split: option.splits list.splits if_splits)

lemma reduction_round_within:
  assumes "fold_sum (reduce_one H a p n node overhead per) bs r = Inr r'" and "reduction_within p n (fst r)"
    and "\<And>b. b \<in> set bs \<Longrightarrow> b \<noteq> [] \<and> int (length b) \<le> dp_max_fan_in p"
  shows "reduction_within p n (fst r') \<and> (bs \<noteq> [] \<longrightarrow> rd_reducers (fst r') \<noteq> [])"
  using assms
proof (induction bs arbitrary: r)
  case (Cons b bs)
  then obtain t where t: "reduce_one H a p n node overhead per b r = Inr t" "fold_sum (reduce_one H a p n node overhead per) bs t = Inr r'"
    by (auto simp: txn_simps)
  have w: "reduction_within p n (fst t)" "rd_reducers (fst t) \<noteq> []"
    using reduce_one_within [OF t(1)] Cons.prems(2,3) by auto
  with Cons.IH [OF t(2) w(1)] Cons.prems(3) t(2) show ?case by (cases bs) auto
qed simp

lemma reduce_rounds_within:
  assumes "reduce_rounds H a p n node overhead per capacity current st = Inr (k, st')" and "reduction_within p n st"
    and "int capacity \<le> dp_max_fan_in p"
  shows "reduction_within p n st' \<and> rd_reducers st' \<noteq> []"
  using assms
proof (induction H a p n node overhead per capacity current st rule: reduce_rounds.induct)
  case (1 H a p n node overhead per capacity current st)
  from 1(2) obtain r where r: "fold_sum (reduce_one H a p n node overhead per) (batches capacity current) (st, []) = Inr r"
    "length (snd r) = 1 \<and> st' = fst r \<or> length (snd r) \<noteq> 1 \<and> length (snd r) < length current
       \<and> reduce_rounds H a p n node overhead per capacity (snd r) (fst r) = Inr (k, st')"
    by (subst (asm) reduce_rounds.simps) (auto simp: txn_simps split: if_splits)
  have w: "reduction_within p n (fst r)" "batches capacity current \<noteq> [] \<Longrightarrow> rd_reducers (fst r) \<noteq> []"
    using reduction_round_within [OF r(1)] batches_short 1(3,4) by (fastforce intro: order_trans)+
  from r(2) show ?case
  proof (elim disjE conjE)
    assume "length (snd r) = 1" "st' = fst r"
    with w reduction_following [OF r(1)] show ?thesis by fastforce
  next
    assume "length (snd r) \<noteq> 1" "length (snd r) < length current" "reduce_rounds H a p n node overhead per capacity (snd r) (fst r) = Inr (k, st')"
    with 1(1) [OF r(1)] w(1) 1(4) show ?thesis by blast
  qed
qed

lemma reduce_group_within:
  assumes "reduce_group H a p root_id n node children st = Inr (out, st')" and "reduction_within p n st" and "0 < dp_max_fan_in p"
  shows "reduction_within p n st' \<and> (out \<noteq> None \<longrightarrow> rd_reducers st' \<noteq> []) \<and> (rd_reducers st \<noteq> [] \<longrightarrow> rd_reducers st' \<noteq> [])"
proof (cases "children = []")
  case False
  with assms(1) obtain k overhead per capacity where
    "reduce_rounds H a p n node overhead per (nat capacity) children st = Inr (k, st')" "capacity \<le> dp_max_fan_in p"
    unfolding reduce_group_def Let_def
    by (auto simp: txn_simps split: if_splits option.splits) 
  with reduce_rounds_within [OF this(1) assms(2)] assms(3) show ?thesis by auto
qed (use assms in \<open>simp add: reduce_group_def\<close>)

lemma reduce_nodes_within:
  assumes "fold_sum (reduce_node H a p root_id cs) nodes s = Inr s'" and "reduction_within p (length cs) (fst s)" and "0 < dp_max_fan_in p"
    and "\<forall>k x. map_of (snd s) k = Some (Some x) \<longrightarrow> rd_reducers (fst s) \<noteq> []"
  shows "reduction_within p (length cs) (fst s') \<and> (\<forall>k x. map_of (snd s') k = Some (Some x) \<longrightarrow> rd_reducers (fst s') \<noteq> [])"
proof (rule fold_sum_inv [where I = "\<lambda>s. reduction_within p (length cs) (fst s) \<and> (\<forall>k x. map_of (snd s) k = Some (Some x) \<longrightarrow> rd_reducers (fst s) \<noteq> [])",
      OF assms(1)])
  show "reduction_within p (length cs) (fst s) \<and> (\<forall>k x. map_of (snd s) k = Some (Some x) \<longrightarrow> rd_reducers (fst s) \<noteq> [])"
    using assms(2,4) by blast
next
  fix node t t'
  assume I: "reduction_within p (length cs) (fst t) \<and> (\<forall>k x. map_of (snd t) k = Some (Some x) \<longrightarrow> rd_reducers (fst t) \<noteq> [])"
    and "reduce_node H a p root_id cs node t = Inr t'"
  then obtain children out st' where r: "reduce_group H a p root_id (length cs) node children (fst t) = Inr (out, st')"
    "t' = (st', dict_put (su_id node) out (snd t))"
    by (cases t) (auto simp: reduce_node_def Let_def txn_simps)
  from reduce_group_within [OF r(1) _ assms(3)] I r(2)
  show "reduction_within p (length cs) (fst t') \<and> (\<forall>k x. map_of (snd t') k = Some (Some x) \<longrightarrow> rd_reducers (fst t') \<noteq> [])"
    by (auto split: if_splits)
qed

lemma plan_limits:
  assumes "build_plan H U sha serialize a ref p = Inr pl"
  shows "chunks_within H p (pl_chunks pl) \<and> list_all (reducer_within p) (pl_reducers pl)
     \<and> int (length (pl_chunks pl)) + int (length (pl_reducers pl)) + 2 \<le> dp_max_steps p"
proof -
  note v = build_planD [OF assms]
  have pos: "0 < dp_max_fan_in p" "0 < dp_max_chunks p" using v(2) by (auto simp: digestion_profile_valid_def)
  from build_core_chunks [OF v(3)] obtain groups where c: "fold_sum (chunk_group H a p (pl_eligible pl)) groups [] = Inr (pl_chunks pl)"
    by blast
  from build_core_reducers [OF v(3)] obtain root_id nodes st outputs where g: "fold_sum (reduce_node H a p root_id (pl_chunks pl)) nodes
       (\<lparr>rd_reducers = [], rd_levels = dict_of (map (\<lambda>c. (ch_id c, 0)) (pl_chunks pl)),
         rd_positions = dict_of (map (\<lambda>c. (ch_id c, ch_sequence c)) (pl_chunks pl))\<rparr>, []) = Inr (st, outputs)"
    "map_of outputs root_id = Some (Some (pl_root_id pl))" "pl_reducers pl = rd_reducers st" by blast
  have "chunks_within H p (pl_chunks pl)"
    by (rule fold_sum_inv [where I = "chunks_within H p", OF c])
      (use pos in \<open>auto simp: chunks_within_def dest: chunk_group_within [unfolded chunks_within_def]\<close>)
  moreover have "reduction_within p (length (pl_chunks pl)) (fst (st, outputs)) \<and> rd_reducers (fst (st, outputs)) \<noteq> []"
    using reduce_nodes_within [OF g(1) _ pos(1)] g(2) by (simp add: reduction_within_def) blast
  ultimately show ?thesis using g(3) by (simp add: reduction_within_def)
qed

lemma plan_step_bound:
  assumes "build_plan H U sha serialize a ref p = Inr pl"
  shows "int (length (pl_chunks pl)) + int (length (pl_reducers pl)) + 2 \<le> 1000"
  using plan_limits [OF assms] build_planD(2) [OF assms] by (simp add: digestion_profile_valid_def)

text \<open>An accepted plan keeps every limit of its profile: at most the permitted number of chunks, each of which is an
  admissible request that leaves room for the reserved output in the context; reducers of at most the permitted fan-in and
  depth; and chunks, reducers and the two fixed steps together within the step limit.\<close>

theorem plan_within_limits:
  assumes "build_plan H U sha serialize a ref p = Inr pl"
  shows "chunks_within H p (pl_chunks pl) \<and> list_all (reducer_within p) (pl_reducers pl)
     \<and> int (length (pl_chunks pl)) + int (length (pl_reducers pl)) + 2 \<le> dp_max_steps p"
  using assms by (rule plan_limits)

end
