(* ===== verification/DigestValidation.thy ===== *)
theory DigestValidation
  imports DigestPlanTheorems
begin

text \<open>
  The evidence authority of documents/digestion/validation.py: the evidence index, the admission of
  a generated stage result, the propagation of inherited annotations, and the final digest with its
  coverage. The JSON parser and the schema validation of \<^verbatim>\<open>decode\<close> (documents/digestion/codec.py)
  are the argument \<open>loads\<close>, whose outcome is one of the four that the code distinguishes.
\<close>

section \<open>Decoding\<close>

datatype 'm parsed = Duplicate_key | Malformed | Rejected "(path option \<times> string) list option" | Accepted 'm

definition decode :: "(bytes \<Rightarrow> 'm parsed) \<Rightarrow> bytes \<Rightarrow> int \<Rightarrow> digestion_exception + 'm" where
  "decode loads data limit =
     (if limit < int (length data) then Inl (dreject ''synthesis_limit_exceeded'' D_RESPONSE_LIMIT RAW_RESPONSE_LIMIT)
      else case loads data of
          Duplicate_key \<Rightarrow> Inl (dreject ''inference_contract_error'' D_DUPLICATE_JSON_KEY DUPLICATE_JSON_KEY)
        | Malformed \<Rightarrow> Inl (dreject ''inference_contract_error'' D_JSON_DECODE MALFORMED_JSON)
        | Rejected exc \<Rightarrow> (let detail = classify_pydantic exc in
            Inl (Digestion_failure (digestion_failure ''inference_contract_error'' (Some D_PYDANTIC_VALIDATION) (Some (pd_reason detail)) (Some detail))))
        | Accepted m \<Rightarrow> Inr m)"

section \<open>The evidence index\<close>

text \<open>\<^verbatim>\<open>bisect.bisect_left\<close> of the standard library.\<close>

function bisect_loop :: "int list \<Rightarrow> int \<Rightarrow> nat \<Rightarrow> nat \<Rightarrow> nat" where
  "bisect_loop xs x lo hi =
     (if lo < hi then let mid = (lo + hi) div 2 in if xs ! mid < x then bisect_loop xs x (Suc mid) hi else bisect_loop xs x lo mid
      else lo)"
  by pat_completeness auto

termination bisect_loop
  by (relation "measure (\<lambda>(xs, x, lo, hi). hi - lo)") auto

declare bisect_loop.simps [simp del]

definition bisect_left :: "int list \<Rightarrow> int \<Rightarrow> nat" where
  "bisect_left xs x = bisect_loop xs x 0 (length xs)"

definition newline_offsets :: "code_points \<Rightarrow> int list" where
  "newline_offsets t = map int (filter (\<lambda>i. t ! i = newline) [0..<length t])"

definition line_index :: "artifact \<Rightarrow> (uuid \<times> int list) list" where
  "line_index a = dict_of (concat (map (\<lambda>u. if tu_physical_page u = None then [(tu_source_id u, newline_offsets (tu_text u))] else []) (ar_units a)))"

abbreviation evidence_rejected :: digestion_exception where
  "evidence_rejected \<equiv> dreject ''evidence_validation_failed'' D_EVIDENCE_VALIDATION OTHER_EVIDENCE_VALIDATION"

definition index_resolve :: "artifact \<Rightarrow> evidence_ref \<Rightarrow> digestion_exception + code_points" where
  "index_resolve a ref =
     (if ev_scope ref \<noteq> dc_scope (ar_document a) \<or> ev_version_id ref \<noteq> dc_version_id (ar_document a)
         \<or> ev_extraction_id ref \<noteq> ar_extraction_id a then Inl evidence_rejected
      else case map_of (block_index a) (ev_block_id ref) of None \<Rightarrow> Inl evidence_rejected
        | Some (u, b) \<Rightarrow>
          let s = ev_span ref in
          if tu_source_id u \<noteq> ev_source_id ref
             \<or> \<not> (sn_start (bk_span b) \<le> sn_start s \<and> sn_start s \<le> sn_end s \<and> sn_end s \<le> sn_end (bk_span b))
          then Inl evidence_rejected
          else let text = slice (sn_start s) (sn_end s) (tu_text u);
                   expected = map_option (\<lambda>ls. 1 + int (bisect_left ls (sn_start s))) (map_of (line_index a) (tu_source_id u));
                   fin = map_option (\<lambda>l. l + int (count_nl (rstrip_nl text))) expected
               in if (sn_line_start s, sn_line_end s) \<noteq> (expected, fin) then Inl evidence_rejected else Inr text)"

section \<open>Stage results\<close>

type_synonym claim_key = "uuid \<times> uuid"

definition stage_binding :: "stage_request \<Rightarrow> stage_result \<Rightarrow> digestion_exception + unit" where
  "stage_binding q r =
     (if rs_stage_id r \<noteq> rq_stage_id q then Inl (dreject ''inference_contract_error'' D_STAGE_BINDING STAGE_ID_MISMATCH)
      else if rs_kind r \<noteq> rq_stage q then Inl (dreject ''inference_contract_error'' D_STAGE_BINDING STAGE_KIND_MISMATCH)
      else if rs_outcome r = Unavailable
      then (if rq_stage q \<noteq> Analysis then Inl (dreject ''inference_contract_error'' D_STAGE_BINDING UNAVAILABLE_REDUCTION)
            else if rs_claims r \<noteq> [] then Inl (dreject ''inference_contract_error'' D_STAGE_BINDING UNAVAILABLE_WITH_CLAIMS)
            else if rs_limitations r = [] then Inl (dreject ''inference_contract_error'' D_STAGE_BINDING UNAVAILABLE_MISSING_LIMITATION)
            else Inr ())
      else if rq_stage q = Analysis \<and> rs_claims r = []
      then Inl (dreject ''inference_contract_error'' D_STAGE_BINDING ANALYZED_WITHOUT_CLAIMS) else Inr ())"

definition result_limits :: "prims \<Rightarrow> stage_request \<Rightarrow> stage_result \<Rightarrow> digestion_exception + unit" where
  "result_limits H q r =
     (let p = rq_profile q in
      sbind (encode H (stage_result_valid r) (stage_result_json r)) (\<lambda>text.
      if dp_max_result_characters p < int (length text)
      then Inl (dreject ''synthesis_limit_exceeded'' D_RESPONSE_LIMIT CANONICAL_RESPONSE_LIMIT)
      else case dp_managed_input_budget p of None \<Rightarrow> Inr ()
        | Some b \<Rightarrow> if mb_child_bytes b < result_contribution H r + child_wrapper_bytes
            then Inl (Digestion_failure (digestion_failure ''synthesis_limit_exceeded'' (Some D_RESPONSE_LIMIT) None None)) else Inr ()))"

definition annotation_limits :: "digestion_profile \<Rightarrow> stage_result \<Rightarrow> digestion_exception + unit" where
  "annotation_limits p r =
     (if dp_max_claims p < int (length (rs_claims r)) then Inl (dreject ''synthesis_limit_exceeded'' D_RESPONSE_LIMIT CLAIM_LIMIT)
      else if dp_max_annotations p < int (length (rs_open_questions r)) \<or> dp_max_annotations p < int (length (rs_limitations r))
      then Inl (dreject ''synthesis_limit_exceeded'' D_RESPONSE_LIMIT ANNOTATION_LIMIT) else Inr ())"

definition permitted_pieces :: "prims \<Rightarrow> artifact \<Rightarrow> source_piece list \<Rightarrow> digestion_exception + uuid list" where
  "permitted_pieces H a pieces = fold_sum (\<lambda>x ids. sbind (index_resolve a (pc_evidence x)) (\<lambda>text.
     if text \<noteq> pc_text x then Inl evidence_rejected else Inr (ids @ [evidence_id H x]))) pieces []"

definition child_links :: "child_input list \<Rightarrow> (claim_key \<times> digest_claim) list" where
  "child_links children = dict_of (concat (map (\<lambda>c. map (\<lambda>k. ((rs_stage_id (ci_result c), cl_id k), k)) (rs_claims (ci_result c))) children))"

definition inherited_ids :: "child_input list \<Rightarrow> uuid list" where
  "inherited_ids children = concat (map (\<lambda>c. concat (map (\<lambda>k. cl_evidence_ids k @ cl_contradicting k) (rs_claims (ci_result c)))) children)"

definition lineage_keys :: "digest_claim \<Rightarrow> claim_key list" where
  "lineage_keys c = map (\<lambda>l. (lk_stage_id l, lk_claim_id l)) (cl_lineage c)"

definition check_identity :: "prims \<Rightarrow> stage_request \<Rightarrow> uuid list \<Rightarrow> nat \<Rightarrow> digest_claim \<Rightarrow> digestion_exception + unit" where
  "check_identity H q ids i c =
     (if cl_id c \<in> set ids then Inl (dreject ''inference_contract_error'' D_CLAIM_IDENTITY DUPLICATE_CLAIM_ID)
      else if cl_id c \<noteq> stable_id H [uuid_text (rq_stage_id q), nat_text i]
      then Inl (dreject ''inference_contract_error'' D_CLAIM_IDENTITY CLAIM_ID_MISMATCH)
      else if cl_originating_stage c \<noteq> rq_stage_id q
      then Inl (dreject ''inference_contract_error'' D_CLAIM_IDENTITY ORIGINATING_STAGE_MISMATCH) else Inr ())"

definition check_text :: "digestion_profile \<Rightarrow> digest_claim \<Rightarrow> digestion_exception + unit" where
  "check_text p c =
     (if dp_max_claim_characters p < int (length (cl_text c)) then Inl (dreject ''synthesis_limit_exceeded'' D_RESPONSE_LIMIT TEXT_LIMIT)
      else if dp_max_annotations p < int (length (cl_qualifications c))
      then Inl (dreject ''synthesis_limit_exceeded'' D_RESPONSE_LIMIT ANNOTATION_LIMIT) else Inr ())"

definition check_references :: "uuid list \<Rightarrow> digest_claim \<Rightarrow> digestion_exception + unit" where
  "check_references allowed c = fold_sum (\<lambda>values _.
     if \<not> distinct values then Inl (dreject ''evidence_validation_failed'' D_EVIDENCE_VALIDATION DUPLICATE_EVIDENCE)
     else if \<not> set values \<subseteq> set allowed then Inl (dreject ''evidence_validation_failed'' D_EVIDENCE_VALIDATION FOREIGN_EVIDENCE)
     else Inr ()) [cl_evidence_ids c, cl_contradicting c] ()"

definition check_lineage :: "(claim_key \<times> digest_claim) list \<Rightarrow> digest_claim \<Rightarrow> digestion_exception + unit" where
  "check_lineage links c =
     (if \<not> distinct (lineage_keys c) then Inl (dreject ''evidence_validation_failed'' D_EVIDENCE_VALIDATION DUPLICATE_CHILD_LINK)
      else if \<not> set (lineage_keys c) \<subseteq> set (map fst links)
      then Inl (dreject ''evidence_validation_failed'' D_EVIDENCE_VALIDATION INVALID_CHILD_LINK) else Inr ())"

definition has_source :: "(claim_key \<times> digest_claim) list \<Rightarrow> digest_claim \<Rightarrow> bool" where
  "has_source links c \<longleftrightarrow> cl_evidence_ids c \<noteq> []
     \<or> list_ex (\<lambda>k. case map_of links k of None \<Rightarrow> False | Some x \<Rightarrow> cl_evidence_ids x \<noteq> [] \<or> cl_lineage x \<noteq> []) (lineage_keys c)"

definition check_support :: "(claim_key \<times> digest_claim) list \<Rightarrow> digest_claim \<Rightarrow> digestion_exception + unit" where
  "check_support links c =
     (if cl_kind c = C_fact \<and> (\<not> has_source links c \<or> cl_status c \<noteq> Supported)
      then Inl (dreject ''evidence_validation_failed'' D_EVIDENCE_VALIDATION UNSUPPORTED_FACT) else Inr ())"

definition check_qualification :: "digestion_profile \<Rightarrow> uuid list \<Rightarrow> qualification \<Rightarrow> digestion_exception + unit" where
  "check_qualification p allowed q =
     (let long = dp_max_claim_characters p < int (length (ql_text q)) in
      if ql_evidence_ids q = [] \<or> long \<or> \<not> distinct (ql_evidence_ids q) \<or> \<not> set (ql_evidence_ids q) \<subseteq> set allowed
      then Inl (dreject ''evidence_validation_failed'' D_EVIDENCE_VALIDATION
             (if ql_evidence_ids q \<noteq> [] \<and> long then TEXT_LIMIT else INVALID_QUALIFICATION_SOURCE))
      else Inr ())"

definition check_subject :: "digest_claim \<Rightarrow> digestion_exception + unit" where
  "check_subject c =
     (if cl_subject c \<noteq> None \<and> cl_kind c \<noteq> C_fact
      then Inl (dreject ''inference_contract_error'' D_CLAIM_CONTRACT SUBJECT_ON_NONFACT) else Inr ())"

text \<open>The loop state: the evidence used, the child claims linked, and the claim identifiers so far.\<close>

record claim_state =
  cs_used :: "uuid list"
  cs_linked :: "claim_key list"
  cs_ids :: "uuid list"

definition check_claim :: "prims \<Rightarrow> stage_request \<Rightarrow> uuid list \<Rightarrow> (claim_key \<times> digest_claim) list \<Rightarrow> nat \<times> digest_claim \<Rightarrow> claim_state
    \<Rightarrow> digestion_exception + claim_state" where
  "check_claim H q allowed links ic st =
     (let c = snd ic; p = rq_profile q in
      sbind (check_identity H q (cs_ids st) (fst ic) c) (\<lambda>_.
      sbind (check_text p c) (\<lambda>_.
      sbind (check_references allowed c) (\<lambda>_.
      sbind (check_lineage links c) (\<lambda>_.
      sbind (check_support links c) (\<lambda>_.
      sbind (fold_sum (\<lambda>x _. check_qualification p allowed x) (cl_qualifications c) ()) (\<lambda>_.
      sbind (check_subject c) (\<lambda>_.
      Inr \<lparr>cs_used = cl_evidence_ids c @ cl_contradicting c @ cs_used st, cs_linked = lineage_keys c @ cs_linked st,
           cs_ids = cl_id c # cs_ids st\<rparr>))))))))"

definition check_coverage :: "stage_request \<Rightarrow> stage_result \<Rightarrow> uuid list \<Rightarrow> (claim_key \<times> digest_claim) list \<Rightarrow> claim_state \<Rightarrow> digestion_exception + unit" where
  "check_coverage q r permitted links st =
     (if rs_outcome r = Analyzed \<and> rq_stage q = Analysis \<and> set (cs_used st) \<noteq> set permitted
      then Inl (dreject ''coverage_failed'' D_COVERAGE_VALIDATION MISSING_SOURCE_COVERAGE)
      else if rq_stage q = Reduction \<and> set (cs_linked st) \<noteq> set (map fst links)
      then Inl (dreject ''coverage_failed'' D_COVERAGE_VALIDATION MISSING_CHILD_COVERAGE)
      else if list_ex (\<lambda>t. dp_max_claim_characters (rq_profile q) < int (length t)) (rs_open_questions r @ rs_limitations r)
      then Inl (dreject ''synthesis_limit_exceeded'' D_RESPONSE_LIMIT TEXT_LIMIT)
      else Inr ())"

definition validate_result :: "prims \<Rightarrow> (bytes \<Rightarrow> stage_result parsed) \<Rightarrow> artifact \<Rightarrow> bytes \<Rightarrow> stage_request \<Rightarrow> digestion_exception + stage_result" where
  "validate_result H loads a raw q =
     sbind (check_request H q) (\<lambda>_.
     sbind (decode loads raw (response_byte_limit (rq_profile q))) (\<lambda>r.
     sbind (result_limits H q r) (\<lambda>_.
     sbind (stage_binding q r) (\<lambda>_.
     sbind (annotation_limits (rq_profile q) r) (\<lambda>_.
     sbind (permitted_pieces H a (rq_source_data q)) (\<lambda>permitted.
     let links = child_links (rq_children q); allowed = permitted @ inherited_ids (rq_children q) in
     sbind (fold_sum (check_claim H q allowed links) (enumerate 0 (rs_claims r)) \<lparr>cs_used = [], cs_linked = [], cs_ids = []\<rparr>) (\<lambda>st.
     sbind (check_coverage q r permitted links st) (\<lambda>_.
     Inr r))))))))"

section \<open>Inherited annotations\<close>

type_synonym sides = "bool \<times> bool"

definition put_sides :: "string \<Rightarrow> sides \<Rightarrow> (string \<times> sides) list \<Rightarrow> (string \<times> sides) list" where
  "put_sides k s d = (let old = (case map_of d k of None \<Rightarrow> (False, False) | Some x \<Rightarrow> x)
     in dict_put k (fst old \<or> fst s, snd old \<or> snd s) d)"

definition claim_side :: "digest_claim \<Rightarrow> (string \<times> sides) list" where
  "claim_side c = (case (cl_subject c, cl_stance c) of
       (Some k, Affirmed) \<Rightarrow> if k = [] then [] else [(k, (True, False))]
     | (Some k, Denied) \<Rightarrow> if k = [] then [] else [(k, (False, True))]
     | _ \<Rightarrow> [])"

definition merged_sides :: "checkpoint list \<Rightarrow> stage_result \<Rightarrow> (string \<times> sides) list" where
  "merged_sides children r = fold (\<lambda>(k, s). put_sides k s)
     (concat (map (\<lambda>cp. map (\<lambda>p. (pr_subject p, (pr_affirmed p, pr_denied p))) (cp_propositions cp)) children)
      @ concat (map claim_side (rs_claims r))) []"

definition inherited_propositions :: "checkpoint list \<Rightarrow> stage_result \<Rightarrow> proposition_row list" where
  "inherited_propositions children r =
     map (\<lambda>(k, s). \<lparr>pr_subject = k, pr_affirmed = fst s, pr_denied = snd s\<rparr>) (sort_key fst (merged_sides children r))"

definition inherited_summary :: "stage_result \<Rightarrow> stage_request \<Rightarrow> checkpoint list \<Rightarrow> inherited_summary_row \<times> proposition_row list" where
  "inherited_summary r q children =
     (let props = inherited_propositions children r; own = int (length (rq_source_data q));
          total = (\<lambda>f. sum_list (map (\<lambda>c. f (cp_inherited c)) children)) in
      (\<lparr>is_analyzed_pieces = total is_analyzed_pieces + (if rs_outcome r = Analyzed then own else 0),
        is_failed_pieces = total is_failed_pieces + (if rs_outcome r = Unavailable then own else 0),
        is_qualifications = total is_qualifications + sum_list (map (\<lambda>c. int (length (cl_qualifications c))) (rs_claims r)),
        is_contradictions = int (length (filter (\<lambda>p. pr_affirmed p \<and> pr_denied p) props)),
        is_open_questions = total is_open_questions + int (length (rs_open_questions r))\<rparr>, props))"

section \<open>The digest\<close>

definition claim_graph :: "(uuid \<times> checkpoint) list \<Rightarrow> (claim_key \<times> digest_claim) list" where
  "claim_graph cps = dict_of (concat (map (\<lambda>(s, cp). map (\<lambda>c. ((s, cl_id c), c)) (rs_claims (cp_result cp))) cps))"

text \<open>The walk over the accepted claims from the root; the head of the list is the top of the stack.\<close>

function claim_walk :: "(claim_key \<times> digest_claim) list \<Rightarrow> claim_key list \<Rightarrow> claim_key list \<Rightarrow> digestion_exception + claim_key list" where
  "claim_walk claims [] seen = Inr seen"
| "claim_walk claims (k # todo) seen =
     (if k \<in> set seen then claim_walk claims todo seen
      else case map_of claims k of None \<Rightarrow> Inl (dfail ''evidence_validation_failed'')
        | Some c \<Rightarrow> claim_walk claims (rev (lineage_keys c) @ todo) (k # seen))"
  by pat_completeness auto

termination claim_walk
proof (relation "measures [\<lambda>(claims, todo, seen). card (fst ` set claims - set seen), \<lambda>(claims, todo, seen). length todo]", goal_cases)
  case (3 claims k todo seen c)
  from 3(2) have "k \<in> fst ` set claims" by (metis map_of_SomeD fst_conv image_eqI)
  with 3(1) have "fst ` set claims - set (k # seen) \<subset> fst ` set claims - set seen" by auto
  then show ?case by (simp add: psubset_card_mono)
qed auto

record gathered =
  gt_findings :: "digest_claim list"
  gt_evidence :: "(uuid \<times> evidence_ref) list"
  gt_parts :: "(uuid \<times> int \<times> int) list"

text \<open>The loop over the chunks. The two dictionaries of intervals receive the same entries and are one
  here, a list of blocks with their intervals in the order of insertion.\<close>

definition gather_chunk :: "prims \<Rightarrow> artifact \<Rightarrow> (uuid \<times> checkpoint) list \<Rightarrow> claim_key list \<Rightarrow> analysis_chunk \<Rightarrow> gathered \<Rightarrow> digestion_exception + gathered" where
  "gather_chunk H a cps seen ch g =
     (case map_of cps (ch_id ch) of None \<Rightarrow> Inl Other_failure
      | Some cp \<Rightarrow>
          if rs_outcome (cp_result cp) = Unavailable then Inr g
          else if \<not> list_all (\<lambda>c. (ch_id ch, cl_id c) \<in> set seen) (rs_claims (cp_result cp)) then Inl (dfail ''coverage_failed'')
          else fold_sum (\<lambda>x g. sbind (index_resolve a (pc_evidence x)) (\<lambda>_.
                 Inr (g\<lparr>gt_evidence := dict_put (evidence_id H x) (pc_evidence x) (gt_evidence g),
                        gt_parts := gt_parts g @ [(ev_block_id (pc_evidence x), sn_start (ev_span (pc_evidence x)), sn_end (ev_span (pc_evidence x)))]\<rparr>)))
               (ch_pieces ch) (g\<lparr>gt_findings := gt_findings g @ rs_claims (cp_result cp)\<rparr>))"

fun cover_scan :: "int \<Rightarrow> (int \<times> int) list \<Rightarrow> int option" where
  "cover_scan cursor [] = Some cursor"
| "cover_scan cursor ((s, e) # rest) = (if cursor < s then None else cover_scan (max cursor e) rest)"

definition parts_of :: "(uuid \<times> int \<times> int) list \<Rightarrow> uuid \<Rightarrow> (int \<times> int) list" where
  "parts_of parts k = map snd (filter (\<lambda>x. fst x = k) parts)"

definition full_block :: "block \<Rightarrow> (int \<times> int) list \<Rightarrow> bool" where
  "full_block b parts \<longleftrightarrow> parts \<noteq> [] \<and> cover_scan (sn_start (bk_span b)) (sort parts) = Some (sn_end (bk_span b))"

definition full_blocks :: "artifact \<Rightarrow> (uuid \<times> int \<times> int) list \<Rightarrow> uuid list \<Rightarrow> digestion_exception + uuid list" where
  "full_blocks a parts eligible = fold_sum (\<lambda>k acc. case map_of (block_index a) k of None \<Rightarrow> Inl Other_failure
     | Some (u, b) \<Rightarrow> Inr (if full_block b (parts_of parts k) then acc @ [k] else acc)) eligible []"

definition make_coverage :: "plan \<Rightarrow> uuid list \<Rightarrow> coverage" where
  "make_coverage pl included =
     (let denominator = length (pl_eligible pl) + length (pl_unsupported pl) in
      \<lparr>cv_eligible = pl_eligible pl, cv_analyzed = included, cv_failed = filter (\<lambda>k. k \<notin> set included) (pl_eligible pl),
       cv_skipped = pl_skipped pl, cv_unsupported = pl_unsupported pl, cv_included = included,
       cv_fraction = (if denominator = 0 then 0 else of_nat (length included) / of_nat denominator)\<rparr>)"

definition coverage_complete :: "plan \<Rightarrow> coverage \<Rightarrow> bool" where
  "coverage_complete pl cv \<longleftrightarrow> cv_failed cv = [] \<and> pl_unsupported pl = [] \<and> length (cv_included cv) = length (pl_eligible pl)"

definition digest_status_of :: "plan \<Rightarrow> coverage \<Rightarrow> digest_status" where
  "digest_status_of pl cv =
     (let p = pl_profile pl in
      if cv_fraction cv < dp_minimum_coverage p then D_FAILED
      else if coverage_complete pl cv then D_COMPLETE
      else if dp_allow_partial p \<and> cv_included cv \<noteq> [] \<and> dp_minimum_coverage p \<le> cv_fraction cv
              \<and> int (length (cv_failed cv)) \<le> dp_max_failed_units p
      then D_PARTIAL else D_FAILED)"

definition put_subject :: "digest_claim \<Rightarrow> (string \<times> uuid list \<times> uuid list) list \<Rightarrow> (string \<times> uuid list \<times> uuid list) list" where
  "put_subject c d = (case (cl_subject c, cl_stance c) of
       (Some k, Affirmed) \<Rightarrow> if k = [] then d else
          (let old = (case map_of d k of None \<Rightarrow> ([], []) | Some x \<Rightarrow> x) in dict_put k (fst old @ [cl_id c], snd old) d)
     | (Some k, Denied) \<Rightarrow> if k = [] then d else
          (let old = (case map_of d k of None \<Rightarrow> ([], []) | Some x \<Rightarrow> x) in dict_put k (fst old, snd old @ [cl_id c]) d)
     | _ \<Rightarrow> d)"

definition contradictions_of :: "digest_claim list \<Rightarrow> contradiction list" where
  "contradictions_of findings = map (\<lambda>(k, xs, ys). \<lparr>ct_subject = k, ct_affirmed = xs, ct_denied = ys\<rparr>)
     (filter (\<lambda>(k, xs, ys). xs \<noteq> [] \<and> ys \<noteq> []) (sort_key fst (fold put_subject findings [])))"

definition points :: "string \<Rightarrow> code_points" where "points s = map of_char s"

definition digest_limitations :: "(uuid \<times> checkpoint) list \<Rightarrow> bool \<Rightarrow> code_points list" where
  "digest_limitations cps whole = sort (remdups (concat (map (\<lambda>(s, cp). rs_limitations (cp_result cp)) cps)
     @ (if whole then [] else [points ''Incomplete source coverage; this digest is not complete publishable knowledge.''])))"

definition digest_questions :: "plan \<Rightarrow> (uuid \<times> checkpoint) list \<Rightarrow> contradiction list \<Rightarrow> code_points list" where
  "digest_questions pl cps contradictions = sort (remdups (concat (map (\<lambda>(s, cp). rs_open_questions (cp_result cp)) cps)
     @ (if pl_unsupported pl \<noteq> [] then [points ''Content unavailable for unsupported or unextractable source units.''] else [])
     @ (if contradictions \<noteq> [] then [points ''Conflicting source propositions remain unresolved.''] else [])))"

definition digest_sections :: "plan \<Rightarrow> (uuid \<times> checkpoint) list \<Rightarrow> section_summary list" where
  "digest_sections pl cps =
     (let nodes = dict_of (map (\<lambda>n. (rn_structural_parent n, rn_stage_id n)) (pl_reducers pl)) in
      concat (map (\<lambda>u. if su_kind u \<in> {K_section, K_subsection}
        then (case map_of nodes (su_id u) of None \<Rightarrow> []
              | Some s \<Rightarrow> (case map_of cps s of None \<Rightarrow> []
                  | Some cp \<Rightarrow> (case rs_claims (cp_result cp) of [] \<Rightarrow> []
                      | c # _ \<Rightarrow> [\<lparr>ss_unit_id = su_id u, ss_stage_id = s, ss_synthesis = cl_text c\<rparr>])))
        else []) (sm_units (pl_structure pl))))"

definition expected_stages :: "plan \<Rightarrow> uuid list" where
  "expected_stages pl = map ch_id (pl_chunks pl) @ map rn_stage_id (pl_reducers pl)"

definition make_digest :: "prims \<Rightarrow> artifact \<Rightarrow> plan \<Rightarrow> object_ref \<Rightarrow> (uuid \<times> checkpoint) list \<Rightarrow> (uuid \<times> object_ref) list
    \<Rightarrow> digestion_exception + digest_artifact" where
  "make_digest H a pl plan_ref cps refs =
     (if set (map fst cps) \<noteq> set (expected_stages pl) \<or> set (map fst refs) \<noteq> set (expected_stages pl) then Inl (dfail ''coverage_failed'')
      else case map_of cps (pl_root_id pl) of None \<Rightarrow> Inl Other_failure
        | Some root_cp \<Rightarrow>
          let claims = claim_graph cps; root_claims = rs_claims (cp_result root_cp) in
          sbind (claim_walk claims (rev (map (\<lambda>c. (pl_root_id pl, cl_id c)) root_claims)) []) (\<lambda>seen.
          sbind (fold_sum (gather_chunk H a cps seen) (pl_chunks pl) \<lparr>gt_findings = [], gt_evidence = [], gt_parts = []\<rparr>) (\<lambda>g.
          sbind (full_blocks a (gt_parts g) (pl_eligible pl)) (\<lambda>included.
          let cv = make_coverage pl included; contradictions = contradictions_of (gt_findings g) in
          Inr \<lparr>da_version_id = sm_version_id (pl_structure pl), da_extraction = sm_extraction (pl_structure pl), da_plan = plan_ref,
               da_profile = digestion_profile_digest H (pl_profile pl), da_status = digest_status_of pl cv,
               da_executive_summary = (case root_claims of [] \<Rightarrow> points ''No supported root findings are available.'' | c # _ \<Rightarrow> cl_text c),
               da_root = pl_root_id pl, da_sections = digest_sections pl cps, da_findings = gt_findings g, da_synthesis_claims = root_claims,
               da_qualifications = concat (map (\<lambda>(k, c). if k \<in> set seen then cl_qualifications c else []) claims),
               da_contradictions = contradictions, da_open_questions = digest_questions pl cps contradictions, da_coverage = cv,
               da_limitations = digest_limitations cps (coverage_complete pl cv), da_evidence = map snd (gt_evidence g),
               da_checkpoints = concat (map (\<lambda>(k, _). case map_of refs k of None \<Rightarrow> [] | Some r \<Rightarrow> [r]) cps)\<rparr>))))"

end
