(* ===== verification/DigestSamples.thy ===== *)
theory DigestSamples
  imports DigestPlanTheorems TextExtraction
begin

text \<open>
  A concrete plan: the sample artifact of one text unit under a small digestion profile, on which
  the theorems about planning are applied. The size of a request is bounded by \<open>json_bound\<close>,
  which needs neither the order of the keys nor the escapes.
\<close>

function json_bound :: "json \<Rightarrow> nat" where
  "json_bound JNull = 4"
| "json_bound (JBool b) = 5"
| "json_bound (JInt i) = length (int_text i)"
| "json_bound (JFloat x) = 10"
| "json_bound (JStr s) = 2 + 6 * length s"
| "json_bound (JText t) = 2 + 12 * length t"
| "json_bound (JArr vs) = 2 + length vs + sum_list (map json_bound vs)"
| "json_bound (JObj kvs) = 2 + length kvs + sum_list (map (\<lambda>(k, v). 3 + 6 * length k + json_bound v) kvs)"
  by pat_completeness auto

termination json_bound
proof (relation "measure size", goal_cases)
  case (2 vs x)
  then show ?case by (induction vs) (auto simp: less_Suc_eq_le)
next
  case (3 kvs x xa y)
  then show ?case using size_json_obj [of xa y kvs] by (simp add: case_prod_unfold)
qed simp

lemma length_escape_char: "length (escape_char c) \<le> 6"
  by (simp add: escape_char_def)

lemma length_concat_bound:
  assumes "\<And>x. length (f x) \<le> n"
  shows "length (concat (map f xs)) \<le> n * length xs"
  using assms by (induction xs) (simp_all add: add_mono)

lemma length_escape_point: "length (escape_point n) \<le> 12"
  using length_escape_char [of "char_of n"] by (simp add: escape_point_def escape_unit_def)

lemma length_join: "length (comma_join xs) \<le> length xs + sum_list (map length xs)"
  by (induction xs rule: comma_join.induct) auto

lemma sum_list_sorted: "sum_list (map f (sort_key g xs)) = (sum_list (map f xs) :: nat)"
proof -
  have "sum_list (map f (insort_key g x ys)) = f x + sum_list (map f ys)" for x ys by (induction ys) auto
  then show ?thesis by (induction xs) auto
qed

lemma length_canonical:
  assumes "\<And>x. length (float_repr H x) \<le> 10"
  shows "length (canonical H v) \<le> json_bound v"
proof (induction v rule: json_bound.induct)
  case (5 s)
  then show ?case using length_concat_bound [of escape_char 6 s] length_escape_char by (simp add: json_string_def)
next
  case (6 t)
  then show ?case using length_concat_bound [of escape_point 12 t] length_escape_point by (simp add: json_text_def)
next
  case (7 vs)
  then have "sum_list (map (length \<circ> canonical H) vs) \<le> sum_list (map json_bound vs)" by (intro sum_list_mono) auto
  then show ?case using length_join [of "map (canonical H) vs"] by simp
next
  case (8 kvs)
  let ?f = "\<lambda>(k, v). json_string k @ '':'' @ canonical H v"
  let ?g = "\<lambda>(k, v). 3 + 6 * length k + json_bound v"
  have "length (?f x) \<le> ?g x" if "x \<in> set kvs" for x
  proof (cases x)
    case (Pair k v)
    with 8 that have "length (canonical H v) \<le> json_bound v" by auto
    with Pair show ?thesis
      using length_concat_bound [of escape_char 6 k] length_escape_char by (simp add: json_string_def)
  qed
  then have "sum_list (map (length \<circ> ?f) (sort_key fst kvs)) \<le> sum_list (map ?g (sort_key fst kvs))" by (intro sum_list_mono) auto
  also have "\<dots> = sum_list (map ?g kvs)" by (rule sum_list_sorted)
  finally show ?case using length_join [of "map ?f (sort_key fst kvs)"] by simp
qed (simp_all add: assms)

lemma check_request_admits:
  assumes "request_valid H r" and "dp_managed_input_budget (rq_profile r) = None" and "\<And>x. length (float_repr H x) \<le> 10"
    and "int (json_bound (request_json r)) + dp_template_tokens (rq_profile r) + dp_reserved_output_tokens (rq_profile r) \<le> dp_context_tokens (rq_profile r)"
  shows "check_request H r = Inr (estimate (canonical H (request_json r)) + dp_template_tokens (rq_profile r))"
  using assms length_canonical [OF assms(3), of "request_json r"]
  by (simp add: check_request_def request_size_def encode_def estimate_def)

section \<open>The sample plan\<close>

definition sample_digestion :: digestion_profile where
  "sample_digestion = \<lparr>dp_version = ''digestion/1'', dp_structure_profile = ''s'', dp_chunking_profile = ''c'', dp_inference_profile = ''d'',
     dp_inference_config = replicate 64 CHR ''0'', dp_reducer_profile = ''r'', dp_prompt_profile = ''p'', dp_context_tokens = 100000,
     dp_reserved_output_tokens = 100, dp_template_tokens = 10, dp_chunk_characters = 8, dp_max_fan_in = 4, dp_max_result_characters = 6000,
     dp_max_response_bytes = None, dp_managed_input_budget = None, dp_max_claims = 8, dp_max_claim_characters = 64, dp_max_annotations = 4,
     dp_max_source_units = 10, dp_max_chunks = 10, dp_max_steps = 20, dp_max_artifact_bytes = 10000, dp_max_depth = 3, dp_allow_partial = False,
     dp_minimum_coverage = 1 / 2, dp_max_failed_units = 0\<rparr>"

definition sample_piece :: source_piece where
  "sample_piece = \<lparr>pc_evidence = \<lparr>ev_scope = \<lparr>tenant = 1, owner = 2\<rparr>, ev_version_id = 7, ev_extraction_id = 7, ev_source_id = 7, ev_block_id = 7,
       ev_span = \<lparr>sn_start = 0, sn_end = 2, sn_line_start = Some 1, sn_line_end = Some 1\<rparr>\<rparr>,
     pc_text = [104, 105], pc_kind = B_text, pc_cells = None, pc_limitation = No_limitation\<rparr>"

definition sample_chunk_request :: stage_request where
  "sample_chunk_request = \<lparr>rq_stage_id = 7, rq_stage = Analysis, rq_profile = sample_digestion, rq_path = [], rq_source_data = [sample_piece],
     rq_children = []\<rparr>"

lemma sample_digestion_valid: "digestion_profile_valid sample_digestion"
  by code_simp

lemmas bound_simps = request_json_def digestion_profile_json_def piece_json_def evidence_json_def span_json_def scope_json_def
  uuid_json_def opt_json_def cells_json_def uuid_text_length int_text_def nat_text_def digits_rev.simps

lemma sample_request_bound: "int (json_bound (request_json sample_chunk_request)) \<le> 50000"
  by (simp add: sample_chunk_request_def sample_piece_def sample_digestion_def bound_simps)

lemma sample_empty_bound: "int (json_bound (request_json (empty_request sample_digestion 7 []))) \<le> 40000"
  by (simp add: empty_request_def sample_digestion_def bound_simps)

text \<open>Hash primitives under which every name has the identifier 7, except that of the reduction of chunk 7 below the
  root 7, which has the identifier \<open>k\<close>.\<close>

definition reduction_parts :: "string list" where
  "reduction_parts = [uuid_text 7, replicate 64 CHR ''0'', ''reduction'', uuid_text 7, uuid_text 7]"

definition plan_prims :: "uuid \<Rightarrow> prims" where
  "plan_prims k = sample_prims\<lparr>uuid5_url := (\<lambda>s. if s = stable_name reduction_parts then k else 7)\<rparr>"

lemma plan_prims_7: "plan_prims 7 = sample_prims"
  by (simp add: plan_prims_def sample_prims_def)

lemma plan_stable_id: "stable_id (plan_prims k) xs = (if xs = reduction_parts then k else 7)"
  by (auto simp: stable_id_def plan_prims_def dest: stable_name_inj)

lemma plan_stable_ids [simp]:
  "stable_id (plan_prims k) reduction_parts = k"
  "length xs \<noteq> 5 \<Longrightarrow> stable_id (plan_prims k) xs = 7"
  "c \<noteq> ''reduction'' \<Longrightarrow> stable_id (plan_prims k) (a # b # c # xs) = 7"
  by (auto simp: plan_stable_id reduction_parts_def)

lemma plan_fingerprint [simp]: "fingerprint (plan_prims k) j = replicate 64 CHR ''0''"
  by (simp add: fingerprint_def plan_prims_def sample_prims_def)

lemma plan_floats: "length (float_repr (plan_prims k) x) \<le> 10"
  by (simp add: plan_prims_def sample_prims_def)

lemma plan_chunk_request_valid: "request_valid (plan_prims k) sample_chunk_request"
  by (simp add: request_valid_def sample_chunk_request_def sample_digestion_valid material_boundary_def sample_piece_def span_valid_def)

lemma plan_check: "\<exists>n. check_request (plan_prims k) sample_chunk_request = Inr n"
  using check_request_admits [OF plan_chunk_request_valid _ plan_floats] sample_request_bound
  by (simp add: sample_chunk_request_def sample_digestion_def)

lemmas sample_floats = plan_floats [of 7, unfolded plan_prims_7]
lemmas sample_chunk_request_valid = plan_chunk_request_valid [of 7, unfolded plan_prims_7]
lemmas sample_check = plan_check [of 7, unfolded plan_prims_7]

lemma plan_artifact_valid: "artifact_valid (plan_prims k) sample_lang sample_artifact_model"
  by (simp add: artifact_valid_def sample_artifact_model_def make_artifact_def document_valid_def Let_def object_ref_valid_def put_ref_def
      sample_request_def version_id_def object_key_def sample_hex_digest sample_unit_def unit_fields_valid_def observations_valid_def
      make_block_def span_valid_def validate_graph_def extraction_identity_def page_inventory_def unit_ok_def source_identity_def
      has_text_def sample_lang_def printable_ratio_def replacement_ratio_def block_ok_def block_identity_def slice_def count_nl_def
      rstrip_nl_def newline_def)

definition sample_root :: structural_unit where
  "sample_root = \<lparr>su_id = 7, su_parent = None, su_children = [], su_order = 0, su_kind = K_document, su_heading = None,
     su_path = [], su_source = US_root, su_confidence = Source_declared, su_blocks = [7], su_sources = [7], su_pages = []\<rparr>"

lemmas sample_artifact_simps = sample_artifact_model_def make_artifact_def sample_unit_def make_block_def sample_lang_def sample_request_def

lemma sample_inventory:
  "inventory sample_artifact_model = [(sample_unit, make_block sample_prims 7 7 True 0 0 [104, 105])]"
  "all_blocks sample_artifact_model = [make_block sample_prims 7 7 True 0 0 [104, 105]]"
  "ar_units sample_artifact_model = [sample_unit]"
  by (simp_all add: inventory_def all_blocks_def sample_artifact_model_def make_artifact_def) (simp_all add: sample_unit_def)

lemma sample_block [simp]:
  "bk_block_id (make_block sample_prims 7 7 True 0 0 [104, 105]) = 7"
  "bk_parent_id (make_block sample_prims 7 7 True 0 0 [104, 105]) = None"
  "bk_kind (make_block sample_prims 7 7 True 0 0 [104, 105]) = B_text"
  "bk_visual (make_block sample_prims 7 7 True 0 0 [104, 105]) = None"
  "bk_source_text (make_block sample_prims 7 7 True 0 0 [104, 105]) = [104, 105]"
  "bk_span (make_block sample_prims 7 7 True 0 0 [104, 105]) = \<lparr>sn_start = 0, sn_end = 2, sn_line_start = Some 1, sn_line_end = Some 1\<rparr>"
  by (simp_all add: make_block_def block_identity_def)

lemma plan_structure:
  "build_structure (plan_prims k) sample_artifact_model ref sample_digestion = Inr \<lparr>sm_extraction = ref, sm_version_id = 7,
     sm_profile = digestion_profile_digest (plan_prims k) sample_digestion, sm_units = [sample_root]\<rparr>"
proof -
  have hs: "headings_of sample_artifact_model = []"
    by (simp add: headings_of_def sample_inventory dict_of_def)
  have u: "tu_source_id sample_unit = 7" "tu_physical_page sample_unit = None" by (simp_all add: sample_unit_def)
  have d: "dc_version_id (ar_document sample_artifact_model) = 7" by (simp add: sample_artifact_model_def make_artifact_def)
  have v: "structural_map_valid \<lparr>sm_extraction = ref, sm_version_id = 7, sm_profile = pd, sm_units = [sample_root]\<rparr>" for pd
    by (simp add: structural_map_valid_def sample_root_def find_unit_def children_ok_def)
  have f: "finish_root sample_artifact_model 7 [sample_root\<lparr>su_sources := x\<rparr>] = [sample_root]" for x
    by (simp add: finish_root_def sample_inventory u sample_root_def)
  show ?thesis
    unfolding build_structure_def Let_def structure_root_def hs check_headings_def sample_inventory
    using v f [of "[7]"]
    by (simp add: place_block_def choose_node_def add_fallback_def add_node_def fallback_node_def find_unit_def root_unit_def record_block_def
        d u) (simp add: sample_root_def)
qed

lemma plan_make_chunk:
  "su_id node = 7 \<Longrightarrow> su_path node = [] \<Longrightarrow> \<exists>c. make_chunk (plan_prims k) sample_artifact_model sample_digestion n node [sample_piece] = Inr c
     \<and> ch_id c = 7 \<and> ch_sequence c = int n \<and> ch_structural_parent c = 7 \<and> ch_pieces c = [sample_piece]"
  using plan_check [of k] plan_chunk_request_valid [of k] unfolding make_chunk_def Let_def
  by (auto simp: sample_chunk_request_def)

lemma plan_chunks:
  "\<exists>c. fold_sum (chunk_group (plan_prims k) sample_artifact_model sample_digestion [7]) [(sample_root, [7])] [] = Inr [c]
     \<and> ch_id c = 7 \<and> ch_sequence c = 0 \<and> ch_structural_parent c = 7 \<and> ch_pieces c = [sample_piece]"
proof -
  let ?b = "make_block sample_prims 7 7 True 0 0 [104, 105]"
  have r: "su_id sample_root = 7" "su_path sample_root = []" by (simp_all add: sample_root_def)
  from plan_make_chunk [OF r, of k 0] obtain c where
    c: "make_chunk (plan_prims k) sample_artifact_model sample_digestion 0 sample_root [sample_piece] = Inr c"
      "ch_id c = 7" "ch_sequence c = 0" "ch_structural_parent c = 7" "ch_pieces c = [sample_piece]" by auto
  have p: "make_piece sample_artifact_model sample_unit ?b 0 (Some 1) 2 = sample_piece"
    by (simp add: make_piece_def Let_def sample_piece_def slice_def count_nl_def rstrip_nl_def newline_def block_cells_def)
      (simp add: sample_artifact_model_def make_artifact_def sample_unit_def sample_request_def)
  have f: "fit_piece (plan_prims k) sample_artifact_model sample_digestion 0 sample_root sample_unit ?b 0 (Some 1) 2 = Inr (2, sample_piece)"
    using c(1) by (subst fit_piece.simps) (simp add: p Let_def block_cells_def span_valid_def sample_piece_def)
  have w: "window_end sample_digestion sample_unit ?b 0 = 2" "0 < dp_chunk_characters sample_digestion"
    by (simp_all add: window_end_def sample_digestion_def)
  have "split_block (plan_prims k) sample_artifact_model sample_digestion sample_root sample_unit ?b 0 (Some 1) True ([], [], 0)
      = Inr ([], [sample_piece], 2)"
    using w(2) by (subst split_block.simps, simp add: w f place_piece_def Let_def, subst split_block.simps) (simp add: sample_piece_def)
  moreover have "map_of (block_index sample_artifact_model) 7 = Some (sample_unit, ?b)"
    by (simp add: block_index_def sample_inventory dict_of_def)
  ultimately have "fold_sum (chunk_group (plan_prims k) sample_artifact_model sample_digestion [7]) [(sample_root, [7])] [] = Inr [c]"
    using c(1) by (simp add: chunk_group_def chunk_block_def append_chunk_def) (simp add: sample_digestion_def)
  with c show ?thesis by blast
qed

lemma plan_reduction_key:
  "stable_id (plan_prims k) [uuid_text (ar_extraction_id sample_artifact_model), digestion_profile_digest (plan_prims k) sample_digestion,
     ''reduction'', uuid_text (su_id sample_root), uuid_text 7] = k"
  using plan_stable_ids(1) [of k]
  by (simp add: reduction_parts_def digestion_profile_digest_def sample_root_def sample_artifact_model_def make_artifact_def)

lemma plan_reduce:
  assumes "ch_id c = 7" "ch_sequence c = 0" "ch_structural_parent c = 7"
  shows "\<exists>st. fold_sum (reduce_node (plan_prims k) sample_artifact_model sample_digestion 7 [c]) [sample_root]
     (\<lparr>rd_reducers = [], rd_levels = [(7, 0)], rd_positions = [(7, 0)]\<rparr>, []) = Inr (st, [(7, Some k)])
     \<and> map rn_stage_id (rd_reducers st) = [k]"
proof -
  let ?r = "empty_request sample_digestion 7 []"
  let ?n = "int (length (canonical (plan_prims k) (request_json ?r)))"
  have n: "?n \<le> 40000" using sample_empty_bound length_canonical [OF plan_floats, of k "request_json ?r"] by linarith
  have v: "request_valid (plan_prims k) ?r"
    using sample_digestion_valid by (simp add: request_valid_def material_boundary_def empty_request_def sample_digestion_def)
  have cap: "2 \<le> (100000 - 100 - (?n + 10 + ?n + 512)) div 7024" using n by simp
  define run where "run ov per cap = reduce_rounds (plan_prims k) sample_artifact_model sample_digestion 1 sample_root ov per (nat cap) [7]
      \<lparr>rd_reducers = [], rd_levels = [(7, 0)], rd_positions = [(7, 0)]\<rparr>" for ov per cap
  have st: "run ov per cap = Inr (k, snd (projr (run ov per cap))) \<and> map rn_stage_id (rd_reducers (snd (projr (run ov per cap)))) = [k]"
    if "2 \<le> cap" for ov per cap
  proof -
    have "batches (nat cap) [7 :: uuid] = [[7]]" using that by (simp add: batches.simps)
    moreover have "1 \<le> dp_max_depth sample_digestion" "4 \<le> dp_max_steps sample_digestion" by (simp_all add: sample_digestion_def)
    ultimately show ?thesis unfolding run_def
      by (subst (1 2 3) reduce_rounds.simps) (simp add: reduce_one_def known_def Let_def plan_reduction_key)
  qed
  have fields: "dp_context_tokens sample_digestion = 100000" "dp_reserved_output_tokens sample_digestion = 100"
    "dp_template_tokens sample_digestion = 10" "dp_max_fan_in sample_digestion = 4" "dp_max_result_characters sample_digestion = 6000"
    "dp_managed_input_budget sample_digestion = None" "rq_profile ?r = sample_digestion" "su_path sample_root = []"
    by (simp_all add: sample_digestion_def empty_request_def sample_root_def)
  let ?c = "min 4 ((99378 - 2 * ?n) div 7024)"
  have two: "2 \<le> ?c" using cap by simp
  have "reduce_group (plan_prims k) sample_artifact_model sample_digestion 7 1 sample_root [7]
      \<lparr>rd_reducers = [], rd_levels = [(7, 0)], rd_positions = [(7, 0)]\<rparr>
      = sbind (run (?n + 10 + ?n + 512) 7024 ?c) (\<lambda>(x, st). Inr (Some x, st))"
    unfolding reduce_group_def run_def using two
    by (simp add: Let_def request_size_def encode_def estimate_def fields v not_less [symmetric] del: One_nat_def)
  with st [OF two] obtain st' where "reduce_group (plan_prims k) sample_artifact_model sample_digestion 7 1 sample_root [7]
      \<lparr>rd_reducers = [], rd_levels = [(7, 0)], rd_positions = [(7, 0)]\<rparr> = Inr (Some k, st')" "map rn_stage_id (rd_reducers st') = [k]"
    by (metis (no_types, lifting) sbind_simps(2) case_prod_conv)
  then show ?thesis using assms by (auto simp: reduce_node_def Let_def) (simp_all add: sample_root_def)
qed

text \<open>The plan has the chunk 7 and one reducer, \<open>k\<close>.\<close>

lemma plan_exists: "\<exists>pl. build_plan (plan_prims k) sample_lang (\<lambda>_. sample_hex) (\<lambda>_. [1, 2]) sample_artifact_model
    \<lparr>or_scope = \<lparr>tenant = 1, owner = 2\<rparr>, or_kind = Artifact, or_object_id = 7, or_key = 7, or_sha256 = sample_hex, or_byte_size = 2\<rparr>
    sample_digestion = Inr pl \<and> map ch_id (pl_chunks pl) = [7] \<and> map rn_stage_id (pl_reducers pl) = [k] \<and> map ch_pieces (pl_chunks pl) = [[sample_piece]]"
proof -
  let ?ref = "\<lparr>or_scope = \<lparr>tenant = 1, owner = 2\<rparr>, or_kind = Artifact, or_object_id = 7, or_key = 7, or_sha256 = sample_hex, or_byte_size = 2\<rparr>"
  have u: "tu_status sample_unit = U_native_text" "dn_outcome (tu_decision sample_unit) = Native_accepted"
    "has_text sample_lang (tu_text sample_unit)" "unit_ids sample_unit = [7]" "tu_blocks sample_unit \<noteq> []"
    by (simp_all add: sample_unit_def has_text_def sample_lang_def unit_ids_def decide_def)
  have iv: "iv_eligible (source_inventory sample_lang sample_artifact_model) = [7]"
    using u by (simp add: source_inventory_def sample_inventory sort_unit_def unit_unsupported_def)
  have g: "fold_sum (extend_groups [sample_root]) (inventory sample_artifact_model) [] = Inr [(sample_root, [7])]"
    by (simp add: sample_inventory extend_groups_def owners_def dict_of_def) (simp add: sample_root_def)
  obtain c where c: "fold_sum (chunk_group (plan_prims k) sample_artifact_model sample_digestion [7]) [(sample_root, [7])] [] = Inr [c]"
    "ch_id c = 7" "ch_sequence c = 0" "ch_structural_parent c = 7" "ch_pieces c = [sample_piece]" using plan_chunks [of k] by blast
  from plan_reduce [OF c(2-4), where k = k] obtain st where st: "fold_sum (reduce_node (plan_prims k) sample_artifact_model sample_digestion 7 [c]) [sample_root]
     (\<lparr>rd_reducers = [], rd_levels = [(7, 0)], rd_positions = [(7, 0)]\<rparr>, []) = Inr (st, [(7, Some k)])"
     "map rn_stage_id (rd_reducers st) = [k]" by (elim exE conjE)
  have "su_id sample_root = 7" "dp_max_source_units sample_digestion = 10" by (simp_all add: sample_root_def sample_digestion_def)
  then have "\<exists>pl. build_core (plan_prims k) sample_lang sample_artifact_model ?ref sample_digestion = Inr pl \<and> map ch_id (pl_chunks pl) = [7] \<and> map rn_stage_id (pl_reducers pl) = [k] \<and> map ch_pieces (pl_chunks pl) = [[sample_piece]]"
    using g c st u(5) unfolding build_core_def plan_structure by (simp add: iv Let_def sample_inventory dict_of_def)
  then show ?thesis
    using plan_artifact_valid [of k] sample_digestion_valid
    by (auto simp: build_plan_def) (simp_all add: sample_artifact_model_def make_artifact_def sample_request_def)
qed

lemmas sample_plan_exists = plan_exists [of 7, unfolded plan_prims_7]

theorem plan_chunks_partition_source_witness:
  "\<exists>pl. build_plan sample_prims sample_lang (\<lambda>_. sample_hex) (\<lambda>_. [1, 2]) sample_artifact_model
      \<lparr>or_scope = \<lparr>tenant = 1, owner = 2\<rparr>, or_kind = Artifact, or_object_id = 7, or_key = 7, or_sha256 = sample_hex, or_byte_size = 2\<rparr>
      sample_digestion = Inr pl
    \<and> concat (map pc_text (concat (map ch_pieces (pl_chunks pl))))
      = concat (map bk_source_text (filter (\<lambda>b. bk_block_id b \<in> set (pl_eligible pl)) (all_blocks sample_artifact_model)))"
proof -
  have "distinct (map bk_block_id (all_blocks sample_artifact_model))" by (simp add: sample_inventory)
  with sample_plan_exists plan_chunks_partition_source show ?thesis by blast
qed

theorem plan_within_limits_witness:
  "\<exists>pl. build_plan sample_prims sample_lang (\<lambda>_. sample_hex) (\<lambda>_. [1, 2]) sample_artifact_model
      \<lparr>or_scope = \<lparr>tenant = 1, owner = 2\<rparr>, or_kind = Artifact, or_object_id = 7, or_key = 7, or_sha256 = sample_hex, or_byte_size = 2\<rparr>
      sample_digestion = Inr pl
    \<and> int (length (pl_chunks pl)) + int (length (pl_reducers pl)) + 2 \<le> 20"
proof -
  have "dp_max_steps sample_digestion = 20" by (simp add: sample_digestion_def)
  with sample_plan_exists plan_within_limits show ?thesis by metis
qed

end
