(* ===== verification/DigestTheorems.thy ===== *)
theory DigestTheorems
  imports DigestValidation DigestSamples
begin

text \<open>
  The guarantees of the evidence authority: the index resolves references as the reference
  definition of documents/provenance.py does; an accepted stage result cites exactly what it was
  given; a complete digest covers every character of the eligible blocks by chunks whose claims are
  connected to the root.
\<close>

section \<open>Binary search\<close>

lemma bisect_loop_result:
  assumes "sorted xs" "lo \<le> hi" "hi \<le> length xs" "\<forall>i < lo. xs ! i < x" "\<forall>i. hi \<le> i \<and> i < length xs \<longrightarrow> x \<le> xs ! i"
  shows "bisect_loop xs x lo hi \<le> length xs \<and> (\<forall>i < bisect_loop xs x lo hi. xs ! i < x)
     \<and> (\<forall>i. bisect_loop xs x lo hi \<le> i \<and> i < length xs \<longrightarrow> x \<le> xs ! i)"
  using assms
proof (induction xs x lo hi rule: bisect_loop.induct)
  case (1 xs x lo hi)
  let ?m = "(lo + hi) div 2"
  show ?case
  proof (cases "lo < hi")
    case True
    then have m: "lo \<le> ?m" "?m < hi" "?m < length xs" using 1(5) by auto
    show ?thesis
    proof (cases "xs ! ?m < x")
      case below: True
      have "xs ! i < x" if "i < Suc ?m" for i
        using sorted_nth_mono [OF 1(3), of i ?m] that m(3) below by simp
      moreover have "bisect_loop xs x lo hi = bisect_loop xs x (Suc ?m) hi"
        using True below by (subst bisect_loop.simps) (simp add: Let_def)
      ultimately show ?thesis using 1(1) [OF True refl below 1(3)] 1(5,7) m by simp
    next
      case above: False
      have "\<forall>i. ?m \<le> i \<and> i < length xs \<longrightarrow> x \<le> xs ! i"
        using sorted_nth_mono [OF 1(3), of ?m] above by (meson dual_order.trans not_less)
      from 1(2) [OF True refl above 1(3) m(1) less_imp_le [OF m(3)] 1(6) this]
      show ?thesis using True above by (subst (1 2 3) bisect_loop.simps) (simp only: Let_def if_True if_False simp_thms, blast)
    qed
  next
    case False
    with 1(4) have "hi = lo" by simp
    moreover have "bisect_loop xs x lo lo = lo" by (subst bisect_loop.simps) simp
    ultimately show ?thesis using 1(5-7) by simp
  qed
qed

lemma count_less_cut:
  assumes "c \<le> length xs" "\<forall>i < c. xs ! i < x" "\<forall>i. c \<le> i \<and> i < length xs \<longrightarrow> (x::int) \<le> xs ! i"
  shows "length (filter (\<lambda>y. y < x) xs) = c"
proof -
  have "filter (\<lambda>y. y < x) (take c xs) = take c xs"
    using assms(1,2) by (auto simp: filter_id_conv in_set_conv_nth)
  moreover have "filter (\<lambda>y. y < x) (drop c xs) = []"
    using assms(3) by (auto simp: filter_empty_conv in_set_conv_nth not_less)
  ultimately have "filter (\<lambda>y. y < x) xs = take c xs" by (metis append_Nil2 append_take_drop_id filter_append)
  with assms(1) show ?thesis by simp
qed

lemma bisect_left_count: "sorted xs \<Longrightarrow> bisect_left xs x = length (filter (\<lambda>y. y < x) xs)"
  using bisect_loop_result [of xs 0 "length xs" x] count_less_cut [of "bisect_left xs x" xs x]
  by (simp add: bisect_left_def)

lemma newline_offsets_sorted: "sorted (newline_offsets t)"
proof -
  have "sorted (map int is)" if "sorted is" for "is" using that by (induction "is") auto
  then show ?thesis by (simp add: newline_offsets_def sorted_wrt_filter)
qed

lemma newline_offsets_count: "bisect_left (newline_offsets t) x = count_nl (take (nat x) t)"
proof -
  have "length (filter (\<lambda>i. int i < x) (filter (\<lambda>i. t ! i = newline) [0..<length t])) = length (filter (\<lambda>i. i < nat x \<and> t ! i = newline) [0..<length t])"
    by (simp add: zless_nat_eq_int_zless conj_commute)
  also have "filter (\<lambda>i. i < nat x \<and> t ! i = newline) [0..<length t] = filter (\<lambda>i. t ! i = newline) [0..<min (nat x) (length t)]"
  proof -
    have "filter (\<lambda>i. i < n) [0..<m] = [0..<min n m]" for n m :: nat by (induction m) (auto simp: min_def le_Suc_eq)
    then show ?thesis by (metis filter_filter)
  qed
  also have "length \<dots> = count_nl (take (nat x) t)"
  proof -
    have "map (\<lambda>i. t ! i) [0..<min (nat x) (length t)] = take (nat x) t" by (intro nth_equalityI) auto
    then show ?thesis unfolding count_nl_def by (metis (no_types, lifting) comp_def filter_cong filter_map length_map)
  qed
  finally show ?thesis
    by (simp add: bisect_left_count newline_offsets_sorted) (simp add: newline_offsets_def filter_map comp_def)
qed

section \<open>The index and the reference definition\<close>

lemma line_index_lookup:
  assumes "distinct (map tu_source_id (ar_units a))" and "u \<in> set (ar_units a)"
  shows "map_of (line_index a) (tu_source_id u) = (if tu_physical_page u = None then Some (newline_offsets (tu_text u)) else None)"
proof -
  let ?f = "\<lambda>u. if tu_physical_page u = None then [(tu_source_id u, newline_offsets (tu_text u))] else []"
  have keys: "map fst (concat (map ?f us)) = map tu_source_id (filter (\<lambda>u. tu_physical_page u = None) us)" for us
    by (induction us) auto
  have "distinct (map fst (concat (map ?f (ar_units a))))"
    unfolding keys using assms(1) by (simp add: distinct_map inj_on_def)
  then have eq: "map_of (line_index a) = map_of (concat (map ?f (ar_units a)))" unfolding line_index_def by (rule dict_of_unique)
  have "distinct (map tu_source_id us) \<Longrightarrow> u \<in> set us \<Longrightarrow>
      map_of (concat (map ?f us)) (tu_source_id u) = (if tu_physical_page u = None then Some (newline_offsets (tu_text u)) else None)" for us
  proof (induction us)
    case (Cons v us)
    show ?case
    proof (cases "u = v")
      case True
      have "map_of (concat (map ?f us)) (tu_source_id v) = None"
        using Cons.prems(1) by (auto simp: map_of_eq_None_iff split: if_splits)
      with True show ?thesis by auto
    next
      case False
      then have "tu_source_id u \<noteq> tu_source_id v" using distinct_key_eq [OF Cons.prems(1,2), of v] by auto
      with False Cons show ?thesis by auto
    qed
  qed simp
  with assms eq show ?thesis by simp
qed

lemma resolve_blocks_some:
  "resolve_blocks u ref bs = Some t \<Longrightarrow> \<exists>b \<in> set bs. bk_block_id b = ev_block_id ref \<and> resolve_blocks u ref [b] = Some t"
  by (induction bs) (auto split: if_splits)

lemma resolve_units_some:
  "resolve_units ref us = Inr t \<Longrightarrow> \<exists>u \<in> set us. tu_source_id u = ev_source_id ref \<and> resolve_blocks u ref (tu_blocks u) = Some t"
  by (induction us) (auto split: if_splits option.splits)

lemma block_index_none:
  assumes "map_of (block_index a) k = None" and "(u, b) \<in> set (inventory a)"
  shows "bk_block_id b \<noteq> k"
  using assms by (force simp: block_index_def map_of_dict_of map_of_eq_None_iff)

text \<open>C34: on a valid artifact with distinct block identifiers the evidence index (dictionaries and binary search over
  newline offsets) accepts exactly the references that the linear reference resolver of the provenance module accepts in the
  scope of the document, with the same text.\<close>

theorem index_resolves_like_provenance:
  assumes v: "artifact_valid H U a" and d: "distinct (map bk_block_id (all_blocks a))" and s: "span_valid (ev_span ref)"
  shows "index_resolve a ref = Inr t \<longleftrightarrow> resolve a (dc_scope (ar_document a)) ref = Inr t"
proof -
  have one: "resolve_blocks u ref [b] = Some t \<longleftrightarrow> index_resolve a ref = Inr t"
    if ub: "(u, b) \<in> set (inventory a)" "ev_block_id ref = bk_block_id b" "tu_source_id u = ev_source_id ref"
      and m: "ev_scope ref = dc_scope (ar_document a)" "ev_version_id ref = dc_version_id (ar_document a)" "ev_extraction_id ref = ar_extraction_id a"
    for u b
  proof -
    have u: "u \<in> set (ar_units a)" using ub(1) by (simp add: in_inventory)
    note l = line_index_lookup [OF valid_unit(3) [OF v u] u]
    have ends: "(sn_line_start (ev_span ref) = None) = (sn_line_end (ev_span ref) = None)" using s by (simp add: span_valid_def)
    show ?thesis
      using block_index_lookup [OF d ub(1)] ub(2,3) m l ends
      by (cases "tu_physical_page u") (auto simp: index_resolve_def Let_def newline_offsets_count slice_0)
  qed
  show ?thesis
  proof
    assume i: "index_resolve a ref = Inr t"
    then obtain u b where ub: "map_of (block_index a) (ev_block_id ref) = Some (u, b)" "tu_source_id u = ev_source_id ref"
      and m: "ev_scope ref = dc_scope (ar_document a)" "ev_version_id ref = dc_version_id (ar_document a)" "ev_extraction_id ref = ar_extraction_id a"
      by (auto simp: index_resolve_def Let_def split: if_splits option.splits)
    from map_of_rev_SomeD [OF ub(1) [unfolded block_index_def map_of_dict_of]]
    have b: "(u, b) \<in> set (inventory a)" "ev_block_id ref = bk_block_id b" by auto
    have u: "u \<in> set (ar_units a)" "b \<in> set (tu_blocks u)" using b(1) by (auto simp: in_inventory)
    note w = valid_unit [OF v u(1)]
    have "resolve_blocks u ref (tu_blocks u) = Some t"
      using resolve_blocks_find [OF unit_blocks(3) [OF w(1,2)] u(2) b(2)] one [OF b ub(2) m] i by simp
    from resolve_units_find [OF w(3) u(1) ub(2) [symmetric] this] m
    show "resolve a (dc_scope (ar_document a)) ref = Inr t" by (simp add: resolve_def)
  next
    assume r: "resolve a (dc_scope (ar_document a)) ref = Inr t"
    then have m: "ev_scope ref = dc_scope (ar_document a)" "ev_version_id ref = dc_version_id (ar_document a)" "ev_extraction_id ref = ar_extraction_id a"
      and "resolve_units ref (ar_units a) = Inr t"
      by (auto simp: resolve_def split: if_splits)
    from resolve_units_some [OF this(4)] resolve_blocks_some obtain u b where u: "u \<in> set (ar_units a)" "tu_source_id u = ev_source_id ref"
      "b \<in> set (tu_blocks u)" "bk_block_id b = ev_block_id ref" "resolve_blocks u ref [b] = Some t" by metis
    then have "(u, b) \<in> set (inventory a)" by (simp add: in_inventory)
    from one [OF this u(4) [symmetric] u(2) m] u(5) show "index_resolve a ref = Inr t" by simp
  qed
qed

theorem index_resolves_like_provenance_witness:
  "index_resolve sample_artifact_model (pc_evidence sample_piece) = Inr [104, 105]"
proof -
  have "distinct (map bk_block_id (all_blocks sample_artifact_model))" by (simp add: sample_inventory)
  moreover have "span_valid (ev_span (pc_evidence sample_piece))" by (simp add: sample_piece_def span_valid_def)
  moreover have "resolve sample_artifact_model (dc_scope (ar_document sample_artifact_model)) (pc_evidence sample_piece) = Inr [104, 105]"
    by (simp add: resolve_def sample_piece_def sample_inventory)
      (simp add: sample_artifact_model_def make_artifact_def sample_request_def sample_unit_def slice_def count_nl_def rstrip_nl_def newline_def)
  ultimately show ?thesis using index_resolves_like_provenance [OF sample_artifact_valid] by blast
qed

section \<open>Accepted stage results\<close>

definition claim_accepted :: "uuid list \<Rightarrow> (claim_key \<times> digest_claim) list \<Rightarrow> digest_claim \<Rightarrow> bool" where
  "claim_accepted allowed links c \<longleftrightarrow> set (cl_evidence_ids c) \<union> set (cl_contradicting c) \<subseteq> set allowed
     \<and> set (lineage_keys c) \<subseteq> set (map fst links)
     \<and> (cl_kind c = C_fact \<longrightarrow> cl_status c = Supported \<and> has_source links c)
     \<and> (\<forall>q \<in> set (cl_qualifications c). ql_evidence_ids q \<noteq> [] \<and> set (ql_evidence_ids q) \<subseteq> set allowed)
     \<and> (cl_subject c \<noteq> None \<longrightarrow> cl_kind c = C_fact)"

lemma check_qualifications:
  "fold_sum (\<lambda>x _. check_qualification p allowed x) qs () = Inr w \<Longrightarrow> q \<in> set qs \<Longrightarrow>
     ql_evidence_ids q \<noteq> [] \<and> set (ql_evidence_ids q) \<subseteq> set allowed"
  by (induction qs) (auto simp: txn_simps check_qualification_def Let_def split: if_splits)

lemma check_claim_accepts:
  assumes "check_claim H q allowed links (i, c) st = Inr st'"
  shows "claim_accepted allowed links c" "cl_id c \<notin> set (cs_ids st)" "cs_ids st' = cl_id c # cs_ids st"
    "cl_id c = stable_id H [uuid_text (rq_stage_id q), nat_text i]"
    "set (cs_used st') = set (cl_evidence_ids c) \<union> set (cl_contradicting c) \<union> set (cs_used st)"
    "set (cs_linked st') = set (lineage_keys c) \<union> set (cs_linked st)"
proof -
  from assms have c: "check_identity H q (cs_ids st) i c = Inr ()" "check_references allowed c = Inr ()" "check_lineage links c = Inr ()"
    "check_support links c = Inr ()" "fold_sum (\<lambda>x _. check_qualification (rq_profile q) allowed x) (cl_qualifications c) () = Inr ()"
    "check_subject c = Inr ()" and st': "st' = \<lparr>cs_used = cl_evidence_ids c @ cl_contradicting c @ cs_used st,
      cs_linked = lineage_keys c @ cs_linked st, cs_ids = cl_id c # cs_ids st\<rparr>"
    by (auto simp: check_claim_def Let_def txn_simps)
  show "cl_id c \<notin> set (cs_ids st)" "cl_id c = stable_id H [uuid_text (rq_stage_id q), nat_text i]"
    using c(1) by (auto simp: check_identity_def split: if_splits)
  show "claim_accepted allowed links c"
    using c(2-4,6) check_qualifications [OF c(5)]
    by (auto simp: claim_accepted_def check_references_def check_lineage_def check_support_def check_subject_def txn_simps split: if_splits)
qed (use assms in \<open>auto simp: check_claim_def Let_def txn_simps\<close>)

lemma check_claims_accept:
  assumes "fold_sum (check_claim H q allowed links) ics st = Inr st'"
  shows "(\<forall>c \<in> set (map snd ics). claim_accepted allowed links c)
    \<and> (distinct (cs_ids st) \<longrightarrow> distinct (map cl_id (map snd ics)) \<and> set (map cl_id (map snd ics)) \<inter> set (cs_ids st) = {})
    \<and> set (cs_used st') = (\<Union>c \<in> set (map snd ics). set (cl_evidence_ids c) \<union> set (cl_contradicting c)) \<union> set (cs_used st)
    \<and> set (cs_linked st') = (\<Union>c \<in> set (map snd ics). set (lineage_keys c)) \<union> set (cs_linked st)"
  using assms
proof (induction ics arbitrary: st)
  case (Cons ic ics)
  obtain i c where ic: "ic = (i, c)" by (cases ic)
  with Cons.prems obtain t where t: "check_claim H q allowed links (i, c) st = Inr t" "fold_sum (check_claim H q allowed links) ics t = Inr st'"
    by (auto simp: txn_simps)
  note a = check_claim_accepts [OF t(1)]
  show ?case using Cons.IH [OF t(2)] a ic by auto
qed simp

lemma permitted_fold:
  assumes "fold_sum (\<lambda>x ids. sbind (index_resolve a (pc_evidence x)) (\<lambda>t. if t \<noteq> pc_text x then Inl evidence_rejected
      else Inr (ids @ [evidence_id H x]))) xs acc = Inr ids"
  shows "ids = acc @ map (evidence_id H) xs \<and> (\<forall>x \<in> set xs. index_resolve a (pc_evidence x) = Inr (pc_text x))"
  using assms
proof (induction xs arbitrary: acc)
  case (Cons x xs)
  then have x: "index_resolve a (pc_evidence x) = Inr (pc_text x)"
    by (cases "index_resolve a (pc_evidence x)") (auto split: if_splits)
  with Cons.prems Cons.IH [of "acc @ [evidence_id H x]"] show ?case by simp
qed simp

lemma permitted_pieces_resolve:
  assumes "permitted_pieces H a xs = Inr ids"
  shows "ids = map (evidence_id H) xs \<and> (\<forall>x \<in> set xs. index_resolve a (pc_evidence x) = Inr (pc_text x))"
  using permitted_fold [OF assms [unfolded permitted_pieces_def]] by simp

lemma dict_of_keys: "fst ` set (dict_of kvs) = fst ` set kvs"
proof -
  have "dom (map_of (dict_of kvs)) = dom (map_of (rev kvs))" by (simp add: map_of_dict_of)
  then show ?thesis by (simp add: dom_map_of_conv_image_fst)
qed

lemma child_links_keys:
  "set (map fst (child_links children)) = (\<Union>c \<in> set children. (\<lambda>k. (rs_stage_id (ci_result c), cl_id k)) ` set (rs_claims (ci_result c)))"
  by (force simp: child_links_def dict_of_keys)

text \<open>C10: an accepted stage result is bound to its request and grounded in it. Every piece of the request resolves in the
  artifact; every reference of a claim is a piece of the request or is cited by a supplied child claim; a fact is supported
  and has a source; an analysis that reports success cites exactly the pieces of its request; a reduction links every claim
  of every child; and no claim identifier occurs twice.\<close>

theorem accepted_result_grounded:
  assumes "validate_result H loads a raw q = Inr r"
  shows "rs_stage_id r = rq_stage_id q \<and> rs_kind r = rq_stage q \<and> distinct (map cl_id (rs_claims r))
    \<and> (\<forall>x \<in> set (rq_source_data q). index_resolve a (pc_evidence x) = Inr (pc_text x))
    \<and> (\<forall>c \<in> set (rs_claims r). claim_accepted (map (evidence_id H) (rq_source_data q) @ inherited_ids (rq_children q)) (child_links (rq_children q)) c)
    \<and> (rq_stage q = Analysis \<and> rs_outcome r = Analyzed \<longrightarrow>
         (\<Union>c \<in> set (rs_claims r). set (cl_evidence_ids c) \<union> set (cl_contradicting c)) = evidence_id H ` set (rq_source_data q))
    \<and> (rq_stage q = Reduction \<longrightarrow> (\<Union>c \<in> set (rs_claims r). set (lineage_keys c))
         = (\<Union>c \<in> set (rq_children q). (\<lambda>k. (rs_stage_id (ci_result c), cl_id k)) ` set (rs_claims (ci_result c))))"
proof -
  from assms obtain permitted st where b: "stage_binding q r = Inr ()" "permitted_pieces H a (rq_source_data q) = Inr permitted"
    "fold_sum (check_claim H q (permitted @ inherited_ids (rq_children q)) (child_links (rq_children q))) (enumerate 0 (rs_claims r))
       \<lparr>cs_used = [], cs_linked = [], cs_ids = []\<rparr> = Inr st"
    "check_coverage q r permitted (child_links (rq_children q)) st = Inr ()"
    by (auto simp: validate_result_def txn_simps Let_def)
  note p = permitted_pieces_resolve [OF b(2)]
  note c = check_claims_accept [OF b(3), simplified]
  have "rs_stage_id r = rq_stage_id q" "rs_kind r = rq_stage q" using b(1) by (auto simp: stage_binding_def split: if_splits)
  moreover have "rq_stage q = Analysis \<and> rs_outcome r = Analyzed \<longrightarrow> set (cs_used st) = evidence_id H ` set (rq_source_data q)"
    "rq_stage q = Reduction \<longrightarrow> set (cs_linked st) = set (map fst (child_links (rq_children q)))"
    using b(4) p by (auto simp: check_coverage_def split: if_splits)
  ultimately show ?thesis using p c unfolding child_links_keys by auto
qed

section \<open>Complete digests\<close>

inductive cited :: "(claim_key \<times> digest_claim) list \<Rightarrow> claim_key set \<Rightarrow> claim_key \<Rightarrow> bool"
  for claims :: "(claim_key \<times> digest_claim) list" and roots :: "claim_key set" where
  root: "k \<in> roots \<Longrightarrow> cited claims roots k"
| link: "cited claims roots k \<Longrightarrow> map_of claims k = Some c \<Longrightarrow> l \<in> set (lineage_keys c) \<Longrightarrow> cited claims roots l"

lemma claim_walk_cited:
  assumes "claim_walk claims todo seen = Inr s" and "\<forall>k \<in> set todo \<union> set seen. cited claims roots k" and "k \<in> set s"
  shows "cited claims roots k"
  using assms
proof (induction claims todo seen rule: claim_walk.induct)
  case (2 claims k' todo seen)
  show ?case
  proof (cases "k' \<in> set seen")
    case True
    with 2 show ?thesis by simp
  next
    case False
    with 2(3) obtain c where c: "map_of claims k' = Some c" "claim_walk claims (rev (lineage_keys c) @ todo) (k' # seen) = Inr s"
      by (auto split: option.splits)
    have "cited claims roots k'" using 2(4) by simp
    then have "\<forall>l \<in> set (lineage_keys c). cited claims roots l" using cited.link c(1) by blast
    with 2(2) [OF False c] 2(4,5) show ?thesis by auto
  qed
qed simp

lemma claim_walk_complete:
  assumes "claim_walk claims todo seen = Inr s"
  shows "set todo \<union> set seen \<subseteq> set s"
  using assms by (induction claims todo seen rule: claim_walk.induct) (auto split: if_splits option.splits)

lemma cover_scan_covers:
  assumes "cover_scan c xs = Some e" and "c \<le> i" and "i < e"
  shows "\<exists>(s, f) \<in> set xs. s \<le> i \<and> i < f"
  using assms
proof (induction c xs rule: cover_scan.induct)
  case (2 c s f rest)
  show ?case
  proof (cases "i < f")
    case True
    with 2(2,3) show ?thesis by (auto split: if_splits)
  next
    case False
    with 2 have "\<exists>(s, f) \<in> set rest. s \<le> i \<and> i < f" by (auto split: if_splits)
    then show ?thesis by auto
  qed
qed simp

definition part_source :: "artifact \<Rightarrow> (uuid \<times> checkpoint) list \<Rightarrow> claim_key list \<Rightarrow> analysis_chunk list \<Rightarrow> uuid \<times> int \<times> int \<Rightarrow> bool" where
  "part_source a cps seen chs t \<longleftrightarrow> (\<exists>c \<in> set chs. \<exists>cp. \<exists>x \<in> set (ch_pieces c). map_of cps (ch_id c) = Some cp
     \<and> rs_outcome (cp_result cp) = Analyzed \<and> (\<forall>m \<in> set (rs_claims (cp_result cp)). (ch_id c, cl_id m) \<in> set seen)
     \<and> (\<exists>text. index_resolve a (pc_evidence x) = Inr text)
     \<and> t = (ev_block_id (pc_evidence x), sn_start (ev_span (pc_evidence x)), sn_end (ev_span (pc_evidence x))))"

lemma gather_chunk_parts:
  assumes "gather_chunk H a cps seen ch g = Inr g'" and "t \<in> set (gt_parts g')"
  shows "t \<in> set (gt_parts g) \<or> part_source a cps seen [ch] t"
proof -
  from assms(1) obtain cp where cp: "map_of cps (ch_id ch) = Some cp" by (auto simp: gather_chunk_def split: option.splits)
  show ?thesis
  proof (cases "rs_outcome (cp_result cp)")
    case Unavailable
    with assms cp show ?thesis by (simp add: gather_chunk_def)
  next
    case Analyzed
    let ?f = "\<lambda>x g. sbind (index_resolve a (pc_evidence x)) (\<lambda>_.
       Inr (g\<lparr>gt_evidence := dict_put (evidence_id H x) (pc_evidence x) (gt_evidence g),
              gt_parts := gt_parts g @ [(ev_block_id (pc_evidence x), sn_start (ev_span (pc_evidence x)), sn_end (ev_span (pc_evidence x)))]\<rparr>))"
    have step: "fold_sum ?f xs h = Inr h' \<Longrightarrow> t \<in> set (gt_parts h') \<Longrightarrow> t \<in> set (gt_parts h)
        \<or> (\<exists>x \<in> set xs. (\<exists>text. index_resolve a (pc_evidence x) = Inr text)
             \<and> t = (ev_block_id (pc_evidence x), sn_start (ev_span (pc_evidence x)), sn_end (ev_span (pc_evidence x))))" for xs h h'
      by (induction xs arbitrary: h) (fastforce simp: txn_simps)+
    from assms(1) cp Analyzed have "\<forall>m \<in> set (rs_claims (cp_result cp)). (ch_id ch, cl_id m) \<in> set seen"
      "fold_sum ?f (ch_pieces ch) (g\<lparr>gt_findings := gt_findings g @ rs_claims (cp_result cp)\<rparr>) = Inr g'"
      by (auto simp: gather_chunk_def list_all_iff split: if_splits)
    with step [OF this(2) assms(2)] cp Analyzed show ?thesis by (fastforce simp: part_source_def)
  qed
qed

lemma gather_chunks_parts:
  assumes "fold_sum (gather_chunk H a cps seen) chs g = Inr g'" and "t \<in> set (gt_parts g')"
  shows "t \<in> set (gt_parts g) \<or> part_source a cps seen chs t"
  using assms
proof (induction chs arbitrary: g)
  case (Cons ch chs)
  then obtain h where h: "gather_chunk H a cps seen ch g = Inr h" "fold_sum (gather_chunk H a cps seen) chs h = Inr g'"
    by (auto simp: txn_simps)
  from Cons.IH [OF h(2) Cons.prems(2)] gather_chunk_parts [OF h(1)] show ?case
    by (fastforce simp: part_source_def)
qed simp

lemma full_blocks_fold:
  assumes "fold_sum (\<lambda>k acc. case map_of (block_index a) k of None \<Rightarrow> Inl Other_failure
     | Some (u, b) \<Rightarrow> Inr (if full_block b (parts_of parts k) then acc @ [k] else acc)) es acc = Inr ks"
  shows "ks = acc @ filter (\<lambda>k. case map_of (block_index a) k of None \<Rightarrow> False | Some (u, b) \<Rightarrow> full_block b (parts_of parts k)) es"
  using assms
proof (induction es arbitrary: acc)
  case (Cons k es)
  then obtain u b where k: "map_of (block_index a) k = Some (u, b)" by (auto split: option.splits)
  show ?case
    using Cons.prems Cons.IH [of "if full_block b (parts_of parts k) then acc @ [k] else acc"] by (simp add: k)
qed simp

lemma full_blocks_filter:
  assumes "full_blocks a parts eligible = Inr ks"
  shows "ks = filter (\<lambda>k. case map_of (block_index a) k of None \<Rightarrow> False | Some (u, b) \<Rightarrow> full_block b (parts_of parts k)) eligible"
  using full_blocks_fold [OF assms [unfolded full_blocks_def]] by simp

lemma make_digestD:
  assumes "make_digest H a pl plan_ref cps refs = Inr d"
  shows "\<exists>root_cp seen g included. map_of cps (pl_root_id pl) = Some root_cp
    \<and> claim_walk (claim_graph cps) (rev (map (\<lambda>c. (pl_root_id pl, cl_id c)) (rs_claims (cp_result root_cp)))) [] = Inr seen
    \<and> fold_sum (gather_chunk H a cps seen) (pl_chunks pl) \<lparr>gt_findings = [], gt_evidence = [], gt_parts = []\<rparr> = Inr g
    \<and> full_blocks a (gt_parts g) (pl_eligible pl) = Inr included
    \<and> da_coverage d = make_coverage pl included \<and> da_status d = digest_status_of pl (make_coverage pl included)"
proof -
  from assms obtain root_cp where r: "map_of cps (pl_root_id pl) = Some root_cp"
    unfolding make_digest_def by (cases "map_of cps (pl_root_id pl)") (simp_all split: if_splits)
  with assms obtain seen g included where
    s: "claim_walk (claim_graph cps) (rev (map (\<lambda>c. (pl_root_id pl, cl_id c)) (rs_claims (cp_result root_cp)))) [] = Inr seen"
    "fold_sum (gather_chunk H a cps seen) (pl_chunks pl) \<lparr>gt_findings = [], gt_evidence = [], gt_parts = []\<rparr> = Inr g"
    "full_blocks a (gt_parts g) (pl_eligible pl) = Inr included"
    unfolding make_digest_def Let_def by (auto simp: txn_simps split: if_splits)
  from assms r s have "da_coverage d = make_coverage pl included" "da_status d = digest_status_of pl (make_coverage pl included)"
    unfolding make_digest_def Let_def by (auto split: if_splits)
  with r s show ?thesis by blast
qed

text \<open>C3: a digest with status COMPLETE covers its source: no source unit is unsupported, and every character of every
  eligible block lies in a resolved piece of a chunk that was analysed, all of whose claims are reached from the claims of
  the root by following claim links.\<close>

theorem complete_digest_covers_source:
  assumes "make_digest H a pl plan_ref cps refs = Inr d" and "da_status d = D_COMPLETE"
    and "k \<in> set (pl_eligible pl)" and "map_of (block_index a) k = Some (u, b)" and "sn_start (bk_span b) \<le> i" and "i < sn_end (bk_span b)"
  shows "pl_unsupported pl = [] \<and> (\<exists>c \<in> set (pl_chunks pl). \<exists>x \<in> set (ch_pieces c). \<exists>cp root_cp text.
      map_of cps (ch_id c) = Some cp \<and> rs_outcome (cp_result cp) = Analyzed \<and> index_resolve a (pc_evidence x) = Inr text
      \<and> ev_block_id (pc_evidence x) = k \<and> sn_start (ev_span (pc_evidence x)) \<le> i \<and> i < sn_end (ev_span (pc_evidence x))
      \<and> map_of cps (pl_root_id pl) = Some root_cp
      \<and> list_all (\<lambda>m. cited (claim_graph cps) ((\<lambda>c. (pl_root_id pl, cl_id c)) ` set (rs_claims (cp_result root_cp))) (ch_id c, cl_id m))
          (rs_claims (cp_result cp)))"
proof -
  from make_digestD [OF assms(1)] obtain root_cp seen g included where d: "map_of cps (pl_root_id pl) = Some root_cp"
    "claim_walk (claim_graph cps) (rev (map (\<lambda>c. (pl_root_id pl, cl_id c)) (rs_claims (cp_result root_cp)))) [] = Inr seen"
    "fold_sum (gather_chunk H a cps seen) (pl_chunks pl) \<lparr>gt_findings = [], gt_evidence = [], gt_parts = []\<rparr> = Inr g"
    "full_blocks a (gt_parts g) (pl_eligible pl) = Inr included"
    "da_status d = digest_status_of pl (make_coverage pl included)" by blast
  let ?roots = "(\<lambda>c. (pl_root_id pl, cl_id c)) ` set (rs_claims (cp_result root_cp))"
  have "coverage_complete pl (make_coverage pl included)"
    using assms(2) d(5) by (auto simp: digest_status_of_def Let_def split: if_splits)
  then have un: "pl_unsupported pl = []" and "filter (\<lambda>k. k \<notin> set included) (pl_eligible pl) = []"
    by (auto simp: coverage_complete_def make_coverage_def Let_def)
  then have "k \<in> set included" using assms(3) by (auto simp: filter_empty_conv)
  then have "full_block b (parts_of (gt_parts g) k)" using full_blocks_filter [OF d(4)] assms(4) by auto
  then have "cover_scan (sn_start (bk_span b)) (sort (parts_of (gt_parts g) k)) = Some (sn_end (bk_span b))" by (simp add: full_block_def)
  from cover_scan_covers [OF this assms(5,6)] obtain s f where sf: "(s, f) \<in> set (parts_of (gt_parts g) k)" "s \<le> i" "i < f" by auto
  then have "(k, s, f) \<in> set (gt_parts g)" by (force simp: parts_of_def)
  from gather_chunks_parts [OF d(3) this] obtain c cp x tx where
    x: "c \<in> set (pl_chunks pl)" "x \<in> set (ch_pieces c)" "map_of cps (ch_id c) = Some cp" "rs_outcome (cp_result cp) = Analyzed"
      "\<forall>m \<in> set (rs_claims (cp_result cp)). (ch_id c, cl_id m) \<in> set seen" "index_resolve a (pc_evidence x) = Inr tx"
      "(k, s, f) = (ev_block_id (pc_evidence x), sn_start (ev_span (pc_evidence x)), sn_end (ev_span (pc_evidence x)))"
    by (fastforce simp: part_source_def)
  have "cited (claim_graph cps) ?roots m" if "m \<in> set seen" for m
    by (rule claim_walk_cited [OF d(2) _ that]) (auto intro: cited.root)
  with x(5) have "list_all (\<lambda>m. cited (claim_graph cps) ?roots (ch_id c, cl_id m)) (rs_claims (cp_result cp))"
    by (auto simp: list_all_iff)
  with un x sf d(1) show ?thesis by blast
qed

section \<open>A concrete result and digest\<close>

definition sample_claim :: "uuid \<Rightarrow> digest_claim" where
  "sample_claim k = \<lparr>cl_id = k, cl_originating_stage = 7, cl_text = [104], cl_kind = C_fact, cl_evidence_ids = [7], cl_contradicting = [],
     cl_qualifications = [], cl_lineage = [], cl_subject = None, cl_stance = Unknown_stance, cl_status = Supported\<rparr>"

definition sample_result :: stage_result where
  "sample_result = \<lparr>rs_stage_id = 7, rs_kind = Analysis, rs_outcome = Analyzed, rs_claims = [sample_claim 7], rs_open_questions = [], rs_limitations = []\<rparr>"

lemma sample_result_bound: "json_bound (stage_result_json sample_result) \<le> 6000"
  by (simp add: stage_result_json_def sample_result_def claim_json_def sample_claim_def bound_simps)

lemma sample_index_resolves: "index_resolve sample_artifact_model (pc_evidence sample_piece) = Inr [104, 105]"
proof -
  have "map_of (line_index sample_artifact_model) 7 = Some []"
    by (simp add: line_index_def sample_inventory dict_of_def) (simp add: sample_unit_def newline_offsets_def newline_def)
  moreover have "map_of (block_index sample_artifact_model) 7 = Some (sample_unit, make_block sample_prims 7 7 True 0 0 [104, 105])"
    by (simp add: block_index_def sample_inventory dict_of_def)
  moreover have "bisect_left [] 0 = 0" by (simp add: bisect_left_def bisect_loop.simps)
  moreover have "tu_source_id sample_unit = 7" "tu_text sample_unit = [104, 105]" by (simp_all add: sample_unit_def)
  ultimately show ?thesis
    by (simp add: index_resolve_def sample_piece_def slice_def count_nl_def rstrip_nl_def newline_def)
      (simp add: sample_artifact_model_def make_artifact_def sample_request_def)
qed

lemma sample_evidence_id: "evidence_id sample_prims sample_piece = 7"
  by (simp add: evidence_id_def)

lemma sample_validates: "validate_result sample_prims (\<lambda>_. Accepted sample_result) sample_artifact_model [] sample_chunk_request = Inr sample_result"
proof -
  obtain n where n: "check_request sample_prims sample_chunk_request = Inr n" using sample_check by blast
  have limit: "length (canonical sample_prims (stage_result_json sample_result)) \<le> 6000"
    using length_canonical [OF sample_floats, of "stage_result_json sample_result"] sample_result_bound by linarith
  have valid: "stage_result_valid sample_result"
    by (simp add: stage_result_valid_def sample_result_def claim_valid_def sample_claim_def bounded_text_def)
  have q: "rq_profile sample_chunk_request = sample_digestion" "rq_source_data sample_chunk_request = [sample_piece]"
    "rq_children sample_chunk_request = []" "rq_stage sample_chunk_request = Analysis" "rq_stage_id sample_chunk_request = 7"
    by (simp_all add: sample_chunk_request_def)
  have p: "dp_max_result_characters sample_digestion = 6000" "dp_managed_input_budget sample_digestion = None" "dp_max_claims sample_digestion = 8"
    "dp_max_annotations sample_digestion = 4" "dp_max_claim_characters sample_digestion = 64" "response_byte_limit sample_digestion = 6000"
    by (simp_all add: sample_digestion_def response_byte_limit_def)
  have "permitted_pieces sample_prims sample_artifact_model [sample_piece] = Inr [7]"
    using sample_index_resolves sample_evidence_id by (simp add: permitted_pieces_def) (simp add: sample_piece_def)
  then show ?thesis
    using n limit valid
    by (simp add: validate_result_def decode_def result_limits_def encode_def q p Let_def stage_binding_def annotation_limits_def
        check_claim_def check_identity_def check_text_def check_references_def check_lineage_def check_support_def has_source_def
        check_subject_def lineage_keys_def check_coverage_def child_links_def dict_of_def inherited_ids_def sample_result_def sample_claim_def)
qed

theorem accepted_result_grounded_witness:
  "validate_result sample_prims (\<lambda>_. Accepted sample_result) sample_artifact_model [] sample_chunk_request = Inr sample_result
    \<and> (\<Union>c \<in> set (rs_claims sample_result). set (cl_evidence_ids c) \<union> set (cl_contradicting c))
        = evidence_id sample_prims ` set (rq_source_data sample_chunk_request)"
proof -
  have "rq_stage sample_chunk_request = Analysis" "rs_outcome sample_result = Analyzed"
    by (simp_all add: sample_chunk_request_def sample_result_def)
  then show ?thesis using accepted_result_grounded [OF sample_validates] by (intro conjI sample_validates) (elim conjE, simp)
qed

definition sample_summary :: inherited_summary_row where
  "sample_summary = \<lparr>is_analyzed_pieces = 1, is_failed_pieces = 0, is_qualifications = 0, is_contradictions = 0, is_open_questions = 0\<rparr>"

definition sample_checkpoint :: "stage_result \<Rightarrow> checkpoint" where
  "sample_checkpoint r = \<lparr>cp_plan_hash = sample_hex, cp_parents = [], cp_result = r, cp_inherited = sample_summary, cp_propositions = []\<rparr>"

definition sample_ref :: object_ref where
  "sample_ref = \<lparr>or_scope = \<lparr>tenant = 1, owner = 2\<rparr>, or_kind = Artifact, or_object_id = 7, or_key = 7, or_sha256 = sample_hex, or_byte_size = 2\<rparr>"

definition sample_root_result :: stage_result where
  "sample_root_result = \<lparr>rs_stage_id = 9, rs_kind = Reduction, rs_outcome = Analyzed,
     rs_claims = [(sample_claim 11)\<lparr>cl_kind := C_commentary, cl_evidence_ids := [], cl_lineage := [\<lparr>lk_stage_id = 8, lk_claim_id = 7\<rparr>]\<rparr>],
     rs_open_questions = [], rs_limitations = []\<rparr>"

definition sample_checkpoints :: "(uuid \<times> checkpoint) list" where
  "sample_checkpoints = [(8, sample_checkpoint sample_result), (9, sample_checkpoint sample_root_result)]"

definition sample_plan :: plan where
  "sample_plan = \<lparr>pl_profile = sample_digestion,
     pl_structure = \<lparr>sm_extraction = sample_ref, sm_version_id = 7, sm_profile = sample_hex, sm_units = [sample_root]\<rparr>,
     pl_chunks = [\<lparr>ch_id = 8, ch_version_id = 7, ch_structural_parent = 7, ch_path = [], ch_sequence = 0, ch_profile = sample_hex,
       ch_pieces = [sample_piece], ch_estimated_tokens = 1\<rparr>],
     pl_reducers = [\<lparr>rn_stage_id = 9, rn_structural_parent = 7, rn_children = [8], rn_level = 1, rn_path = [], rn_estimated_tokens = 1\<rparr>],
     pl_root_id = 9, pl_eligible = [7], pl_skipped = [], pl_unsupported = []\<rparr>"

lemma sample_block_index: "map_of (block_index sample_artifact_model) 7 = Some (sample_unit, make_block sample_prims 7 7 True 0 0 [104, 105])"
  by (simp add: block_index_def sample_inventory dict_of_def)

lemma sample_digest_exists:
  "\<exists>d. make_digest sample_prims sample_artifact_model sample_plan sample_ref sample_checkpoints [(8, sample_ref), (9, sample_ref)] = Inr d
     \<and> da_status d = D_COMPLETE"
proof -
  have claims: "claim_graph sample_checkpoints = [((8, 7), sample_claim 7), ((9, 11), (sample_claim 11)\<lparr>cl_kind := C_commentary,
      cl_evidence_ids := [], cl_lineage := [\<lparr>lk_stage_id = 8, lk_claim_id = 7\<rparr>]\<rparr>)]"
    by (simp add: claim_graph_def sample_checkpoints_def sample_checkpoint_def sample_result_def sample_root_result_def dict_of_def sample_claim_def)
  have walk: "claim_walk (claim_graph sample_checkpoints) [(9, 11)] [] = Inr [(8, 7), (9, 11)]"
    unfolding claims by (simp add: lineage_keys_def sample_claim_def)
  have gather: "fold_sum (gather_chunk sample_prims sample_artifact_model sample_checkpoints [(8, 7), (9, 11)]) (pl_chunks sample_plan)
      \<lparr>gt_findings = [], gt_evidence = [], gt_parts = []\<rparr> = Inr \<lparr>gt_findings = [sample_claim 7], gt_evidence = [(7, pc_evidence sample_piece)], gt_parts = [(7, 0, 2)]\<rparr>"
    using sample_index_resolves sample_evidence_id
    by (simp add: gather_chunk_def sample_plan_def sample_checkpoints_def sample_checkpoint_def sample_result_def sample_claim_def)
      (simp add: sample_piece_def)
  have full: "full_blocks sample_artifact_model [(7, 0, 2)] (pl_eligible sample_plan) = Inr [7]"
    by (simp add: full_blocks_def sample_plan_def sample_block_index full_block_def parts_of_def)
  have status: "digest_status_of sample_plan (make_coverage sample_plan [7]) = D_COMPLETE"
    by (simp add: digest_status_of_def make_coverage_def Let_def coverage_complete_def sample_plan_def sample_digestion_def)
  have root_cp: "map_of sample_checkpoints (pl_root_id sample_plan) = Some (sample_checkpoint sample_root_result)"
    "map (\<lambda>c. (pl_root_id sample_plan, cl_id c)) (rs_claims (cp_result (sample_checkpoint sample_root_result))) = [(9, 11)]"
    by (simp_all add: sample_checkpoints_def sample_plan_def sample_checkpoint_def sample_root_result_def sample_claim_def)
  have stages: "set (map fst sample_checkpoints) = set (expected_stages sample_plan)"
    "set (map fst [(8, sample_ref), (9, sample_ref)]) = set (expected_stages sample_plan)"
    by (auto simp: sample_checkpoints_def expected_stages_def sample_plan_def)
  show ?thesis
    using walk gather full status root_cp stages unfolding make_digest_def Let_def by simp
qed

theorem complete_digest_covers_source_witness:
  "\<exists>d. make_digest sample_prims sample_artifact_model sample_plan sample_ref sample_checkpoints [(8, sample_ref), (9, sample_ref)] = Inr d
     \<and> pl_unsupported sample_plan = [] \<and> (\<exists>c \<in> set (pl_chunks sample_plan). \<exists>x \<in> set (ch_pieces c).
         sn_start (ev_span (pc_evidence x)) \<le> 1 \<and> 1 < sn_end (ev_span (pc_evidence x)))"
proof -
  obtain d where d: "make_digest sample_prims sample_artifact_model sample_plan sample_ref sample_checkpoints [(8, sample_ref), (9, sample_ref)] = Inr d"
    "da_status d = D_COMPLETE" using sample_digest_exists by blast
  have "7 \<in> set (pl_eligible sample_plan)" by (simp add: sample_plan_def)
  from complete_digest_covers_source [OF d this sample_block_index, of 1] d(1) show ?thesis by (simp, blast)
qed

end
