(* ===== verification/DigestCodec.thy ===== *)
theory DigestCodec
  imports Pipeline DigestTheorems
begin

text \<open>
  Durable digestion objects: the JSON dumps of the plan, the checkpoints, the coverage and the digest
  (documents/digestion/models.py), and \<^verbatim>\<open>put\<close> and \<^verbatim>\<open>read\<close> of documents/digestion/codec.py over a store.
  A step of the workflow is a function of the world with an outcome; \<open>wbind\<close> is its composition. The
  JSON parser with the schema validation is the record \<open>codec\<close>, one function per contract, and so is the
  parser of the extraction artifact (\<^verbatim>\<open>deserialize\<close> of documents/serialization.py).
\<close>

section \<open>Composition\<close>

type_synonym ('e, 'w, 'a) effect = "'w \<Rightarrow> ('e + 'a) \<times> 'w"
type_synonym ('w, 'a) run = "(exception_value, 'w, 'a) effect"

definition wbind :: "('e, 'w, 'a) effect \<Rightarrow> ('a \<Rightarrow> ('e, 'w, 'b) effect) \<Rightarrow> ('e, 'w, 'b) effect" where
  "wbind m f w = (case m w of (Inl e, w') \<Rightarrow> (Inl e, w') | (Inr x, w') \<Rightarrow> f x w')"

definition wlift :: "'e + 'a \<Rightarrow> ('e, 'w, 'a) effect" where
  "wlift r w = (r, w)"

definition of_digestion :: "digestion_exception + 'a \<Rightarrow> exception_value + 'a" where
  "of_digestion r = (case r of
      Inl (Digestion_failure e) \<Rightarrow> Inl (Digestion_error_value (de_category e))
    | Inl Other_failure \<Rightarrow> Inl Other_exception
    | Inr x \<Rightarrow> Inr x)"

abbreviation digestion_fail :: "string \<Rightarrow> exception_value + 'a" where
  "digestion_fail c \<equiv> of_digestion (Inl (dfail c))"

lemma wbind_Inr_iff [txn_simps]: "wbind m f w = (Inr y, w') \<longleftrightarrow> (\<exists>x w1. m w = (Inr x, w1) \<and> f x w1 = (Inr y, w'))"
  by (auto simp: wbind_def split: prod.splits sum.splits)

lemma wlift_iff [txn_simps]: "wlift r w = (x, w') \<longleftrightarrow> r = x \<and> w' = w"
  by (auto simp: wlift_def)

lemma of_digestion_Inr [txn_simps]: "of_digestion r = Inr x \<longleftrightarrow> r = Inr x"
  by (auto simp: of_digestion_def split: sum.splits digestion_exception.splits)

text \<open>What holds between the worlds before and after each part holds for the composition.\<close>

lemma wbind_rel:
  assumes "reflp R" and "transp R" and "\<And>r w'. m w = (r, w') \<Longrightarrow> R w w'"
    and "\<And>x w1 r w'. m w = (Inr x, w1) \<Longrightarrow> f x w1 = (r, w') \<Longrightarrow> R w1 w'"
    and "wbind m f w = (r, w')"
  shows "R w w'"
proof (cases "m w")
  case (Pair o1 w1)
  show ?thesis
  proof (cases o1)
    case (Inl e)
    with assms(5) Pair have "w' = w1" by (simp add: wbind_def)
    with assms(3) Pair show ?thesis by simp
  next
    case (Inr x)
    with assms(5) Pair have "f x w1 = (r, w')" by (simp add: wbind_def)
    with assms(2,3,4) Pair Inr show ?thesis by (metis transpE)
  qed
qed

section \<open>Dumps\<close>

fun unit_kind_text :: "unit_kind \<Rightarrow> string" where
  "unit_kind_text K_document = ''document''"
| "unit_kind_text K_section = ''section''"
| "unit_kind_text K_subsection = ''subsection''"
| "unit_kind_text K_fallback = ''fallback''"

fun unit_source_text :: "unit_source \<Rightarrow> string" where
  "unit_source_text US_heading = ''canonical-heading''"
| "unit_source_text US_page = ''canonical-page''"
| "unit_source_text US_text = ''canonical-text''"
| "unit_source_text US_root = ''root''"

fun unit_confidence_text :: "unit_confidence \<Rightarrow> string" where
  "unit_confidence_text Source_declared = ''source-declared''"
| "unit_confidence_text Fallback_confidence = ''fallback''"

definition ids_json :: "uuid list \<Rightarrow> json" where "ids_json us = JArr (map uuid_json us)"

definition path_json :: "code_points list \<Rightarrow> json" where "path_json p = JArr (map JText p)"

definition structural_unit_json :: "structural_unit \<Rightarrow> json" where
  "structural_unit_json u = JObj [(''structural_unit_id'', uuid_json (su_id u)), (''parent_id'', opt_json uuid_json (su_parent u)),
     (''child_ids'', ids_json (su_children u)), (''order'', JInt (su_order u)), (''kind'', JStr (unit_kind_text (su_kind u))),
     (''heading'', opt_json JText (su_heading u)), (''path'', path_json (su_path u)),
     (''source'', JStr (unit_source_text (su_source u))), (''confidence'', JStr (unit_confidence_text (su_confidence u))),
     (''block_ids'', ids_json (su_blocks u)), (''source_ids'', ids_json (su_sources u)),
     (''physical_pages'', JArr (map JInt (su_pages u)))]"

definition structural_map_json :: "structural_map \<Rightarrow> json" where
  "structural_map_json m = JObj [(''schema_version'', JStr ''structure/1''), (''extraction'', ref_json (sm_extraction m)),
     (''document_version_id'', uuid_json (sm_version_id m)), (''profile'', JStr (sm_profile m)),
     (''units'', JArr (map structural_unit_json (sm_units m)))]"

definition chunk_json :: "analysis_chunk \<Rightarrow> json" where
  "chunk_json c = JObj [(''schema_version'', JStr ''analysis-chunk/1''), (''chunk_id'', uuid_json (ch_id c)),
     (''document_version_id'', uuid_json (ch_version_id c)), (''structural_parent'', uuid_json (ch_structural_parent c)),
     (''path'', path_json (ch_path c)), (''sequence'', JInt (ch_sequence c)), (''profile'', JStr (ch_profile c)),
     (''pieces'', JArr (map piece_json (ch_pieces c))), (''estimated_tokens'', JInt (ch_estimated_tokens c)),
     (''overlap_with'', JArr [])]"

definition reducer_json :: "reduction_node \<Rightarrow> json" where
  "reducer_json n = JObj [(''stage_id'', uuid_json (rn_stage_id n)), (''structural_parent'', uuid_json (rn_structural_parent n)),
     (''children'', ids_json (rn_children n)), (''level'', JInt (rn_level n)), (''path'', path_json (rn_path n)),
     (''estimated_tokens'', JInt (rn_estimated_tokens n))]"

definition plan_json :: "plan \<Rightarrow> json" where
  "plan_json pl = JObj [(''schema_version'', JStr ''digestion-plan/1''), (''profile'', digestion_profile_json (pl_profile pl)),
     (''structure'', structural_map_json (pl_structure pl)), (''chunks'', JArr (map chunk_json (pl_chunks pl))),
     (''reducers'', JArr (map reducer_json (pl_reducers pl))), (''root_id'', uuid_json (pl_root_id pl)),
     (''eligible'', ids_json (pl_eligible pl)), (''skipped'', ids_json (pl_skipped pl)),
     (''unsupported'', ids_json (pl_unsupported pl))]"

definition proposition_json :: "proposition_row \<Rightarrow> json" where
  "proposition_json r = JObj [(''subject'', JStr (pr_subject r)), (''affirmed'', JBool (pr_affirmed r)), (''denied'', JBool (pr_denied r))]"

definition checkpoint_json :: "checkpoint \<Rightarrow> json" where
  "checkpoint_json c = JObj [(''schema_version'', JStr ''synthesis-checkpoint/1''), (''plan_hash'', JStr (cp_plan_hash c)),
     (''parents'', JArr (map ref_json (cp_parents c))), (''result'', stage_result_json (cp_result c)),
     (''inherited'', summary_json (cp_inherited c)), (''propositions'', JArr (map proposition_json (cp_propositions c)))]"

definition coverage_json :: "coverage \<Rightarrow> json" where
  "coverage_json c = JObj [(''schema_version'', JStr ''coverage/1''), (''eligible'', ids_json (cv_eligible c)),
     (''analyzed'', ids_json (cv_analyzed c)), (''failed'', ids_json (cv_failed c)), (''skipped'', ids_json (cv_skipped c)),
     (''unsupported'', ids_json (cv_unsupported c)), (''included'', ids_json (cv_included c)), (''fraction'', JFloat (cv_fraction c))]"

fun digest_status_text :: "digest_status \<Rightarrow> string" where
  "digest_status_text D_COMPLETE = ''COMPLETE''"
| "digest_status_text D_PARTIAL = ''PARTIAL''"
| "digest_status_text D_FAILED = ''FAILED''"

definition digest_json :: "digest_artifact \<Rightarrow> json" where
  "digest_json d = JObj [(''schema_version'', JStr ''document-digest/1''), (''document_version_id'', uuid_json (da_version_id d)),
     (''extraction'', ref_json (da_extraction d)), (''plan'', ref_json (da_plan d)), (''profile'', JStr (da_profile d)),
     (''status'', JStr (digest_status_text (da_status d))), (''executive_summary'', JText (da_executive_summary d)),
     (''root'', uuid_json (da_root d)),
     (''sections'', JArr (map (\<lambda>s. JObj [(''structural_unit_id'', uuid_json (ss_unit_id s)), (''stage_id'', uuid_json (ss_stage_id s)),
        (''synthesis'', JText (ss_synthesis s))]) (da_sections d))),
     (''findings'', JArr (map claim_json (da_findings d))), (''synthesis_claims'', JArr (map claim_json (da_synthesis_claims d))),
     (''qualifications'', JArr (map qualification_json (da_qualifications d))),
     (''contradictions'', JArr (map (\<lambda>c. JObj [(''subject'', JStr (ct_subject c)), (''affirmed'', ids_json (ct_affirmed c)),
        (''denied'', ids_json (ct_denied c)), (''resolution'', JStr ''unresolved'')]) (da_contradictions d))),
     (''open_questions'', path_json (da_open_questions d)), (''coverage'', coverage_json (da_coverage d)),
     (''limitations'', path_json (da_limitations d)), (''evidence'', JArr (map evidence_json (da_evidence d))),
     (''checkpoints'', JArr (map ref_json (da_checkpoints d)))]"

section \<open>Schema constraints\<close>

definition chunk_valid :: "analysis_chunk \<Rightarrow> bool" where
  "chunk_valid c \<longleftrightarrow> 0 \<le> ch_sequence c \<and> digest_text (ch_profile c) \<and> 0 \<le> ch_estimated_tokens c
     \<and> list_all (\<lambda>p. span_valid (ev_span (pc_evidence p))) (ch_pieces c)"

definition structure_valid :: "prims \<Rightarrow> structural_map \<Rightarrow> bool" where
  "structure_valid H m \<longleftrightarrow> object_ref_valid H (sm_extraction m) \<and> digest_text (sm_profile m) \<and> structural_map_valid m"

definition plan_valid :: "prims \<Rightarrow> plan \<Rightarrow> bool" where
  "plan_valid H pl \<longleftrightarrow> digestion_profile_valid (pl_profile pl) \<and> structure_valid H (pl_structure pl)
     \<and> list_all chunk_valid (pl_chunks pl) \<and> list_all (\<lambda>n. 1 \<le> rn_level n \<and> 0 \<le> rn_estimated_tokens n) (pl_reducers pl)"

definition checkpoint_valid :: "prims \<Rightarrow> checkpoint \<Rightarrow> bool" where
  "checkpoint_valid H c \<longleftrightarrow> digest_text (cp_plan_hash c) \<and> list_all (object_ref_valid H) (cp_parents c)
     \<and> stage_result_valid (cp_result c) \<and> summary_valid (cp_inherited c)
     \<and> list_all (\<lambda>p. token_text 128 (pr_subject p)) (cp_propositions c)"

definition coverage_valid :: "coverage \<Rightarrow> bool" where
  "coverage_valid c \<longleftrightarrow> 0 \<le> cv_fraction c \<and> cv_fraction c \<le> 1"

definition digest_valid :: "prims \<Rightarrow> digest_artifact \<Rightarrow> bool" where
  "digest_valid H d \<longleftrightarrow> object_ref_valid H (da_extraction d) \<and> object_ref_valid H (da_plan d) \<and> digest_text (da_profile d)
     \<and> bounded_text (da_executive_summary d) \<and> list_all (\<lambda>s. bounded_text (ss_synthesis s)) (da_sections d)
     \<and> list_all claim_valid (da_findings d) \<and> list_all claim_valid (da_synthesis_claims d)
     \<and> list_all (\<lambda>q. bounded_text (ql_text q)) (da_qualifications d)
     \<and> list_all (\<lambda>c. token_text 128 (ct_subject c)) (da_contradictions d)
     \<and> list_all bounded_text (da_open_questions d) \<and> coverage_valid (da_coverage d) \<and> list_all bounded_text (da_limitations d)
     \<and> list_all (\<lambda>e. span_valid (ev_span e)) (da_evidence d) \<and> list_all (object_ref_valid H) (da_checkpoints d)"

section \<open>Objects in the store\<close>

definition ascii_bytes :: "string \<Rightarrow> bytes" where
  "ascii_bytes s = map (\<lambda>c. of_nat (of_char c)) s"

type_synonym read_port = "scope \<Rightarrow> object_ref \<Rightarrow> int \<Rightarrow> exception_value + bytes"

definition codec_put :: "prims \<Rightarrow> 'w put_port \<Rightarrow> scope \<Rightarrow> bool \<Rightarrow> json \<Rightarrow> int \<Rightarrow> ('w, object_ref) run" where
  "codec_put H put sc ok payload limit =
     wbind (wlift (of_digestion (encode H ok payload))) (\<lambda>text.
     if int (length text) > limit then wlift (digestion_fail ''synthesis_limit_exceeded'')
     else put sc Artifact (stable_id H [''digestion-object/1'', fingerprint H payload]) (ascii_bytes text) limit None)"

definition codec_read :: "read_port \<Rightarrow> scope \<Rightarrow> object_ref \<Rightarrow> (bytes \<Rightarrow> 'm parsed) \<Rightarrow> int \<Rightarrow> exception_value + 'm" where
  "codec_read rd sc ref loads limit = sbind (rd sc ref limit) (\<lambda>data. of_digestion (decode loads data limit))"

record codec =
  cd_plan :: "bytes \<Rightarrow> plan parsed"
  cd_checkpoint :: "bytes \<Rightarrow> checkpoint parsed"
  cd_result :: "bytes \<Rightarrow> stage_result parsed"
  cd_digest :: "bytes \<Rightarrow> digest_artifact parsed"
  cd_coverage :: "bytes \<Rightarrow> coverage parsed"
  cd_artifact :: "bytes \<Rightarrow> int \<Rightarrow> exception_value + artifact"

end
