(* ===== verification/DigestWorkflow.thy ===== *)
theory DigestWorkflow
  imports DigestCodec
begin

text \<open>
  The digestion workflow of documents/digestion/workflow.py: the steps of a digestion job, its admission, the step
  handler over the intent store of a lease, and the reading of the final digest. The handler computes
  what it stores from the ledger and the store and then writes it, object by object. The inference is an
  argument: the bytes it answers to a request, or its exception. A loop over a Python set runs in the order
  of the plan; the order decides only which of several failures is reported.
\<close>

section \<open>Failures\<close>

definition digestion_mapping :: "(string \<times> string) list" where
  "digestion_mapping = [(''evidence_validation_failed'', ''invalid_reference''),
     (''synthesis_limit_exceeded'', ''extraction_limit_exceeded''), (''incompatible_checkpoint'', ''profile_mismatch''),
     (''inference_contract_error'', ''serialization_error''), (''structural_planning_failed'', ''invalid_document'')]"

definition classify_digestion :: "exception_value \<Rightarrow> failure" where
  "classify_digestion err = (case err of
      Digestion_error_value c \<Rightarrow>
        classify (Document_error (case map_of digestion_mapping c of Some x \<Rightarrow> x | None \<Rightarrow> ''extraction_failed'')) False
    | _ \<Rightarrow> classify err False)"

section \<open>The steps of a digestion job\<close>

definition plan_hash :: "prims \<Rightarrow> plan \<Rightarrow> string" where
  "plan_hash H pl = fingerprint H (plan_json pl)"

definition plan_anchor :: "object_ref \<Rightarrow> string" where
  "plan_anchor plan_ref = ''plan/'' @ uuid_text (or_object_id plan_ref)"

definition specs :: "prims \<Rightarrow> plan \<Rightarrow> object_ref \<Rightarrow> step_spec list" where
  "specs H pl plan_ref =
     (let digest = plan_hash H pl; anchor = plan_anchor plan_ref in
      [\<lparr>sp_unit_id = anchor, sp_stage = NORMALIZING, sp_schema_version = ''digestion-plan/1'', sp_config_fingerprint = digest,
        sp_depends_on = []\<rparr>]
      @ map (\<lambda>c. \<lparr>sp_unit_id = uuid_text (ch_id c), sp_stage = NORMALIZING, sp_schema_version = ''stage-result/1'',
          sp_config_fingerprint = digest, sp_depends_on = [anchor]\<rparr>) (pl_chunks pl)
      @ map (\<lambda>n. \<lparr>sp_unit_id = uuid_text (rn_stage_id n), sp_stage = NORMALIZING, sp_schema_version = ''stage-result/1'',
          sp_config_fingerprint = digest, sp_depends_on = map uuid_text (rn_children n)\<rparr>) (pl_reducers pl)
      @ [\<lparr>sp_unit_id = ''digest'', sp_stage = VALIDATING, sp_schema_version = ''document-digest/1'', sp_config_fingerprint = digest,
          sp_depends_on = [uuid_text (pl_root_id pl)]\<rparr>])"

section \<open>Planning and admission\<close>

text \<open>What the workflow is given of the outside: primitives, hash of bytes, serialisation and parsers.\<close>

record workflow_env =
  we_prims :: prims
  we_lang :: lang
  we_sha :: "bytes \<Rightarrow> string"
  we_serialize :: "artifact \<Rightarrow> bytes"
  we_codec :: codec

definition we_build :: "workflow_env \<Rightarrow> artifact \<Rightarrow> object_ref \<Rightarrow> digestion_profile \<Rightarrow> exception_value + plan" where
  "we_build env a ref p = (case build_plan (we_prims env) (we_lang env) (we_sha env) (we_serialize env) a ref p of
     Inl e \<Rightarrow> Inl (Digestion_error_value (de_category e)) | Inr pl \<Rightarrow> Inr pl)"

definition prepare_digestion :: "workflow_env \<Rightarrow> 'w put_port \<Rightarrow> artifact \<Rightarrow> object_ref \<Rightarrow> digestion_profile \<Rightarrow> ('w, plan \<times> object_ref) run" where
  "prepare_digestion env put a ref p =
     wbind (wlift (we_build env a ref p)) (\<lambda>pl.
     wbind (codec_put (we_prims env) put (dc_scope (ar_document a)) (plan_valid (we_prims env) pl) (plan_json pl) (dp_max_artifact_bytes p)) (\<lambda>plan_ref.
     wlift (Inr (pl, plan_ref))))"

text \<open>The plan in the store, and the artifact it was built from; the plan is rebuilt and compared.\<close>

definition read_artifact :: "workflow_env \<Rightarrow> read_port \<Rightarrow> scope \<Rightarrow> object_ref \<Rightarrow> int \<Rightarrow> exception_value + artifact" where
  "read_artifact env rd sc ref limit = sbind (rd sc ref limit) (\<lambda>data. cd_artifact (we_codec env) data limit)"

definition rebuilt :: "workflow_env \<Rightarrow> read_port \<Rightarrow> scope \<Rightarrow> int \<Rightarrow> plan \<Rightarrow> exception_value + artifact" where
  "rebuilt env rd sc limit pl =
     sbind (read_artifact env rd sc (sm_extraction (pl_structure pl)) limit) (\<lambda>a.
     sbind (we_build env a (sm_extraction (pl_structure pl)) (pl_profile pl)) (\<lambda>pl'.
     if pl' \<noteq> pl then digestion_fail ''incompatible_checkpoint'' else Inr a))"

definition default_retry :: retry_policy where
  "default_retry = \<lparr>max_attempts = 3, base_seconds = 1, max_seconds = 60, budget_seconds = 3600, jitter_fraction = 0\<rparr>"

definition digestion_processing :: "digestion_profile \<Rightarrow> artifact \<Rightarrow> retry_policy option \<Rightarrow> processing_profile" where
  "digestion_processing p a retry =
     \<lparr>pf_version = dp_version p, pf_parser_version = ar_parser_version a, pf_max_source_bytes = ar_max_source_bytes a,
      pf_max_pages = ar_max_pages a, pf_max_characters = ar_max_characters a, pf_max_blocks = ar_max_blocks a,
      pf_max_artifact_bytes = dp_max_artifact_bytes p, pf_structure_required = ar_structure_required a,
      pf_retry = (case retry of None \<Rightarrow> default_retry | Some r \<Rightarrow> r)\<rparr>"
definition digestion_admission :: "prims \<Rightarrow> plan \<Rightarrow> object_ref \<Rightarrow> artifact \<Rightarrow> string \<Rightarrow> uuid option \<Rightarrow> retry_policy option \<Rightarrow> admission" where
  "digestion_admission H pl plan_ref a request_key resume_from retry =
     (let doc = ar_document a in
      \<lparr>ad_scope = dc_scope doc, ad_document_id = dc_document_id doc, ad_version_id = dc_version_id doc, ad_source = dc_source doc,
       ad_request_key = request_key, ad_display_filename = dc_display_filename doc, ad_mime = dc_detected doc,
       ad_profile = digestion_processing (pl_profile pl) a retry, ad_steps = specs H pl plan_ref, ad_resume_from = resume_from\<rparr>)"

definition admit_digestion :: "workflow_env \<Rightarrow> uuid list \<Rightarrow> plan \<Rightarrow> object_ref \<Rightarrow> string \<Rightarrow> uuid option \<Rightarrow> retry_policy option \<Rightarrow> time
    \<Rightarrow> obj_store \<Rightarrow> (exception_value, ledger, job_row) txn" where
  "admit_digestion env ids pl plan_ref request_key resume_from retry now d db =
     (let H = we_prims env; sc = or_scope (sm_extraction (pl_structure pl)); limit = dp_max_artifact_bytes (pl_profile pl);
          rd = (\<lambda>sc ref m. case store_read H (we_sha env) d sc ref m of Inl e \<Rightarrow> Inl (Document_error e) | Inr data \<Rightarrow> Inr data) in
      sbind (codec_read rd sc plan_ref (cd_plan (we_codec env)) limit) (\<lambda>restored.
      if restored \<noteq> pl then digestion_fail ''incompatible_checkpoint''
      else sbind (rebuilt env rd sc limit pl) (\<lambda>a.
        let request = digestion_admission H pl plan_ref a request_key resume_from retry in
        if \<not> admission_valid H request then Inl Other_exception
        else service_admit H (we_sha env) ids request now d db)))"

section \<open>The step handler\<close>

type_synonym loaded = "plan \<times> artifact"

text \<open>\<^verbatim>\<open>_load\<close> with its cache: the outcome and the new cache.\<close>

definition handler_load :: "workflow_env \<Rightarrow> object_ref \<Rightarrow> read_port \<Rightarrow> scope \<Rightarrow> int \<Rightarrow> loaded option \<Rightarrow> (exception_value + loaded) \<times> loaded option" where
  "handler_load env plan_ref rd sc limit cache =
     (case (case cache of Some x \<Rightarrow> Inr x
            | None \<Rightarrow> sbind (codec_read rd sc plan_ref (cd_plan (we_codec env)) limit) (\<lambda>pl.
                sbind (rebuilt env rd sc limit pl) (\<lambda>a. Inr (pl, a)))) of
        Inl e \<Rightarrow> (Inl e, None)
      | Inr (pl, a) \<Rightarrow>
          (if sc \<noteq> or_scope plan_ref \<or> limit \<noteq> dp_max_artifact_bytes (pl_profile pl)
           then digestion_fail ''incompatible_checkpoint'' else Inr (pl, a), Some (pl, a)))"

datatype plan_node = Chunk_node analysis_chunk | Reducer_node reduction_node

definition plan_nodes :: "plan \<Rightarrow> (uuid \<times> plan_node) list" where
  "plan_nodes pl = dict_of (map (\<lambda>c. (ch_id c, Chunk_node c)) (pl_chunks pl) @ map (\<lambda>n. (rn_stage_id n, Reducer_node n)) (pl_reducers pl))"

fun child_inputs :: "(uuid \<times> checkpoint) list \<Rightarrow> (uuid \<times> object_ref) list \<Rightarrow> uuid list \<Rightarrow> exception_value + child_input list" where
  "child_inputs cps refs [] = Inr []"
| "child_inputs cps refs (k # ks) = (case (map_of refs k, map_of cps k) of
     (Some ref, Some cp) \<Rightarrow> sbind (child_inputs cps refs ks) (\<lambda>cs.
        Inr (\<lparr>ci_artifact = ref, ci_result = cp_result cp, ci_inherited = cp_inherited cp\<rparr> # cs))
   | _ \<Rightarrow> Inl Other_exception)"

definition stage_request_for :: "prims \<Rightarrow> plan \<Rightarrow> uuid \<Rightarrow> (uuid \<times> checkpoint) list \<Rightarrow> (uuid \<times> object_ref) list \<Rightarrow> exception_value + stage_request" where
  "stage_request_for H pl stage_id cps refs =
     (case map_of (plan_nodes pl) stage_id of
        None \<Rightarrow> digestion_fail ''incompatible_checkpoint''
      | Some (Chunk_node c) \<Rightarrow>
          (let q = \<lparr>rq_stage_id = stage_id, rq_stage = Analysis, rq_profile = pl_profile pl, rq_path = ch_path c,
                    rq_source_data = ch_pieces c, rq_children = []\<rparr>
           in if request_valid H q then Inr q else Inl Other_exception)
      | Some (Reducer_node n) \<Rightarrow> sbind (child_inputs cps refs (rn_children n)) (\<lambda>cs.
          let q = \<lparr>rq_stage_id = stage_id, rq_stage = Reduction, rq_profile = pl_profile pl, rq_path = rn_path n,
                   rq_source_data = [], rq_children = cs\<rparr>
          in if request_valid H q then Inr q else Inl Other_exception))"

definition stage_parents :: "plan \<Rightarrow> object_ref \<Rightarrow> stage_request \<Rightarrow> object_ref list" where
  "stage_parents pl plan_ref q = (if rq_stage q = Analysis then [plan_ref, sm_extraction (pl_structure pl)]
     else map ci_artifact (rq_children q))"

definition child_checkpoints :: "(uuid \<times> checkpoint) list \<Rightarrow> stage_request \<Rightarrow> exception_value + checkpoint list" where
  "child_checkpoints cps q = (case those (map (\<lambda>c. map_of cps (rs_stage_id (ci_result c))) (rq_children q)) of
     None \<Rightarrow> Inl Other_exception | Some xs \<Rightarrow> Inr xs)"

text \<open>The accepted checkpoint of one finished step.\<close>

definition fetch_checkpoint :: "workflow_env \<Rightarrow> read_port \<Rightarrow> scope \<Rightarrow> int \<Rightarrow> plan \<Rightarrow> (string \<times> step_row \<times> object_ref list) list \<Rightarrow> string
    \<Rightarrow> (uuid \<times> checkpoint) list \<times> (uuid \<times> object_ref) list \<Rightarrow> exception_value + (uuid \<times> checkpoint) list \<times> (uuid \<times> object_ref) list" where
  "fetch_checkpoint env rd sc limit pl models key = (\<lambda>(cps, refs).
     case map_of models key of None \<Rightarrow> Inl Other_exception
     | Some (row, manifest) \<Rightarrow>
         if sr_state row \<noteq> S_SUCCEEDED \<or> length manifest \<noteq> 1 then digestion_fail ''incompatible_checkpoint''
         else sbind (codec_read rd sc (hd manifest) (cd_checkpoint (we_codec env)) limit) (\<lambda>cp.
           let k = rs_stage_id (cp_result cp) in
           if cp_plan_hash cp \<noteq> plan_hash (we_prims env) pl \<or> uuid_text k \<noteq> key then digestion_fail ''incompatible_checkpoint''
           else Inr (dict_put k cp cps, dict_put k (hd manifest) refs)))"

text \<open>One stage of the accepted graph, validated again before the digest is made.\<close>

definition revalidate_stage :: "workflow_env \<Rightarrow> plan \<Rightarrow> artifact \<Rightarrow> object_ref \<Rightarrow> (uuid \<times> checkpoint) list \<Rightarrow> (uuid \<times> object_ref) list \<Rightarrow> uuid
    \<Rightarrow> (uuid \<times> checkpoint) list \<Rightarrow> exception_value + (uuid \<times> checkpoint) list" where
  "revalidate_stage env pl a plan_ref cps refs key ordered =
     (let H = we_prims env in
      case map_of cps key of None \<Rightarrow> Inl Other_exception
      | Some cp \<Rightarrow>
          sbind (stage_request_for H pl key ordered refs) (\<lambda>q.
          if cp_parents cp \<noteq> stage_parents pl plan_ref q then digestion_fail ''incompatible_checkpoint''
          else sbind (of_digestion (encode H (stage_result_valid (cp_result cp)) (stage_result_json (cp_result cp)))) (\<lambda>raw.
            sbind (of_digestion (validate_result H (cd_result (we_codec env)) a (ascii_bytes raw) q)) (\<lambda>_.
            sbind (child_checkpoints ordered q) (\<lambda>children.
            if (cp_inherited cp, cp_propositions cp) \<noteq> inherited_summary (cp_result cp) q children
            then digestion_fail ''incompatible_checkpoint''
            else Inr (dict_put key cp ordered))))))"

definition digest_outputs :: "workflow_env \<Rightarrow> (object_ref \<Rightarrow> exception_value + object_ref) \<Rightarrow> object_ref \<Rightarrow> plan \<Rightarrow> artifact
    \<Rightarrow> (uuid \<times> checkpoint) list \<Rightarrow> (uuid \<times> object_ref) list \<Rightarrow> exception_value + (bool \<times> json) list" where
  "digest_outputs env inspect plan_ref pl a cps refs =
     (let H = we_prims env in
      sbind (inspect (sm_extraction (pl_structure pl))) (\<lambda>_.
      sbind (inspect plan_ref) (\<lambda>_.
      sbind (fold_sum (revalidate_stage env pl a plan_ref cps refs) (expected_stages pl) []) (\<lambda>ordered.
      sbind (of_digestion (make_digest H a pl plan_ref ordered refs)) (\<lambda>d.
      if \<not> digest_valid H d then Inl Other_exception
      else if da_status d = D_FAILED then digestion_fail ''coverage_failed''
      else Inr [(digest_valid H d, digest_json d), (coverage_valid (da_coverage d), coverage_json (da_coverage d))])))))"

definition stage_outputs :: "workflow_env \<Rightarrow> (stage_request \<Rightarrow> exception_value + bytes) \<Rightarrow> object_ref \<Rightarrow> int \<Rightarrow> plan \<Rightarrow> artifact \<Rightarrow> string
    \<Rightarrow> (uuid \<times> checkpoint) list \<Rightarrow> (uuid \<times> object_ref) list \<Rightarrow> exception_value + (bool \<times> json) list" where
  "stage_outputs env infer plan_ref limit pl a unit_id cps refs =
     (let H = we_prims env in
      case find (\<lambda>k. uuid_text k = unit_id) (expected_stages pl) of None \<Rightarrow> Inl Other_exception
      | Some stage_id \<Rightarrow>
          sbind (stage_request_for H pl stage_id cps refs) (\<lambda>q.
          sbind (infer q) (\<lambda>raw.
          sbind (of_digestion (validate_result H (cd_result (we_codec env)) a raw q)) (\<lambda>result.
          sbind (child_checkpoints cps q) (\<lambda>children.
          let (inherited, propositions) = inherited_summary result q children;
              cp = \<lparr>cp_plan_hash = plan_hash H pl, cp_parents = stage_parents pl plan_ref q, cp_result = result,
                    cp_inherited = inherited, cp_propositions = propositions\<rparr> in
          if \<not> checkpoint_valid H cp then Inl Other_exception
          else if (case dp_managed_input_budget (pl_profile pl) of None \<Rightarrow> False
               | Some b \<Rightarrow> child_contribution H \<lparr>ci_artifact = plan_ref\<lparr>or_byte_size := limit\<rparr>, ci_result = result, ci_inherited = inherited\<rparr>
                   > mb_child_bytes b)
          then digestion_fail ''synthesis_limit_exceeded''
          else Inr [(checkpoint_valid H cp, checkpoint_json cp)])))))"

text \<open>What one call of the handler stores, over the reading side of a store and the ledger.\<close>

type_synonym inspect_port = "scope \<Rightarrow> object_ref \<Rightarrow> int \<Rightarrow> exception_value + object_ref"

definition handler_outputs :: "workflow_env \<Rightarrow> (stage_request \<Rightarrow> exception_value + bytes) \<Rightarrow> object_ref \<Rightarrow> loaded \<Rightarrow> job_row \<Rightarrow> step_spec
    \<Rightarrow> read_port \<Rightarrow> inspect_port \<Rightarrow> ledger \<Rightarrow> exception_value + (bool \<times> json) list" where
  "handler_outputs env infer plan_ref ld job spec rd inspect db =
     (let H = we_prims env; (pl, a) = ld; request = jr_request job; sc = ad_scope request;
          limit = pf_max_artifact_bytes (ad_profile request); expected = specs H pl plan_ref; anchor = plan_anchor plan_ref in
      if ad_steps request \<noteq> expected \<or> spec \<notin> set expected \<or> ad_source request \<noteq> dc_source (ar_document a)
         \<or> ad_version_id request \<noteq> sm_version_id (pl_structure pl)
      then digestion_fail ''incompatible_checkpoint''
      else if sp_unit_id spec = anchor
      then Inr [(plan_valid H pl, plan_json pl), (structure_valid H (pl_structure pl), structural_map_json (pl_structure pl))]
      else sbind (lift_job (steps sc (jr_job_id job) db)) (\<lambda>(models, _).
        let by_unit = dict_of (map (\<lambda>s. (sp_unit_id (sr_spec (fst s)), s)) models);
            wanted = (if sp_unit_id spec = ''digest'' then map uuid_text (expected_stages pl) else sp_depends_on spec) in
        sbind (fold_sum (fetch_checkpoint env rd sc limit pl by_unit) (filter (\<lambda>k. k \<noteq> anchor) wanted) ([], [])) (\<lambda>(cps, refs).
        if sp_unit_id spec = ''digest''
        then digest_outputs env (\<lambda>ref. inspect sc ref limit) plan_ref pl a cps refs
        else stage_outputs env infer plan_ref limit pl a (sp_unit_id spec) cps refs)))"

fun put_outputs :: "prims \<Rightarrow> 'w put_port \<Rightarrow> scope \<Rightarrow> int \<Rightarrow> (bool \<times> json) list \<Rightarrow> ('w, object_ref list) run" where
  "put_outputs H put sc limit [] = wlift (Inr [])"
| "put_outputs H put sc limit ((ok, payload) # outs) =
     wbind (codec_put H put sc ok payload limit) (\<lambda>ref. wbind (put_outputs H put sc limit outs) (\<lambda>refs. wlift (Inr (ref # refs))))"

text \<open>The handler over any store: its reading side, and the port that writes.\<close>

definition run_handler :: "workflow_env \<Rightarrow> (stage_request \<Rightarrow> exception_value + bytes) \<Rightarrow> object_ref \<Rightarrow> loaded option \<Rightarrow> read_port \<Rightarrow> inspect_port
    \<Rightarrow> ledger \<Rightarrow> 'w put_port \<Rightarrow> job_row \<Rightarrow> step_spec \<Rightarrow> ('w, object_ref list) run" where
  "run_handler env infer plan_ref cache rd inspect db put job spec =
     (let sc = ad_scope (jr_request job); limit = pf_max_artifact_bytes (ad_profile (jr_request job)) in
      wbind (wlift (fst (handler_load env plan_ref rd sc limit cache))) (\<lambda>ld.
      wbind (wlift (handler_outputs env infer plan_ref ld job spec rd inspect db)) (\<lambda>outs.
      put_outputs (we_prims env) put sc limit outs)))"

definition digestion_handler :: "workflow_env \<Rightarrow> (stage_request \<Rightarrow> exception_value + bytes) \<Rightarrow> object_ref \<Rightarrow> loaded option \<Rightarrow> time \<Rightarrow> handler" where
  "digestion_handler env infer plan_ref cache now job step l w =
     (let H = we_prims env; sha = we_sha env in
      run_handler env infer plan_ref cache (\<lambda>sc ref m. intent_read H sha l sc ref m w) (\<lambda>sc ref m. intent_inspect H sha l sc ref m w)
        (wd_ledger w) (intent_port H sha l now) job (sr_spec (fst step)) w)"

section \<open>The accepted digest\<close>

definition load_digest :: "workflow_env \<Rightarrow> scope \<Rightarrow> uuid \<Rightarrow> obj_store \<Rightarrow> ledger \<Rightarrow> exception_value + digest_artifact" where
  "load_digest env sc job_id d db =
     sbind (lift_job (get_job sc job_id db)) (\<lambda>(job, _).
     sbind (lift_job (steps sc job_id db)) (\<lambda>(models, _).
     case find (\<lambda>s. sp_unit_id (sr_spec (fst s)) = ''digest'') models of None \<Rightarrow> digestion_fail ''coverage_failed''
     | Some (row, manifest) \<Rightarrow>
         if sr_state row \<noteq> S_SUCCEEDED \<or> length manifest \<noteq> 2 then digestion_fail ''coverage_failed''
         else sbind (codec_read (\<lambda>sc ref m. case store_read (we_prims env) (we_sha env) d sc ref m of Inl e \<Rightarrow> Inl (Document_error e) | Inr data \<Rightarrow> Inr data)
                sc (manifest ! 0) (cd_digest (we_codec env)) (pf_max_artifact_bytes (ad_profile (jr_request job)))) (\<lambda>digest.
           if da_status digest = D_FAILED \<or> da_version_id digest \<noteq> ad_version_id (jr_request job)
           then digestion_fail ''incompatible_checkpoint'' else Inr digest)))"

end
