(* ===== verification/PlanIdentity.thy ===== *)
theory PlanIdentity
  imports DigestPlanTheorems
begin

text \<open>
  The names behind the identifiers of a plan (documents/digestion/planning.py): the identifier of a chunk or of a reducer is the UUID
  of its name. The names of the chunks of a plan are different, because no two pieces refer to the same evidence.
\<close>

section \<open>Names\<close>

definition chunk_name :: "prims \<Rightarrow> artifact \<Rightarrow> digestion_profile \<Rightarrow> analysis_chunk \<Rightarrow> string list" where
  "chunk_name H a p c = [uuid_text (ar_extraction_id a), digestion_profile_digest H p, ''chunk'', uuid_text (ch_structural_parent c)]
     @ map (\<lambda>x. uuid_text (evidence_id H x)) (ch_pieces c)"

definition reducer_name :: "prims \<Rightarrow> artifact \<Rightarrow> digestion_profile \<Rightarrow> reduction_node \<Rightarrow> string list" where
  "reducer_name H a p n = [uuid_text (ar_extraction_id a), digestion_profile_digest H p, ''reduction'', uuid_text (rn_structural_parent n)]
     @ map uuid_text (rn_children n)"

definition plan_pieces :: "plan \<Rightarrow> source_piece list" where
  "plan_pieces pl = concat (map ch_pieces (pl_chunks pl))"

definition plan_names :: "prims \<Rightarrow> artifact \<Rightarrow> digestion_profile \<Rightarrow> plan \<Rightarrow> string list set" where
  "plan_names H a p pl = chunk_name H a p ` set (pl_chunks pl) \<union> reducer_name H a p ` set (pl_reducers pl)"

definition evidence_name :: "prims \<Rightarrow> evidence_ref \<Rightarrow> string list" where
  "evidence_name H e = [''source-evidence/1'', fingerprint H (evidence_json e)]"

lemma evidence_id_name: "evidence_id H x = stable_id H (evidence_name H (pc_evidence x))"
  by (simp add: evidence_id_def evidence_name_def)

lemma names_differ: "chunk_name H a p c \<noteq> reducer_name H a p n"
  by (simp add: chunk_name_def reducer_name_def)

lemma map_uuid_text_eq: "map uuid_text xs = map uuid_text ys \<longleftrightarrow> xs = ys"
  using uuid_text_inj by (auto simp: inj_map_eq_map inj_def)

lemma reducer_name_eq:
  "reducer_name H a p n = reducer_name H a p n' \<longleftrightarrow> rn_structural_parent n = rn_structural_parent n' \<and> rn_children n = rn_children n'"
  using uuid_text_inj by (auto simp: reducer_name_def map_uuid_text_eq)

section \<open>The chunks are named after their pieces\<close>

text \<open>What every appended chunk keeps, the whole chunk loop keeps.\<close>

lemma split_block_rule:
  assumes "split_block H a p node u b start line first st = Inr st'" and "P (fst st)"
    and "\<And>node xs cs cs'. append_chunk H a p node xs cs = Inr cs' \<Longrightarrow> P cs \<Longrightarrow> P cs'"
  shows "P (fst st')"
  using assms
proof (induction H a p node u b start line first st rule: split_block.induct)
  case (1 H a p node u b start line first st)
  show ?case
  proof (cases "start < sn_end (bk_span b) \<or> first")
    case True
    with 1(2) obtain r st1 where s: "0 < dp_chunk_characters p"
      "fit_piece H a p (length (fst st)) node u b start line (window_end p u b start) = Inr r"
      "place_piece H a p node (snd r) st = Inr st1"
      "split_block H a p node u b (fst r) (map_option (\<lambda>l. l + int (count_nl (pc_text (snd r)))) line) False st1 = Inr st'"
      by (subst (asm) split_block.simps) (auto simp: txn_simps split: if_splits)
    have "P (fst st1)"
      using s(3) 1(3,4) by (cases st) (auto simp: place_piece_def Let_def txn_simps split: if_splits sum.splits digestion_exception.splits)
    then show ?thesis using 1(1) [of r st1] s True 1(4) by auto
  qed (use 1(2,3) in \<open>subst (asm) split_block.simps, auto split: if_splits\<close>)
qed

lemma chunk_groups_rule:
  assumes run: "fold_sum (chunk_group H a p eligible) groups cs = Inr cs'" and start: "P cs"
    and step: "\<And>node xs cs cs'. append_chunk H a p node xs cs = Inr cs' \<Longrightarrow> P cs \<Longrightarrow> P cs'"
  shows "P cs'"
proof (rule fold_sum_inv [where I = P, OF run start])
  fix g cs cs'
  assume "chunk_group H a p eligible g cs = Inr cs'" and P: "P cs"
  then obtain cs1 xs n where
    s: "fold_sum (chunk_block H a p eligible (fst g)) (snd g) (cs, [], 0) = Inr (cs1, xs, n)" "append_chunk H a p (fst g) xs cs1 = Inr cs'"
    by (auto simp: chunk_group_def txn_simps)
  have "P (fst (cs1, xs, n))"
    by (rule fold_sum_inv [where I = "\<lambda>st. P (fst st)", OF s(1)])
      (use P split_block_rule [where P = P, OF _ _ step] in \<open>auto simp: chunk_block_def split: if_splits option.splits\<close>)
  then show "P cs'" using step [OF s(2)] by simp
qed

lemma chunks_named:
  assumes "fold_sum (chunk_group H a p eligible) groups [] = Inr cs"
  shows "list_all (\<lambda>c. ch_pieces c \<noteq> [] \<and> ch_id c = stable_id H (chunk_name H a p c)) cs"
  by (rule chunk_groups_rule [where P = "list_all (\<lambda>c. ch_pieces c \<noteq> [] \<and> ch_id c = stable_id H (chunk_name H a p c))", OF assms])
    (auto simp: append_chunk_def make_chunk_def chunk_name_def Let_def txn_simps split: if_splits)

section \<open>No two pieces refer to the same evidence\<close>

definition piece_key :: "source_piece \<Rightarrow> uuid \<times> int" where
  "piece_key x = (ev_block_id (pc_evidence x), sn_start (ev_span (pc_evidence x)))"

lemma keys_append:
  assumes "distinct (map piece_key xs)" "distinct (map piece_key ys)" "list_all (\<lambda>x. fst (piece_key x) \<in> A) xs" "list_all (\<lambda>x. fst (piece_key x) \<in> B) ys"
    and "A \<inter> B = {}"
  shows "distinct (map piece_key (xs @ ys))"
proof -
  have "piece_key x \<noteq> piece_key y" if "x \<in> set xs" "y \<in> set ys" for x y
    using assms(3-5) that unfolding list_all_iff by (metis IntI empty_iff)
  then have "piece_key ` set xs \<inter> piece_key ` set ys = {}" by blast
  then show ?thesis using assms(1,2) by simp
qed

lemma split_block_keys:
  assumes "split_block H a p node u b start line first st = Inr st'" and "start \<le> sn_end (bk_span b)"
  shows "\<exists>xs. pending_pieces st' = pending_pieces st @ xs \<and> distinct (map piece_key xs)
     \<and> list_all (\<lambda>x. fst (piece_key x) = bk_block_id b \<and> start \<le> snd (piece_key x)) xs \<and> (\<not> first \<and> start = sn_end (bk_span b) \<longrightarrow> xs = [])"
  using assms
proof (induction H a p node u b start line first st rule: split_block.induct)
  case (1 H a p node u b start line first st)
  note prems = 1(2-)
  show ?case
  proof (cases "start < sn_end (bk_span b) \<or> first")
    case False
    with prems have "st' = st" by (subst (asm) split_block.simps; auto split: if_splits)+
    then show ?thesis by (intro exI [of _ "[]"]) simp
  next
    case True
    with prems(1) obtain e x st1 where s: "0 < dp_chunk_characters p"
      "fit_piece H a p (length (fst st)) node u b start line (window_end p u b start) = Inr (e, x)"
      "place_piece H a p node x st = Inr st1"
      "split_block H a p node u b e (map_option (\<lambda>l. l + int (count_nl (pc_text x))) line) False st1 = Inr st'"
      by (subst (asm) split_block.simps) (auto simp: txn_simps split: if_splits)
    note f = fit_piece_result [OF s(2)]
    note w = window_end_bounds [OF s(1), where u = u and b = b and start = start]
    have e: "e \<le> sn_end (bk_span b)" "start < sn_end (bk_span b) \<Longrightarrow> start < e" "start = sn_end (bk_span b) \<Longrightarrow> e = start"
    proof -
      show "e \<le> sn_end (bk_span b)" using f w(1) by linarith
      show "start < sn_end (bk_span b) \<Longrightarrow> start < e" using f w(2) by blast
      show "e = start" if "start = sn_end (bk_span b)"
      proof -
        have "window_end p u b start = start" using that s(1) by (simp add: window_end_def Let_def)
        with f show ?thesis by auto
      qed
    qed
    have key: "piece_key x = (bk_block_id b, start)" using f by (simp add: piece_key_def make_piece_def Let_def)
    obtain xs where xs: "pending_pieces st' = pending_pieces st1 @ xs" "distinct (map piece_key xs)"
        "list_all (\<lambda>x. fst (piece_key x) = bk_block_id b \<and> e \<le> snd (piece_key x)) xs" "e = sn_end (bk_span b) \<longrightarrow> xs = []"
      using 1(1) [of "(e, x)" st1] s True e(1) by auto
    have "snd (piece_key y) \<noteq> start" if y: "y \<in> set xs" for y
    proof (cases "start < sn_end (bk_span b)")
      case True
      then have "start < e" by (rule e(2))
      then show ?thesis using xs(3) y by (fastforce simp: list_all_iff)
    next
      case False
      then have "xs = []" using xs(4) e(3) prems(2) by simp
      then show ?thesis using y by simp
    qed
    then have "piece_key x \<notin> set (map piece_key xs)" unfolding key by (auto simp: image_iff) (metis snd_conv)
    moreover have "start \<le> e" using e(2,3) prems(2) by (cases "start < sn_end (bk_span b)") auto
    then have "list_all (\<lambda>x. fst (piece_key x) = bk_block_id b \<and> start \<le> snd (piece_key x)) (x # xs)"
      using xs(3) key by (auto simp: list_all_iff)
    ultimately show ?thesis
      using place_piece_pieces [OF s(3)] xs(1,2) True by (intro exI [of _ "x # xs"]) auto
  qed
qed

lemma block_index_member:
  assumes "map_of (block_index a) k = Some (u, b)"
  shows "(u, b) \<in> set (inventory a) \<and> bk_block_id b = k"
proof -
  have "(k, u, b) \<in> set (map (\<lambda>(u, b). (bk_block_id b, u, b)) (inventory a))"
    using assms unfolding block_index_def map_of_dict_of by (rule map_of_rev_SomeD)
  then show ?thesis by auto
qed

lemma chunk_blocks_keys:
  assumes "artifact_valid H U a" and "distinct ks" and "fold_sum (chunk_block H a p eligible node) ks st = Inr st'"
  shows "\<exists>xs. pending_pieces st' = pending_pieces st @ xs \<and> distinct (map piece_key xs) \<and> list_all (\<lambda>x. fst (piece_key x) \<in> set ks) xs"
  using assms(2,3)
proof (induction ks arbitrary: st)
  case (Cons k ks)
  then obtain t where t: "chunk_block H a p eligible node k st = Inr t" "fold_sum (chunk_block H a p eligible node) ks t = Inr st'"
    by (auto simp: txn_simps)
  have "\<exists>xs. pending_pieces t = pending_pieces st @ xs \<and> distinct (map piece_key xs) \<and> list_all (\<lambda>x. fst (piece_key x) \<in> {k}) xs"
  proof (cases "k \<in> set eligible")
    case True
    with t(1) obtain u b where b: "map_of (block_index a) k = Some (u, b)"
      and run: "split_block H a p node u b (sn_start (bk_span b)) (sn_line_start (bk_span b)) True st = Inr t"
      by (auto simp: chunk_block_def split: option.splits)
    note m = block_index_member [OF b]
    from split_block_keys [OF run valid_block(2) [OF assms(1) conjunct1 [OF m]]] m show ?thesis
      by (fastforce simp: list_all_iff)
  next
    case False
    with t(1) show ?thesis by (intro exI [of _ "[]"]) (simp add: chunk_block_def)
  qed
  then obtain xs where xs: "pending_pieces t = pending_pieces st @ xs" "distinct (map piece_key xs)" "list_all (\<lambda>x. fst (piece_key x) \<in> {k}) xs" by blast
  obtain ys where ys: "pending_pieces st' = pending_pieces t @ ys" "distinct (map piece_key ys)" "list_all (\<lambda>x. fst (piece_key x) \<in> set ks) ys"
    using Cons.IH [OF _ t(2)] Cons.prems(1) by auto
  have "distinct (map piece_key (xs @ ys))" using keys_append [OF xs(2) ys(2) xs(3) ys(3)] Cons.prems(1) by simp
  moreover have "list_all (\<lambda>x. fst (piece_key x) \<in> set (k # ks)) (xs @ ys)" using xs(3) ys(3) by (auto simp: list_all_iff)
  ultimately show ?case using xs(1) ys(1) by (intro exI [of _ "xs @ ys"]) simp
qed simp

lemma chunk_groups_keys:
  assumes "artifact_valid H U a" and "distinct (concat (map snd groups))" and "fold_sum (chunk_group H a p eligible) groups cs = Inr cs'"
  shows "\<exists>xs. concat (map ch_pieces cs') = concat (map ch_pieces cs) @ xs \<and> distinct (map piece_key xs)
    \<and> list_all (\<lambda>x. fst (piece_key x) \<in> set (concat (map snd groups))) xs"
  using assms(2,3)
proof (induction groups arbitrary: cs)
  case (Cons g groups)
  then obtain c where c: "chunk_group H a p eligible g cs = Inr c" "fold_sum (chunk_group H a p eligible) groups c = Inr cs'"
    by (auto simp: txn_simps)
  then obtain cs1 pieces n where
    p1: "fold_sum (chunk_block H a p eligible (fst g)) (snd g) (cs, [], 0) = Inr (cs1, pieces, n)"
    and p2: "append_chunk H a p (fst g) pieces cs1 = Inr c" by (auto simp: chunk_group_def txn_simps)
  have "distinct (snd g)" using Cons.prems(1) by simp
  from chunk_blocks_keys [OF assms(1) this p1] append_chunk_pieces [OF p2] obtain xs where
    xs: "concat (map ch_pieces c) = concat (map ch_pieces cs) @ xs" "distinct (map piece_key xs)" "list_all (\<lambda>x. fst (piece_key x) \<in> set (snd g)) xs"
    by (auto simp: pending_pieces_def)
  obtain ys where ys: "concat (map ch_pieces cs') = concat (map ch_pieces c) @ ys" "distinct (map piece_key ys)"
      "list_all (\<lambda>x. fst (piece_key x) \<in> set (concat (map snd groups))) ys"
    using Cons.IH [OF _ c(2)] Cons.prems(1) by auto
  have "set (snd g) \<inter> set (concat (map snd groups)) = {}" using Cons.prems(1) by simp
  then have "distinct (map piece_key (xs @ ys))" by (rule keys_append [OF xs(2) ys(2) xs(3) ys(3)])
  moreover have "list_all (\<lambda>x. fst (piece_key x) \<in> set (concat (map snd (g # groups)))) (xs @ ys)"
    using xs(3) ys(3) unfolding list_all_iff by (simp add: ball_Un)
  ultimately show ?case using xs(1) ys(1) by (intro exI [of _ "xs @ ys"]) simp
qed simp

text \<open>The identifiers of the chunks of a plan are different, when those of the pieces are.\<close>

lemma chunk_names_distinct:
  assumes "distinct (map (evidence_id H) (concat (map ch_pieces cs)))" and "list_all (\<lambda>c. ch_pieces c \<noteq> []) cs"
  shows "distinct (map (chunk_name H a p) cs)"
  using assms
proof (induction cs)
  case (Cons c cs)
  have "chunk_name H a p c \<noteq> chunk_name H a p d" if "d \<in> set cs" for d
  proof
    assume "chunk_name H a p c = chunk_name H a p d"
    then have "map uuid_text (map (evidence_id H) (ch_pieces c)) = map uuid_text (map (evidence_id H) (ch_pieces d))"
      by (simp add: chunk_name_def comp_def)
    then have "map (evidence_id H) (ch_pieces c) = map (evidence_id H) (ch_pieces d)" by (simp only: map_uuid_text_eq)
    then have same: "evidence_id H ` set (ch_pieces c) = evidence_id H ` set (ch_pieces d)" by (metis list.set_map)
    have sub: "set (ch_pieces d) \<subseteq> set (concat (map ch_pieces cs))" using that by auto
    obtain x xs where x: "ch_pieces c = x # xs" using Cons.prems(2) by (cases "ch_pieces c") simp_all
    then have "evidence_id H x \<in> evidence_id H ` set (ch_pieces c)" by simp
    then have "evidence_id H x \<in> evidence_id H ` set (concat (map ch_pieces cs))" using image_mono [OF sub, of "evidence_id H"] unfolding same by (rule subsetD [rotated])
    moreover have "evidence_id H x \<notin> evidence_id H ` set (concat (map ch_pieces cs))" using Cons.prems(1) x by simp
    ultimately show False by blast
  qed
  then have "chunk_name H a p c \<notin> set (map (chunk_name H a p) cs)" by (simp add: image_iff)
  moreover have "distinct (map (chunk_name H a p) cs)" using Cons.prems by (intro Cons.IH) simp_all
  ultimately show ?case by simp
qed simp

lemma plan_chunk_names:
  assumes plan: "build_plan H U sha serialize a ref p = Inr pl" and blocks: "distinct (map bk_block_id (all_blocks a))"
    and evidence: "inj_on (\<lambda>e. stable_id H (evidence_name H e)) (pc_evidence ` set (plan_pieces pl))"
  shows "map ch_id (pl_chunks pl) = map (stable_id H \<circ> chunk_name H a p) (pl_chunks pl)"
    and "distinct (map (chunk_name H a p) (pl_chunks pl))"
proof -
  note v = build_planD [OF plan]
  from build_core_chunks [OF v(3)] obtain us groups where g: "fold_sum (extend_groups us) (inventory a) [] = Inr groups"
    "fold_sum (chunk_group H a p (pl_eligible pl)) groups [] = Inr (pl_chunks pl)" by blast
  have named: "list_all (\<lambda>c. ch_pieces c \<noteq> [] \<and> ch_id c = stable_id H (chunk_name H a p c)) (pl_chunks pl)" by (rule chunks_named [OF g(2)])
  then show "map ch_id (pl_chunks pl) = map (stable_id H \<circ> chunk_name H a p) (pl_chunks pl)" by (simp add: list_all_iff)
  have "concat (map snd groups) = map bk_block_id (all_blocks a)"
    using extend_groups_ids [OF g(1)] by (simp add: inventory_blocks [symmetric] case_prod_unfold comp_def)
  then have "distinct (concat (map snd groups))" using blocks by simp
  from chunk_groups_keys [OF v(1) this g(2)] have "distinct (map piece_key (plan_pieces pl))" by (auto simp: plan_pieces_def)
  then have "distinct (map pc_evidence (plan_pieces pl))"
    by (auto simp: distinct_map piece_key_def inj_on_def)
  then have "distinct (map (evidence_id H) (plan_pieces pl))"
    using evidence by (auto simp: distinct_map evidence_id_name inj_on_def)
  then show "distinct (map (chunk_name H a p) (pl_chunks pl))"
    using named by (intro chunk_names_distinct) (auto simp: plan_pieces_def list_all_iff)
qed

end
