(* ===== verification/WorkflowTheorems.thy ===== *)
theory WorkflowTheorems
  imports DigestWorkflow PlanIdentity
begin

text \<open>
  What the digestion workflow guarantees: the steps of a plan are a dependency graph that the ledger admits, the handler
  acts on the ledger only through ledger operations, a stage step stores only what has passed the validator, and the final
  step publishes a digest only after it has validated every stage again.
\<close>

section \<open>The order of the reducers\<close>
























section \<open>The stages of a plan have different identifiers\<close>
















section \<open>The steps of a plan are admissible\<close>


lemma uuid_text_eq [simp]: "uuid_text a = uuid_text b \<longleftrightarrow> a = b"
  using uuid_text_inj by blast






section \<open>The handler and the ledger\<close>

definition world_run :: "prims \<Rightarrow> job_settings \<Rightarrow> world \<Rightarrow> world \<Rightarrow> bool" where
  "world_run H st w w' \<longleftrightarrow> (ledger_step_rel H st)\<^sup>*\<^sup>* (wd_ledger w) (wd_ledger w') \<and> wd_queue w' = wd_queue w"

lemma world_run_order: "reflp (world_run H st)" "transp (world_run H st)"
  by (auto simp: world_run_def reflp_def transp_def)

lemma codec_put_run:
  assumes "codec_put H (intent_port H sha l now) sc ok payload limit w = (r, w')"
  shows "world_run H st w w'"
  using world_run_order _ _ assms [unfolded codec_put_def]
proof (rule wbind_rel)
  fix r w1 assume "wlift (of_digestion (encode H ok payload)) w = (r, w1)"
  then show "world_run H st w w1" by (simp add: txn_simps world_run_def)
next
  fix x w1 r w2
  assume "(if limit < int (length x) then wlift (digestion_fail ''synthesis_limit_exceeded'')
    else intent_port H sha l now sc Artifact (stable_id H [''digestion-object/1'', fingerprint H payload]) (ascii_bytes x) limit None) w1 = (r, w2)"
  then show "world_run H st w1 w2"
    by (auto simp: world_run_def intent_port_def txn_simps split: if_splits dest: intent_put_run [where st = st])
qed

lemma put_outputs_run:
  "put_outputs H (intent_port H sha l now) sc limit outs w = (r, w') \<Longrightarrow> world_run H st w w'"
proof (induction outs arbitrary: r w w')
  case Nil
  then show ?case by (simp add: txn_simps world_run_def)
next
  case (Cons x outs)
  obtain ok payload where x: "x = (ok, payload)" by (cases x)
  have tail: "world_run H st w1 w2"
    if "wbind (put_outputs H (intent_port H sha l now) sc limit outs) (\<lambda>refs. wlift (Inr (ref # refs))) w1 = (r, w2)" for ref r w1 w2
    using world_run_order _ _ that by (rule wbind_rel) (auto dest: Cons.IH simp: txn_simps world_run_def [of _ _ v v for v])
  show ?case using world_run_order codec_put_run tail Cons.prems [unfolded x put_outputs.simps] by (rule wbind_rel)
qed

text \<open>The digestion handler acts on the ledger only through ledger operations and never touches the queue, whatever it
  finds in the store, whatever the inference answers and whatever its cache holds, so the worker guarantees apply to it.\<close>

theorem digestion_handler_well_behaved:
  "well_behaved (we_prims env) st (digestion_handler env infer plan_ref cache now)"
  unfolding well_behaved_def
proof (intro allI)
  fix job step l w
  let ?r = "digestion_handler env infer plan_ref cache now job step l w"
  have "world_run (we_prims env) st w (snd ?r)"
    by (cases ?r) (auto simp: digestion_handler_def run_handler_def Let_def wbind_def wlift_def world_run_def [of _ _ w w]
        dest!: put_outputs_run [where st = st] split: sum.splits)
  then show "(ledger_step_rel (we_prims env) st)\<^sup>*\<^sup>* (wd_ledger w) (wd_ledger (snd ?r)) \<and> wd_queue (snd ?r) = wd_queue w"
    by (simp add: world_run_def)
qed

section \<open>What a digest is made of\<close>

text \<open>The checkpoints validated so far are checkpoints of the manifest; a request over them is a request over all.\<close>

lemma child_inputs_mono:
  assumes "map_of part \<subseteq>\<^sub>m map_of cps" and "child_inputs part refs ks = Inr cs"
  shows "child_inputs cps refs ks = Inr cs"
  using assms(2)
proof (induction ks arbitrary: cs)
  case (Cons k ks)
  then obtain ref cp cs' where "map_of refs k = Some ref" "map_of part k = Some cp" "child_inputs part refs ks = Inr cs'"
    and cs: "cs = \<lparr>ci_artifact = ref, ci_result = cp_result cp, ci_inherited = cp_inherited cp\<rparr> # cs'"
    by (auto simp: txn_simps split: option.splits)
  moreover from this assms(1) have "map_of cps k = Some cp" by (auto simp: map_le_def dom_def)
  ultimately show ?case using Cons.IH by simp
qed simp

lemma stage_request_mono:
  "map_of part \<subseteq>\<^sub>m map_of cps \<Longrightarrow> stage_request_for H pl k part refs = Inr q \<Longrightarrow> stage_request_for H pl k cps refs = Inr q"
  by (auto simp: stage_request_for_def txn_simps split: option.splits plan_node.splits dest: child_inputs_mono)

text \<open>A stage of the accepted graph: its checkpoint is bound to the request that the plan gives and passes the validator.\<close>

definition stage_accepted :: "workflow_env \<Rightarrow> plan \<Rightarrow> artifact \<Rightarrow> object_ref \<Rightarrow> (uuid \<times> checkpoint) list \<Rightarrow> (uuid \<times> object_ref) list \<Rightarrow> uuid \<Rightarrow> bool" where
  "stage_accepted env pl a plan_ref cps refs k \<longleftrightarrow> (\<exists>cp q r. map_of cps k = Some cp
     \<and> stage_request_for (we_prims env) pl k cps refs = Inr q \<and> cp_parents cp = stage_parents pl plan_ref q
     \<and> validate_result (we_prims env) (cd_result (we_codec env)) a (ascii_bytes (canonical (we_prims env) (stage_result_json (cp_result cp)))) q = Inr r)"

lemma revalidate_stage_accepts:
  assumes "revalidate_stage env pl a plan_ref cps refs k part = Inr part'" and "map_of part \<subseteq>\<^sub>m map_of cps"
  shows "stage_accepted env pl a plan_ref cps refs k \<and> map_of part' \<subseteq>\<^sub>m map_of cps"
proof -
  from assms(1) obtain cp q r where cp: "map_of cps k = Some cp" and q: "stage_request_for (we_prims env) pl k part refs = Inr q"
    and p: "cp_parents cp = stage_parents pl plan_ref q" and part': "part' = dict_put k cp part"
    and r: "validate_result (we_prims env) (cd_result (we_codec env)) a (ascii_bytes (canonical (we_prims env) (stage_result_json (cp_result cp)))) q = Inr r"
    by (auto simp: revalidate_stage_def Let_def txn_simps encode_def split: option.splits if_splits)
  from stage_request_mono [OF assms(2) q] cp p r have "stage_accepted env pl a plan_ref cps refs k" unfolding stage_accepted_def by blast
  with cp part' assms(2) show ?thesis by (auto simp: map_le_def dom_def)
qed

lemma revalidated_stages:
  assumes "fold_sum (revalidate_stage env pl a plan_ref cps refs) ks part = Inr ordered" and "map_of part \<subseteq>\<^sub>m map_of cps"
  shows "list_all (stage_accepted env pl a plan_ref cps refs) ks \<and> map_of ordered \<subseteq>\<^sub>m map_of cps"
  using assms
proof (induction ks arbitrary: part)
  case (Cons k ks)
  then obtain part' where "revalidate_stage env pl a plan_ref cps refs k part = Inr part'"
    and "fold_sum (revalidate_stage env pl a plan_ref cps refs) ks part' = Inr ordered" by (auto simp: txn_simps)
  with Cons.IH revalidate_stage_accepts Cons.prems(2) show ?case by fastforce
qed simp

text \<open>C15: The final step publishes a digest only of a plan whose every stage it has validated again against the source: the
  checkpoint of every chunk and every reducer has the parents that the plan gives it, and its stored
  result passes the result validator for the request that the plan and the accepted children give. The digest is made of
  those checkpoints, and it is not a failed one.\<close>

theorem digest_revalidates_every_stage:
  "case digest_outputs env inspect plan_ref pl a cps refs of Inl e \<Rightarrow> True
   | Inr outs \<Rightarrow> list_all (stage_accepted env pl a plan_ref cps refs) (expected_stages pl)
       \<and> (\<exists>d ordered. make_digest (we_prims env) a pl plan_ref ordered refs = Inr d \<and> map_of ordered \<subseteq>\<^sub>m map_of cps
            \<and> da_status d \<noteq> D_FAILED \<and> hd outs = (True, digest_json d))"
proof (cases "digest_outputs env inspect plan_ref pl a cps refs")
  case (Inr outs)
  then obtain ordered d where f: "fold_sum (revalidate_stage env pl a plan_ref cps refs) (expected_stages pl) [] = Inr ordered"
    and d: "make_digest (we_prims env) a pl plan_ref ordered refs = Inr d" "da_status d \<noteq> D_FAILED" "hd outs = (True, digest_json d)"
    by (auto simp: digest_outputs_def Let_def txn_simps split: if_splits)
  from revalidated_stages [OF f] d Inr show ?thesis by auto
qed simp

text \<open>A stage step stores one checkpoint, and only of an inference answer that passed the result validator for the request
  that the plan and the accepted children give.\<close>

theorem stage_stores_validated_answer:
  "case stage_outputs env infer plan_ref limit pl a unit_id cps refs of Inl e \<Rightarrow> True
   | Inr outs \<Rightarrow> \<exists>k q raw cp. k \<in> set (expected_stages pl) \<and> uuid_text k = unit_id \<and> stage_request_for (we_prims env) pl k cps refs = Inr q
       \<and> infer q = Inr raw \<and> validate_result (we_prims env) (cd_result (we_codec env)) a raw q = Inr (cp_result cp)
       \<and> cp_plan_hash cp = plan_hash (we_prims env) pl \<and> cp_parents cp = stage_parents pl plan_ref q
       \<and> outs = [(True, checkpoint_json cp)]"
proof (cases "stage_outputs env infer plan_ref limit pl a unit_id cps refs")
  case (Inr outs)
  then obtain k q raw result children where k: "find (\<lambda>k. uuid_text k = unit_id) (expected_stages pl) = Some k"
      "stage_request_for (we_prims env) pl k cps refs = Inr q" "infer q = Inr raw"
      "validate_result (we_prims env) (cd_result (we_codec env)) a raw q = Inr result" "child_checkpoints cps q = Inr children"
    by (auto simp: stage_outputs_def Let_def txn_simps split: option.splits)
  let ?cp = "\<lparr>cp_plan_hash = plan_hash (we_prims env) pl, cp_parents = stage_parents pl plan_ref q, cp_result = result,
    cp_inherited = fst (inherited_summary result q children), cp_propositions = snd (inherited_summary result q children)\<rparr>"
  from Inr k have "outs = [(True, checkpoint_json ?cp)]"
    by (simp add: stage_outputs_def Let_def case_prod_unfold of_digestion_def split: if_splits)
  moreover from k(1) have "k \<in> set (expected_stages pl)" "uuid_text k = unit_id" by (simp_all add: find_Some_iff) (auto dest: nth_mem)
  ultimately show ?thesis using Inr k(2-4) by (auto intro!: exI [of _ k] exI [of _ ?cp])
qed simp

end
