(* ===== verification/Publication.thy ===== *)
theory Publication
  imports DigestModels
begin

text \<open>
  The publication authority of documents/publication/authority.py: candidates, the active
  generation with its epoch, and the log of activations, each operation one SQLite transaction.
  References and bases, which the tables hold as JSON, are kept as values. Faults of the file
  system, which the code reports as \<^verbatim>\<open>publication_unavailable\<close>, are not modelled.
\<close>

section \<open>State\<close>

definition publication_categories :: "string list" where
  "publication_categories = [''publication_invalid_input'', ''publication_validation_failed'', ''publication_write_failure'',
     ''publication_stale_candidate'', ''publication_generation_mismatch'', ''publication_unavailable'', ''publication_incompatible'',
     ''provenance_invalid'', ''citation_invalid'', ''retrieval_scope_invalid'', ''embedding_limit'', ''analysis_limit'']"

definition publication_error :: "string \<Rightarrow> string" where
  "publication_error category = (if category \<in> set publication_categories then category else ''publication_validation_failed'')"

record active_publication =
  ap_generation :: "uuid option"
  ap_epoch :: int

datatype candidate_state = PREPARING | READY | ACCEPTED | FAILED | STALE

record candidate_row =
  cd_generation :: uuid
  cd_manifest :: object_ref
  cd_base :: active_publication
  cd_state :: candidate_state
  cd_error :: "string option"

datatype activation_kind = Forward | Rollback

record activation_row =
  av_epoch :: int
  av_generation :: uuid
  av_expected :: active_publication
  av_operation :: activation_kind

record publication_db =
  pb_active :: active_publication
  pb_candidates :: "candidate_row list"
  pb_activations :: "activation_row list"

definition empty_publication :: publication_db where
  "empty_publication = \<lparr>pb_active = \<lparr>ap_generation = None, ap_epoch = 0\<rparr>, pb_candidates = [], pb_activations = []\<rparr>"

definition find_candidate :: "publication_db \<Rightarrow> uuid \<Rightarrow> candidate_row option" where
  "find_candidate db g = find (\<lambda>c. cd_generation c = g) (pb_candidates db)"

definition find_activation :: "publication_db \<Rightarrow> int \<Rightarrow> activation_row option" where
  "find_activation db e = find (\<lambda>v. av_epoch v = e) (pb_activations db)"

section \<open>Operations\<close>

text \<open>\<^verbatim>\<open>register\<close>: \<open>g\<close> and \<open>base\<close> are the generation and the base of the manifest.\<close>

definition register_candidate :: "uuid \<Rightarrow> active_publication \<Rightarrow> object_ref \<Rightarrow> (string, publication_db, unit) txn" where
  "register_candidate g base ref db =
     (case find_candidate db g of
        Some row \<Rightarrow> if cd_manifest row \<noteq> ref then Inl (publication_error ''publication_invalid_input'') else Inr ((), db)
      | None \<Rightarrow> if pb_active db \<noteq> base then Inl (publication_error ''publication_stale_candidate'')
          else Inr ((), db\<lparr>pb_candidates := pb_candidates db
                 @ [\<lparr>cd_generation = g, cd_manifest = ref, cd_base = base, cd_state = PREPARING, cd_error = None\<rparr>]\<rparr>))"

definition candidate :: "uuid \<Rightarrow> publication_db \<Rightarrow> string + (object_ref \<times> candidate_state \<times> active_publication)" where
  "candidate g db = (case find_candidate db g of None \<Rightarrow> Inl (publication_error ''publication_unavailable'')
     | Some row \<Rightarrow> Inr (cd_manifest row, cd_state row, cd_base row))"

definition mark :: "uuid \<Rightarrow> candidate_state \<Rightarrow> string option \<Rightarrow> (string, publication_db, unit) txn" where
  "mark g state err db =
     (if state \<notin> {READY, FAILED, STALE} then Inl (publication_error ''publication_invalid_input'')
      else Inr ((), db\<lparr>pb_candidates := upd_where (\<lambda>c. cd_generation c = g \<and> cd_state c \<in> {PREPARING, READY, FAILED})
                         (\<lambda>c. c\<lparr>cd_state := state, cd_error := err\<rparr>) (pb_candidates db)\<rparr>))"

text \<open>The answer to a repeated activation whose first response was lost.\<close>

definition replayed :: "uuid \<Rightarrow> active_publication \<Rightarrow> activation_kind \<Rightarrow> publication_db \<Rightarrow> bool" where
  "replayed g expected operation db \<longleftrightarrow> pb_active db = \<lparr>ap_generation = Some g, ap_epoch = ap_epoch expected + 1\<rparr>
     \<and> (case find_activation db (ap_epoch expected + 1) of None \<Rightarrow> False
        | Some v \<Rightarrow> av_generation v = g \<and> av_expected v = expected \<and> av_operation v = operation)"

definition activatable :: "activation_kind \<Rightarrow> active_publication \<Rightarrow> candidate_row option \<Rightarrow> bool" where
  "activatable operation expected row \<longleftrightarrow> (case row of None \<Rightarrow> False | Some r \<Rightarrow>
     (case operation of Rollback \<Rightarrow> cd_state r = ACCEPTED | Forward \<Rightarrow> cd_state r = READY \<and> cd_base r = expected))"

text \<open>The insertion fails on the primary key when the epoch is already logged.\<close>

definition publication_activate :: "uuid \<Rightarrow> active_publication \<Rightarrow> activation_kind \<Rightarrow> (string, publication_db, active_publication) txn" where
  "publication_activate g expected operation db =
     (if replayed g expected operation db then Inr (pb_active db, db)
      else if pb_active db \<noteq> expected then Inl (publication_error ''publication_stale_candidate'')
      else if \<not> activatable operation expected (find_candidate db g) then Inl (publication_error ''publication_stale_candidate'')
      else let result = \<lparr>ap_generation = Some g, ap_epoch = ap_epoch (pb_active db) + 1\<rparr> in
        if find_activation db (ap_epoch result) \<noteq> None then Inl (publication_error ''publication_unavailable'')
        else Inr (result, db\<lparr>pb_active := result,
          pb_candidates := upd_where (\<lambda>c. cd_generation c = g) (\<lambda>c. c\<lparr>cd_state := ACCEPTED, cd_error := None\<rparr>) (pb_candidates db),
          pb_activations := pb_activations db @ [\<lparr>av_epoch = ap_epoch result, av_generation = g, av_expected = expected, av_operation = operation\<rparr>]\<rparr>))"

definition publication_inventory :: "publication_db \<Rightarrow> (uuid \<times> candidate_state) list" where
  "publication_inventory db = map (\<lambda>c. (cd_generation c, cd_state c)) (pb_candidates db)"

section \<open>Histories\<close>

datatype publication_call =
    Register uuid active_publication object_ref
  | Mark uuid candidate_state "string option"
  | Activate uuid active_publication activation_kind

fun publication_run :: "publication_call \<Rightarrow> publication_db \<Rightarrow> publication_db" where
  "publication_run (Register g base ref) db = snd (run_txn (register_candidate g base ref) db)"
| "publication_run (Mark g state err) db = snd (run_txn (mark g state err) db)"
| "publication_run (Activate g expected operation) db = snd (run_txn (publication_activate g expected operation) db)"

inductive publication_step :: "publication_db \<Rightarrow> publication_db \<Rightarrow> bool" where
  call: "publication_step db (publication_run c db)"

text \<open>Activations with the state before each of them.\<close>

fun linked :: "active_publication \<Rightarrow> activation_row list \<Rightarrow> active_publication \<Rightarrow> bool" where
  "linked now [] fin \<longleftrightarrow> now = fin"
| "linked now (v # vs) fin \<longleftrightarrow> av_expected v = now \<and> av_epoch v = ap_epoch now + 1
     \<and> linked \<lparr>ap_generation = Some (av_generation v), ap_epoch = av_epoch v\<rparr> vs fin"

definition accepted_generation :: "publication_db \<Rightarrow> uuid \<Rightarrow> bool" where
  "accepted_generation db g \<longleftrightarrow> (\<exists>c. find_candidate db g = Some c \<and> cd_state c = ACCEPTED)"

definition publication_inv :: "publication_db \<Rightarrow> bool" where
  "publication_inv db \<longleftrightarrow> distinct (map cd_generation (pb_candidates db))
     \<and> linked \<lparr>ap_generation = None, ap_epoch = 0\<rparr> (pb_activations db) (pb_active db)
     \<and> (\<forall>v \<in> set (pb_activations db). accepted_generation db (av_generation v))
     \<and> (\<forall>c \<in> set (pb_candidates db). cd_state c = ACCEPTED \<longrightarrow> cd_generation c \<in> av_generation ` set (pb_activations db))"

lemma linked_append: "linked s (vs @ [v]) t \<longleftrightarrow> (\<exists>m. linked s vs m \<and> linked m [v] t)"
  by (induction vs arbitrary: s) auto

lemma linked_epochs: "linked s vs t \<Longrightarrow> ap_epoch t = ap_epoch s + int (length vs)
    \<and> map av_epoch vs = map (\<lambda>i. ap_epoch s + 1 + int i) [0..<length vs]"
proof (induction vs arbitrary: s)
  case (Cons v vs)
  have "map (\<lambda>i. ap_epoch s + 1 + int i) [0..<length (v # vs)]
      = (ap_epoch s + 1) # map (\<lambda>i. ap_epoch s + 2 + int i) [0..<length vs]"
    by (simp add: upt_conv_Cons map_Suc_upt [symmetric] comp_def algebra_simps del: upt_Suc)
  with Cons show ?case by (auto simp: algebra_simps)
qed simp

lemma linked_last: "linked s vs t \<Longrightarrow> vs \<noteq> [] \<Longrightarrow> t = \<lparr>ap_generation = Some (av_generation (last vs)), ap_epoch = av_epoch (last vs)\<rparr>"
  by (induction vs arbitrary: s) auto

lemma no_logged_epoch:
  assumes "linked \<lparr>ap_generation = None, ap_epoch = 0\<rparr> (pb_activations db) (pb_active db)"
  shows "find_activation db (ap_epoch (pb_active db) + 1) = None"
proof -
  note e = linked_epochs [OF assms]
  have "v \<in> set (pb_activations db) \<Longrightarrow> av_epoch v \<le> ap_epoch (pb_active db)" for v
  proof -
    assume "v \<in> set (pb_activations db)"
    then have "av_epoch v \<in> set (map av_epoch (pb_activations db))" by simp
    with e show ?thesis by auto
  qed
  then show ?thesis by (force simp: find_activation_def find_None_iff)
qed

lemma find_candidate_upd:
  assumes "\<And>c. cd_generation (f c) = cd_generation c"
  shows "find (\<lambda>c. cd_generation c = g) (upd_where P f cs) = map_option (\<lambda>c. if P c then f c else c) (find (\<lambda>c. cd_generation c = g) cs)"
  using assms by (simp add: find_upd_where)

lemma accepted_generation_upd:
  assumes "accepted_generation db k" and "\<And>c. cd_generation (f c) = cd_generation c"
    and "\<And>c. P c \<Longrightarrow> cd_state c = ACCEPTED \<Longrightarrow> cd_state (f c) = ACCEPTED"
    and "pb_candidates db' = upd_where P f (pb_candidates db)"
  shows "accepted_generation db' k"
proof -
  from assms(1) obtain c where "find (\<lambda>c. cd_generation c = k) (pb_candidates db) = Some c" "cd_state c = ACCEPTED"
    by (auto simp: accepted_generation_def find_candidate_def)
  then show ?thesis
    using assms(2-4) by (auto simp: accepted_generation_def find_candidate_def find_candidate_upd intro!: exI [of _ "if P c then f c else c"])
qed

lemma register_inv:
  assumes "register_candidate g base ref db = Inr (x, db')" and "publication_inv db"
  shows "publication_inv db'"
proof (cases "find_candidate db g")
  case None
  with assms(1) have db': "db' = db\<lparr>pb_candidates := pb_candidates db
      @ [\<lparr>cd_generation = g, cd_manifest = ref, cd_base = base, cd_state = PREPARING, cd_error = None\<rparr>]\<rparr>"
    by (auto simp: register_candidate_def split: if_splits)
  have new: "g \<notin> cd_generation ` set (pb_candidates db)" using None by (auto simp: find_candidate_def find_None_iff)
  have "accepted_generation db k \<Longrightarrow> accepted_generation db' k" for k
    unfolding accepted_generation_def find_candidate_def db' by (auto simp: find_append_table)
  with assms(2) new show ?thesis by (auto simp: publication_inv_def db')
qed (use assms in \<open>auto simp: register_candidate_def split: if_splits\<close>)

lemma mark_inv:
  assumes "mark g state err db = Inr (x, db')" and "publication_inv db"
  shows "publication_inv db'"
proof -
  from assms(1) have state: "state \<noteq> ACCEPTED" and db': "db' = db\<lparr>pb_candidates := upd_where
      (\<lambda>c. cd_generation c = g \<and> cd_state c \<in> {PREPARING, READY, FAILED}) (\<lambda>c. c\<lparr>cd_state := state, cd_error := err\<rparr>) (pb_candidates db)\<rparr>"
    by (auto simp: mark_def split: if_splits)
  have "accepted_generation db k \<Longrightarrow> accepted_generation db' k" for k
    by (erule accepted_generation_upd [where P = "\<lambda>c. cd_generation c = g \<and> cd_state c \<in> {PREPARING, READY, FAILED}"
        and f = "\<lambda>c. c\<lparr>cd_state := state, cd_error := err\<rparr>"]) (auto simp: db')
  with assms(2) state show ?thesis
    by (auto simp: publication_inv_def db' map_upd_where set_upd_where split: if_splits)
qed

lemma activate_result:
  assumes "publication_activate g expected operation db = Inr (r, db')" and "publication_inv db"
  shows "(replayed g expected operation db \<and> r = pb_active db \<and> db' = db)
    \<or> (pb_active db = expected \<and> activatable operation expected (find_candidate db g)
       \<and> r = \<lparr>ap_generation = Some g, ap_epoch = ap_epoch expected + 1\<rparr>
       \<and> db' = db\<lparr>pb_active := r,
          pb_candidates := upd_where (\<lambda>c. cd_generation c = g) (\<lambda>c. c\<lparr>cd_state := ACCEPTED, cd_error := None\<rparr>) (pb_candidates db),
          pb_activations := pb_activations db @ [\<lparr>av_epoch = ap_epoch r, av_generation = g, av_expected = expected, av_operation = operation\<rparr>]\<rparr>)"
  using assms(1) by (auto simp: publication_activate_def Let_def split: if_splits)

lemma activate_inv:
  assumes "publication_activate g expected operation db = Inr (r, db')" and "publication_inv db"
  shows "publication_inv db'"
  using activate_result [OF assms]
proof (elim disjE conjE)
  assume e: "pb_active db = expected" "activatable operation expected (find_candidate db g)"
    and r: "r = \<lparr>ap_generation = Some g, ap_epoch = ap_epoch expected + 1\<rparr>"
    and db': "db' = db\<lparr>pb_active := r,
      pb_candidates := upd_where (\<lambda>c. cd_generation c = g) (\<lambda>c. c\<lparr>cd_state := ACCEPTED, cd_error := None\<rparr>) (pb_candidates db),
      pb_activations := pb_activations db @ [\<lparr>av_epoch = ap_epoch r, av_generation = g, av_expected = expected, av_operation = operation\<rparr>]\<rparr>"
  have keep: "accepted_generation db k \<Longrightarrow> accepted_generation db' k" for k
    by (erule accepted_generation_upd [where P = "\<lambda>c. cd_generation c = g"
        and f = "\<lambda>c. c\<lparr>cd_state := ACCEPTED, cd_error := None\<rparr>"]) (auto simp: db')
  have "accepted_generation db' g"
    using e(2) find_SomeD [of "\<lambda>c. cd_generation c = g" "pb_candidates db"]
    unfolding accepted_generation_def find_candidate_def db'
    by (fastforce simp: find_candidate_upd activatable_def split: option.splits)
  with assms(2) keep e(1) r show ?thesis
    by (auto simp: publication_inv_def db' map_upd_where set_upd_where linked_append split: if_splits)
qed (use assms(2) in simp)

lemma publication_run_inv: "publication_inv db \<Longrightarrow> publication_inv (publication_run c db)"
proof (cases c)
  case (Register g base ref)
  then show "publication_inv db \<Longrightarrow> publication_inv (publication_run c db)"
    using register_inv [of g base ref db] by (simp add: run_txn_inv)
next
  case (Mark g state err)
  then show "publication_inv db \<Longrightarrow> publication_inv (publication_run c db)"
    using mark_inv [of g state err db] by (simp add: run_txn_inv)
next
  case (Activate g expected operation)
  then show "publication_inv db \<Longrightarrow> publication_inv (publication_run c db)"
    using activate_inv [of g expected operation db] by (simp add: run_txn_inv)
qed

interpretation publication_sys: invariant_system "\<lambda>db. db = empty_publication" publication_step publication_inv
proof
  show "db = empty_publication \<Longrightarrow> publication_inv db" for db
    by (simp add: publication_inv_def empty_publication_def)
  show "publication_inv db \<Longrightarrow> publication_step db db' \<Longrightarrow> publication_inv db'" for db db'
    by (auto elim!: publication_step.cases intro: publication_run_inv)
qed

lemma accepted_frozen:
  assumes "publication_step db db'" and "find_candidate db g = Some c" and "cd_state c = ACCEPTED"
  shows "\<exists>c'. find_candidate db' g = Some c' \<and> cd_state c' = ACCEPTED \<and> (cd_manifest c', cd_base c') = (cd_manifest c, cd_base c)"
  using assms(1)
proof cases
  case (call k)
  show ?thesis
  proof (cases k)
    case (Register g' base ref)
    with call assms(2,3) show ?thesis
      by (auto simp: run_txn_def register_candidate_def find_candidate_def find_append_table split: option.splits)
  next
    case (Mark g' state err)
    with call assms(2,3) show ?thesis
      by (auto simp: run_txn_def mark_def find_candidate_def find_candidate_upd)
  next
    case (Activate g' expected operation)
    have "find_candidate (db\<lparr>pb_active := r, pb_candidates := upd_where (\<lambda>c. cd_generation c = g')
        (\<lambda>c. c\<lparr>cd_state := ACCEPTED, cd_error := None\<rparr>) (pb_candidates db), pb_activations := vs\<rparr>) g
        = Some (if cd_generation c = g' then c\<lparr>cd_state := ACCEPTED, cd_error := None\<rparr> else c)" for r vs
      using assms(2) by (simp add: find_candidate_def find_candidate_upd)
    with call assms(2,3) Activate show ?thesis
      by (auto simp: run_txn_def publication_activate_def Let_def)
  qed
qed

interpretation accepted_candidates: frozen_rows "\<lambda>db. db = empty_publication" publication_step publication_inv
  find_candidate "\<lambda>c. cd_state c = ACCEPTED" "\<lambda>c. (cd_manifest c, cd_base c)"
  by unfold_locales (rule accepted_frozen)

section \<open>Properties\<close>

text \<open>C8: the published generations form one linear history. In every reachable database the epoch is the number of
  activations, the log holds the epochs 1, 2, ... without gap or repetition, each activation expected exactly the state that
  the previous one left, the active generation is that of the last activation, and every generation that was ever active has
  an accepted candidate.\<close>

theorem publication_history_linear:
  assumes "reachable (\<lambda>db. db = empty_publication) publication_step db"
  shows "ap_epoch (pb_active db) = int (length (pb_activations db))
    \<and> map av_epoch (pb_activations db) = map (\<lambda>i. 1 + int i) [0..<length (pb_activations db)]
    \<and> linked \<lparr>ap_generation = None, ap_epoch = 0\<rparr> (pb_activations db) (pb_active db)
    \<and> (\<forall>v \<in> set (pb_activations db). accepted_generation db (av_generation v))"
proof -
  have inv: "publication_inv db" using assms by (rule publication_sys.reachable_inv)
  then have "linked \<lparr>ap_generation = None, ap_epoch = 0\<rparr> (pb_activations db) (pb_active db)" by (simp add: publication_inv_def)
  with linked_epochs [OF this] inv show ?thesis by (simp add: publication_inv_def)
qed

text \<open>An activation is fenced by its expected base. On a reachable database it never fails on the log; when it changes
  the database the base was the active publication and the epoch grows by one; a repetition of a successful activation on the
  resulting database returns the same result and changes nothing; and an activation that expects another epoch is refused as
  stale, also when the same generation is active again.\<close>

theorem activation_fenced:
  assumes "reachable (\<lambda>db. db = empty_publication) publication_step db"
  shows "(\<forall>r db'. publication_activate g expected operation db = Inr (r, db') \<longrightarrow> db' \<noteq> db \<longrightarrow>
        pb_active db = expected \<and> ap_epoch (pb_active db') = ap_epoch (pb_active db) + 1 \<and> ap_generation (pb_active db') = Some g)
    \<and> (\<forall>r db'. publication_activate g expected operation db = Inr (r, db') \<longrightarrow> publication_activate g expected operation db' = Inr (r, db'))
    \<and> (ap_epoch expected \<noteq> ap_epoch (pb_active db) \<and> ap_epoch expected + 1 \<noteq> ap_epoch (pb_active db) \<longrightarrow>
        publication_activate g expected operation db = Inl ''publication_stale_candidate'')
    \<and> publication_activate g expected operation db \<noteq> Inl ''publication_unavailable''"
proof -
  have inv: "publication_inv db" using assms by (rule publication_sys.reachable_inv)
  then have lk: "linked \<lparr>ap_generation = None, ap_epoch = 0\<rparr> (pb_activations db) (pb_active db)" by (simp add: publication_inv_def)
  note none = no_logged_epoch [OF lk]
  have again: "publication_activate g expected operation db' = Inr (r, db')" if a: "publication_activate g expected operation db = Inr (r, db')" for r db'
    using activate_result [OF a inv]
  proof (elim disjE conjE)
    assume e: "pb_active db = expected" and r: "r = \<lparr>ap_generation = Some g, ap_epoch = ap_epoch expected + 1\<rparr>"
      and db': "db' = db\<lparr>pb_active := r,
        pb_candidates := upd_where (\<lambda>c. cd_generation c = g) (\<lambda>c. c\<lparr>cd_state := ACCEPTED, cd_error := None\<rparr>) (pb_candidates db),
        pb_activations := pb_activations db @ [\<lparr>av_epoch = ap_epoch r, av_generation = g, av_expected = expected, av_operation = operation\<rparr>]\<rparr>"
    have "find_activation db (ap_epoch expected + 1) = None" using none e by simp
    then have "replayed g expected operation db'"
      by (simp add: replayed_def db' r find_activation_def find_append_table)
    moreover have "pb_active db' = r" by (simp add: db')
    ultimately show ?thesis by (simp add: publication_activate_def)
  qed (use a in simp)
  have "db' \<noteq> db \<longrightarrow> pb_active db = expected \<and> ap_epoch (pb_active db') = ap_epoch (pb_active db) + 1 \<and> ap_generation (pb_active db') = Some g"
    if "publication_activate g expected operation db = Inr (r, db')" for r db'
    using activate_result [OF that inv] by (elim disjE conjE) simp_all
  moreover have "ap_epoch expected \<noteq> ap_epoch (pb_active db) \<and> ap_epoch expected + 1 \<noteq> ap_epoch (pb_active db) \<longrightarrow>
      publication_activate g expected operation db = Inl ''publication_stale_candidate''"
    by (auto simp: publication_activate_def replayed_def publication_error_def publication_categories_def)
  moreover have "publication_activate g expected operation db \<noteq> Inl ''publication_unavailable''"
    using none by (auto simp: publication_activate_def Let_def publication_error_def publication_categories_def)
  ultimately show ?thesis using again by blast
qed

definition sample_publication_ref :: object_ref where
  "sample_publication_ref = \<lparr>or_scope = \<lparr>tenant = 1, owner = 2\<rparr>, or_kind = Artifact, or_object_id = 5, or_key = 6, or_sha256 = [], or_byte_size = 2\<rparr>"

definition sample_published :: publication_db where
  "sample_published = publication_run (Activate 5 \<lparr>ap_generation = None, ap_epoch = 0\<rparr> Forward)
     (publication_run (Mark 5 READY None) (publication_run (Register 5 \<lparr>ap_generation = None, ap_epoch = 0\<rparr> sample_publication_ref) empty_publication))"

lemma sample_published_reachable: "reachable (\<lambda>db. db = empty_publication) publication_step sample_published"
  unfolding sample_published_def
  by (rule reachable.step, rule reachable.step, rule reachable.step, rule reachable.start, rule refl) (rule publication_step.call)+

lemma sample_published_value: "sample_published = \<lparr>pb_active = \<lparr>ap_generation = Some 5, ap_epoch = 1\<rparr>,
   pb_candidates = [\<lparr>cd_generation = 5, cd_manifest = sample_publication_ref, cd_base = \<lparr>ap_generation = None, ap_epoch = 0\<rparr>,
     cd_state = ACCEPTED, cd_error = None\<rparr>],
   pb_activations = [\<lparr>av_epoch = 1, av_generation = 5, av_expected = \<lparr>ap_generation = None, ap_epoch = 0\<rparr>, av_operation = Forward\<rparr>]\<rparr>"
  by (simp add: sample_published_def run_txn_def register_candidate_def mark_def publication_activate_def empty_publication_def find_candidate_def
      find_activation_def replayed_def activatable_def Let_def)

theorem publication_history_linear_witness: "map av_epoch (pb_activations sample_published) = [1]"
  using publication_history_linear [OF sample_published_reachable] by (simp add: sample_published_value)

theorem activation_fenced_witness:
  "publication_activate 5 \<lparr>ap_generation = Some 5, ap_epoch = 7\<rparr> Rollback sample_published = Inl ''publication_stale_candidate''"
  using activation_fenced [OF sample_published_reachable, of 5 "\<lparr>ap_generation = Some 5, ap_epoch = 7\<rparr>" Rollback]
  by (simp add: sample_published_value)

end
