(* ===== verification/PublicationPlan.thy ===== *)
theory PublicationPlan
  imports DigestValidation Publication
begin

text \<open>
  The publication contracts of documents/publication/models.py, the retrieval encoder of
  documents/publication/encoding.py and the publication planner of documents/publication/planning.py.
  The tokenizer and the embedding model are the functions \<open>count\<close> and \<open>vector\<close>; the re-validation
  of an accepted digestion job is the argument \<open>accepted\<close> of the planner.
\<close>

section \<open>Contracts\<close>

record retrieval_profile =
  rp_version :: string
  rp_embedding_model :: string
  rp_embedding_revision :: string
  rp_dimension :: int
  rp_max_tokens :: int
  rp_max_characters :: int

definition retrieval_profile_valid :: "retrieval_profile \<Rightarrow> bool" where
  "retrieval_profile_valid p \<longleftrightarrow> list_all (token_text 128) [rp_version p, rp_embedding_model p, rp_embedding_revision p]
     \<and> 0 < rp_dimension p \<and> 8 \<le> rp_max_tokens p \<and> rp_max_tokens p \<le> 240 \<and> 8 \<le> rp_max_characters p \<and> rp_max_characters p \<le> 4096"

definition retrieval_profile_json :: "retrieval_profile \<Rightarrow> json" where
  "retrieval_profile_json p = JObj [(''version'', JStr (rp_version p)), (''embedding_model'', JStr (rp_embedding_model p)),
     (''embedding_revision'', JStr (rp_embedding_revision p)), (''dimension'', JInt (rp_dimension p)), (''normalized'', JBool True),
     (''max_tokens'', JInt (rp_max_tokens p)), (''max_characters'', JInt (rp_max_characters p)),
     (''provenance_schema'', JStr ''evidence/1''), (''publication_schema'', JStr ''publication/1'')]"

definition retrieval_profile_digest :: "prims \<Rightarrow> retrieval_profile \<Rightarrow> string" where
  "retrieval_profile_digest H p = fingerprint H (retrieval_profile_json p)"

definition active_json :: "active_publication \<Rightarrow> json" where
  "active_json a = JObj [(''generation'', opt_json uuid_json (ap_generation a)), (''epoch'', JInt (ap_epoch a))]"

record accepted_document =
  ad_pub_scope :: scope
  ad_job_id :: uuid
  ad_pub_document :: uuid
  ad_pub_version :: uuid
  ad_pub_extraction_id :: uuid
  ad_extraction :: object_ref
  ad_digest :: object_ref

record retrieval_record =
  rr_record_id :: uuid
  rr_document_id :: uuid
  rr_version_id :: uuid
  rr_extraction_id :: uuid
  rr_text :: code_points
  rr_evidence :: evidence_ref
  rr_path :: "code_points list"
  rr_source_kind :: string
  rr_uninterpreted :: bool
  rr_profile :: string

definition record_fields :: "retrieval_record \<Rightarrow> (string \<times> json) list" where
  "record_fields r = [(''document_id'', uuid_json (rr_document_id r)), (''document_version_id'', uuid_json (rr_version_id r)),
     (''extraction_id'', uuid_json (rr_extraction_id r)), (''material'', JStr ''SOURCE_TEXT''), (''classification'', JStr ''ORIGINAL''),
     (''text'', JText (rr_text r)), (''evidence'', evidence_json (rr_evidence r)), (''structural_path'', JArr (map JText (rr_path r))),
     (''source_kind'', JStr (rr_source_kind r)),
     (''limitation'', JStr (if rr_uninterpreted r then ''uninterpreted_visual'' else ''none'')), (''profile'', JStr (rr_profile r))]"

definition record_identity :: "prims \<Rightarrow> retrieval_record \<Rightarrow> uuid" where
  "record_identity H r = stable_id H [''retrieval-record/1'', fingerprint H (JObj (record_fields r))]"

definition record_valid :: "prims \<Rightarrow> retrieval_record \<Rightarrow> bool" where
  "record_valid H r \<longleftrightarrow> 1 \<le> length (rr_text r) \<and> length (rr_text r) \<le> 4096 \<and> length (rr_path r) \<le> 32 \<and> length (rr_source_kind r) \<le> 32
     \<and> span_valid (ev_span (rr_evidence r)) \<and> digest_text (rr_profile r)
     \<and> rr_record_id r = record_identity H r \<and> rr_version_id r = ev_version_id (rr_evidence r)
     \<and> rr_extraction_id r = ev_extraction_id (rr_evidence r)"

record publication_manifest =
  pm_generation :: uuid
  pm_scope :: scope
  pm_base :: active_publication
  pm_profile :: retrieval_profile
  pm_documents :: "accepted_document list"
  pm_records :: "retrieval_record list"
  pm_removed :: "uuid list"

text \<open>The payload under the generation: the documents without the identifier of the job that produced them.\<close>

definition document_fields :: "accepted_document \<Rightarrow> json" where
  "document_fields d = JObj [(''scope'', scope_json (ad_pub_scope d)), (''document_id'', uuid_json (ad_pub_document d)),
     (''document_version_id'', uuid_json (ad_pub_version d)), (''extraction_id'', uuid_json (ad_pub_extraction_id d)),
     (''extraction'', ref_json (ad_extraction d)), (''digest'', ref_json (ad_digest d)), (''status'', JStr ''COMPLETE'')]"

definition manifest_payload :: "publication_manifest \<Rightarrow> json" where
  "manifest_payload m = JObj [(''schema_version'', JStr ''publication/1''), (''scope'', scope_json (pm_scope m)), (''base'', active_json (pm_base m)),
     (''profile'', retrieval_profile_json (pm_profile m)), (''documents'', JArr (map document_fields (pm_documents m))),
     (''records'', JArr (map (\<lambda>r. JObj ((''record_id'', uuid_json (rr_record_id r)) # record_fields r)) (pm_records m))),
     (''removed_versions'', JArr (map uuid_json (pm_removed m))), (''policy'', JStr ''COMPLETE_ONLY'')]"

definition manifest_identity :: "prims \<Rightarrow> publication_manifest \<Rightarrow> uuid" where
  "manifest_identity H m = stable_id H [''publication/1'', fingerprint H (manifest_payload m)]"

definition publication_manifest_valid :: "prims \<Rightarrow> publication_manifest \<Rightarrow> bool" where
  "publication_manifest_valid H m \<longleftrightarrow> list_all (record_valid H) (pm_records m)
     \<and> distinct (map ad_pub_document (pm_documents m)) \<and> pm_generation m = manifest_identity H m \<and> distinct (map rr_record_id (pm_records m))
     \<and> list_all (\<lambda>d. ad_pub_scope d = pm_scope m \<and> or_scope (ad_extraction d) = pm_scope m \<and> or_scope (ad_digest d) = pm_scope m) (pm_documents m)
     \<and> list_all (\<lambda>r. case find (\<lambda>d. ad_pub_document d = rr_document_id r) (pm_documents m) of None \<Rightarrow> False
         | Some d \<Rightarrow> ev_scope (rr_evidence r) = pm_scope m \<and> rr_profile r = retrieval_profile_digest H (pm_profile m)
             \<and> rr_version_id r = ad_pub_version d \<and> rr_extraction_id r = ad_pub_extraction_id d) (pm_records m)
     \<and> set (map ad_pub_document (pm_documents m)) = set (map rr_document_id (pm_records m))"

datatype publication_exception = Publication_failure string | Publication_other

definition record_values :: "prims \<Rightarrow> retrieval_record \<Rightarrow> publication_exception + retrieval_record" where
  "record_values H draft = (let r = draft\<lparr>rr_record_id := record_identity H draft\<rparr> in if record_valid H r then Inr r else Inl Publication_other)"

definition manifest_values :: "prims \<Rightarrow> publication_manifest \<Rightarrow> publication_exception + publication_manifest" where
  "manifest_values H draft = (let m = draft\<lparr>pm_generation := manifest_identity H draft\<rparr> in if publication_manifest_valid H m then Inr m else Inl Publication_other)"

definition vector_metadata :: "publication_manifest \<Rightarrow> retrieval_record \<Rightarrow> (string \<times> string) list" where
  "vector_metadata m r = [(''generation'', uuid_text (pm_generation m)), (''record_id'', uuid_text (rr_record_id r)),
     (''document_id'', uuid_text (rr_document_id r)), (''version'', uuid_text (rr_version_id r)), (''material'', ''SOURCE_TEXT''),
     (''classification'', ''ORIGINAL''), (''profile'', rr_profile r), (''source'', uuid_text (rr_document_id r)),
     (''chunk_id'', uuid_text (rr_record_id r))]"

definition physical_id :: "prims \<Rightarrow> uuid \<Rightarrow> uuid \<Rightarrow> string" where
  "physical_id H generation record_id = uuid_text (stable_id H [''publication-vector/1'', uuid_text generation, uuid_text record_id])"

section \<open>The encoder\<close>

definition validate_text :: "(code_points \<Rightarrow> int) \<Rightarrow> retrieval_profile \<Rightarrow> code_points \<Rightarrow> publication_exception + unit" where
  "validate_text count p t =
     (if t = [] \<or> rp_max_characters p < int (length t) \<or> rp_max_tokens p < count t then Inl (Publication_failure ''embedding_limit'') else Inr ())"

text \<open>The inner loop of \<^verbatim>\<open>split\<close>: the end is halved towards the start until the piece is within the token limit.\<close>

function halve :: "(code_points \<Rightarrow> int) \<Rightarrow> retrieval_profile \<Rightarrow> code_points \<Rightarrow> nat \<Rightarrow> nat \<Rightarrow> publication_exception + nat" where
  "halve count p t start fin =
     (if count (take (fin - start) (drop start t)) \<le> rp_max_tokens p then Inr fin
      else let fin' = start + (fin - start) div 2 in
        if fin' \<le> start then Inl (Publication_failure ''embedding_limit'') else halve count p t start fin')"
  by pat_completeness auto

termination halve
  by (relation "measure (\<lambda>(count, p, t, start, fin). fin - start)") auto

declare halve.simps [simp del]

lemma halve_result:
  assumes "halve count p t start fin = Inr e"
  shows "e \<le> max fin start \<and> (start < fin \<longrightarrow> start < e \<and> e \<le> fin) \<and> count (take (e - start) (drop start t)) \<le> rp_max_tokens p"
  using assms
proof (induction count p t start fin rule: halve.induct)
  case (1 count p t start fin)
  show ?case
  proof (cases "count (take (fin - start) (drop start t)) \<le> rp_max_tokens p")
    case True
    with 1(2) have "e = fin" by (subst (asm) halve.simps) simp
    with True show ?thesis by simp
  next
    case False
    with 1(2) have f: "\<not> start + (fin - start) div 2 \<le> start" "halve count p t start (start + (fin - start) div 2) = Inr e"
      by (subst (asm) halve.simps; simp add: Let_def split: if_splits)+
    from 1(1) [OF False refl f] f(1) show ?thesis by auto
  qed
qed

lemma halve_succeeds:
  assumes "start < fin" "fin \<le> length t" "\<And>x. count [x] \<le> rp_max_tokens p"
  shows "\<exists>e. halve count p t start fin = Inr e"
  using assms
proof (induction count p t start fin rule: halve.induct)
  case (1 count p t start fin)
  show ?case
  proof (cases "count (take (fin - start) (drop start t)) \<le> rp_max_tokens p")
    case True
    then show ?thesis by (subst halve.simps) simp
  next
    case False
    have "fin - start \<noteq> 1"
    proof
      assume "fin - start = 1"
      with 1(2,3) have "take (fin - start) (drop start t) = [t ! start]" by (simp add: take_Suc_conv_app_nth)
      with False 1(4) show False by simp
    qed
    with 1(2) have f: "\<not> start + (fin - start) div 2 \<le> start" by simp
    with 1(1) [OF False refl f] 1(3,4) 1(2) False show ?thesis by (subst halve.simps) (auto simp: Let_def)
  qed
qed

text \<open>The generator \<^verbatim>\<open>split\<close> as the list of what it yields. A profile is validated to allow at least eight
  characters; the first branch is never taken.\<close>

function split_from :: "(code_points \<Rightarrow> int) \<Rightarrow> retrieval_profile \<Rightarrow> code_points \<Rightarrow> nat
    \<Rightarrow> publication_exception + (nat \<times> nat \<times> code_points) list" where
  "split_from count p t start =
     (if rp_max_characters p \<le> 0 then Inl Publication_other
      else if length t \<le> start then Inr []
      else sbind (halve count p t start (min (length t) (start + nat (rp_max_characters p)))) (\<lambda>e.
        sbind (split_from count p t e) (\<lambda>rest. Inr ((start, e, take (e - start) (drop start t)) # rest))))"
  by pat_completeness auto

termination split_from
proof (relation "measure (\<lambda>(count, p, t, start). length t - start)", goal_cases)
  case (2 count p t start e)
  with halve_result [OF 2(3)] show ?case by auto
qed simp

declare split_from.simps [simp del]

definition split_text :: "(code_points \<Rightarrow> int) \<Rightarrow> retrieval_profile \<Rightarrow> code_points \<Rightarrow> publication_exception + (nat \<times> nat \<times> code_points) list" where
  "split_text count p t = split_from count p t 0"

text \<open>\<^verbatim>\<open>embed\<close>: the model returns a list of numbers, \<open>None\<close> standing for one that is not finite.\<close>

definition embed :: "(code_points \<Rightarrow> int) \<Rightarrow> (code_points \<Rightarrow> rat option list) \<Rightarrow> retrieval_profile \<Rightarrow> code_points \<Rightarrow> publication_exception + rat option list" where
  "embed count vector p t = sbind (validate_text count p t) (\<lambda>_.
     if int (length (vector t)) \<noteq> rp_dimension p \<or> list_ex (\<lambda>x. x = None) (vector t) then Inl (Publication_failure ''publication_write_failure'')
     else Inr (vector t))"

section \<open>Records of a document\<close>

text \<open>\<^verbatim>\<open>VerifyOnlyStore.put\<close>: the reference that a put would return, the data kept in memory.\<close>

definition verify_put :: "prims \<Rightarrow> (bytes \<Rightarrow> string) \<Rightarrow> scope \<Rightarrow> object_kind \<Rightarrow> uuid \<Rightarrow> bytes \<Rightarrow> int \<Rightarrow> (string, bytes list, object_ref) txn" where
  "verify_put H sha sc kind oid stream m produced =
     (let data = fst (py_read (m + 1) stream) in
      if m < int (length data) then Inl (publication_error ''publication_invalid_input'')
      else Inr (put_ref H sha sc kind oid data, produced @ [data]))"

definition piece_evidence :: "artifact \<Rightarrow> accepted_document \<Rightarrow> text_unit \<Rightarrow> block \<Rightarrow> nat \<times> nat \<times> code_points \<Rightarrow> evidence_ref" where
  "piece_evidence a d u b = (\<lambda>(s, e, t).
     let start = int s + sn_start (bk_span b);
         line = map_option (\<lambda>ls. 1 + int (bisect_left ls start)) (map_of (line_index a) (tu_source_id u)) in
     \<lparr>ev_scope = ad_pub_scope d, ev_version_id = ad_pub_version d, ev_extraction_id = ad_pub_extraction_id d,
      ev_source_id = tu_source_id u, ev_block_id = bk_block_id b,
      ev_span = \<lparr>sn_start = start, sn_end = int e + sn_start (bk_span b), sn_line_start = line,
        sn_line_end = map_option (\<lambda>l. l + int (count_nl (rstrip_nl t))) line\<rparr>\<rparr>)"

definition structural_owners :: "plan \<Rightarrow> (uuid \<times> code_points list) list" where
  "structural_owners pl = dict_of (concat (map (\<lambda>u. map (\<lambda>k. (k, su_path u)) (su_blocks u)) (sm_units (pl_structure pl))))"

definition make_record :: "prims \<Rightarrow> artifact \<Rightarrow> accepted_document \<Rightarrow> plan \<Rightarrow> retrieval_profile \<Rightarrow> text_unit \<Rightarrow> block \<Rightarrow> nat \<times> nat \<times> code_points
    \<Rightarrow> publication_exception + retrieval_record" where
  "make_record H a d pl p u b piece =
     (let evidence = piece_evidence a d u b piece; t = snd (snd piece) in
      if \<not> span_valid (ev_span evidence) then Inl Publication_other
      else case index_resolve a evidence of Inl _ \<Rightarrow> Inl Publication_other
        | Inr text \<Rightarrow>
          if text \<noteq> t then Inl (Publication_failure ''provenance_invalid'')
          else record_values H \<lparr>rr_record_id = 0, rr_document_id = ad_pub_document d, rr_version_id = ad_pub_version d,
            rr_extraction_id = ad_pub_extraction_id d, rr_text = t, rr_evidence = evidence,
            rr_path = (case map_of (structural_owners pl) (bk_block_id b) of None \<Rightarrow> [] | Some path \<Rightarrow> path),
            rr_source_kind = block_kind_text (bk_kind b), rr_uninterpreted = (bk_kind b \<in> {B_table, B_figure}),
            rr_profile = retrieval_profile_digest H p\<rparr>)"

definition block_records :: "prims \<Rightarrow> (code_points \<Rightarrow> int) \<Rightarrow> artifact \<Rightarrow> accepted_document \<Rightarrow> digest_artifact \<Rightarrow> plan \<Rightarrow> retrieval_profile
    \<Rightarrow> text_unit \<times> block \<Rightarrow> retrieval_record list \<Rightarrow> publication_exception + retrieval_record list" where
  "block_records H count a d dg pl p ub rs =
     (if bk_block_id (snd ub) \<notin> set (cv_included (da_coverage dg)) then Inr rs
      else sbind (split_text count p (bk_source_text (snd ub))) (\<lambda>pieces.
        fold_sum (\<lambda>x rs. sbind (make_record H a d pl p (fst ub) (snd ub) x) (\<lambda>r. Inr (rs @ [r]))) pieces rs))"

definition document_records :: "prims \<Rightarrow> (code_points \<Rightarrow> int) \<Rightarrow> artifact \<Rightarrow> accepted_document \<Rightarrow> digest_artifact \<Rightarrow> plan \<Rightarrow> retrieval_profile
    \<Rightarrow> publication_exception + retrieval_record list" where
  "document_records H count a d dg pl p = fold_sum (block_records H count a d dg pl p) (inventory a) []"

section \<open>The publication plan\<close>

text \<open>Job identifiers are visited in the order of their text, each once.\<close>

definition plan_publication :: "prims \<Rightarrow> (code_points \<Rightarrow> int)
    \<Rightarrow> (uuid \<Rightarrow> publication_exception + (accepted_document \<times> artifact \<times> digest_artifact \<times> plan)) \<Rightarrow> scope \<Rightarrow> uuid list
    \<Rightarrow> active_publication \<Rightarrow> retrieval_profile \<Rightarrow> publication_manifest option \<Rightarrow> publication_exception + publication_manifest" where
  "plan_publication H count accepted sc job_ids base p previous =
     sbind (fold_sum (\<lambda>k (docs, rows). sbind (accepted k) (\<lambda>(d, a, dg, pl).
         sbind (document_records H count a d dg pl p) (\<lambda>rs. Inr (docs @ [d], rows @ rs)))) (sort_key uuid_text (remdups job_ids)) ([], []))
       (\<lambda>(docs, rows).
     let docs' = sort_key (\<lambda>d. uuid_text (ad_pub_document d)) docs;
         rows' = sort_key (\<lambda>r. uuid_text (rr_document_id r)) rows;
         removed = (case previous of None \<Rightarrow> []
           | Some m \<Rightarrow> sort_key uuid_text (filter (\<lambda>v. v \<notin> set (map ad_pub_version docs)) (remdups (map ad_pub_version (pm_documents m)))))
     in manifest_values H \<lparr>pm_generation = 0, pm_scope = sc, pm_base = base, pm_profile = p, pm_documents = docs', pm_records = rows', pm_removed = removed\<rparr>)"

section \<open>Splitting is exact\<close>

fun contiguous :: "nat \<Rightarrow> (nat \<times> nat \<times> code_points) list \<Rightarrow> nat \<Rightarrow> bool" where
  "contiguous s [] e \<longleftrightarrow> s = e"
| "contiguous s ((a, b, t) # rest) e \<longleftrightarrow> a = s \<and> a < b \<and> contiguous b rest e"

lemma split_from_exact:
  assumes "split_from count p t start = Inr ps" and "start \<le> length t"
  shows "contiguous start ps (length t) \<and> concat (map (\<lambda>(a, b, x). x) ps) = drop start t
     \<and> (\<forall>(a, b, x) \<in> set ps. x = take (b - a) (drop a t) \<and> a < b \<and> b \<le> length t
          \<and> int (b - a) \<le> rp_max_characters p \<and> count x \<le> rp_max_tokens p)"
  using assms
proof (induction count p t start arbitrary: ps rule: split_from.induct)
  case (1 count p t start)
  show ?case
  proof (cases "length t \<le> start")
    case True
    with 1(2,3) show ?thesis by (subst (asm) split_from.simps) (auto split: if_splits)
  next
    case False
    with 1(2) obtain e rest where e: "0 < rp_max_characters p"
      "halve count p t start (min (length t) (start + nat (rp_max_characters p))) = Inr e"
      "split_from count p t e = Inr rest" "ps = (start, e, take (e - start) (drop start t)) # rest"
      by (subst (asm) split_from.simps) (auto simp: txn_simps split: if_splits)
    have b: "start < e" "e \<le> length t" "e - start \<le> nat (rp_max_characters p)" "count (take (e - start) (drop start t)) \<le> rp_max_tokens p"
      using halve_result [OF e(2)] False e(1) by auto
    have "take (e - start) (drop start t) @ drop e t = drop start t"
      using b(1) by (metis append_take_drop_id drop_drop le_add_diff_inverse2 less_imp_le)
    moreover have "int (e - start) \<le> rp_max_characters p" using b(3) e(1) by simp
    ultimately show ?thesis
      using 1(1) [OF _ False e(2,3)] e(1,4) b by auto
  qed
qed

lemma split_from_succeeds:
  assumes "0 < rp_max_characters p" and "\<And>x. count [x] \<le> rp_max_tokens p"
  shows "\<exists>ps. split_from count p t start = Inr ps"
  using assms
proof (induction count p t start rule: split_from.induct)
  case (1 count p t start)
  show ?case
  proof (cases "length t \<le> start")
    case True
    with 1(2) show ?thesis by (subst split_from.simps) simp
  next
    case False
    with 1(2) have "\<exists>e. halve count p t start (min (length t) (start + nat (rp_max_characters p))) = Inr e"
      by (intro halve_succeeds 1(3)) auto
    then obtain e where e: "halve count p t start (min (length t) (start + nat (rp_max_characters p))) = Inr e" by blast
    have "\<not> rp_max_characters p \<le> 0" using 1(2) by simp
    from 1(1) [OF this False e 1(2,3)] obtain rest where "split_from count p t e = Inr rest" by blast
    with e False 1(2) show ?thesis by (subst split_from.simps) simp
  qed
qed

text \<open>C33: the retrieval encoder splits text exactly and always ends. Whenever every single character is within the token
  limit of a valid profile, the split returns; the pieces it returns are contiguous from the first to the last character, are
  not empty, concatenate to the text, and each is within the character and the token limit, whatever the tokenizer counts.\<close>

theorem encoder_split_exact:
  assumes "retrieval_profile_valid p" and "\<And>x. count [x] \<le> rp_max_tokens p"
  shows "\<exists>ps. split_text count p t = Inr ps \<and> contiguous 0 ps (length t) \<and> concat (map (\<lambda>(a, b, x). x) ps) = t
     \<and> list_all (\<lambda>(a, b, x). x \<noteq> [] \<and> validate_text count p x = Inr ()) ps"
proof -
  have pos: "0 < rp_max_characters p" using assms(1) by (simp add: retrieval_profile_valid_def)
  from split_from_succeeds [where count = count and p = p and t = t and start = 0, OF pos] assms(2)
  obtain ps where ps: "split_text count p t = Inr ps" unfolding split_text_def by blast
  note e = split_from_exact [OF ps [unfolded split_text_def]]
  have "list_all (\<lambda>(a, b, x). x \<noteq> [] \<and> validate_text count p x = Inr ()) ps"
    using e by (fastforce simp: list_all_iff validate_text_def)
  with ps e show ?thesis by auto
qed

theorem encoder_split_exact_witness:
  "\<exists>ps. split_text (\<lambda>x. int (length x)) \<lparr>rp_version = ''v'', rp_embedding_model = ''m'', rp_embedding_revision = ''r'', rp_dimension = 384,
      rp_max_tokens = 8, rp_max_characters = 16\<rparr> [1, 2, 3] = Inr ps \<and> concat (map (\<lambda>(a, b, x). x) ps) = [1, 2, 3]"
proof -
  let ?p = "\<lparr>rp_version = ''v'', rp_embedding_model = ''m'', rp_embedding_revision = ''r'', rp_dimension = 384, rp_max_tokens = 8, rp_max_characters = 16\<rparr>"
  have "retrieval_profile_valid ?p" by (simp add: retrieval_profile_valid_def token_text_def token_char_def)
  from encoder_split_exact [OF this, of "\<lambda>x. int (length x)" "[1, 2, 3]"] show ?thesis by auto
qed

end
