(* ===== verification/PublicationTheorems.thy ===== *)
theory PublicationTheorems
  imports PublicationPlan DigestTheorems
begin

text \<open>
  What a published document carries: the records are the exact source text of the blocks that the
  digest includes, each with evidence that resolves in the artifact; the manifest does not depend on
  the order in which the jobs are named.
\<close>

section \<open>Records\<close>

definition record_exact :: "prims \<Rightarrow> (code_points \<Rightarrow> int) \<Rightarrow> retrieval_profile \<Rightarrow> artifact \<Rightarrow> retrieval_record \<Rightarrow> bool" where
  "record_exact H count p a r \<longleftrightarrow> record_valid H r \<and> index_resolve a (rr_evidence r) = Inr (rr_text r) \<and> validate_text count p (rr_text r) = Inr ()"

lemma record_values_fields:
  assumes "record_values H draft = Inr r"
  shows "record_valid H r \<and> rr_text r = rr_text draft \<and> rr_evidence r = rr_evidence draft"
  using assms by (auto simp: record_values_def Let_def split: if_splits)

lemma make_record_fields:
  assumes "make_record H a d pl p u b x = Inr r"
  shows "record_valid H r \<and> rr_text r = snd (snd x) \<and> index_resolve a (rr_evidence r) = Inr (snd (snd x))"
  using assms
  by (auto simp: make_record_def Let_def split: if_splits sum.splits dest!: record_values_fields)

lemma piece_records:
  assumes "fold_sum (\<lambda>x rs. sbind (make_record H a d pl p u b x) (\<lambda>r. Inr (rs @ [r]))) xs rs = Inr rs'"
    and "list_all (\<lambda>x. validate_text count p (snd (snd x)) = Inr ()) xs"
  shows "\<exists>new. rs' = rs @ new \<and> map rr_text new = map (\<lambda>x. snd (snd x)) xs \<and> list_all (record_exact H count p a) new"
  using assms
proof (induction xs arbitrary: rs)
  case (Cons x xs)
  then obtain r where r: "make_record H a d pl p u b x = Inr r"
    "fold_sum (\<lambda>x rs. sbind (make_record H a d pl p u b x) (\<lambda>r. Inr (rs @ [r]))) xs (rs @ [r]) = Inr rs'"
    by (auto simp: txn_simps)
  from Cons.IH [OF r(2)] Cons.prems(2) obtain new where
    "rs' = (rs @ [r]) @ new" "map rr_text new = map (\<lambda>x. snd (snd x)) xs" "list_all (record_exact H count p a) new" by auto
  with make_record_fields [OF r(1)] Cons.prems(2) show ?case
    by (intro exI [of _ "r # new"]) (auto, simp add: record_exact_def)
qed simp

lemma split_text_pieces:
  assumes "split_text count p t = Inr ps"
  shows "concat (map (\<lambda>x. snd (snd x)) ps) = t" "list_all (\<lambda>x. validate_text count p (snd (snd x)) = Inr ()) ps"
proof -
  note e = split_from_exact [OF assms [unfolded split_text_def], simplified]
  show "concat (map (\<lambda>x. snd (snd x)) ps) = t" using e by (simp add: case_prod_unfold)
  show "list_all (\<lambda>x. validate_text count p (snd (snd x)) = Inr ()) ps"
    using e by (fastforce simp: list_all_iff validate_text_def)
qed

lemma block_records_exact:
  assumes "block_records H count a d dg pl p ub rs = Inr rs'"
  shows "\<exists>new. rs' = rs @ new \<and> list_all (record_exact H count p a) new
    \<and> concat (map rr_text new) = (if bk_block_id (snd ub) \<in> set (cv_included (da_coverage dg)) then bk_source_text (snd ub) else [])"
proof (cases "bk_block_id (snd ub) \<in> set (cv_included (da_coverage dg))")
  case True
  with assms obtain ps where ps: "split_text count p (bk_source_text (snd ub)) = Inr ps"
    "fold_sum (\<lambda>x rs. sbind (make_record H a d pl p (fst ub) (snd ub) x) (\<lambda>r. Inr (rs @ [r]))) ps rs = Inr rs'"
    by (auto simp: block_records_def txn_simps)
  from piece_records [OF ps(2) split_text_pieces(2) [OF ps(1)]] split_text_pieces(1) [OF ps(1)] True show ?thesis by auto
qed (use assms in \<open>auto simp: block_records_def\<close>)

lemma records_fold:
  assumes "fold_sum (block_records H count a d dg pl p) ubs rs = Inr rs'"
  shows "\<exists>new. rs' = rs @ new \<and> list_all (record_exact H count p a) new \<and> concat (map rr_text new)
    = concat (map bk_source_text (filter (\<lambda>b. bk_block_id b \<in> set (cv_included (da_coverage dg))) (map snd ubs)))"
  using assms
proof (induction ubs arbitrary: rs)
  case (Cons ub ubs)
  then obtain t where t: "block_records H count a d dg pl p ub rs = Inr t" "fold_sum (block_records H count a d dg pl p) ubs t = Inr rs'"
    by (auto simp: txn_simps)
  from block_records_exact [OF t(1)] Cons.IH [OF t(2)] obtain n1 n2 where
    "t = rs @ n1" "list_all (record_exact H count p a) n1"
    "concat (map rr_text n1) = (if bk_block_id (snd ub) \<in> set (cv_included (da_coverage dg)) then bk_source_text (snd ub) else [])"
    "rs' = t @ n2" "list_all (record_exact H count p a) n2"
    "concat (map rr_text n2) = concat (map bk_source_text (filter (\<lambda>b. bk_block_id b \<in> set (cv_included (da_coverage dg))) (map snd ubs)))"
    by blast
  then show ?case by (intro exI [of _ "n1 @ n2"]) simp
qed simp

text \<open>The records of a published document are its source. Their texts, in order, are exactly the source texts of the blocks
  that the coverage of the digest includes, in reading order; every record is valid, its evidence resolves in the artifact
  to its text, and its text is within the limits of the encoder.\<close>

theorem published_records_exact:
  assumes "document_records H count a d dg pl p = Inr rs"
  shows "concat (map rr_text rs)
      = concat (map bk_source_text (filter (\<lambda>b. bk_block_id b \<in> set (cv_included (da_coverage dg))) (all_blocks a)))
    \<and> list_all (record_exact H count p a) rs"
  using records_fold [OF assms [unfolded document_records_def]] by (simp add: inventory_blocks)

section \<open>The order of the jobs\<close>

lemma sort_key_same_set:
  assumes "inj f" and "set xs = set ys"
  shows "sort_key f (remdups xs) = sort_key f (remdups ys)"
proof -
  have "sorted (map f (sort_key f (remdups zs))) \<and> distinct (map f (sort_key f (remdups zs)))" for zs
    using assms(1) by (auto simp: distinct_map intro: inj_on_subset)
  moreover have "set (map f (sort_key f (remdups xs))) = set (map f (sort_key f (remdups ys)))" using assms(2) by simp
  ultimately have "map f (sort_key f (remdups xs)) = map f (sort_key f (remdups ys))"
    by (metis sorted_distinct_set_unique)
  then show ?thesis using assms(1) by (metis inj_map_eq_map)
qed

lemma uuid_text_injective: "inj uuid_text"
  by (rule injI) (rule uuid_text_inj)

lemma plan_publication_job_set:
  assumes "set ks = set ls"
  shows "plan_publication H count accepted sc ks base p previous = plan_publication H count accepted sc ls base p previous"
  unfolding plan_publication_def using sort_key_same_set [OF uuid_text_injective assms] by simp

lemma plan_publication_valid:
  assumes "plan_publication H count accepted sc ks base p previous = Inr m"
  shows "publication_manifest_valid H m" "pm_base m = base" "pm_scope m = sc"
  using assms by (auto simp: plan_publication_def txn_simps Let_def manifest_values_def split: if_splits)

section \<open>A concrete document\<close>

definition sample_accepted :: accepted_document where
  "sample_accepted = \<lparr>ad_pub_scope = \<lparr>tenant = 1, owner = 2\<rparr>, ad_job_id = 4, ad_pub_document = 3, ad_pub_version = 7, ad_pub_extraction_id = 7,
     ad_extraction = sample_publication_ref, ad_digest = sample_publication_ref\<rparr>"

definition sample_retrieval :: retrieval_profile where
  "sample_retrieval = \<lparr>rp_version = ''v'', rp_embedding_model = ''m'', rp_embedding_revision = ''r'', rp_dimension = 384,
     rp_max_tokens = 8, rp_max_characters = 16\<rparr>"

definition sample_digest_artifact :: digest_artifact where
  "sample_digest_artifact = \<lparr>da_version_id = 7, da_extraction = sample_publication_ref, da_plan = sample_publication_ref, da_profile = sample_hex,
     da_status = D_COMPLETE, da_executive_summary = [104], da_root = 9, da_sections = [], da_findings = [], da_synthesis_claims = [],
     da_qualifications = [], da_contradictions = [], da_open_questions = [], da_coverage = make_coverage sample_plan [7],
     da_limitations = [], da_evidence = [], da_checkpoints = []\<rparr>"

lemma sample_profile_digest: "digest_text (replicate 64 CHR ''0'')" by code_simp

lemma sample_records_exist:
  "\<exists>r. document_records sample_prims (\<lambda>x. int (length x)) sample_artifact_model sample_accepted sample_digest_artifact sample_plan sample_retrieval = Inr [r]"
proof -
  let ?b = "make_block sample_prims 7 7 True 0 0 [104, 105]"
  have split: "split_text (\<lambda>x. int (length x)) sample_retrieval [104, 105] = Inr [(0, 2, [104, 105])]"
    unfolding split_text_def by (subst split_from.simps, subst split_from.simps) (simp add: halve.simps sample_retrieval_def numeral_2_eq_2)
  have "map_of (line_index sample_artifact_model) 7 = Some []"
    by (simp add: line_index_def sample_inventory dict_of_def) (simp add: sample_unit_def newline_offsets_def newline_def)
  moreover have "tu_source_id sample_unit = 7" by (simp add: sample_unit_def)
  ultimately have ev: "piece_evidence sample_artifact_model sample_accepted sample_unit ?b (0, 2, [104, 105]) = pc_evidence sample_piece"
    by (simp add: piece_evidence_def sample_accepted_def sample_piece_def bisect_left_def bisect_loop.simps count_nl_def rstrip_nl_def newline_def)
  have span: "span_valid (ev_span (pc_evidence sample_piece))" "ev_version_id (pc_evidence sample_piece) = 7"
    "ev_extraction_id (pc_evidence sample_piece) = 7" by (simp_all add: sample_piece_def span_valid_def)
  have "\<exists>r. make_record sample_prims sample_artifact_model sample_accepted sample_plan sample_retrieval sample_unit ?b (0, 2, [104, 105]) = Inr r"
    using span sample_profile_digest sample_index_resolves
    by (simp add: make_record_def ev record_values_def record_valid_def record_identity_def retrieval_profile_digest_def Let_def
        structural_owners_def sample_plan_def sample_root_def dict_of_def) (simp add: sample_accepted_def)
  then obtain r where "make_record sample_prims sample_artifact_model sample_accepted sample_plan sample_retrieval sample_unit ?b (0, 2, [104, 105]) = Inr r" by blast
  then show ?thesis
    by (simp add: document_records_def sample_inventory block_records_def split sample_digest_artifact_def make_coverage_def Let_def)
qed

theorem published_records_exact_witness:
  "\<exists>rs. document_records sample_prims (\<lambda>x. int (length x)) sample_artifact_model sample_accepted sample_digest_artifact sample_plan sample_retrieval = Inr rs
     \<and> concat (map rr_text rs) = [104, 105]"
proof -
  obtain r where r: "document_records sample_prims (\<lambda>x. int (length x)) sample_artifact_model sample_accepted sample_digest_artifact sample_plan sample_retrieval = Inr [r]"
    using sample_records_exist by blast
  from published_records_exact [OF this] r show ?thesis
    by (simp add: sample_inventory sample_digest_artifact_def make_coverage_def Let_def)
qed

end
