(* ===== verification/RankFusion.thy ===== *)
theory RankFusion
  imports DigestValidation
begin

text \<open>
  Retrieval of the repository over any vector store and any BM25 engine: the tokenizer, the BM25 snapshot and its readiness
  (rag/bm25.py), dense retrieval (rag/retriever.py), the hybrid retriever with dynamic filtering and the
  reciprocal rank fusion of publications (rag/hybrid_retriever.py). Scores are exact rationals; \<^verbatim>\<open>round\<close> of a score
  is half to even. The class BM25Okapi and the embedding of a query are arguments, and so is what
  Python asks Unicode about a code point.
\<close>

section \<open>Items\<close>

datatype meta_value = Meta_text code_points | Meta_int int | Meta_bool bool | Meta_float rat

type_synonym metadata = "(string \<times> meta_value) list"

definition meta_truthy :: "meta_value \<Rightarrow> bool" where
  "meta_truthy v = (case v of Meta_text t \<Rightarrow> t \<noteq> [] | Meta_int i \<Rightarrow> i \<noteq> 0 | Meta_bool b \<Rightarrow> b | Meta_float x \<Rightarrow> x \<noteq> 0)"

text \<open>\<^verbatim>\<open>repr\<close> of a value; text is quoted as it stands (identifiers have neither quotes nor backslashes).\<close>

definition meta_repr :: "prims \<Rightarrow> meta_value \<Rightarrow> code_points" where
  "meta_repr H v = (case v of Meta_text t \<Rightarrow> points [CHR 0x27] @ t @ points [CHR 0x27] | Meta_int i \<Rightarrow> points (int_text i)
     | Meta_bool b \<Rightarrow> points (if b then ''True'' else ''False'') | Meta_float x \<Rightarrow> points (float_repr H x))"

definition meta_str :: "prims \<Rightarrow> meta_value \<Rightarrow> code_points" where
  "meta_str H v = (case v of Meta_text t \<Rightarrow> t | _ \<Rightarrow> meta_repr H v)"

definition optional_repr :: "prims \<Rightarrow> meta_value option \<Rightarrow> code_points" where
  "optional_repr H v = (case v of None \<Rightarrow> points ''None'' | Some x \<Rightarrow> meta_repr H x)"

record vector_match =
  vm_document :: code_points
  vm_metadata :: metadata
  vm_distance :: rat

record vector_document =
  vd_document :: code_points
  vd_metadata :: metadata

record hit =
  ht_meta :: metadata
  ht_text :: code_points
  ht_score :: rat
  ht_rrf :: rat

section \<open>The tokenizer\<close>

record token_lang =
  tl_lower :: "code_points \<Rightarrow> code_points"
  tl_word :: "nat \<Rightarrow> bool"

definition stopwords :: "code_points list" where
  "stopwords = map points [''a'', ''an'', ''the'', ''is'', ''are'', ''was'', ''were'', ''what'', ''who'', ''when'', ''where'', ''why'',
     ''how'', ''of'', ''to'', ''for'', ''in'', ''on'', ''at'', ''and'', ''or'', ''with'', ''about'']"

definition ascii_alnum :: "nat \<Rightarrow> bool" where
  "ascii_alnum c \<longleftrightarrow> 48 \<le> c \<and> c \<le> 57 \<or> 65 \<le> c \<and> c \<le> 90 \<or> 97 \<le> c \<and> c \<le> 122"

text \<open>The class \<^verbatim>\<open>\w\<close> of a regular expression over text.\<close>

definition word_char :: "token_lang \<Rightarrow> nat \<Rightarrow> bool" where
  "word_char L c \<longleftrightarrow> ascii_alnum c \<or> c = 95 \<or> 128 \<le> c \<and> tl_word L c"

text \<open>Maximal runs of word characters. A match of \<^verbatim>\<open>\b[a-zA-Z0-9]+\b\<close> begins and ends at a boundary of such a run and contains no boundary,
  so the matches are the runs that consist of ASCII letters and digits.\<close>

function word_runs :: "(nat \<Rightarrow> bool) \<Rightarrow> code_points \<Rightarrow> code_points list" where
  "word_runs P [] = []"
| "word_runs P (c # cs) = (if P c then (c # takeWhile P cs) # word_runs P (dropWhile P cs) else word_runs P cs)"
  by pat_completeness auto

termination word_runs
  by (relation "measure (length \<circ> snd)") (auto simp: le_imp_less_Suc length_dropWhile_le)

definition tokenize :: "token_lang \<Rightarrow> code_points \<Rightarrow> code_points list" where
  "tokenize L t = filter (\<lambda>w. w \<notin> set stopwords) (filter (list_all ascii_alnum) (word_runs (word_char L) (tl_lower L t)))"

lemma word_runs_members: "w \<in> set (word_runs P t) \<Longrightarrow> w \<noteq> [] \<and> list_all P w"
proof (induction P t rule: word_runs.induct)
  case (2 P c cs)
  have "list_all P (takeWhile P cs)" unfolding list_all_iff by (blast dest: set_takeWhileD)
  with 2 show ?case by (cases "P c") auto
qed simp

lemma concat_word_runs: "concat (word_runs P t) = filter P t"
proof (induction P t rule: word_runs.induct)
  case (2 P c cs)
  have "filter P cs = takeWhile P cs @ filter P (dropWhile P cs)"
  proof -
    have "filter P (takeWhile P cs) = takeWhile P cs" by (auto simp: filter_id_conv dest: set_takeWhileD)
    then show ?thesis by (metis filter_append takeWhile_dropWhile_id)
  qed
  with 2 show ?case by auto
qed simp

lemma tokenize_tokens: "w \<in> set (tokenize L t) \<Longrightarrow> w \<noteq> [] \<and> list_all ascii_alnum w \<and> w \<notin> set stopwords"
  by (auto simp: tokenize_def dest: word_runs_members)

section \<open>The BM25 snapshot\<close>

record 'i bm25_engine =
  be_build :: "code_points list list \<Rightarrow> 'i option"
  be_scores :: "'i \<Rightarrow> code_points list \<Rightarrow> rat list"

record 'i bm25_snapshot =
  bs_index :: "'i option"
  bs_documents :: "code_points list"
  bs_metadata :: "metadata list"
  bs_version :: "code_points option"

datatype retrieval_error = Bm25_unavailable | Vector_error string | Retrieval_key_error | Retrieval_other

definition empty_snapshot :: "'i bm25_snapshot" where
  "empty_snapshot = \<lparr>bs_index = None, bs_documents = [], bs_metadata = [], bs_version = None\<rparr>"

definition document_key :: "prims \<Rightarrow> vector_document \<Rightarrow> code_points \<times> code_points \<times> code_points" where
  "document_key H d = (case map_of (vd_metadata d) ''source'' of None \<Rightarrow> [] | Some v \<Rightarrow> meta_str H v,
     case map_of (vd_metadata d) ''chunk_id'' of None \<Rightarrow> [] | Some v \<Rightarrow> meta_str H v, vd_document d)"

text \<open>\<^verbatim>\<open>build_bm25\<close>: the globals are assigned only after the engine has been built.\<close>

definition build_bm25 :: "prims \<Rightarrow> token_lang \<Rightarrow> 'i bm25_engine \<Rightarrow> retrieval_error + code_points option \<Rightarrow> retrieval_error + vector_document list
    \<Rightarrow> code_points \<Rightarrow> (retrieval_error, 'i bm25_snapshot, unit) txn" where
  "build_bm25 H L E published listed expected s =
     sbind published (\<lambda>version.
     if version \<noteq> Some expected then Inl Bm25_unavailable
     else sbind listed (\<lambda>docs.
       let data = sort_key (document_key H) docs in
       case be_build E (map (tokenize L \<circ> vd_document) data) of None \<Rightarrow> Inl Retrieval_other
       | Some i \<Rightarrow> Inr ((), s\<lparr>bs_index := Some i, bs_documents := map vd_document data, bs_metadata := map vd_metadata data, bs_version := version\<rparr>)))"

definition clear_bm25_snapshot :: "'i bm25_snapshot \<Rightarrow> 'i bm25_snapshot" where
  "clear_bm25_snapshot s = s\<lparr>bs_index := None, bs_documents := [], bs_metadata := [], bs_version := None\<rparr>"

record bm25_readiness =
  br_ready :: bool
  br_status :: string
  br_loaded :: "code_points option"
  br_expected :: code_points

text \<open>\<open>store\<close> is the version in the store, or the failure to read it.\<close>

definition check_bm25_readiness :: "retrieval_error + code_points option \<Rightarrow> code_points \<Rightarrow> code_points option \<Rightarrow> bool \<Rightarrow> 'i bm25_snapshot \<Rightarrow> bm25_readiness" where
  "check_bm25_readiness store expected published vector_ready s =
     (let loaded = bs_version s; answer = (\<lambda>ok status. \<lparr>br_ready = ok, br_status = status, br_loaded = loaded, br_expected = expected\<rparr>) in
      if bs_index s = None \<or> loaded = None then answer False ''bm25_uninitialized''
      else if \<not> vector_ready then answer False ''bm25_version_unavailable''
      else case (case published of Some v \<Rightarrow> Inr (Some v) | None \<Rightarrow> store) of
          Inl _ \<Rightarrow> answer False ''bm25_version_unavailable''
        | Inr v \<Rightarrow> if loaded \<noteq> Some expected \<or> v \<noteq> Some expected then answer False ''bm25_version_mismatch'' else answer True ''ready'')"

definition round_to :: "nat \<Rightarrow> rat \<Rightarrow> rat" where
  "round_to n x = of_int (round_half_even (x * 10 ^ n)) / 10 ^ n"

text \<open>\<^verbatim>\<open>sort(key=..., reverse=True)\<close> keeps the order of equal items, as sorting by the negated key does.\<close>

definition bm25_search :: "token_lang \<Rightarrow> 'i bm25_engine \<Rightarrow> code_points \<Rightarrow> nat \<Rightarrow> 'i bm25_snapshot \<Rightarrow> retrieval_error + hit list" where
  "bm25_search L E query top_k s =
     (case bs_index s of None \<Rightarrow> Inl Bm25_unavailable
      | Some i \<Rightarrow>
          let ranked = sort_key (\<lambda>x. - snd x) (enumerate 0 (be_scores E i (tokenize L query))) in
          fold_sum (\<lambda>(j, score) hits.
            if score \<le> 0 then Inr hits
            else if j \<ge> length (bs_documents s) \<or> j \<ge> length (bs_metadata s) then Inl Retrieval_other
            else case (map_of (bs_metadata s ! j) ''source'', map_of (bs_metadata s ! j) ''chunk_id'') of
                (Some src, Some chunk) \<Rightarrow> Inr (hits @ [\<lparr>ht_meta = [(''source'', src), (''chunk_id'', chunk)], ht_text = bs_documents s ! j,
                   ht_score = round_to 3 score, ht_rrf = 0\<rparr>])
              | _ \<Rightarrow> Inl Retrieval_key_error)
            (take top_k ranked) [])"

section \<open>Dense retrieval\<close>

type_synonym chunk_key = "meta_value option \<times> meta_value option"

definition source_key :: "metadata \<Rightarrow> chunk_key" where
  "source_key m = (map_of m ''source'', map_of m ''chunk_id'')"

definition dense_hit :: "vector_match \<Rightarrow> hit" where
  "dense_hit v = \<lparr>ht_meta = [(''source'', case map_of (vm_metadata v) ''source'' of None \<Rightarrow> Meta_text (points ''Unknown'') | Some x \<Rightarrow> x),
       (''chunk_id'', case map_of (vm_metadata v) ''chunk_id'' of None \<Rightarrow> Meta_int (-1) | Some x \<Rightarrow> x)],
     ht_text = vm_document v, ht_score = round_to 3 (max 0 (1 - vm_distance v)), ht_rrf = 0\<rparr>"

fun dense_hits :: "chunk_key set \<Rightarrow> vector_match list \<Rightarrow> hit list" where
  "dense_hits seen [] = []"
| "dense_hits seen (v # vs) =
     (if ht_score (dense_hit v) \<le> 0 \<or> source_key (vm_metadata v) \<in> seen then dense_hits seen vs
      else dense_hit v # dense_hits (insert (source_key (vm_metadata v)) seen) vs)"

definition retrieve_dense :: "vector_match list \<Rightarrow> hit list" where
  "retrieve_dense matches = sort_key (\<lambda>h. - ht_score h) (dense_hits {} matches)"

section \<open>Reciprocal rank fusion\<close>

text \<open>The hybrid retriever adds the reciprocal rank of every occurrence; items are keyed by source and chunk.\<close>

fun add_ranks :: "rat \<Rightarrow> nat \<Rightarrow> hit list \<Rightarrow> (chunk_key \<times> hit) list \<Rightarrow> (chunk_key \<times> hit) list" where
  "add_ranks k rank [] fused = fused"
| "add_ranks k rank (h # hs) fused =
     (let key = source_key (ht_meta h); old = (case map_of fused key of None \<Rightarrow> h\<lparr>ht_rrf := 0\<rparr> | Some x \<Rightarrow> x) in
      add_ranks k (Suc rank) hs (dict_put key (old\<lparr>ht_rrf := ht_rrf old + 1 / (k + of_nat rank)\<rparr>) fused))"

fun first_of_key :: "chunk_key set \<Rightarrow> hit list \<Rightarrow> hit list" where
  "first_of_key seen [] = []"
| "first_of_key seen (h # hs) = (if source_key (ht_meta h) \<in> seen then first_of_key seen hs
     else h # first_of_key (insert (source_key (ht_meta h)) seen) hs)"

definition hybrid_results :: "nat \<Rightarrow> rat \<Rightarrow> hit list \<Rightarrow> hit list \<Rightarrow> hit list" where
  "hybrid_results top_k rrf_k dense sparse =
     (let fused = add_ranks rrf_k 1 sparse (add_ranks rrf_k 1 dense []);
          results = map (\<lambda>(_, h). h\<lparr>ht_rrf := round_to 5 (ht_rrf h)\<rparr>) fused;
          unique = first_of_key {} (sort_key (\<lambda>h. - ht_rrf h) results);
          relevant = (case unique of [] \<Rightarrow> [] | best # _ \<Rightarrow> filter (\<lambda>h. ht_rrf best * (4 / 5) \<le> ht_rrf h) unique)
      in take top_k relevant)"

definition hybrid_retrieve :: "token_lang \<Rightarrow> 'i bm25_engine \<Rightarrow> retrieval_error + vector_match list \<Rightarrow> code_points \<Rightarrow> nat \<Rightarrow> rat \<Rightarrow> 'i bm25_snapshot
    \<Rightarrow> retrieval_error + hit list" where
  "hybrid_retrieve L E matches query top_k rrf_k s =
     sbind matches (\<lambda>vs. sbind (bm25_search L E query top_k s) (\<lambda>sparse. Inr (hybrid_results top_k rrf_k (retrieve_dense vs) sparse)))"

text \<open>The fusion of publications: an item counts once per ranking, at its first position.\<close>

datatype identity = Publication_identity meta_value | Legacy_identity "meta_value option" "meta_value option"

definition hit_identity :: "hit \<Rightarrow> identity" where
  "hit_identity h = (case map_of (ht_meta h) ''record_id'' of
      Some v \<Rightarrow> if meta_truthy v then Publication_identity v else Legacy_identity (map_of (ht_meta h) ''source'') (map_of (ht_meta h) ''chunk_id'')
    | None \<Rightarrow> Legacy_identity (map_of (ht_meta h) ''source'') (map_of (ht_meta h) ''chunk_id''))"

definition identity_text :: "prims \<Rightarrow> identity \<Rightarrow> code_points" where
  "identity_text H i = (case i of
      Publication_identity v \<Rightarrow> points ''('' @ meta_repr H (Meta_text (points ''publication'')) @ points '', '' @ meta_repr H v @ points '')''
    | Legacy_identity s c \<Rightarrow> points ''('' @ meta_repr H (Meta_text (points ''legacy'')) @ points '', '' @ optional_repr H s @ points '', ''
        @ optional_repr H c @ points '')'')"

fun fuse_ranking :: "rat \<Rightarrow> nat \<Rightarrow> hit list \<Rightarrow> identity set \<Rightarrow> (identity \<times> hit) list \<Rightarrow> (identity \<times> hit) list" where
  "fuse_ranking k rank [] seen fused = fused"
| "fuse_ranking k rank (h # hs) seen fused =
     (let key = hit_identity h; old = (case map_of fused key of None \<Rightarrow> h\<lparr>ht_rrf := 0\<rparr> | Some x \<Rightarrow> x) in
      if key \<in> seen then fuse_ranking k (Suc rank) hs seen fused
      else fuse_ranking k (Suc rank) hs (insert key seen) (dict_put key (old\<lparr>ht_rrf := ht_rrf old + 1 / (k + of_nat rank)\<rparr>) fused))"

text \<open>The constant is positive wherever the source calls the fusion; a sum of the constant and a rank that is zero would raise there, and adds
  nothing here.\<close>

definition fuse_rankings :: "prims \<Rightarrow> rat \<Rightarrow> hit list \<Rightarrow> hit list \<Rightarrow> hit list" where
  "fuse_rankings H rrf_k dense sparse =
     sort_key (\<lambda>h. (- ht_rrf h, identity_text H (hit_identity h)))
       (map snd (fuse_ranking rrf_k 1 sparse {} (fuse_ranking rrf_k 1 dense {} [])))"

section \<open>What fusion computes\<close>

text \<open>The reference definition: the reciprocal of the position at which an item first occurs.\<close>

fun reciprocal_rank :: "rat \<Rightarrow> nat \<Rightarrow> identity \<Rightarrow> hit list \<Rightarrow> rat" where
  "reciprocal_rank k rank i [] = 0"
| "reciprocal_rank k rank i (h # hs) = (if hit_identity h = i then 1 / (k + of_nat rank) else reciprocal_rank k (Suc rank) i hs)"

lemma hit_identity_rrf [simp]: "hit_identity (h\<lparr>ht_rrf := x\<rparr>) = hit_identity h"
  by (simp add: hit_identity_def split: option.splits)

lemma distinct_map_sort: "distinct (map f (sort_key g xs)) \<longleftrightarrow> distinct (map f xs)"
  by (simp only: distinct_map distinct_sort set_sort)

lemma hit_rrf_update: "h = x\<lparr>ht_rrf := ht_rrf h\<rparr> \<Longrightarrow> h\<lparr>ht_rrf := r\<rparr> = x\<lparr>ht_rrf := ht_rrf (h\<lparr>ht_rrf := r\<rparr>)\<rparr>"
  by (cases h, cases x) simp

lemma reciprocal_rank_absent: "i \<notin> hit_identity ` set hs \<Longrightarrow> reciprocal_rank k n i hs = 0"
  by (induction hs arbitrary: n) auto

text \<open>What a table of fused items says of an item after a ranking: its data are those of its first occurrence, its score grows by
  the reciprocal rank, and items of other identity are untouched.\<close>

definition fused_from :: "hit list \<Rightarrow> (identity \<Rightarrow> rat) \<Rightarrow> (identity \<times> hit) list \<Rightarrow> bool" where
  "fused_from hs score fused \<longleftrightarrow> distinct (map fst fused) \<and> fst ` set fused = hit_identity ` set hs
     \<and> (\<forall>(i, h) \<in> set fused. hit_identity h = i \<and> ht_rrf h = score i \<and> (\<exists>x \<in> set hs. h = x\<lparr>ht_rrf := ht_rrf h\<rparr>))"

lemma fuse_ranking_put:
  assumes "fused_from xs score fused" and "hit_identity h \<notin> hit_identity ` set xs \<Longrightarrow> score (hit_identity h) = 0"
    and "old = (case map_of fused (hit_identity h) of None \<Rightarrow> h\<lparr>ht_rrf := 0\<rparr> | Some x \<Rightarrow> x)"
  shows "fused_from (xs @ [h]) (\<lambda>i. score i + (if i = hit_identity h then d else 0)) (dict_put (hit_identity h) (old\<lparr>ht_rrf := ht_rrf old + d\<rparr>) fused)"
proof -
  define new where "new = old\<lparr>ht_rrf := ht_rrf old + d\<rparr>"
  define k where "k = hit_identity h"
  from assms(1) have d: "distinct (map fst fused)" and keys: "fst ` set fused = hit_identity ` set xs"
    and items: "\<And>i x. (i, x) \<in> set fused \<Longrightarrow> hit_identity x = i \<and> ht_rrf x = score i \<and> (\<exists>y \<in> set xs. x = y\<lparr>ht_rrf := ht_rrf x\<rparr>)"
    by (auto simp: fused_from_def)
  have "hit_identity old = k \<and> ht_rrf old = score k \<and> (\<exists>y \<in> set (xs @ [h]). old = y\<lparr>ht_rrf := ht_rrf old\<rparr>)"
  proof (cases "map_of fused k")
    case None
    then have "k \<notin> fst ` set fused" by (simp add: map_of_eq_None_iff)
    with keys assms(2) have "score k = 0" by (auto simp: k_def)
    with None assms(3) show ?thesis by (simp add: k_def)
  next
    case (Some x)
    with assms(3) have "old = x" by (simp add: k_def)
    with items [OF map_of_SomeD [OF Some]] show ?thesis unfolding set_append by blast
  qed
  then obtain y where y: "y \<in> set (xs @ [h])" "old = y\<lparr>ht_rrf := ht_rrf old\<rparr>" and old: "hit_identity old = k" "ht_rrf old = score k" by blast
  have new: "hit_identity new = k" "ht_rrf new = score k + d" "new = y\<lparr>ht_rrf := ht_rrf new\<rparr>"
    using old by (simp_all add: new_def) (use hit_rrf_update [OF y(2), of "ht_rrf old + d"] old in \<open>simp add: new_def\<close>)
  have mem: "(i, x) \<in> set (dict_put k new fused) \<longleftrightarrow> (if i = k then x = new else (i, x) \<in> set fused)" for i x
    using map_of_eq_Some_iff [OF d, of i x] map_of_eq_Some_iff [OF distinct_dict_put [OF d, of k new], of i x] by auto
  have "hit_identity x = i \<and> ht_rrf x = score i + (if i = k then d else 0) \<and> (\<exists>y \<in> set (xs @ [h]). x = y\<lparr>ht_rrf := ht_rrf x\<rparr>)"
    if "(i, x) \<in> set (dict_put k new fused)" for i x
  proof (cases "i = k")
    case True
    with that mem have "x = new" by simp
    with new y(1) True show ?thesis by auto
  next
    case False
    with that mem have "(i, x) \<in> set fused" by simp
    from items [OF this] False show ?thesis unfolding set_append by fastforce
  qed
  moreover have "fst ` set (dict_put k new fused) = hit_identity ` set (xs @ [h])"
  proof -
    have "fst ` set (dict_put k new fused) = insert k (fst ` set fused)"
      by (simp only: set_map [symmetric] keys_dict_put) auto
    with keys show ?thesis by (simp add: k_def)
  qed
  ultimately have "fused_from (xs @ [h]) (\<lambda>i. score i + (if i = k then d else 0)) (dict_put k new fused)"
    using distinct_dict_put [OF d, of k new] unfolding fused_from_def by blast
  then show ?thesis by (simp add: k_def new_def)
qed

text \<open>One ranking: \<open>xs\<close> are the items of the table before, \<open>seen\<close> the identities of this ranking.\<close>

lemma fuse_ranking_from:
  assumes "fused_from xs score fused" and "\<And>i. i \<notin> hit_identity ` set xs \<Longrightarrow> score i = 0" and "seen \<subseteq> hit_identity ` set xs"
  shows "fused_from (xs @ hs) (\<lambda>i. score i + (if i \<in> seen then 0 else reciprocal_rank k n i hs)) (fuse_ranking k n hs seen fused)"
  using assms
proof (induction hs arbitrary: n seen fused score xs)
  case Nil
  then show ?case by (simp cong: if_cong)
next
  case (Cons h hs)
  let ?i = "hit_identity h"
  let ?old = "case map_of fused ?i of None \<Rightarrow> h\<lparr>ht_rrf := 0\<rparr> | Some x \<Rightarrow> x"
  show ?case
  proof (cases "?i \<in> seen")
    case True
    have same: "fused_from (xs @ [h]) score fused" using Cons.prems(1,3) True unfolding fused_from_def by auto
    have "fused_from ((xs @ [h]) @ hs) (\<lambda>i. score i + (if i \<in> seen then 0 else reciprocal_rank k (Suc n) i hs)) (fuse_ranking k (Suc n) hs seen fused)"
      by (rule Cons.IH [OF same]) (use Cons.prems(2,3) in auto)
    moreover have "(\<lambda>i. score i + (if i \<in> seen then 0 else reciprocal_rank k (Suc n) i hs))
        = (\<lambda>i. score i + (if i \<in> seen then 0 else reciprocal_rank k n i (h # hs)))"
      using True by (intro ext) auto
    ultimately show ?thesis using True by (simp add: Let_def)
  next
    case False
    let ?score = "\<lambda>i. score i + (if i = ?i then 1 / (k + of_nat n) else 0)"
    have put: "fused_from (xs @ [h]) ?score (dict_put ?i (?old\<lparr>ht_rrf := ht_rrf ?old + 1 / (k + of_nat n)\<rparr>) fused)"
      by (rule fuse_ranking_put [OF Cons.prems(1) _ refl]) (rule Cons.prems(2))
    have "fused_from ((xs @ [h]) @ hs) (\<lambda>i. ?score i + (if i \<in> insert ?i seen then 0 else reciprocal_rank k (Suc n) i hs))
        (fuse_ranking k (Suc n) hs (insert ?i seen) (dict_put ?i (?old\<lparr>ht_rrf := ht_rrf ?old + 1 / (k + of_nat n)\<rparr>) fused))"
      by (rule Cons.IH [OF put]) (use Cons.prems(2,3) in auto)
    moreover have "(\<lambda>i. ?score i + (if i \<in> insert ?i seen then 0 else reciprocal_rank k (Suc n) i hs))
        = (\<lambda>i. score i + (if i \<in> seen then 0 else reciprocal_rank k n i (h # hs)))"
      using False by (intro ext) auto
    ultimately show ?thesis using False by (simp add: Let_def)
  qed
qed

text \<open>C32: The fusion of publications is reciprocal rank fusion. Every identity of either ranking occurs exactly once in the result, and
  nothing else does; its score is the sum of the reciprocal ranks of its first occurrences, as the reference definition
  computes them; its text and metadata are those of an item of the rankings; and the result is in the
  order of falling scores, equal scores in the order of the identities.\<close>

theorem fusion_is_reciprocal_rank:
  shows "distinct (map hit_identity (fuse_rankings H k dense sparse))
    \<and> hit_identity ` set (fuse_rankings H k dense sparse) = hit_identity ` (set dense \<union> set sparse)
    \<and> list_all (\<lambda>h. ht_rrf h = reciprocal_rank k 1 (hit_identity h) dense + reciprocal_rank k 1 (hit_identity h) sparse
        \<and> (\<exists>x \<in> set dense \<union> set sparse. h = x\<lparr>ht_rrf := ht_rrf h\<rparr>)) (fuse_rankings H k dense sparse)
    \<and> sorted (map (\<lambda>h. (- ht_rrf h, identity_text H (hit_identity h))) (fuse_rankings H k dense sparse))"
proof -
  let ?fused = "fuse_ranking k 1 sparse {} (fuse_ranking k 1 dense {} [])"
  have "fused_from [] (\<lambda>_. 0) []" by (simp add: fused_from_def)
  from fuse_ranking_from [OF this, where seen = "{}" and k = k and n = 1 and hs = dense]
  have d: "fused_from dense (\<lambda>i. reciprocal_rank k 1 i dense) (fuse_ranking k 1 dense {} [])" by simp
  from fuse_ranking_from [OF d, where seen = "{}" and k = k and n = 1 and hs = sparse]
  have f: "fused_from (dense @ sparse) (\<lambda>i. reciprocal_rank k 1 i dense + reciprocal_rank k 1 i sparse) ?fused"
    by (simp add: reciprocal_rank_absent)
  then have ids: "map hit_identity (map snd ?fused) = map fst ?fused" by (auto simp: fused_from_def)
  have d: "distinct (map hit_identity (fuse_rankings H k dense sparse))"
    unfolding fuse_rankings_def distinct_map_sort ids using f by (simp add: fused_from_def)
  have set_eq: "set (fuse_rankings H k dense sparse) = set (map snd ?fused)" by (simp add: fuse_rankings_def)
  have "hit_identity ` set (map snd ?fused) = set (map fst ?fused)" by (simp only: set_map [symmetric] ids)
  with f set_eq have "hit_identity ` set (fuse_rankings H k dense sparse) = hit_identity ` (set dense \<union> set sparse)"
    by (simp add: fused_from_def)
  moreover have "ht_rrf h = reciprocal_rank k 1 (hit_identity h) dense + reciprocal_rank k 1 (hit_identity h) sparse
        \<and> (\<exists>x \<in> set dense \<union> set sparse. h = x\<lparr>ht_rrf := ht_rrf h\<rparr>)" if "h \<in> set (map snd ?fused)" for h
    using f that unfolding fused_from_def set_append by fastforce
  moreover have "sorted (map (\<lambda>h. (- ht_rrf h, identity_text H (hit_identity h))) (fuse_rankings H k dense sparse))"
    unfolding fuse_rankings_def by (rule sorted_sort_key)
  ultimately show ?thesis using d unfolding list_all_iff set_eq by blast
qed

section \<open>The hybrid retriever\<close>

lemma first_of_key_sound:
  "distinct (map (source_key \<circ> ht_meta) (first_of_key seen hs)) \<and> (source_key \<circ> ht_meta) ` set (first_of_key seen hs) \<inter> seen = {}
   \<and> set (first_of_key seen hs) \<subseteq> set hs"
  by (induction seen hs rule: first_of_key.induct) auto

lemma first_of_key_sorted: "sorted_wrt P hs \<Longrightarrow> sorted_wrt P (first_of_key seen hs)"
proof (induction seen hs rule: first_of_key.induct)
  case (2 seen h hs)
  with first_of_key_sound [of "insert (source_key (ht_meta h)) seen" hs] show ?case by auto
qed simp

text \<open>The hybrid retriever returns at most \<open>top_k\<close> items, each source and chunk once, best first, and none whose score is below
  four fifths of the best.\<close>

theorem hybrid_results_sound:
  "length (hybrid_results top_k k dense sparse) \<le> top_k
   \<and> distinct (map (source_key \<circ> ht_meta) (hybrid_results top_k k dense sparse))
   \<and> sorted_wrt (\<lambda>a b. ht_rrf b \<le> ht_rrf a) (hybrid_results top_k k dense sparse)
   \<and> list_all (\<lambda>h. ht_rrf (hd (hybrid_results top_k k dense sparse)) * (4 / 5) \<le> ht_rrf h) (hybrid_results top_k k dense sparse)"
proof -
  define unique where "unique = first_of_key {} (sort_key (\<lambda>h. - ht_rrf h)
    (map (\<lambda>(_, h). h\<lparr>ht_rrf := round_to 5 (ht_rrf h)\<rparr>) (add_ranks k 1 sparse (add_ranks k 1 dense []))))"
  define relevant where "relevant = (case unique of [] \<Rightarrow> [] | best # _ \<Rightarrow> filter (\<lambda>h. ht_rrf best * (4 / 5) \<le> ht_rrf h) unique)"
  have r: "hybrid_results top_k k dense sparse = take top_k relevant"
    unfolding hybrid_results_def relevant_def unique_def Let_def by (rule refl)
  have "sorted_wrt (\<lambda>a b. ht_rrf b \<le> ht_rrf a) (sort_key (\<lambda>h. - ht_rrf h) xs)" for xs
    using sorted_sort_key [of "\<lambda>h. - ht_rrf h" xs] by (simp add: sorted_map)
  then have u: "sorted_wrt (\<lambda>a b. ht_rrf b \<le> ht_rrf a) unique" "distinct (map (source_key \<circ> ht_meta) unique)"
    unfolding unique_def using first_of_key_sound by (auto intro: first_of_key_sorted)
  have rel: "sorted_wrt (\<lambda>a b. ht_rrf b \<le> ht_rrf a) relevant" "distinct (map (source_key \<circ> ht_meta) relevant)"
    using u by (auto simp: relevant_def sorted_wrt_filter distinct_map_filter split: list.splits)
  have "list_all (\<lambda>h. ht_rrf (hd relevant) * (4 / 5) \<le> ht_rrf h) relevant"
  proof (cases unique)
    case u': (Cons best rest)
    have rf: "relevant = filter (\<lambda>h. ht_rrf best * (4 / 5) \<le> ht_rrf h) unique" by (simp only: relevant_def u' list.case)
    show ?thesis
    proof (cases relevant)
      case (Cons b bs)
      then have "b \<in> set relevant" by simp
      then have "b \<in> set unique" unfolding rf by simp
      then have "ht_rrf b \<le> ht_rrf best" using u(1) u' by auto
      moreover have "ht_rrf best * (4 / 5) \<le> ht_rrf h" if "h \<in> set relevant" for h using that unfolding rf by simp
      ultimately have "ht_rrf b * (4 / 5) \<le> ht_rrf h" if "h \<in> set relevant" for h using that by fastforce
      then show ?thesis by (simp only: list_all_iff Cons list.sel) blast
    qed simp
  qed (simp add: relevant_def)
  then have "list_all (\<lambda>h. ht_rrf (hd (take top_k relevant)) * (4 / 5) \<le> ht_rrf h) (take top_k relevant)"
    by (cases "top_k"; cases relevant) (auto simp: list_all_iff dest: in_set_takeD)
  with rel show ?thesis unfolding r by (simp add: sorted_wrt_take take_map [symmetric] distinct_take)
qed

end
