(* ===== verification/PublicationService.thy ===== *)
theory PublicationService
  imports PublicationTheorems DigestWorkflow RankFusion Security
begin

text \<open>
  The publication service of documents/publication/service.py and the acceptance of a digestion job of
  documents/publication/planning.py, with the preparation handler of documents/publication/workflow.py: the reader that validates
  a generation against the jobs, the objects and the vector store, and the operations that plan, prepare,
  activate, revoke, roll back and reconcile. The vector store is a port with any behaviour (\<open>vector_port\<close>); the hook
  \<^verbatim>\<open>checkpoint\<close> of the operations may raise and may change the world, as another process may at that point.
\<close>

section \<open>The world of a publication\<close>

record vector_filter =
  vf_generation :: string
  vf_documents :: "string list"

text \<open>\<open>None\<close> is an exception; a failed write may have changed the store.\<close>

record 'v vector_port =
  vp_list :: "'v \<Rightarrow> vector_filter option \<Rightarrow> vector_document list option"
  vp_upsert :: "string \<Rightarrow> code_points \<Rightarrow> rat option list \<Rightarrow> metadata \<Rightarrow> 'v \<Rightarrow> bool \<times> 'v"
  vp_search :: "'v \<Rightarrow> rat option list \<Rightarrow> int \<Rightarrow> vector_filter option \<Rightarrow> vector_match list option"

record 'v publication_world =
  pw_authority :: publication_db
  pw_objects :: obj_store
  pw_jobs :: ledger
  pw_vectors :: 'v
  pw_security :: authority
  pw_clock :: nat

text \<open>What a reader is composed of: the workflow environment, its scope, the encoder (profile, tokenizer and model), the tokenizer
  of the sparse index, the BM25 engine and the parser of manifests; and for the service the authentication mode, the
  capacity of the audit log and the readings of the clock.\<close>

record 'i reader_env =
  rv_flow :: workflow_env
  rv_scope :: scope
  rv_profile :: retrieval_profile
  rv_count :: "code_points \<Rightarrow> int"
  rv_vector :: "code_points \<Rightarrow> rat option list"
  rv_tokens :: token_lang
  rv_engine :: "'i bm25_engine"
  rv_manifest :: "bytes \<Rightarrow> publication_manifest parsed"
  rv_oidc :: bool
  rv_audit_limit :: nat
  rv_time :: "nat \<Rightarrow> rat"

abbreviation rv_prims :: "'i reader_env \<Rightarrow> prims" where "rv_prims env \<equiv> we_prims (rv_flow env)"

definition publication_limit :: int where "publication_limit = 32000000"

definition pfail :: "string \<Rightarrow> publication_exception + 'a" where
  "pfail c = Inl (Publication_failure (publication_error c))"

text \<open>\<^verbatim>\<open>except PublicationError: raise; except Exception: raise PublicationError(...) from None\<close>\<close>

definition published_only :: "string \<Rightarrow> publication_exception + 'a \<Rightarrow> publication_exception + 'a" where
  "published_only c r = (case r of Inl Publication_other \<Rightarrow> pfail c | _ \<Rightarrow> r)"

definition other :: "'e + 'a \<Rightarrow> publication_exception + 'a" where
  "other r = (case r of Inl _ \<Rightarrow> Inl Publication_other | Inr x \<Rightarrow> Inr x)"

definition of_publication :: "string + 'a \<Rightarrow> publication_exception + 'a" where
  "of_publication r = (case r of Inl e \<Rightarrow> Inl (Publication_failure e) | Inr x \<Rightarrow> Inr x)"

lemma plumbing_Inr [txn_simps]:
  "published_only c r = Inr x \<longleftrightarrow> r = Inr x" "other q = Inr x \<longleftrightarrow> q = Inr x" "of_publication s = Inr x \<longleftrightarrow> s = Inr x"
  "pfail c = Inr x \<longleftrightarrow> False"
  by (auto simp: published_only_def other_def of_publication_def pfail_def split: sum.splits publication_exception.splits)

section \<open>Accepted digestion jobs\<close>

definition verify_port :: "prims \<Rightarrow> (bytes \<Rightarrow> string) \<Rightarrow> (bytes list) put_port" where
  "verify_port H sha sc kind oid stream m expected produced =
     (case verify_put H sha sc kind oid stream m produced of
        Inl _ \<Rightarrow> (Inl Other_exception, produced) | Inr (ref, produced') \<Rightarrow> (Inr ref, produced'))"

text \<open>The dump of a digest up to the order of its checkpoints and qualifications.\<close>

definition normalized :: "prims \<Rightarrow> digest_artifact \<Rightarrow> json \<times> json list \<times> json list" where
  "normalized H d = (digest_json (d\<lparr>da_checkpoints := [], da_qualifications := []\<rparr>),
     sort_key (canonical H) (map ref_json (da_checkpoints d)), sort_key (canonical H) (map qualification_json (da_qualifications d)))"

type_synonym accepted_job = "accepted_document \<times> artifact \<times> digest_artifact \<times> plan"

text \<open>\<^verbatim>\<open>accepted\<close>: the final step is run again over a store that does not write. Every failure is reported as invalid input.\<close>

definition accepted :: "'i reader_env \<Rightarrow> obj_store \<Rightarrow> ledger \<Rightarrow> uuid \<Rightarrow> publication_exception + accepted_job" where
  "accepted env d db job_id =
     (let flow = rv_flow env; H = rv_prims env; sha = we_sha flow; sc = rv_scope env;
          rd = (\<lambda>sc ref m. case store_read H sha d sc ref m of Inl e \<Rightarrow> Inl (Document_error e) | Inr x \<Rightarrow> Inr x);
          inspect = (\<lambda>sc ref m. case store_inspect H sha d sc ref m of Inl e \<Rightarrow> Inl (Document_error e) | Inr x \<Rightarrow> Inr x) in
      published_only ''publication_invalid_input'' (
      sbind (other (get_job sc job_id db)) (\<lambda>(job, _).
      if jr_state job \<noteq> J_COMPLETED \<or> jr_cancel_requested job then pfail ''publication_invalid_input''
      else sbind (other (load_digest flow sc job_id d db)) (\<lambda>digest.
      let limit = pf_max_artifact_bytes (ad_profile (jr_request job)) in
      if da_status digest \<noteq> D_COMPLETE \<or> publication_limit < limit then pfail ''publication_invalid_input''
      else sbind (other (codec_read rd sc (da_plan digest) (cd_plan (we_codec flow)) limit)) (\<lambda>pl.
      sbind (other (steps sc job_id db)) (\<lambda>(models, _).
      case find (\<lambda>s. sp_unit_id (sr_spec (fst s)) = ''digest'') models of None \<Rightarrow> Inl Publication_other
      | Some (row, manifest) \<Rightarrow>
        let (outcome, produced) = run_handler flow (\<lambda>_. Inl Other_exception) (da_plan digest) None rd inspect db (verify_port H sha) job (sr_spec row) [] in
        sbind (other outcome) (\<lambda>_.
        if produced = [] \<or> length manifest < 2 then Inl Publication_other
        else sbind (other (decode (cd_digest (we_codec flow)) (hd produced) limit)) (\<lambda>rebuilt.
        if normalized H rebuilt \<noteq> normalized H digest then pfail ''publication_invalid_input''
        else sbind (other (codec_read rd sc (manifest ! 1) (cd_coverage (we_codec flow)) limit)) (\<lambda>cv.
        if cv \<noteq> da_coverage digest then pfail ''publication_invalid_input''
        else sbind (other (read_artifact flow rd sc (da_extraction digest) limit)) (\<lambda>a.
        sbind (other (inspect sc (dc_source (ar_document a)) (ar_max_source_bytes a))) (\<lambda>_.
        Inr (\<lparr>ad_pub_scope = sc, ad_job_id = job_id, ad_pub_document = dc_document_id (ar_document a),
              ad_pub_version = dc_version_id (ar_document a), ad_pub_extraction_id = ar_extraction_id a,
              ad_extraction = da_extraction digest, ad_digest = hd manifest\<rparr>, a, digest, pl))))))))))))"

section \<open>The reader\<close>

definition reader_manifest :: "'i reader_env \<Rightarrow> bool \<Rightarrow> uuid \<Rightarrow> 'v publication_world \<Rightarrow> publication_exception + publication_manifest" where
  "reader_manifest env compatible g w =
     published_only ''publication_validation_failed'' (
     sbind (of_publication (candidate g (pw_authority w))) (\<lambda>(ref, _, base).
     sbind (other (store_read (rv_prims env) (we_sha (rv_flow env)) (pw_objects w) (rv_scope env) ref publication_limit)) (\<lambda>data.
     sbind (other (decode (rv_manifest env) data publication_limit)) (\<lambda>m.
     if pm_base m \<noteq> base \<or> pm_generation m \<noteq> g \<or> pm_scope m \<noteq> rv_scope env \<or> compatible \<and> pm_profile m \<noteq> rv_profile env
     then pfail ''publication_incompatible'' else Inr m))))"

text \<open>Equality of dictionaries.\<close>

definition dict_equal :: "('v \<Rightarrow> 'w \<Rightarrow> bool) \<Rightarrow> ('k \<times> 'v) list \<Rightarrow> ('k \<times> 'w) list \<Rightarrow> bool" where
  "dict_equal eq xs ys \<longleftrightarrow> set (map fst xs) = set (map fst ys)
     \<and> list_all (\<lambda>k. case (map_of xs k, map_of ys k) of (Some v, Some v') \<Rightarrow> eq v v' | _ \<Rightarrow> False) (map fst xs)"

definition record_metadata :: "publication_manifest \<Rightarrow> retrieval_record \<Rightarrow> metadata" where
  "record_metadata m r = map (\<lambda>(k, v). (k, Meta_text (points v))) (vector_metadata m r)"

definition inventory_matches :: "publication_manifest \<Rightarrow> retrieval_record list \<Rightarrow> vector_document list \<Rightarrow> bool" where
  "inventory_matches m rs listed \<longleftrightarrow>
     (let wanted = dict_of (map (\<lambda>r. (Some (Meta_text (points (uuid_text (rr_record_id r)))), (rr_text r, record_metadata m r))) rs);
          actual = dict_of (map (\<lambda>x. (map_of (vd_metadata x) ''record_id'', (vd_document x, vd_metadata x))) listed)
      in length listed = length wanted \<and> dict_equal (\<lambda>(t, md) (t', md'). t = t' \<and> dict_equal (=) md md') actual wanted)"

text \<open>The records of the selected documents, computed again from their accepted jobs.\<close>

definition recompute_document :: "'i reader_env \<Rightarrow> obj_store \<Rightarrow> ledger \<Rightarrow> accepted_document \<Rightarrow> retrieval_record list
    \<Rightarrow> publication_exception + retrieval_record list" where
  "recompute_document env d db doc rows =
     sbind (accepted env d db (ad_job_id doc)) (\<lambda>(verified, a, digest, pl).
     if verified \<noteq> doc then pfail ''provenance_invalid''
     else sbind (document_records (rv_prims env) (rv_count env) a doc digest pl (rv_profile env)) (\<lambda>rs. Inr (rows @ rs)))"

definition recomputed :: "'i reader_env \<Rightarrow> obj_store \<Rightarrow> ledger \<Rightarrow> accepted_document list \<Rightarrow> publication_exception + retrieval_record list" where
  "recomputed env d db docs = fold_sum (recompute_document env d db) docs []"

definition reader_validate :: "'i reader_env \<Rightarrow> 'v vector_port \<Rightarrow> uuid \<Rightarrow> bool \<Rightarrow> uuid list option \<Rightarrow> publication_manifest option
    \<Rightarrow> 'v publication_world \<Rightarrow> publication_exception + publication_manifest" where
  "reader_validate env vp g sparse document_ids pinned w =
     published_only ''publication_validation_failed'' (
     sbind (case pinned of Some m \<Rightarrow> Inr m | None \<Rightarrow> reader_manifest env True g w) (\<lambda>m.
     let published = map ad_pub_document (pm_documents m);
         selected = (case document_ids of Some ids \<Rightarrow> set ids | None \<Rightarrow> set published);
         selected_records = filter (\<lambda>r. rr_document_id r \<in> selected) (pm_records m) in
     if pm_generation m \<noteq> g \<or> pm_scope m \<noteq> rv_scope env then pfail ''provenance_invalid''
     else if \<not> selected \<subseteq> set published then pfail ''retrieval_scope_invalid''
     else sbind (recomputed env (pw_objects w) (pw_jobs w) (filter (\<lambda>d. ad_pub_document d \<in> selected) (pm_documents m))) (\<lambda>expected.
     if \<not> dict_equal (=) (dict_of (map (\<lambda>r. (rr_record_id r, r)) expected)) (dict_of (map (\<lambda>r. (rr_record_id r, r)) selected_records))
     then pfail ''provenance_invalid''
     else case vp_list vp (pw_vectors w) (Some \<lparr>vf_generation = uuid_text g,
           vf_documents = (case document_ids of Some ids \<Rightarrow> map uuid_text ids | None \<Rightarrow> [])\<rparr>) of
         None \<Rightarrow> Inl Publication_other
       | Some listed \<Rightarrow>
           if \<not> inventory_matches m selected_records listed then pfail ''publication_validation_failed''
           else let corpus = map (tokenize (rv_tokens env) \<circ> rr_text) (pm_records m) in
             if sparse \<and> list_ex (\<lambda>ts. ts \<noteq> []) corpus \<and> be_build (rv_engine env) corpus = None then Inl Publication_other
             else Inr m)))"

section \<open>The service\<close>

datatype service_error = Publication_failed string | Security_failed security_error | Service_other

definition of_reader :: "publication_exception + 'a \<Rightarrow> service_error + 'a" where
  "of_reader r = (case r of Inl (Publication_failure c) \<Rightarrow> Inl (Publication_failed c) | Inl Publication_other \<Rightarrow> Inl Service_other | Inr x \<Rightarrow> Inr x)"

lemma of_reader_Inr [txn_simps]: "of_reader r = Inr x \<longleftrightarrow> r = Inr x"
  by (auto simp: of_reader_def split: sum.splits publication_exception.splits)

type_synonym ('v, 'a) service = "(service_error, 'v publication_world, 'a) effect"

definition reading :: "('v publication_world \<Rightarrow> publication_exception + 'a) \<Rightarrow> ('v, 'a) service" where
  "reading f w = (of_reader (f w), w)"

text \<open>A transaction of the publication authority.\<close>

definition authority_call :: "(string, publication_db, 'a) txn \<Rightarrow> ('v, 'a) service" where
  "authority_call t w = (case t (pw_authority w) of
     Inl e \<Rightarrow> (Inl (Publication_failed e), w) | Inr (x, db) \<Rightarrow> (Inr x, w\<lparr>pw_authority := db\<rparr>))"

lemma reading_iff [txn_simps]: "reading f w = (Inr x, w') \<longleftrightarrow> f w = Inr x \<and> w' = w"
  by (auto simp: reading_def txn_simps)

text \<open>\<^verbatim>\<open>_manage\<close>: a call without authorization passes unless authentication is configured.\<close>

definition manage :: "'i reader_env \<Rightarrow> principal option \<Rightarrow> ('v, unit) service" where
  "manage env authorization w =
     (case authorization of
        None \<Rightarrow> (if rv_oidc env then Inl (Security_failed Access_denied) else Inr (), w)
      | Some p \<Rightarrow>
          (let (r, db) = authorize (rv_audit_limit env) (rv_time env (pw_clock w)) p PUBLICATION_MANAGE No_resource (pw_security w);
               w' = w\<lparr>pw_security := db, pw_clock := Suc (pw_clock w)\<rparr> in
           (case r of Inl e \<Rightarrow> Inl (Security_failed e)
            | Inr _ \<Rightarrow> if tenant (p_scope p) \<noteq> tenant (rv_scope env) then Inl (Security_failed Access_denied) else Inr (), w')))"

text \<open>The hook of the operations: it answers whether it returned.\<close>

type_synonym 'v hook = "string \<Rightarrow> 'v publication_world \<Rightarrow> bool \<times> 'v publication_world"

definition no_hook :: "'v hook" where "no_hook point w = (True, w)"

definition checkpoint_at :: "'v hook \<Rightarrow> string \<Rightarrow> ('v, unit) service" where
  "checkpoint_at hook point w = (case hook point w of (ok, w') \<Rightarrow> (if ok then Inr () else Inl Service_other, w'))"

definition record_json :: "retrieval_record \<Rightarrow> json" where
  "record_json r = JObj ((''record_id'', uuid_json (rr_record_id r)) # record_fields r)"

definition document_json :: "accepted_document \<Rightarrow> json" where
  "document_json d = JObj [(''scope'', scope_json (ad_pub_scope d)), (''job_id'', uuid_json (ad_job_id d)), (''document_id'', uuid_json (ad_pub_document d)),
     (''document_version_id'', uuid_json (ad_pub_version d)), (''extraction_id'', uuid_json (ad_pub_extraction_id d)),
     (''extraction'', ref_json (ad_extraction d)), (''digest'', ref_json (ad_digest d)), (''status'', JStr ''COMPLETE'')]"

definition manifest_json :: "publication_manifest \<Rightarrow> json" where
  "manifest_json m = JObj [(''schema_version'', JStr ''publication/1''), (''generation'', uuid_json (pm_generation m)), (''scope'', scope_json (pm_scope m)),
     (''base'', active_json (pm_base m)), (''profile'', retrieval_profile_json (pm_profile m)), (''documents'', JArr (map document_json (pm_documents m))),
     (''records'', JArr (map record_json (pm_records m))), (''removed_versions'', JArr (map uuid_json (pm_removed m))), (''policy'', JStr ''COMPLETE_ONLY'')]"

definition manifest_object :: "prims \<Rightarrow> uuid \<Rightarrow> uuid" where
  "manifest_object H g = stable_id H [''publication-manifest/1'', uuid_text g]"

text \<open>Writing the manifest object: the encoder checks the model again.\<close>

definition put_manifest :: "'i reader_env \<Rightarrow> publication_manifest \<Rightarrow> ('v, object_ref) service" where
  "put_manifest env m w =
     (let H = rv_prims env in
      case encode H (publication_manifest_valid H m) (manifest_json m) of Inl _ \<Rightarrow> (Inl Service_other, w)
      | Inr text \<Rightarrow> (case put_object H (we_sha (rv_flow env)) (rv_scope env) Artifact (manifest_object H (pm_generation m)) (ascii_bytes text)
            publication_limit None (pw_objects w) of
          Inl _ \<Rightarrow> (Inl Service_other, w) | Inr (ref, d) \<Rightarrow> (Inr ref, w\<lparr>pw_objects := d\<rparr>)))"

text \<open>A candidate with the records, profile and digests of the active publication is the active publication.\<close>

definition unchanged :: "publication_manifest \<Rightarrow> publication_manifest \<Rightarrow> bool" where
  "unchanged m previous \<longleftrightarrow> pm_records m = pm_records previous \<and> pm_profile m = pm_profile previous
     \<and> map ad_digest (pm_documents m) = map ad_digest (pm_documents previous)"

definition service_plan :: "'i reader_env \<Rightarrow> 'v vector_port \<Rightarrow> uuid list \<Rightarrow> principal option \<Rightarrow> ('v, publication_manifest) service" where
  "service_plan env vp job_ids authorization =
     wbind (manage env authorization) (\<lambda>_.
     wbind (reading (\<lambda>w. Inr (pb_active (pw_authority w)))) (\<lambda>base.
     wbind (case ap_generation base of None \<Rightarrow> wlift (Inr None)
            | Some g \<Rightarrow> wbind (reading (reader_manifest env False g)) (\<lambda>m. wlift (Inr (Some m)))) (\<lambda>previous.
     wbind (reading (\<lambda>w. plan_publication (rv_prims env) (rv_count env) (accepted env (pw_objects w) (pw_jobs w)) (rv_scope env) job_ids base
              (rv_profile env) previous)) (\<lambda>m.
     if (case previous of None \<Rightarrow> False | Some p \<Rightarrow> unchanged m p)
     then wbind (reading (reader_validate env vp (pm_generation (the previous)) False None None)) (\<lambda>_. wlift (Inr (the previous)))
     else wbind (reading (\<lambda>w. Inr (find_candidate (pw_authority w) (pm_generation m) \<noteq> None))) (\<lambda>known.
       if known then reading (reader_manifest env True (pm_generation m))
       else wbind (put_manifest env m) (\<lambda>ref.
         wbind (authority_call (register_candidate (pm_generation m) (pm_base m) ref)) (\<lambda>_. wlift (Inr m))))))))"

definition write_record :: "'i reader_env \<Rightarrow> 'v vector_port \<Rightarrow> uuid \<Rightarrow> publication_manifest \<Rightarrow> retrieval_record \<Rightarrow> ('v, unit) service" where
  "write_record env vp g m r w =
     (case embed (rv_count env) (rv_vector env) (rv_profile env) (rr_text r) of
        Inl e \<Rightarrow> (of_reader (Inl e), w)
      | Inr v \<Rightarrow> (case vp_upsert vp (physical_id (rv_prims env) g (rr_record_id r)) (rr_text r) v (record_metadata m r) (pw_vectors w) of
          (ok, vs) \<Rightarrow> (if ok then Inr () else Inl Service_other, w\<lparr>pw_vectors := vs\<rparr>)))"

fun write_records :: "'i reader_env \<Rightarrow> 'v vector_port \<Rightarrow> 'v hook \<Rightarrow> principal option \<Rightarrow> uuid \<Rightarrow> publication_manifest \<Rightarrow> retrieval_record list \<Rightarrow> ('v, unit) service" where
  "write_records env vp hook authorization g m [] = wlift (Inr ())"
| "write_records env vp hook authorization g m (r # rs) =
     wbind (manage env authorization) (\<lambda>_.
     wbind (write_record env vp g m r) (\<lambda>_.
     wbind (checkpoint_at hook ''after_write'') (\<lambda>_.
     write_records env vp hook authorization g m rs)))"

definition prepare_body :: "'i reader_env \<Rightarrow> 'v vector_port \<Rightarrow> 'v hook \<Rightarrow> principal option \<Rightarrow> uuid \<Rightarrow> publication_manifest \<Rightarrow> ('v, publication_manifest) service" where
  "prepare_body env vp hook authorization g m =
     wbind (checkpoint_at hook ''before_writes'') (\<lambda>_.
     wbind (write_records env vp hook authorization g m (pm_records m)) (\<lambda>_.
     wbind (checkpoint_at hook ''after_writes'') (\<lambda>_.
     wbind (reading (reader_validate env vp g True None None)) (\<lambda>_.
     wbind (checkpoint_at hook ''after_validation'') (\<lambda>_.
     wbind (authority_call (mark g READY None)) (\<lambda>_. wlift (Inr m)))))))"

definition service_prepare :: "'i reader_env \<Rightarrow> 'v vector_port \<Rightarrow> 'v hook \<Rightarrow> uuid \<Rightarrow> principal option \<Rightarrow> ('v, publication_manifest) service" where
  "service_prepare env vp hook g authorization =
     wbind (manage env authorization) (\<lambda>_.
     wbind (reading (reader_manifest env True g)) (\<lambda>m.
     wbind (reading (\<lambda>w. of_publication (candidate g (pw_authority w)))) (\<lambda>(_, state, base).
     if state = ACCEPTED then reading (reader_validate env vp g False None None)
     else wbind (reading (\<lambda>w. Inr (pb_active (pw_authority w)))) (\<lambda>active.
       if active \<noteq> base
       then wbind (authority_call (mark g STALE None)) (\<lambda>_. wlift (of_reader (pfail ''publication_stale_candidate'')))
       else (\<lambda>w. case prepare_body env vp hook authorization g m w of
           (Inr m', w') \<Rightarrow> (Inr m', w')
         | (Inl _, w') \<Rightarrow> wbind (authority_call (mark g FAILED (Some ''publication_write_failure'')))
             (\<lambda>_. wlift (of_reader (pfail ''publication_write_failure''))) w')))))"

definition service_activate :: "'i reader_env \<Rightarrow> 'v vector_port \<Rightarrow> 'v hook \<Rightarrow> uuid \<Rightarrow> principal option \<Rightarrow> ('v, active_publication) service" where
  "service_activate env vp hook g authorization =
     wbind (manage env authorization) (\<lambda>_.
     wbind (reading (reader_validate env vp g True None None)) (\<lambda>_.
     wbind (reading (\<lambda>w. of_publication (candidate g (pw_authority w)))) (\<lambda>(_, _, base).
     wbind (checkpoint_at hook ''before_activation'') (\<lambda>_.
     wbind (manage env authorization) (\<lambda>_.
     wbind (authority_call (publication_activate g base Forward)) (\<lambda>result.
     wbind (checkpoint_at hook ''after_activation'') (\<lambda>_. wlift (Inr result))))))))"

definition service_rollback :: "'i reader_env \<Rightarrow> 'v vector_port \<Rightarrow> 'v hook \<Rightarrow> uuid \<Rightarrow> active_publication \<Rightarrow> principal option \<Rightarrow> ('v, active_publication) service" where
  "service_rollback env vp hook g expected authorization =
     wbind (manage env authorization) (\<lambda>_.
     wbind (reading (reader_validate env vp g True None None)) (\<lambda>_.
     wbind (checkpoint_at hook ''before_activation'') (\<lambda>_.
     wbind (manage env authorization) (\<lambda>_.
     wbind (authority_call (publication_activate g expected Rollback)) (\<lambda>result.
     wbind (checkpoint_at hook ''after_activation'') (\<lambda>_. wlift (Inr result)))))))"

definition service_revoke :: "'i reader_env \<Rightarrow> 'v vector_port \<Rightarrow> 'v hook \<Rightarrow> uuid list \<Rightarrow> principal option \<Rightarrow> ('v, active_publication) service" where
  "service_revoke env vp hook document_ids authorization =
     wbind (manage env authorization) (\<lambda>_.
     wbind (reading (\<lambda>w. Inr (pb_active (pw_authority w)))) (\<lambda>active.
     case ap_generation active of None \<Rightarrow> wlift (of_reader (pfail ''retrieval_scope_invalid''))
     | Some g \<Rightarrow>
         wbind (reading (reader_manifest env True g)) (\<lambda>current.
         if document_ids = [] \<or> \<not> set document_ids \<subseteq> set (map ad_pub_document (pm_documents current))
         then wlift (of_reader (pfail ''retrieval_scope_invalid''))
         else wbind (service_plan env vp (map ad_job_id (filter (\<lambda>d. ad_pub_document d \<notin> set document_ids) (pm_documents current))) authorization) (\<lambda>m.
           wbind (service_prepare env vp hook (pm_generation m) authorization) (\<lambda>_.
           service_activate env vp hook (pm_generation m) authorization)))))"

text \<open>\<^verbatim>\<open>sorted\<close> of metadata values: text or numbers; it raises on two values that do not compare.\<close>

definition meta_number :: "meta_value \<Rightarrow> rat" where
  "meta_number v = (case v of Meta_int i \<Rightarrow> of_int i | Meta_bool b \<Rightarrow> of_bool b | Meta_float x \<Rightarrow> x | Meta_text _ \<Rightarrow> 0)"

definition sorted_values :: "meta_value option list \<Rightarrow> meta_value option list option" where
  "sorted_values vs =
     (if length vs \<le> 1 then Some vs
      else if list_all (\<lambda>v. case v of Some (Meta_text _) \<Rightarrow> True | _ \<Rightarrow> False) vs
      then Some (sort_key (\<lambda>v. case v of Some (Meta_text t) \<Rightarrow> t | _ \<Rightarrow> []) vs)
      else if list_all (\<lambda>v. case v of None \<Rightarrow> False | Some (Meta_text _) \<Rightarrow> False | _ \<Rightarrow> True) vs
      then Some (sort_key (\<lambda>v. case v of Some x \<Rightarrow> meta_number x | None \<Rightarrow> 0) vs)
      else None)"

definition service_reconcile :: "'i reader_env \<Rightarrow> 'v vector_port \<Rightarrow> principal option \<Rightarrow> ('v, meta_value option list \<times> string list) service" where
  "service_reconcile env vp authorization =
     wbind (manage env authorization) (\<lambda>_.
     wbind (reading (\<lambda>w. Inr (map fst (publication_inventory (pw_authority w))))) (\<lambda>known.
     wbind (\<lambda>w. (case vp_list vp (pw_vectors w) None of None \<Rightarrow> Inl Service_other | Some ds \<Rightarrow> Inr ds, w)) (\<lambda>listed.
     wbind (reading (\<lambda>w. Inr (pb_active (pw_authority w)))) (\<lambda>active.
     wbind (case ap_generation active of None \<Rightarrow> wlift (Inr ())
            | Some g \<Rightarrow> wbind (reading (reader_validate env vp g False None None)) (\<lambda>_. wlift (Inr ()))) (\<lambda>_.
     let physical = remdups (map (\<lambda>d. map_of (vd_metadata d) ''generation'') listed) in
     case sorted_values (filter (\<lambda>v. v \<notin> set (map (\<lambda>k. Some (Meta_text (points (uuid_text k)))) known)) physical) of
       None \<Rightarrow> wlift (Inl Service_other)
     | Some strays \<Rightarrow> wlift (Inr (strays, map uuid_text (filter (\<lambda>k. Some k \<noteq> ap_generation active) known))))))))"

section \<open>Authorized publication\<close>

text \<open>\<^verbatim>\<open>AuthorizedPublication.run\<close> of security/services.py: the operations by name.\<close>

datatype publication_request =
    Plan_request "uuid list" | Prepare_request uuid | Activate_request uuid | Rollback_request uuid active_publication
  | Revoke_request "uuid list" | Reconcile_request | Unknown_request

definition unit_of :: "('v, 'a) service \<Rightarrow> ('v, unit) service" where
  "unit_of f = wbind f (\<lambda>_. wlift (Inr ()))"

fun service_request :: "'i reader_env \<Rightarrow> 'v vector_port \<Rightarrow> 'v hook \<Rightarrow> principal option \<Rightarrow> publication_request \<Rightarrow> ('v, unit) service" where
  "service_request env vp hook p (Plan_request ids) = unit_of (service_plan env vp ids p)"
| "service_request env vp hook p (Prepare_request g) = unit_of (service_prepare env vp hook g p)"
| "service_request env vp hook p (Activate_request g) = unit_of (service_activate env vp hook g p)"
| "service_request env vp hook p (Rollback_request g expected) = unit_of (service_rollback env vp hook g expected p)"
| "service_request env vp hook p (Revoke_request ids) = unit_of (service_revoke env vp hook ids p)"
| "service_request env vp hook p Reconcile_request = unit_of (service_reconcile env vp p)"
| "service_request env vp hook p Unknown_request = wlift (Inl (Security_failed Access_denied))"

definition authorized_publication :: "'i reader_env \<Rightarrow> 'v vector_port \<Rightarrow> 'v hook \<Rightarrow> principal \<Rightarrow> publication_request \<Rightarrow> ('v, unit) service" where
  "authorized_publication env vp hook p request =
     (if request = Unknown_request then wlift (Inl (Security_failed Access_denied))
      else wbind (manage env (Some p)) (\<lambda>_. service_request env vp hook (Some p) request))"

section \<open>The preparation step of a worker\<close>

definition publication_step_spec :: "prims \<Rightarrow> publication_manifest \<Rightarrow> step_spec" where
  "publication_step_spec H m = \<lparr>sp_unit_id = ''publication/'' @ uuid_text (pm_generation m), sp_stage = NORMALIZING, sp_schema_version = ''publication/1'',
     sp_config_fingerprint = fingerprint H (manifest_json m), sp_depends_on = []\<rparr>"

text \<open>What the handler writes through the store of the worker, and the handler over that store.\<close>

definition prepared_object :: "'i reader_env \<Rightarrow> 'v vector_port \<Rightarrow> uuid \<Rightarrow> job_row \<Rightarrow> step_spec \<Rightarrow> ('v, scope \<times> uuid \<times> bytes) service" where
  "prepared_object env vp g job spec =
     wbind (reading (reader_manifest env True g)) (\<lambda>m.
     if ad_scope (jr_request job) \<noteq> pm_scope m \<or> spec \<noteq> publication_step_spec (rv_prims env) m
     then wlift (of_reader (pfail ''publication_invalid_input''))
     else wbind (service_prepare env vp no_hook g None) (\<lambda>_.
       case encode (rv_prims env) (publication_manifest_valid (rv_prims env) m) (manifest_json m) of
         Inl _ \<Rightarrow> wlift (Inl Service_other)
       | Inr text \<Rightarrow> wlift (Inr (pm_scope m, manifest_object (rv_prims env) (pm_generation m), ascii_bytes text))))"

definition publication_handler :: "'i reader_env \<Rightarrow> 'v vector_port \<Rightarrow> 'u put_port \<Rightarrow> uuid \<Rightarrow> job_row \<Rightarrow> step_spec
    \<Rightarrow> (service_error, 'v publication_world \<times> 'u, object_ref list) effect" where
  "publication_handler env vp put g job spec = (\<lambda>(w, u).
     case prepared_object env vp g job spec w of
       (Inl e, w') \<Rightarrow> (Inl e, (w', u))
     | (Inr (sc, oid, data), w') \<Rightarrow> (case put sc Artifact oid data (pf_max_artifact_bytes (ad_profile (jr_request job))) None u of
           (Inl _, u') \<Rightarrow> (Inl Service_other, (w', u')) | (Inr ref, u') \<Rightarrow> (Inr [ref], (w', u'))))"

end
