(* ===== verification/ServiceTheorems.thy ===== *)
theory ServiceTheorems
  imports PublicationService AuthorityTheorems
begin

text \<open>
  What the publication service guarantees: its operations act on the publication authority only by the calls of the
  authority, whatever other processes do at its checkpoints, so the linear history of publications is kept;
  and a generation becomes active only when what the vector store lists for it is, item by item, exact
  source text of complete accepted digests.
\<close>

section \<open>The authority under the service\<close>

definition authority_run :: "'v publication_world \<Rightarrow> 'v publication_world \<Rightarrow> bool" where
  "authority_run w w' \<longleftrightarrow> publication_step\<^sup>*\<^sup>* (pw_authority w) (pw_authority w')"

definition disciplined :: "('e, 'v publication_world, 'a) effect \<Rightarrow> bool" where
  "disciplined f \<longleftrightarrow> (\<forall>w. authority_run w (snd (f w)))"

definition disciplined_hook :: "'v hook \<Rightarrow> bool" where
  "disciplined_hook hook \<longleftrightarrow> (\<forall>point w. authority_run w (snd (hook point w)))"

lemma authority_run_order: "reflp authority_run" "transp authority_run"
  by (auto simp: authority_run_def reflp_def transp_def)

lemma disciplined_bind [intro]:
  assumes "disciplined f" and "\<And>x. disciplined (g x)"
  shows "disciplined (wbind f g)"
  unfolding disciplined_def
proof
  fix w
  have r: "authority_run w w1" if "f w = (r, w1)" for w r w1 using assms(1) that unfolding disciplined_def by (metis snd_conv)
  have s: "authority_run w w1" if "g x w = (r, w1)" for x w r w1 using assms(2) [of x] that unfolding disciplined_def by (metis snd_conv)
  show "authority_run w (snd (wbind f g w))"
    by (rule wbind_rel [OF authority_run_order r s prod.collapse [symmetric]])
qed

lemma disciplined_basic [intro, simp]: "disciplined (wlift r)" "disciplined (reading f)" "disciplined (\<lambda>w. (h w, w))"
  by (auto simp: disciplined_def wlift_def reading_def authority_run_def)

lemma disciplined_manage [intro, simp]: "disciplined (manage env authorization)"
  by (auto simp: disciplined_def manage_def authority_run_def Let_def case_prod_unfold split: option.splits)

lemma disciplined_put_manifest [intro, simp]: "disciplined (put_manifest env m)"
  by (auto simp: disciplined_def put_manifest_def authority_run_def Let_def split: sum.splits prod.splits)

lemma disciplined_write_record [intro, simp]: "disciplined (write_record env vp g m r)"
  by (auto simp: disciplined_def write_record_def authority_run_def split: sum.splits prod.splits)

lemma disciplined_checkpoint [intro]: "disciplined_hook hook \<Longrightarrow> disciplined (checkpoint_at hook point)"
  by (auto simp: disciplined_def disciplined_hook_def checkpoint_at_def split: prod.splits) (metis snd_conv)

lemma disciplined_call:
  assumes "\<And>db. publication_step\<^sup>*\<^sup>* db (snd (run_txn t db))"
  shows "disciplined (authority_call t)"
  unfolding disciplined_def
proof
  fix w
  show "authority_run w (snd (authority_call t w))"
    using assms [of "pw_authority w"] by (auto simp: authority_call_def authority_run_def run_txn_def split: sum.splits)
qed

lemma publication_call_step: "publication_step\<^sup>*\<^sup>* db (publication_run c db)"
  by (auto intro: publication_step.call)

lemma disciplined_calls [intro, simp]:
  "disciplined (authority_call (register_candidate g base ref))"
  "disciplined (authority_call (mark g state err))"
  "disciplined (authority_call (publication_activate g expected operation))"
  using publication_call_step [of _ "Register g base ref"] publication_call_step [of _ "Mark g state err"]
    publication_call_step [of _ "Activate g expected operation"]
  by (simp_all add: disciplined_call)

lemma disciplined_cases:
  "disciplined f \<Longrightarrow> disciplined g \<Longrightarrow> disciplined (if b then f else g)"
  "disciplined f \<Longrightarrow> (\<And>x. disciplined (h x)) \<Longrightarrow> disciplined (case v of None \<Rightarrow> f | Some x \<Rightarrow> h x)"
  "(\<And>x y. disciplined (k x y)) \<Longrightarrow> disciplined (case p of (x, y) \<Rightarrow> k x y)"
  "disciplined (d u) \<Longrightarrow> disciplined (Let u d)"
  by (auto split: option.splits prod.splits)

lemmas disciplined_rules = disciplined_bind disciplined_cases disciplined_basic disciplined_manage disciplined_put_manifest
  disciplined_write_record disciplined_calls disciplined_checkpoint

lemma disciplined_plan: "disciplined (service_plan env vp job_ids authorization)"
  unfolding service_plan_def by (intro disciplined_rules)

lemma disciplined_writes: "disciplined_hook hook \<Longrightarrow> disciplined (write_records env vp hook authorization g m rs)"
  by (induction rs) (auto intro!: disciplined_rules)

lemma disciplined_prepare:
  assumes "disciplined_hook hook"
  shows "disciplined (service_prepare env vp hook g authorization)"
proof -
  let ?failed = "wbind (authority_call (mark g FAILED (Some ''publication_write_failure''))) (\<lambda>_. wlift (of_reader (pfail ''publication_write_failure'')))"
  have body: "disciplined (prepare_body env vp hook authorization g m)" for m
    unfolding prepare_body_def using assms by (intro disciplined_rules disciplined_writes)
  have failed: "disciplined ?failed" by (intro disciplined_rules)
  have "disciplined (\<lambda>w. case prepare_body env vp hook authorization g m w of (Inr m', w') \<Rightarrow> (Inr m', w') | (Inl e, w') \<Rightarrow> ?failed w')" for m
    unfolding disciplined_def
  proof
    fix w
    obtain r w1 where r: "prepare_body env vp hook authorization g m w = (r, w1)" by (cases "prepare_body env vp hook authorization g m w")
    with body [of m] have "authority_run w w1" unfolding disciplined_def by (metis snd_conv)
    moreover have "authority_run w1 (snd (?failed w1))" using failed unfolding disciplined_def by blast
    ultimately have "authority_run w (snd (?failed w1))" using authority_run_order(2) by (rule transpD [rotated])
    with r \<open>authority_run w w1\<close> show "authority_run w (snd (case prepare_body env vp hook authorization g m w of
        (Inr m', w') \<Rightarrow> (Inr m', w') | (Inl e, w') \<Rightarrow> ?failed w'))" by (cases r) auto
  qed
  then show ?thesis unfolding service_prepare_def by (intro disciplined_rules)
qed

lemma disciplined_activate: "disciplined_hook hook \<Longrightarrow> disciplined (service_activate env vp hook g authorization)"
  unfolding service_activate_def by (intro disciplined_rules)

lemma disciplined_rollback: "disciplined_hook hook \<Longrightarrow> disciplined (service_rollback env vp hook g expected authorization)"
  unfolding service_rollback_def by (intro disciplined_rules)

lemma disciplined_revoke: "disciplined_hook hook \<Longrightarrow> disciplined (service_revoke env vp hook document_ids authorization)"
  unfolding service_revoke_def by (intro disciplined_rules disciplined_plan disciplined_prepare disciplined_activate)

lemma disciplined_reconcile: "disciplined (service_reconcile env vp authorization)"
  unfolding service_reconcile_def by (intro disciplined_rules)

lemma disciplined_request:
  assumes "disciplined_hook hook"
  shows "disciplined (service_request env vp hook p request)"
  using assms by (cases request)
    (auto simp: unit_of_def intro!: disciplined_rules disciplined_plan disciplined_prepare disciplined_activate disciplined_rollback
      disciplined_revoke disciplined_reconcile)

text \<open>The service keeps the history of publications linear. Whatever an authorized request to the service does, whether it
  succeeds or fails, and whatever other processes do to the authority at its checkpoints by calls of their own, the
  authority is left in a reachable state: one linear history of epochs and accepted generations.\<close>

lemma service_keeps_history:
  assumes "reachable (\<lambda>db. db = empty_publication) publication_step (pw_authority w)" and "disciplined_hook hook"
  shows "reachable (\<lambda>db. db = empty_publication) publication_step (pw_authority (snd (authorized_publication env vp hook p request w)))"
proof -
  have "disciplined (authorized_publication env vp hook p request)"
    unfolding authorized_publication_def using assms(2) by (intro disciplined_rules disciplined_request)
  then have run: "publication_step\<^sup>*\<^sup>* (pw_authority w) (pw_authority (snd (authorized_publication env vp hook p request w)))"
    by (simp add: disciplined_def authority_run_def)
  from run assms(1) show ?thesis by (induction rule: rtranclp_induct) (auto intro: reachable.step)
qed

definition sample_reader :: "unit reader_env" where
  "sample_reader = \<lparr>rv_flow = \<lparr>we_prims = sample_prims, we_lang = sample_lang, we_sha = (\<lambda>_. sample_hex), we_serialize = (\<lambda>_. [1, 2]),
       we_codec = \<lparr>cd_plan = (\<lambda>_. Malformed), cd_checkpoint = (\<lambda>_. Malformed), cd_result = (\<lambda>_. Malformed), cd_digest = (\<lambda>_. Malformed),
         cd_coverage = (\<lambda>_. Malformed), cd_artifact = (\<lambda>_ _. Inl Other_exception)\<rparr>\<rparr>,
     rv_scope = \<lparr>tenant = 1, owner = 2\<rparr>, rv_profile = sample_retrieval, rv_count = (\<lambda>t. int (length t)), rv_vector = (\<lambda>_. []),
     rv_tokens = \<lparr>tl_lower = (\<lambda>t. t), tl_word = (\<lambda>_. False)\<rparr>, rv_engine = \<lparr>be_build = (\<lambda>_. Some ()), be_scores = (\<lambda>_ _. [])\<rparr>,
     rv_manifest = (\<lambda>_. Malformed), rv_oidc = False, rv_audit_limit = 100, rv_time = (\<lambda>_. 0)\<rparr>"

definition sample_vectors :: "unit vector_port" where
  "sample_vectors = \<lparr>vp_list = (\<lambda>_ _. Some []), vp_upsert = (\<lambda>_ _ _ _ v. (True, v)), vp_search = (\<lambda>_ _ _ _. Some [])\<rparr>"

definition sample_publication_world :: "unit publication_world" where
  "sample_publication_world = \<lparr>pw_authority = empty_publication, pw_objects = Map.empty, pw_jobs = empty_ledger, pw_vectors = (),
     pw_security = sample_enrolled, pw_clock = 0\<rparr>"

section \<open>What a validated generation serves\<close>

text \<open>A record whose text is what its evidence resolves to in the artifact of a complete accepted digest.\<close>

definition record_sourced :: "'i reader_env \<Rightarrow> obj_store \<Rightarrow> ledger \<Rightarrow> retrieval_record \<Rightarrow> bool" where
  "record_sourced env d db r \<longleftrightarrow> (\<exists>doc a digest pl. accepted env d db (ad_job_id doc) = Inr (doc, a, digest, pl)
     \<and> da_status digest = D_COMPLETE \<and> record_exact (rv_prims env) (rv_count env) (rv_profile env) a r)"

lemma accepted_complete: "accepted env d db k = Inr (doc, a, digest, pl) \<Longrightarrow> da_status digest = D_COMPLETE"
  by (auto simp: accepted_def Let_def txn_simps case_prod_unfold split: if_splits option.splits)

lemma recompute_document_sourced:
  assumes "recompute_document env d db doc rows = Inr rows'" and "list_all (record_sourced env d db) rows"
  shows "list_all (record_sourced env d db) rows'"
proof -
  from assms(1) obtain a digest pl new where acc: "accepted env d db (ad_job_id doc) = Inr (doc, a, digest, pl)"
    and new: "document_records (rv_prims env) (rv_count env) a doc digest pl (rv_profile env) = Inr new" "rows' = rows @ new"
    by (auto simp: recompute_document_def txn_simps split: if_splits)
  have "list_all (record_exact (rv_prims env) (rv_count env) (rv_profile env) a) new"
    using records_fold [OF new(1) [unfolded document_records_def]] by simp
  then have "list_all (record_sourced env d db) new"
    using acc accepted_complete [OF acc] unfolding record_sourced_def list_all_iff by blast
  with new(2) assms(2) show ?thesis by simp
qed

lemma recomputed_sourced:
  "recomputed env d db docs = Inr rs \<Longrightarrow> list_all (record_sourced env d db) rs"
  unfolding recomputed_def by (erule fold_sum_inv) (auto intro: recompute_document_sourced)

lemma dict_equalD:
  assumes "dict_equal eq xs ys" and "map_of xs k = Some v"
  shows "\<exists>v'. map_of ys k = Some v' \<and> eq v v'"
proof -
  from assms(2) have "k \<in> set (map fst xs)" by (metis list.set_map map_of_eq_None_iff option.distinct(1))
  with assms(1) have "case (map_of xs k, map_of ys k) of (Some v, Some v') \<Rightarrow> eq v v' | _ \<Rightarrow> False"
    unfolding dict_equal_def list_all_iff by blast
  with assms(2) show ?thesis by (cases "map_of ys k") auto
qed

lemma dict_equal_map: "dict_equal (=) xs ys \<longleftrightarrow> map_of xs = map_of ys"
proof
  assume eq: "dict_equal (=) xs ys"
  show "map_of xs = map_of ys"
  proof
    fix k
    show "map_of xs k = map_of ys k"
    proof (cases "map_of xs k")
      case None
      then have "k \<notin> set (map fst ys)" using eq by (simp add: dict_equal_def map_of_eq_None_iff)
      then have "map_of ys k = None" by (simp add: map_of_eq_None_iff)
      with None show ?thesis by simp
    next
      case (Some v)
      with dict_equalD [OF eq Some] show ?thesis by auto
    qed
  qed
next
  assume eq: "map_of xs = map_of ys"
  then have "fst ` set xs = fst ` set ys" by (metis dom_map_of_conv_image_fst)
  moreover have "k \<in> fst ` set xs \<Longrightarrow> map_of xs k \<noteq> None" for k by (simp add: map_of_eq_None_iff)
  ultimately show "dict_equal (=) xs ys" using eq by (fastforce simp: dict_equal_def list_all_iff split: option.splits)
qed

text \<open>A dictionary keyed by an injective image of the keys of another.\<close>

lemma map_of_rekey:
  assumes "inj h"
  shows "map_of (map (\<lambda>r. (h (f r), e r)) rs) (h i) = map_option e (map_of (map (\<lambda>r. (f r, r)) rs) i)"
  using assms by (induction rs) (auto dest: injD)

lemma dict_of_rekey:
  assumes "inj h"
  shows "map_of (dict_of (map (\<lambda>r. (h (f r), e r)) rs)) (h i) = map_option e (map_of (dict_of (map (\<lambda>r. (f r, r)) rs)) i)"
  using map_of_rekey [OF assms, of f e "rev rs" i] by (simp add: map_of_dict_of rev_map)

lemma dict_of_distinct:
  assumes "length kvs = length ys" and "distinct (map fst ys)" and "fst ` set kvs = fst ` set ys"
  shows "distinct (map fst kvs)"
proof -
  have "card (set (map fst kvs)) = card (set (map fst ys))" using assms(3) by simp
  also have "\<dots> = length kvs" using assms(1) distinct_card [OF assms(2)] by simp
  finally show ?thesis by (intro card_distinct) simp
qed

lemma inventory_item:
  assumes "inventory_matches m rs listed" and "x \<in> set listed"
  shows "\<exists>r. map_of (dict_of (map (\<lambda>r. (rr_record_id r, r)) rs)) (rr_record_id r) = Some r
    \<and> vd_document x = rr_text r \<and> map_of (vd_metadata x) = map_of (record_metadata m r)"
proof -
  let ?h = "\<lambda>i. Some (Meta_text (points (uuid_text i)))"
  let ?kvs = "map (\<lambda>x. (map_of (vd_metadata x) ''record_id'', (vd_document x, vd_metadata x))) listed"
  let ?wanted = "dict_of (map (\<lambda>r. (?h (rr_record_id r), (rr_text r, record_metadata m r))) rs)"
  have len: "length ?kvs = length ?wanted" and eq: "dict_equal (\<lambda>(t, md) (t', md'). t = t' \<and> dict_equal (=) md md') (dict_of ?kvs) ?wanted"
    using assms(1) by (simp_all add: inventory_matches_def Let_def)
  have "fst ` set ?kvs = fst ` set ?wanted" using eq dict_of_keys [of ?kvs] by (simp add: dict_equal_def)
  from dict_of_distinct [OF len distinct_dict_of this] have "distinct (map fst ?kvs)" .
  then have "map_of (dict_of ?kvs) (map_of (vd_metadata x) ''record_id'') = Some (vd_document x, vd_metadata x)"
    unfolding dict_of_unique [OF \<open>distinct (map fst ?kvs)\<close>] by (rule map_of_is_SomeI) (use assms(2) in auto)
  from dict_equalD [OF eq this] obtain t md where w: "map_of ?wanted (map_of (vd_metadata x) ''record_id'') = Some (t, md)"
    and t: "vd_document x = t" "dict_equal (=) (vd_metadata x) md" by auto
  from w have "(map_of (vd_metadata x) ''record_id'', t, md) \<in> set (map (\<lambda>r. (?h (rr_record_id r), (rr_text r, record_metadata m r))) rs)"
    unfolding map_of_dict_of by (rule map_of_rev_SomeD)
  then obtain i where i: "map_of (vd_metadata x) ''record_id'' = ?h i" by auto
  have "inj ?h" by (auto intro!: injI simp: points_def inj_map_eq_map inj_of_char dest: uuid_text_inj)
  from dict_of_rekey [OF this, of rr_record_id "\<lambda>r. (rr_text r, record_metadata m r)" rs i] w i
  obtain r where r: "map_of (dict_of (map (\<lambda>r. (rr_record_id r, r)) rs)) i = Some r" "t = rr_text r" "md = record_metadata m r" by auto
  then have "(i, r) \<in> set (map (\<lambda>r. (rr_record_id r, r)) rs)" unfolding map_of_dict_of by (intro map_of_rev_SomeD)
  then have "rr_record_id r = i" by auto
  with r t show ?thesis by (auto simp: dict_equal_map)
qed

text \<open>What a validated generation lists: exact source text, item by item.\<close>

definition serves_source :: "'i reader_env \<Rightarrow> publication_manifest \<Rightarrow> obj_store \<Rightarrow> ledger \<Rightarrow> vector_document list \<Rightarrow> bool" where
  "serves_source env m d db listed \<longleftrightarrow> list_all (\<lambda>x. \<exists>r. record_sourced env d db r \<and> vd_document x = rr_text r
     \<and> map_of (vd_metadata x) = map_of (record_metadata m r)) listed"

lemma validate_serves:
  assumes "reader_validate env vp g sparse document_ids pinned w = Inr m"
  shows "pm_generation m = g \<and> (\<exists>listed. vp_list vp (pw_vectors w) (Some \<lparr>vf_generation = uuid_text g,
      vf_documents = (case document_ids of Some ids \<Rightarrow> map uuid_text ids | None \<Rightarrow> [])\<rparr>) = Some listed
    \<and> serves_source env m (pw_objects w) (pw_jobs w) listed)"
proof -
  define rs where "rs = filter (\<lambda>r. rr_document_id r \<in> (case document_ids of Some ids \<Rightarrow> set ids | None \<Rightarrow> set (map ad_pub_document (pm_documents m)))) (pm_records m)"
  define docs where "docs = filter (\<lambda>d. ad_pub_document d \<in> (case document_ids of Some ids \<Rightarrow> set ids | None \<Rightarrow> set (map ad_pub_document (pm_documents m)))) (pm_documents m)"
  from assms obtain expected listed where g: "pm_generation m = g" and e: "recomputed env (pw_objects w) (pw_jobs w) docs = Inr expected"
    and eq: "dict_equal (=) (dict_of (map (\<lambda>r. (rr_record_id r, r)) expected)) (dict_of (map (\<lambda>r. (rr_record_id r, r)) rs))"
    and l: "vp_list vp (pw_vectors w) (Some \<lparr>vf_generation = uuid_text g,
      vf_documents = (case document_ids of Some ids \<Rightarrow> map uuid_text ids | None \<Rightarrow> [])\<rparr>) = Some listed" "inventory_matches m rs listed"
    unfolding reader_validate_def rs_def docs_def Let_def by (auto simp: txn_simps split: if_splits option.splits)
  have "\<exists>r. record_sourced env (pw_objects w) (pw_jobs w) r \<and> vd_document x = rr_text r \<and> map_of (vd_metadata x) = map_of (record_metadata m r)"
    if x: "x \<in> set listed" for x
  proof -
    from inventory_item [OF l(2) x] obtain r where r: "map_of (dict_of (map (\<lambda>r. (rr_record_id r, r)) rs)) (rr_record_id r) = Some r"
      "vd_document x = rr_text r" "map_of (vd_metadata x) = map_of (record_metadata m r)" by blast
    with eq have "map_of (dict_of (map (\<lambda>r. (rr_record_id r, r)) expected)) (rr_record_id r) = Some r" by (simp add: dict_equal_map)
    then have "(rr_record_id r, r) \<in> set (map (\<lambda>r. (rr_record_id r, r)) expected)" unfolding map_of_dict_of by (rule map_of_rev_SomeD)
    then have "r \<in> set expected" by auto
    with recomputed_sourced [OF e] have "record_sourced env (pw_objects w) (pw_jobs w) r" by (simp add: list_all_iff)
    with r show ?thesis by blast
  qed
  with g l show ?thesis unfolding serves_source_def list_all_iff by blast
qed

lemma manage_keeps:
  assumes "manage env authorization w = (Inr u, w')"
  shows "pw_authority w' = pw_authority w \<and> pw_objects w' = pw_objects w \<and> pw_jobs w' = pw_jobs w \<and> pw_vectors w' = pw_vectors w
    \<and> (authorization = None \<longrightarrow> \<not> rv_oidc env) \<and> (\<forall>p. authorization = Some p \<longrightarrow> tenant (p_scope p) = tenant (rv_scope env) \<and> PUBLICATION_MANAGE \<in> p_permissions p)"
  using assms
  by (auto simp: manage_def authorize_def authorize_check_def Let_def txn_simps case_prod_unfold split: option.splits if_splits sum.splits)

lemma activate_activates:
  assumes "publication_activate g expected operation db = Inr (r, db')"
  shows "r = pb_active db' \<and> ap_generation r = Some g"
  using assms by (auto simp: publication_activate_def Let_def replayed_def dest: arg_cong [of _ _ ap_generation] split: if_splits)

lemma no_hook_checkpoint [txn_simps]: "checkpoint_at no_hook point w = (Inr u, w') \<longleftrightarrow> w' = w"
  by (auto simp: checkpoint_at_def no_hook_def)

lemma authority_call_iff [txn_simps]:
  "authority_call t w = (Inr x, w') \<longleftrightarrow> (\<exists>db. t (pw_authority w) = Inr (x, db) \<and> w' = w\<lparr>pw_authority := db\<rparr>)"
  by (auto simp: authority_call_def split: sum.splits)

text \<open>C18: What becomes active has been validated. When an activation returns, the caller was entitled to manage
  the publications of the tenant, the generation is active, and every item that the vector store lists for the generation is the exact
  source text of a record of a complete accepted digest, with the metadata of that record.\<close>

theorem activation_serves_source:
  "case service_activate env vp no_hook g authorization w of
     (Inl e, w') \<Rightarrow> True
   | (Inr r, w') \<Rightarrow> r = pb_active (pw_authority w') \<and> ap_generation r = Some g
       \<and> (case authorization of None \<Rightarrow> \<not> rv_oidc env | Some p \<Rightarrow> tenant (p_scope p) = tenant (rv_scope env) \<and> PUBLICATION_MANAGE \<in> p_permissions p)
       \<and> (\<exists>m listed. pm_generation m = g \<and> vp_list vp (pw_vectors w') (Some \<lparr>vf_generation = uuid_text g, vf_documents = []\<rparr>) = Some listed
           \<and> serves_source env m (pw_objects w') (pw_jobs w') listed)"
proof (cases "service_activate env vp no_hook g authorization w")
  case (Pair o1 w')
  show ?thesis
  proof (cases o1)
    case (Inr r)
    with Pair obtain w1 m base w2 db where m1: "manage env authorization w = (Inr (), w1)"
      and v: "reader_validate env vp g True None None w1 = Inr m" and m2: "manage env authorization w1 = (Inr (), w2)"
      and act: "publication_activate g base Forward (pw_authority w2) = Inr (r, db)" and w': "w' = w2\<lparr>pw_authority := db\<rparr>"
      by (auto simp: service_activate_def txn_simps case_prod_unfold)
    from validate_serves [OF v] obtain listed where "pm_generation m = g"
      "vp_list vp (pw_vectors w1) (Some \<lparr>vf_generation = uuid_text g, vf_documents = []\<rparr>) = Some listed"
      "serves_source env m (pw_objects w1) (pw_jobs w1) listed" by auto
    moreover have "pw_vectors w' = pw_vectors w1" "pw_objects w' = pw_objects w1" "pw_jobs w' = pw_jobs w1"
      using manage_keeps [OF m2] w' by simp_all
    moreover have "case authorization of None \<Rightarrow> \<not> rv_oidc env | Some p \<Rightarrow> tenant (p_scope p) = tenant (rv_scope env) \<and> PUBLICATION_MANAGE \<in> p_permissions p"
      using manage_keeps [OF m2] by (auto split: option.splits)
    moreover have "r = pb_active (pw_authority w')" "ap_generation r = Some g" using activate_activates [OF act] w' by auto
    ultimately show ?thesis using Pair Inr by auto
  qed (simp add: Pair)
qed

text \<open>Preparation that returns leaves a generation that has been validated in full: what the vector store lists for it
  is exact source text, item by item.\<close>

theorem preparation_serves_source:
  "case service_prepare env vp no_hook g authorization w of
     (Inl e, w') \<Rightarrow> True
   | (Inr r, w') \<Rightarrow> \<exists>m listed. pm_generation m = g \<and> vp_list vp (pw_vectors w') (Some \<lparr>vf_generation = uuid_text g, vf_documents = []\<rparr>) = Some listed
           \<and> serves_source env m (pw_objects w') (pw_jobs w') listed"
proof (cases "service_prepare env vp no_hook g authorization w")
  case (Pair o1 w')
  show ?thesis
  proof (cases o1)
    case (Inr r)
    define valid where "valid w2 \<longleftrightarrow> (\<exists>m1 sparse w1. reader_validate env vp g sparse None None w1 = Inr m1 \<and> pw_vectors w2 = pw_vectors w1
      \<and> pw_objects w2 = pw_objects w1 \<and> pw_jobs w2 = pw_jobs w1)" for w2 :: "'a publication_world"
    have validI: "valid w2" if "reader_validate env vp g sparse None None w1 = Inr m1" "pw_vectors w2 = pw_vectors w1" "pw_objects w2 = pw_objects w1"
      "pw_jobs w2 = pw_jobs w1" for w1 w2 m1 sparse using that unfolding valid_def by blast
    have body: "valid w2" if run: "prepare_body env vp no_hook authorization g m w0 = (Inr m', w2)" for m m' w0 w2
    proof -
      from run obtain w1 m1 db where "reader_validate env vp g True None None w1 = Inr m1" "w2 = w1\<lparr>pw_authority := db\<rparr>"
        by (auto simp: prepare_body_def txn_simps)
      then show ?thesis by (intro validI) simp_all
    qed
    from Pair Inr have "valid w'"
      by (auto simp: service_prepare_def txn_simps case_prod_unfold split: if_splits prod.splits sum.splits intro: validI)
        (metis body prod.collapse)
    then obtain m1 sparse w1 where v: "reader_validate env vp g sparse None None w1 = Inr m1"
      and k: "pw_vectors w' = pw_vectors w1" "pw_objects w' = pw_objects w1" "pw_jobs w' = pw_jobs w1" unfolding valid_def by blast
    from validate_serves [OF v] k show ?thesis using Pair Inr by auto
  qed (simp add: Pair)
qed

end
