(* ===== verification/Replica.thy ===== *)
theory Replica
  imports ServiceTheorems
begin

text \<open>
  Serving a publication: the replica of documents/publication/retrieval.py with its pinned requests, hybrid retrieval,
  citations and annotations, and the reranker of rag/reranker.py. The replica keeps the manifest and the sparse
  indexes of one generation; a request pins them. Each method is a function of the world at the time of
  the call; \<open>load\<close> takes the two worlds at which it reads the authority. The vector store, the BM25 engine, the
  embedding model and the reranker may answer anything.
\<close>

section \<open>Replicas and pins\<close>

type_synonym 'i isolated = "(uuid \<times> nat list \<times> 'i option) list"

record 'i replica =
  rl_expected :: string
  rl_snapshot :: "(publication_manifest \<times> 'i option) option"
  rl_sparse :: "'i isolated"

record 'i pinned_request =
  pn_manifest :: publication_manifest
  pn_index :: "'i option"
  pn_documents :: "uuid list"
  pn_authorization :: "authorization_snapshot option"
  pn_sparse :: "'i isolated"

definition new_replica :: "string \<Rightarrow> 'i replica" where
  "new_replica expected = \<lparr>rl_expected = expected, rl_snapshot = None, rl_sparse = []\<rparr>"

definition generation_text :: "uuid option \<Rightarrow> string" where
  "generation_text g = (case g of None \<Rightarrow> ''None'' | Some u \<Rightarrow> uuid_text u)"

definition sfail :: "string \<Rightarrow> service_error + 'a" where
  "sfail c = Inl (Publication_failed (publication_error c))"

abbreviation denied :: "service_error + 'a" where "denied \<equiv> Inl (Security_failed Access_denied)"

definition of_security :: "security_error + 'a \<Rightarrow> service_error + 'a" where
  "of_security r = (case r of Inl e \<Rightarrow> Inl (Security_failed e) | Inr x \<Rightarrow> Inr x)"

lemma serving_plumbing [txn_simps]: "sfail c = Inr x \<longleftrightarrow> False" "of_security r = Inr x \<longleftrightarrow> r = Inr x"
  by (auto simp: sfail_def of_security_def split: sum.splits)

text \<open>Validation of the active generation; the identifier None has no candidate.\<close>

definition validate_active :: "'i reader_env \<Rightarrow> 'v vector_port \<Rightarrow> uuid option \<Rightarrow> 'v publication_world \<Rightarrow> service_error + publication_manifest" where
  "validate_active env vp g w = (case g of None \<Rightarrow> sfail ''publication_unavailable''
     | Some u \<Rightarrow> of_reader (reader_validate env vp u False None None w))"

text \<open>An engine over the token lists, none when they are all empty.\<close>

definition sparse_engine :: "'i bm25_engine \<Rightarrow> code_points list list \<Rightarrow> service_error + 'i option" where
  "sparse_engine E corpus = (if list_ex (\<lambda>ts. ts \<noteq> []) corpus
     then case be_build E corpus of None \<Rightarrow> Inl Service_other | Some i \<Rightarrow> Inr (Some i) else Inr None)"

definition isolate :: "'i reader_env \<Rightarrow> publication_manifest \<Rightarrow> accepted_document \<Rightarrow> 'i isolated \<Rightarrow> service_error + 'i isolated" where
  "isolate env m doc acc =
     (let positions = filter (\<lambda>i. rr_document_id (pm_records m ! i) = ad_pub_document doc) [0..<length (pm_records m)] in
      sbind (sparse_engine (rv_engine env) (map (\<lambda>i. tokenize (rv_tokens env) (rr_text (pm_records m ! i))) positions)) (\<lambda>index.
      Inr (dict_put (ad_pub_document doc) (positions, index) acc)))"

definition replica_load :: "'i reader_env \<Rightarrow> 'v vector_port \<Rightarrow> 'v publication_world \<Rightarrow> 'v publication_world \<Rightarrow> (service_error, 'i replica, unit) txn" where
  "replica_load env vp w later rep =
     (let active = pb_active (pw_authority w) in
      if generation_text (ap_generation active) \<noteq> rl_expected rep then sfail ''publication_generation_mismatch''
      else sbind (validate_active env vp (ap_generation active) w) (\<lambda>m.
        sbind (sparse_engine (rv_engine env) (map (tokenize (rv_tokens env) \<circ> rr_text) (pm_records m))) (\<lambda>index.
        sbind (fold_sum (isolate env m) (pm_documents m) []) (\<lambda>isolated.
        if pb_active (pw_authority later) \<noteq> active then sfail ''publication_generation_mismatch''
        else Inr ((), rep\<lparr>rl_snapshot := Some (m, index), rl_sparse := isolated\<rparr>)))))"

text \<open>The documents of an authorization are those of the request, all in the scope of the manifest.\<close>

definition authorizes :: "authorization_snapshot \<Rightarrow> uuid list \<Rightarrow> scope \<Rightarrow> bool" where
  "authorizes auth ids sc \<longleftrightarrow> set ids = fst ` set (as_documents auth) \<and> list_all (\<lambda>(d, s, e). s = sc) (as_documents auth)"

definition replica_pin :: "'i reader_env \<Rightarrow> 'v vector_port \<Rightarrow> 'i replica \<Rightarrow> rat \<Rightarrow> uuid list option \<Rightarrow> authorization_snapshot option
    \<Rightarrow> 'v publication_world \<Rightarrow> service_error + 'i pinned_request" where
  "replica_pin env vp rep now document_ids authorization w =
     (let active = pb_active (pw_authority w) in
      case rl_snapshot rep of None \<Rightarrow> sfail ''publication_generation_mismatch''
      | Some (m, index) \<Rightarrow>
          if generation_text (ap_generation active) \<noteq> rl_expected rep \<or> Some (pm_generation m) \<noteq> ap_generation active
          then sfail ''publication_generation_mismatch''
          else sbind (case authorization of
                None \<Rightarrow> sbind (validate_active env vp (ap_generation active) w) (\<lambda>_. Inr ())
              | Some auth \<Rightarrow> sbind (of_security (revalidate now auth (pw_security w))) (\<lambda>_.
                  case document_ids of None \<Rightarrow> denied
                  | Some ids \<Rightarrow> if ids = [] \<or> \<not> authorizes auth ids (pm_scope m) then denied else Inr ())) (\<lambda>_.
            let available = map ad_pub_document (pm_documents m);
                selected = (case document_ids of None \<Rightarrow> available | Some ids \<Rightarrow> ids) in
            if (case document_ids of None \<Rightarrow> False | Some ids \<Rightarrow> ids = [] \<or> \<not> set ids \<subseteq> set available) then sfail ''retrieval_scope_invalid''
            else Inr \<lparr>pn_manifest = m, pn_index = index, pn_documents = sort_key uuid_text (remdups selected),
                      pn_authorization = authorization, pn_sparse = rl_sparse rep\<rparr>))"

definition replica_ready :: "'i reader_env \<Rightarrow> 'v vector_port \<Rightarrow> 'i replica \<Rightarrow> rat \<Rightarrow> 'v publication_world \<Rightarrow> bool" where
  "replica_ready env vp rep now w = (case replica_pin env vp rep now None None w of Inl _ \<Rightarrow> False | Inr _ \<Rightarrow> True)"

definition validate_pin :: "'i reader_env \<Rightarrow> 'v vector_port \<Rightarrow> rat \<Rightarrow> 'i pinned_request \<Rightarrow> 'v publication_world \<Rightarrow> service_error + publication_manifest" where
  "validate_pin env vp now pin w =
     (let m = pn_manifest pin in
      case pn_authorization pin of
        None \<Rightarrow> if rv_oidc env then denied else of_reader (reader_validate env vp (pm_generation m) False None None w)
      | Some auth \<Rightarrow> sbind (of_security (revalidate now auth (pw_security w))) (\<lambda>_.
          if \<not> authorizes auth (pn_documents pin) (pm_scope m) then denied
          else of_reader (reader_validate env vp (pm_generation m) False (Some (pn_documents pin)) (Some m) w)))"

section \<open>Retrieval\<close>

definition records_by_id :: "publication_manifest \<Rightarrow> (code_points \<times> retrieval_record) list" where
  "records_by_id m = dict_of (map (\<lambda>r. (points (uuid_text (rr_record_id r)), r)) (pm_records m))"

text \<open>\<^verbatim>\<open>by_id.get(metadata.get('record_id'))\<close>\<close>

definition record_of :: "publication_manifest \<Rightarrow> metadata \<Rightarrow> retrieval_record option" where
  "record_of m md = (case map_of md ''record_id'' of Some (Meta_text t) \<Rightarrow> map_of (records_by_id m) t | _ \<Rightarrow> None)"

definition genuine :: "publication_manifest \<Rightarrow> uuid list \<Rightarrow> metadata \<Rightarrow> code_points \<Rightarrow> bool" where
  "genuine m ids md text \<longleftrightarrow> (case record_of m md of None \<Rightarrow> False
     | Some r \<Rightarrow> rr_document_id r \<in> set ids \<and> text = rr_text r \<and> dict_equal (=) md (record_metadata m r))"

definition dense_item :: "publication_manifest \<Rightarrow> uuid list \<Rightarrow> vector_match \<Rightarrow> hit list \<Rightarrow> service_error + hit list" where
  "dense_item m ids v hits =
     (if \<not> genuine m ids (vm_metadata v) (vm_document v) then sfail ''provenance_invalid''
      else if vm_distance v < 1
      then Inr (hits @ [\<lparr>ht_meta = vm_metadata v, ht_text = vm_document v, ht_score = max 0 (1 - vm_distance v), ht_rrf = 0\<rparr>])
      else Inr hits)"

definition sparse_hit :: "publication_manifest \<Rightarrow> nat \<Rightarrow> rat \<Rightarrow> hit" where
  "sparse_hit m i score = (let r = pm_records m ! i in \<lparr>ht_meta = record_metadata m r, ht_text = rr_text r, ht_score = score, ht_rrf = 0\<rparr>)"

definition score_order :: "publication_manifest \<Rightarrow> nat \<times> rat \<Rightarrow> rat \<times> string" where
  "score_order m p = (- snd p, uuid_text (rr_record_id (pm_records m ! fst p)))"

text \<open>The positive scores of one document of an authorized request.\<close>

definition document_scores :: "'i reader_env \<Rightarrow> code_points \<Rightarrow> 'i isolated \<Rightarrow> uuid \<Rightarrow> (nat \<times> rat) list \<Rightarrow> service_error + (nat \<times> rat) list" where
  "document_scores env query sparse doc ranked =
     (case map_of sparse doc of None \<Rightarrow> Inl Service_other
      | Some (positions, None) \<Rightarrow> Inr ranked
      | Some (positions, Some i) \<Rightarrow>
          (let scores = filter (\<lambda>(j, s). 0 < s) (enumerate 0 (be_scores (rv_engine env) i (tokenize (rv_tokens env) query))) in
           if list_ex (\<lambda>(j, s). length positions \<le> j) scores then Inl Service_other
           else Inr (ranked @ map (\<lambda>(j, s). (positions ! j, s)) scores)))"

definition sparse_items :: "'i reader_env \<Rightarrow> code_points \<Rightarrow> 'i pinned_request \<Rightarrow> nat \<Rightarrow> service_error + hit list" where
  "sparse_items env query pin top_k =
     (let m = pn_manifest pin in
      case pn_authorization pin of
        Some _ \<Rightarrow> sbind (fold_sum (document_scores env query (pn_sparse pin)) (pn_documents pin) []) (\<lambda>ranked.
            let best = take top_k (sort_key (score_order m) ranked) in
            if list_ex (\<lambda>(i, s). length (pm_records m) \<le> i) ranked then Inl Service_other
            else Inr (map (\<lambda>(i, s). sparse_hit m i s) best))
      | None \<Rightarrow> (case pn_index pin of None \<Rightarrow> Inr []
          | Some index \<Rightarrow>
              (let scores = be_scores (rv_engine env) index (tokenize (rv_tokens env) query);
                   own = filter (\<lambda>i. rr_document_id (pm_records m ! i) \<in> set (pn_documents pin)) [0..<length (pm_records m)] in
               if list_ex (\<lambda>i. length scores \<le> i) own then Inl Service_other
               else Inr (map (\<lambda>(i, s). sparse_hit m i s) (filter (\<lambda>(i, s). 0 < s)
                      (take top_k (sort_key (score_order m) (map (\<lambda>i. (i, scores ! i)) own))))))))"

text \<open>The reranker of the repository over the predictions of a model.\<close>

definition rerank :: "(code_points \<Rightarrow> code_points list \<Rightarrow> rat list) \<Rightarrow> code_points \<Rightarrow> hit list \<Rightarrow> nat \<Rightarrow> hit list option" where
  "rerank predict query docs top_k =
     (let scores = predict query (map ht_text docs) in
      if length scores < length docs then None else Some (take top_k (map fst (sort_key (\<lambda>(d, s). - s) (zip docs scores)))))"

definition reranked_ok :: "nat \<Rightarrow> hit list \<Rightarrow> hit list \<Rightarrow> bool" where
  "reranked_ok top_k fused result \<longleftrightarrow> length result \<le> top_k
     \<and> distinct (map (\<lambda>h. map_of (ht_meta h) ''record_id'') result)
     \<and> list_all (\<lambda>h. map_of (ht_meta h) ''record_id'' \<in> set (map (\<lambda>f. map_of (ht_meta f) ''record_id'') fused)) result"

text \<open>The check of a reranked item compares the keys of the metadata of its record; an item may have others.\<close>

definition item_ok :: "publication_manifest \<Rightarrow> uuid list \<Rightarrow> hit \<Rightarrow> bool" where
  "item_ok m ids h \<longleftrightarrow> (case record_of m (ht_meta h) of None \<Rightarrow> False
     | Some r \<Rightarrow> rr_document_id r \<in> set ids \<and> ht_text h = rr_text r
         \<and> list_all (\<lambda>(k, v). map_of (ht_meta h) k = Some v) (record_metadata m r))"

definition replica_retrieve :: "'i reader_env \<Rightarrow> 'v vector_port \<Rightarrow> rat \<Rightarrow> code_points \<Rightarrow> 'i pinned_request \<Rightarrow> int
    \<Rightarrow> (code_points \<Rightarrow> hit list \<Rightarrow> nat \<Rightarrow> hit list option) \<Rightarrow> 'v publication_world \<Rightarrow> service_error + hit list" where
  "replica_retrieve env vp now query pin top_k reranker w =
     (let m = pn_manifest pin; ids = pn_documents pin in
      if ids = [] then Inr []
      else if \<not> (1 \<le> top_k \<and> top_k \<le> 32) then sfail ''retrieval_scope_invalid''
      else sbind (validate_pin env vp now pin w) (\<lambda>_.
        sbind (of_reader (embed (rv_count env) (rv_vector env) (rv_profile env) query)) (\<lambda>vector.
        case vp_search vp (pw_vectors w) vector top_k (Some \<lparr>vf_generation = uuid_text (pm_generation m), vf_documents = map uuid_text ids\<rparr>) of
          None \<Rightarrow> Inl Service_other
        | Some matches \<Rightarrow>
            sbind (fold_sum (dense_item m ids) matches []) (\<lambda>dense.
            sbind (sparse_items env query pin (nat top_k)) (\<lambda>sparse.
            let fused = fuse_rankings (rv_prims env) 60 dense sparse in
            if fused = [] then Inr []
            else case reranker query fused (nat top_k) of None \<Rightarrow> Inl Service_other
              | Some result \<Rightarrow>
                  if \<not> reranked_ok (nat top_k) fused result \<or> \<not> list_all (item_ok m ids) result
                  then sfail ''provenance_invalid'' else Inr result)))))"

section \<open>Citations and annotations\<close>

record citation =
  cn_citation_id :: string
  cn_generation :: uuid
  cn_record_id :: uuid
  cn_document_id :: uuid
  cn_version_id :: uuid
  cn_extraction_id :: uuid
  cn_display_source :: string
  cn_physical_page :: "int option"
  cn_span :: span
  cn_path :: "code_points list"
  cn_excerpt :: code_points

definition citation_valid :: "citation \<Rightarrow> bool" where
  "citation_valid c \<longleftrightarrow> length (cn_display_source c) \<le> 512 \<and> span_valid (cn_span c) \<and> length (cn_excerpt c) \<le> 4096"

text \<open>The artifact of a document, read once per call.\<close>

definition cited_artifact :: "'i reader_env \<Rightarrow> obj_store \<Rightarrow> accepted_document \<Rightarrow> (uuid \<times> artifact) list \<Rightarrow> publication_exception + artifact" where
  "cited_artifact env d doc indexes =
     (let H = rv_prims env; sha = we_sha (rv_flow env) in
      case map_of indexes (ad_pub_document doc) of Some a \<Rightarrow> Inr a
      | None \<Rightarrow>
          sbind (other (store_read H sha d (ad_pub_scope doc) (ad_extraction doc) publication_limit)) (\<lambda>data.
          sbind (other (cd_artifact (we_codec (rv_flow env)) data publication_limit)) (\<lambda>a.
          if ar_extraction_id a \<noteq> ad_pub_extraction_id doc \<or> dc_document_id (ar_document a) \<noteq> ad_pub_document doc then pfail ''provenance_invalid''
          else sbind (other (store_inspect H sha d (ad_pub_scope doc) (dc_source (ar_document a)) (ar_max_source_bytes a))) (\<lambda>_. Inr a))))"

definition cite :: "'i reader_env \<Rightarrow> obj_store \<Rightarrow> 'i pinned_request \<Rightarrow> hit \<Rightarrow> (uuid \<times> artifact) list \<times> citation list
    \<Rightarrow> publication_exception + ((uuid \<times> artifact) list \<times> citation list)" where
  "cite env d pin item = (\<lambda>(indexes, done).
     let m = pn_manifest pin in
     case record_of m (ht_meta item) of None \<Rightarrow> pfail ''provenance_invalid''
     | Some r \<Rightarrow>
         if rr_document_id r \<notin> set (pn_documents pin) \<or> map_of (ht_meta item) ''generation'' \<noteq> Some (Meta_text (points (uuid_text (pm_generation m))))
            \<or> ht_text item \<noteq> rr_text r then pfail ''provenance_invalid''
         else case map_of (dict_of (map (\<lambda>d. (ad_pub_document d, d)) (pm_documents m))) (rr_document_id r) of None \<Rightarrow> Inl Publication_other
           | Some doc \<Rightarrow> sbind (cited_artifact env d doc indexes) (\<lambda>a.
               sbind (other (index_resolve a (rr_evidence r))) (\<lambda>excerpt.
               if excerpt \<noteq> rr_text r then pfail ''provenance_invalid''
               else case map_of (block_index a) (ev_block_id (rr_evidence r)) of None \<Rightarrow> Inl Publication_other
                 | Some (u, _) \<Rightarrow>
                     let c = \<lparr>cn_citation_id = CHR ''C'' # nat_text (length done + 1), cn_generation = pm_generation m, cn_record_id = rr_record_id r,
                              cn_document_id = ad_pub_document doc, cn_version_id = ad_pub_version doc, cn_extraction_id = ad_pub_extraction_id doc,
                              cn_display_source = dc_display_filename (ar_document a), cn_physical_page = tu_physical_page u,
                              cn_span = ev_span (rr_evidence r), cn_path = rr_path r, cn_excerpt = excerpt\<rparr>
                     in if citation_valid c then Inr (dict_put (ad_pub_document doc) a indexes, done @ [c]) else Inl Publication_other)))"

definition replica_citations :: "'i reader_env \<Rightarrow> 'v vector_port \<Rightarrow> rat \<Rightarrow> 'i pinned_request \<Rightarrow> hit list \<Rightarrow> 'v publication_world
    \<Rightarrow> service_error + citation list" where
  "replica_citations env vp now pin results w =
     sbind (validate_pin env vp now pin w) (\<lambda>_.
     sbind (of_reader (published_only ''provenance_invalid'' (fold_sum (cite env (pw_objects w) pin) results ([], [])))) (\<lambda>(_, cs). Inr cs))"

definition contradiction_json :: "contradiction \<Rightarrow> json" where
  "contradiction_json c = JObj [(''subject'', JStr (ct_subject c)), (''affirmed'', ids_json (ct_affirmed c)), (''denied'', ids_json (ct_denied c)),
     (''resolution'', JStr ''unresolved'')]"

definition annotation_json :: "accepted_document \<Rightarrow> digest_artifact \<Rightarrow> json" where
  "annotation_json doc digest =
     (let conflicting = concat (map (\<lambda>c. ct_affirmed c @ ct_denied c) (da_contradictions digest)) in
      JObj [(''document_id'', uuid_json (ad_pub_document doc)), (''status'', JStr (digest_status_text (da_status digest))),
        (''qualifications'', JArr (map qualification_json (da_qualifications digest))),
        (''contradictions'', JArr (map contradiction_json (da_contradictions digest))),
        (''conflicting_findings'', JArr (map claim_json (filter (\<lambda>f. cl_id f \<in> set conflicting) (da_findings digest)))),
        (''limitations'', JArr (map JText (da_limitations digest))), (''open_questions'', JArr (map JText (da_open_questions digest)))])"

definition replica_annotations :: "'i reader_env \<Rightarrow> 'v vector_port \<Rightarrow> rat \<Rightarrow> 'i pinned_request \<Rightarrow> 'v publication_world \<Rightarrow> service_error + json list" where
  "replica_annotations env vp now pin w =
     sbind (validate_pin env vp now pin w) (\<lambda>_.
     fold_sum (\<lambda>doc acc. if ad_pub_document doc \<notin> set (pn_documents pin) then Inr acc
       else case codec_read (\<lambda>sc ref m. case store_read (rv_prims env) (we_sha (rv_flow env)) (pw_objects w) sc ref m of
                Inl e \<Rightarrow> Inl (Document_error e) | Inr data \<Rightarrow> Inr data)
              (ad_pub_scope doc) (ad_digest doc) (cd_digest (we_codec (rv_flow env))) publication_limit of
           Inl _ \<Rightarrow> Inl Service_other
         | Inr digest \<Rightarrow> Inr (acc @ [annotation_json doc digest])) (pm_documents (pn_manifest pin)) [])"

end
