(* ===== verification/ReplicaTheorems.thy ===== *)
theory ReplicaTheorems
  imports Replica
begin

text \<open>
  Theorems about the replica: what a retrieval returns is authorized and sourced, and a citation quotes the source
  text that its evidence resolves to.
\<close>

section \<open>Validated pins\<close>

lemma map_of_filter_values:
  "map_of (map (\<lambda>r. (f r, r)) xs) k = Some r \<Longrightarrow> P r \<Longrightarrow> map_of (map (\<lambda>r. (f r, r)) (filter P xs)) k = Some r"
  by (induction xs) (auto split: if_splits)

lemma dict_of_filter_values:
  assumes "map_of (dict_of (map (\<lambda>r. (f r, r)) xs)) k = Some r" and "P r"
  shows "map_of (dict_of (map (\<lambda>r. (f r, r)) (filter P xs))) k = Some r"
  using map_of_filter_values [of f "rev xs" k r P] assms by (simp add: map_of_dict_of rev_map rev_filter)

lemma record_of_member:
  assumes "record_of m md = Some r"
  shows "r \<in> set (pm_records m)" and "map_of (dict_of (map (\<lambda>r. (rr_record_id r, r)) (pm_records m))) (rr_record_id r) = Some r"
proof -
  let ?h = "\<lambda>i. points (uuid_text i)"
  have inj: "inj ?h" by (auto intro!: injI simp: points_def inj_map_eq_map inj_of_char dest: uuid_text_inj)
  from assms obtain t where t: "map_of (records_by_id m) t = Some r" by (auto simp: record_of_def split: option.splits meta_value.splits)
  then have "(t, r) \<in> set (map (\<lambda>r. (?h (rr_record_id r), r)) (pm_records m))"
    unfolding records_by_id_def map_of_dict_of by (rule map_of_rev_SomeD)
  then show "r \<in> set (pm_records m)" and "map_of (dict_of (map (\<lambda>r. (rr_record_id r, r)) (pm_records m))) (rr_record_id r) = Some r"
    using dict_of_rekey [OF inj, of rr_record_id "\<lambda>r. r" "pm_records m" "rr_record_id r"] t
    by (auto simp: records_by_id_def option.map_ident)
qed

lemma pinned_sourced:
  assumes "validate_pin env vp now pin w = Inr m'" and "pn_authorization pin = Some auth"
    and "record_of (pn_manifest pin) md = Some r" and "rr_document_id r \<in> set (pn_documents pin)"
  shows "record_sourced env (pw_objects w) (pw_jobs w) r"
proof -
  let ?m = "pn_manifest pin" and ?P = "\<lambda>r. rr_document_id r \<in> set (pn_documents pin)"
  from assms(1,2) obtain docs expected where e: "recomputed env (pw_objects w) (pw_jobs w) docs = Inr expected"
    and eq: "dict_equal (=) (dict_of (map (\<lambda>r. (rr_record_id r, r)) expected)) (dict_of (map (\<lambda>r. (rr_record_id r, r)) (filter ?P (pm_records ?m))))"
    by (auto simp: validate_pin_def reader_validate_def Let_def txn_simps split: if_splits)
  from dict_of_filter_values [where P = ?P, OF record_of_member(2) [OF assms(3)]] assms(4)
  have "map_of (dict_of (map (\<lambda>r. (rr_record_id r, r)) (filter ?P (pm_records ?m)))) (rr_record_id r) = Some r" by blast
  with eq have "map_of (dict_of (map (\<lambda>r. (rr_record_id r, r)) expected)) (rr_record_id r) = Some r" by (simp add: dict_equal_map)
  then have "(rr_record_id r, r) \<in> set (map (\<lambda>r. (rr_record_id r, r)) expected)" unfolding map_of_dict_of by (rule map_of_rev_SomeD)
  with recomputed_sourced [OF e] show ?thesis by (auto simp: list_all_iff)
qed

definition pin_authorized :: "'i reader_env \<Rightarrow> rat \<Rightarrow> 'i pinned_request \<Rightarrow> 'v publication_world \<Rightarrow> bool" where
  "pin_authorized env now pin w \<longleftrightarrow> (case pn_authorization pin of None \<Rightarrow> \<not> rv_oidc env
     | Some auth \<Rightarrow> revalidate now auth (pw_security w) = Inr () \<and> authorizes auth (pn_documents pin) (pm_scope (pn_manifest pin)))"

lemma validate_pin_authorized: "validate_pin env vp now pin w = Inr m \<Longrightarrow> pin_authorized env now pin w"
  by (auto simp: validate_pin_def pin_authorized_def Let_def txn_simps split: option.splits if_splits)

section \<open>Retrieval\<close>

definition hit_exact :: "'i reader_env \<Rightarrow> 'i pinned_request \<Rightarrow> 'v publication_world \<Rightarrow> hit \<Rightarrow> bool" where
  "hit_exact env pin w h \<longleftrightarrow> (\<exists>r. r \<in> set (pm_records (pn_manifest pin)) \<and> rr_document_id r \<in> set (pn_documents pin)
     \<and> ht_text h = rr_text r \<and> map_of (record_metadata (pn_manifest pin) r) \<subseteq>\<^sub>m map_of (ht_meta h)
     \<and> (pn_authorization pin = None \<or> record_sourced env (pw_objects w) (pw_jobs w) r))"

lemma item_ok_exact:
  assumes "validate_pin env vp now pin w = Inr m'" and "item_ok (pn_manifest pin) (pn_documents pin) h"
  shows "hit_exact env pin w h"
proof -
  let ?m = "pn_manifest pin"
  from assms(2) obtain r where r: "record_of ?m (ht_meta h) = Some r" "rr_document_id r \<in> set (pn_documents pin)" "ht_text h = rr_text r"
    and md: "list_all (\<lambda>(k, v). map_of (ht_meta h) k = Some v) (record_metadata ?m r)"
    unfolding item_ok_def by (auto split: option.splits)
  have "map_of (record_metadata ?m r) k = Some v \<Longrightarrow> map_of (ht_meta h) k = Some v" for k v
    using md by (auto simp: list_all_iff dest: map_of_SomeD)
  then have "map_of (record_metadata ?m r) \<subseteq>\<^sub>m map_of (ht_meta h)" unfolding map_le_def by (metis domD)
  moreover have "pn_authorization pin = None \<or> record_sourced env (pw_objects w) (pw_jobs w) r"
    using pinned_sourced [OF assms(1) _ r(1,2)] by (cases "pn_authorization pin") auto
  ultimately show ?thesis using r record_of_member(1) [OF r(1)] unfolding hit_exact_def by blast
qed

lemma retrieve_hits:
  assumes "replica_retrieve env vp now query pin top_k reranker w = Inr hits"
  shows "hits = [] \<or> (1 \<le> top_k \<and> top_k \<le> 32 \<and> int (length hits) \<le> top_k
       \<and> distinct (map (\<lambda>h. map_of (ht_meta h) ''record_id'') hits) \<and> list_all (hit_exact env pin w) hits
       \<and> pin_authorized env now pin w)"
proof -
  from assms have "hits = [] \<or> (\<exists>m fused. validate_pin env vp now pin w = Inr m \<and> 1 \<le> top_k \<and> top_k \<le> 32
     \<and> reranked_ok (nat top_k) fused hits \<and> list_all (item_ok (pn_manifest pin) (pn_documents pin)) hits)"
    by (auto simp: replica_retrieve_def Let_def txn_simps split: if_splits option.splits)
  then show ?thesis
    by (elim disjE exE conjE) (auto simp: reranked_ok_def list_all_iff intro: item_ok_exact validate_pin_authorized)
qed

text \<open>C19: Whatever the vector store, the BM25 engine, the embedding model and the reranker answer, a retrieval that returns
  gives at most \<open>top_k\<close> hits with distinct record identifiers, and every hit is a record of the pinned manifest in a
  selected document with the exact text and metadata of the record. When the pin carries an authorization, it is valid
  at that time for exactly the selected documents, and the text of every hit is source text of an accepted complete digest;
  without one the deployment does not demand authentication.
\<close>

theorem retrieval_authorized:
  "case replica_retrieve env vp now query pin top_k reranker w of Inl e \<Rightarrow> True
   | Inr hits \<Rightarrow> hits = [] \<or> (1 \<le> top_k \<and> top_k \<le> 32 \<and> int (length hits) \<le> top_k
       \<and> distinct (map (\<lambda>h. map_of (ht_meta h) ''record_id'') hits) \<and> list_all (hit_exact env pin w) hits
       \<and> pin_authorized env now pin w)"
  using retrieve_hits [of env vp now query pin top_k reranker w]
  by (cases "replica_retrieve env vp now query pin top_k reranker w") simp_all

section \<open>Citations\<close>

lemma digits_rev_inj: "digits_rev n = digits_rev k \<Longrightarrow> n = k"
proof (induction n arbitrary: k rule: digits_rev.induct)
  case (1 n)
  have ne: "digits_rev i \<noteq> []" for i by (subst digits_rev.simps) simp
  have hd: "hd (digits_rev i) = hex_digit (i mod 10)" for i by (subst digits_rev.simps) simp
  have tl: "tl (digits_rev i) = (if i < 10 then [] else digits_rev (i div 10))" for i by (subst digits_rev.simps) simp
  from "1.prems" hd [of n] hd [of k] have m: "n mod 10 = k mod 10" using hex_digit_inj [of "n mod 10" "k mod 10"] by simp
  from "1.prems" tl [of n] tl [of k] ne ne [symmetric] have "n div 10 = k div 10" using "1.IH" [of "k div 10"] by (auto split: if_splits)
  with m show ?case by (metis div_mult_mod_eq)
qed

lemma nat_text_inj: "nat_text n = nat_text k \<longleftrightarrow> n = k"
  by (auto simp: nat_text_def dest: digits_rev_inj)

text \<open>The artifact that the document of a manifest refers to, as it is in the object store.\<close>

definition stored_artifact :: "'i reader_env \<Rightarrow> obj_store \<Rightarrow> accepted_document \<Rightarrow> artifact \<Rightarrow> bool" where
  "stored_artifact env d doc a \<longleftrightarrow> (\<exists>data. store_read (rv_prims env) (we_sha (rv_flow env)) d (ad_pub_scope doc) (ad_extraction doc) publication_limit = Inr data
     \<and> cd_artifact (we_codec (rv_flow env)) data publication_limit = Inr a
     \<and> ar_extraction_id a = ad_pub_extraction_id doc \<and> dc_document_id (ar_document a) = ad_pub_document doc)"

definition citation_exact :: "'i reader_env \<Rightarrow> obj_store \<Rightarrow> 'i pinned_request \<Rightarrow> hit \<Rightarrow> citation \<Rightarrow> bool" where
  "citation_exact env d pin h c \<longleftrightarrow> (\<exists>r doc a. r \<in> set (pm_records (pn_manifest pin)) \<and> doc \<in> set (pm_documents (pn_manifest pin))
     \<and> cn_generation c = pm_generation (pn_manifest pin) \<and> cn_record_id c = rr_record_id r
     \<and> rr_document_id r = ad_pub_document doc \<and> cn_document_id c = ad_pub_document doc \<and> cn_document_id c \<in> set (pn_documents pin)
     \<and> stored_artifact env d doc a \<and> cn_version_id c = ad_pub_version doc \<and> cn_extraction_id c = ar_extraction_id a
     \<and> index_resolve a (rr_evidence r) = Inr (cn_excerpt c) \<and> cn_excerpt c = ht_text h \<and> cn_span c = ev_span (rr_evidence r)
     \<and> cn_display_source c = dc_display_filename (ar_document a) \<and> citation_valid c)"

text \<open>The documents of a manifest by identifier, and the indexes that a call has read.\<close>

abbreviation documents_by_id :: "publication_manifest \<Rightarrow> (uuid \<times> accepted_document) list" where
  "documents_by_id m \<equiv> dict_of (map (\<lambda>d. (ad_pub_document d, d)) (pm_documents m))"

definition indexes_stored :: "'i reader_env \<Rightarrow> obj_store \<Rightarrow> publication_manifest \<Rightarrow> (uuid \<times> artifact) list \<Rightarrow> bool" where
  "indexes_stored env d m indexes \<longleftrightarrow> (\<forall>k a. map_of indexes k = Some a \<longrightarrow> (\<exists>doc. map_of (documents_by_id m) k = Some doc \<and> stored_artifact env d doc a))"

lemma documents_by_id_member:
  assumes "map_of (documents_by_id m) k = Some doc"
  shows "doc \<in> set (pm_documents m)" and "k = ad_pub_document doc"
proof -
  from assms have "(k, doc) \<in> set (map (\<lambda>d. (ad_pub_document d, d)) (pm_documents m))" unfolding map_of_dict_of by (rule map_of_rev_SomeD)
  then show "doc \<in> set (pm_documents m)" and "k = ad_pub_document doc" by auto
qed

lemma cited_artifact_stored:
  assumes "cited_artifact env d doc indexes = Inr a" and "indexes_stored env d m indexes"
    and "map_of (documents_by_id m) (ad_pub_document doc) = Some doc"
  shows "stored_artifact env d doc a \<and> indexes_stored env d m (dict_put (ad_pub_document doc) a indexes)"
proof -
  have "stored_artifact env d doc a"
  proof (cases "map_of indexes (ad_pub_document doc)")
    case None
    with assms(1) show ?thesis by (auto simp: cited_artifact_def stored_artifact_def Let_def txn_simps split: if_splits)
  next
    case (Some a')
    with assms(1) have "map_of indexes (ad_pub_document doc) = Some a" by (simp add: cited_artifact_def Let_def)
    with assms(2) obtain doc' where "map_of (documents_by_id m) (ad_pub_document doc) = Some doc'" "stored_artifact env d doc' a"
      unfolding indexes_stored_def by blast
    with assms(3) show ?thesis by simp
  qed
  moreover have "indexes_stored env d m (dict_put (ad_pub_document doc) a indexes)" unfolding indexes_stored_def
  proof (intro allI impI)
    fix k b
    assume "map_of (dict_put (ad_pub_document doc) a indexes) k = Some b"
    then show "\<exists>doc. map_of (documents_by_id m) k = Some doc \<and> stored_artifact env d doc b"
      using assms(2,3) calculation by (cases "k = ad_pub_document doc") (simp_all add: indexes_stored_def)
  qed
  ultimately show ?thesis by blast
qed

text \<open>One citation, numbered after those before it.\<close>

lemma cite_step:
  assumes "cite env d pin h (indexes, cs) = Inr (indexes', cs')" and "indexes_stored env d (pn_manifest pin) indexes"
  shows "\<exists>c. cs' = cs @ [c] \<and> cn_citation_id c = CHR ''C'' # nat_text (length cs + 1) \<and> citation_exact env d pin h c
    \<and> indexes_stored env d (pn_manifest pin) indexes'"
proof -
  let ?m = "pn_manifest pin"
  from assms(1) obtain r doc a u b c where r: "record_of ?m (ht_meta h) = Some r" "rr_document_id r \<in> set (pn_documents pin)" "ht_text h = rr_text r"
    and doc: "map_of (documents_by_id ?m) (rr_document_id r) = Some doc" and a: "cited_artifact env d doc indexes = Inr a"
    and x: "index_resolve a (rr_evidence r) = Inr (rr_text r)" and u: "map_of (block_index a) (ev_block_id (rr_evidence r)) = Some (u, b)"
    and "indexes' = dict_put (ad_pub_document doc) a indexes"
    and c: "cs' = cs @ [c]" "c = \<lparr>cn_citation_id = CHR ''C'' # nat_text (length cs + 1), cn_generation = pm_generation ?m, cn_record_id = rr_record_id r,
        cn_document_id = ad_pub_document doc, cn_version_id = ad_pub_version doc, cn_extraction_id = ad_pub_extraction_id doc,
        cn_display_source = dc_display_filename (ar_document a), cn_physical_page = tu_physical_page u,
        cn_span = ev_span (rr_evidence r), cn_path = rr_path r, cn_excerpt = rr_text r\<rparr>" and v: "citation_valid c"
    by (auto simp: cite_def Let_def txn_simps split: if_splits option.splits)
  note m = documents_by_id_member [OF doc]
  with cited_artifact_stored [OF a assms(2)] doc have s: "stored_artifact env d doc a" "indexes_stored env d ?m (dict_put (ad_pub_document doc) a indexes)" by auto
  have "citation_exact env d pin h c"
    unfolding citation_exact_def using r m s(1) x v record_of_member(1) [OF r(1)]
    by (intro exI [of _ r] exI [of _ doc] exI [of _ a]) (auto simp: stored_artifact_def c(2))
  with c s(2) \<open>indexes' = _\<close> show ?thesis by auto
qed

lemma cite_fold:
  assumes "fold_sum (cite env d pin) hs (indexes, cs) = Inr (indexes', cs')" and "indexes_stored env d (pn_manifest pin) indexes"
  shows "\<exists>new. cs' = cs @ new \<and> list_all2 (citation_exact env d pin) hs new
    \<and> map cn_citation_id new = map (\<lambda>i. CHR ''C'' # nat_text i) [Suc (length cs)..<Suc (length cs + length hs)]"
  using assms
proof (induction hs arbitrary: indexes cs)
  case Nil
  then show ?case by simp
next
  case (Cons h hs)
  from Cons.prems(1) obtain i1 cs1 where st: "cite env d pin h (indexes, cs) = Inr (i1, cs1)" "fold_sum (cite env d pin) hs (i1, cs1) = Inr (indexes', cs')"
    by (auto simp: txn_simps)
  from cite_step [OF st(1) Cons.prems(2)] obtain c where c: "cs1 = cs @ [c]" "cn_citation_id c = CHR ''C'' # nat_text (length cs + 1)"
    "citation_exact env d pin h c" "indexes_stored env d (pn_manifest pin) i1" by blast
  from Cons.IH [OF st(2) c(4)] c(1) obtain new where "cs' = cs1 @ new" "list_all2 (citation_exact env d pin) hs new"
    "map cn_citation_id new = map (\<lambda>i. CHR ''C'' # nat_text i) [Suc (Suc (length cs))..<Suc (Suc (length cs + length hs))]" by auto
  with c show ?case by (intro exI [of _ "c # new"]) (simp add: upt_rec)
qed

lemma citations_exact:
  assumes "replica_citations env vp now pin hits w = Inr cs"
  shows "list_all2 (citation_exact env (pw_objects w) pin) hits cs"
    and "map cn_citation_id cs = map (\<lambda>i. CHR ''C'' # nat_text i) [1..<Suc (length hits)]" and "distinct (map cn_citation_id cs)"
    and "pin_authorized env now pin w"
proof -
  from assms obtain m i where v: "validate_pin env vp now pin w = Inr m" and f: "fold_sum (cite env (pw_objects w) pin) hits ([], []) = Inr (i, cs)"
    by (auto simp: replica_citations_def txn_simps)
  from v show "pin_authorized env now pin w" by (rule validate_pin_authorized)
  from cite_fold [OF f] show "list_all2 (citation_exact env (pw_objects w) pin) hits cs"
    and ids: "map cn_citation_id cs = map (\<lambda>i. CHR ''C'' # nat_text i) [1..<Suc (length hits)]" by (auto simp: indexes_stored_def)
  then show "distinct (map cn_citation_id cs)" by (simp add: distinct_map inj_on_def nat_text_inj)
qed

end
