(* ===== verification/Inference.thy ===== *)
theory Inference
  imports Json
begin

text \<open>
  The provider-neutral inference vocabulary of llm/inference.py: model roles, usage, the error
  hierarchy with its categories and readiness, and the identity of one inference call
  (\<^verbatim>\<open>CallIdentity\<close> of llm/admission.py). The text of an exception is not modelled; the
  category, the \<^verbatim>\<open>retry_after\<close> hint and the optional \<^verbatim>\<open>usage\<close> attribute that the accounting reads are.
\<close>

datatype model_role = GENERAL | CODING | SUMMARIZATION | FAST

fun role_value :: "model_role \<Rightarrow> string" where
  "role_value GENERAL = ''general''"
| "role_value CODING = ''coding''"
| "role_value SUMMARIZATION = ''summarization''"
| "role_value FAST = ''fast''"

record inference_usage =
  prompt_tokens :: "int option"
  completion_tokens :: "int option"
  total_tokens :: "int option"

datatype inference_error =
    InferenceError
  | InferenceConnectionError
  | InferenceTimeoutError
  | InferenceAuthenticationError
  | InferenceRateLimitError "rat option"
  | InferenceConfigurationError
  | InferenceOutputLimitError
  | InferenceContextError
  | InferenceModelUnavailableError
  | InferenceResponseError

fun category :: "inference_error \<Rightarrow> string" where
  "category InferenceError = ''upstream_failure''"
| "category InferenceConnectionError = ''provider_unreachable''"
| "category InferenceTimeoutError = ''timeout''"
| "category InferenceAuthenticationError = ''authentication_failure''"
| "category (InferenceRateLimitError r) = ''overloaded''"
| "category InferenceConfigurationError = ''configuration_failure''"
| "category InferenceOutputLimitError = ''output_limit''"
| "category InferenceContextError = ''context_exceeded''"
| "category InferenceModelUnavailableError = ''model_unavailable''"
| "category InferenceResponseError = ''protocol_failure''"

record call_identity =
  ci_scope :: string
  ci_job :: uuid
  ci_step :: uuid
  ci_attempt :: int
  ci_profile :: string
  ci_provider :: string
  ci_role :: string
  ci_model :: string
  ci_capability :: string

section \<open>Sums over the rows of a table\<close>

text \<open>The total weight of the rows that satisfy a predicate; with weight \<open>1\<close> it is their number.\<close>

definition load :: "('r \<Rightarrow> 'n::comm_monoid_add) \<Rightarrow> ('r \<Rightarrow> bool) \<Rightarrow> 'r list \<Rightarrow> 'n" where
  "load w P rs = sum_list (map w (filter P rs))"

abbreviation count_rows :: "('r \<Rightarrow> bool) \<Rightarrow> 'r list \<Rightarrow> int" where
  "count_rows \<equiv> load (\<lambda>_. 1)"

lemma load_simps [simp]:
  "load w P [] = 0"
  "load w P (r # rs) = (if P r then w r + load w P rs else load w P rs)"
  "load w P (rs @ rs') = load w P rs + load w P rs'"
  by (simp_all add: load_def)

lemma count_rows_length: "count_rows P rs = int (length (filter P rs))"
  by (induction rs) auto

lemma load_filter: "load w P (filter Q rs) = load w (\<lambda>r. Q r \<and> P r) rs"
  by (induction rs) auto

lemma load_nonneg:
  fixes w :: "'r \<Rightarrow> 'n::ordered_comm_monoid_add"
  shows "(\<And>r. r \<in> set rs \<Longrightarrow> 0 \<le> w r) \<Longrightarrow> 0 \<le> load w P rs"
  by (induction rs) auto

lemma load_mono:
  fixes w :: "'r \<Rightarrow> 'n::ordered_comm_monoid_add"
  assumes "\<And>r. r \<in> set rs \<Longrightarrow> 0 \<le> w r" and "\<And>r. r \<in> set rs \<Longrightarrow> P r \<Longrightarrow> Q r"
  shows "load w P rs \<le> load w Q rs"
  using assms
proof (induction rs)
  case (Cons r rs)
  then have "load w P rs \<le> load w Q rs" by simp
  moreover have "0 \<le> w r" "P r \<Longrightarrow> Q r" using Cons.prems by auto
  ultimately show ?case by (auto simp: add_increasing add_mono)
qed simp

lemma load_cong:
  "(\<And>r. r \<in> set rs \<Longrightarrow> P r = Q r) \<Longrightarrow> (\<And>r. r \<in> set rs \<Longrightarrow> P r \<Longrightarrow> w r = v r) \<Longrightarrow>
     load w P rs = load v Q rs"
  by (induction rs) auto

lemma load_split: "load w P rs = load w (\<lambda>r. P r \<and> Q r) rs + load w (\<lambda>r. P r \<and> \<not> Q r) rs"
  by (induction rs) (auto simp: add_ac)

lemma load_upd_where_le:
  fixes w :: "'r \<Rightarrow> 'n::ordered_comm_monoid_add"
  assumes "\<And>r. r \<in> set rs \<Longrightarrow> U r \<Longrightarrow> P (f r) \<Longrightarrow> P r \<and> w (f r) \<le> w r"
    and "\<And>r. r \<in> set rs \<Longrightarrow> 0 \<le> w r"
  shows "load w P (upd_where U f rs) \<le> load w P rs"
  using assms
proof (induction rs)
  case (Cons r rs)
  then have le: "load w P (upd_where U f rs) \<le> load w P rs" by simp
  have "U r \<Longrightarrow> P (f r) \<Longrightarrow> P r \<and> w (f r) \<le> w r" "0 \<le> w r" using Cons.prems by auto
  with le show ?case by (auto simp: add_increasing add_mono)
qed simp

end
