(* ===== verification/Admission.thy ===== *)
theory Admission
  imports Inference
begin

text \<open>
  The shared quota admission of llm/admission.py: one table of inference calls, one policy per
  quota key. \<open>open_admission\<close> is the part of the constructor that registers the policy,
  \<open>acquire\<close>, \<open>finish\<close> and \<open>records\<close> are the operations of \<^verbatim>\<open>SQLiteInferenceAdmission\<close>; the clock
  reading and the fresh ticket of a call are arguments. Times are seconds (\<^verbatim>\<open>REAL\<close>), exact
  rationals here. Two policies are compared as records, where the code compares their JSON text.
  The invariant is the list of caps of the policy, over the calls in flight and over every
  interval of sixty seconds; it is kept whatever the clock does.
\<close>

record admission_policy =
  rpm :: int
  tpm :: int
  concurrent :: int
  interactive_rpm :: int
  interactive_tpm :: int
  interactive_slots :: int
  per_job_concurrent :: int
  per_job_rpm :: int

definition policy_bounds :: "admission_policy \<Rightarrow> bool" where
  "policy_bounds p \<longleftrightarrow>
     rpm p > 0 \<and> tpm p > 0 \<and> concurrent p > 1 \<and> interactive_rpm p > 0 \<and> interactive_tpm p > 0
     \<and> interactive_slots p > 0 \<and> per_job_concurrent p > 0 \<and> per_job_rpm p > 0
     \<and> \<not> (interactive_rpm p \<ge> rpm p \<or> interactive_tpm p \<ge> tpm p
        \<or> interactive_slots p \<ge> concurrent p
        \<or> per_job_concurrent p > concurrent p - interactive_slots p
        \<or> per_job_rpm p > rpm p - interactive_rpm p)"

record inference_call =
  ic_ticket :: uuid
  ic_quota :: string
  ic_identity :: call_identity
  ic_scope :: string
  ic_job :: uuid
  ic_step :: uuid
  ic_attempt :: int
  ic_workload :: string
  ic_started :: rat
  ic_estimated_input :: int
  ic_reserved_output :: int
  ic_active :: bool
  ic_outcome :: string
  ic_usage :: "inference_usage option"

record admission_db =
  quota_policy :: "(string \<times> admission_policy) list"
  inference_calls :: "inference_call list"

definition empty_admission :: admission_db where
  "empty_admission = \<lparr>quota_policy = [], inference_calls = []\<rparr>"

definition open_admission :: "string \<Rightarrow> admission_policy \<Rightarrow> (inference_error, admission_db, unit) txn" where
  "open_admission q p db = sbind (guard (q \<noteq> [] \<and> length q \<le> 128) InferenceConfigurationError) (\<lambda>_.
     case map_of (quota_policy db) q of
       None \<Rightarrow> Inr ((), db\<lparr>quota_policy := quota_policy db @ [(q, p)]\<rparr>)
     | Some p' \<Rightarrow> if p' \<noteq> p then Inl InferenceConfigurationError else Inr ((), db))"

definition call_tokens :: "inference_call \<Rightarrow> int" where
  "call_tokens r = ic_estimated_input r + ic_reserved_output r"

definition admission_denied ::
  "admission_policy \<Rightarrow> call_identity \<Rightarrow> int \<Rightarrow> bool \<Rightarrow> rat \<Rightarrow> inference_call list \<Rightarrow> bool" where
  "admission_denied p identity tokens background now rows =
    (let recent = filter (\<lambda>r. ic_started r > now - 60) rows;
         active = filter ic_active rows;
         docs = filter (\<lambda>r. ic_workload r = ''DOCUMENT_BACKGROUND'') recent;
         doc_active = filter (\<lambda>r. ic_workload r = ''DOCUMENT_BACKGROUND'') active;
         same = (\<lambda>r. ic_job r = ci_job identity \<and> ic_scope r = ci_scope identity);
         reserved = (\<lambda>rs. sum_list (map call_tokens rs));
         token_cap = (if background then tpm p - interactive_tpm p else tpm p)
     in int (length recent) \<ge> rpm p \<or> reserved recent + tokens > tpm p
        \<or> int (length active) \<ge> concurrent p
        \<or> background \<and>
          (int (length docs) \<ge> rpm p - interactive_rpm p
           \<or> reserved docs + tokens > token_cap
           \<or> int (length doc_active) \<ge> concurrent p - interactive_slots p
           \<or> int (length (filter same doc_active)) \<ge> per_job_concurrent p
           \<or> int (length (filter same docs)) \<ge> per_job_rpm p))"

definition call_row ::
  "string \<Rightarrow> rat \<Rightarrow> uuid \<Rightarrow> call_identity \<Rightarrow> int \<Rightarrow> int \<Rightarrow> string \<Rightarrow> inference_call" where
  "call_row q now ticket identity estimated_input reserved_output workload =
     \<lparr>ic_ticket = ticket, ic_quota = q, ic_identity = identity, ic_scope = ci_scope identity,
      ic_job = ci_job identity, ic_step = ci_step identity, ic_attempt = ci_attempt identity,
      ic_workload = workload, ic_started = now, ic_estimated_input = estimated_input,
      ic_reserved_output = reserved_output, ic_active = True, ic_outcome = ''unknown'', ic_usage = None\<rparr>"

definition call_key :: "inference_call \<Rightarrow> string \<times> string \<times> uuid \<times> uuid \<times> int" where
  "call_key r = (ic_quota r, ic_scope r, ic_job r, ic_step r, ic_attempt r)"

text \<open>A violated \<^verbatim>\<open>PRIMARY KEY\<close> or \<^verbatim>\<open>UNIQUE\<close> constraint is a SQLite error, reported as unavailable state.\<close>

definition insert_call :: "inference_call \<Rightarrow> admission_db \<Rightarrow> inference_error + admission_db" where
  "insert_call r db =
     (if ic_ticket r \<in> set (map ic_ticket (inference_calls db))
         \<or> call_key r \<in> set (map call_key (inference_calls db))
      then Inl InferenceConfigurationError
      else Inr (db\<lparr>inference_calls := inference_calls db @ [r]\<rparr>))"

definition acquire ::
  "string \<Rightarrow> admission_policy \<Rightarrow> rat \<Rightarrow> uuid \<Rightarrow> call_identity \<Rightarrow> int \<Rightarrow> int \<Rightarrow> string
     \<Rightarrow> (inference_error, admission_db, uuid) txn" where
  "acquire q p now ticket identity estimated_input reserved_output workload db =
    sbind (guard (\<not> (workload \<notin> {''INTERACTIVE'', ''DOCUMENT_BACKGROUND''} \<or> estimated_input < 0
        \<or> reserved_output \<le> 0 \<or> ci_attempt identity < 1)) InferenceConfigurationError) (\<lambda>_.
    let tokens = estimated_input + reserved_output;
        background = (workload = ''DOCUMENT_BACKGROUND'');
        token_cap = (if background then tpm p - interactive_tpm p else tpm p)
    in sbind (guard (\<not> tokens > token_cap) InferenceConfigurationError) (\<lambda>_.
      let rows = filter (\<lambda>r. ic_quota r = q \<and> (ic_started r > now - 60 \<or> ic_active r)) (inference_calls db)
      in sbind (guard (\<not> admission_denied p identity tokens background now rows)
             (InferenceRateLimitError (Some 60))) (\<lambda>_.
           sbind (insert_call (call_row q now ticket identity estimated_input reserved_output workload) db)
             (\<lambda>db'. Inr (ticket, db')))))"

definition finish_outcomes :: "string list" where
  "finish_outcomes = [''success'', ''timeout'', ''overloaded'', ''provider_unreachable'',
     ''authentication_failure'', ''configuration_failure'', ''protocol_failure'', ''model_unavailable'',
     ''output_limit'', ''context_exceeded'', ''upstream_failure'', ''unknown'']"

definition finish ::
  "string \<Rightarrow> uuid \<Rightarrow> inference_usage option \<Rightarrow> string \<Rightarrow> (inference_error, admission_db, unit) txn" where
  "finish q ticket usage outcome db =
    (let outcome' = (if outcome \<notin> set finish_outcomes then ''unknown'' else outcome)
     in case find (\<lambda>r. ic_ticket r = ticket \<and> ic_quota r = q) (inference_calls db) of
          None \<Rightarrow> Inl InferenceConfigurationError
        | Some r \<Rightarrow>
            if \<not> ic_active r then Inl InferenceConfigurationError
            else Inr ((), db\<lparr>inference_calls := upd_where (\<lambda>r. ic_ticket r = ticket)
                   (\<lambda>r. r\<lparr>ic_active := False, ic_outcome := outcome', ic_usage := usage\<rparr>)
                   (inference_calls db)\<rparr>))"

definition records :: "string \<Rightarrow> string \<Rightarrow> uuid \<Rightarrow> admission_db \<Rightarrow> inference_call list" where
  "records q scope job db = sort_key ic_started
     (filter (\<lambda>r. ic_quota r = q \<and> ic_scope r = scope \<and> ic_job r = job) (inference_calls db))"

section \<open>Histories\<close>

text \<open>
  Any number of processes open the same database; a process that holds an authority has
  registered its policy first. Every committed call is a step.
\<close>

inductive admission_step :: "admission_db \<Rightarrow> admission_db \<Rightarrow> bool" where
  opened: "policy_bounds p \<Longrightarrow> open_admission q p db = Inr (u, db') \<Longrightarrow> admission_step db db'"
| acquired: "(q, p) \<in> set (quota_policy db) \<Longrightarrow>
     acquire q p now ticket identity ein rout workload db = Inr (t, db') \<Longrightarrow> admission_step db db'"
| finished: "finish q ticket usage outcome db = Inr (u, db') \<Longrightarrow> admission_step db db'"

abbreviation admission_reachable :: "admission_db \<Rightarrow> bool" where
  "admission_reachable \<equiv> reachable (\<lambda>db. db = empty_admission) admission_step"

section \<open>The caps\<close>

definition in_window :: "rat \<Rightarrow> inference_call \<Rightarrow> bool" where
  "in_window t r \<longleftrightarrow> t - 60 < ic_started r \<and> ic_started r \<le> t"

definition background_call :: "inference_call \<Rightarrow> bool" where
  "background_call r \<longleftrightarrow> ic_workload r = ''DOCUMENT_BACKGROUND''"

definition of_job :: "string \<Rightarrow> uuid \<Rightarrow> inference_call \<Rightarrow> bool" where
  "of_job s j r \<longleftrightarrow> ic_scope r = s \<and> ic_job r = j"

definition flight_caps :: "admission_policy \<Rightarrow> inference_call list \<Rightarrow> bool" where
  "flight_caps p rs \<longleftrightarrow>
     count_rows ic_active rs \<le> concurrent p
     \<and> count_rows (\<lambda>r. ic_active r \<and> background_call r) rs \<le> concurrent p - interactive_slots p
     \<and> (\<forall>s j. count_rows (\<lambda>r. ic_active r \<and> background_call r \<and> of_job s j r) rs \<le> per_job_concurrent p)"

definition window_caps :: "admission_policy \<Rightarrow> inference_call list \<Rightarrow> bool" where
  "window_caps p rs \<longleftrightarrow> (\<forall>t.
     count_rows (in_window t) rs \<le> rpm p
     \<and> load call_tokens (in_window t) rs \<le> tpm p
     \<and> count_rows (\<lambda>r. in_window t r \<and> background_call r) rs \<le> rpm p - interactive_rpm p
     \<and> load call_tokens (\<lambda>r. in_window t r \<and> background_call r) rs \<le> tpm p - interactive_tpm p
     \<and> (\<forall>s j. count_rows (\<lambda>r. in_window t r \<and> background_call r \<and> of_job s j r) rs \<le> per_job_rpm p))"

definition quota_rows :: "string \<Rightarrow> admission_db \<Rightarrow> inference_call list" where
  "quota_rows q db = filter (\<lambda>r. ic_quota r = q) (inference_calls db)"

definition admission_inv :: "admission_db \<Rightarrow> bool" where
  "admission_inv db \<longleftrightarrow>
     distinct (map fst (quota_policy db)) \<and> distinct (map ic_ticket (inference_calls db))
     \<and> distinct (map call_key (inference_calls db))
     \<and> (\<forall>r \<in> set (inference_calls db). 0 \<le> call_tokens r \<and> ic_quota r \<in> fst ` set (quota_policy db))
     \<and> (\<forall>(q, p) \<in> set (quota_policy db). policy_bounds p
          \<and> flight_caps p (quota_rows q db) \<and> window_caps p (quota_rows q db))"

section \<open>Every step keeps the caps\<close>

definition recent_call :: "rat \<Rightarrow> inference_call \<Rightarrow> bool" where
  "recent_call now r \<longleftrightarrow> ic_started r > now - 60"

lemma admission_denied_iff:
  fixes db :: admission_db and q :: string
  defines "rs \<equiv> quota_rows q db"
  shows "admission_denied p identity tokens background now
      (filter (\<lambda>r. ic_quota r = q \<and> (ic_started r > now - 60 \<or> ic_active r)) (inference_calls db)) \<longleftrightarrow>
    rpm p \<le> count_rows (recent_call now) rs
    \<or> tpm p < load call_tokens (recent_call now) rs + tokens
    \<or> concurrent p \<le> count_rows ic_active rs
    \<or> background \<and>
      (rpm p - interactive_rpm p \<le> count_rows (\<lambda>r. recent_call now r \<and> background_call r) rs
       \<or> tpm p - interactive_tpm p < load call_tokens (\<lambda>r. recent_call now r \<and> background_call r) rs + tokens
       \<or> concurrent p - interactive_slots p \<le> count_rows (\<lambda>r. ic_active r \<and> background_call r) rs
       \<or> per_job_concurrent p \<le> count_rows (\<lambda>r. ic_active r \<and> background_call r
           \<and> of_job (ci_scope identity) (ci_job identity) r) rs
       \<or> per_job_rpm p \<le> count_rows (\<lambda>r. recent_call now r \<and> background_call r
           \<and> of_job (ci_scope identity) (ci_job identity) r) rs)"
    (is "admission_denied _ _ _ _ _ ?rows \<longleftrightarrow> _")
proof -
  have recent: "filter (\<lambda>r. ic_started r > now - 60) ?rows = filter (recent_call now) rs"
    and active: "filter ic_active ?rows = filter ic_active rs"
    by (auto simp: rs_def quota_rows_def recent_call_def intro!: filter_cong)
  show ?thesis
    unfolding admission_denied_def Let_def recent active
    unfolding count_rows_length load_def filter_filter background_call_def of_job_def
    by (simp add: conj_ac)
qed

lemma flight_caps_add:
  assumes "flight_caps p rs" and "ic_active c"
    and "count_rows ic_active rs < concurrent p"
    and "background_call c \<Longrightarrow> count_rows (\<lambda>r. ic_active r \<and> background_call r) rs < concurrent p - interactive_slots p"
    and "background_call c \<Longrightarrow> count_rows (\<lambda>r. ic_active r \<and> background_call r \<and> of_job (ic_scope c) (ic_job c) r) rs
           < per_job_concurrent p"
  shows "flight_caps p (rs @ [c])"
proof -
  have "count_rows (\<lambda>r. ic_active r \<and> background_call r \<and> of_job s j r) (rs @ [c]) \<le> per_job_concurrent p" for s j
    using assms(1,5) unfolding flight_caps_def
    by (cases "background_call c \<and> s = ic_scope c \<and> j = ic_job c") (auto simp: of_job_def)
  then show ?thesis using assms unfolding flight_caps_def by auto
qed

lemma load_window:
  fixes w :: "inference_call \<Rightarrow> int"
  assumes "in_window t c" and "\<And>r. r \<in> set rs \<Longrightarrow> 0 \<le> w r"
  shows "load w (\<lambda>r. in_window t r \<and> P r) rs \<le> load w (\<lambda>r. recent_call (ic_started c) r \<and> P r) rs"
    and "load w (in_window t) rs \<le> load w (recent_call (ic_started c)) rs"
  using assms by (auto simp: in_window_def recent_call_def intro!: load_mono)

lemma window_caps_add:
  assumes "window_caps p rs" and nonneg: "\<And>r. r \<in> set rs \<Longrightarrow> 0 \<le> call_tokens r"
    and "count_rows (recent_call (ic_started c)) rs < rpm p"
    and "load call_tokens (recent_call (ic_started c)) rs + call_tokens c \<le> tpm p"
    and "background_call c \<Longrightarrow> count_rows (\<lambda>r. recent_call (ic_started c) r \<and> background_call r) rs
           < rpm p - interactive_rpm p"
    and "background_call c \<Longrightarrow> load call_tokens (\<lambda>r. recent_call (ic_started c) r \<and> background_call r) rs + call_tokens c
           \<le> tpm p - interactive_tpm p"
    and "background_call c \<Longrightarrow> count_rows (\<lambda>r. recent_call (ic_started c) r \<and> background_call r
           \<and> of_job (ic_scope c) (ic_job c) r) rs < per_job_rpm p"
  shows "window_caps p (rs @ [c])"
proof -
  have old: "window_caps p rs" by (rule assms)
  have one: "(0::int) \<le> 1" for r :: inference_call by simp
  note count = load_window [where w = "\<lambda>_. 1" and c = c and rs = rs, OF _ one]
    and toks = load_window [where w = call_tokens and c = c, OF _ nonneg]
  have "count_rows (in_window t) (rs @ [c]) \<le> rpm p" for t
    using old count(2) [of t] assms(3) by (auto simp: window_caps_def)
  moreover have "load call_tokens (in_window t) (rs @ [c]) \<le> tpm p" for t
    using old toks(2) [of t] assms(4) by (fastforce simp: window_caps_def)
  moreover have "count_rows (\<lambda>r. in_window t r \<and> background_call r) (rs @ [c]) \<le> rpm p - interactive_rpm p" for t
    using old count(1) [where t = t and P = background_call] assms(5) by (auto simp: window_caps_def)
  moreover have "load call_tokens (\<lambda>r. in_window t r \<and> background_call r) (rs @ [c]) \<le> tpm p - interactive_tpm p" for t
    using old toks(1) [where t = t and P = background_call] assms(6) by (fastforce simp: window_caps_def)
  moreover have "count_rows (\<lambda>r. in_window t r \<and> background_call r \<and> of_job s j r) (rs @ [c]) \<le> per_job_rpm p" for t s j
    using old count(1) [where t = t and P = "\<lambda>r. background_call r \<and> of_job s j r"] assms(7)
    by (cases "in_window t c \<and> background_call c \<and> s = ic_scope c \<and> j = ic_job c")
      (auto simp: window_caps_def of_job_def)
  ultimately show ?thesis unfolding window_caps_def by blast
qed

lemma acquire_cases:
  assumes "acquire q p now ticket identity ein rout workload db = Inr (t, db')"
  obtains "t = ticket"
    and "db' = db\<lparr>inference_calls := inference_calls db @ [call_row q now ticket identity ein rout workload]\<rparr>"
    and "workload \<in> {''INTERACTIVE'', ''DOCUMENT_BACKGROUND''}" and "0 \<le> ein" and "0 < rout" and "1 \<le> ci_attempt identity"
    and "ticket \<notin> set (map ic_ticket (inference_calls db))"
    and "call_key (call_row q now ticket identity ein rout workload) \<notin> set (map call_key (inference_calls db))"
    and "\<not> admission_denied p identity (ein + rout) (workload = ''DOCUMENT_BACKGROUND'') now
       (filter (\<lambda>r. ic_quota r = q \<and> (ic_started r > now - 60 \<or> ic_active r)) (inference_calls db))"
  using assms unfolding acquire_def Let_def
  by (auto simp: txn_simps insert_call_def call_row_def split: if_splits)

lemma admission_policy_unique:
  "admission_inv db \<Longrightarrow> (q, p) \<in> set (quota_policy db) \<Longrightarrow> (q, p') \<in> set (quota_policy db) \<Longrightarrow> p' = p"
  by (auto simp: admission_inv_def dest: eq_key_imp_eq_value)

lemma acquire_inv:
  assumes inv: "admission_inv db" and pol: "(q, p) \<in> set (quota_policy db)"
    and acq: "acquire q p now ticket identity ein rout workload db = Inr (t, db')"
  shows "admission_inv db'"
proof -
  let ?c = "call_row q now ticket identity ein rout workload"
  from acq show ?thesis
  proof (cases rule: acquire_cases)
    case 1
    have c: "ic_quota ?c = q" "ic_active ?c" "ic_started ?c = now" "call_tokens ?c = ein + rout"
      "ic_scope ?c = ci_scope identity" "ic_job ?c = ci_job identity"
      "background_call ?c \<longleftrightarrow> workload = ''DOCUMENT_BACKGROUND''" "ic_ticket ?c = ticket"
      by (simp_all add: call_row_def call_tokens_def background_call_def)
    note ok = 1(9) [unfolded admission_denied_iff de_Morgan_disj not_le not_less de_Morgan_conj]
    have rows: "quota_rows q' db' = (if q' = q then quota_rows q db @ [?c] else quota_rows q' db)" for q'
      using 1(2) c(1) by (auto simp: quota_rows_def)
    have old: "flight_caps p (quota_rows q db)" "window_caps p (quota_rows q db)"
      "\<And>r. r \<in> set (quota_rows q db) \<Longrightarrow> 0 \<le> call_tokens r"
      using inv pol by (auto simp: admission_inv_def quota_rows_def)
    have "flight_caps p (quota_rows q db')" "window_caps p (quota_rows q db')"
      unfolding rows using ok old c by (auto intro!: flight_caps_add window_caps_add)
    then have caps: "policy_bounds p' \<and> flight_caps p' (quota_rows q' db') \<and> window_caps p' (quota_rows q' db')"
      if "(q', p') \<in> set (quota_policy db)" for q' p'
      using that inv admission_policy_unique [OF inv pol, of p'] rows [of q']
      by (cases "q' = q") (auto simp: admission_inv_def)
    have "q \<in> fst ` set (quota_policy db)" using pol by force
    then show ?thesis using inv 1 caps c unfolding admission_inv_def by auto
  qed
qed

definition closed_call :: "inference_usage option \<Rightarrow> string \<Rightarrow> inference_call \<Rightarrow> inference_call" where
  "closed_call usage outcome r = r\<lparr>ic_active := False, ic_outcome := outcome, ic_usage := usage\<rparr>"

lemma closed_call_simps [simp]:
  "ic_ticket (closed_call u m r) = ic_ticket r" "ic_quota (closed_call u m r) = ic_quota r"
  "ic_active (closed_call u m r) = False" "call_tokens (closed_call u m r) = call_tokens r"
  "call_key (closed_call u m r) = call_key r" "in_window t (closed_call u m r) = in_window t r"
  "background_call (closed_call u m r) = background_call r" "of_job s j (closed_call u m r) = of_job s j r"
  "ic_started (closed_call u m r) = ic_started r"
  by (simp_all add: closed_call_def call_tokens_def call_key_def in_window_def background_call_def of_job_def)

lemma finish_cases:
  assumes "finish q ticket usage outcome db = Inr (u, db')"
  obtains r m where "r \<in> set (inference_calls db)" and "ic_ticket r = ticket" and "ic_quota r = q" and "ic_active r"
    and "db' = db\<lparr>inference_calls := upd_where (\<lambda>r. ic_ticket r = ticket) (closed_call usage m) (inference_calls db)\<rparr>"
  using assms unfolding finish_def Let_def closed_call_def [abs_def]
  by (auto split: option.splits if_splits dest!: find_SomeD)

lemma caps_closed:
  fixes k :: uuid and u :: "inference_usage option" and m :: string and rs :: "inference_call list"
  assumes "flight_caps p rs" and "window_caps p rs" and nonneg: "\<And>r. r \<in> set rs \<Longrightarrow> 0 \<le> call_tokens r"
  defines "rs' \<equiv> upd_where (\<lambda>r. ic_ticket r = k) (closed_call u m) rs"
  shows "flight_caps p rs'" and "window_caps p rs'"
proof -
  have le: "count_rows P rs' \<le> count_rows P rs" if "\<And>r. P (closed_call u m r) \<Longrightarrow> P r" for P
    unfolding rs'_def using that by (intro load_upd_where_le) auto
  have tok: "load call_tokens P rs' \<le> load call_tokens P rs" if "\<And>r. P (closed_call u m r) \<Longrightarrow> P r" for P
    unfolding rs'_def using that nonneg by (intro load_upd_where_le) auto
  show "flight_caps p rs'"
    using assms(1) unfolding flight_caps_def by (auto intro: order.trans [OF le])
  show "window_caps p rs'"
    using assms(2) unfolding window_caps_def by (auto intro: order.trans [OF le] order.trans [OF tok])
qed

lemma finish_inv:
  assumes inv: "admission_inv db" and fin: "finish q ticket usage outcome db = Inr (u, db')"
  shows "admission_inv db'"
  using fin
proof (cases rule: finish_cases)
  case (1 r m)
  let ?U = "\<lambda>r. ic_ticket r = ticket"
  have rows: "quota_rows q' db' = upd_where ?U (closed_call usage m) (quota_rows q' db)" for q'
    using 1(5) by (simp add: quota_rows_def table_simps)
  have "flight_caps p' (quota_rows q' db') \<and> window_caps p' (quota_rows q' db')"
    if "(q', p') \<in> set (quota_policy db)" for q' p'
    unfolding rows using inv that
    by (intro conjI caps_closed) (auto simp: admission_inv_def quota_rows_def)
  then show ?thesis using inv 1(5)
    by (auto simp: admission_inv_def table_simps set_upd_where)
qed

lemma open_inv:
  assumes "admission_inv db" and "policy_bounds p" and "open_admission q p db = Inr (u, db')"
  shows "admission_inv db'"
proof (cases "map_of (quota_policy db) q")
  case None
  then have new: "q \<notin> fst ` set (quota_policy db)" by (simp add: map_of_eq_None_iff)
  then have none: "quota_rows q db = []"
    using assms(1) by (auto simp: admission_inv_def quota_rows_def filter_empty_conv)
  have db': "db' = db\<lparr>quota_policy := quota_policy db @ [(q, p)]\<rparr>"
    using assms(3) None by (auto simp: open_admission_def txn_simps)
  have rows: "quota_rows q' db' = quota_rows q' db" for q' by (simp add: db' quota_rows_def)
  have "flight_caps p (quota_rows q db')" "window_caps p (quota_rows q db')"
    using assms(2) by (auto simp: rows none flight_caps_def window_caps_def policy_bounds_def)
  then show ?thesis using assms(1,2) new rows
    by (auto simp: admission_inv_def db')
next
  case (Some p')
  then show ?thesis using assms by (auto simp: open_admission_def txn_simps split: if_splits)
qed

lemma admission_step_inv: "admission_inv db \<Longrightarrow> admission_step db db' \<Longrightarrow> admission_inv db'"
  by (auto elim!: admission_step.cases intro: open_inv acquire_inv finish_inv)

lemma admission_inv_empty: "admission_inv empty_admission"
  by (simp add: admission_inv_def empty_admission_def)

interpretation admission: invariant_system "\<lambda>db. db = empty_admission" admission_step admission_inv
  by unfold_locales (auto intro: admission_step_inv admission_inv_empty)

abbreviation call_lookup :: "admission_db \<Rightarrow> uuid \<Rightarrow> inference_call option" where
  "call_lookup db k \<equiv> find (\<lambda>r. ic_ticket r = k) (inference_calls db)"

lemma closed_call_kept:
  assumes "admission_inv db" and "admission_step db db'" and row: "call_lookup db k = Some r" and "\<not> ic_active r"
  shows "call_lookup db' k = Some r"
  using assms(2)
proof cases
  case (opened p q u)
  then show ?thesis using row by (auto simp: open_admission_def txn_simps split: option.splits if_splits)
next
  case (acquired q p now ticket identity ein rout workload t)
  from acquired(2) show ?thesis by (cases rule: acquire_cases) (use row in \<open>auto simp: find_append_table\<close>)
next
  case (finished q ticket usage outcome u)
  from finished show ?thesis
  proof (cases rule: finish_cases)
    case (1 r' m)
    have "distinct (map ic_ticket (inference_calls db))" using assms(1) by (simp add: admission_inv_def)
    then have "ticket \<noteq> k"
      using 1(1,2,4) find_SomeD [OF row] assms(4) by (metis distinct_key_eq)
    then show ?thesis using 1(5) row find_SomeD [OF row] by (simp add: table_simps)
  qed
qed

interpretation closed_calls:
  frozen_rows "\<lambda>db. db = empty_admission" admission_step admission_inv call_lookup "\<lambda>r. \<not> ic_active r" "\<lambda>r. r"
  by unfold_locales (auto dest: closed_call_kept)

lemma admission_policy_caps:
  assumes "admission_reachable db" and "map_of (quota_policy db) q = Some p"
  shows "policy_bounds p" and "flight_caps p (quota_rows q db)" and "window_caps p (quota_rows q db)"
  using admission.reachable_inv [OF assms(1)] map_of_SomeD [OF assms(2)] by (auto simp: admission_inv_def)

section \<open>A sample history\<close>

definition sample_policy :: admission_policy where
  "sample_policy = \<lparr>rpm = 4, tpm = 1000, concurrent = 2, interactive_rpm = 1, interactive_tpm = 300,
     interactive_slots = 1, per_job_concurrent = 1, per_job_rpm = 2\<rparr>"

definition sample_identity :: "uuid \<Rightarrow> call_identity" where
  "sample_identity step = \<lparr>ci_scope = ''s'', ci_job = 5, ci_step = step, ci_attempt = 1, ci_profile = ''p/1'',
     ci_provider = ''azure'', ci_role = ''general'', ci_model = ''m'', ci_capability = ''c/1''\<rparr>"

definition sample_opened :: admission_db where
  "sample_opened = empty_admission\<lparr>quota_policy := [(''q'', sample_policy)]\<rparr>"

definition sample_busy :: admission_db where
  "sample_busy = sample_opened\<lparr>inference_calls :=
     [call_row ''q'' 100 9 (sample_identity 1) 50 100 ''DOCUMENT_BACKGROUND'']\<rparr>"

lemmas admission_sample_defs = sample_policy_def sample_identity_def sample_opened_def sample_busy_def
  empty_admission_def call_row_def

lemma sample_busy_reachable: "admission_reachable sample_busy"
proof -
  have "open_admission ''q'' sample_policy empty_admission = Inr ((), sample_opened)"
    by (simp add: open_admission_def guard_def sample_opened_def empty_admission_def)
  moreover have "policy_bounds sample_policy" by (simp add: policy_bounds_def sample_policy_def)
  ultimately have "admission_reachable sample_opened"
    by (blast intro: reachable.intros admission_step.opened)
  moreover have "acquire ''q'' sample_policy 100 9 (sample_identity 1) 50 100 ''DOCUMENT_BACKGROUND'' sample_opened
      = Inr (9, sample_busy)"
    by (simp add: acquire_def guard_def admission_denied_def insert_call_def sample_busy_def sample_opened_def
        empty_admission_def sample_policy_def sample_identity_def)
  moreover have "(''q'', sample_policy) \<in> set (quota_policy sample_opened)" by (simp add: sample_opened_def)
  ultimately show ?thesis by (blast intro: reachable.step admission_step.acquired)
qed

section \<open>Properties\<close>

text \<open>C6: Rate limits hold over every interval of sixty seconds. In every state that any number of
  processes can reach, whatever their clocks read, the calls of a quota that started in the interval
  \<open>(t - 60, t]\<close> number at most \<^verbatim>\<open>rpm\<close> and have reserved at most \<^verbatim>\<open>tpm\<close> tokens; the background
  calls among them leave the interactive share of both untouched, and no job has more than
  \<^verbatim>\<open>per_job_rpm\<close> of them. Finished and failed calls count.\<close>

theorem admission_rate_limits:
  assumes "admission_reachable db" and "map_of (quota_policy db) q = Some p"
  shows "count_rows (in_window t) (quota_rows q db) \<le> rpm p
    \<and> load call_tokens (in_window t) (quota_rows q db) \<le> tpm p
    \<and> count_rows (\<lambda>r. in_window t r \<and> background_call r) (quota_rows q db) \<le> rpm p - interactive_rpm p
    \<and> load call_tokens (\<lambda>r. in_window t r \<and> background_call r) (quota_rows q db) \<le> tpm p - interactive_tpm p
    \<and> count_rows (\<lambda>r. in_window t r \<and> background_call r \<and> of_job s j r) (quota_rows q db) \<le> per_job_rpm p"
  using admission_policy_caps(3) [OF assms] unfolding window_caps_def by blast

theorem admission_rate_limits_witness:
  "count_rows (in_window 100) (quota_rows ''q'' sample_busy) = 1
   \<and> load call_tokens (in_window 100) (quota_rows ''q'' sample_busy) \<le> 1000"
  using admission_rate_limits [OF sample_busy_reachable, of "''q''" sample_policy 100]
  by (simp add: admission_sample_defs quota_rows_def in_window_def)

text \<open>C29: Concurrency limits hold in every reachable state: the calls of a quota that are in flight
  number at most \<^verbatim>\<open>concurrent\<close>, the background calls among them leave \<^verbatim>\<open>interactive_slots\<close> slots free,
  and no job has more than \<^verbatim>\<open>per_job_concurrent\<close> in flight. A call leaves this count only when it is
  finished, so a crashed worker keeps its slot.\<close>

theorem admission_concurrency_limits:
  assumes "admission_reachable db" and "map_of (quota_policy db) q = Some p"
  shows "count_rows ic_active (quota_rows q db) \<le> concurrent p
    \<and> count_rows (\<lambda>r. ic_active r \<and> background_call r) (quota_rows q db) \<le> concurrent p - interactive_slots p
    \<and> count_rows (\<lambda>r. ic_active r \<and> background_call r \<and> of_job s j r) (quota_rows q db) \<le> per_job_concurrent p"
  using admission_policy_caps(2) [OF assms] unfolding flight_caps_def by blast

theorem admission_concurrency_limits_witness:
  "count_rows ic_active (quota_rows ''q'' sample_busy) = 1
   \<and> count_rows (\<lambda>r. ic_active r \<and> background_call r) (quota_rows ''q'' sample_busy) \<le> 1"
  using admission_concurrency_limits [OF sample_busy_reachable, of "''q''" sample_policy]
  by (simp add: admission_sample_defs quota_rows_def)

text \<open>C30: Background work never starves interactive work. In every reachable state in which no call
  started in the future, a valid interactive request with a fresh identity is admitted whenever the
  interactive calls alone leave room in the interactive reserve of slots, requests and tokens,
  however much background work has been admitted.\<close>

theorem interactive_never_starved:
  assumes reach: "admission_reachable db" and pol: "map_of (quota_policy db) q = Some p"
    and past: "\<And>r. r \<in> set (inference_calls db) \<Longrightarrow> ic_started r \<le> now"
    and valid: "1 \<le> ci_attempt identity" "0 \<le> ein" "0 < rout"
    and fresh: "ticket \<notin> set (map ic_ticket (inference_calls db))"
      "(q, ci_scope identity, ci_job identity, ci_step identity, ci_attempt identity)
         \<notin> set (map call_key (inference_calls db))"
    and slots: "count_rows (\<lambda>r. ic_active r \<and> \<not> background_call r) (quota_rows q db) < interactive_slots p"
    and requests: "count_rows (\<lambda>r. in_window now r \<and> \<not> background_call r) (quota_rows q db) < interactive_rpm p"
    and tokens: "load call_tokens (\<lambda>r. in_window now r \<and> \<not> background_call r) (quota_rows q db) + (ein + rout)
      \<le> interactive_tpm p"
  shows "\<exists>db'. acquire q p now ticket identity ein rout ''INTERACTIVE'' db = Inr (ticket, db')"
proof -
  note caps = admission_policy_caps [OF reach pol]
  have "0 \<le> load call_tokens (\<lambda>r. in_window now r \<and> \<not> background_call r) (quota_rows q db)"
    using admission.reachable_inv [OF reach] by (intro load_nonneg) (auto simp: admission_inv_def quota_rows_def)
  then have cap: "ein + rout \<le> tpm p" using tokens caps(1) by (simp add: policy_bounds_def)
  have recent: "load w (recent_call now) (quota_rows q db) = load w (in_window now) (quota_rows q db)"
    for w :: "inference_call \<Rightarrow> int"
    using past by (intro load_cong) (auto simp: recent_call_def in_window_def quota_rows_def)
  have "count_rows ic_active (quota_rows q db) < concurrent p"
    using slots caps(2) load_split [of "\<lambda>_. 1 :: int" ic_active "quota_rows q db" background_call]
    by (auto simp: flight_caps_def)
  moreover have "count_rows (recent_call now) (quota_rows q db) < rpm p"
    using requests caps(3) recent load_split [of "\<lambda>_. 1 :: int" "in_window now" "quota_rows q db" background_call]
    by (auto simp: window_caps_def dest: spec [of _ now])
  moreover have "load call_tokens (recent_call now) (quota_rows q db) + (ein + rout) \<le> tpm p"
    using tokens caps(3) recent [of call_tokens] load_split [of call_tokens "in_window now" "quota_rows q db" background_call]
    by (auto simp: window_caps_def dest: spec [of _ now])
  ultimately have "\<not> admission_denied p identity (ein + rout) False now
      (filter (\<lambda>r. ic_quota r = q \<and> (ic_started r > now - 60 \<or> ic_active r)) (inference_calls db))"
    unfolding admission_denied_iff by auto
  then show ?thesis using valid fresh cap
    by (simp add: acquire_def Let_def guard_def insert_call_def call_row_def call_key_def)
qed

theorem interactive_never_starved_witness:
  "\<exists>db'. acquire ''q'' sample_policy 110 10 (sample_identity 2) 50 100 ''INTERACTIVE'' sample_busy = Inr (10, db')"
  by (rule interactive_never_starved [OF sample_busy_reachable])
    (auto simp: admission_sample_defs quota_rows_def in_window_def background_call_def call_key_def)

text \<open>A reservation is finished at most once and its record is final. Finishing an active call of
  the quota succeeds and closes it without giving its requests or tokens back to the minute; in every
  state after that the record is the same, and every further attempt to finish it is refused.\<close>

theorem finish_once_and_final:
  assumes "admission_reachable db" and "call_lookup db ticket = Some r" and "ic_quota r = q" and "ic_active r"
  shows "case finish q ticket usage outcome db of Inl e \<Rightarrow> False
    | Inr (u, db') \<Rightarrow> \<exists>r'. call_lookup db' ticket = Some r' \<and> \<not> ic_active r' \<and> call_tokens r' = call_tokens r
        \<and> ic_started r' = ic_started r
        \<and> (\<forall>later. admission_step\<^sup>*\<^sup>* db' later \<longrightarrow> call_lookup later ticket = Some r'
             \<and> finish q ticket usage' outcome' later = Inl InferenceConfigurationError)"
proof -
  have inv: "admission_inv db" using assms(1) by (rule admission.reachable_inv)
  have dist: "distinct (map ic_ticket (inference_calls db))" using inv by (simp add: admission_inv_def)
  have "find (\<lambda>r. ic_ticket r = ticket \<and> ic_quota r = q) (inference_calls db) = Some r"
    using find_SomeD [OF assms(2)] assms(3) dist by (intro find_key_unique) auto
  then obtain m db' where fin: "finish q ticket usage outcome db = Inr ((), db')" and
    db': "db' = db\<lparr>inference_calls := upd_where (\<lambda>r. ic_ticket r = ticket) (closed_call usage m) (inference_calls db)\<rparr>"
    using assms(4) by (simp add: finish_def Let_def closed_call_def [abs_def])
  let ?r = "closed_call usage m r"
  have row: "call_lookup db' ticket = Some ?r"
    using assms(2) find_SomeD [OF assms(2)] by (simp add: db' table_simps)
  have inv': "admission_inv db'" using inv fin by (rule finish_inv)
  have "call_lookup later ticket = Some ?r \<and> finish q ticket usage' outcome' later = Inl InferenceConfigurationError"
    if "admission_step\<^sup>*\<^sup>* db' later" for later
  proof -
    have l: "call_lookup later ticket = Some ?r"
      using closed_calls.frozen_run [OF that inv' row] by auto
    have "distinct (map ic_ticket (inference_calls later))"
      using admission.run_inv [OF inv' that] by (simp add: admission_inv_def)
    then have "find (\<lambda>r. ic_ticket r = ticket \<and> ic_quota r = q) (inference_calls later) = Some ?r"
      using find_SomeD [OF l] assms(3) by (intro find_key_unique) auto
    with l show ?thesis by (simp add: finish_def)
  qed
  with fin row show ?thesis by auto
qed

theorem finish_once_and_final_witness:
  "case finish ''q'' 9 None ''timeout'' sample_busy of Inl e \<Rightarrow> False
    | Inr (u, db') \<Rightarrow> \<exists>r'. call_lookup db' 9 = Some r' \<and> \<not> ic_active r' \<and> call_tokens r' = 150
        \<and> finish ''q'' 9 None ''success'' db' = Inl InferenceConfigurationError"
proof -
  let ?c = "call_row ''q'' 100 9 (sample_identity 1) 50 100 ''DOCUMENT_BACKGROUND''"
  have row: "call_lookup sample_busy 9 = Some ?c" and c: "ic_quota ?c = ''q''" "ic_active ?c" "call_tokens ?c = 150"
    by (simp_all add: sample_busy_def call_row_def call_tokens_def)
  note final = finish_once_and_final [OF sample_busy_reachable row c(1,2), where usage = None and outcome = "''timeout''"
      and usage' = None and outcome' = "''success''"]
  obtain db' where fin: "finish ''q'' 9 None ''timeout'' sample_busy = Inr ((), db')"
    using final by (cases "finish ''q'' 9 None ''timeout'' sample_busy") auto
  from final [unfolded fin c(3)] obtain r' where "call_lookup db' 9 = Some r'" "\<not> ic_active r'" "call_tokens r' = 150"
    "admission_step\<^sup>*\<^sup>* db' db' \<longrightarrow> finish ''q'' 9 None ''success'' db' = Inl InferenceConfigurationError"
    by auto
  with fin show ?thesis by simp
qed

end
