(* ===== verification/Governance.thy ===== *)
theory Governance
  imports Admission Security
begin

text \<open>
  Cost governance (governance/ledger.py): prices, quotas and the ledger of reservations with its
  operations \<^verbatim>\<open>reserve\<close>, \<^verbatim>\<open>transition\<close>, \<^verbatim>\<open>settle\<close>, \<^verbatim>\<open>usage\<close> and \<^verbatim>\<open>tenant_usage\<close>. Amounts are exact
  rationals: with the bounds of \<^verbatim>\<open>money\<close> and of the token counts no result needs the 60 digits the
  code computes with. Times are seconds; days and months are those of the UTC calendar. The row
  stores the identity and the identity key as the values whose JSON text the code stores. The
  fresh ticket and the clock reading are arguments.
\<close>

section \<open>The UTC calendar\<close>

text \<open>\<^verbatim>\<open>datetime.fromtimestamp\<close> rounds to microseconds; the civil date of a day number is in the
  proleptic Gregorian calendar, counted in years that begin in March.\<close>

definition day_number :: "rat \<Rightarrow> int" where
  "day_number t = round_half_even (t * 1000000) div 86400000000"

definition civil_of_day :: "int \<Rightarrow> int \<times> int \<times> int" where
  "civil_of_day n =
     (let z = n + 719468; era = z div 146097; doe = z mod 146097;
          yoe = (doe - doe div 1460 + doe div 36524 - doe div 146096) div 365;
          doy = doe - (365 * yoe + yoe div 4 - yoe div 100);
          mp = (5 * doy + 2) div 153; d = doy - (153 * mp + 2) div 5 + 1;
          m = (if mp < 10 then mp + 3 else mp - 9);
          y = yoe + era * 400 + (if m \<le> 2 then 1 else 0)
      in (y, m, d))"

definition day_start :: "rat \<Rightarrow> rat" where
  "day_start t = of_int (day_number t * 86400)"

definition month_start :: "rat \<Rightarrow> rat" where
  "month_start t = (let n = day_number t; (y, m, d) = civil_of_day n in of_int ((n - (d - 1)) * 86400))"

definition pad_nat :: "nat \<Rightarrow> nat \<Rightarrow> string" where
  "pad_nat w n = (let s = nat_text n in replicate (w - length s) CHR ''0'' @ s)"

definition date_text :: "rat \<Rightarrow> string" where
  "date_text t = (let (y, m, d) = civil_of_day (day_number t)
     in pad_nat 4 (nat y) @ ''-'' @ pad_nat 2 (nat m) @ ''-'' @ pad_nat 2 (nat d))"

section \<open>Prices and quotas\<close>

datatype governance_error = Governance_denied | Pricing_unavailable | Reservation_conflict

text \<open>A raised exception: of the governance module, or of the security module (database trouble).\<close>

datatype gov_exn = Gov governance_error | Sec security_error

text \<open>A \<^verbatim>\<open>Decimal\<close> as its integer coefficient and its exponent, or an infinity or NaN.\<close>

datatype py_decimal = Dec int int | Non_finite

definition decimal_value :: "int \<Rightarrow> int \<Rightarrow> rat" where
  "decimal_value c e = (if 0 \<le> e then of_int c * 10 ^ nat e else of_int c / 10 ^ nat (- e))"

definition money :: "py_decimal \<Rightarrow> rat option" where
  "money d = (case d of Non_finite \<Rightarrow> None
     | Dec c e \<Rightarrow> if decimal_value c e < 0 \<or> decimal_value c e > 1000000000000 \<or> e < -12 then None
                  else Some (decimal_value c e))"

record price =
  pr_provider :: string
  pr_model :: string
  input_price :: rat
  output_price :: rat
  price_unit :: int

definition decimal_unit :: "int \<Rightarrow> bool" where
  "decimal_unit v \<longleftrightarrow> v \<in> set (map (\<lambda>i. 10 ^ i) [0..<10])"

definition price_valid :: "price \<Rightarrow> bool" where
  "price_valid p \<longleftrightarrow> token_text 128 (pr_provider p) \<and> token_text 256 (pr_model p)
     \<and> 0 \<le> input_price p \<and> input_price p \<le> 1000000000000 \<and> 0 \<le> output_price p \<and> output_price p \<le> 1000000000000
     \<and> 0 < price_unit p \<and> price_unit p \<le> 1000000000 \<and> decimal_unit (price_unit p)"

definition cost :: "price \<Rightarrow> int \<Rightarrow> int \<Rightarrow> rat" where
  "cost p input_tokens output_tokens =
     (input_price p * of_int input_tokens + output_price p * of_int output_tokens) / of_int (price_unit p)"

record pricing_catalog =
  pc_version :: string
  pc_currency :: string
  pc_effective_date :: string
  pc_operator_approved :: bool
  pc_prices :: "price list"

text \<open>The effective date has four, two and two digits, and \<^verbatim>\<open>strptime\<close> accepts it, which admits the years 1 to 9999.\<close>

definition days_in_month :: "nat \<Rightarrow> nat \<Rightarrow> nat" where
  "days_in_month y m =
     (if m = 2 then if y mod 4 = 0 \<and> (y mod 100 \<noteq> 0 \<or> y mod 400 = 0) then 29 else 28
      else if m \<in> {4, 6, 9, 11} then 30 else 31)"

definition digits_value :: "string \<Rightarrow> nat" where
  "digits_value s = foldl (\<lambda>n c. 10 * n + (of_char c - 48)) 0 s"

definition effective_date_valid :: "string \<Rightarrow> bool" where
  "effective_date_valid s \<longleftrightarrow> length s = 10 \<and> s ! 4 = CHR ''-'' \<and> s ! 7 = CHR ''-''
     \<and> list_all (\<lambda>i. CHR ''0'' \<le> s ! i \<and> s ! i \<le> CHR ''9'') [0, 1, 2, 3, 5, 6, 8, 9]
     \<and> (let y = digits_value (take 4 s); m = digits_value (take 2 (drop 5 s)); d = digits_value (drop 8 s)
        in 1 \<le> y \<and> 1 \<le> m \<and> m \<le> 12 \<and> 1 \<le> d \<and> d \<le> days_in_month y m)"

definition catalog_approved :: "pricing_catalog \<Rightarrow> bool" where
  "catalog_approved c \<longleftrightarrow> token_text 128 (pc_version c)
     \<and> length (pc_currency c) = 3 \<and> list_all (\<lambda>x. CHR ''A'' \<le> x \<and> x \<le> CHR ''Z'') (pc_currency c)
     \<and> effective_date_valid (pc_effective_date c)
     \<and> 1 \<le> length (pc_prices c) \<and> length (pc_prices c) \<le> 128 \<and> list_all price_valid (pc_prices c)
     \<and> pc_operator_approved c \<and> distinct (map (\<lambda>p. (pr_provider p, pr_model p)) (pc_prices c))"

definition catalog_price :: "pricing_catalog \<Rightarrow> string \<Rightarrow> string \<Rightarrow> gov_exn + price" where
  "catalog_price c provider model =
     (case find (\<lambda>p. (pr_provider p, pr_model p) = (provider, model)) (pc_prices c) of
        Some p \<Rightarrow> Inr p | None \<Rightarrow> Inl (Gov Pricing_unavailable))"

record quota_limits =
  requests_per_window :: int
  window_seconds :: int
  interactive_concurrent :: int
  background_concurrent :: int
  reserved_tokens :: int
  daily_tokens :: int
  monthly_tokens :: int
  monthly_cost :: rat

definition quota_limits_valid :: "quota_limits \<Rightarrow> bool" where
  "quota_limits_valid l \<longleftrightarrow> requests_per_window l > 0 \<and> window_seconds l > 0 \<and> window_seconds l \<le> 86400
     \<and> interactive_concurrent l > 0 \<and> background_concurrent l > 0 \<and> reserved_tokens l > 0
     \<and> daily_tokens l > 0 \<and> monthly_tokens l > 0 \<and> 0 \<le> monthly_cost l \<and> monthly_cost l \<le> 1000000000000"

record evaluation_binding =
  ev_scopes :: "scope list"
  ev_governance_path :: string
  ev_provider_path :: string
  ev_provider_key :: string
  ev_provider_policy_sha256 :: string

definition evaluation_version :: string where
  "evaluation_version = ''polymind-evaluation/1''"

definition evaluation_limits :: quota_limits where
  "evaluation_limits = \<lparr>requests_per_window = 16, window_seconds = 86400, interactive_concurrent = 1,
     background_concurrent = 1, reserved_tokens = 112000, daily_tokens = 500000, monthly_tokens = 1500000,
     monthly_cost = 5\<rparr>"

record quota_policy_set =
  qp_version :: string
  qp_owner :: quota_limits
  qp_tenant :: quota_limits
  qp_evaluation :: "evaluation_binding option"

definition select_limits :: "quota_policy_set \<Rightarrow> scope \<Rightarrow> string \<times> quota_limits \<times> quota_limits" where
  "select_limits p s = (case qp_evaluation p of
       Some b \<Rightarrow> if s \<in> set (ev_scopes b) then (evaluation_version, evaluation_limits, evaluation_limits)
                else (qp_version p, qp_owner p, qp_tenant p)
     | None \<Rightarrow> (qp_version p, qp_owner p, qp_tenant p))"

section \<open>The ledger\<close>

datatype reservation_state = RESERVED | ADMITTING | STARTED | RELEASED | UNKNOWN | SETTLED

record reservation =
  rv_ticket :: uuid
  rv_tenant :: uuid
  rv_owner :: uuid
  rv_identity :: call_identity
  rv_identity_key :: "uuid \<times> uuid \<times> int"
  rv_workload :: string
  rv_policy :: string
  rv_catalog :: string
  rv_provider :: string
  rv_model :: string
  rv_input :: int
  rv_output :: int
  rv_cost :: rat
  rv_actual_input :: "int option"
  rv_actual_output :: "int option"
  rv_actual_cost :: "rat option"
  rv_state :: reservation_state
  rv_created :: rat

record gov_event =
  ge_tenant :: uuid
  ge_owner :: uuid
  ge_action :: string
  ge_at :: rat

record gov_db =
  gv_configuration :: "(quota_policy_set \<times> pricing_catalog) option"
  gv_reservations :: "reservation list"
  gv_events :: "gov_event list"

definition empty_governance :: gov_db where
  "empty_governance = \<lparr>gv_configuration = None, gv_reservations = [], gv_events = []\<rparr>"

text \<open>The part of a ledger object that its constructor fixes.\<close>

record gov_settings =
  gs_policy :: quota_policy_set
  gs_catalog :: pricing_catalog
  gs_event_limit :: nat

definition open_governance :: "gov_settings \<Rightarrow> (gov_exn, gov_db, unit) txn" where
  "open_governance st db =
     (if \<not> (1 \<le> gs_event_limit st \<and> gs_event_limit st \<le> 10000000) then Inl (Sec Security_configuration)
      else case gv_configuration db of
        Some c \<Rightarrow> if c \<noteq> (gs_policy st, gs_catalog st) then Inl (Sec Security_configuration) else Inr ((), db)
      | None \<Rightarrow> Inr ((), db\<lparr>gv_configuration := Some (gs_policy st, gs_catalog st)\<rparr>))"

definition current_policy :: "gov_settings \<Rightarrow> gov_db \<Rightarrow> gov_exn + unit" where
  "current_policy st db =
     guard (gv_configuration db = Some (gs_policy st, gs_catalog st)) (Sec Security_configuration)"

definition gov_log :: "gov_settings \<Rightarrow> rat \<Rightarrow> scope \<Rightarrow> string \<Rightarrow> gov_db \<Rightarrow> gov_exn + gov_db" where
  "gov_log st now s act db =
     (if length (gv_events db) \<ge> gs_event_limit st then Inl (Sec Security_unavailable)
      else Inr (db\<lparr>gv_events := gv_events db @
        [\<lparr>ge_tenant = tenant s, ge_owner = owner s, ge_action = act, ge_at = now\<rparr>]\<rparr>))"

section \<open>Reservation\<close>

definition identity_json :: "call_identity \<Rightarrow> json" where
  "identity_json i = JObj [(''scope'', JStr (ci_scope i)), (''job'', JStr (uuid_text (ci_job i))),
     (''step'', JStr (uuid_text (ci_step i))), (''attempt'', JInt (ci_attempt i)), (''profile'', JStr (ci_profile i)),
     (''provider'', JStr (ci_provider i)), (''role'', JStr (ci_role i)), (''model'', JStr (ci_model i)),
     (''capability'', JStr (ci_capability i))]"

definition identity_key :: "call_identity \<Rightarrow> uuid \<times> uuid \<times> int" where
  "identity_key i = (ci_job i, ci_step i, ci_attempt i)"

definition unsettled :: "reservation \<Rightarrow> bool" where
  "unsettled r \<longleftrightarrow> rv_state r \<notin> {SETTLED, RELEASED}"

definition estimate_tokens :: "reservation \<Rightarrow> int" where
  "estimate_tokens r = rv_input r + rv_output r"

text \<open>Only rows that are \<open>SETTLED\<close> reach the second case, and those have both counts.\<close>

definition row_tokens :: "reservation \<Rightarrow> int" where
  "row_tokens r = (if unsettled r then estimate_tokens r
     else case (rv_actual_input r, rv_actual_output r) of (Some a, Some b) \<Rightarrow> a + b | _ \<Rightarrow> 0)"

definition row_cost :: "reservation \<Rightarrow> rat" where
  "row_cost r = (if unsettled r then rv_cost r else case rv_actual_cost r of Some c \<Rightarrow> c | None \<Rightarrow> 0)"

definition row_active :: "reservation \<Rightarrow> bool" where
  "row_active r \<longleftrightarrow> rv_state r \<in> {RESERVED, ADMITTING, STARTED}"

definition workload_cap :: "quota_limits \<Rightarrow> string \<Rightarrow> int" where
  "workload_cap l w = (if w = ''INTERACTIVE'' then interactive_concurrent l else background_concurrent l)"

definition quota_denied :: "rat \<Rightarrow> string \<Rightarrow> int \<Rightarrow> rat \<Rightarrow> quota_limits \<Rightarrow> reservation list \<Rightarrow> bool" where
  "quota_denied now workload tokens price l rs =
     (let day = day_start now; month = month_start now;
          recent = filter (\<lambda>r. rv_created r > now - of_int (window_seconds l)) rs;
          spent = filter (\<lambda>r. rv_state r \<noteq> RELEASED) rs;
          active = filter row_active spent;
          current = filter (\<lambda>r. rv_workload r = workload) active;
          expense = sum_list (map row_cost (filter (\<lambda>r. rv_created r \<ge> month \<or> unsettled r) spent))
      in int (length recent) \<ge> requests_per_window l \<or> int (length current) \<ge> workload_cap l workload
         \<or> sum_list (map estimate_tokens (filter unsettled spent)) + tokens > reserved_tokens l
         \<or> sum_list (map row_tokens (filter (\<lambda>r. rv_created r \<ge> day \<or> unsettled r) spent)) + tokens > daily_tokens l
         \<or> sum_list (map row_tokens (filter (\<lambda>r. rv_created r \<ge> month \<or> unsettled r) spent)) + tokens > monthly_tokens l
         \<or> expense + price > monthly_cost l)"

definition tenant_rows :: "uuid \<Rightarrow> gov_db \<Rightarrow> reservation list" where
  "tenant_rows t db = filter (\<lambda>r. rv_tenant r = t) (gv_reservations db)"

definition owner_rows :: "scope \<Rightarrow> gov_db \<Rightarrow> reservation list" where
  "owner_rows s db = filter (\<lambda>r. rv_owner r = owner s) (tenant_rows (tenant s) db)"

definition reserve_guard ::
  "prims \<Rightarrow> gov_settings \<Rightarrow> rat \<Rightarrow> principal \<Rightarrow> call_identity \<Rightarrow> int \<Rightarrow> int \<Rightarrow> string \<Rightarrow> gov_exn + rat" where
  "reserve_guard H st now p identity input output workload =
     sbind (guard (\<not> (rat_of_int (p_expires p) \<le> now \<or> ci_scope identity \<noteq> scope_identity (p_scope p) \<or> ci_attempt identity < 1
         \<or> workload \<notin> {''INTERACTIVE'', ''DOCUMENT_BACKGROUND''} \<or> input < 0 \<or> output \<le> 0 \<or> input + output > 1000000000))
       (Gov Governance_denied)) (\<lambda>_.
     sbind (catalog_price (gs_catalog st) (ci_provider identity) (ci_model identity)) (\<lambda>pr.
     sbind (guard (\<not> pc_effective_date (gs_catalog st) > date_text now) (Gov Pricing_unavailable)) (\<lambda>_.
     sbind (guard (\<not> length (canonical H (identity_json identity)) > 2048) (Gov Governance_denied)) (\<lambda>_.
       Inr (cost pr input output)))))"

definition reservation_row ::
  "gov_settings \<Rightarrow> rat \<Rightarrow> uuid \<Rightarrow> scope \<Rightarrow> string \<Rightarrow> call_identity \<Rightarrow> int \<Rightarrow> int \<Rightarrow> string \<Rightarrow> rat \<Rightarrow> reservation" where
  "reservation_row st now ticket s version identity input output workload c =
     \<lparr>rv_ticket = ticket, rv_tenant = tenant s, rv_owner = owner s, rv_identity = identity,
      rv_identity_key = identity_key identity, rv_workload = workload, rv_policy = version,
      rv_catalog = pc_version (gs_catalog st), rv_provider = ci_provider identity, rv_model = ci_model identity,
      rv_input = input, rv_output = output, rv_cost = c, rv_actual_input = None, rv_actual_output = None,
      rv_actual_cost = None, rv_state = RESERVED, rv_created = now\<rparr>"

definition find_identity :: "scope \<Rightarrow> uuid \<times> uuid \<times> int \<Rightarrow> gov_db \<Rightarrow> reservation option" where
  "find_identity s k db = find (\<lambda>r. rv_tenant r = tenant s \<and> rv_owner r = owner s \<and> rv_identity_key r = k) (gv_reservations db)"

definition find_ticket :: "uuid \<Rightarrow> gov_db \<Rightarrow> reservation option" where
  "find_ticket t db = find (\<lambda>r. rv_ticket r = t) (gv_reservations db)"

definition reserve ::
  "prims \<Rightarrow> gov_settings \<Rightarrow> rat \<Rightarrow> uuid \<Rightarrow> principal \<Rightarrow> call_identity \<Rightarrow> int \<Rightarrow> int \<Rightarrow> string
     \<Rightarrow> gov_db \<Rightarrow> (gov_exn + uuid) \<times> gov_db" where
  "reserve H st now fresh p identity input output workload db =
     (case reserve_guard H st now p identity input output workload of
        Inl e \<Rightarrow> (Inl e, db)
      | Inr c \<Rightarrow>
          (let s = p_scope p; (version, owner_limits, tenant_limits) = select_limits (gs_policy st) s
           in case current_policy st db of Inl e \<Rightarrow> (Inl e, db) | Inr _ \<Rightarrow>
             (case find_identity s (identity_key identity) db of
                Some old \<Rightarrow>
                  if (rv_input old, rv_output old, rv_workload old, rv_identity old) \<noteq> (input, output, workload, identity)
                  then (Inl (Gov Reservation_conflict), db) else (Inr (rv_ticket old), db)
              | None \<Rightarrow>
                  if quota_denied now workload (input + output) c tenant_limits (tenant_rows (tenant s) db)
                     \<or> quota_denied now workload (input + output) c owner_limits (owner_rows s db)
                  then (case gov_log st now s ''ADMISSION_DENIED'' db of
                      Inl e \<Rightarrow> (Inl e, db) | Inr db' \<Rightarrow> (Inl (Gov Governance_denied), db'))
                  else if fresh \<in> set (map rv_ticket (gv_reservations db)) then (Inl (Sec Security_unavailable), db)
                  else (case gov_log st now s ''RESERVED'' (db\<lparr>gv_reservations := gv_reservations db @
                        [reservation_row st now fresh s version identity input output workload c]\<rparr>) of
                      Inl e \<Rightarrow> (Inl e, db) | Inr db' \<Rightarrow> (Inr fresh, db')))))"

section \<open>Transition, settlement and reports\<close>

definition transition ::
  "uuid \<Rightarrow> reservation_state \<Rightarrow> reservation_state \<Rightarrow> (gov_exn, gov_db, unit) txn" where
  "transition ticket before after db =
     (if (before, after) \<notin> {(RESERVED, ADMITTING), (ADMITTING, STARTED), (ADMITTING, RELEASED)}
      then Inl (Gov Reservation_conflict)
      else if length (filter (\<lambda>r. rv_ticket r = ticket \<and> rv_state r = before) (gv_reservations db)) \<noteq> 1
      then Inl (Gov Reservation_conflict)
      else Inr ((), db\<lparr>gv_reservations := upd_where (\<lambda>r. rv_ticket r = ticket \<and> rv_state r = before)
             (\<lambda>r. r\<lparr>rv_state := after\<rparr>) (gv_reservations db)\<rparr>))"

definition usage_counts :: "inference_usage option \<Rightarrow> int option \<times> int option" where
  "usage_counts u = (case u of None \<Rightarrow> (None, None) | Some v \<Rightarrow> (prompt_tokens v, completion_tokens v))"

definition count_valid :: "int option \<Rightarrow> bool" where
  "count_valid v = (case v of None \<Rightarrow> True | Some n \<Rightarrow> 0 \<le> n \<and> n \<le> 1000000000)"

definition settle :: "gov_settings \<Rightarrow> uuid \<Rightarrow> inference_usage option \<Rightarrow> (gov_exn, gov_db, unit) txn" where
  "settle st ticket u db =
    (let (a, b) = usage_counts u
     in if \<not> (count_valid a \<and> count_valid b) then Inl (Gov Reservation_conflict)
        else case find_ticket ticket db of
          None \<Rightarrow> Inl (Gov Reservation_conflict)
        | Some row \<Rightarrow>
            if rv_state row \<notin> {STARTED, UNKNOWN, SETTLED} then Inl (Gov Reservation_conflict)
            else if rv_state row = SETTLED
            then (if (a, b) \<noteq> (rv_actual_input row, rv_actual_output row) then Inl (Gov Reservation_conflict) else Inr ((), db))
            else if rv_state row = UNKNOWN \<and> ((rv_actual_input row \<noteq> None \<and> rv_actual_input row \<noteq> a)
                 \<or> (rv_actual_output row \<noteq> None \<and> rv_actual_output row \<noteq> b))
            then Inl (Gov Reservation_conflict)
            else sbind (case (a, b) of
                  (Some x, Some y) \<Rightarrow> sbind (catalog_price (gs_catalog st) (rv_provider row) (rv_model row))
                     (\<lambda>pr. Inr (Some (cost pr x y)))
                | _ \<Rightarrow> Inr None)
              (\<lambda>c. Inr ((), db\<lparr>gv_reservations := upd_where (\<lambda>r. rv_ticket r = ticket)
                   (\<lambda>r. r\<lparr>rv_actual_input := a, rv_actual_output := b, rv_actual_cost := c,
                      rv_state := (if c = None then UNKNOWN else SETTLED)\<rparr>) (gv_reservations db)\<rparr>)))"

definition gov_usage ::
  "nat \<Rightarrow> rat \<Rightarrow> principal \<Rightarrow> int \<Rightarrow> int \<Rightarrow> gov_db \<Rightarrow> authority \<Rightarrow> (gov_exn + reservation list) \<times> authority" where
  "gov_usage alimit now p page offset db auth =
     (case authorize alimit now p USAGE_READ (Scope_resource (p_scope p)) auth of
        (Inl e, auth') \<Rightarrow> (Inl (Sec e), auth')
      | (Inr _, auth') \<Rightarrow>
          (if \<not> (1 \<le> page \<and> page \<le> 100) \<or> \<not> (0 \<le> offset \<and> offset \<le> 10000) then Inl (Gov Governance_denied)
           else Inr (take (nat page) (drop (nat offset)
             (sort_key (\<lambda>r. (rv_created r, uint (rv_ticket r))) (owner_rows (p_scope p) db)))), auth'))"

definition tenant_usage ::
  "nat \<Rightarrow> rat \<Rightarrow> gov_settings \<Rightarrow> principal \<Rightarrow> gov_db \<Rightarrow> authority \<Rightarrow> (gov_exn + (string \<times> nat \<times> rat \<times> rat)) \<times> authority" where
  "tenant_usage alimit now st p db auth =
     (case authorize alimit now p TENANT_ADMIN No_resource auth of
        (Inl e, auth') \<Rightarrow> (Inl (Sec e), auth')
      | (Inr _, auth') \<Rightarrow>
          (let rows = tenant_rows (tenant (p_scope p)) db;
               reserved = sum_list (map rv_cost (filter unsettled rows));
               measured = sum_list (map (\<lambda>r. case rv_actual_cost r of Some c \<Rightarrow> c | None \<Rightarrow> 0)
                            (filter (\<lambda>r. rv_state r = SETTLED) rows))
           in (Inr (pc_currency (gs_catalog st), length rows, reserved, measured), auth')))"

end
