(* ===== verification/GovernanceEvents.thy ===== *)
theory GovernanceEvents
  imports Governance
begin

text \<open>
  Histories of the governance ledger. Every operation is one of four events: the configuration is
  written once, the event log grows, a reservation that the quotas admit is added, or the state of
  one reservation moves forward. The invariant says that every owner and every tenant stays within
  its quotas; the forward movement is a rank that only grows.
\<close>

section \<open>Caps\<close>

definition created_in :: "quota_limits \<Rightarrow> rat \<Rightarrow> reservation \<Rightarrow> bool" where
  "created_in l t r \<longleftrightarrow> t - of_int (window_seconds l) < rv_created r \<and> rv_created r \<le> t"

definition gov_caps :: "quota_limits \<Rightarrow> reservation list \<Rightarrow> bool" where
  "gov_caps l rs \<longleftrightarrow>
     (\<forall>t. count_rows (created_in l t) rs \<le> requests_per_window l)
     \<and> (\<forall>w. count_rows (\<lambda>r. row_active r \<and> rv_workload r = w) rs \<le> workload_cap l w)
     \<and> load estimate_tokens unsettled rs \<le> reserved_tokens l"

lemma row_active_unsettled: "row_active r \<Longrightarrow> unsettled r"
  by (auto simp: row_active_def unsettled_def)

lemma unsettled_not_released: "unsettled r \<Longrightarrow> rv_state r \<noteq> RELEASED"
  by (auto simp: unsettled_def)

lemma quota_admittedD:
  assumes "\<not> quota_denied now w tokens c l rs"
  shows "count_rows (\<lambda>r. rv_created r > now - of_int (window_seconds l)) rs < requests_per_window l"
    and "count_rows (\<lambda>r. row_active r \<and> rv_workload r = w) rs < workload_cap l w"
    and "load estimate_tokens unsettled rs + tokens \<le> reserved_tokens l"
    and "load row_tokens (\<lambda>r. rv_state r \<noteq> RELEASED \<and> (rv_created r \<ge> day_start now \<or> unsettled r)) rs + tokens \<le> daily_tokens l"
    and "load row_tokens (\<lambda>r. rv_state r \<noteq> RELEASED \<and> (rv_created r \<ge> month_start now \<or> unsettled r)) rs + tokens \<le> monthly_tokens l"
    and "load row_cost (\<lambda>r. rv_state r \<noteq> RELEASED \<and> (rv_created r \<ge> month_start now \<or> unsettled r)) rs + c \<le> monthly_cost l"
proof -
  have a: "filter (\<lambda>r. rv_workload r = w) (filter row_active (filter (\<lambda>r. rv_state r \<noteq> RELEASED) rs))
      = filter (\<lambda>r. row_active r \<and> rv_workload r = w) rs"
    and b: "filter unsettled (filter (\<lambda>r. rv_state r \<noteq> RELEASED) rs) = filter unsettled rs"
    by (auto simp: row_active_unsettled unsettled_not_released intro!: filter_cong)
  note d = assms [unfolded quota_denied_def Let_def a b de_Morgan_disj not_le not_less]
  from d show "count_rows (\<lambda>r. rv_created r > now - of_int (window_seconds l)) rs < requests_per_window l"
    "count_rows (\<lambda>r. row_active r \<and> rv_workload r = w) rs < workload_cap l w"
    unfolding count_rows_length by blast+
  from d show "load estimate_tokens unsettled rs + tokens \<le> reserved_tokens l"
    "load row_tokens (\<lambda>r. rv_state r \<noteq> RELEASED \<and> (rv_created r \<ge> day_start now \<or> unsettled r)) rs + tokens \<le> daily_tokens l"
    "load row_tokens (\<lambda>r. rv_state r \<noteq> RELEASED \<and> (rv_created r \<ge> month_start now \<or> unsettled r)) rs + tokens \<le> monthly_tokens l"
    "load row_cost (\<lambda>r. rv_state r \<noteq> RELEASED \<and> (rv_created r \<ge> month_start now \<or> unsettled r)) rs + c \<le> monthly_cost l"
    unfolding load_def filter_filter by blast+
qed

lemma gov_caps_add:
  assumes caps: "gov_caps l rs" and ok: "\<not> quota_denied now w tokens c l rs"
    and r: "rv_created r = now" "rv_workload r = w" "estimate_tokens r = tokens" "rv_state r = RESERVED"
  shows "gov_caps l (rs @ [r])"
proof -
  note adm = quota_admittedD [OF ok]
  have "count_rows (created_in l t) (rs @ [r]) \<le> requests_per_window l" for t
  proof (cases "created_in l t r")
    case True
    then have "count_rows (created_in l t) rs \<le> count_rows (\<lambda>r. rv_created r > now - of_int (window_seconds l)) rs"
      using r(1) by (intro load_mono) (auto simp: created_in_def)
    with adm(1) show ?thesis by simp
  next
    case False
    with caps show ?thesis by (simp add: gov_caps_def)
  qed
  moreover have "count_rows (\<lambda>r. row_active r \<and> rv_workload r = w') (rs @ [r]) \<le> workload_cap l w'" for w'
    using caps adm(2) r(2) by (cases "w' = w") (auto simp: gov_caps_def)
  moreover have "load estimate_tokens unsettled (rs @ [r]) \<le> reserved_tokens l"
    using adm(3) r(3,4) by (simp add: unsettled_def)
  ultimately show ?thesis unfolding gov_caps_def by blast
qed

section \<open>Rows move forward\<close>

fun rank :: "reservation_state \<Rightarrow> nat" where
  "rank RESERVED = 0"
| "rank ADMITTING = 1"
| "rank STARTED = 2"
| "rank UNKNOWN = 3"
| "rank RELEASED = 4"
| "rank SETTLED = 4"

definition row_terms :: "reservation \<Rightarrow> uuid \<times> uuid \<times> uuid \<times> call_identity \<times> (uuid \<times> uuid \<times> int) \<times> string \<times> int \<times> int \<times> rat \<times> rat" where
  "row_terms r = (rv_ticket r, rv_tenant r, rv_owner r, rv_identity r, rv_identity_key r, rv_workload r,
     rv_input r, rv_output r, rv_cost r, rv_created r)"

definition row_ok :: "reservation \<Rightarrow> bool" where
  "row_ok r \<longleftrightarrow> (rv_state r = SETTLED \<longrightarrow> rv_actual_input r \<noteq> None \<and> rv_actual_output r \<noteq> None \<and> rv_actual_cost r \<noteq> None)
     \<and> rv_provider r = ci_provider (rv_identity r) \<and> rv_model r = ci_model (rv_identity r)"

definition row_forward :: "reservation \<Rightarrow> reservation \<Rightarrow> bool" where
  "row_forward r r' \<longleftrightarrow> row_terms r' = row_terms r \<and> rank (rv_state r) \<le> rank (rv_state r')
     \<and> (rank (rv_state r') = rank (rv_state r) \<longrightarrow> rv_state r' = rv_state r)
     \<and> (\<not> unsettled r \<longrightarrow> r' = r) \<and> (row_active r' \<longrightarrow> row_active r)
     \<and> (rv_actual_input r \<noteq> None \<longrightarrow> rv_state r = UNKNOWN \<longrightarrow> rv_actual_input r' = rv_actual_input r)
     \<and> (rv_actual_output r \<noteq> None \<longrightarrow> rv_state r = UNKNOWN \<longrightarrow> rv_actual_output r' = rv_actual_output r)"

lemma row_terms_eqD:
  assumes "row_terms r' = row_terms r"
  shows "rv_ticket r' = rv_ticket r" "rv_tenant r' = rv_tenant r" "rv_owner r' = rv_owner r"
    "rv_identity r' = rv_identity r" "rv_identity_key r' = rv_identity_key r" "rv_workload r' = rv_workload r"
    "rv_input r' = rv_input r" "rv_output r' = rv_output r" "rv_cost r' = rv_cost r" "rv_created r' = rv_created r"
    "estimate_tokens r' = estimate_tokens r"
  using assms by (simp_all add: row_terms_def estimate_tokens_def)

lemma row_forwardD:
  assumes "row_forward r r'"
  shows "row_terms r' = row_terms r" "row_active r' \<Longrightarrow> row_active r" "unsettled r' \<Longrightarrow> unsettled r"
    "rank (rv_state r) \<le> rank (rv_state r')" "\<not> unsettled r \<Longrightarrow> r' = r"
  using assms unfolding row_forward_def by blast+

lemmas row_forward_terms = row_forwardD(1) [THEN row_terms_eqD(1)] row_forwardD(1) [THEN row_terms_eqD(2)]
  row_forwardD(1) [THEN row_terms_eqD(3)] row_forwardD(1) [THEN row_terms_eqD(6)]
  row_forwardD(1) [THEN row_terms_eqD(10)] row_forwardD(1) [THEN row_terms_eqD(11)]

lemma row_forward_refl [simp]: "row_forward r r"
  by (simp add: row_forward_def)

lemma gov_caps_forward:
  assumes caps: "gov_caps l rs" and fwd: "list_all2 row_forward rs rs'" and nonneg: "\<And>r. r \<in> set rs \<Longrightarrow> 0 \<le> estimate_tokens r"
  shows "gov_caps l rs'"
proof -
  have le: "load w P rs' \<le> load w P rs"
    if w: "\<And>r r'. row_forward r r' \<Longrightarrow> w r' = w r" and P: "\<And>r r'. row_forward r r' \<Longrightarrow> P r' \<Longrightarrow> P r"
      and nn: "\<And>r. r \<in> set rs \<Longrightarrow> 0 \<le> w r" for w :: "reservation \<Rightarrow> int" and P
    using fwd nn
  proof (induction rule: list_all2_induct)
    case (Cons r rs r' rs')
    then have "load w P rs' \<le> load w P rs" by simp
    moreover have "w r' = w r" "P r' \<Longrightarrow> P r" "0 \<le> w r" using Cons w P by auto
    ultimately show ?case by auto
  qed simp
  have "count_rows (created_in l t) rs' \<le> count_rows (created_in l t) rs" for t
    by (rule le) (simp_all add: created_in_def row_forward_terms)
  moreover have "count_rows (\<lambda>r. row_active r \<and> rv_workload r = v) rs' \<le> count_rows (\<lambda>r. row_active r \<and> rv_workload r = v) rs" for v
    by (rule le) (auto simp: row_forward_terms dest: row_forwardD(2))
  moreover have "load estimate_tokens unsettled rs' \<le> load estimate_tokens unsettled rs"
    by (rule le) (auto simp: nonneg row_forward_terms dest: row_forwardD(3))
  ultimately show ?thesis using caps unfolding gov_caps_def by (meson order.trans)
qed

section \<open>Events\<close>

inductive gov_move :: "gov_db \<Rightarrow> gov_db \<Rightarrow> bool" where
  logged: "gov_move db (db\<lparr>gv_events := es\<rparr>)"
| configured: "gv_configuration db = None \<Longrightarrow> quota_limits_valid (qp_owner pol) \<Longrightarrow> quota_limits_valid (qp_tenant pol) \<Longrightarrow>
    gov_move db (db\<lparr>gv_configuration := Some (pol, cat)\<rparr>)"
| added: "gv_configuration db = Some (pol, cat) \<Longrightarrow> select_limits pol s = (v, own, ten) \<Longrightarrow>
    find_identity s (rv_identity_key r) db = None \<Longrightarrow> rv_ticket r \<notin> rv_ticket ` set (gv_reservations db) \<Longrightarrow>
    rv_tenant r = tenant s \<Longrightarrow> rv_owner r = owner s \<Longrightarrow> rv_state r = RESERVED \<Longrightarrow> rv_created r = now \<Longrightarrow>
    0 \<le> rv_input r \<Longrightarrow> 0 < rv_output r \<Longrightarrow> row_ok r \<Longrightarrow>
    \<not> quota_denied now (rv_workload r) (estimate_tokens r) (rv_cost r) ten (tenant_rows (tenant s) db) \<Longrightarrow>
    \<not> quota_denied now (rv_workload r) (estimate_tokens r) (rv_cost r) own (owner_rows s db) \<Longrightarrow>
    gov_move db (db\<lparr>gv_reservations := gv_reservations db @ [r]\<rparr>)"
| moved: "list_all2 row_forward (gv_reservations db) rs' \<Longrightarrow> list_all row_ok rs' \<Longrightarrow>
    gov_move db (db\<lparr>gv_reservations := rs'\<rparr>)"

abbreviation gov_moves :: "gov_db \<Rightarrow> gov_db \<Rightarrow> bool" where
  "gov_moves \<equiv> gov_move\<^sup>*\<^sup>*"

definition gov_inv :: "gov_db \<Rightarrow> bool" where
  "gov_inv db \<longleftrightarrow>
     distinct (map rv_ticket (gv_reservations db))
     \<and> distinct (map (\<lambda>r. (rv_tenant r, rv_owner r, rv_identity_key r)) (gv_reservations db))
     \<and> list_all (\<lambda>r. 0 \<le> rv_input r \<and> 0 < rv_output r \<and> row_ok r) (gv_reservations db)
     \<and> (case gv_configuration db of None \<Rightarrow> gv_reservations db = []
        | Some (pol, cat) \<Rightarrow> quota_limits_valid (qp_owner pol) \<and> quota_limits_valid (qp_tenant pol)
            \<and> (\<forall>s. gov_caps (fst (snd (select_limits pol s))) (owner_rows s db))
            \<and> (\<forall>t. (\<forall>s. tenant s = t \<longrightarrow> snd (snd (select_limits pol s)) = qp_tenant pol) \<longrightarrow>
                 gov_caps (qp_tenant pol) (tenant_rows t db)))"

lemma gov_inv_rows:
  assumes "gov_inv db"
  shows "distinct (map rv_ticket (gv_reservations db))"
    and "distinct (map (\<lambda>r. (rv_tenant r, rv_owner r, rv_identity_key r)) (gv_reservations db))"
    and "r \<in> set (gv_reservations db) \<Longrightarrow> 0 \<le> rv_input r \<and> 0 < rv_output r \<and> row_ok r"
  using assms by (auto simp: gov_inv_def list_all_iff)

lemma gov_caps_empty: "quota_limits_valid l \<Longrightarrow> gov_caps l []"
  by (simp add: gov_caps_def quota_limits_valid_def workload_cap_def)

lemma evaluation_limits_valid: "quota_limits_valid evaluation_limits"
  by (simp add: quota_limits_valid_def evaluation_limits_def)

lemma select_limits_valid:
  "quota_limits_valid (qp_owner pol) \<Longrightarrow> quota_limits_valid (qp_tenant pol) \<Longrightarrow>
     quota_limits_valid (fst (snd (select_limits pol s)))"
  by (auto simp: select_limits_def evaluation_limits_valid split: option.splits)

lemma rows_frame [simp]:
  "owner_rows s (db\<lparr>gv_events := es\<rparr>) = owner_rows s db" "tenant_rows t (db\<lparr>gv_events := es\<rparr>) = tenant_rows t db"
  "owner_rows s (db\<lparr>gv_configuration := c\<rparr>) = owner_rows s db"
  "tenant_rows t (db\<lparr>gv_configuration := c\<rparr>) = tenant_rows t db"
  by (simp_all add: owner_rows_def tenant_rows_def)

lemma rows_append:
  "tenant_rows t (db\<lparr>gv_reservations := gv_reservations db @ [r]\<rparr>) =
     tenant_rows t db @ (if rv_tenant r = t then [r] else [])"
  "owner_rows s (db\<lparr>gv_reservations := gv_reservations db @ [r]\<rparr>) =
     owner_rows s db @ (if rv_tenant r = tenant s \<and> rv_owner r = owner s then [r] else [])"
  by (auto simp: tenant_rows_def owner_rows_def)

lemma list_all2_filter:
  assumes "list_all2 R xs ys" and "\<And>x y. R x y \<Longrightarrow> P x = P y"
  shows "list_all2 R (filter P xs) (filter P ys)"
  using assms(1) by (induction rule: list_all2_induct) (auto dest: assms(2))

lemma rows_forward:
  assumes "list_all2 row_forward (gv_reservations db) rs'"
  shows "list_all2 row_forward (tenant_rows t db) (tenant_rows t (db\<lparr>gv_reservations := rs'\<rparr>))"
    and "list_all2 row_forward (owner_rows s db) (owner_rows s (db\<lparr>gv_reservations := rs'\<rparr>))"
  using assms unfolding tenant_rows_def owner_rows_def by (auto intro!: list_all2_filter simp: row_forward_terms)

lemma forward_map:
  assumes "list_all2 row_forward rs rs'" and "\<And>r r'. row_terms r' = row_terms r \<Longrightarrow> h r' = h r"
  shows "map h rs' = map h rs"
  using assms(1) by (induction rule: list_all2_induct) (auto dest: row_forwardD(1) assms(2))

lemma rows_subset:
  "r \<in> set (tenant_rows t db) \<Longrightarrow> r \<in> set (gv_reservations db)"
  "r \<in> set (owner_rows s db) \<Longrightarrow> r \<in> set (gv_reservations db)"
  by (auto simp: tenant_rows_def owner_rows_def)

lemma gov_move_inv:
  assumes "gov_move db db'" and inv: "gov_inv db"
  shows "gov_inv db'"
  using assms(1)
proof cases
  case (logged es)
  then show ?thesis using inv by (auto simp: gov_inv_def split: option.splits)
next
  case (configured pol cat)
  then have "gv_reservations db = []" using inv by (simp add: gov_inv_def)
  then show ?thesis using configured inv
    by (auto simp: gov_inv_def owner_rows_def tenant_rows_def gov_caps_empty select_limits_valid)
next
  case (added pol cat s v own ten r now)
  have caps: "gov_caps (fst (snd (select_limits pol s'))) (owner_rows s' db)"
    "(\<forall>s. tenant s = t \<longrightarrow> snd (snd (select_limits pol s)) = qp_tenant pol) \<Longrightarrow> gov_caps (qp_tenant pol) (tenant_rows t db)" for s' t
    using inv added(2) by (auto simp: gov_inv_def)
  have "gov_caps (fst (snd (select_limits pol s'))) (owner_rows s' db')" for s'
  proof (cases "s' = s")
    case True
    then show ?thesis using caps(1) [of s'] added
      by (auto simp: rows_append intro!: gov_caps_add [where now = now])
  next
    case False
    then have "\<not> (tenant s = tenant s' \<and> owner s = owner s')" by (metis scope.equality old.unit.exhaust)
    then show ?thesis using caps(1) [of s'] added by (auto simp: rows_append)
  qed
  moreover have "gov_caps (qp_tenant pol) (tenant_rows t db')"
    if "\<forall>s. tenant s = t \<longrightarrow> snd (snd (select_limits pol s)) = qp_tenant pol" for t
    using caps(2) [OF that] that added by (auto simp: rows_append intro!: gov_caps_add [where now = now])
  moreover have "(rv_tenant r, rv_owner r, rv_identity_key r) \<notin> (\<lambda>r. (rv_tenant r, rv_owner r, rv_identity_key r)) ` set (gv_reservations db)"
    using added(4,6,7) by (auto simp: find_identity_def find_None_iff)
  ultimately show ?thesis using inv added by (auto simp: gov_inv_def)
next
  case (moved rs')
  have nonneg: "0 \<le> estimate_tokens r" if "r \<in> set (gv_reservations db)" for r
    using gov_inv_rows(3) [OF inv that] by (simp add: estimate_tokens_def)
  have keys: "map rv_ticket rs' = map rv_ticket (gv_reservations db)"
    "map (\<lambda>r. (rv_tenant r, rv_owner r, rv_identity_key r)) rs' = map (\<lambda>r. (rv_tenant r, rv_owner r, rv_identity_key r)) (gv_reservations db)"
    and pos: "map (\<lambda>r. 0 \<le> rv_input r \<and> 0 < rv_output r) rs' = map (\<lambda>r. 0 \<le> rv_input r \<and> 0 < rv_output r) (gv_reservations db)"
    by (intro forward_map [OF moved(2)]; simp add: row_terms_def)+
  have "list_all (\<lambda>b. b) (map (\<lambda>r. 0 \<le> rv_input r \<and> 0 < rv_output r) rs')"
    unfolding pos using gov_inv_rows(3) [OF inv] by (auto simp: list_all_iff)
  then have "list_all (\<lambda>r. 0 \<le> rv_input r \<and> 0 < rv_output r \<and> row_ok r) rs'"
    using moved(3) by (auto simp: list_all_iff)
  moreover note keys
  moreover have "gov_caps l (owner_rows s db')" if "gov_caps l (owner_rows s db)" for l s
    unfolding moved(1) by (rule gov_caps_forward [OF that rows_forward(2) [OF moved(2)]]) (auto dest: rows_subset nonneg)
  moreover have "gov_caps l (tenant_rows t db')" if "gov_caps l (tenant_rows t db)" for l t
    unfolding moved(1) by (rule gov_caps_forward [OF that rows_forward(1) [OF moved(2)]]) (auto dest: rows_subset nonneg)
  moreover have "rs' = []" if "gv_reservations db = []" using moved(2) that by simp
  ultimately show ?thesis using inv unfolding gov_inv_def moved(1)
    by (auto split: option.splits)
qed

end
