(* ===== verification/GovernanceTheorems.thy ===== *)
theory GovernanceTheorems
  imports GovernanceEvents
begin

text \<open>
  The properties of the governance ledger over every history of calls of any number of processes:
  quotas, budgets, at most one execution per identity, and final settlements.
\<close>

section \<open>Operations are sequences of moves\<close>

inductive gov_step :: "prims \<Rightarrow> gov_db \<Rightarrow> gov_db \<Rightarrow> bool" for H :: prims where
  opened: "quota_limits_valid (qp_owner (gs_policy st)) \<Longrightarrow> quota_limits_valid (qp_tenant (gs_policy st)) \<Longrightarrow>
    open_governance st db = Inr (u, db') \<Longrightarrow> gov_step H db db'"
| reserving: "gov_step H db (snd (reserve H st now fresh p identity ein rout workload db))"
| transitioned: "transition ticket before after db = Inr (u, db') \<Longrightarrow> gov_step H db db'"
| settled: "settle st ticket usage db = Inr (u, db') \<Longrightarrow> gov_step H db db'"

abbreviation gov_reachable :: "prims \<Rightarrow> gov_db \<Rightarrow> bool" where
  "gov_reachable H \<equiv> reachable (\<lambda>db. db = empty_governance) (gov_step H)"

abbreviation gov_run :: "prims \<Rightarrow> gov_db \<Rightarrow> gov_db \<Rightarrow> bool" where
  "gov_run H \<equiv> (gov_step H)\<^sup>*\<^sup>*"

lemma reserve_guardD:
  assumes "reserve_guard H st now p identity ein rout workload = Inr c"
  shows "0 \<le> ein" and "0 < rout" and "workload \<in> {''INTERACTIVE'', ''DOCUMENT_BACKGROUND''}"
    and "ci_scope identity = scope_identity (p_scope p)" and "1 \<le> ci_attempt identity"
    and "\<exists>pr. catalog_price (gs_catalog st) (ci_provider identity) (ci_model identity) = Inr pr \<and> c = cost pr ein rout"
  using assms by (auto simp: reserve_guard_def txn_simps)

lemma reserve_cases:
  assumes "reserve H st now fresh p identity ein rout workload db = (res, db')"
  obtains (unchanged) "db' = db"
    | (denied) es where "db' = db\<lparr>gv_events := es\<rparr>" and "res = Inl (Gov Governance_denied)"
    | (granted) c v own ten es where "reserve_guard H st now p identity ein rout workload = Inr c"
      and "gv_configuration db = Some (gs_policy st, gs_catalog st)" and "select_limits (gs_policy st) (p_scope p) = (v, own, ten)"
      and "find_identity (p_scope p) (identity_key identity) db = None" and "fresh \<notin> rv_ticket ` set (gv_reservations db)"
      and "\<not> quota_denied now workload (ein + rout) c ten (tenant_rows (tenant (p_scope p)) db)"
      and "\<not> quota_denied now workload (ein + rout) c own (owner_rows (p_scope p) db)"
      and "db' = db\<lparr>gv_reservations := gv_reservations db @ [reservation_row st now fresh (p_scope p) v identity ein rout workload c],
             gv_events := es\<rparr>"
      and "res = Inr fresh"
proof (cases "reserve_guard H st now p identity ein rout workload")
  case (Inl e)
  with assms show ?thesis by (intro unchanged) (simp add: reserve_def)
next
  case (Inr c)
  obtain v own ten where sel: "select_limits (gs_policy st) (p_scope p) = (v, own, ten)" by (metis prod_cases3)
  note res = assms [unfolded reserve_def Inr sum.case Let_def sel prod.case]
  show ?thesis
  proof (cases "gv_configuration db = Some (gs_policy st, gs_catalog st)")
    case False
    with res show ?thesis by (intro unchanged) (simp add: current_policy_def guard_def)
  next
    case conf: True
    then have cur: "current_policy st db = Inr ()" by (simp add: current_policy_def guard_def)
    show ?thesis
    proof (cases "find_identity (p_scope p) (identity_key identity) db")
      case (Some old)
      with res cur show ?thesis by (intro unchanged) (simp split: if_splits)
    next
      case None
      note res' = res [unfolded cur None sum.case option.case]
      show ?thesis
      proof (cases "quota_denied now workload (ein + rout) c ten (tenant_rows (tenant (p_scope p)) db)
          \<or> quota_denied now workload (ein + rout) c own (owner_rows (p_scope p) db)")
        case True
        then have "(case gov_log st now (p_scope p) ''ADMISSION_DENIED'' db of
            Inl e \<Rightarrow> (Inl e, db) | Inr db' \<Rightarrow> (Inl (Gov Governance_denied), db')) = (res, db')"
          using res' by (simp only: if_True)
        then show ?thesis
          by (cases "length (gv_events db) \<ge> gs_event_limit st")
            (auto simp: gov_log_def intro: unchanged denied)
      next
        case False
        note res'' = res' [unfolded if_not_P [OF False]]
        show ?thesis
        proof (cases "fresh \<in> set (map rv_ticket (gv_reservations db)) \<or> length (gv_events db) \<ge> gs_event_limit st")
          case True
          with res'' show ?thesis by (intro unchanged) (auto simp: gov_log_def split: if_splits)
        next
          case room: False
          with res'' False Inr conf sel None show ?thesis by (intro granted) (auto simp: gov_log_def)
        qed
      qed
    qed
  qed
qed

lemma reserve_moves: "gov_moves db (snd (reserve H st now fresh p identity ein rout workload db))"
proof (cases "reserve H st now fresh p identity ein rout workload db")
  case (Pair res db')
  then show ?thesis
  proof (cases rule: reserve_cases)
    case unchanged
    with Pair show ?thesis by simp
  next
    case (denied es)
    with Pair show ?thesis by (auto intro: gov_move.logged)
  next
    case (granted c v own ten es)
    let ?r = "reservation_row st now fresh (p_scope p) v identity ein rout workload c"
    have r: "rv_identity_key ?r = identity_key identity" "rv_ticket ?r = fresh" "rv_tenant ?r = tenant (p_scope p)"
      "rv_owner ?r = owner (p_scope p)" "rv_state ?r = RESERVED" "rv_created ?r = now" "rv_input ?r = ein"
      "rv_output ?r = rout" "rv_workload ?r = workload" "estimate_tokens ?r = ein + rout" "rv_cost ?r = c" "row_ok ?r"
      by (simp_all add: reservation_row_def estimate_tokens_def row_ok_def)
    have "gov_move db (db\<lparr>gv_reservations := gv_reservations db @ [?r]\<rparr>)"
      using granted r reserve_guardD(1,2) [OF granted(1)]
      by (intro gov_move.added [where s = "p_scope p" and own = own and ten = ten and now = now]) auto
    moreover have "gov_move (db\<lparr>gv_reservations := gv_reservations db @ [?r]\<rparr>) db'"
      unfolding granted(8) by (rule gov_move.logged)
    ultimately show ?thesis using Pair by (metis converse_rtranclp_into_rtranclp r_into_rtranclp snd_conv)
  qed
qed

lemma forward_upd_where:
  "(\<And>r. r \<in> set rs \<Longrightarrow> U r \<Longrightarrow> row_forward r (f r)) \<Longrightarrow> list_all2 row_forward rs (upd_where U f rs)"
  by (induction rs) auto

lemma transition_move:
  assumes "transition ticket before after db = Inr (u, db')" and inv: "gov_inv db"
  shows "gov_move db db'"
proof -
  let ?rs' = "upd_where (\<lambda>r. rv_ticket r = ticket \<and> rv_state r = before) (\<lambda>r. r\<lparr>rv_state := after\<rparr>) (gv_reservations db)"
  from assms(1) have ba: "(before, after) \<in> {(RESERVED, ADMITTING), (ADMITTING, STARTED), (ADMITTING, RELEASED)}"
    and db': "db' = db\<lparr>gv_reservations := ?rs'\<rparr>"
    by (auto simp: transition_def split: if_splits)
  have "list_all2 row_forward (gv_reservations db) ?rs'"
    using ba by (intro forward_upd_where) (auto simp: row_forward_def row_terms_def unsettled_def row_active_def)
  moreover have "list_all row_ok ?rs'"
    using ba gov_inv_rows(3) [OF inv] by (auto simp: list_all_iff set_upd_where row_ok_def)
  ultimately show ?thesis unfolding db' by (rule gov_move.moved)
qed

lemma settle_cases:
  assumes "settle st ticket usage db = Inr (u, db')"
  obtains (again) row where "db' = db" and "find_ticket ticket db = Some row" and "rv_state row = SETTLED"
      and "usage_counts usage = (rv_actual_input row, rv_actual_output row)"
    | (now) row a b c where "usage_counts usage = (a, b)" and "find_ticket ticket db = Some row"
      and "rv_state row \<in> {STARTED, UNKNOWN}"
      and "rv_state row = UNKNOWN \<longrightarrow> (rv_actual_input row = None \<or> rv_actual_input row = a)
             \<and> (rv_actual_output row = None \<or> rv_actual_output row = b)"
      and "(c = None) = (a = None \<or> b = None)"
      and "db' = db\<lparr>gv_reservations := upd_where (\<lambda>r. rv_ticket r = ticket)
                   (\<lambda>r. r\<lparr>rv_actual_input := a, rv_actual_output := b, rv_actual_cost := c,
                      rv_state := (if c = None then UNKNOWN else SETTLED)\<rparr>) (gv_reservations db)\<rparr>"
proof -
  obtain a b where ab: "usage_counts usage = (a, b)" by fastforce
  with assms obtain row where row: "find_ticket ticket db = Some row" "rv_state row \<in> {STARTED, UNKNOWN, SETTLED}"
    by (auto simp: settle_def split: if_splits option.splits)
  show ?thesis
  proof (cases "rv_state row = SETTLED")
    case True
    with assms ab row show ?thesis by (intro again) (auto simp: settle_def split: if_splits)
  next
    case False
    with assms ab row obtain c where
      guard: "rv_state row = UNKNOWN \<longrightarrow> (rv_actual_input row = None \<or> rv_actual_input row = a)
             \<and> (rv_actual_output row = None \<or> rv_actual_output row = b)"
      and c: "(case (a, b) of (Some x, Some y) \<Rightarrow> sbind (catalog_price (gs_catalog st) (rv_provider row) (rv_model row))
                     (\<lambda>pr. Inr (Some (cost pr x y))) | _ \<Rightarrow> Inr None) = Inr c"
      and db': "db' = db\<lparr>gv_reservations := upd_where (\<lambda>r. rv_ticket r = ticket)
                   (\<lambda>r. r\<lparr>rv_actual_input := a, rv_actual_output := b, rv_actual_cost := c,
                      rv_state := (if c = None then UNKNOWN else SETTLED)\<rparr>) (gv_reservations db)\<rparr>"
      by (auto simp: settle_def sbind_Inr_iff [of _ "\<lambda>c. Inr ((), _ c)"] txn_simps split: if_splits)
    have "(c = None) = (a = None \<or> b = None)" using c by (auto simp: txn_simps split: option.splits)
    with False ab row guard db' show ?thesis by (intro now) auto
  qed
qed

lemma find_ticket_member:
  assumes "gov_inv db" and "find_ticket t db = Some r"
  shows "r \<in> set (gv_reservations db)" and "rv_ticket r = t"
    and "r' \<in> set (gv_reservations db) \<Longrightarrow> rv_ticket r' = t \<Longrightarrow> r' = r"
  using assms find_SomeD [of _ "gv_reservations db" r] gov_inv_rows(1) [OF assms(1)]
  by (auto simp: find_ticket_def dest: distinct_key_eq)

lemma settle_forward:
  assumes "rv_state r \<in> {STARTED, UNKNOWN}" and "st \<in> {UNKNOWN, SETTLED}"
    and "rv_state r = UNKNOWN \<Longrightarrow> rv_actual_input r = None \<or> rv_actual_input r = a"
    and "rv_state r = UNKNOWN \<Longrightarrow> rv_actual_output r = None \<or> rv_actual_output r = b"
  shows "row_forward r (r\<lparr>rv_actual_input := a, rv_actual_output := b, rv_actual_cost := c, rv_state := st\<rparr>)" (is "row_forward r ?r")
proof -
  have "unsettled r" using assms(1) by (auto simp: unsettled_def)
  moreover have "row_terms ?r = row_terms r" by (simp add: row_terms_def)
  moreover have "rank (rv_state r) \<le> rank (rv_state ?r)" "rank (rv_state ?r) = rank (rv_state r) \<longrightarrow> rv_state ?r = rv_state r"
    "\<not> row_active ?r" using assms(1,2) by (auto simp: row_active_def)
  moreover have "rv_actual_input ?r = a" "rv_actual_output ?r = b" by simp_all
  ultimately show ?thesis using assms(3,4) unfolding row_forward_def by metis
qed

lemma settle_move:
  assumes "settle st ticket usage db = Inr (u, db')" and inv: "gov_inv db"
  shows "gov_moves db db'"
  using assms(1)
proof (cases rule: settle_cases)
  case (now row a b c)
  let ?f = "\<lambda>r. r\<lparr>rv_actual_input := a, rv_actual_output := b, rv_actual_cost := c,
      rv_state := (if c = None then UNKNOWN else SETTLED)\<rparr>"
  let ?rs' = "upd_where (\<lambda>r. rv_ticket r = ticket) ?f (gv_reservations db)"
  note mem = find_ticket_member(3) [OF inv now(2)]
  have fwd: "row_forward row (?f row)"
    using now(3,4) by (intro settle_forward) auto
  have "row_forward r (?f r)" if "r \<in> set (gv_reservations db)" "rv_ticket r = ticket" for r
    unfolding mem [OF that] by (rule fwd)
  then have "list_all2 row_forward (gv_reservations db) ?rs'" by (rule forward_upd_where)
  moreover have "list_all row_ok ?rs'"
    using now(5) gov_inv_rows(3) [OF inv] by (auto simp: list_all_iff set_upd_where row_ok_def)
  ultimately show ?thesis unfolding now(6) by (blast intro: gov_move.moved)
qed simp

lemma gov_step_moves:
  assumes "gov_step H db db'" and "gov_inv db"
  shows "gov_moves db db'"
  using assms(1)
proof cases
  case (opened st u)
  then show ?thesis by (auto simp: open_governance_def split: if_splits option.splits intro: gov_move.configured)
next
  case (reserving st now fresh p identity ein rout workload)
  then show ?thesis by (simp add: reserve_moves)
next
  case (transitioned ticket before after u)
  then show ?thesis using transition_move [OF _ assms(2)] by blast
next
  case (settled st ticket usage u)
  then show ?thesis using settle_move [OF _ assms(2)] by blast
qed

lemma transition_effect:
  assumes inv: "gov_inv db" and tr: "transition t b a db = Inr (u, db')"
  shows "\<exists>r. find_ticket t db = Some r \<and> rv_state r = b \<and> find_ticket t db' = Some (r\<lparr>rv_state := a\<rparr>)"
proof -
  from tr have db': "db' = db\<lparr>gv_reservations := upd_where (\<lambda>r. rv_ticket r = t \<and> rv_state r = b)
      (\<lambda>r. r\<lparr>rv_state := a\<rparr>) (gv_reservations db)\<rparr>"
    and "filter (\<lambda>r. rv_ticket r = t \<and> rv_state r = b) (gv_reservations db) \<noteq> []"
    by (auto simp: transition_def split: if_splits)
  then obtain r where r: "r \<in> set (gv_reservations db)" "rv_ticket r = t" "rv_state r = b"
    by (auto simp: filter_empty_conv)
  then have f: "find_ticket t db = Some r"
    using find_key_unique [OF gov_inv_rows(1) [OF inv] r(1), of t "\<lambda>_. True"] by (simp add: find_ticket_def)
  moreover have "find_ticket t db' = Some (r\<lparr>rv_state := a\<rparr>)"
    using f r by (simp add: db' find_ticket_def table_simps)
  ultimately show ?thesis using r(3) by blast
qed

lemma gov_moves_inv: "gov_moves db db' \<Longrightarrow> gov_inv db \<Longrightarrow> gov_inv db'"
  by (induction rule: rtranclp_induct) (auto intro: gov_move_inv)

lemma gov_inv_empty: "gov_inv empty_governance"
  by (simp add: gov_inv_def empty_governance_def)

interpretation governance: invariant_system "\<lambda>db. db = empty_governance" "gov_step H" gov_inv
  by unfold_locales (auto intro: gov_inv_empty gov_moves_inv dest: gov_step_moves)

section \<open>How reservations evolve\<close>

lemma rank_UNKNOWN: "3 \<le> rank x \<Longrightarrow> x = UNKNOWN \<or> x \<in> {SETTLED, RELEASED}"
  by (cases x) auto

lemma row_forward_trans:
  assumes ab: "row_forward a b" and bc: "row_forward b c"
  shows "row_forward a c"
proof -
  have eq: "b = c" if "rv_state b \<in> {SETTLED, RELEASED}" using bc that by (auto simp: row_forward_def unsettled_def)
  have st: "rv_state b = UNKNOWN \<or> b = c" if "rv_state a = UNKNOWN"
    using row_forwardD(4) [OF ab] that rank_UNKNOWN [of "rv_state b"] eq by auto
  have "rank (rv_state c) = rank (rv_state a) \<longrightarrow> rank (rv_state b) = rank (rv_state a) \<and> rank (rv_state c) = rank (rv_state b)"
    using row_forwardD(4) [OF ab] row_forwardD(4) [OF bc] by linarith
  then have "rank (rv_state c) = rank (rv_state a) \<longrightarrow> rv_state c = rv_state a"
    using ab bc unfolding row_forward_def by metis
  moreover have "\<not> unsettled a \<longrightarrow> c = a" using row_forwardD(5) [OF ab] row_forwardD(5) [OF bc] by metis
  moreover have "rv_actual_input a \<noteq> None \<longrightarrow> rv_state a = UNKNOWN \<longrightarrow> rv_actual_input c = rv_actual_input a"
    using st ab bc unfolding row_forward_def by metis
  moreover have "rv_actual_output a \<noteq> None \<longrightarrow> rv_state a = UNKNOWN \<longrightarrow> rv_actual_output c = rv_actual_output a"
    using st ab bc unfolding row_forward_def by metis
  ultimately show ?thesis
    using row_forwardD [OF ab] row_forwardD [OF bc] unfolding row_forward_def by (metis order.trans)
qed

definition gov_evolves :: "gov_db \<Rightarrow> gov_db \<Rightarrow> bool" where
  "gov_evolves db db' \<longleftrightarrow> (\<forall>t r. find_ticket t db = Some r \<longrightarrow> (\<exists>r'. find_ticket t db' = Some r' \<and> row_forward r r'))"

lemma find_list_all2:
  assumes "list_all2 R xs ys" and "\<And>x y. R x y \<Longrightarrow> P x = P y" and "find P xs = Some x"
  shows "\<exists>y. find P ys = Some y \<and> R x y"
  using assms(1,3) by (induction rule: list_all2_induct) (auto dest: assms(2) split: if_splits)

lemma gov_move_evolves: "gov_move db db' \<Longrightarrow> gov_evolves db db'"
proof (induction rule: gov_move.induct)
  case (moved db rs')
  then show ?case unfolding gov_evolves_def find_ticket_def
    using find_list_all2 [OF moved(1), where P = "\<lambda>r. rv_ticket r = _"] by (auto simp: row_forward_terms)
qed (auto simp: gov_evolves_def find_ticket_def find_append_table)

lemma gov_evolves_trans: "gov_evolves a b \<Longrightarrow> gov_evolves b c \<Longrightarrow> gov_evolves a c"
  unfolding gov_evolves_def by (meson row_forward_trans)

lemma gov_moves_evolves: "gov_moves db db' \<Longrightarrow> gov_evolves db db'"
proof (induction rule: rtranclp_induct)
  case base
  show ?case by (simp add: gov_evolves_def)
next
  case (step y z)
  then show ?case using gov_move_evolves gov_evolves_trans by blast
qed

lemma gov_run_evolves:
  assumes "gov_run H db db'" and "gov_inv db"
  shows "gov_evolves db db'"
  using assms
proof (induction rule: rtranclp_induct)
  case base
  show ?case by (simp add: gov_evolves_def)
next
  case (step y z)
  have "gov_inv y" using step.hyps(1) step.prems governance.run_inv by blast
  then show ?case using step gov_step_moves gov_moves_evolves gov_evolves_trans by blast
qed

interpretation final_reservations:
  frozen_rows "\<lambda>db. db = empty_governance" "gov_step H" gov_inv "\<lambda>db t. find_ticket t db" "\<lambda>r. \<not> unsettled r" "\<lambda>r. r"
proof unfold_locales
  fix s t k r
  assume "gov_inv s" "gov_step H s t" and row: "find_ticket k s = Some r" "\<not> unsettled r"
  then have "gov_evolves s t" by (blast intro: gov_moves_evolves gov_step_moves)
  with row show "\<exists>r'. find_ticket k t = Some r' \<and> \<not> unsettled r' \<and> r' = r"
    unfolding gov_evolves_def using row_forwardD(5) by metis
qed

section \<open>The length of an encoded identity\<close>

lemma length_json_string: "length (json_string s) \<le> 2 + 6 * length s"
proof -
  have "length (escape_char c) \<le> 6" for c by (simp add: escape_char_def)
  then have "length (concat (map escape_char s)) \<le> 6 * length s"
    by (induction s) (simp_all add: add_mono)
  then show ?thesis by (simp add: json_string_def)
qed

lemma length_comma_join: "length (comma_join xs) \<le> sum_list (map length xs) + length xs"
  by (induction xs rule: comma_join.induct) auto

lemma sum_list_sort_key: "sum_list (map f (sort_key g xs)) = (sum_list (map f xs) :: nat)"
proof -
  have "sum_list (map f (insort_key g x ys)) = f x + sum_list (map f ys)" for x ys by (induction ys) auto
  then show ?thesis by (induction xs) auto
qed

lemma length_canonical_obj:
  "length (canonical H (JObj kvs)) \<le> 2 + length kvs
     + sum_list (map (\<lambda>(k, v). length (json_string k) + 1 + length (canonical H v)) kvs)"
proof -
  let ?f = "\<lambda>(k, v). json_string k @ '':'' @ canonical H v"
  let ?g = "\<lambda>(k, v). length (json_string k) + 1 + length (canonical H v)"
  have fg: "length (?f x) = ?g x" for x by (cases x) simp
  have "length (canonical H (JObj kvs)) = 2 + length (comma_join (map ?f (sort_key fst kvs)))" by simp
  also have "\<dots> \<le> 2 + (sum_list (map length (map ?f (sort_key fst kvs))) + length kvs)"
    using length_comma_join [of "map ?f (sort_key fst kvs)"] by simp
  also have "map length (map ?f (sort_key fst kvs)) = map ?g (sort_key fst kvs)" using fg by simp
  also have "sum_list (map ?g (sort_key fst kvs)) = sum_list (map ?g kvs)" by (rule sum_list_sort_key)
  finally show ?thesis by simp
qed

lemma length_uuid_text: "length (uuid_text u) = 36"
  by (simp add: uuid_text_def uuid_hex_def Let_def)

lemma length_identity_json:
  assumes "sum_list (map length [ci_scope i, ci_profile i, ci_provider i, ci_role i, ci_model i, ci_capability i]) \<le> 150"
    and "length (int_text (ci_attempt i)) \<le> 20"
  shows "length (canonical H (identity_json i)) \<le> 2048"
proof -
  note js = length_json_string
  have "length (canonical H (identity_json i)) \<le> 2 + 9 + (length (json_string ''scope'') + length (json_string ''job'')
      + length (json_string ''step'') + length (json_string ''attempt'') + length (json_string ''profile'')
      + length (json_string ''provider'') + length (json_string ''role'') + length (json_string ''model'')
      + length (json_string ''capability'') + 9) + (length (json_string (ci_scope i)) + length (json_string (uuid_text (ci_job i)))
      + length (json_string (uuid_text (ci_step i))) + length (int_text (ci_attempt i)) + length (json_string (ci_profile i))
      + length (json_string (ci_provider i)) + length (json_string (ci_role i)) + length (json_string (ci_model i))
      + length (json_string (ci_capability i)))"
    using length_canonical_obj [of H] unfolding identity_json_def
    by (rule order.trans) simp
  also have "\<dots> \<le> 2048"
    using js [of "''scope''"] js [of "''job''"] js [of "''step''"] js [of "''attempt''"] js [of "''profile''"]
      js [of "''provider''"] js [of "''role''"] js [of "''model''"] js [of "''capability''"] js [of "ci_scope i"]
      js [of "uuid_text (ci_job i)"] js [of "uuid_text (ci_step i)"] js [of "ci_profile i"] js [of "ci_provider i"]
      js [of "ci_role i"] js [of "ci_model i"] js [of "ci_capability i"] assms
    by (simp add: length_uuid_text)
  finally show ?thesis .
qed

section \<open>A sample history\<close>

definition sample_limits :: quota_limits where
  "sample_limits = \<lparr>requests_per_window = 3, window_seconds = 60, interactive_concurrent = 1, background_concurrent = 1,
     reserved_tokens = 1000, daily_tokens = 2000, monthly_tokens = 3000, monthly_cost = 10\<rparr>"

definition sample_gov_settings :: gov_settings where
  "sample_gov_settings = \<lparr>gs_policy = \<lparr>qp_version = ''q/1'', qp_owner = sample_limits, qp_tenant = sample_limits, qp_evaluation = None\<rparr>,
     gs_catalog = \<lparr>pc_version = ''c/1'', pc_currency = ''EUR'', pc_effective_date = ''1970-01-01'', pc_operator_approved = True,
        pc_prices = [\<lparr>pr_provider = ''azure'', pr_model = ''m'', input_price = 1, output_price = 2, price_unit = 1000\<rparr>]\<rparr>,
     gs_event_limit = 100\<rparr>"

definition sample_caller :: principal where
  "sample_caller = \<lparr>p_issuer = ''i'', p_subject = ''a'', p_tenant_identity = ''t'', p_scope = \<lparr>tenant = 1, owner = 10\<rparr>,
     p_permissions = {}, p_kind = ''user'', p_expires = 1000\<rparr>"

definition sample_call :: call_identity where
  "sample_call = (sample_identity 1)\<lparr>ci_scope := scope_identity \<lparr>tenant = 1, owner = 10\<rparr>\<rparr>"

definition sample_reservation :: reservation where
  "sample_reservation = reservation_row sample_gov_settings 0 9 \<lparr>tenant = 1, owner = 10\<rparr> ''q/1'' sample_call 100 200
     ''INTERACTIVE'' (1 / 2)"

definition sample_granted :: gov_db where
  "sample_granted = \<lparr>gv_configuration = Some (gs_policy sample_gov_settings, gs_catalog sample_gov_settings),
     gv_reservations = [sample_reservation],
     gv_events = [\<lparr>ge_tenant = 1, ge_owner = 10, ge_action = ''RESERVED'', ge_at = 0\<rparr>]\<rparr>"

definition sample_state :: "reservation_state \<Rightarrow> gov_db" where
  "sample_state st = sample_granted\<lparr>gv_reservations := [sample_reservation\<lparr>rv_state := st\<rparr>]\<rparr>"

lemma sample_call_short: "length (canonical H (identity_json sample_call)) \<le> 2048"
  by (rule length_identity_json)
    (simp_all add: sample_call_def sample_identity_def scope_identity_def length_uuid_text int_text_def nat_text_def digits_rev.simps)

lemma sample_guard: "reserve_guard H sample_gov_settings 0 sample_caller sample_call 100 200 ''INTERACTIVE'' = Inr (1 / 2)"
proof -
  have "civil_of_day 0 = (1970, 1, 1)" "pad_nat 4 1970 = ''1970''" "pad_nat 2 1 = ''01''" by code_simp+
  moreover have "day_number 0 = 0" by (simp add: day_number_def round_half_even_def)
  ultimately have "date_text 0 = ''1970-01-01''" by (simp add: date_text_def)
  then show ?thesis using sample_call_short [of H]
    by (simp add: reserve_guard_def guard_def catalog_price_def sample_gov_settings_def sample_caller_def cost_def
        sample_call_def sample_identity_def)
qed

lemmas gov_sample_defs = sample_gov_settings_def sample_limits_def sample_caller_def sample_call_def sample_identity_def
  sample_reservation_def sample_granted_def sample_state_def reservation_row_def

lemma sample_reserve:
  "reserve H sample_gov_settings 0 9 sample_caller sample_call 100 200 ''INTERACTIVE''
     (empty_governance\<lparr>gv_configuration := Some (gs_policy sample_gov_settings, gs_catalog sample_gov_settings)\<rparr>) = (Inr 9, sample_granted)"
  unfolding reserve_def sample_guard
  by (simp add: current_policy_def guard_def find_identity_def empty_governance_def quota_denied_def tenant_rows_def
      owner_rows_def gov_log_def workload_cap_def select_limits_def Let_def gov_sample_defs)

lemma sample_opened_reachable:
  "gov_reachable H (empty_governance\<lparr>gv_configuration := Some (gs_policy sample_gov_settings, gs_catalog sample_gov_settings)\<rparr>)"
proof -
  let ?db = "empty_governance\<lparr>gv_configuration := Some (gs_policy sample_gov_settings, gs_catalog sample_gov_settings)\<rparr>"
  have "open_governance sample_gov_settings empty_governance = Inr ((), ?db)"
    by (simp add: open_governance_def empty_governance_def sample_gov_settings_def)
  moreover have "quota_limits_valid (qp_owner (gs_policy sample_gov_settings))" "quota_limits_valid (qp_tenant (gs_policy sample_gov_settings))"
    by (simp_all add: quota_limits_valid_def sample_gov_settings_def sample_limits_def)
  ultimately show "gov_reachable H ?db" by (blast intro: reachable.intros gov_step.opened)
qed

lemma sample_granted_reachable: "gov_reachable H sample_granted"
proof (rule reachable.step [OF sample_opened_reachable])
  let ?db = "empty_governance\<lparr>gv_configuration := Some (gs_policy sample_gov_settings, gs_catalog sample_gov_settings)\<rparr>"
  show "gov_step H ?db sample_granted"
    using gov_step.reserving [of H ?db sample_gov_settings 0 9 sample_caller sample_call 100 200 "''INTERACTIVE''"]
    unfolding sample_reserve by simp
qed

lemma sample_admitting_reachable: "gov_reachable H (sample_state ADMITTING)"
proof -
  have "transition 9 RESERVED ADMITTING sample_granted = Inr ((), sample_state ADMITTING)"
    by (simp add: transition_def gov_sample_defs)
  then show ?thesis using sample_granted_reachable by (blast intro: reachable.step gov_step.transitioned)
qed

lemma sample_start: "transition 9 ADMITTING STARTED (sample_state ADMITTING) = Inr ((), sample_state STARTED)"
  by (simp add: transition_def gov_sample_defs)

lemma sample_started_reachable: "gov_reachable H (sample_state STARTED)"
  using sample_start sample_admitting_reachable by (blast intro: reachable.step gov_step.transitioned)

section \<open>Properties\<close>

text \<open>C7: Quotas hold in every reachable state, whatever the clocks of the processes read. For every owner:
  the reservations created in any window of the length of its limits number at most
  \<^verbatim>\<open>requests_per_window\<close>, the calls in flight of each workload stay within its concurrency, and the
  tokens that are reserved and not yet settled, those of unknown outcome included, stay within
  \<^verbatim>\<open>reserved_tokens\<close>. The same holds for a whole tenant none of whose owners is an evaluation scope.\<close>

theorem governance_quotas_hold:
  assumes "gov_reachable H db" and "gv_configuration db = Some (pol, cat)" and "select_limits pol s = (v, own, ten)"
  shows "count_rows (created_in own t) (owner_rows s db) \<le> requests_per_window own
    \<and> count_rows (\<lambda>r. row_active r \<and> rv_workload r = w) (owner_rows s db) \<le> workload_cap own w
    \<and> load estimate_tokens unsettled (owner_rows s db) \<le> reserved_tokens own
    \<and> ((\<forall>s'. tenant s' = tenant s \<longrightarrow> snd (snd (select_limits pol s')) = qp_tenant pol) \<longrightarrow>
        count_rows (created_in (qp_tenant pol) t) (tenant_rows (tenant s) db) \<le> requests_per_window (qp_tenant pol)
        \<and> count_rows (\<lambda>r. row_active r \<and> rv_workload r = w) (tenant_rows (tenant s) db) \<le> workload_cap (qp_tenant pol) w
        \<and> load estimate_tokens unsettled (tenant_rows (tenant s) db) \<le> reserved_tokens (qp_tenant pol))"
proof -
  have inv: "gov_inv db" using assms(1) by (rule governance.reachable_inv)
  then have "gov_caps (fst (snd (select_limits pol s))) (owner_rows s db)"
    and ten: "(\<forall>s'. tenant s' = tenant s \<longrightarrow> snd (snd (select_limits pol s')) = qp_tenant pol) \<longrightarrow>
      gov_caps (qp_tenant pol) (tenant_rows (tenant s) db)"
    using assms(2) by (auto simp: gov_inv_def)
  then have "gov_caps own (owner_rows s db)" using assms(3) by simp
  with ten show ?thesis unfolding gov_caps_def by blast
qed

theorem governance_quotas_hold_witness:
  "load estimate_tokens unsettled (owner_rows \<lparr>tenant = 1, owner = 10\<rparr> (sample_state STARTED)) = 300
   \<and> load estimate_tokens unsettled (owner_rows \<lparr>tenant = 1, owner = 10\<rparr> (sample_state STARTED)) \<le> 1000"
proof -
  have conf: "gv_configuration (sample_state STARTED) = Some (gs_policy sample_gov_settings, gs_catalog sample_gov_settings)"
    by (simp add: sample_state_def sample_granted_def)
  have sel: "select_limits (gs_policy sample_gov_settings) \<lparr>tenant = 1, owner = 10\<rparr> = (''q/1'', sample_limits, sample_limits)"
    by (simp add: select_limits_def sample_gov_settings_def)
  have "load estimate_tokens unsettled (owner_rows \<lparr>tenant = 1, owner = 10\<rparr> (sample_state STARTED)) = 300"
    by (simp add: owner_rows_def tenant_rows_def unsettled_def estimate_tokens_def gov_sample_defs)
  then show ?thesis
    using governance_quotas_hold [OF sample_started_reachable conf sel] by (simp add: sample_limits_def)
qed

text \<open>A new reservation never exceeds the budget. When \<^verbatim>\<open>reserve\<close> issues a new ticket, then in the
  resulting ledger the tokens of the day and of the month and the cost of the month, counted with the
  estimates of everything unsettled (whenever it was created) and the actual amounts of everything
  settled, are within the limits of the owner and of the tenant.\<close>

theorem reserve_within_budget:
  assumes "reserve H st now fresh p identity ein rout workload db = (Inr fresh, db')"
    and "fresh \<notin> rv_ticket ` set (gv_reservations db)" and "select_limits (gs_policy st) (p_scope p) = (v, own, ten)"
  shows "load row_cost (\<lambda>r. rv_state r \<noteq> RELEASED \<and> (month_start now \<le> rv_created r \<or> unsettled r)) (owner_rows (p_scope p) db')
      \<le> monthly_cost own
    \<and> load row_cost (\<lambda>r. rv_state r \<noteq> RELEASED \<and> (month_start now \<le> rv_created r \<or> unsettled r)) (tenant_rows (tenant (p_scope p)) db')
      \<le> monthly_cost ten
    \<and> load row_tokens (\<lambda>r. rv_state r \<noteq> RELEASED \<and> (month_start now \<le> rv_created r \<or> unsettled r)) (owner_rows (p_scope p) db')
      \<le> monthly_tokens own
    \<and> load row_tokens (\<lambda>r. rv_state r \<noteq> RELEASED \<and> (day_start now \<le> rv_created r \<or> unsettled r)) (owner_rows (p_scope p) db')
      \<le> daily_tokens own"
  using assms(1)
proof (cases rule: reserve_cases)
  case unchanged
  have "find_ticket fresh db = None" using assms(2) by (auto simp: find_ticket_def find_None_iff)
  moreover obtain c where "reserve_guard H st now p identity ein rout workload = Inr c"
    using assms(1) by (cases "reserve_guard H st now p identity ein rout workload") (auto simp: reserve_def)
  ultimately show ?thesis
    using assms(1,2) unchanged assms(3)
    by (auto simp: reserve_def current_policy_def guard_def gov_log_def find_identity_def Let_def
        split: option.splits if_splits sum.splits dest!: find_SomeD arg_cong [of _ _ gv_reservations])
next
  case (denied es)
  then show ?thesis by simp
next
  case (granted c v' own' ten' es)
  let ?r = "reservation_row st now fresh (p_scope p) v' identity ein rout workload c"
  have eq: "own' = own" "ten' = ten" using granted(3) assms(3) by auto
  have r: "rv_tenant ?r = tenant (p_scope p)" "rv_owner ?r = owner (p_scope p)" "rv_state ?r = RESERVED" "unsettled ?r"
    "row_cost ?r = c" "row_tokens ?r = ein + rout"
    by (simp_all add: reservation_row_def unsettled_def row_cost_def row_tokens_def estimate_tokens_def)
  have rows: "owner_rows (p_scope p) db' = owner_rows (p_scope p) db @ [?r]"
    "tenant_rows (tenant (p_scope p)) db' = tenant_rows (tenant (p_scope p)) db @ [?r]"
    using r(1,2) by (simp_all add: granted(8) owner_rows_def tenant_rows_def)
  show ?thesis unfolding rows
    using quota_admittedD(4-6) [OF granted(7)] quota_admittedD(4-6) [OF granted(6)] r by (simp add: eq)
qed

theorem reserve_within_budget_witness:
  "load row_cost (\<lambda>r. rv_state r \<noteq> RELEASED \<and> (month_start 0 \<le> rv_created r \<or> unsettled r))
     (owner_rows (p_scope sample_caller) sample_granted) \<le> 10"
  using reserve_within_budget [OF sample_reserve [of sample_prims], of "''q/1''" sample_limits sample_limits]
  by (simp add: empty_governance_def select_limits_def gov_sample_defs)

text \<open>C12: One execution per identity. Once the reservation of an owner's job, step and attempt has been
  started, it can never be started again, and in every later state a reservation request for the same
  identity can only return that same ticket: the provider is called at most once for it.\<close>

theorem one_execution_per_identity:
  assumes reach: "gov_reachable H db" and row: "find_identity s k db = Some r"
    and start: "transition (rv_ticket r) ADMITTING STARTED db = Inr (u, db1)" and run: "gov_run H db1 db2"
  shows "(\<exists>e. transition (rv_ticket r) ADMITTING STARTED db2 = Inl e)
    \<and> (p_scope p = s \<and> identity_key identity = k \<and> reserve H st now fresh p identity ein rout workload db2 = (Inr t, db3)
        \<longrightarrow> t = rv_ticket r \<and> db3 = db2)"
proof -
  have inv: "gov_inv db" using reach by (rule governance.reachable_inv)
  have inv1: "gov_inv db1" using inv gov_step.transitioned [OF start] by (rule governance.step_inv)
  have inv2: "gov_inv db2" using inv1 run by (rule governance.run_inv)
  have mem: "r \<in> set (gv_reservations db)" "rv_tenant r = tenant s" "rv_owner r = owner s" "rv_identity_key r = k"
    using find_SomeD [OF row [unfolded find_identity_def]] by auto
  have "find_ticket (rv_ticket r) db = Some r"
    using find_key_unique [OF gov_inv_rows(1) [OF inv] mem(1), of "rv_ticket r" "\<lambda>_. True"] by (simp add: find_ticket_def)
  with transition_effect [OF inv start]
  obtain r1 where r1: "find_ticket (rv_ticket r) db1 = Some r1" "row_terms r1 = row_terms r" "rv_state r1 = STARTED"
    by (auto simp: row_terms_def)
  then obtain r2 where r2: "find_ticket (rv_ticket r) db2 = Some r2" "row_forward r1 r2"
    using gov_run_evolves [OF run inv1] by (auto simp: gov_evolves_def)
  have st: "2 \<le> rank (rv_state r2)" using r1(3) row_forwardD(4) [OF r2(2)] by auto
  note mem2 = find_ticket_member [OF inv2 r2(1)]
  have "filter (\<lambda>x. rv_ticket x = rv_ticket r \<and> rv_state x = ADMITTING) (gv_reservations db2) = []"
    using mem2(3) st by (auto simp: filter_empty_conv)
  then have "\<exists>e. transition (rv_ticket r) ADMITTING STARTED db2 = Inl e" by (simp add: transition_def)
  moreover have "t = rv_ticket r \<and> db3 = db2"
    if "p_scope p = s" "identity_key identity = k" "reserve H st now fresh p identity ein rout workload db2 = (Inr t, db3)"
  proof -
    have terms: "row_terms r2 = row_terms r" using r1(2) row_forwardD(1) [OF r2(2)] by simp
    then have "rv_tenant r2 = tenant s" "rv_owner r2 = owner s" "rv_identity_key r2 = k"
      using mem row_terms_eqD [OF terms] by auto
    then have "find_identity s k db2 = Some r2"
      using find_key_unique [OF gov_inv_rows(2) [OF inv2] mem2(1), of "(tenant s, owner s, k)" "\<lambda>_. True"]
      by (simp add: find_identity_def)
    with that show ?thesis using mem2(2)
      by (auto simp: reserve_def Let_def split: sum.splits prod.splits if_splits)
  qed
  ultimately show ?thesis by blast
qed

theorem one_execution_per_identity_witness:
  "\<exists>e. transition 9 ADMITTING STARTED (sample_state STARTED) = Inl e"
proof -
  let ?r = "sample_reservation\<lparr>rv_state := ADMITTING\<rparr>"
  have "find_identity \<lparr>tenant = 1, owner = 10\<rparr> (5, 1, 1) (sample_state ADMITTING) = Some ?r"
    by (simp add: find_identity_def identity_key_def gov_sample_defs)
  moreover have "rv_ticket ?r = 9" by (simp add: gov_sample_defs)
  ultimately show ?thesis
    using one_execution_per_identity [OF sample_admitting_reachable [of sample_prims], of _ _ ?r]
      sample_start by (metis rtranclp.rtrancl_refl)
qed

text \<open>A settlement is final and repeatable. Settling with complete usage fixes the reservation for
  ever: in every later state its row is the same, settling again with the same counts succeeds and
  changes nothing, and settling with other counts is refused as a conflict.\<close>

theorem settlement_final:
  assumes reach: "gov_reachable H db" and settled: "settle st ticket (Some usage) db = Inr (u, db1)"
    and known: "prompt_tokens usage = Some a" "completion_tokens usage = Some b" and run: "gov_run H db1 db2"
  shows "\<exists>r. find_ticket ticket db1 = Some r \<and> rv_state r = SETTLED \<and> rv_actual_input r = Some a \<and> rv_actual_output r = Some b
    \<and> find_ticket ticket db2 = Some r \<and> settle st' ticket (Some usage) db2 = Inr ((), db2)
    \<and> (usage_counts usage' \<noteq> (Some a, Some b) \<longrightarrow> settle st' ticket usage' db2 = Inl (Gov Reservation_conflict))"
proof -
  have inv: "gov_inv db" using reach by (rule governance.reachable_inv)
  have inv1: "gov_inv db1" using inv gov_step.settled [OF settled] by (rule governance.step_inv)
  have counts: "usage_counts (Some usage) = (Some a, Some b)" using known by (simp add: usage_counts_def)
  have ok: "count_valid (Some a) \<and> count_valid (Some b)"
    using settled counts by (auto simp: settle_def split: if_splits)
  obtain r where r: "find_ticket ticket db1 = Some r" "rv_state r = SETTLED" "rv_actual_input r = Some a" "rv_actual_output r = Some b"
    using settled
  proof (cases rule: settle_cases)
    case (again row)
    then show ?thesis using counts that by auto
  next
    case (now row a' b' c)
    then have ab: "a' = Some a" "b' = Some b" "c \<noteq> None" using counts by auto
    have "find_ticket ticket db1 = Some (row\<lparr>rv_actual_input := a', rv_actual_output := b', rv_actual_cost := c,
        rv_state := (if c = None then UNKNOWN else SETTLED)\<rparr>)"
      using now(2) find_ticket_member(2) [OF inv now(2)] by (simp add: now(6) find_ticket_def table_simps)
    then show ?thesis using that ab by simp
  qed
  have r2: "find_ticket ticket db2 = Some r"
    using final_reservations.frozen_run [OF run inv1 r(1)] r(2) by (auto simp: unsettled_def)
  have "settle st' ticket (Some usage) db2 = Inr ((), db2)"
    using r2 r counts ok by (simp add: settle_def)
  moreover have "settle st' ticket usage' db2 = Inl (Gov Reservation_conflict)" if "usage_counts usage' \<noteq> (Some a, Some b)"
    using r2 r that by (auto simp: settle_def split: prod.splits)
  ultimately show ?thesis using r r2 by blast
qed

theorem settlement_final_witness:
  "\<exists>db1 r. settle sample_gov_settings 9 (Some \<lparr>prompt_tokens = Some 90, completion_tokens = Some 40, total_tokens = None\<rparr>) (sample_state STARTED)
      = Inr ((), db1) \<and> find_ticket 9 db1 = Some r \<and> rv_state r = SETTLED
    \<and> settle sample_gov_settings 9 None db1 = Inl (Gov Reservation_conflict)"
proof -
  let ?u = "\<lparr>prompt_tokens = Some 90, completion_tokens = Some 40, total_tokens = None\<rparr> :: inference_usage"
  obtain db1 where s: "settle sample_gov_settings 9 (Some ?u) (sample_state STARTED) = Inr ((), db1)"
    by (simp add: settle_def usage_counts_def count_valid_def find_ticket_def catalog_price_def gov_sample_defs)
  from settlement_final [OF sample_started_reachable [of sample_prims] s _ _ rtranclp.rtrancl_refl,
      of 90 40 sample_gov_settings None]
  show ?thesis using s by (auto simp: usage_counts_def)
qed

end
