(* ===== verification/ProviderSchema.thy ===== *)
theory ProviderSchema
  imports Inference
begin

text \<open>
  The generation contracts of llm/structured.py, and the strict schema subset of a provider
  (llm/azure_schema.py): the conversion of a closed JSON schema, with its bounds on the number of properties and on the nesting of containers, where local references
  are resolved. Every way to fail raises the same configuration error. The recursion limit of the
  interpreter is not modelled. The schema is a JSON value; a dictionary is the list of its entries.
\<close>

declare sbind_cong [fundef_cong]

abbreviation schema_fail :: "inference_error + 'a" where
  "schema_fail \<equiv> Inl InferenceConfigurationError"

abbreviation require :: "bool \<Rightarrow> inference_error + unit" where
  "require b \<equiv> guard b InferenceConfigurationError"

section \<open>Traversal\<close>

fun collect :: "('a \<Rightarrow> 'e + 'b) \<Rightarrow> 'a list \<Rightarrow> 'e + 'b list" where
  "collect f [] = Inr []"
| "collect f (x # xs) = sbind (f x) (\<lambda>y. sbind (collect f xs) (\<lambda>ys. Inr (y # ys)))"

lemma collect_cong [fundef_cong]:
  "xs = ys \<Longrightarrow> (\<And>x. x \<in> set ys \<Longrightarrow> f x = g x) \<Longrightarrow> collect f xs = collect g ys"
  by (induction ys arbitrary: xs) auto

definition entries :: "json option \<Rightarrow> (string \<times> json) list" where
  "entries v = (case v of Some (JObj d) \<Rightarrow> d | _ \<Rightarrow> [])"

definition elements :: "json option \<Rightarrow> json list" where
  "elements v = (case v of Some (JArr xs) \<Rightarrow> xs | _ \<Rightarrow> [])"

definition is_dict :: "json option \<Rightarrow> bool" where
  "is_dict v \<longleftrightarrow> (case v of Some (JObj _) \<Rightarrow> True | _ \<Rightarrow> False)"

abbreviation has :: "string \<Rightarrow> (string \<times> json) list \<Rightarrow> bool" where
  "has k d \<equiv> k \<in> set (map fst d)"

lemma size_lookup: "map_of d k = Some v \<Longrightarrow> size v < size (JObj d)"
proof -
  assume "map_of d k = Some v"
  then have "(k, v) \<in> set d" by (rule map_of_SomeD)
  then show ?thesis by (induction d) auto
qed

lemma size_entry: "(k, v) \<in> set (entries (map_of d p)) \<Longrightarrow> size v < size (JObj d)"
proof -
  assume e: "(k, v) \<in> set (entries (map_of d p))"
  then obtain d' where d': "map_of d p = Some (JObj d')" "(k, v) \<in> set d'"
    by (cases "map_of d p") (auto simp: entries_def split: json.splits)
  from d'(2) have "size v < size (JObj d')" by (induction d') auto
  with size_lookup [OF d'(1)] show ?thesis by simp
qed

lemma size_element: "v \<in> set (elements (map_of d p)) \<Longrightarrow> size v < size (JObj d)"
proof -
  assume e: "v \<in> set (elements (map_of d p))"
  then obtain xs where xs: "map_of d p = Some (JArr xs)" "v \<in> set xs"
    by (cases "map_of d p") (auto simp: elements_def split: json.splits)
  from xs(2) have "size v < size (JArr xs)" by (induction xs) auto
  with size_lookup [OF xs(1)] show ?thesis by simp
qed

section \<open>Conversion\<close>

definition allowed_keys :: "string list" where
  "allowed_keys = [''type'', ''properties'', ''required'', ''additionalProperties'', ''items'', ''$defs'', ''$ref'',
     ''anyOf'', ''enum'', ''const'', ''title'', ''description'', ''default'', ''format'', ''minLength'', ''maxLength'',
     ''pattern'']"

definition constraint_keys :: "string list" where
  "constraint_keys = [''format'', ''minLength'', ''maxLength'', ''pattern'']"

definition admitted_keys :: "(string \<times> json) list \<Rightarrow> bool" where
  "admitted_keys d \<longleftrightarrow> list_all (\<lambda>(k, v). k \<in> set allowed_keys) d
     \<and> (list_ex (\<lambda>(k, v). k \<in> set constraint_keys) d \<longrightarrow>
          map_of d ''type'' = Some (JStr ''string'') \<and> (has ''format'' d \<longrightarrow> map_of d ''format'' = Some (JStr ''uuid'')))"

text \<open>The entries that are kept, with \<^verbatim>\<open>const\<close> as a singleton enumeration.\<close>

definition kept_entries :: "(string \<times> json) list \<Rightarrow> (string \<times> json) list" where
  "kept_entries d = filter (\<lambda>(k, v). k \<notin> set (''title'' # ''default'' # constraint_keys)) d"

definition singleton_enum :: "(string \<times> json) list \<Rightarrow> inference_error + (string \<times> json) list" where
  "singleton_enum out = (case map_of out ''const'' of
      None \<Rightarrow> Inr out
    | Some v \<Rightarrow> if has ''enum'' out then schema_fail
        else Inr (dict_put ''enum'' (JArr [v]) (filter (\<lambda>(k, v). k \<noteq> ''const'') out)))"

definition scalar_kinds :: "string list" where
  "scalar_kinds = [''string'', ''integer'', ''number'', ''boolean'', ''null'']"

definition required_known :: "(string \<times> json) list \<Rightarrow> (string \<times> json) list \<Rightarrow> bool" where
  "required_known out props = (case map_of out ''required'' of
      None \<Rightarrow> True
    | Some (JArr ks) \<Rightarrow> list_all (\<lambda>k. case k of JStr s \<Rightarrow> has s props | _ \<Rightarrow> False) ks
    | _ \<Rightarrow> False)"

text \<open>\<^verbatim>\<open>isinstance(v, types[kind])\<close>; a Boolean is an instance of \<^verbatim>\<open>int\<close>.\<close>

definition enum_value :: "string \<Rightarrow> json \<Rightarrow> bool" where
  "enum_value kind v = (case v of
      JStr _ \<Rightarrow> kind = ''string''
    | JText _ \<Rightarrow> kind = ''string''
    | JInt _ \<Rightarrow> kind = ''integer'' \<or> kind = ''number''
    | JFloat _ \<Rightarrow> kind = ''number''
    | JBool _ \<Rightarrow> kind = ''integer'' \<or> kind = ''number'' \<or> kind = ''boolean''
    | JNull \<Rightarrow> kind = ''null''
    | _ \<Rightarrow> False)"

definition enum_ok :: "json option \<Rightarrow> (string \<times> json) list \<Rightarrow> bool" where
  "enum_ok kind out \<longleftrightarrow> (has ''enum'' out \<longrightarrow> (case kind of
      Some (JStr k) \<Rightarrow> k \<in> set scalar_kinds \<and> elements (map_of out ''enum'') \<noteq> []
        \<and> list_all (enum_value k) (elements (map_of out ''enum''))
    | _ \<Rightarrow> False))"

definition known_kind :: "json option \<Rightarrow> bool" where
  "known_kind kind \<longleftrightarrow> kind \<in> set (map (Some \<circ> JStr) (''object'' # ''array'' # scalar_kinds))"

lemma map_of_filter_key: "map_of (filter (\<lambda>(k, v). P k) d) k = (if P k then map_of d k else None)"
  by (induction d) auto

lemma kept_lookup: "map_of (kept_entries d) k = Some v \<Longrightarrow> map_of d k = Some v"
  by (simp add: kept_entries_def map_of_filter_key split: if_splits)

lemma singleton_enum_lookup:
  "singleton_enum out = Inr out' \<Longrightarrow> k \<noteq> ''enum'' \<Longrightarrow> map_of out' k = Some v \<Longrightarrow> map_of out k = Some v"
  by (auto simp: singleton_enum_def map_of_filter_key split: option.splits if_splits)

lemma size_kept_lookup:
  assumes "singleton_enum (kept_entries d) = Inr out" and "map_of out k = Some v" and "k \<noteq> ''enum''"
  shows "size v < size (JObj d)"
  using assms by (blast intro: size_lookup kept_lookup singleton_enum_lookup)

lemma size_kept_entry:
  assumes "singleton_enum (kept_entries d) = Inr out" and "(p, v) \<in> set (entries (map_of out k))" and "k \<noteq> ''enum''"
  shows "size v < size (JObj d)"
proof -
  from assms(2) obtain d' where d': "map_of out k = Some (JObj d')" "(p, v) \<in> set d'"
    by (cases "map_of out k") (auto simp: entries_def split: json.splits)
  from d'(2) have "size v < size (JObj d')" by (induction d') auto
  with size_kept_lookup [OF assms(1) d'(1) assms(3)] show ?thesis by simp
qed

lemma size_kept_element:
  assumes "singleton_enum (kept_entries d) = Inr out" and "v \<in> set (elements (map_of out k))" and "k \<noteq> ''enum''"
  shows "size v < size (JObj d)"
proof -
  from assms(2) obtain xs where xs: "map_of out k = Some (JArr xs)" "v \<in> set xs"
    by (cases "map_of out k") (auto simp: elements_def split: json.splits)
  from xs(2) have "size v < size (JArr xs)" by (induction xs) auto
  with size_kept_lookup [OF assms(1) xs(1) assms(3)] show ?thesis by simp
qed

function convert :: "bool \<Rightarrow> json \<Rightarrow> inference_error + json" where
  "convert outer node = (case node of
      JObj d \<Rightarrow>
        sbind (require (admitted_keys d)) (\<lambda>_.
        sbind (singleton_enum (kept_entries d)) (\<lambda>out.
        sbind (require (outer \<longrightarrow> map_of out ''type'' = Some (JStr ''object''))) (\<lambda>_.
        sbind (if has ''$ref'' out then
                 sbind (require (set (map fst out) = {''$ref''} \<and> (\<exists>s \<in> set (map snd out). case s of JStr _ \<Rightarrow> True | _ \<Rightarrow> False)))
                   (\<lambda>_. Inr out)
               else if has ''anyOf'' out then
                 sbind (require (\<not> outer \<and> set (map fst out) = {''anyOf''} \<and> elements (map_of out ''anyOf'') \<noteq> [])) (\<lambda>_.
                 sbind (collect (convert False) (elements (map_of out ''anyOf''))) (\<lambda>vs.
                   Inr (dict_put ''anyOf'' (JArr vs) out)))
               else sbind (require (known_kind (map_of out ''type''))) (\<lambda>_. Inr out)) (\<lambda>out1.
        sbind (if map_of out ''type'' = Some (JStr ''object'') then
                 sbind (require (is_dict (map_of out ''properties'') \<and> map_of out ''additionalProperties'' = Some (JBool False)
                     \<and> required_known out (entries (map_of out ''properties'')))) (\<lambda>_.
                 sbind (collect (\<lambda>(k, v). sbind (convert False v) (\<lambda>v'. Inr (k, v'))) (entries (map_of out ''properties''))) (\<lambda>props.
                   Inr (dict_put ''required'' (JArr (map (JStr \<circ> fst) props)) (dict_put ''properties'' (JObj props) out1))))
               else sbind (require (\<not> has ''properties'' out1 \<and> \<not> has ''required'' out1
                   \<and> \<not> has ''additionalProperties'' out1)) (\<lambda>_. Inr out1)) (\<lambda>out2.
        sbind (if map_of out ''type'' = Some (JStr ''array'') then
                 (case map_of out ''items'' of
                    None \<Rightarrow> schema_fail
                  | Some item \<Rightarrow> sbind (convert False item) (\<lambda>item'. Inr (dict_put ''items'' item' out2)))
               else sbind (require (\<not> has ''items'' out2)) (\<lambda>_. Inr out2)) (\<lambda>out3.
        sbind (if has ''$defs'' out then
                 sbind (require (outer \<and> is_dict (map_of out ''$defs''))) (\<lambda>_.
                 sbind (collect (\<lambda>(k, v). sbind (convert False v) (\<lambda>v'. Inr (k, v'))) (entries (map_of out ''$defs''))) (\<lambda>defs.
                   Inr (dict_put ''$defs'' (JObj defs) out3)))
               else Inr out3) (\<lambda>out4.
        sbind (require (enum_ok (map_of out ''type'') out4)) (\<lambda>_. Inr (JObj out4)))))))))
    | _ \<Rightarrow> schema_fail)"
  by pat_completeness auto
termination
proof (relation "measure (size \<circ> snd)")
qed (auto dest: size_kept_entry size_kept_element size_kept_lookup)
declare convert.simps [simp del]

section \<open>Bounds\<close>

definition schema_children :: "(string \<times> json) list \<Rightarrow> json list" where
  "schema_children d = map snd (entries (map_of d ''properties'')) @ elements (map_of d ''anyOf'')
     @ (case map_of d ''items'' of None \<Rightarrow> [] | Some v \<Rightarrow> [v])"

definition schema_definitions :: "(string \<times> json) list \<Rightarrow> json list" where
  "schema_definitions d = map snd (entries (map_of d ''$defs''))"

lemma size_child: "v \<in> set (schema_children d) \<or> v \<in> set (schema_definitions d) \<Longrightarrow> size v < size (JObj d)"
  unfolding schema_children_def schema_definitions_def
  by (cases "map_of d ''items''") (auto dest!: size_entry size_element size_lookup)

function count_properties :: "json \<Rightarrow> nat" where
  "count_properties node = (case node of
      JObj d \<Rightarrow> length (entries (map_of d ''properties''))
        + sum_list (map count_properties (schema_children d)) + sum_list (map count_properties (schema_definitions d))
    | _ \<Rightarrow> 0)"
  by pat_completeness auto
termination
  by (relation "measure size") (auto dest!: size_child [OF disjI1] size_child [OF disjI2])

definition container :: "(string \<times> json) list \<Rightarrow> bool" where
  "container d \<longleftrightarrow> map_of d ''type'' \<in> {Some (JStr ''object''), Some (JStr ''array'')}"

text \<open>The references that have not been followed yet.\<close>

definition unseen :: "(string \<times> json) list \<Rightarrow> string list \<Rightarrow> nat" where
  "unseen defs seen = card ((\<lambda>k. ''#/$defs/'' @ k) ` set (map fst defs) - set seen)"

lemma unseen_less:
  assumes "take 8 ref = ''#/$defs/''" and "map_of defs (drop 8 ref) = Some n" and "ref \<notin> set seen"
  shows "unseen defs (seen @ [ref]) < unseen defs seen"
proof -
  have "drop 8 ref \<in> set (map fst defs)" using map_of_SomeD [OF assms(2)] by force
  moreover have "ref = ''#/$defs/'' @ drop 8 ref" using append_take_drop_id [of 8 ref] assms(1) by simp
  ultimately have "ref \<in> (\<lambda>k. ''#/$defs/'' @ k) ` set (map fst defs) - set seen" using assms(3) by blast
  then show ?thesis unfolding unseen_def by (intro psubset_card_mono) auto
qed

function schema_depth :: "(string \<times> json) list \<Rightarrow> json \<Rightarrow> int \<Rightarrow> string list \<Rightarrow> inference_error + unit" where
  "schema_depth defs node level seen = (case node of
      JObj d \<Rightarrow> (case map_of d ''$ref'' of
          Some (JStr ref) \<Rightarrow>
            (if take 8 ref \<noteq> ''#/$defs/'' \<or> \<not> has (drop 8 ref) defs \<or> ref \<in> set seen then schema_fail
             else case map_of defs (drop 8 ref) of
                 None \<Rightarrow> schema_fail
               | Some n \<Rightarrow> schema_depth defs n level (seen @ [ref]))
        | Some _ \<Rightarrow> schema_fail
        | None \<Rightarrow>
            let level' = level + (if container d then 1 else 0) in
            if level' > 5 then schema_fail
            else sbind (collect (\<lambda>v. schema_depth defs v level' seen) (schema_children d)) (\<lambda>_. Inr ()))
    | _ \<Rightarrow> schema_fail)"
  by pat_completeness auto
termination
  by (relation "measures [\<lambda>(defs, node, level, seen). unseen defs seen, \<lambda>(defs, node, level, seen). size node]")
    (auto dest: unseen_less size_child [OF disjI1])

declare count_properties.simps [simp del] schema_depth.simps [simp del]

definition provider_schema :: "json \<Rightarrow> inference_error + json" where
  "provider_schema schema =
     sbind (convert True schema) (\<lambda>result.
     let definitions = (case result of JObj d \<Rightarrow> entries (map_of d ''$defs'') | _ \<Rightarrow> []) in
     sbind (require (count_properties result \<le> 100)) (\<lambda>_.
     sbind (schema_depth definitions result (- 1) []) (\<lambda>_.
     sbind (collect (\<lambda>v. schema_depth definitions v (- 1) []) (map snd definitions)) (\<lambda>_.
       Inr result))))"

section \<open>The shape of a conversion\<close>

definition final_keys :: "string list" where
  "final_keys = [''type'', ''properties'', ''required'', ''additionalProperties'', ''items'', ''$defs'', ''$ref'',
     ''anyOf'', ''enum'', ''description'']"

definition normal :: "(string \<times> json) list \<Rightarrow> bool" where
  "normal d \<longleftrightarrow> set (map fst d) \<subseteq> set final_keys"

lemma dict_put_same: "map_of d k = Some v \<Longrightarrow> dict_put k v d = d"
  by (induction d) auto

lemma normal_put: "normal d \<Longrightarrow> k \<in> set final_keys \<Longrightarrow> normal (dict_put k v d)"
  by (auto simp: normal_def keys_dict_put)

lemma has_iff: "has k d \<longleftrightarrow> map_of d k \<noteq> None"
  by (simp add: map_of_eq_None_iff)

lemma normal_absent: "normal d \<Longrightarrow> k \<notin> set final_keys \<Longrightarrow> map_of d k = None"
  by (auto simp: normal_def map_of_eq_None_iff)

lemma final_allowed: "set final_keys \<subseteq> set allowed_keys"
  by (simp add: final_keys_def allowed_keys_def)

lemma final_kept: "k \<in> set final_keys \<Longrightarrow> k \<notin> set (''title'' # ''default'' # constraint_keys)"
  by (auto simp: final_keys_def constraint_keys_def)

lemma allowed_final:
  "k \<in> set allowed_keys \<Longrightarrow> k \<in> set final_keys \<or> k = ''const'' \<or> k \<in> set (''title'' # ''default'' # constraint_keys)"
  by (auto simp: final_keys_def constraint_keys_def allowed_keys_def)

lemma normal_entry: "normal d \<Longrightarrow> (k, v) \<in> set d \<Longrightarrow> k \<in> set final_keys"
  by (force simp: normal_def)

lemma normal_kept: "normal d \<Longrightarrow> kept_entries d = d"
  using final_kept by (auto simp: kept_entries_def filter_id_conv dest!: normal_entry)

lemma normal_admitted: "normal d \<Longrightarrow> admitted_keys d"
proof -
  assume n: "normal d"
  then have "list_all (\<lambda>(k, v). k \<in> set allowed_keys) d"
    using final_allowed by (auto simp: list_all_iff dest: normal_entry)
  moreover have "\<not> list_ex (\<lambda>(k, v). k \<in> set constraint_keys) d"
    using n final_kept by (auto simp: list_ex_iff dest!: normal_entry)
  ultimately show ?thesis by (simp add: admitted_keys_def)
qed

lemma normal_enum: "normal d \<Longrightarrow> singleton_enum d = Inr d"
  by (simp add: singleton_enum_def normal_absent final_keys_def)

lemma kept_normal:
  assumes "admitted_keys d" and "singleton_enum (kept_entries d) = Inr out"
  shows "normal out"
proof -
  have kept: "k \<in> set final_keys \<or> k = ''const''" if "k \<in> set (map fst (kept_entries d))" for k
    using assms(1) that allowed_final [of k] by (auto simp: admitted_keys_def kept_entries_def list_all_iff)
  have enum: "''enum'' \<in> set final_keys" by (simp add: final_keys_def)
  show ?thesis
  proof (cases "map_of (kept_entries d) ''const''")
    case None
    then have "''const'' \<notin> set (map fst (kept_entries d))" by (simp add: map_of_eq_None_iff)
    moreover have "out = kept_entries d" using assms(2) None by (simp add: singleton_enum_def)
    ultimately show ?thesis using kept unfolding normal_def by blast
  next
    case (Some v)
    let ?rest = "filter (\<lambda>(k, v). k \<noteq> ''const'') (kept_entries d)"
    have "normal ?rest" unfolding normal_def using kept by force
    then have "normal (dict_put ''enum'' (JArr [v]) ?rest)" using enum by (rule normal_put)
    with assms(2) Some show ?thesis by (auto simp: singleton_enum_def split: if_splits)
  qed
qed
text \<open>The part of the conversion that follows the selection of the entries.\<close>

definition converted_entries :: "(string \<times> json) list \<Rightarrow> inference_error + (string \<times> json) list" where
  "converted_entries d = collect (\<lambda>(k, v). sbind (convert False v) (\<lambda>v'. Inr (k, v'))) d"

definition convert_out :: "bool \<Rightarrow> (string \<times> json) list \<Rightarrow> inference_error + json" where
  "convert_out outer out =
     sbind (require (outer \<longrightarrow> map_of out ''type'' = Some (JStr ''object''))) (\<lambda>_.
     sbind (if has ''$ref'' out then
              sbind (require (set (map fst out) = {''$ref''} \<and> (\<exists>s \<in> set (map snd out). case s of JStr _ \<Rightarrow> True | _ \<Rightarrow> False)))
                (\<lambda>_. Inr out)
            else if has ''anyOf'' out then
              sbind (require (\<not> outer \<and> set (map fst out) = {''anyOf''} \<and> elements (map_of out ''anyOf'') \<noteq> [])) (\<lambda>_.
              sbind (collect (convert False) (elements (map_of out ''anyOf''))) (\<lambda>vs.
                Inr (dict_put ''anyOf'' (JArr vs) out)))
            else sbind (require (known_kind (map_of out ''type''))) (\<lambda>_. Inr out)) (\<lambda>out1.
     sbind (if map_of out ''type'' = Some (JStr ''object'') then
              sbind (require (is_dict (map_of out ''properties'') \<and> map_of out ''additionalProperties'' = Some (JBool False)
                  \<and> required_known out (entries (map_of out ''properties'')))) (\<lambda>_.
              sbind (converted_entries (entries (map_of out ''properties''))) (\<lambda>props.
                Inr (dict_put ''required'' (JArr (map (JStr \<circ> fst) props)) (dict_put ''properties'' (JObj props) out1))))
            else sbind (require (\<not> has ''properties'' out1 \<and> \<not> has ''required'' out1
                \<and> \<not> has ''additionalProperties'' out1)) (\<lambda>_. Inr out1)) (\<lambda>out2.
     sbind (if map_of out ''type'' = Some (JStr ''array'') then
              (case map_of out ''items'' of
                 None \<Rightarrow> schema_fail
               | Some item \<Rightarrow> sbind (convert False item) (\<lambda>item'. Inr (dict_put ''items'' item' out2)))
            else sbind (require (\<not> has ''items'' out2)) (\<lambda>_. Inr out2)) (\<lambda>out3.
     sbind (if has ''$defs'' out then
              sbind (require (outer \<and> is_dict (map_of out ''$defs''))) (\<lambda>_.
              sbind (converted_entries (entries (map_of out ''$defs''))) (\<lambda>defs.
                Inr (dict_put ''$defs'' (JObj defs) out3)))
            else Inr out3) (\<lambda>out4.
     sbind (require (enum_ok (map_of out ''type'') out4)) (\<lambda>_. Inr (JObj out4)))))))"

lemma convert_JObj:
  "convert outer (JObj d) =
     sbind (require (admitted_keys d)) (\<lambda>_. sbind (singleton_enum (kept_entries d)) (convert_out outer))"
  unfolding convert_out_def converted_entries_def by (subst convert.simps) simp

lemma convert_normal: "normal d \<Longrightarrow> convert outer (JObj d) = convert_out outer d"
  by (simp add: convert_JObj normal_admitted normal_kept normal_enum guard_def)

lemma convert_InrD:
  assumes "convert outer node = Inr r"
  obtains d out where "node = JObj d" and "singleton_enum (kept_entries d) = Inr out" and "normal out"
    and "convert_out outer out = Inr r"
proof (cases node)
  case (JObj d)
  with assms obtain out where "admitted_keys d" "singleton_enum (kept_entries d) = Inr out" "convert_out outer out = Inr r"
    by (auto simp: convert_JObj txn_simps)
  with JObj kept_normal show ?thesis using that by blast
qed (use assms in \<open>simp_all add: convert.simps\<close>)

text \<open>The five shapes of a converted node: a reference, a union, an object, an array, a scalar.\<close>

inductive converted_shape :: "bool \<Rightarrow> (string \<times> json) list \<Rightarrow> (string \<times> json) list \<Rightarrow> bool" where
  Shape_ref: "set (map fst out) = {''$ref''} \<Longrightarrow> converted_shape False out out"
| Shape_union: "set (map fst out) = {''anyOf''} \<Longrightarrow> elements (map_of out ''anyOf'') \<noteq> [] \<Longrightarrow>
    collect (convert False) (elements (map_of out ''anyOf'')) = Inr vs \<Longrightarrow>
    converted_shape False out (dict_put ''anyOf'' (JArr vs) out)"
| Shape_object: "\<not> has ''$ref'' out \<Longrightarrow> \<not> has ''anyOf'' out \<Longrightarrow> \<not> has ''items'' out \<Longrightarrow> \<not> has ''enum'' out \<Longrightarrow>
    map_of out ''type'' = Some (JStr ''object'') \<Longrightarrow> map_of out ''additionalProperties'' = Some (JBool False) \<Longrightarrow>
    converted_entries (entries (map_of out ''properties'')) = Inr props \<Longrightarrow>
    base = dict_put ''required'' (JArr (map (JStr \<circ> fst) props)) (dict_put ''properties'' (JObj props) out) \<Longrightarrow>
    (if has ''$defs'' out then outer \<and> converted_entries (entries (map_of out ''$defs'')) = Inr defs
       \<and> final = dict_put ''$defs'' (JObj defs) base else final = base) \<Longrightarrow>
    converted_shape outer out final"
| Shape_array: "\<not> has ''$ref'' out \<Longrightarrow> \<not> has ''anyOf'' out \<Longrightarrow> \<not> has ''$defs'' out \<Longrightarrow> \<not> has ''enum'' out \<Longrightarrow>
    \<not> has ''properties'' out \<Longrightarrow> \<not> has ''required'' out \<Longrightarrow> \<not> has ''additionalProperties'' out \<Longrightarrow>
    map_of out ''type'' = Some (JStr ''array'') \<Longrightarrow> map_of out ''items'' = Some item \<Longrightarrow> convert False item = Inr item' \<Longrightarrow>
    converted_shape False out (dict_put ''items'' item' out)"
| Shape_scalar: "\<not> has ''$ref'' out \<Longrightarrow> \<not> has ''anyOf'' out \<Longrightarrow> \<not> has ''$defs'' out \<Longrightarrow> \<not> has ''items'' out \<Longrightarrow>
    \<not> has ''properties'' out \<Longrightarrow> \<not> has ''required'' out \<Longrightarrow> \<not> has ''additionalProperties'' out \<Longrightarrow>
    map_of out ''type'' = Some (JStr k) \<Longrightarrow> k \<in> set scalar_kinds \<Longrightarrow> enum_ok (map_of out ''type'') out \<Longrightarrow>
    converted_shape False out out"
lemma key_iff: "k \<in> fst ` set d \<longleftrightarrow> (\<exists>v. map_of d k = Some v)"
  using map_of_eq_None_iff [of d k] by (cases "map_of d k") auto

lemma single_key: "set (map fst d) = {a} \<Longrightarrow> k \<noteq> a \<Longrightarrow> map_of d k = None"
  by (simp add: map_of_eq_None_iff)

lemma enum_ok_absent: "map_of out ''enum'' = None \<Longrightarrow> enum_ok kind out"
  by (simp add: enum_ok_def key_iff)

lemma enum_ok_not_scalar: "enum_ok (Some (JStr k)) out \<Longrightarrow> k \<notin> set scalar_kinds \<Longrightarrow> map_of out ''enum'' = None"
  by (auto simp: enum_ok_def key_iff)

lemma not_scalar: "''object'' \<notin> set scalar_kinds" "''array'' \<notin> set scalar_kinds"
  by (simp_all add: scalar_kinds_def)

lemma shape_ref:
  assumes "convert_out outer out = Inr r" and "has ''$ref'' out"
  shows "r = JObj out \<and> converted_shape outer out out"
proof -
  from assms have keys: "set (map fst out) = {''$ref''}" by (auto simp: convert_out_def txn_simps split: if_splits)
  note none = single_key [OF keys]
  have "\<not> outer" using assms(1) by (auto simp: convert_out_def txn_simps none)
  moreover have "r = JObj out" using assms by (auto simp: convert_out_def txn_simps none key_iff split: if_splits)
  ultimately show ?thesis using keys by (simp add: Shape_ref)
qed

lemma shape_union:
  assumes "convert_out outer out = Inr r" and "\<not> has ''$ref'' out" and "has ''anyOf'' out"
  shows "\<exists>final. r = JObj final \<and> converted_shape outer out final"
proof -
  have keys: "set (map fst out) = {''anyOf''}" "\<not> outer" "elements (map_of out ''anyOf'') \<noteq> []"
    using assms by (auto simp: convert_out_def txn_simps split: if_splits)
  note none = single_key [OF keys(1)]
  obtain vs where vs: "collect (convert False) (elements (map_of out ''anyOf'')) = Inr vs"
    using assms by (auto simp: convert_out_def txn_simps split: if_splits)
  obtain a where "map_of out ''anyOf'' = Some a" using assms(3) by (auto simp: key_iff)
  moreover have "fst ` set out = {''anyOf''}" using keys(1) by simp
  moreover have absent: "map_of out ''type'' = None" "map_of out ''$ref'' = None" "map_of out ''$defs'' = None"
      "map_of out ''properties'' = None" "map_of out ''required'' = None" "map_of out ''additionalProperties'' = None"
      "map_of out ''items'' = None" "map_of out ''enum'' = None"
    by (rule none, simp)+
  ultimately have "convert_out outer out = Inr (JObj (dict_put ''anyOf'' (JArr vs) out))"
    using keys(2,3) vs unfolding convert_out_def by (simp add: guard_def key_iff enum_ok_absent)
  with assms(1) have "r = JObj (dict_put ''anyOf'' (JArr vs) out)" by simp
  with Shape_union [OF keys(1,3) vs] keys(2) show ?thesis by simp
qed

lemma shape_object:
  assumes "convert_out outer out = Inr r" and "\<not> has ''$ref'' out" and "\<not> has ''anyOf'' out"
    and "map_of out ''type'' = Some (JStr ''object'')"
  shows "\<exists>final. r = JObj final \<and> converted_shape outer out final"
proof -
  obtain props where p: "converted_entries (entries (map_of out ''properties'')) = Inr props"
      "map_of out ''additionalProperties'' = Some (JBool False)"
    using assms by (auto simp: convert_out_def txn_simps split: if_splits)
  let ?base = "dict_put ''required'' (JArr (map (JStr \<circ> fst) props)) (dict_put ''properties'' (JObj props) out)"
  have items: "map_of out ''items'' = None"
    using assms p by (auto simp: convert_out_def txn_simps key_iff split: if_splits)
  show ?thesis
  proof (cases "has ''$defs'' out")
    case True
    then obtain defs where d: "converted_entries (entries (map_of out ''$defs'')) = Inr defs" "outer"
        "r = JObj (dict_put ''$defs'' (JObj defs) ?base)" "enum_ok (map_of out ''type'') (dict_put ''$defs'' (JObj defs) ?base)"
      using assms p items by (auto simp: convert_out_def txn_simps key_iff split: if_splits)
    then have "map_of out ''enum'' = None" using enum_ok_not_scalar [OF _ not_scalar(1)] assms(4) by fastforce
    then show ?thesis using d True assms p items
      by (auto simp: key_iff intro!: Shape_object [where props = props and defs = defs])
  next
    case False
    then have d: "r = JObj ?base" "enum_ok (map_of out ''type'') ?base"
      using assms p items by (auto simp: convert_out_def txn_simps key_iff split: if_splits)
    then have "map_of out ''enum'' = None" using enum_ok_not_scalar [OF _ not_scalar(1)] assms(4) by fastforce
    then show ?thesis using d False assms p items
      by (auto simp: key_iff intro!: Shape_object [where props = props])
  qed
qed

lemma shape_other:
  assumes "convert_out outer out = Inr r" and "\<not> has ''$ref'' out" and "\<not> has ''anyOf'' out"
    and "map_of out ''type'' \<noteq> Some (JStr ''object'')"
  shows "\<exists>final. r = JObj final \<and> converted_shape outer out final"
proof -
  have o: "\<not> outer" "\<not> has ''properties'' out" "\<not> has ''required'' out" "\<not> has ''additionalProperties'' out"
      "\<not> has ''$defs'' out" "known_kind (map_of out ''type'')"
    using assms by (auto simp: convert_out_def txn_simps split: if_splits)
  show ?thesis
  proof (cases "map_of out ''type'' = Some (JStr ''array'')")
    case True
    then obtain item item' where "map_of out ''items'' = Some item" "convert False item = Inr item'"
        "r = JObj (dict_put ''items'' item' out)" "enum_ok (map_of out ''type'') (dict_put ''items'' item' out)"
      using assms o by (auto simp: convert_out_def txn_simps split: option.splits if_splits)
    moreover from this(4) have "map_of out ''enum'' = None" using enum_ok_not_scalar [OF _ not_scalar(2)] True by fastforce
    ultimately show ?thesis using o assms(2,3) True by (auto simp: key_iff intro: Shape_array)
  next
    case False
    then have "r = JObj out" "enum_ok (map_of out ''type'') out" "\<not> has ''items'' out"
      using assms o by (auto simp: convert_out_def txn_simps split: if_splits)
    moreover obtain k where "map_of out ''type'' = Some (JStr k)" "k \<in> set scalar_kinds"
      using o(6) assms(4) False by (auto simp: known_kind_def)
    ultimately show ?thesis using o assms(2,3) by (auto intro: Shape_scalar)
  qed
qed

lemma convert_out_shape:
  "convert_out outer out = Inr r \<Longrightarrow> \<exists>final. r = JObj final \<and> converted_shape outer out final"
  using shape_ref shape_union shape_object shape_other by blast
section \<open>Converting a converted schema\<close>

lemma collect_idem:
  assumes "collect f xs = Inr ys" and "\<And>x y. x \<in> set xs \<Longrightarrow> f x = Inr y \<Longrightarrow> f y = Inr y"
  shows "collect f ys = Inr ys"
  using assms
proof (induction xs arbitrary: ys)
  case (Cons x xs)
  from Cons.prems(1) obtain y zs where y: "f x = Inr y" "collect f xs = Inr zs" "ys = y # zs"
    by (auto simp: txn_simps)
  have "f y = Inr y" using Cons.prems(2) y(1) by (meson list.set_intros(1))
  moreover have "collect f zs = Inr zs" using Cons.IH [OF y(2)] Cons.prems(2) by (meson list.set_intros(2))
  ultimately show ?case using y(3) by simp
qed simp

lemma converted_entries_idem:
  assumes "converted_entries d = Inr d'"
    and "\<And>k v v'. (k, v) \<in> set d \<Longrightarrow> convert False v = Inr v' \<Longrightarrow> convert False v' = Inr v'"
  shows "converted_entries d' = Inr d'"
  using assms(1) unfolding converted_entries_def
  by (rule collect_idem) (use assms(2) in \<open>auto simp: txn_simps\<close>)

lemma union_forward:
  assumes "set (map fst f) = {''anyOf''}" and "map_of f ''anyOf'' = Some (JArr vs)" and "vs \<noteq> []"
    and "collect (convert False) vs = Inr vs"
  shows "convert_out False f = Inr (JObj f)"
proof -
  note none = single_key [OF assms(1)]
  have absent: "map_of f ''type'' = None" "map_of f ''$ref'' = None" "map_of f ''$defs'' = None"
      "map_of f ''properties'' = None" "map_of f ''required'' = None" "map_of f ''additionalProperties'' = None"
      "map_of f ''items'' = None" "map_of f ''enum'' = None"
    by (rule none, simp)+
  have "fst ` set f = {''anyOf''}" using assms(1) by simp
  with assms(2,3,4) absent show ?thesis
    unfolding convert_out_def by (simp add: guard_def key_iff enum_ok_absent elements_def dict_put_same)
qed

lemma object_forward:
  assumes "map_of f ''$ref'' = None" and "map_of f ''anyOf'' = None" and "map_of f ''items'' = None" and "map_of f ''enum'' = None"
    and "map_of f ''type'' = Some (JStr ''object'')" and "map_of f ''additionalProperties'' = Some (JBool False)"
    and "map_of f ''properties'' = Some (JObj props)" and "converted_entries props = Inr props"
    and "map_of f ''required'' = Some (JArr (map (JStr \<circ> fst) props))"
    and "map_of f ''$defs'' = None \<or> outer \<and> map_of f ''$defs'' = Some (JObj defs) \<and> converted_entries defs = Inr defs"
  shows "convert_out outer f = Inr (JObj f)"
proof -
  have "required_known f props" using assms(9) by (simp add: required_known_def list_all_iff)
  moreover have "known_kind (Some (JStr ''object''))" by (simp add: known_kind_def)
  ultimately show ?thesis using assms(10)
    unfolding convert_out_def
    by (elim disjE) (simp_all add: assms(1-9) guard_def key_iff enum_ok_absent entries_def is_dict_def dict_put_same)
qed

lemma array_forward:
  assumes "map_of f ''$ref'' = None" and "map_of f ''anyOf'' = None" and "map_of f ''$defs'' = None" and "map_of f ''enum'' = None"
    and "map_of f ''properties'' = None" and "map_of f ''required'' = None" and "map_of f ''additionalProperties'' = None"
    and "map_of f ''type'' = Some (JStr ''array'')" and "map_of f ''items'' = Some v" and "convert False v = Inr v"
  shows "convert_out False f = Inr (JObj f)"
proof -
  have "known_kind (Some (JStr ''array''))" by (simp add: known_kind_def)
  then show ?thesis
    unfolding convert_out_def by (simp add: assms guard_def key_iff enum_ok_absent dict_put_same)
qed

lemma converted_fixed:
  assumes "converted_shape outer out final" and "convert_out outer out = Inr (JObj final)" and "normal out"
    and "\<And>k v v'. k \<noteq> ''enum'' \<Longrightarrow> v \<in> set (elements (map_of out k)) \<or> (\<exists>p. (p, v) \<in> set (entries (map_of out k))) \<or> map_of out k = Some v
      \<Longrightarrow> convert False v = Inr v' \<Longrightarrow> convert False v' = Inr v'"
  shows "normal final \<and> convert_out outer final = Inr (JObj final)"
  using assms(1)
proof cases
  case Shape_ref
  with assms(2,3) show ?thesis by simp
next
  case (Shape_union vs)
  have "collect (convert False) vs = Inr vs"
    by (rule collect_idem [OF Shape_union(5)]) (rule assms(4) [of "''anyOf''"], simp_all)
  moreover have "vs \<noteq> []" using Shape_union(4,5) by (cases "elements (map_of out ''anyOf'')") (auto simp: txn_simps)
  moreover have "set (map fst final) = {''anyOf''}" using Shape_union(2,3) by (simp add: keys_dict_put)
  ultimately have "convert_out False final = Inr (JObj final)" using Shape_union(2) by (intro union_forward) simp_all
  with Shape_union(1,2) assms(3) show ?thesis by (simp add: normal_put final_keys_def)
next
  case (Shape_object props base defs)
  have props: "converted_entries props = Inr props"
    by (rule converted_entries_idem [OF Shape_object(7)]) (rule assms(4) [of "''properties''"], auto)
  have base: "map_of base = (map_of out)(''properties'' \<mapsto> JObj props, ''required'' \<mapsto> JArr (map (JStr \<circ> fst) props))"
    by (simp add: Shape_object(8))
  have nb: "normal base" using assms(3) unfolding Shape_object(8) by (intro normal_put) (simp_all add: final_keys_def)
  have none: "map_of out ''$ref'' = None" "map_of out ''anyOf'' = None" "map_of out ''items'' = None" "map_of out ''enum'' = None"
    using Shape_object(1-4) by (simp_all add: map_of_eq_None_iff)
  show ?thesis
  proof (cases "has ''$defs'' out")
    case True
    with Shape_object(9) have d: "outer" "converted_entries (entries (map_of out ''$defs'')) = Inr defs"
        "final = dict_put ''$defs'' (JObj defs) base" by auto
    have defs: "converted_entries defs = Inr defs"
      by (rule converted_entries_idem [OF d(2)]) (rule assms(4) [of "''$defs''"], auto)
    have "convert_out outer final = Inr (JObj final)"
      by (rule object_forward [where props = props and defs = defs])
        (simp_all add: d(1,3) base none Shape_object(5,6) props defs)
    moreover have "normal final" unfolding d(3) by (intro normal_put nb) (simp add: final_keys_def)
    ultimately show ?thesis by simp
  next
    case False
    with Shape_object(9) have d: "final = base" by auto
    have "map_of out ''$defs'' = None" using False by (simp add: map_of_eq_None_iff)
    then have "convert_out outer final = Inr (JObj final)"
      by (intro object_forward [where props = props]) (simp_all add: d base none Shape_object(5,6) props)
    with nb d show ?thesis by simp
  qed
next
  case (Shape_array item item')
  have none: "map_of out ''$ref'' = None" "map_of out ''anyOf'' = None" "map_of out ''$defs'' = None" "map_of out ''enum'' = None"
      "map_of out ''properties'' = None" "map_of out ''required'' = None" "map_of out ''additionalProperties'' = None"
    using Shape_array(3-9) by (simp_all add: map_of_eq_None_iff)
  have "convert False item' = Inr item'"
    using Shape_array(11,12) by (intro assms(4) [of "''items''" item]) simp_all
  then have "convert_out False final = Inr (JObj final)"
    by (intro array_forward) (simp_all add: Shape_array(2,10) none)
  with Shape_array(1,2) assms(3) show ?thesis by (simp add: normal_put final_keys_def)
next
  case Shape_scalar
  with assms(2,3) show ?thesis by simp
qed

lemma convert_idem: "convert outer node = Inr r \<Longrightarrow> convert outer r = Inr r"
proof (induction node arbitrary: outer r rule: measure_induct_rule [of size])
  case (less node)
  from less.prems obtain d out where d: "node = JObj d" "singleton_enum (kept_entries d) = Inr out" "normal out"
      "convert_out outer out = Inr r" by (rule convert_InrD)
  obtain final where f: "r = JObj final" "converted_shape outer out final" using convert_out_shape [OF d(4)] by blast
  have "normal final \<and> convert_out outer final = Inr (JObj final)"
  proof (rule converted_fixed [OF f(2) _ d(3)])
    show "convert_out outer out = Inr (JObj final)" using d(4) f(1) by simp
    fix k v v'
    assume "k \<noteq> ''enum''" and "v \<in> set (elements (map_of out k)) \<or> (\<exists>p. (p, v) \<in> set (entries (map_of out k))) \<or> map_of out k = Some v"
      and c: "convert False v = Inr v'"
    then have "size v < size node"
      using size_kept_element [OF d(2)] size_kept_entry [OF d(2)] size_kept_lookup [OF d(2)] d(1) by auto
    then show "convert False v' = Inr v'" using less.IH c by blast
  qed
  then show ?case using f(1) by (simp add: convert_normal)
qed
section \<open>Strict schemas\<close>

text \<open>The contract of the provider: only the keywords of the subset; every object is closed and requires all
  of its properties.\<close>

function strict_node :: "json \<Rightarrow> bool" where
  "strict_node node = (case node of
      JObj d \<Rightarrow> normal d
        \<and> (map_of d ''type'' = Some (JStr ''object'') \<longrightarrow>
            map_of d ''additionalProperties'' = Some (JBool False) \<and> is_dict (map_of d ''properties'')
            \<and> map_of d ''required'' = Some (JArr (map (JStr \<circ> fst) (entries (map_of d ''properties'')))))
        \<and> list_all strict_node (schema_children d) \<and> list_all strict_node (schema_definitions d)
    | _ \<Rightarrow> False)"
  by pat_completeness auto
termination
  by (relation "measure size") (auto dest!: size_child [OF disjI1] size_child [OF disjI2])

declare strict_node.simps [simp del]

text \<open>A walk through a schema, references followed, with the number of containers on it.\<close>

inductive schema_walk :: "(string \<times> json) list \<Rightarrow> json \<Rightarrow> nat \<Rightarrow> bool" for defs where
  Walk_stop: "map_of d ''$ref'' = None \<Longrightarrow> schema_walk defs (JObj d) (if container d then 1 else 0)"
| Walk_child: "map_of d ''$ref'' = None \<Longrightarrow> v \<in> set (schema_children d) \<Longrightarrow> schema_walk defs v n \<Longrightarrow>
    schema_walk defs (JObj d) ((if container d then 1 else 0) + n)"
| Walk_ref: "map_of d ''$ref'' = Some (JStr (''#/$defs/'' @ k)) \<Longrightarrow> map_of defs k = Some v \<Longrightarrow> schema_walk defs v n \<Longrightarrow>
    schema_walk defs (JObj d) n"

lemma collect_all: "collect f xs = Inr ys \<Longrightarrow> x \<in> set xs \<Longrightarrow> \<exists>y. f x = Inr y"
  by (induction xs arbitrary: ys) (auto simp: txn_simps)

lemma schema_depth_bounds:
  "schema_walk defs node n \<Longrightarrow> schema_depth defs node level seen = Inr u \<Longrightarrow> level + int n \<le> 5"
proof (induction arbitrary: level seen u rule: schema_walk.induct)
  case (Walk_stop d)
  then show ?case by (subst (asm) schema_depth.simps) (auto simp: Let_def split: if_splits)
next
  case (Walk_child d v n)
  let ?l = "level + (if container d then 1 else 0)"
  from Walk_child.prems Walk_child.hyps(1)
  obtain us where "collect (\<lambda>v. schema_depth defs v ?l seen) (schema_children d) = Inr us"
    by (subst (asm) schema_depth.simps) (auto simp: Let_def txn_simps split: if_splits)
  from collect_all [OF this Walk_child.hyps(2)] obtain u' where "schema_depth defs v ?l seen = Inr u'" by blast
  then have "?l + int n \<le> 5" by (rule Walk_child.IH)
  then show ?case by (simp split: if_splits)
next
  case (Walk_ref d k v n)
  then have "schema_depth defs v level (seen @ [''#/$defs/'' @ k]) = Inr u"
    by (subst (asm) schema_depth.simps) (auto split: if_splits)
  then show ?case by (rule Walk_ref.IH)
qed

lemma collect_image: "collect f xs = Inr ys \<Longrightarrow> y \<in> set ys \<Longrightarrow> \<exists>x \<in> set xs. f x = Inr y"
  by (induction xs arbitrary: ys) (auto simp: txn_simps)

lemma converted_entries_image: "converted_entries d = Inr d' \<Longrightarrow> (k, v') \<in> set d' \<Longrightarrow> \<exists>v. (k, v) \<in> set d \<and> convert False v = Inr v'"
  unfolding converted_entries_def by (drule collect_image) (auto simp: txn_simps)

lemma strict_shape:
  assumes "converted_shape outer out final" and "normal final"
    and IH: "\<And>k v v'. k \<noteq> ''enum'' \<Longrightarrow> v \<in> set (elements (map_of out k)) \<or> (\<exists>p. (p, v) \<in> set (entries (map_of out k))) \<or> map_of out k = Some v
      \<Longrightarrow> convert False v = Inr v' \<Longrightarrow> strict_node v'"
  shows "strict_node (JObj final)"
  using assms(1)
proof cases
  case Shape_ref
  from single_key [OF Shape_ref(3)] show ?thesis
    using assms(2) by (subst strict_node.simps) (simp add: Shape_ref(2) schema_children_def schema_definitions_def entries_def elements_def)
next
  case (Shape_union vs)
  have "set (map fst final) = {''anyOf''}" using Shape_union(2,3) by (simp add: keys_dict_put)
  note none = single_key [OF this]
  have "strict_node v" if "v \<in> set vs" for v
    using collect_image [OF Shape_union(5) that] IH [of "''anyOf''"] by auto
  then show ?thesis
    using assms(2) none by (subst strict_node.simps)
      (simp add: schema_children_def schema_definitions_def entries_def elements_def list_all_iff Shape_union(2))
next
  case (Shape_object props base defs)
  have none: "map_of out ''$ref'' = None" "map_of out ''anyOf'' = None" "map_of out ''items'' = None"
    using Shape_object(1-3) by (simp_all add: map_of_eq_None_iff)
  have m: "map_of base = (map_of out)(''properties'' \<mapsto> JObj props, ''required'' \<mapsto> JArr (map (JStr \<circ> fst) props))"
    by (simp add: Shape_object(8))
  have props: "strict_node v" if "(k, v) \<in> set props" for k v
    using converted_entries_image [OF Shape_object(7) that] IH [of "''properties''"] by auto
  have defs: "strict_node v" if "v \<in> set (schema_definitions final)" for v
  proof (cases "has ''$defs'' out")
    case True
    with Shape_object(9) that obtain k where "(k, v) \<in> set defs" "converted_entries (entries (map_of out ''$defs'')) = Inr defs"
      by (auto simp: schema_definitions_def entries_def)
    then show ?thesis using converted_entries_image IH [of "''$defs''"] by blast
  next
    case False
    with Shape_object(9) that show ?thesis
      by (simp add: schema_definitions_def entries_def m map_of_eq_None_iff [THEN iffD2] split: option.splits)
  qed
  have mf: "map_of final k = map_of base k" if "k \<noteq> ''$defs''" for k
    using Shape_object(9) that by (auto split: if_splits)
  show ?thesis
    using assms(2) props defs by (subst strict_node.simps)
      (auto simp: schema_children_def mf m none Shape_object(5,6) list_all_iff entries_def elements_def is_dict_def)
next
  case (Shape_array item item')
  have none: "map_of out ''anyOf'' = None" "map_of out ''$defs'' = None" "map_of out ''properties'' = None"
    using Shape_array(4,5,7) by (simp_all add: map_of_eq_None_iff)
  have "strict_node item'" using Shape_array(11,12) by (intro IH [of "''items''" item]) simp_all
  then show ?thesis
    using assms(2) by (subst strict_node.simps)
      (simp add: schema_children_def schema_definitions_def none Shape_array(2,10) entries_def elements_def)
next
  case (Shape_scalar k)
  have none: "map_of out ''anyOf'' = None" "map_of out ''$defs'' = None" "map_of out ''properties'' = None"
      "map_of out ''items'' = None"
    using Shape_scalar(4-7) by (simp_all add: map_of_eq_None_iff)
  have "k \<noteq> ''object''" using Shape_scalar(11) not_scalar by auto
  then show ?thesis
    using assms(2) by (subst strict_node.simps)
      (simp add: schema_children_def schema_definitions_def none Shape_scalar(2,10) entries_def elements_def)
qed
lemma convert_strict: "convert outer node = Inr r \<Longrightarrow> strict_node r"
proof (induction node arbitrary: outer r rule: measure_induct_rule [of size])
  case (less node)
  from less.prems obtain d out where d: "node = JObj d" "singleton_enum (kept_entries d) = Inr out" "normal out"
      "convert_out outer out = Inr r" by (rule convert_InrD)
  obtain final where f: "r = JObj final" "converted_shape outer out final" using convert_out_shape [OF d(4)] by blast
  have child: "size v < size node" if "k \<noteq> ''enum''"
      and "v \<in> set (elements (map_of out k)) \<or> (\<exists>p. (p, v) \<in> set (entries (map_of out k))) \<or> map_of out k = Some v" for k v
    using that size_kept_element [OF d(2)] size_kept_entry [OF d(2)] size_kept_lookup [OF d(2)] d(1) by auto
  have "normal final"
    by (rule converted_fixed [OF f(2) _ d(3), THEN conjunct1]) (use d(4) f(1) convert_idem in auto)
  then show ?case unfolding f(1)
    by (rule strict_shape [OF f(2)]) (use child less.IH in blast)
qed

section \<open>Generation contracts\<close>

datatype structured_mode = Prompt_mode | Json_object_mode | Json_schema_mode

datatype output_parameter = Max_tokens | Max_completion_tokens

record capability_profile =
  cp_version :: string
  cp_context_tokens :: int
  cp_max_output_tokens :: int
  cp_overhead_tokens :: int
  cp_safety_tokens :: int
  cp_structured_output :: structured_mode
  cp_output_parameter :: output_parameter
  cp_streaming :: bool
  cp_usage_reporting :: bool
  cp_temperature :: "rat option"
  cp_response_models :: "string list"
  cp_reasoning_effort :: "string option"
  cp_schema_profile :: "string option"

definition azure_profile :: string where
  "azure_profile = ''azure-strict/1''"

definition reasoning_efforts :: "string list" where
  "reasoning_efforts = [''none'', ''minimal'', ''low'', ''medium'', ''high'', ''xhigh'']"

definition capability_valid :: "capability_profile \<Rightarrow> bool" where
  "capability_valid c \<longleftrightarrow> token_text 128 (cp_version c) \<and> 0 < cp_context_tokens c \<and> 0 < cp_max_output_tokens c
     \<and> 0 \<le> cp_overhead_tokens c \<and> 0 \<le> cp_safety_tokens c
     \<and> (case cp_temperature c of None \<Rightarrow> True | Some t \<Rightarrow> 0 \<le> t \<and> t \<le> 2)
     \<and> (case cp_reasoning_effort c of None \<Rightarrow> True | Some e \<Rightarrow> e \<in> set reasoning_efforts)
     \<and> (case cp_schema_profile c of None \<Rightarrow> True
        | Some p \<Rightarrow> p = azure_profile \<and> cp_structured_output c = Json_schema_mode)"

text \<open>The dump of a profile: the two options that came later are left out when they are unset.\<close>

fun structured_mode_value :: "structured_mode \<Rightarrow> string" where
  "structured_mode_value Prompt_mode = ''prompt''"
| "structured_mode_value Json_object_mode = ''json_object''"
| "structured_mode_value Json_schema_mode = ''json_schema''"

fun output_parameter_value :: "output_parameter \<Rightarrow> string" where
  "output_parameter_value Max_tokens = ''max_tokens''"
| "output_parameter_value Max_completion_tokens = ''max_completion_tokens''"

definition capability_json :: "capability_profile \<Rightarrow> json" where
  "capability_json c = JObj
    ([(''version'', JStr (cp_version c)), (''context_tokens'', JInt (cp_context_tokens c)),
      (''max_output_tokens'', JInt (cp_max_output_tokens c)), (''overhead_tokens'', JInt (cp_overhead_tokens c)),
      (''safety_tokens'', JInt (cp_safety_tokens c)),
      (''structured_output'', JStr (structured_mode_value (cp_structured_output c))),
      (''output_parameter'', JStr (output_parameter_value (cp_output_parameter c))),
      (''streaming'', JBool (cp_streaming c)), (''usage_reporting'', JBool (cp_usage_reporting c)),
      (''temperature'', case cp_temperature c of None \<Rightarrow> JNull | Some t \<Rightarrow> JFloat t),
      (''response_models'', JArr (map JStr (cp_response_models c)))]
     @ (case cp_reasoning_effort c of None \<Rightarrow> [] | Some e \<Rightarrow> [(''reasoning_effort'', JStr e)])
     @ (case cp_schema_profile c of None \<Rightarrow> [] | Some p \<Rightarrow> [(''schema_profile'', JStr p)]))"

record provider_result_metadata =
  rm_finish_reason :: "string option"
  rm_prompt_tokens :: "int option"
  rm_completion_tokens :: "int option"
  rm_total_tokens :: "int option"
  rm_reasoning_tokens :: "int option"
  rm_raw_response_byte_count :: "int option"
  rm_completion_token_limit :: "int option"
  rm_response_byte_limit :: "int option"

definition evidence_numeric :: "int option \<Rightarrow> json" where
  "evidence_numeric v = (case v of Some n \<Rightarrow> if 0 \<le> n \<and> n \<le> 2 ^ 63 - 1 then JInt n else JNull | None \<Rightarrow> JNull)"

definition metadata_evidence :: "provider_result_metadata \<Rightarrow> json" where
  "metadata_evidence m = JObj
    [(''finish_reason'', case rm_finish_reason m of None \<Rightarrow> JNull
        | Some r \<Rightarrow> if r \<in> {''stop'', ''length'', ''max_tokens''} then JStr r else JStr ''other''),
     (''prompt_tokens'', evidence_numeric (rm_prompt_tokens m)),
     (''completion_tokens'', evidence_numeric (rm_completion_tokens m)),
     (''total_tokens'', evidence_numeric (rm_total_tokens m)),
     (''reasoning_tokens'', evidence_numeric (rm_reasoning_tokens m)),
     (''raw_response_byte_count'', evidence_numeric (rm_raw_response_byte_count m)),
     (''completion_token_limit'', evidence_numeric (rm_completion_token_limit m)),
     (''response_byte_limit'', evidence_numeric (rm_response_byte_limit m))]"

definition generation_schema_for_capability :: "capability_profile \<Rightarrow> json \<Rightarrow> inference_error + json" where
  "generation_schema_for_capability c schema = (case cp_schema_profile c of
      None \<Rightarrow> Inr schema
    | Some p \<Rightarrow>
        if p \<noteq> azure_profile \<or> cp_structured_output c \<noteq> Json_schema_mode then schema_fail
        else provider_schema schema)"

definition validate_schema_provider :: "capability_profile \<Rightarrow> string \<Rightarrow> inference_error + unit" where
  "validate_schema_provider c provider_name =
     (if cp_schema_profile c \<noteq> None \<and> provider_name \<noteq> ''openai_compatible'' then schema_fail else Inr ())"

section \<open>Properties\<close>

definition root_definitions :: "json \<Rightarrow> (string \<times> json) list" where
  "root_definitions r = (case r of JObj d \<Rightarrow> entries (map_of d ''$defs'') | _ \<Rightarrow> [])"

lemma provider_schema_InrD:
  assumes "provider_schema s = Inr r"
  shows "convert True s = Inr r \<and> count_properties r \<le> 100 \<and> (\<exists>u. schema_depth (root_definitions r) r (- 1) [] = Inr u)"
  using assms by (auto simp: provider_schema_def txn_simps Let_def root_definitions_def)

text \<open>C37: A converted schema is in the strict subset: only keywords of the subset occur at any depth, every
  object is closed and requires all of its properties, there are at most 100 properties, and every walk
  through it, references followed, meets at most six containers, so that no reference is part of a cycle
  through a container.\<close>

theorem provider_schema_strict:
  assumes "provider_schema s = Inr r"
  shows "strict_node r \<and> count_properties r \<le> 100 \<and> (\<forall>n. schema_walk (root_definitions r) r n \<longrightarrow> n \<le> 6)"
proof -
  from provider_schema_InrD [OF assms] obtain u where c: "convert True s = Inr r" "count_properties r \<le> 100"
      "schema_depth (root_definitions r) r (- 1) [] = Inr u" by blast
  have "n \<le> 6" if "schema_walk (root_definitions r) r n" for n
    using schema_depth_bounds [OF that c(3)] by simp
  with convert_strict [OF c(1)] c(2) show ?thesis by blast
qed

text \<open>The conversion is idempotent: a schema that came out of it is accepted and returned unchanged, entry by
  entry and in the same order.\<close>

theorem provider_schema_idempotent:
  assumes "provider_schema s = Inr r"
  shows "provider_schema r = Inr r"
proof -
  have "convert True s = Inr r" using provider_schema_InrD [OF assms] by blast
  moreover from this have "convert True r = Inr r" by (rule convert_idem)
  ultimately show ?thesis using assms by (simp add: provider_schema_def)
qed

definition sample_schema :: json where
  "sample_schema = JObj [(''type'', JStr ''object''), (''title'', JStr ''T''), (''additionalProperties'', JBool False),
     (''properties'', JObj [(''id'', JObj [(''type'', JStr ''string''), (''format'', JStr ''uuid'')]),
        (''kind'', JObj [(''const'', JStr ''fact''), (''type'', JStr ''string'')]),
        (''link'', JObj [(''$ref'', JStr ''#/$defs/L'')])]),
     (''$defs'', JObj [(''L'', JObj [(''type'', JStr ''array''), (''items'', JObj [(''type'', JStr ''integer'')])])])]"

definition sample_strict_schema :: json where
  "sample_strict_schema = JObj [(''type'', JStr ''object''), (''additionalProperties'', JBool False),
     (''properties'', JObj [(''id'', JObj [(''type'', JStr ''string'')]),
        (''kind'', JObj [(''type'', JStr ''string''), (''enum'', JArr [JStr ''fact''])]),
        (''link'', JObj [(''$ref'', JStr ''#/$defs/L'')])]),
     (''$defs'', JObj [(''L'', JObj [(''type'', JStr ''array''), (''items'', JObj [(''type'', JStr ''integer'')])])]),
     (''required'', JArr [JStr ''id'', JStr ''kind'', JStr ''link''])]"

lemma sample_schema_converts: "provider_schema sample_schema = Inr sample_strict_schema"
  by code_simp

theorem provider_schema_strict_witness: "strict_node sample_strict_schema \<and> count_properties sample_strict_schema \<le> 100"
  using provider_schema_strict [OF sample_schema_converts] by blast

theorem provider_schema_idempotent_witness: "provider_schema sample_strict_schema = Inr sample_strict_schema"
  using provider_schema_idempotent [OF sample_schema_converts] .

end
