(* ===== verification/Execution.thy ===== *)
theory Execution
  imports GovernanceTheorems AuthorityTheorems ProviderSchema
begin

text \<open>
  Governed execution (governance/execution.py): one inference call composed of the authorization
  snapshot, the governance ledger and the shared provider admission. The provider is an argument:
  its name, its model for a role and what its \<^verbatim>\<open>execute\<close> does with a request (a result with usage, or
  an exception, which may carry usage). \<^verbatim>\<open>check_active\<close> is an argument too: the exception it
  raises, if any, at each of its two calls. The request is
  \<^verbatim>\<open>GenerationRequest\<close> (llm/structured.py). The \<^verbatim>\<open>finally\<close> block is \<open>exec_cleanup\<close>.
\<close>

record generation_request =
  gq_system :: "nat list"
  gq_data :: string
  gq_role :: model_role
  gq_capability :: capability_profile
  gq_output_tokens :: int
  gq_response_bytes :: int
  gq_schema :: json
  gq_total_seconds :: rat
  gq_max_envelope_bytes :: "int option"

datatype exec_exn = Exn_security security_error | Exn_governance governance_error | Exn_inference inference_error | Exn_other

fun of_gov :: "gov_exn \<Rightarrow> exec_exn" where
  "of_gov (Gov e) = Exn_governance e"
| "of_gov (Sec e) = Exn_security e"

type_synonym failure_value = "exec_exn \<times> inference_usage option"

record 'r provider =
  pv_name :: string
  pv_model_id :: "model_role \<Rightarrow> string"
  pv_execute :: "generation_request \<Rightarrow> failure_value + ('r \<times> inference_usage option)"

record exec_world =
  xw_authority :: authority
  xw_ledger :: gov_db
  xw_admission :: admission_db

text \<open>What one call is given besides the request: configuration, clock readings and fresh identifiers.\<close>

record exec_context =
  xc_settings :: gov_settings
  xc_quota :: string
  xc_policy :: admission_policy
  xc_now :: "nat \<Rightarrow> rat"
  xc_ticket :: uuid
  xc_provider_ticket :: uuid
  xc_job :: uuid
  xc_step :: uuid
  xc_inactive :: "nat \<Rightarrow> failure_value option"

definition request_estimate :: "prims \<Rightarrow> generation_request \<Rightarrow> int" where
  "request_estimate H q = int (length (canonical H (JObj [(''system'', JText (gq_system q)), (''data'', JStr (gq_data q)),
       (''schema'', gq_schema q)])))
     + cp_overhead_tokens (gq_capability q) + cp_safety_tokens (gq_capability q)"

definition default_identity :: "exec_context \<Rightarrow> 'r provider \<Rightarrow> authorization_snapshot \<Rightarrow> generation_request \<Rightarrow> call_identity" where
  "default_identity C pv s q = \<lparr>ci_scope = scope_identity (p_scope (as_principal s)), ci_job = xc_job C, ci_step = xc_step C,
     ci_attempt = 1, ci_profile = ''interactive/1'', ci_provider = pv_name pv, ci_role = role_value (gq_role q),
     ci_model = pv_model_id pv (gq_role q), ci_capability = cp_version (gq_capability q)\<rparr>"

definition exec_guard ::
  "prims \<Rightarrow> exec_context \<Rightarrow> 'r provider \<Rightarrow> authorization_snapshot \<Rightarrow> generation_request \<Rightarrow> call_identity option
     \<Rightarrow> authority \<Rightarrow> exec_exn + call_identity" where
  "exec_guard H C pv s q identity auth =
     (case revalidate (xc_now C 0) s auth of Inl e \<Rightarrow> Inl (Exn_security e) | Inr _ \<Rightarrow>
      (case xc_inactive C 0 of Some e \<Rightarrow> Inl (fst e) | None \<Rightarrow>
       (let i = (case identity of Some i \<Rightarrow> i | None \<Rightarrow> default_identity C pv s q); cap = gq_capability q;
            est = request_estimate H q
        in if ci_provider i \<noteq> pv_name pv \<or> ci_model i \<noteq> pv_model_id pv (gq_role q) \<or> ci_role i \<noteq> role_value (gq_role q)
              \<or> ci_capability i \<noteq> cp_version cap
           then Inl (Exn_inference InferenceConfigurationError)
           else if gq_output_tokens q \<le> 0 \<or> gq_output_tokens q > cp_max_output_tokens cap
              \<or> est + gq_output_tokens q > cp_context_tokens cap
           then Inl (Exn_inference InferenceConfigurationError)
           else Inr i)))"

text \<open>The outcome text that the admission record keeps for an exception.\<close>

definition exn_outcome :: "failure_value \<Rightarrow> inference_usage option \<times> string" where
  "exn_outcome f = (case fst f of Exn_inference e \<Rightarrow> (snd f, category e) | _ \<Rightarrow> (None, ''unknown''))"

text \<open>The guarded part: the result or the exception, whether the call was started, usage and outcome.\<close>

definition exec_body ::
  "exec_context \<Rightarrow> 'r provider \<Rightarrow> authorization_snapshot \<Rightarrow> generation_request \<Rightarrow> uuid \<Rightarrow> exec_world
     \<Rightarrow> (exec_exn + 'r) \<times> bool \<times> inference_usage option \<times> string \<times> exec_world" where
  "exec_body C pv s q ticket w =
     (case revalidate (xc_now C 3) s (xw_authority w) of
        Inl e \<Rightarrow> (Inl (Exn_security e), False, None, ''unknown'', w)
      | Inr _ \<Rightarrow>
        (case xc_inactive C 1 of
           Some f \<Rightarrow> (Inl (fst f), False, fst (exn_outcome f), snd (exn_outcome f), w)
         | None \<Rightarrow>
           (case transition ticket ADMITTING STARTED (xw_ledger w) of
              Inl e \<Rightarrow> (Inl (of_gov e), False, None, ''unknown'', w)
            | Inr (_, led) \<Rightarrow>
              (let w' = w\<lparr>xw_ledger := led\<rparr>
               in case pv_execute pv q of
                    Inl f \<Rightarrow> (Inl (fst f), True, fst (exn_outcome f), snd (exn_outcome f), w')
                  | Inr (r, u) \<Rightarrow> (Inr r, True, u, ''success'', w')))))"

definition exec_cleanup ::
  "exec_context \<Rightarrow> uuid \<Rightarrow> uuid \<Rightarrow> bool \<Rightarrow> inference_usage option \<Rightarrow> string \<Rightarrow> exec_world \<Rightarrow> exec_exn option \<times> exec_world" where
  "exec_cleanup C ticket provider_ticket started usage outcome w =
     (let (c1, led) = (case (if started then settle (xc_settings C) ticket usage (xw_ledger w)
                             else transition ticket ADMITTING RELEASED (xw_ledger w)) of
                         Inl e \<Rightarrow> (Some (of_gov e), xw_ledger w) | Inr (_, led) \<Rightarrow> (None, led));
          (c2, adm) = (case finish (xc_quota C) provider_ticket usage outcome (xw_admission w) of
                         Inl e \<Rightarrow> (Some (Exn_inference e), xw_admission w) | Inr (_, adm) \<Rightarrow> (None, adm))
      in (if c1 = None then c2 else c1, w\<lparr>xw_ledger := led, xw_admission := adm\<rparr>))"

text \<open>The result, whether the original exception was marked \<^verbatim>\<open>accounting_failed\<close>, and the new state.\<close>

definition execute_call ::
  "prims \<Rightarrow> exec_context \<Rightarrow> 'r provider \<Rightarrow> authorization_snapshot \<Rightarrow> generation_request \<Rightarrow> call_identity option \<Rightarrow> string
     \<Rightarrow> exec_world \<Rightarrow> (exec_exn + 'r) \<times> bool \<times> exec_world" where
  "execute_call H C pv s q identity workload w =
     (case exec_guard H C pv s q identity (xw_authority w) of Inl e \<Rightarrow> (Inl e, False, w) | Inr i \<Rightarrow>
      (case reserve H (xc_settings C) (xc_now C 1) (xc_ticket C) (as_principal s) i (request_estimate H q) (gq_output_tokens q)
              workload (xw_ledger w) of
         (Inl e, led) \<Rightarrow> (Inl (of_gov e), False, w\<lparr>xw_ledger := led\<rparr>)
       | (Inr ticket, led) \<Rightarrow>
         (case transition ticket RESERVED ADMITTING led of
            Inl e \<Rightarrow> (Inl (of_gov e), False, w\<lparr>xw_ledger := led\<rparr>)
          | Inr (_, led2) \<Rightarrow>
            (case acquire (xc_quota C) (xc_policy C) (xc_now C 2) (xc_provider_ticket C) i (request_estimate H q)
                    (gq_output_tokens q) workload (xw_admission w) of
               Inl e \<Rightarrow>
                 (case transition ticket ADMITTING RELEASED led2 of
                    Inl e' \<Rightarrow> (Inl (of_gov e'), False, w\<lparr>xw_ledger := led2\<rparr>)
                  | Inr (_, led3) \<Rightarrow> (Inl (Exn_inference e), False, w\<lparr>xw_ledger := led3\<rparr>))
             | Inr (provider_ticket, adm) \<Rightarrow>
                 (let (res, started, usage, outcome, w1) = exec_body C pv s q ticket (w\<lparr>xw_ledger := led2, xw_admission := adm\<rparr>);
                      (cleanup, w2) = exec_cleanup C ticket provider_ticket started usage outcome w1
                  in case (cleanup, res) of
                       (None, _) \<Rightarrow> (res, False, w2)
                     | (Some e, Inl primary) \<Rightarrow> (Inl primary, True, w2)
                     | (Some e, Inr r) \<Rightarrow> (Inl e, False, w2))))))"

section \<open>Transitions that must succeed\<close>

definition set_state :: "uuid \<Rightarrow> reservation_state \<Rightarrow> gov_db \<Rightarrow> gov_db" where
  "set_state t a db = db\<lparr>gv_reservations := upd_where (\<lambda>r. rv_ticket r = t) (\<lambda>r. r\<lparr>rv_state := a\<rparr>) (gv_reservations db)\<rparr>"

lemma transition_iff:
  assumes inv: "gov_inv db" and row: "find_ticket t db = Some r"
    and ok: "(b, a) \<in> {(RESERVED, ADMITTING), (ADMITTING, STARTED), (ADMITTING, RELEASED)}"
  shows "transition t b a db = (if rv_state r = b then Inr ((), set_state t a db) else Inl (Gov Reservation_conflict))"
proof -
  note mem = find_ticket_member [OF inv row]
  have eq: "rv_ticket x = t \<and> rv_state x = b \<longleftrightarrow> x = r \<and> rv_state r = b" if "x \<in> set (gv_reservations db)" for x
    using mem that by blast
  have "filter (\<lambda>x. rv_ticket x = t \<and> rv_state x = b) (gv_reservations db)
      = (if rv_state r = b then filter (\<lambda>x. x = r) (gv_reservations db) else [])"
    using eq by (auto intro: filter_cong simp: filter_empty_conv)
  moreover have "distinct (gv_reservations db)" using gov_inv_rows(1) [OF inv] by (simp add: distinct_map)
  then have "length (filter (\<lambda>x. x = r) (gv_reservations db)) = 1"
    using mem(1) by (simp add: distinct_length_filter Int_absorb2 Collect_conv_if)
  moreover have "rv_state r = b \<Longrightarrow> upd_where (\<lambda>x. rv_ticket x = t \<and> rv_state x = b) f (gv_reservations db)
      = upd_where (\<lambda>x. rv_ticket x = t) f (gv_reservations db)" for f
    using mem(3) by (intro upd_where_cong) blast+
  ultimately show ?thesis using ok by (auto simp: transition_def set_state_def)
qed

lemma find_ticket_set_state:
  "find_ticket t (set_state t a db) = map_option (\<lambda>r. r\<lparr>rv_state := a\<rparr>) (find_ticket t db)"
  by (simp add: find_ticket_def set_state_def find_upd_self)

lemma set_state_rows:
  assumes "x \<in> set (gv_reservations (set_state t a db))"
  shows "x \<in> set (gv_reservations db) \<and> rv_ticket x \<noteq> t \<or> rv_ticket x = t \<and> rv_state x = a"
  using assms by (auto simp: set_state_def set_upd_where)

lemma reserve_ticket:
  assumes inv: "gov_inv db" and res: "reserve H st now fresh p i ein rout workload db = (Inr t, led)"
  shows "gov_inv led"
    and "\<exists>r. find_ticket t led = Some r \<and> rv_provider r = ci_provider i \<and> rv_model r = ci_model i
      \<and> (led = db \<or> rv_state r = RESERVED)"
    and "x \<in> set (gv_reservations led) \<Longrightarrow> rv_ticket x \<noteq> t \<Longrightarrow> x \<in> set (gv_reservations db)"
    and "\<exists>pr. catalog_price (gs_catalog st) (ci_provider i) (ci_model i) = Inr pr"
proof -
  obtain c where c: "reserve_guard H st now p i ein rout workload = Inr c"
    using res by (cases "reserve_guard H st now p i ein rout workload") (auto simp: reserve_def)
  show "\<exists>pr. catalog_price (gs_catalog st) (ci_provider i) (ci_model i) = Inr pr"
    using reserve_guardD(6) [OF c] by blast
  show inv': "gov_inv led" using inv reserve_moves [of db H st now fresh p i ein rout workload] res
    by (auto dest: gov_moves_inv)
  from res show "\<exists>r. find_ticket t led = Some r \<and> rv_provider r = ci_provider i \<and> rv_model r = ci_model i
      \<and> (led = db \<or> rv_state r = RESERVED)"
  proof (cases rule: reserve_cases)
    case unchanged
    then obtain r where r: "find_identity (p_scope p) (identity_key i) db = Some r" "rv_identity r = i" "rv_ticket r = t"
      using res c by (auto simp: reserve_def current_policy_def guard_def gov_log_def Let_def
          split: option.splits if_splits sum.splits prod.splits dest: arg_cong [of _ _ gv_events])
    then have mem: "r \<in> set (gv_reservations db)" using find_SomeD by (fastforce simp: find_identity_def)
    then have "find_ticket t db = Some r"
      using find_key_unique [OF gov_inv_rows(1) [OF inv] mem, of t "\<lambda>_. True"] r(3) by (simp add: find_ticket_def)
    then show ?thesis using unchanged r(2) gov_inv_rows(3) [OF inv mem] by (auto simp: row_ok_def)
  next
    case (granted c v own ten es)
    then have "find_ticket t led = Some (reservation_row st now fresh (p_scope p) v i ein rout workload c)"
      by (auto simp: find_ticket_def find_append_table reservation_row_def find_None_iff split: option.splits dest!: find_SomeD)
    then show ?thesis by (simp add: reservation_row_def)
  qed simp
  assume x: "x \<in> set (gv_reservations led)" "rv_ticket x \<noteq> t"
  from res show "x \<in> set (gv_reservations db)"
    by (cases rule: reserve_cases) (use x in \<open>auto simp: reservation_row_def\<close>)
qed

lemma upd_where_member: "x \<in> set (upd_where U f rs) \<Longrightarrow> \<exists>y \<in> set rs. x = (if U y then f y else y)"
  by (auto simp: set_upd_where)

lemma settle_started:
  assumes inv: "gov_inv db" and row: "find_ticket t db = Some r" "rv_state r = STARTED"
    and ok: "count_valid (fst (usage_counts u))" "count_valid (snd (usage_counts u))"
    and price: "catalog_price (gs_catalog st) (rv_provider r) (rv_model r) = Inr pr"
  shows "\<exists>db'. settle st t u db = Inr ((), db')
    \<and> (\<forall>x \<in> set (gv_reservations db'). x \<in> set (gv_reservations db) \<and> rv_ticket x \<noteq> t \<or> \<not> row_active x)"
proof -
  obtain a b where ab: "usage_counts u = (a, b)" by fastforce
  obtain c where c: "(case (a, b) of (Some x, Some y) \<Rightarrow> sbind (catalog_price (gs_catalog st) (rv_provider r) (rv_model r))
      (\<lambda>pr. Inr (Some (cost pr x y))) | _ \<Rightarrow> Inr None) = (Inr c :: gov_exn + rat option)"
    using price by (cases a; cases b) auto
  let ?st = "if c = None then UNKNOWN else SETTLED"
  let ?f = "\<lambda>r. r\<lparr>rv_actual_input := a, rv_actual_output := b, rv_actual_cost := c, rv_state := ?st\<rparr>"
  let ?db' = "db\<lparr>gv_reservations := upd_where (\<lambda>r. rv_ticket r = t) ?f (gv_reservations db)\<rparr>"
  have ok': "count_valid a \<and> count_valid b" using ok ab by simp
  have "settle st t u db = Inr ((), ?db')"
    unfolding settle_def ab Let_def prod.case row(1) option.case row(2)
    using ok' by (simp only: c [unfolded prod.case] sbind_simps) simp
  moreover have "x \<in> set (gv_reservations db) \<and> rv_ticket x \<noteq> t \<or> \<not> row_active x" if "x \<in> set (gv_reservations ?db')" for x
  proof -
    have "x \<in> set (upd_where (\<lambda>r. rv_ticket r = t) ?f (gv_reservations db))" using that by simp
    from upd_where_member [OF this] obtain y where y: "y \<in> set (gv_reservations db)" "x = (if rv_ticket y = t then ?f y else y)"
      by blast
    show ?thesis
    proof (cases "rv_ticket y = t")
      case True
      then have "rv_state x = ?st" unfolding y(2) by simp
      then show ?thesis by (simp add: row_active_def)
    next
      case False
      then show ?thesis using y by (simp only: if_False simp_thms)
    qed
  qed
  ultimately show ?thesis by blast
qed

lemma finish_acquired:
  assumes acq: "acquire q p now pt i ein rout workload db = Inr (t, db1)"
  shows "\<exists>db'. finish q t u out db1 = Inr ((), db')
    \<and> (\<forall>x \<in> set (inference_calls db'). ic_active x \<longrightarrow> x \<in> set (inference_calls db))"
  using acq
proof (cases rule: acquire_cases)
  case 1
  let ?c = "call_row q now pt i ein rout workload"
  have none: "find (\<lambda>r. ic_ticket r = pt \<and> ic_quota r = q) (inference_calls db) = None"
    using 1(7) by (auto simp: find_None_iff)
  have c: "ic_ticket ?c = pt" "ic_quota ?c = q" "ic_active ?c" by (simp_all add: call_row_def)
  have "find (\<lambda>r. ic_ticket r = t \<and> ic_quota r = q) (inference_calls db1) = Some ?c"
    using none 1(1,2) c by (simp add: find_append_table)
  then obtain m db' where fin: "finish q t u out db1 = Inr ((), db')"
    and db': "inference_calls db' = upd_where (\<lambda>r. ic_ticket r = t) (closed_call u m) (inference_calls db1)"
    using c(3) by (simp add: finish_def Let_def closed_call_def [abs_def])
  have "x \<in> set (inference_calls db)" if "x \<in> set (inference_calls db')" "ic_active x" for x
  proof -
    from upd_where_member [OF that(1) [unfolded db']] obtain y
      where y: "y \<in> set (inference_calls db1)" "x = (if ic_ticket y = t then closed_call u m y else y)" by blast
    then have "x = y \<and> ic_ticket y \<noteq> t" using that(2) by (cases "ic_ticket y = t") simp_all
    with y(1) show ?thesis using 1(1,2) c(1) by auto
  qed
  with fin show ?thesis by blast
qed

section \<open>The guarded part and the cleanup\<close>

definition usage_ok :: "inference_usage option \<Rightarrow> bool" where
  "usage_ok u \<longleftrightarrow> count_valid (fst (usage_counts u)) \<and> count_valid (snd (usage_counts u))"

definition provider_usage_ok :: "'r provider \<Rightarrow> generation_request \<Rightarrow> bool" where
  "provider_usage_ok pv q \<longleftrightarrow> (case pv_execute pv q of Inl f \<Rightarrow> usage_ok (snd f) | Inr (r, u) \<Rightarrow> usage_ok u)"

lemma exec_body_cases:
  assumes inv: "gov_inv (xw_ledger w)" and row: "find_ticket t (xw_ledger w) = Some r" "rv_state r = ADMITTING"
    and body: "exec_body C pv s q t w = (res, started, u, out, w1)"
  shows "xw_admission w1 = xw_admission w"
    and "started \<Longrightarrow> xw_ledger w1 = set_state t STARTED (xw_ledger w) \<and> (provider_usage_ok pv q \<longrightarrow> usage_ok u)"
    and "\<not> started \<Longrightarrow> xw_ledger w1 = xw_ledger w \<and> (\<exists>e. res = Inl e)"
    and "res = Inr x \<Longrightarrow> revalidate (xc_now C 3) s (xw_authority w) = Inr ()"
proof -
  have tr: "transition t ADMITTING STARTED (xw_ledger w) = Inr ((), set_state t STARTED (xw_ledger w))"
    using transition_iff [OF inv row(1), of ADMITTING STARTED] row(2) by simp
  have none: "usage_ok None" by (simp add: usage_ok_def usage_counts_def count_valid_def)
  have out: "usage_ok (fst (exn_outcome f))" if "usage_ok (snd f)" for f
    using that none by (auto simp: exn_outcome_def split: exec_exn.splits)
  note b = body [unfolded exec_body_def tr sum.case prod.case Let_def]
  show "xw_admission w1 = xw_admission w" "started \<Longrightarrow> xw_ledger w1 = set_state t STARTED (xw_ledger w) \<and> (provider_usage_ok pv q \<longrightarrow> usage_ok u)"
    "\<not> started \<Longrightarrow> xw_ledger w1 = xw_ledger w \<and> (\<exists>e. res = Inl e)"
    "res = Inr x \<Longrightarrow> revalidate (xc_now C 3) s (xw_authority w) = Inr ()"
    using b out by (auto simp: provider_usage_ok_def split: sum.splits option.splits prod.splits)
qed

text \<open>The cleanup always closes the provider slot. It closes the reservation too, unless the counts of a started call are out of range:
  then the reservation stays as it is and the cleanup reports the conflict.\<close>

definition row_closed :: "uuid \<Rightarrow> gov_db \<Rightarrow> gov_db \<Rightarrow> bool" where
  "row_closed t db db' \<longleftrightarrow> (\<forall>x \<in> set (gv_reservations db'). x \<in> set (gv_reservations db) \<and> rv_ticket x \<noteq> t \<or> \<not> row_active x)"

lemma exec_cleanup_cases:
  assumes inv: "gov_inv (xw_ledger w)" and row: "find_ticket t (xw_ledger w) = Some r"
    and st: "rv_state r = (if started then STARTED else ADMITTING)"
    and price: "catalog_price (gs_catalog (xc_settings C)) (rv_provider r) (rv_model r) = Inr pr"
    and acq: "acquire (xc_quota C) p now pt0 i ein rout workload adm = Inr (pt, xw_admission w)"
  shows "\<exists>c w'. exec_cleanup C t pt started u out w = (c, w')
    \<and> (\<forall>c \<in> set (inference_calls (xw_admission w')). ic_active c \<longrightarrow> c \<in> set (inference_calls adm))
    \<and> (if started \<and> \<not> usage_ok u then c = Some (Exn_governance Reservation_conflict) \<and> xw_ledger w' = xw_ledger w
       else c = None \<and> row_closed t (xw_ledger w) (xw_ledger w'))"
proof -
  obtain adm' where fin: "finish (xc_quota C) pt u out (xw_admission w) = Inr ((), adm')"
    "\<forall>c \<in> set (inference_calls adm'). ic_active c \<longrightarrow> c \<in> set (inference_calls adm)"
    using finish_acquired [OF acq, of u out] by blast
  consider (bad) "started" "\<not> usage_ok u" | (good) led where "\<not> (started \<and> \<not> usage_ok u)"
      "(if started then settle (xc_settings C) t u (xw_ledger w) else transition t ADMITTING RELEASED (xw_ledger w)) = Inr ((), led)"
      "row_closed t (xw_ledger w) led"
  proof (cases started)
    case True
    then show thesis using that settle_started [OF inv row _ _ _ price, of u] st by (fastforce simp: usage_ok_def row_closed_def)
  next
    case False
    have "transition t ADMITTING RELEASED (xw_ledger w) = Inr ((), set_state t RELEASED (xw_ledger w))"
      using transition_iff [OF inv row, of ADMITTING RELEASED] st False by simp
    moreover have "row_closed t (xw_ledger w) (set_state t RELEASED (xw_ledger w))"
      unfolding row_closed_def using set_state_rows by (fastforce simp: row_active_def)
    ultimately show thesis using False that(2) by simp
  qed
  then show ?thesis
  proof cases
    case bad
    then have "settle (xc_settings C) t u (xw_ledger w) = Inl (Gov Reservation_conflict)"
      by (auto simp: settle_def usage_ok_def split: prod.splits)
    then show ?thesis using bad fin by (simp add: exec_cleanup_def)
  next
    case good
    then show ?thesis using fin by (auto simp: exec_cleanup_def)
  qed
qed

text \<open>What the guarded part and the cleanup leave of the reservation \<open>t\<close>: nothing, or, when the provider reports counts out of range, the
  started row, with the conflict as the error of the cleanup.\<close>

lemma exec_tail:
  assumes inv: "gov_inv (xw_ledger w)" and row: "find_ticket t (xw_ledger w) = Some r" "rv_state r = ADMITTING"
    and price: "catalog_price (gs_catalog (xc_settings C)) (rv_provider r) (rv_model r) = Inr pr"
    and acq: "acquire (xc_quota C) p now pt0 i ein rout workload adm = Inr (pt, xw_admission w)"
  shows "\<exists>res started u out w1 c w2. exec_body C pv s q t w = (res, started, u, out, w1)
    \<and> exec_cleanup C t pt started u out w1 = (c, w2)
    \<and> (\<forall>c \<in> set (inference_calls (xw_admission w2)). ic_active c \<longrightarrow> c \<in> set (inference_calls adm))
    \<and> (\<forall>x. res = Inr x \<longrightarrow> revalidate (xc_now C 3) s (xw_authority w) = Inr ())
    \<and> (c = None \<and> row_closed t (xw_ledger w) (xw_ledger w2)
      \<or> c = Some (Exn_governance Reservation_conflict) \<and> \<not> provider_usage_ok pv q \<and> xw_ledger w2 = set_state t STARTED (xw_ledger w))"
proof -
  obtain res started u out w1 where body: "exec_body C pv s q t w = (res, started, u, out, w1)" by (metis prod_cases5)
  note bc = exec_body_cases [OF inv row body]
  have led: "xw_ledger w1 = (if started then set_state t STARTED (xw_ledger w) else xw_ledger w)" using bc(2,3) by auto
  have inv1: "gov_inv (xw_ledger w1)"
    using led inv transition_iff [OF inv row(1), of ADMITTING STARTED] row(2) transition_move [OF _ inv] gov_move_inv by fastforce
  obtain r1 where r1: "find_ticket t (xw_ledger w1) = Some r1" "rv_state r1 = (if started then STARTED else ADMITTING)"
    "rv_provider r1 = rv_provider r" "rv_model r1 = rv_model r"
    using led row by (cases started) (auto simp: find_ticket_set_state)
  obtain c w2 where w2: "exec_cleanup C t pt started u out w1 = (c, w2)"
    "\<forall>c \<in> set (inference_calls (xw_admission w2)). ic_active c \<longrightarrow> c \<in> set (inference_calls adm)"
    "if started \<and> \<not> usage_ok u then c = Some (Exn_governance Reservation_conflict) \<and> xw_ledger w2 = xw_ledger w1
       else c = None \<and> row_closed t (xw_ledger w1) (xw_ledger w2)"
    using exec_cleanup_cases [OF inv1 r1(1,2) _ acq [folded bc(1)], of pr u out] price r1(3,4) by auto
  have old: "x \<in> set (gv_reservations (xw_ledger w))" if "x \<in> set (gv_reservations (xw_ledger w1))" "rv_ticket x \<noteq> t" for x
    using that led set_state_rows by (metis (full_types))
  have "c = None \<and> row_closed t (xw_ledger w) (xw_ledger w2)
      \<or> c = Some (Exn_governance Reservation_conflict) \<and> \<not> provider_usage_ok pv q \<and> xw_ledger w2 = set_state t STARTED (xw_ledger w)"
  proof (cases "started \<and> \<not> usage_ok u")
    case True
    then show ?thesis using w2(3) bc(2) by auto
  next
    case False
    then have c: "c = None" "row_closed t (xw_ledger w1) (xw_ledger w2)" using w2(3) by (simp_all split: if_split_asm)
    have "row_closed t (xw_ledger w) (xw_ledger w2)" using c(2) old unfolding row_closed_def by blast
    then show ?thesis using c(1) by blast
  qed
  then show ?thesis using body w2(1,2) bc(4) by blast
qed

text \<open>C11: A governed call accounts for itself. Whatever the provider does, whether it returns, fails or the authorization is
  withdrawn in between, when \<^verbatim>\<open>execute\<close> ends every provider slot that is still held was there before the call, and so was
  every reservation that is still active, with one exception: when the provider reports a token count outside zero to a thousand
  million, the settlement is refused, and then the reservation stays started, no result is returned, and the caller gets the
  conflict or its own exception marked. A result is returned only when the authorization was valid again right before the provider
  was called and its usage was settled.\<close>

theorem governed_call_accounted:
  assumes reach: "gov_reachable H (xw_ledger w)"
    and call: "execute_call H C pv s q identity workload w = (res, marked, w')"
  shows "(\<forall>c \<in> set (inference_calls (xw_admission w')). ic_active c \<longrightarrow> c \<in> set (inference_calls (xw_admission w)))
    \<and> (\<forall>x \<in> set (gv_reservations (xw_ledger w')). row_active x \<longrightarrow> x \<in> set (gv_reservations (xw_ledger w))
         \<or> rv_state x = STARTED \<and> \<not> provider_usage_ok pv q \<and> (marked \<or> res = Inl (Exn_governance Reservation_conflict)))
    \<and> (marked \<longrightarrow> \<not> provider_usage_ok pv q \<and> (\<exists>e. res = Inl e))
    \<and> (\<forall>r. res = Inr r \<longrightarrow> revalidate (xc_now C 3) s (xw_authority w) = Inr ()
         \<and> (\<forall>x \<in> set (gv_reservations (xw_ledger w')). row_active x \<longrightarrow> x \<in> set (gv_reservations (xw_ledger w))))"
proof (cases "exec_guard H C pv s q identity (xw_authority w)")
  case (Inl e)
  with call show ?thesis by (auto simp: execute_call_def)
next
  case guard: (Inr i)
  have inv: "gov_inv (xw_ledger w)" using reach by (rule governance.reachable_inv)
  note call1 = call [unfolded execute_call_def guard sum.case]
  obtain rr led where rs: "reserve H (xc_settings C) (xc_now C 1) (xc_ticket C) (as_principal s) i (request_estimate H q)
      (gq_output_tokens q) workload (xw_ledger w) = (rr, led)" by fastforce
  show ?thesis
  proof (cases rr)
    case (Inl e)
    have "x \<in> set (gv_reservations (xw_ledger w))" if "x \<in> set (gv_reservations led)" for x
      using rs Inl by (cases rule: reserve_cases) (use that in auto)
    with call1 rs Inl show ?thesis by auto
  next
    case (Inr t)
    note tk = reserve_ticket [OF inv rs [unfolded Inr]]
    obtain r where r: "find_ticket t led = Some r" "rv_provider r = ci_provider i" "rv_model r = ci_model i"
      "led = xw_ledger w \<or> rv_state r = RESERVED" using tk(2) by blast
    note call2 = call1 [unfolded rs Inr prod.case sum.case transition_iff [OF tk(1) r(1), of RESERVED ADMITTING, simplified]]
    show ?thesis
    proof (cases "rv_state r = RESERVED")
      case False
      with call2 r(4) show ?thesis by auto
    next
      case True
      let ?led2 = "set_state t ADMITTING led"
      have inv2: "gov_inv ?led2"
        using transition_iff [OF tk(1) r(1), of RESERVED ADMITTING] True transition_move [OF _ tk(1)] gov_move_inv tk(1)
        by fastforce
      have r2: "find_ticket t ?led2 = Some (r\<lparr>rv_state := ADMITTING\<rparr>)" using r(1) by (simp add: find_ticket_set_state)
      have old: "x \<in> set (gv_reservations (xw_ledger w))" if "x \<in> set (gv_reservations ?led2)" "rv_ticket x \<noteq> t" for x
        using set_state_rows [OF that(1)] that(2) tk(3) by blast
      note call3 = call2 [unfolded if_P [OF True] sum.case prod.case]
      show ?thesis
      proof (cases "acquire (xc_quota C) (xc_policy C) (xc_now C 2) (xc_provider_ticket C) i (request_estimate H q)
                    (gq_output_tokens q) workload (xw_admission w)")
        case (Inl e)
        have "transition t ADMITTING RELEASED ?led2 = Inr ((), set_state t RELEASED ?led2)"
          using transition_iff [OF inv2 r2, of ADMITTING RELEASED] by simp
        with call3 Inl have w': "w' = w\<lparr>xw_ledger := set_state t RELEASED ?led2\<rparr>" "\<not> marked" "res = Inl (Exn_inference e)"
          by auto
        show ?thesis using w' by (auto dest!: set_state_rows dest: tk(3) simp: row_active_def)
      next
        case acq: (Inr pa)
        obtain pt adm where pa: "pa = (pt, adm)" by fastforce
        obtain pr where pr: "catalog_price (gs_catalog (xc_settings C)) (ci_provider i) (ci_model i) = Inr pr" using tk(4) by blast
        let ?w1 = "w\<lparr>xw_ledger := ?led2, xw_admission := adm\<rparr>"
        from exec_tail [of ?w1 t "r\<lparr>rv_state := ADMITTING\<rparr>" C pr "xc_policy C" "xc_now C 2" "xc_provider_ticket C"
            i "request_estimate H q" "gq_output_tokens q" workload "xw_admission w" pt pv s q]
        obtain res1 started u out w1 c w2 where tail: "exec_body C pv s q t ?w1 = (res1, started, u, out, w1)"
          "exec_cleanup C t pt started u out w1 = (c, w2)"
          "\<forall>c \<in> set (inference_calls (xw_admission w2)). ic_active c \<longrightarrow> c \<in> set (inference_calls (xw_admission w))"
          "\<forall>x. res1 = Inr x \<longrightarrow> revalidate (xc_now C 3) s (xw_authority w) = Inr ()"
          "c = None \<and> row_closed t ?led2 (xw_ledger w2)
            \<or> c = Some (Exn_governance Reservation_conflict) \<and> \<not> provider_usage_ok pv q \<and> xw_ledger w2 = set_state t STARTED ?led2"
          using inv2 r2 pr r(2,3) acq pa by auto
        have fin: "w' = w2" "marked \<longleftrightarrow> c \<noteq> None \<and> (\<exists>e. res1 = Inl e)"
            "res = (case (c, res1) of (Some e, Inr x) \<Rightarrow> Inl e | _ \<Rightarrow> res1)"
          using call3 acq pa tail(1,2) by (auto split: option.splits sum.splits)
        from tail(5) show ?thesis
        proof
          assume c: "c = None \<and> row_closed t ?led2 (xw_ledger w2)"
          then have "\<forall>x \<in> set (gv_reservations (xw_ledger w')). row_active x \<longrightarrow> x \<in> set (gv_reservations (xw_ledger w))"
            using old fin(1) by (auto simp: row_closed_def)
          then show ?thesis using c fin tail(3,4) by simp
        next
          assume c: "c = Some (Exn_governance Reservation_conflict) \<and> \<not> provider_usage_ok pv q \<and> xw_ledger w2 = set_state t STARTED ?led2"
          have rows: "\<forall>x \<in> set (gv_reservations (xw_ledger w')). x \<in> set (gv_reservations (xw_ledger w)) \<or> rv_state x = STARTED"
          proof
            fix x assume "x \<in> set (gv_reservations (xw_ledger w'))"
            then have "x \<in> set (gv_reservations (set_state t STARTED ?led2))" unfolding fin(1) using c by (metis (no_types))
            from set_state_rows [OF this] show "x \<in> set (gv_reservations (xw_ledger w)) \<or> rv_state x = STARTED" using old by blast
          qed
          show ?thesis using c fin tail(3) rows by (cases res1) auto
        qed
      qed
    qed
  qed
qed

section \<open>A sample call\<close>

definition sample_provider :: "string provider" where
  "sample_provider = \<lparr>pv_name = ''azure'', pv_model_id = (\<lambda>_. ''m''),
     pv_execute = (\<lambda>q. Inl (Exn_inference InferenceTimeoutError,
       Some \<lparr>prompt_tokens = Some 90, completion_tokens = None, total_tokens = None\<rparr>))\<rparr>"

definition sample_generation :: generation_request where
  "sample_generation = \<lparr>gq_system = [115], gq_data = ''d'', gq_role = GENERAL,
     gq_capability = \<lparr>cp_version = ''c/1'', cp_context_tokens = 1000, cp_max_output_tokens = 300, cp_overhead_tokens = 20,
        cp_safety_tokens = 20, cp_structured_output = Prompt_mode, cp_output_parameter = Max_tokens, cp_streaming = True, cp_usage_reporting = False,
       cp_temperature = None, cp_response_models = [], cp_reasoning_effort = None, cp_schema_profile = None\<rparr>, gq_output_tokens = 200,
     gq_response_bytes = 1000, gq_schema = JNull, gq_total_seconds = 120, gq_max_envelope_bytes = None\<rparr>"

definition sample_snapshot :: authorization_snapshot where
  "sample_snapshot = \<lparr>as_principal = sample_guest, as_principal_epoch = 0, as_documents = [], as_action = DOCUMENT_ANALYZE,
     as_policy_version = ''authorization/1''\<rparr>"

definition sample_context :: exec_context where
  "sample_context = \<lparr>xc_settings = sample_gov_settings, xc_quota = ''q'', xc_policy = sample_policy, xc_now = (\<lambda>_. 0), xc_ticket = 21,
     xc_provider_ticket = 22, xc_job = 23, xc_step = 24, xc_inactive = (\<lambda>_. None)\<rparr>"

definition sample_world :: exec_world where
  "sample_world = \<lparr>xw_authority = sample_shared, 
     xw_ledger = empty_governance\<lparr>gv_configuration := Some (gs_policy sample_gov_settings, gs_catalog sample_gov_settings)\<rparr>, xw_admission = sample_busy\<rparr>"

theorem governed_call_accounted_witness:
  "case execute_call sample_prims sample_context sample_provider sample_snapshot sample_generation None ''INTERACTIVE'' sample_world of
     (res, marked, w') \<Rightarrow> \<not> marked \<and> list_all (\<lambda>x. \<not> row_active x) (gv_reservations (xw_ledger w'))"
proof -
  obtain res marked w' where call: "execute_call sample_prims sample_context sample_provider sample_snapshot sample_generation None
      ''INTERACTIVE'' sample_world = (res, marked, w')" by (metis prod_cases3)
  have reach: "gov_reachable sample_prims (xw_ledger sample_world)"
    using sample_opened_reachable by (simp add: sample_world_def)
  have "provider_usage_ok sample_provider sample_generation"
    by (simp add: provider_usage_ok_def sample_provider_def usage_ok_def usage_counts_def count_valid_def)
  with governed_call_accounted [OF reach call]
  show ?thesis unfolding call by (auto simp: list_all_iff sample_world_def empty_governance_def)
qed

end
