(* ===== verification/Utf8Text.thy ===== *)
theory Utf8Text
  imports TextExtraction
begin

text \<open>
  UTF-8 in the other direction: \<^verbatim>\<open>str.encode('utf-8')\<close> of the responses that analysis and managed synthesis measure and
  parse, with the round trip through the strict decoder of the text extraction.
\<close>

abbreviation line_break :: string where "line_break \<equiv> [CHR 0x0A]"

text \<open>A surrogate has no encoding.\<close>

definition utf8_point :: "nat \<Rightarrow> nat list option" where
  "utf8_point n =
     (if n < 0x80 then Some [n]
      else if n < 0x800 then Some [0xC0 + n div 64, 0x80 + n mod 64]
      else if 0xD800 \<le> n \<and> n \<le> 0xDFFF then None
      else if n < 0x10000 then Some [0xE0 + n div 4096, 0x80 + n div 64 mod 64, 0x80 + n mod 64]
      else if n < 0x110000 then Some [0xF0 + n div 262144, 0x80 + n div 4096 mod 64, 0x80 + n div 64 mod 64, 0x80 + n mod 64]
      else None)"

fun utf8_encode :: "code_points \<Rightarrow> nat list option" where
  "utf8_encode [] = Some []"
| "utf8_encode (n # ns) = (case (utf8_point n, utf8_encode ns) of (Some b, Some bs) \<Rightarrow> Some (b @ bs) | _ \<Rightarrow> None)"

lemma cont_byte_mod [simp]: "cont_byte (0x80 + n mod 64)"
proof -
  have "n mod 64 < 64" by simp
  then show ?thesis unfolding cont_byte_def by linarith
qed

lemma two_bytes:
  assumes "(0x80::nat) \<le> n" and "n < 0x800"
  shows "2 \<le> n div 64" and "n div 64 \<le> 31" and "n div 64 * 64 + n mod 64 = n"
  using assms by (auto simp: less_eq_div_iff_mult_less_eq div_less_iff_less_mult less_Suc_eq_le [symmetric])

lemma three_bytes:
  assumes "(0x800::nat) \<le> n" and "n < 0x10000"
  shows "n div 4096 \<le> 15" and "n div 4096 = 0 \<Longrightarrow> 32 \<le> n div 64 mod 64" and "n div 4096 * 4096 + n div 64 mod 64 * 64 + n mod 64 = n"
    and "n div 4096 = 13 \<Longrightarrow> 32 \<le> n div 64 mod 64 \<Longrightarrow> 0xD800 \<le> n \<and> n \<le> 0xDFFF"
proof -
  have q: "n div 4096 = n div 64 div 64" by (simp add: div_mult2_eq [symmetric])
  have a: "n div 64 * 64 + n mod 64 = n" "n div 64 div 64 * 64 + n div 64 mod 64 = n div 64" by simp_all
  from assms have b: "32 \<le> n div 64" "n div 64 < 1024" by (simp_all add: less_eq_div_iff_mult_less_eq div_less_iff_less_mult)
  have m: "n mod 64 < 64" "n div 64 mod 64 < 64" by simp_all
  show "n div 4096 \<le> 15" "n div 4096 * 4096 + n div 64 mod 64 * 64 + n mod 64 = n" unfolding q using a b by linarith+
  show "n div 4096 = 0 \<Longrightarrow> 32 \<le> n div 64 mod 64" unfolding q using a b by linarith
  show "n div 4096 = 13 \<Longrightarrow> 32 \<le> n div 64 mod 64 \<Longrightarrow> 0xD800 \<le> n \<and> n \<le> 0xDFFF" unfolding q using a m by linarith
qed

lemma four_bytes:
  assumes "(0x10000::nat) \<le> n" and "n < 0x110000"
  shows "n div 262144 \<le> 4" and "n div 262144 = 0 \<Longrightarrow> 16 \<le> n div 4096 mod 64" and "n div 262144 = 4 \<Longrightarrow> n div 4096 mod 64 \<le> 15"
    and "n div 262144 * 262144 + n div 4096 mod 64 * 4096 + n div 64 mod 64 * 64 + n mod 64 = n"
proof -
  have q: "n div 4096 = n div 64 div 64" "n div 262144 = n div 64 div 64 div 64" by (simp_all add: div_mult2_eq [symmetric])
  have a: "n div 64 * 64 + n mod 64 = n" "n div 64 div 64 * 64 + n div 64 mod 64 = n div 64"
    "n div 64 div 64 div 64 * 64 + n div 64 div 64 mod 64 = n div 64 div 64" by simp_all
  from assms have b: "16 \<le> n div 4096" "n div 4096 < 272" by (simp_all add: less_eq_div_iff_mult_less_eq div_less_iff_less_mult)
  have m: "n mod 64 < 64" "n div 64 mod 64 < 64" "n div 64 div 64 mod 64 < 64" by simp_all
  show "n div 262144 \<le> 4" "n div 262144 * 262144 + n div 4096 mod 64 * 4096 + n div 64 mod 64 * 64 + n mod 64 = n"
    unfolding q using a b [unfolded q] m by linarith+
  show "n div 262144 = 0 \<Longrightarrow> 16 \<le> n div 4096 mod 64" "n div 262144 = 4 \<Longrightarrow> n div 4096 mod 64 \<le> 15"
    unfolding q using a b [unfolded q] by linarith+
qed

lemma utf8_point_decode:
  assumes "utf8_point n = Some b"
  shows "utf8_decode (b @ bs) = map_option ((#) n) (utf8_decode bs)"
proof -
  consider "n < 0x80" | "0x80 \<le> n" "n < 0x800" | "0x800 \<le> n" "n < 0x10000" | "0x10000 \<le> n" "n < 0x110000"
    using assms by (fastforce simp: utf8_point_def split: if_splits)
  then show ?thesis
  proof cases
    case 1
    with assms show ?thesis by (auto simp: utf8_point_def)
  next
    case 2
    with assms have "b = [0xC0 + n div 64, 0x80 + n mod 64]" by (simp add: utf8_point_def)
    with two_bytes [OF 2] show ?thesis by simp
  next
    case 3
    with assms have b: "b = [0xE0 + n div 4096, 0x80 + n div 64 mod 64, 0x80 + n mod 64]" and s: "\<not> (0xD800 \<le> n \<and> n \<le> 0xDFFF)"
      by (auto simp: utf8_point_def split: if_splits)
    have "0xE0 + n div 4096 = 0xED \<Longrightarrow> n div 64 mod 64 \<le> 31" using three_bytes(4) [OF 3] s by linarith
    then show ?thesis using three_bytes(1,2,3) [OF 3] unfolding b by simp
  next
    case 4
    with assms have b: "b = [0xF0 + n div 262144, 0x80 + n div 4096 mod 64, 0x80 + n div 64 mod 64, 0x80 + n mod 64]"
      by (auto simp: utf8_point_def split: if_splits)
    show ?thesis using four_bytes [OF 4] unfolding b by simp
  qed
qed

theorem utf8_round_trip: "utf8_encode t = Some bs \<Longrightarrow> utf8_decode bs = Some t"
  by (induction t arbitrary: bs) (auto simp: utf8_point_decode simp del: utf8_decode.simps(2) split: option.splits)

end
