(* ===== verification/AuthorizedServices.thy ===== *)
theory AuthorizedServices
  imports DocumentAnalysis
begin

text \<open>
  The authorized composition of security/services.py: an analysis runs on a snapshot of the authority that is taken before
  it and checked again before its answer is returned, through the governed call; a job is read and cancelled only by a
  principal that may read and delete its document.
\<close>

section \<open>Authorized analysis\<close>

definition set_security :: "authority \<Rightarrow> 'v analysis_world \<Rightarrow> 'v analysis_world" where
  "set_security a w = w\<lparr>nw_publication := (nw_publication w)\<lparr>pw_security := a\<rparr>\<rparr>"

definition run_analysis :: "exec_context \<Rightarrow> (string \<times> ('i, 'v) document_analysis) list \<Rightarrow> (nat \<Rightarrow> rat)
    \<Rightarrow> (nat \<Rightarrow> 'v analysis_world \<Rightarrow> 'v analysis_world) \<Rightarrow> authorization_snapshot \<Rightarrow> analysis_request
    \<Rightarrow> (analysis_error, 'v analysis_world, analysis_answer \<times> authorization_snapshot) effect" where
  "run_analysis C publications clock others s r =
     (let scopes = remdups (map (\<lambda>(d, sc, e). scope_identity sc) (as_documents s)) in
      if length scopes \<noteq> 1 then refuse (Security_failed Mixed_owners)
      else case map_of publications (hd scopes) of None \<Rightarrow> refuse (Security_failed Security_unavailable)
        | Some svc \<Rightarrow>
            if scope_identity (rv_scope (dn_env svc)) \<notin> set scopes then refuse (Security_failed Security_unavailable)
            else wbind (document_analyze svc clock others (Some s) (Some (governed_executor (rv_prims (dn_env svc)) C (dn_provider svc) s)) r) (\<lambda>a.
              wbind (access others 5 (\<lambda>pw. of_security (revalidate (clock 5) s (pw_security pw)))) (\<lambda>_. wlift (Inr (a, s)))))"

definition authorized_analyze :: "nat \<Rightarrow> exec_context \<Rightarrow> (string \<times> ('i, 'v) document_analysis) list \<Rightarrow> (nat \<Rightarrow> rat)
    \<Rightarrow> (nat \<Rightarrow> 'v analysis_world \<Rightarrow> 'v analysis_world) \<Rightarrow> rat \<Rightarrow> principal \<Rightarrow> analysis_request
    \<Rightarrow> (analysis_error, 'v analysis_world, analysis_answer \<times> authorization_snapshot) effect" where
  "authorized_analyze limit C publications clock others now p r w =
     (case snapshot limit now p (ay_documents r) DOCUMENT_ANALYZE (pw_security (nw_publication w)) of
        (Inl e, a) \<Rightarrow> (Inl (Analysis_refused (Security_failed e)), set_security a w)
      | (Inr s, a) \<Rightarrow> run_analysis C publications clock others s r (set_security a w))"

definition snapshot_scopes :: "authorization_snapshot \<Rightarrow> string list" where
  "snapshot_scopes s = remdups (map (\<lambda>(d, sc, e). scope_identity sc) (as_documents s))"

lemma run_analysisD:
  assumes "run_analysis C publications clock others s r w = (Inr (a, s'), w')"
  obtains k svc v where "s' = s" "revalidate (clock 5) s (pw_security (nw_publication w')) = Inr ()" "snapshot_scopes s = [k]"
    "map_of publications k = Some svc" "scope_identity (rv_scope (dn_env svc)) = k"
    "document_analyze svc clock others (Some s) (Some (governed_executor (rv_prims (dn_env svc)) C (dn_provider svc) s)) r w = (Inr a, v)"
    "w' = others 5 v"
proof -
  from assms have one: "length (snapshot_scopes s) = 1" by (auto simp: run_analysis_def snapshot_scopes_def Let_def txn_simps split: if_splits)
  then obtain k where k: "snapshot_scopes s = [k]" by (auto simp: length_Suc_conv)
  note run = assms [unfolded run_analysis_def snapshot_scopes_def [symmetric] k]
  obtain svc where svc: "map_of publications k = Some svc" using run by (auto simp: txn_simps split: option.splits)
  show thesis using that k svc run by (auto simp: Let_def txn_simps split: if_splits)
qed

lemma grounded_documents:
  assumes "answer_grounded svc clock others (Some s) r w a v" and "c \<in> set (aw_citations a)"
  shows "cn_document_id c \<in> fst ` set (as_documents s)"
  using assms by (auto simp: answer_grounded_def cites_exactly_def list_all_iff citation_exact_def pin_authorized_def authorizes_def
      split: sum.splits)

text \<open>The released answer of a run: the snapshot that it took, the one publication of the scope of that snapshot, and the analysis of the
  request by it, which ended right before the last change by other processes.\<close>

definition analysis_released :: "nat \<Rightarrow> exec_context \<Rightarrow> (string \<times> ('i, 'v) document_analysis) list \<Rightarrow> (nat \<Rightarrow> rat)
    \<Rightarrow> (nat \<Rightarrow> 'v analysis_world \<Rightarrow> 'v analysis_world) \<Rightarrow> rat \<Rightarrow> principal \<Rightarrow> analysis_request \<Rightarrow> 'v analysis_world
    \<Rightarrow> analysis_answer \<Rightarrow> authorization_snapshot \<Rightarrow> 'v analysis_world \<Rightarrow> bool" where
  "analysis_released limit C publications clock others now p r w a s w' \<longleftrightarrow>
     (\<exists>db k svc v. snapshot limit now p (ay_documents r) DOCUMENT_ANALYZE (pw_security (nw_publication w)) = (Inr s, db)
        \<and> snapshot_scopes s = [k] \<and> map_of publications k = Some svc \<and> scope_identity (rv_scope (dn_env svc)) = k
        \<and> document_analyze svc clock others (Some s) (Some (governed_executor (rv_prims (dn_env svc)) C (dn_provider svc) s)) r (set_security db w) = (Inr a, v)
        \<and> w' = others 5 v \<and> answer_grounded svc clock others (Some s) r (set_security db w) a v)"

lemma authorized_analyze_released:
  assumes call: "authorized_analyze limit C publications clock others now p r w = (Inr (a, s), w')"
  shows "as_principal s = p \<and> as_action s = DOCUMENT_ANALYZE
       \<and> revalidate (clock 5) s (pw_security (nw_publication w')) = Inr ()
       \<and> analysis_released limit C publications clock others now p r w a s w'
       \<and> list_all (\<lambda>c. \<exists>row. check_document (clock 5) p DOCUMENT_ANALYZE (cn_document_id c) (pw_security (nw_publication w')) = Inr row) (aw_citations a)"
proof -
  from call obtain s0 db where snap: "snapshot limit now p (ay_documents r) DOCUMENT_ANALYZE (pw_security (nw_publication w)) = (Inr s0, db)"
    and run: "run_analysis C publications clock others s0 r (set_security db w) = (Inr (a, s), w')"
    by (auto simp: authorized_analyze_def split: prod.splits sum.splits)
  obtain k svc v where ok: "s = s0" "revalidate (clock 5) s0 (pw_security (nw_publication w')) = Inr ()" "snapshot_scopes s0 = [k]"
    "map_of publications k = Some svc" "scope_identity (rv_scope (dn_env svc)) = k"
    "document_analyze svc clock others (Some s0) (Some (governed_executor (rv_prims (dn_env svc)) C (dn_provider svc) s0)) r (set_security db w) = (Inr a, v)"
    "w' = others 5 v"
    using run by (rule run_analysisD)
  note g = document_analyze_grounded [OF ok(6)] and own = snapshotD(1,2) [OF snap]
  have "\<exists>row. check_document (clock 5) p DOCUMENT_ANALYZE (cn_document_id c) (pw_security (nw_publication w')) = Inr row"
    if "c \<in> set (aw_citations a)" for c
  proof -
    from grounded_documents [OF g that] obtain sc ep where "(cn_document_id c, sc, ep) \<in> set (as_documents s0)" by force
    from revalidateD(2) [OF ok(2) this] own show ?thesis by auto
  qed
  moreover have "analysis_released limit C publications clock others now p r w a s w'"
    unfolding analysis_released_def ok(1) using snap ok(3-7) g by blast
  ultimately show ?thesis using ok(1,2) own by (simp add: list_all_iff)
qed

text \<open>C17: An authorized analysis that returns does so under the snapshot that it took of its own principal for analysis, which the authority
  still accepts in the final state, whatever other processes did at every step and whatever the engines and the provider
  answered. The answer is the one of the publication service of the one scope of that snapshot: it names the generation of the pin of this run and
  cites distinct citations among those that this run supplied, each of which quotes a hit that the pin sees in the world of the retrieval with the exact text
  that its evidence resolves to in the store of the world in which it was cited; the pin was still authorized when the analysis ended, and
  the principal may still analyze every cited document in the final state.\<close>

theorem analysis_release_authorized:
  "case authorized_analyze limit C publications clock others now p r w of (Inl e, w') \<Rightarrow> True
   | (Inr (a, s), w') \<Rightarrow> as_principal s = p \<and> as_action s = DOCUMENT_ANALYZE
       \<and> revalidate (clock 5) s (pw_security (nw_publication w')) = Inr ()
       \<and> analysis_released limit C publications clock others now p r w a s w'
       \<and> list_all (\<lambda>c. \<exists>row. check_document (clock 5) p DOCUMENT_ANALYZE (cn_document_id c) (pw_security (nw_publication w')) = Inr row) (aw_citations a)"
proof (cases "authorized_analyze limit C publications clock others now p r w")
  case (Pair x w')
  show ?thesis
  proof (cases x)
    case (Inr y)
    obtain a s where y: "y = (a, s)" by force
    show ?thesis using authorized_analyze_released [OF Pair [unfolded Inr y]] unfolding Pair Inr y by simp
  qed (simp add: Pair)
qed

section \<open>Authorized jobs\<close>

record jobs_world =
  jw_authority :: authority
  jw_jobs :: ledger

datatype jobs_error = Jobs_denied security_error | Jobs_failed string

definition on_authority :: "(authority \<Rightarrow> (security_error + 'a) \<times> authority) \<Rightarrow> (jobs_error, jobs_world, 'a) effect" where
  "on_authority f w = (case f (jw_authority w) of (Inl e, a) \<Rightarrow> (Inl (Jobs_denied e), w\<lparr>jw_authority := a\<rparr>) | (Inr x, a) \<Rightarrow> (Inr x, w\<lparr>jw_authority := a\<rparr>))"

text \<open>A job error of a read is reported as a denial.\<close>

definition authorized_get :: "nat \<Rightarrow> (nat \<Rightarrow> rat) \<Rightarrow> principal \<Rightarrow> uuid \<Rightarrow> (jobs_error, jobs_world, job_row) effect" where
  "authorized_get limit clock p jid =
     wbind (on_authority (snapshot limit (clock 0) p [] DOCUMENT_ANALYZE)) (\<lambda>_.
     wbind (\<lambda>w. case run_txn (get_job (p_scope p) jid) (jw_jobs w) of
         (Inl _, _) \<Rightarrow> (Inl (Jobs_denied Access_denied), w) | (Inr job, db) \<Rightarrow> (Inr job, w\<lparr>jw_jobs := db\<rparr>)) (\<lambda>job.
     wbind (on_authority (authorize limit (clock 1) p DOCUMENT_READ (Document_resource (ad_document_id (jr_request job))))) (\<lambda>_.
     wlift (Inr job))))"

definition authorized_cancel :: "nat \<Rightarrow> (nat \<Rightarrow> rat) \<Rightarrow> time \<Rightarrow> principal \<Rightarrow> uuid \<Rightarrow> (jobs_error, jobs_world, job_row) effect" where
  "authorized_cancel limit clock now p jid =
     wbind (authorized_get limit clock p jid) (\<lambda>job.
     wbind (on_authority (snapshot limit (clock 2) p [ad_document_id (jr_request job)] DOCUMENT_DELETE)) (\<lambda>s.
     \<lambda>w. case release (clock 3) s (jw_authority w) (\<lambda>_. Inr ()) of Inl e \<Rightarrow> (Inl (Jobs_denied e), w)
       | Inr _ \<Rightarrow> (case run_txn (cancel (p_scope p) jid now) (jw_jobs w) of
           (Inl e, _) \<Rightarrow> (Inl (Jobs_failed e), w) | (Inr x, db) \<Rightarrow> (Inr x, w\<lparr>jw_jobs := db\<rparr>))))"

lemma on_authority_iff [txn_simps]:
  "on_authority f w = (Inr x, w') \<longleftrightarrow> (\<exists>a. f (jw_authority w) = (Inr x, a) \<and> w' = w\<lparr>jw_authority := a\<rparr>)"
  by (auto simp: on_authority_def split: prod.splits sum.splits)

lemma on_authority_jobs: "on_authority f w = (x, w') \<Longrightarrow> jw_jobs w' = jw_jobs w"
  by (auto simp: on_authority_def split: prod.splits sum.splits)

lemma authorized_get_jobs:
  assumes "authorized_get limit clock p jid w = (x, w')"
  shows "jw_jobs w' = jw_jobs w"
  using assms unfolding authorized_get_def
  by (auto simp: wbind_def wlift_def run_txn_def get_job_def sbind_def split: prod.splits sum.splits dest!: on_authority_jobs)

lemma authorized_getD:
  assumes "authorized_get limit clock p jid w = (Inr job, w')"
  shows "ledger_job (jw_jobs w) (p_scope p) jid = Inr job" and "jw_jobs w' = jw_jobs w"
  using assms by (auto simp: authorized_get_def txn_simps run_txn_def get_job_def sbind_def split: sum.splits prod.splits)

text \<open>C27: A cancellation through the authorized service either fails and leaves the job ledger as it was, or it is the
  ledger's cancellation of a job in the scope of the principal, and in the final state of the authority the document of the
  job is active in the principal's tenant and the principal owns it or administers the tenant: a grant is not enough.
\<close>

theorem authorized_cancel_entitled:
  "case authorized_cancel limit clock now p jid w of
     (Inl e, w') \<Rightarrow> jw_jobs w' = jw_jobs w
   | (Inr result, w') \<Rightarrow> (\<exists>job row. ledger_job (jw_jobs w) (p_scope p) jid = Inr job
       \<and> cancel (p_scope p) jid now (jw_jobs w) = Inr (result, jw_jobs w')
       \<and> find_document (ad_document_id (jr_request job)) (jw_authority w') = Some row \<and> dr_state row = ACTIVE
       \<and> dr_tenant row = tenant (p_scope p) \<and> (dr_owner row = owner (p_scope p) \<or> TENANT_ADMIN \<in> p_permissions p))"
proof (cases "authorized_get limit clock p jid w")
  case (Pair x w1)
  note same = authorized_get_jobs [OF Pair]
  show ?thesis
  proof (cases x)
    case (Inl e)
    with Pair same show ?thesis by (simp add: authorized_cancel_def wbind_def)
  next
    case (Inr job)
    let ?d = "ad_document_id (jr_request job)"
    from authorized_getD(1) Pair Inr have job: "ledger_job (jw_jobs w) (p_scope p) jid = Inr job" by simp
    obtain y w2 where snap: "on_authority (snapshot limit (clock 2) p [?d] DOCUMENT_DELETE) w1 = (y, w2)" by force
    note same2 = on_authority_jobs [OF snap]
    show ?thesis
    proof (cases y)
      case (Inl e)
      with Pair \<open>x = _\<close> snap same same2 show ?thesis by (simp add: authorized_cancel_def wbind_def)
    next
      case s: (Inr s)
      with snap obtain a where taken: "snapshot limit (clock 2) p [?d] DOCUMENT_DELETE (jw_authority w1) = (Inr s, a)" by (auto simp: txn_simps)
      note own = snapshotD(1,2) [OF taken]
      have doc: "\<exists>row. find_document ?d (jw_authority w2) = Some row \<and> dr_state row = ACTIVE \<and> dr_tenant row = tenant (p_scope p)
          \<and> (dr_owner row = owner (p_scope p) \<or> TENANT_ADMIN \<in> p_permissions p)" if rel: "revalidate (clock 3) s (jw_authority w2) = Inr ()"
      proof -
        from snapshotD(4) [OF taken, of ?d] obtain sc ep where "(?d, sc, ep) \<in> set (as_documents s)" by auto
        from revalidateD(2) [OF rel this] own obtain row where "check_document (clock 3) p DOCUMENT_DELETE ?d (jw_authority w2) = Inr row" by auto
        from check_documentD(1-4) [OF this] show ?thesis by auto
      qed
      have "authorized_cancel limit clock now p jid w = (case revalidate (clock 3) s (jw_authority w2) of Inl e \<Rightarrow> (Inl (Jobs_denied e), w2)
          | Inr _ \<Rightarrow> (case run_txn (cancel (p_scope p) jid now) (jw_jobs w2) of
              (Inl e, _) \<Rightarrow> (Inl (Jobs_failed e), w2) | (Inr x, db) \<Rightarrow> (Inr x, w2\<lparr>jw_jobs := db\<rparr>)))"
        using Pair Inr snap s by (auto simp: authorized_cancel_def wbind_def release_def sbind_def split: sum.splits)
      then show ?thesis using job doc same same2 by (auto simp: run_txn_def split: sum.splits prod.splits)
    qed
  qed
qed

end
