(* ===== verification/ManagedTheorems.thy ===== *)
theory ManagedTheorems
  imports ManagedSynthesis
begin

text \<open>
  The arithmetic of managed requests: the sizes that planning computes with \<open>rendered_size\<close> (documents/digestion/sizing.py) bound the
  size of the request that the managed inference renders from the same stage request, so that a request that planning
  admits is rendered and fits every limit of the provider.
\<close>

section \<open>Escaped sizes\<close>

definition esc :: "string \<Rightarrow> nat" where
  "esc s = length (concat (map escape_char s))"

lemma esc_simps [simp]: "esc [] = 0" "esc (a @ b) = esc a + esc b" "esc (c # s) = length (escape_char c) + esc s"
  by (simp_all add: esc_def)

lemma json_string_length: "length (json_string s) = esc s + 2"
  by (simp add: json_string_def esc_def)

definition esc_points :: "code_points \<Rightarrow> nat" where
  "esc_points t = length (concat (map escape_point t))"

lemma esc_points_simps [simp]: "esc_points (a @ b) = esc_points a + esc_points b" "esc_points (points s) = esc s"
proof -
  have "escape_point (of_char c) = escape_char c" for c by (simp add: escape_point_def)
  then have "concat (map escape_point (points s)) = concat (map escape_char s)" by (simp add: points_def comp_def)
  then show "esc_points (points s) = esc s" by (simp only: esc_points_def esc_def)
qed (simp add: esc_points_def)

lemma json_text_length: "length (json_text t) = esc_points t + 2"
  by (simp add: json_text_def esc_points_def)

abbreviation esc_json :: "prims \<Rightarrow> json \<Rightarrow> nat" where "esc_json H v \<equiv> esc (canonical H v)"

lemma escaped_size_esc: "escaped_size H v = int (esc_json H v)"
  by (simp add: escaped_size_def json_string_length)

lemma plain_chars [simp]: "length (escape_char CHR ''['') = 1" "length (escape_char CHR '']'') = 1" "length (escape_char CHR '','') = 1"
    "length (escape_char (CHR ''{'')) = 1" "length (escape_char (CHR ''}'')) = 1" "length (escape_char (CHR '':'')) = 1"
    "length (escape_char (CHR ''-'')) = 1" "length (escape_char quote_char) = 2"
  by (simp_all add: escape_char_def quote_char_def backslash_def)

lemma esc_comma_join: "esc (comma_join xs) = sum_list (map esc xs) + (length xs - 1)"
  by (induction xs rule: comma_join.induct) simp_all

lemma esc_array: "esc_json H (JArr vs) = sum_list (map (esc_json H) vs) + (length vs - 1) + 2"
  by (simp add: esc_comma_join comp_def)

lemma esc_object:
  "esc_json H (JObj kvs) = sum_list (map (\<lambda>(k, v). esc (json_string k) + 1 + esc_json H v) kvs) + (length kvs - 1) + 2"
  by (simp add: esc_comma_join comp_def case_prod_unfold sum_list_sorted)

text \<open>An identifier has always the same size.\<close>

lemma escape_hex_digit: "escape_char (hex_digit n) = [hex_digit n]"
proof -
  have "n mod 16 \<in> {0..<16}" by simp
  then have "hex_digit n \<in> set ''0123456789abcdef''" unfolding hex_digit_def by (intro nth_mem) simp
  then show ?thesis by (auto simp: escape_char_def quote_char_def backslash_def)
qed

lemma escape_uuid_text: "concat (map escape_char (uuid_text u)) = uuid_text u"
proof -
  have hex: "c \<in> set (uuid_hex u) \<Longrightarrow> escape_char c = [c]" for c by (auto simp: uuid_hex_def escape_hex_digit)
  have dash: "escape_char (CHR ''-'') = [CHR ''-'']" by (simp add: escape_char_def quote_char_def backslash_def)
  have "c \<in> set (uuid_text u) \<Longrightarrow> escape_char c = [c]" for c
    using hex dash by (auto simp: uuid_text_def Let_def dest: in_set_takeD in_set_dropD)
  then have "map escape_char (uuid_text u) = map (\<lambda>c. [c]) (uuid_text u)" by (intro map_cong) simp_all
  then show ?thesis using concat_map_singleton [of "\<lambda>c. c" "uuid_text u"] unfolding list.map_ident by (simp only:)
qed

lemma esc_uuid: "esc_json H (uuid_json u) = 40"
proof -
  have "esc (uuid_text u) = 36" unfolding esc_def escape_uuid_text by (simp add: uuid_text_length)
  then show ?thesis by (simp add: uuid_json_def json_string_def escape_uuid_text)
qed

section \<open>Arrays of rendered parts\<close>

lemma esc_array_append: "esc_json H (JArr (xs @ ys)) + 1 \<le> esc_json H (JArr xs) + esc_json H (JArr ys)"
  unfolding esc_array by (cases xs; cases ys) simp_all

lemma esc_array_concat: "esc_json H (JArr (concat xss)) \<le> 2 + sum_list (map (\<lambda>xs. esc_json H (JArr xs)) xss)"
proof (induction xss)
  case (Cons xs xss)
  then show ?case using esc_array_append [of H xs "concat xss"] unfolding concat.simps list.map sum_list.Cons by linarith
qed (simp add: esc_array)

lemma sum_list_const: "(\<And>x. x \<in> set xs \<Longrightarrow> f x = (c :: nat)) \<Longrightarrow> sum_list (map f xs) = c * length xs"
  by (induction xs) simp_all

text \<open>The set of identifiers of several children is no larger than the sets of each of them.\<close>

lemma esc_sorted_ids: "esc_json H (sorted_ids us) = 40 * length (remdups (map uuid_text us)) + (length (remdups (map uuid_text us)) - 1) + 2"
proof -
  let ?ts = "sort (remdups (map uuid_text us))"
  have "esc_json H (JStr t) = 40" if "t \<in> set ?ts" for t
  proof -
    from that obtain u where "t = uuid_text u" by auto
    then show ?thesis using esc_uuid [of H u] by (simp only: uuid_json_def)
  qed
  then have "sum_list (map (\<lambda>t. esc_json H (JStr t)) ?ts) = 40 * length ?ts" by (rule sum_list_const)
  then show ?thesis unfolding sorted_ids_def esc_array by (simp add: comp_def)
qed

lemma length_remdups_append: "length (remdups (xs @ ys)) \<le> length (remdups xs) + length (remdups ys)"
  by (metis card_Un_le length_remdups_card_conv set_append)

lemma esc_sorted_append: "esc_json H (sorted_ids (us @ vs)) \<le> esc_json H (sorted_ids us) + esc_json H (sorted_ids vs)"
  using length_remdups_append [of "map uuid_text us" "map uuid_text vs"] unfolding esc_sorted_ids map_append by linarith

lemma esc_sorted_concat: "esc_json H (sorted_ids (concat uss)) \<le> 2 + sum_list (map (\<lambda>us. esc_json H (sorted_ids us)) uss)"
proof (induction uss)
  case (Cons us uss)
  then show ?case using esc_sorted_append [of H us "concat uss"] unfolding concat.simps list.map sum_list.Cons by linarith
qed (simp add: esc_sorted_ids)

text \<open>What the children of a reduction add is covered by the contributions that planning reserves for them.\<close>

definition child_ids :: "child_input \<Rightarrow> uuid list" where
  "child_ids child = concat (map (\<lambda>c. cl_evidence_ids c @ cl_contradicting c) (rs_claims (ci_result child)))"

definition child_link_items :: "child_input \<Rightarrow> json list" where
  "child_link_items child = map (\<lambda>c. JObj [(''stage_id'', uuid_json (rs_stage_id (ci_result child))), (''claim_id'', uuid_json (cl_id c))]) (rs_claims (ci_result child))"

lemma child_contribution_esc:
  "child_contribution H c = int (esc_json H (JArr (child_link_items c)) + esc_json H (sorted_ids (child_ids c)) + esc_json H (child_json c) + 8)"
  by (simp only: child_contribution_def result_contribution_def escaped_size_esc child_link_items_def child_ids_def)


lemma children_covered:
  "int (esc_json H (sorted_ids (concat (map child_ids cs))) + esc_json H (JArr (concat (map child_link_items cs))) + esc_json H (JArr (map child_json cs)))
     \<le> 6 + sum_list (map (child_contribution H) cs)"
proof -
  let ?S = "\<lambda>c. esc_json H (sorted_ids (child_ids c))" and ?L = "\<lambda>c. esc_json H (JArr (child_link_items c))" and ?C = "\<lambda>c. esc_json H (child_json c)"
  have "esc_json H (sorted_ids (concat (map child_ids cs))) \<le> 2 + sum_list (map ?S cs)"
    using esc_sorted_concat [of H "map child_ids cs"] by (simp only: map_map comp_def)
  moreover have "esc_json H (JArr (concat (map child_link_items cs))) \<le> 2 + sum_list (map ?L cs)"
    using esc_array_concat [of H "map child_link_items cs"] by (simp only: map_map comp_def)
  moreover have "esc_json H (JArr (map child_json cs)) \<le> 2 + sum_list (map ?C cs) + length cs"
    unfolding esc_array by (simp add: comp_def)
  moreover have "sum_list (map (child_contribution H) cs) = int (sum_list (map ?S cs) + sum_list (map ?L cs) + sum_list (map ?C cs) + 8 * length cs)"
    by (induction cs) (simp_all only: list.map sum_list.Cons sum_list.Nil child_contribution_esc list.size, simp_all)
  ultimately show ?thesis by linarith
qed

lemma children_bounded:
  assumes "\<not> list_ex (\<lambda>c. b < child_contribution H c) cs"
  shows "sum_list (map (child_contribution H) cs) \<le> int (length cs) * b"
  using assms by (induction cs) (auto simp: algebra_simps)

section \<open>The rendered envelope\<close>

lemma size_comma_join: "length (comma_join xs) = sum_list (map length xs) + (length xs - 1)"
  by (induction xs rule: comma_join.induct) simp_all

lemma length_object:
  "length (canonical H (JObj kvs)) = sum_list (map (\<lambda>(k, v). length (json_string k) + 1 + length (canonical H v)) kvs) + (length kvs - 1) + 2"
  by (simp add: size_comma_join comp_def case_prod_unfold sum_list_sorted)

lemma esc_claim_ids: "esc_json H (JArr (map (\<lambda>i. uuid_json (f i)) xs)) = 40 * length xs + (length xs - 1) + 2"
  unfolding esc_array using sum_list_const [of xs "\<lambda>i. esc_json H (uuid_json (f i))" 40] by (simp add: comp_def esc_uuid del: canonical.simps)

text \<open>An empty request of the same stage, up to the budget of the profile.\<close>

definition empty_of :: "stage_request \<Rightarrow> stage_request \<Rightarrow> bool" where
  "empty_of e q \<longleftrightarrow> rq_stage e = rq_stage q \<and> (\<exists>b. rq_profile q = (rq_profile e)\<lparr>dp_managed_input_budget := b\<rparr>)
     \<and> rq_path e = [] \<and> rq_source_data e = [] \<and> rq_children e = []"

lemma response_limit_budget: "response_byte_limit (p\<lparr>dp_managed_input_budget := b\<rparr>) = response_byte_limit p"
  by (simp add: response_byte_limit_def split: option.splits)

lemma control_esc:
  assumes "empty_of e q"
  shows "esc_json H (control_json H s p schema q) + 4 = esc_json H (control_json H s p schema e)
    + esc_json H (sorted_ids (allowed_evidence H q)) + esc_json H (JArr (required_links q))"
proof -
  from assms obtain b where e: "rq_stage e = rq_stage q" "rq_profile q = (rq_profile e)\<lparr>dp_managed_input_budget := b\<rparr>"
    "allowed_evidence H e = []" "required_links e = []" by (auto simp: empty_of_def allowed_evidence_def required_links_def)
  have z: "esc_json H (sorted_ids []) = 2" "esc_json H (JArr []) = 2" by (simp_all only: esc_sorted_ids esc_array) simp_all
  show ?thesis unfolding control_json_def Let_def esc_object
    by (simp add: e z esc_uuid esc_claim_ids response_limit_budget del: canonical.simps)
qed

lemma material_esc:
  assumes "empty_of e q"
  shows "esc_json H (material_json H q) + 6 = esc_json H (material_json H e) + esc_json H (JArr (map (rendered_piece H) (rq_source_data q)))
    + esc_json H (JArr (map JText (rq_path q))) + esc_json H (JArr (map child_json (rq_children q)))"
proof -
  have z: "esc_json H (JArr []) = 2" by (simp only: esc_array) simp
  show ?thesis using assms unfolding material_json_def esc_object empty_of_def by (simp add: z del: canonical.simps)
qed

lemma envelope_esc:
  assumes "empty_of e q"
  shows "envelope_size H (managed_generation H s p schema q) + 10 = envelope_size H (managed_generation H s p schema e)
    + int (esc_json H (sorted_ids (allowed_evidence H q)) + esc_json H (JArr (required_links q))
         + esc_json H (JArr (map (rendered_piece H) (rq_source_data q))) + esc_json H (JArr (map JText (rq_path q)))
         + esc_json H (JArr (map child_json (rq_children q))))"
proof -
  have len: "length (canonical H (JText t)) = esc_points t + 2" "length (canonical H (JStr u)) = esc u + 2" for t u
    by (simp_all add: json_text_length json_string_length)
  show ?thesis using control_esc [OF assms, of H s p schema] material_esc [OF assms, of H]
    unfolding envelope_size_def managed_generation_def generation_request.simps length_object
    by (simp add: len del: canonical.simps)
qed

lemma rendered_piece_size: "analysis_size H b q = reduction_size H b (rq_path q) 0
    + escaped_size H (JArr (map (rendered_piece H) (rq_source_data q))) + escaped_size H (sorted_ids (map (evidence_id H) (rq_source_data q)))"
  by (simp only: analysis_size_def rendered_piece_def [abs_def])

text \<open>The size that planning computes bounds the size of the rendered request.\<close>

lemma envelope_within_plan:
  assumes e: "empty_of e q" and base: "envelope_size H (managed_generation H s p schema e) \<le> mb_base_bytes b"
    and valid: "request_valid H q" and small: "\<not> list_ex (\<lambda>c. mb_child_bytes b < child_contribution H c) (rq_children q)"
  shows "envelope_size H (managed_generation H s p schema q) \<le> rendered_size H b q"
proof -
  have z: "esc_json H (JArr []) = 2" "esc_json H (sorted_ids []) = 2" by (simp_all only: esc_sorted_ids esc_array) simp_all
  note size = envelope_esc [OF e, of H s p schema]
  show ?thesis
  proof (cases "rq_stage q")
    case Analysis
    with valid have none: "rq_children q = []" by (simp add: request_valid_def material_boundary_def)
    then have "allowed_evidence H q = map (evidence_id H) (rq_source_data q)" "required_links q = []"
      by (simp_all add: allowed_evidence_def required_links_def)
    with size base none show ?thesis
      by (simp add: rendered_size_def Analysis rendered_piece_size reduction_size_def escaped_size_esc z del: canonical.simps)
  next
    case Reduction
    with valid have none: "rq_source_data q = []" by (simp add: request_valid_def material_boundary_def)
    then have "allowed_evidence H q = concat (map child_ids (rq_children q))" "required_links q = concat (map child_link_items (rq_children q))"
      by (simp_all add: allowed_evidence_def required_links_def child_ids_def [abs_def] child_link_items_def [abs_def])
    with size base none children_covered [of H "rq_children q"] children_bounded [OF small] show ?thesis
      by (simp add: rendered_size_def Reduction reduction_size_def escaped_size_esc z del: canonical.simps)
  qed
qed

section \<open>Admitted requests are rendered\<close>

lemma fold_min_le: "fold (\<lambda>p. min (f p)) xs (a :: int) \<le> a"
proof (induction xs arbitrary: a)
  case (Cons x xs)
  show ?case using Cons [of "min (f x) a"] by simp
qed simp

lemma fold_min_member: "p \<in> set xs \<Longrightarrow> fold (\<lambda>p. min (f p)) xs (a :: int) \<le> f p"
proof (induction xs arbitrary: a)
  case (Cons x xs)
  show ?case using Cons fold_min_le [of f xs "min (f x) a"] by auto
qed simp

lemma input_limit_bounds:
  assumes "p \<in> set (ms_profiles s)"
  shows "input_limit s \<le> ms_max_request_bytes s" and "input_limit s \<le> sg_input_tokens p"
    and "input_limit s \<le> cp_context_tokens (ms_capability s) - sg_output_tokens p - cp_overhead_tokens (ms_capability s) - cp_safety_tokens (ms_capability s)"
proof -
  let ?f = "\<lambda>p. min (sg_input_tokens p) (cp_context_tokens (ms_capability s) - sg_output_tokens p - cp_overhead_tokens (ms_capability s) - cp_safety_tokens (ms_capability s))"
  have eq: "input_limit s = fold (\<lambda>p. min (?f p)) (ms_profiles s) (ms_max_request_bytes s)" by (simp only: input_limit_def Let_def)
  show "input_limit s \<le> ms_max_request_bytes s" unfolding eq by (rule fold_min_le)
  show "input_limit s \<le> sg_input_tokens p" "input_limit s \<le> cp_context_tokens (ms_capability s) - sg_output_tokens p - cp_overhead_tokens (ms_capability s) - cp_safety_tokens (ms_capability s)"
    using fold_min_member [OF assms, where f = ?f and a = "ms_max_request_bytes s"] unfolding eq min.bounded_iff by blast+
qed

lemma fold_max_member:
  assumes "fold_sum (\<lambda>k b. sbind (f k) (\<lambda>n. Inr (max b n))) ks (b0 :: int) = Inr b" and "k \<in> set ks"
  shows "\<exists>n. f k = Inr n \<and> n \<le> b"
proof -
  have grows: "fold_sum (\<lambda>k b. sbind (f k) (\<lambda>n. Inr (max b n))) ks b0 = Inr b \<Longrightarrow> b0 \<le> b" for ks b0
    by (induction ks arbitrary: b0) (fastforce simp: txn_simps)+
  show ?thesis using assms
  proof (induction ks arbitrary: b0)
    case (Cons x ks)
    then obtain n where n: "f x = Inr n" "fold_sum (\<lambda>k b. sbind (f k) (\<lambda>n. Inr (max b n))) ks (max b0 n) = Inr b" by (auto simp: txn_simps)
    from Cons.IH [OF n(2)] grows [OF n(2)] n(1) Cons.prems(2) show ?case by auto
  qed simp
qed

lemma stages_present:
  assumes "managed_settings_valid schema s"
  shows "stage \<in> set (map sg_stage (ms_profiles s))"
proof -
  from assms have "sort (map (managed_stage_text \<circ> sg_stage) (ms_profiles s)) = [''chunk'', ''intermediate'', ''root'', ''structural'']"
    by (simp add: managed_settings_valid_def Let_def)
  from arg_cong [where f = set, OF this]
  have "set (map (managed_stage_text \<circ> sg_stage) (ms_profiles s)) = {''chunk'', ''intermediate'', ''root'', ''structural''}"
    by (simp only: set_sort list.set)
  moreover have "managed_stage_text stage \<in> {''chunk'', ''intermediate'', ''root'', ''structural''}" by (cases stage) simp_all
  ultimately have "managed_stage_text stage \<in> managed_stage_text ` set (map sg_stage (ms_profiles s))" by (simp add: image_comp)
  moreover have "inj managed_stage_text"
  proof (rule injI)
    fix a b
    show "managed_stage_text a = managed_stage_text b \<Longrightarrow> a = b" by (cases a; cases b) simp_all
  qed
  ultimately show ?thesis by (simp only: inj_image_mem_iff)
qed

lemma new_managedD:
  assumes "new_managed H schema pv s stage = Inr mi"
  shows "mi_provider mi = pv" "mi_settings mi = s" "mi_schema mi = schema" "mi_stage mi = stage" "mi_model mi = pv_model_id pv SUMMARIZATION"
    and "managed_bind H mi stage' = Inr (mi\<lparr>mi_stage := stage'\<rparr>)"
proof -
  from assms obtain x where new: "validate_schema_provider (ms_capability s) (pv_name pv) = Inr ()" "token_text 256 (pv_model_id pv SUMMARIZATION)"
    "managed_binding pv s schema = Inr x"
    and mi: "mi = \<lparr>mi_provider = pv, mi_settings = s, mi_schema = schema, mi_stage = stage, mi_model = pv_model_id pv SUMMARIZATION, mi_config = fingerprint H x\<rparr>"
    by (auto simp: new_managed_def txn_simps split: if_splits)
  have "new_managed H schema pv s stage' = Inr (mi\<lparr>mi_stage := stage'\<rparr>)" by (simp add: new_managed_def new mi m_lift_def)
  then show "managed_bind H mi stage' = Inr (mi\<lparr>mi_stage := stage'\<rparr>)" by (simp add: managed_bind_def mi)
qed (use assms in \<open>auto simp: new_managed_def txn_simps split: if_splits\<close>)

lemma profile_forD: "profile_for mi stage = Inr p \<Longrightarrow> p \<in> set (ms_profiles (mi_settings mi)) \<and> sg_stage p = stage"
  unfolding profile_for_def map_of_dict_of by (auto split: option.splits dest!: map_of_rev_SomeD)

lemma managed_profileD:
  assumes "managed_profile H mi planning = Inr pr" and "ms_child_input_bytes (mi_settings mi) = Some child"
  shows "\<exists>base. envelope_base H mi (bound_profile mi planning) = Inr base
    \<and> pr = (bound_profile mi planning)\<lparr>dp_managed_input_budget := Some \<lparr>mb_input_bytes = input_limit (mi_settings mi), mb_base_bytes = base, mb_child_bytes = child\<rparr>\<rparr>"
  using assms by (auto simp: managed_profile_def Let_def txn_simps split: if_splits)

text \<open>The budget of a managed profile is what the profile itself gives again.\<close>

lemma managed_profile_again:
  assumes "managed_profile H mi planning = Inr pr"
  shows "managed_profile H mi pr = Inr pr"
proof -
  have "bound_profile mi pr = bound_profile mi planning"
    using assms by (auto simp: managed_profile_def bound_profile_def Let_def txn_simps split: if_splits option.splits)
  then show ?thesis using assms by (simp add: managed_profile_def)
qed

lemma sbind_assoc: "sbind (sbind m f) g = sbind m (\<lambda>x. sbind (f x) g)"
  by (cases m) simp_all

lemma envelope_base_stage:
  assumes new: "new_managed H schema pv s stage = Inr mi" and base: "envelope_base H mi bound = Inr base"
    and stage: "stage \<in> set (map sg_stage (ms_profiles s))"
  shows "\<exists>p g. render_guard mi (blank_request bound stage) = Inr p \<and> generation_schema schema = Inr g
    \<and> envelope_size H (managed_generation H s p g (blank_request bound stage)) \<le> base"
proof -
  note mi = new_managedD [OF new]
  have "mi\<lparr>mi_stage := stage\<rparr> = mi" using mi(4) by simp
  with mi(6) [of stage] have bind: "managed_bind H mi stage = Inr mi" by simp
  have mem: "stage \<in> set (remdups (map sg_stage (ms_profiles s)))" using stage by simp
  have "\<exists>n. sbind (managed_bind H mi stage) (\<lambda>b. managed_measure H b (blank_request bound stage)) = Inr n \<and> n \<le> base"
    using base [unfolded envelope_base_def mi(2), folded sbind_assoc] mem by (rule fold_max_member)
  then show ?thesis using mi by (auto simp: bind managed_measure_def render_build_def Let_def txn_simps split: if_splits)
qed

lemma guard_same:
  assumes "render_guard mi (blank_request bound (mi_stage mi)) = Inr p" and "rq_profile q = bound\<lparr>dp_managed_input_budget := b\<rparr>"
    and "(rq_stage q = Analysis) = (mi_stage mi = Chunk_stage)"
  shows "render_guard mi q = Inr p"
  using assms by (auto simp: render_guard_def blank_request_def txn_simps split: if_splits)

lemma check_request_budget:
  assumes "check_request H q = Inr n" and "dp_managed_input_budget (rq_profile q) = Some b"
  shows "request_valid H q" and "\<not> list_ex (\<lambda>c. mb_child_bytes b < child_contribution H c) (rq_children q)" and "rendered_size H b q \<le> mb_input_bytes b"
  using assms by (auto simp: check_request_def request_size_def encode_def txn_simps split: if_splits)

text \<open>C13: Planning and rendering agree on sizes. Let a stage request carry the profile that a managed inference with valid
  settings computes for planning, with a bound on child material. When the planner's check admits the request, its stage
  and the number of its evidence identifiers are those of the inference, rendering returns a generation request: its
  escaped envelope is within the configured request size, its output reservation is positive and within the capability,
  and the estimate, which is the one the governed call computes again, leaves room for the output in the context.\<close>

theorem planned_requests_fit:
  assumes valid: "managed_settings_valid schema s" and new: "new_managed H schema pv s stage = Inr mi"
    and child: "ms_child_input_bytes s = Some child" and profile: "managed_profile H mi planning = Inr (rq_profile q)"
    and check: "check_request H q = Inr n" and stage: "(rq_stage q = Analysis) = (stage = Chunk_stage)"
    and evidence: "int (length (remdups (map uuid_text (allowed_evidence H q)))) \<le> ms_max_evidence s"
  shows "\<exists>g. managed_render H mi q = Inr (g, request_estimate H g) \<and> envelope_size H g \<le> ms_max_request_bytes s
    \<and> 0 < gq_output_tokens g \<and> gq_output_tokens g \<le> cp_max_output_tokens (ms_capability s)
    \<and> request_estimate H g + gq_output_tokens g \<le> cp_context_tokens (ms_capability s) \<and> gq_capability g = ms_capability s"
proof -
  note mi = new_managedD [OF new]
  let ?bound = "bound_profile mi planning" and ?e = "blank_request (bound_profile mi planning) stage" and ?cap = "ms_capability s"
  from managed_profileD [OF profile] child mi(2) obtain base where base: "envelope_base H mi ?bound = Inr base"
    and pr: "rq_profile q = ?bound\<lparr>dp_managed_input_budget := Some \<lparr>mb_input_bytes = input_limit s, mb_base_bytes = base, mb_child_bytes = child\<rparr>\<rparr>" by auto
  let ?b = "\<lparr>mb_input_bytes = input_limit s, mb_base_bytes = base, mb_child_bytes = child\<rparr>"
  from pr have budget: "dp_managed_input_budget (rq_profile q) = Some ?b" by simp
  note admitted = check_request_budget [OF check budget]
  from envelope_base_stage [OF new base stages_present [OF valid]] obtain p schema' where
    guard: "render_guard mi ?e = Inr p" and schema': "generation_schema schema = Inr schema'"
    and small: "envelope_size H (managed_generation H s p schema' ?e) \<le> base" by blast
  from guard have p: "p \<in> set (ms_profiles s)" using mi(2) profile_forD [of mi _ p] by (auto simp: render_guard_def txn_simps split: if_splits)
  let ?g = "managed_generation H s p schema' q"
  have "empty_of ?e q" unfolding empty_of_def using pr stage by (cases "rq_stage q") (auto simp: blank_request_def)
  from envelope_within_plan [OF this, where b = ?b] small admitted have fits: "envelope_size H ?g \<le> input_limit s" by force
  note lim = input_limit_bounds [OF p]
  have estimate: "request_estimate H ?g = envelope_size H ?g + cp_overhead_tokens ?cap + cp_safety_tokens ?cap"
    by (simp only: request_estimate_def envelope_size_def managed_generation_def generation_request.simps)
  have out: "gq_output_tokens ?g = sg_output_tokens p" "gq_capability ?g = ?cap" by (simp_all only: managed_generation_def generation_request.simps)
  from valid p have ok: "stage_profile_valid p" "stage_fits ?cap p" by (auto simp: managed_settings_valid_def Let_def list_all_iff)
  have guard_q: "render_guard mi q = Inr p" using guard_same [OF _ pr] guard stage mi(4) by simp
  have build: "render_build H mi p q = Inr (?g, envelope_size H ?g)"
    using evidence schema' mi(2,3) by (simp add: render_build_def m_lift_def Let_def)
  have "managed_render H mi q = Inr (?g, request_estimate H ?g)"
    using check guard_q build managed_profile_again [OF profile] fits lim
    by (simp add: managed_render_def Let_def mi(2) estimate m_lift_def of_digestion_def)
  with fits lim out ok estimate show ?thesis by (intro exI [of _ ?g]) (simp add: stage_profile_valid_def stage_fits_def)
qed

section \<open>Direct execution\<close>

text \<open>Whatever the provider and the fence check do, an analysis outside governance leaves no call of its own open, and
  when it reaches the provider its result is what the provider's outcome says.\<close>

theorem direct_analysis_settles:
  "case direct_analysis mi c limit g reserved x of (result, y) \<Rightarrow>
     set (filter ic_active (inference_calls (xw_admission y))) \<subseteq> set (inference_calls (xw_admission x))
     \<and> xw_ledger y = xw_ledger x \<and> xw_authority y = xw_authority x
     \<and> (result = fst (direct_outcome mi c limit g) \<or> (y = x \<and> (\<exists>e. result = m_inference e)))"
proof (cases "acquire (xc_quota (mc_exec c)) (xc_policy (mc_exec c)) (xc_now (mc_exec c) 0) (xc_provider_ticket (mc_exec c)) (mc_identity c) reserved
    (gq_output_tokens g) ''DOCUMENT_BACKGROUND'' (xw_admission x)")
  case (Inl e)
  then show ?thesis by (auto simp: direct_analysis_def Let_def)
next
  case (Inr a)
  obtain t db1 where a: "a = (t, db1)" by force
  obtain r u out where o: "direct_outcome mi c limit g = (r, u, out)" by (metis prod_cases3)
  from finish_acquired [OF Inr [unfolded a], of u out] obtain db' where "finish (xc_quota (mc_exec c)) t u out db1 = Inr ((), db')"
    "\<forall>y \<in> set (inference_calls db'). ic_active y \<longrightarrow> y \<in> set (inference_calls (xw_admission x))" by blast
  then show ?thesis by (auto simp: direct_analysis_def Let_def Inr a o)
qed

end
