(* ===== verification/ManagedSamples.thy ===== *)
theory ManagedSamples
  imports ManagedTheorems
begin

text \<open>
  A concrete managed inference: its settings, the profile that it gives a plan and a chunk request under that profile,
  for which every hypothesis of the theorem on planned requests holds. The sizes are bounded without printing the prompt.
\<close>

definition sample_managed_capability :: capability_profile where
  "sample_managed_capability = \<lparr>cp_version = ''c/1'', cp_context_tokens = 3000000, cp_max_output_tokens = 2000, cp_overhead_tokens = 100,
     cp_safety_tokens = 100, cp_structured_output = Prompt_mode, cp_output_parameter = Max_tokens, cp_streaming = True, cp_usage_reporting = False,
     cp_temperature = None, cp_response_models = [], cp_reasoning_effort = None, cp_schema_profile = None\<rparr>"

definition sample_stage_profile :: "managed_stage \<Rightarrow> stage_profile" where
  "sample_stage_profile st = \<lparr>sg_stage = st, sg_version = ''managed-stage/1'', sg_input_tokens = 2000000, sg_output_tokens = 100\<rparr>"

definition sample_managed_settings :: managed_settings where
  "sample_managed_settings = \<lparr>ms_generation_profile = ''managed-generation/1'', ms_capability = sample_managed_capability,
     ms_profiles = map sample_stage_profile [Chunk_stage, Intermediate_stage, Structural_stage, Root_stage],
     ms_max_request_bytes = 3000000, ms_max_envelope_bytes = None, ms_max_evidence = 256, ms_child_input_bytes = Some 4096, ms_total_seconds = 60\<rparr>"

definition sample_managed_provider :: "code_points provider" where
  "sample_managed_provider = \<lparr>pv_name = ''openai_compatible'', pv_model_id = (\<lambda>_. ''m''), pv_execute = (\<lambda>q. Inr ([123, 125], None))\<rparr>"

definition sample_managed :: managed_inference where
  "sample_managed = \<lparr>mi_provider = sample_managed_provider, mi_settings = sample_managed_settings, mi_schema = JObj [], mi_stage = Chunk_stage,
     mi_model = ''m'', mi_config = replicate 64 CHR ''0''\<rparr>"

definition sample_planning :: digestion_profile where
  "sample_planning = sample_digestion\<lparr>dp_context_tokens := 9000000\<rparr>"

lemma sample_schema_required: "generation_schema (JObj []) = Inr (JObj [])"
  by (simp add: generation_schema_def require_fields.simps)

lemma stage_texts_sorted: "sort [''chunk'', ''intermediate'', ''structural'', ''root''] = [''chunk'', ''intermediate'', ''root'', ''structural'']"
  by code_simp

lemma sample_settings_valid: "managed_settings_valid (JObj []) sample_managed_settings"
  unfolding managed_settings_valid_def Let_def
  by (simp add: sample_managed_settings_def sample_managed_capability_def sample_stage_profile_def capability_valid_def stage_profile_valid_def stage_fits_def
      sample_schema_required generation_schema_for_capability_def token_text_def token_char_def stage_texts_sorted del: sort_key_simps)

lemma sample_managed_new: "new_managed sample_prims (JObj []) sample_managed_provider sample_managed_settings Chunk_stage = Inr sample_managed"
  by (simp add: new_managed_def managed_binding_def validate_schema_provider_def sample_managed_def sample_managed_settings_def sample_managed_capability_def
      sample_managed_provider_def m_lift_def token_text_def token_char_def Let_def)

lemma sample_float: "length (float_repr sample_prims x) \<le> 10"
  by (simp add: sample_prims_def)

lemma instructions_length: "length (managed_instructions b) \<le> 3000"
  by (simp add: managed_instructions_def points_def)

lemma task_length: "length (stage_task st) \<le> 100"
  by (cases st) simp_all

lemma envelope_bound:
  assumes "\<And>x. length (float_repr H x) \<le> 10"
  shows "envelope_size H (managed_generation H s p schema q)
    \<le> int (12 * (3200 + json_bound (control_json H s p schema q)) + 6 * json_bound (material_json H q) + json_bound schema + 200)"
proof -
  let ?g = "managed_generation H s p schema q"
  have "length (gq_system ?g) \<le> 3200 + json_bound (control_json H s p schema q)"
    using instructions_length [of "ms_child_input_bytes s \<noteq> None"] task_length [of "sg_stage p"] length_canonical [OF assms, of "control_json H s p schema q"]
    unfolding managed_generation_def by (simp add: points_def del: canonical.simps json_bound.simps)
  moreover have "length (gq_data ?g) \<le> json_bound (material_json H q)"
    using length_canonical [OF assms, of "material_json H q"] by (simp add: managed_generation_def del: canonical.simps json_bound.simps)
  moreover have "gq_schema ?g = schema" by (simp add: managed_generation_def)
  ultimately show ?thesis
    using length_canonical [OF assms, of "JObj [(''system'', JText (gq_system ?g)), (''data'', JStr (gq_data ?g)), (''schema'', gq_schema ?g)]"]
    unfolding envelope_size_def by simp
qed

abbreviation sample_bound :: digestion_profile where "sample_bound \<equiv> bound_profile sample_managed sample_planning"

lemma sample_bound_valid: "digestion_profile_valid sample_bound"
  using sample_digestion_valid
  by (simp add: bound_profile_def sample_planning_def sample_managed_def template_version_def digestion_profile_valid_def digest_text_def token_text_def token_char_def
      sample_digestion_def)

lemma sample_control_bound:
  "json_bound (control_json sample_prims sample_managed_settings (sample_stage_profile st) (JObj []) (blank_request sample_bound st)) \<le> 20000"
  by (cases st; simp add: control_json_def Let_def blank_request_def bound_profile_def sample_planning_def sample_digestion_def sample_managed_settings_def
      sample_managed_def sample_stage_profile_def stage_profile_json_def template_version_def sorted_ids_def allowed_evidence_def required_links_def
      response_byte_limit_def bound_simps upt_rec)

lemma sample_material_bound: "json_bound (material_json sample_prims (blank_request sample_bound st)) \<le> 1000"
  by (simp add: material_json_def blank_request_def)

lemma sample_envelope:
  "0 < envelope_size sample_prims (managed_generation sample_prims sample_managed_settings (sample_stage_profile st) (JObj []) (blank_request sample_bound st))
   \<and> envelope_size sample_prims (managed_generation sample_prims sample_managed_settings (sample_stage_profile st) (JObj []) (blank_request sample_bound st)) \<le> 400000"
  using envelope_bound [of sample_prims sample_managed_settings "sample_stage_profile st" "JObj []" "blank_request sample_bound st", OF sample_float]
    sample_control_bound [of st] sample_material_bound [of st] by (simp add: envelope_size_def)

lemma sample_measure:
  "managed_measure sample_prims (sample_managed\<lparr>mi_stage := st\<rparr>) (blank_request sample_bound st)
   = Inr (envelope_size sample_prims (managed_generation sample_prims sample_managed_settings (sample_stage_profile st) (JObj []) (blank_request sample_bound st)))"
proof -
  have "profile_for (sample_managed\<lparr>mi_stage := st\<rparr>) st = Inr (sample_stage_profile st)"
    by (cases st) (simp_all add: profile_for_def map_of_dict_of sample_managed_def sample_managed_settings_def sample_stage_profile_def)
  moreover have "sg_output_tokens (sample_stage_profile st) = 100" by (simp add: sample_stage_profile_def)
  ultimately have "render_guard (sample_managed\<lparr>mi_stage := st\<rparr>) (blank_request sample_bound st) = Inr (sample_stage_profile st)"
    by (simp add: render_guard_def blank_request_def bound_profile_def sample_planning_def sample_digestion_def sample_managed_def sample_managed_provider_def)
  then show ?thesis
    by (simp add: managed_measure_def render_build_def Let_def sample_schema_required m_lift_def sample_managed_def allowed_evidence_def blank_request_def
        sample_managed_settings_def del: canonical.simps)
qed

lemma sample_base: "\<exists>base. envelope_base sample_prims sample_managed sample_bound = Inr base \<and> 0 < base \<and> base \<le> 400000"
proof -
  let ?n = "\<lambda>st. envelope_size sample_prims (managed_generation sample_prims sample_managed_settings (sample_stage_profile st) (JObj []) (blank_request sample_bound st))"
  have "remdups (map sg_stage (ms_profiles (mi_settings sample_managed))) = [Chunk_stage, Intermediate_stage, Structural_stage, Root_stage]"
    by (simp add: sample_managed_def sample_managed_settings_def sample_stage_profile_def)
  then have "envelope_base sample_prims sample_managed sample_bound
      = Inr (max (max (max (max 0 (?n Chunk_stage)) (?n Intermediate_stage)) (?n Structural_stage)) (?n Root_stage))"
    by (simp add: envelope_base_def new_managedD(6) [OF sample_managed_new] sample_measure)
  then show ?thesis using sample_envelope [of Chunk_stage] sample_envelope [of Intermediate_stage] sample_envelope [of Structural_stage]
      sample_envelope [of Root_stage] by (simp add: less_max_iff_disj)
qed

lemma sample_limit: "input_limit sample_managed_settings = 2000000"
  by (simp add: input_limit_def sample_managed_settings_def sample_managed_capability_def sample_stage_profile_def)

abbreviation sample_bounded :: "int \<Rightarrow> digestion_profile" where
  "sample_bounded base \<equiv> sample_bound\<lparr>dp_managed_input_budget := Some \<lparr>mb_input_bytes = 2000000, mb_base_bytes = base, mb_child_bytes = 4096\<rparr>\<rparr>"

lemma sample_managed_profile: "\<exists>base. managed_profile sample_prims sample_managed sample_planning = Inr (sample_bounded base) \<and> 0 < base \<and> base \<le> 400000"
proof -
  from sample_base obtain base where base: "envelope_base sample_prims sample_managed sample_bound = Inr base" "0 < base" "base \<le> 400000" by blast
  have s: "mi_settings sample_managed = sample_managed_settings" "ms_child_input_bytes sample_managed_settings = Some 4096"
    by (simp_all add: sample_managed_def sample_managed_settings_def)
  show ?thesis using base sample_limit s
    by (intro exI [of _ base]) (simp add: managed_profile_def Let_def sample_bound_valid budget_valid_def)
qed

lemma digits_length: "length (digits_rev n) \<le> Suc n"
proof (induction n rule: digits_rev.induct)
  case (1 n)
  show ?case
  proof (cases "n < 10")
    case True
    then show ?thesis by (subst digits_rev.simps) simp
  next
    case False
    then have "length (digits_rev (n div 10)) \<le> Suc (n div 10)" using 1 by blast
    with False show ?thesis by (subst digits_rev.simps) simp
  qed
qed

lemma int_text_length: "0 \<le> i \<Longrightarrow> length (int_text i) \<le> Suc (nat i)"
  using digits_length [of "nat i"] by (simp add: int_text_def nat_text_def)

definition sample_managed_request :: "int \<Rightarrow> stage_request" where
  "sample_managed_request base = sample_chunk_request\<lparr>rq_profile := sample_bounded base\<rparr>"

lemma sample_request_json_bound:
  assumes "0 < base" and "base \<le> 400000"
  shows "json_bound (request_json (sample_managed_request base)) \<le> 1000000"
proof -
  have "length (int_text base) \<le> 400001" using int_text_length [of base] assms by simp
  then show ?thesis
    by (simp add: sample_managed_request_def sample_chunk_request_def bound_profile_def sample_planning_def sample_digestion_def sample_managed_def
       template_version_def sample_piece_def request_json_def digestion_profile_json_def budget_json_def piece_json_def evidence_json_def span_json_def scope_json_def
       uuid_json_def opt_json_def cells_json_def uuid_text_length) (simp add: int_text_def nat_text_def digits_rev.simps)
qed

lemma sample_bounded_valid: "0 < base \<Longrightarrow> digestion_profile_valid (sample_bounded base)"
  using sample_bound_valid by (simp add: digestion_profile_valid_def budget_valid_def)

lemma sample_rendered_size: "rendered_size sample_prims b (sample_managed_request base) \<le> mb_base_bytes b + 100000"
proof -
  have "escaped_size sample_prims v \<le> 6 * int (json_bound v)" for v
    using length_concat_bound [of escape_char 6 "canonical sample_prims v"] length_escape_char length_canonical [OF sample_float, of v]
    by (simp add: escaped_size_esc esc_def del: canonical.simps json_bound.simps)
  note this [of "JArr (map (rendered_piece sample_prims) [sample_piece])"] this [of "sorted_ids (map (evidence_id sample_prims) [sample_piece])"]
  then show ?thesis
    by (simp add: rendered_size_def rendered_piece_size reduction_size_def sample_managed_request_def sample_chunk_request_def del: canonical.simps)
      (simp add: rendered_piece_def sample_piece_def sorted_ids_def uuid_json_def cells_json_def opt_json_def uuid_text_length evidence_id_def del: canonical.simps)
qed

lemma sample_managed_check:
  assumes "0 < base" and "base \<le> 400000"
  shows "\<exists>n. check_request sample_prims (sample_managed_request base) = Inr n"
proof -
  let ?q = "sample_managed_request base"
  let ?b = "\<lparr>mb_input_bytes = 2000000, mb_base_bytes = base, mb_child_bytes = 4096\<rparr>"
  have valid: "request_valid sample_prims ?q"
    using sample_chunk_request_valid sample_bounded_valid [OF assms(1)]
    by (simp add: request_valid_def sample_managed_request_def sample_chunk_request_def material_boundary_def)
  have q: "dp_managed_input_budget (rq_profile ?q) = Some ?b" "rq_children ?q = []" "dp_context_tokens (rq_profile ?q) = 9000000"
      "dp_template_tokens (rq_profile ?q) = 10" "dp_reserved_output_tokens (rq_profile ?q) = 100"
    by (simp_all add: sample_managed_request_def sample_chunk_request_def bound_profile_def sample_planning_def sample_digestion_def)
  have "length (canonical sample_prims (request_json ?q)) \<le> 1000000"
    using length_canonical [OF sample_float, of "request_json ?q"] sample_request_json_bound [OF assms] by linarith
  moreover have "rendered_size sample_prims ?b ?q \<le> 500000" using sample_rendered_size [of ?b base] assms(2) by simp
  ultimately show ?thesis
    by (simp add: check_request_def request_size_def encode_def estimate_def valid q del: canonical.simps)
qed

theorem planned_requests_fit_witness:
  "\<exists>base g. managed_render sample_prims sample_managed (sample_managed_request base) = Inr (g, request_estimate sample_prims g)
    \<and> request_estimate sample_prims g + gq_output_tokens g \<le> 3000000"
proof -
  from sample_managed_profile obtain base where base: "managed_profile sample_prims sample_managed sample_planning = Inr (sample_bounded base)"
    "0 < base" "base \<le> 400000" by blast
  from sample_managed_check [OF base(2,3)] obtain n where check: "check_request sample_prims (sample_managed_request base) = Inr n" by blast
  have child: "ms_child_input_bytes sample_managed_settings = Some 4096" by (simp add: sample_managed_settings_def)
  have profile: "managed_profile sample_prims sample_managed sample_planning = Inr (rq_profile (sample_managed_request base))"
    using base(1) by (simp add: sample_managed_request_def)
  have stage: "(rq_stage (sample_managed_request base) = Analysis) = (Chunk_stage = Chunk_stage)"
    by (simp add: sample_managed_request_def sample_chunk_request_def)
  have evidence: "int (length (remdups (map uuid_text (allowed_evidence sample_prims (sample_managed_request base))))) \<le> ms_max_evidence sample_managed_settings"
    by (simp add: sample_managed_request_def sample_chunk_request_def allowed_evidence_def sample_managed_settings_def)
  from planned_requests_fit [OF sample_settings_valid sample_managed_new child profile check stage evidence]
  show ?thesis by (auto simp: sample_managed_settings_def sample_managed_capability_def)
qed

end
