(* ===== verification/ProviderHttp.thy ===== *)
theory ProviderHttp
  imports Execution Utf8Text
begin

text \<open>
  Bounded HTTP for the provider adapters (llm/bounded_http.py) and the mapping of statuses to errors (llm/operational.py). What the
  network does is an argument: the outcome of the request, the chunks of the body with the time that has passed at each
  of them, and the end of the body. The JSON parser is an argument too; it refuses repeated keys.
\<close>

section \<open>Values of a response\<close>

text \<open>\<^verbatim>\<open>value.get(key)\<close> of a dictionary; the absent value and null are not distinguished by the callers.\<close>

fun jget :: "string \<Rightarrow> json \<Rightarrow> json" where
  "jget k (JObj d) = (case map_of d k of Some v \<Rightarrow> v | None \<Rightarrow> JNull)"
| "jget k _ = JNull"

text \<open>\<^verbatim>\<open>value[key]\<close>, which raises when the value is not a dictionary or lacks the key.\<close>

fun json_item :: "string \<Rightarrow> json \<Rightarrow> json option" where
  "json_item k (JObj d) = map_of d k"
| "json_item k _ = None"

fun json_chars :: "json \<Rightarrow> code_points option" where
  "json_chars (JStr s) = Some (map of_char s)"
| "json_chars (JText t) = Some t"
| "json_chars _ = None"

definition is_text :: "string \<Rightarrow> json \<Rightarrow> bool" where
  "is_text s v \<longleftrightarrow> json_chars v = Some (map of_char s)"

fun json_mapping :: "json \<Rightarrow> bool" where
  "json_mapping (JObj _) = True"
| "json_mapping _ = False"

text \<open>A count: an integer that is not negative (a Boolean is not one).\<close>

fun json_count :: "json \<Rightarrow> int option" where
  "json_count (JInt n) = (if 0 \<le> n then Some n else None)"
| "json_count _ = None"

section \<open>Statuses\<close>

definition error_for_status :: "int option \<Rightarrow> inference_error" where
  "error_for_status status = (case status of None \<Rightarrow> InferenceConnectionError
     | Some n \<Rightarrow> if n \<in> {401, 403} then InferenceAuthenticationError
         else if n = 404 then InferenceModelUnavailableError
         else if n \<in> {408, 504} then InferenceTimeoutError
         else if n \<in> {429, 502, 503} then InferenceRateLimitError None
         else InferenceError)"

definition application_status :: "inference_error \<Rightarrow> int" where
  "application_status e = (if category e \<in> {''provider_unreachable'', ''timeout'', ''authentication_failure'', ''overloaded'', ''model_unavailable''}
     then 503 else 502)"

text \<open>A request identifier of the caller is kept when it is safe to log, and replaced by a fresh one otherwise.\<close>

definition safe_char :: "char \<Rightarrow> bool" where
  "safe_char c \<longleftrightarrow> c \<in> set ''ABCDEFGHIJKLMNOPQRSTUVWXYZabcdefghijklmnopqrstuvwxyz0123456789''"

definition normalize_request_id :: "string \<Rightarrow> string option \<Rightarrow> string" where
  "normalize_request_id fresh value = (case value of
      Some (c # cs) \<Rightarrow> if safe_char c \<and> length cs \<le> 63 \<and> list_all (\<lambda>x. safe_char x \<or> x \<in> set ''._:-'') cs then c # cs else fresh
    | _ \<Rightarrow> fresh)"

text \<open>The \<^verbatim>\<open>Retry-After\<close> header as a number of seconds or a date read it, if they can.\<close>

datatype retry_header = Retry_absent | Retry_seconds rat | Retry_unreadable

definition retry_after :: "retry_header \<Rightarrow> rat option" where
  "retry_after h = (case h of Retry_seconds s \<Rightarrow> Some (min 604800 (max 0 s)) | _ \<Rightarrow> None)"

section \<open>Reading a response\<close>

datatype body_end = Body_done rat | Body_timeout | Body_failed

record http_response =
  hr_status :: int
  hr_retry :: retry_header
  hr_chunks :: "(rat \<times> bytes) list"
  hr_end :: body_end
  hr_close_fails :: bool

datatype post_outcome = Post_timeout | Post_failed | Post_response http_response

text \<open>The diagnosis of a rejected request reads at most 4096 bytes and keeps a classification only.\<close>

fun read_rejection :: "rat \<Rightarrow> (rat \<times> bytes) list \<Rightarrow> bytes \<Rightarrow> bytes option" where
  "read_rejection deadline [] data = Some data"
| "read_rejection deadline ((t, chunk) # chunks) data =
     (if t > deadline \<or> length data + length chunk > 4096 then None else read_rejection deadline chunks (data @ chunk))"

definition schema_rejected :: "json \<Rightarrow> bool" where
  "schema_rejected e \<longleftrightarrow> json_mapping e \<and>
     ((is_text ''invalid_json_schema'' (jget ''code'' e) \<or> is_text ''json_schema_invalid'' (jget ''code'' e))
        \<and> (is_text ''response_format'' (jget ''param'' e) \<or> is_text ''response_format.json_schema'' (jget ''param'' e)
           \<or> is_text ''response_format.json_schema.schema'' (jget ''param'' e))
      \<or> is_text ''invalid_request_error'' (jget ''code'' e) \<and> is_text ''response_format'' (jget ''param'' e)
        \<and> (case json_chars (jget ''message'' e) of None \<Rightarrow> False
           | Some t \<Rightarrow> take 34 t = map of_char ''Invalid schema for response_format''))"

definition rejection_diagnostics :: "(bytes \<Rightarrow> json option) \<Rightarrow> rat \<Rightarrow> http_response \<Rightarrow> int \<times> string" where
  "rejection_diagnostics loads deadline r =
     (hr_status r,
      case (read_rejection deadline (hr_chunks r) [], hr_end r) of
        (Some data, Body_done _) \<Rightarrow> (case loads data of Some v \<Rightarrow> if schema_rejected (jget ''error'' v) then ''strict_schema_rejected'' else ''request_configuration''
           | None \<Rightarrow> ''request_configuration'')
      | _ \<Rightarrow> ''request_configuration'')"

fun read_body :: "rat \<Rightarrow> int \<Rightarrow> (rat \<times> bytes) list \<Rightarrow> body_end \<Rightarrow> bytes \<Rightarrow> inference_error + bytes" where
  "read_body deadline limit [] (Body_done t) data = (if t > deadline then Inl InferenceTimeoutError else Inr data)"
| "read_body deadline limit [] Body_timeout data = Inl InferenceTimeoutError"
| "read_body deadline limit [] Body_failed data = Inl InferenceConnectionError"
| "read_body deadline limit ((t, chunk) # chunks) fin data =
     (if t > deadline then Inl InferenceTimeoutError
      else if int (length data + length chunk) > limit then Inl InferenceOutputLimitError
      else read_body deadline limit chunks fin (data @ chunk))"

definition status_error :: "http_response \<Rightarrow> inference_error option" where
  "status_error r = (let n = hr_status r in
     if 300 \<le> n \<and> n < 400 then Some InferenceConfigurationError
     else if n \<ge> 400 then Some (
       if n \<in> {429, 502, 503} then InferenceRateLimitError (retry_after (hr_retry r))
       else if n \<in> {400, 422} then InferenceConfigurationError
       else if n \<ge> 500 \<and> n \<notin> {502, 503, 504} then InferenceConnectionError
       else error_for_status (Some n))
     else None)"

definition bounded_request_json :: "(bytes \<Rightarrow> json option) \<Rightarrow> post_outcome \<Rightarrow> rat \<Rightarrow> int \<Rightarrow> inference_error + json" where
  "bounded_request_json loads outcome deadline limit = (case outcome of
      Post_timeout \<Rightarrow> Inl InferenceTimeoutError
    | Post_failed \<Rightarrow> Inl InferenceConnectionError
    | Post_response r \<Rightarrow> (case status_error r of Some e \<Rightarrow> Inl e
        | None \<Rightarrow> sbind (read_body deadline limit (hr_chunks r) (hr_end r) []) (\<lambda>data.
            case loads data of None \<Rightarrow> Inl InferenceResponseError
            | Some v \<Rightarrow> if hr_close_fails r then Inl InferenceConnectionError else Inr v)))"

definition validate_request :: "generation_request \<Rightarrow> inference_error + unit" where
  "validate_request q =
     (if (case gq_max_envelope_bytes q of None \<Rightarrow> False | Some n \<Rightarrow> \<not> (0 < n \<and> n \<le> 24008192)) then Inl InferenceConfigurationError
      else if \<not> (0 < gq_output_tokens q \<and> gq_output_tokens q \<le> cp_max_output_tokens (gq_capability q))
        \<or> \<not> (0 < gq_response_bytes q \<and> gq_response_bytes q \<le> 4000000)
        \<or> \<not> (0 < gq_total_seconds q \<and> gq_total_seconds q \<le> 600) then Inl InferenceConfigurationError
      else Inr ())"

definition envelope_limit :: "generation_request \<Rightarrow> int" where
  "envelope_limit q = (case gq_max_envelope_bytes q of Some n \<Rightarrow> n | None \<Rightarrow> gq_response_bytes q * 6 + 8192)"

definition truncated :: "json \<Rightarrow> bool" where
  "truncated reason \<longleftrightarrow> is_text ''length'' reason \<or> is_text ''max_tokens'' reason"

text \<open>The text of a complete result within the response size. Text that has no encoding raises an exception outside the
  vocabulary of inference errors.\<close>

definition result_text :: "json \<Rightarrow> generation_request \<Rightarrow> json \<Rightarrow> exec_exn + code_points" where
  "result_text content q reason =
     (let bad = Inl (Exn_inference InferenceResponseError) in
      case json_chars content of
        None \<Rightarrow> if content = JNull \<and> truncated reason then Inl (Exn_inference InferenceOutputLimitError) else bad
      | Some t \<Rightarrow> (case utf8_encode t of None \<Rightarrow> Inl Exn_other
          | Some data \<Rightarrow>
              if reason \<noteq> JNull \<and> json_chars reason = None then bad
              else if int (length data) > gq_response_bytes q \<or> truncated reason then Inl (Exn_inference InferenceOutputLimitError)
              else if reason \<noteq> JNull \<and> \<not> is_text ''stop'' reason then bad
              else Inr t))"

section \<open>Bounds\<close>

lemma read_body_bounded:
  "read_body deadline limit chunks fin data = Inr out \<Longrightarrow> int (length data) \<le> limit
    \<Longrightarrow> int (length out) \<le> limit \<and> (\<exists>t. fin = Body_done t \<and> t \<le> deadline) \<and> out = data @ concat (map snd chunks)"
  by (induction deadline limit chunks fin data rule: read_body.induct) (auto split: if_splits)

lemma result_text_bounded:
  assumes "result_text content q reason = Inr t"
  shows "\<exists>data. utf8_encode t = Some data \<and> int (length data) \<le> gq_response_bytes q"
    and "json_chars content = Some t" and "reason = JNull \<or> is_text ''stop'' reason"
  using assms by (auto simp: result_text_def Let_def split: option.splits if_splits)

end
