(* ===== verification/Providers.thy ===== *)
theory Providers
  imports ProviderHttp
begin

text \<open>
  The provider adapters (llm/openai_compatible.py and llm/ollama_client.py): the bounded execution that the governed call uses, the plain
  and the streamed generation, and the readiness probe. The transport is an argument of every operation; logging and
  metrics are left out. Of a result the text and the usage are kept, and of a failure the error and the usage that it carries.
\<close>

section \<open>The OpenAI-compatible adapter\<close>

record openai_provider =
  op_model_map :: "(string \<times> string) list"
  op_parameters :: "(string \<times> json) list"
  op_readiness_model_check :: bool
  op_readiness_retries :: nat

text \<open>Construction: the authentication header is one of two, and the parameters leave the reserved keys alone.\<close>

definition new_openai :: "string \<Rightarrow> openai_provider \<Rightarrow> openai_provider option" where
  "new_openai authentication_header pv =
     (if authentication_header \<notin> {''Authorization'', ''api-key''} then None
      else if list_ex (\<lambda>(k, v). k \<in> {''model'', ''messages'', ''stream''}) (op_parameters pv) then None else Some pv)"

text \<open>The code points that \<^verbatim>\<open>str.strip\<close> removes.\<close>

definition white_space :: "nat \<Rightarrow> bool" where
  "white_space c \<longleftrightarrow> 9 \<le> c \<and> c \<le> 13 \<or> 28 \<le> c \<and> c \<le> 32 \<or> 0x2000 \<le> c \<and> c \<le> 0x200A
     \<or> c \<in> {0x85, 0xA0, 0x1680, 0x2028, 0x2029, 0x202F, 0x205F, 0x3000}"

definition strip :: "code_points \<Rightarrow> code_points" where
  "strip t = rev (dropWhile white_space (rev (dropWhile white_space t)))"

text \<open>The headers of a request; a blank key adds none.\<close>

definition openai_headers :: "string option \<Rightarrow> string \<Rightarrow> (string \<times> string) list" where
  "openai_headers api_key authentication_header = (''Accept'', ''application/json'') #
     (case api_key of None \<Rightarrow> []
      | Some key \<Rightarrow> if strip (map of_char key) = [] then []
          else [(authentication_header, if authentication_header = ''Authorization'' then ''Bearer '' @ key else key)])"

definition openai_model_id :: "openai_provider \<Rightarrow> model_role \<Rightarrow> inference_error + string" where
  "openai_model_id pv role = (case map_of (op_model_map pv) (role_value role) of None \<Rightarrow> Inl InferenceResponseError | Some m \<Rightarrow> Inr m)"

definition chat_message :: "string \<Rightarrow> json \<Rightarrow> json" where
  "chat_message role content = JObj [(''role'', JStr role), (''content'', content)]"

definition openai_payload :: "openai_provider \<Rightarrow> code_points \<Rightarrow> model_role \<Rightarrow> bool \<Rightarrow> inference_error + json" where
  "openai_payload pv prompt role stream = sbind (openai_model_id pv role) (\<lambda>model.
     Inr (JObj (fold (\<lambda>(k, v). dict_put k v) (op_parameters pv)
       [(''model'', JStr model), (''messages'', JArr [chat_message ''user'' (JText prompt)]), (''stream'', JBool stream)])))"

definition completion_content :: "json \<Rightarrow> inference_error + code_points" where
  "completion_content payload = (case jget ''choices'' payload of
      JArr (c # _) \<Rightarrow> (case json_chars (jget ''content'' (jget ''message'' c)) of Some t \<Rightarrow> Inr t | None \<Rightarrow> Inl InferenceResponseError)
    | _ \<Rightarrow> Inl InferenceResponseError)"

definition openai_usage :: "json \<Rightarrow> inference_usage option" where
  "openai_usage payload = (case jget ''usage'' payload of
      JObj d \<Rightarrow> (let u = \<lparr>prompt_tokens = json_count (jget ''prompt_tokens'' (JObj d)), completion_tokens = json_count (jget ''completion_tokens'' (JObj d)),
                         total_tokens = json_count (jget ''total_tokens'' (JObj d))\<rparr>
                in if u = \<lparr>prompt_tokens = None, completion_tokens = None, total_tokens = None\<rparr> then None else Some u)
    | _ \<Rightarrow> None)"

subsection \<open>Bounded execution\<close>

definition execute_payload :: "string \<Rightarrow> json \<Rightarrow> generation_request \<Rightarrow> json" where
  "execute_payload model schema q =
     (let cap = gq_capability q in
      JObj ([(''model'', JStr model), (''stream'', JBool False),
        (''messages'', JArr [chat_message ''system'' (JText (gq_system q)), chat_message ''user'' (JStr (gq_data q))]),
        (output_parameter_value (cp_output_parameter cap), JInt (gq_output_tokens q))]
        @ (case cp_temperature cap of None \<Rightarrow> [] | Some t \<Rightarrow> [(''temperature'', JFloat t)])
        @ (case cp_reasoning_effort cap of None \<Rightarrow> [] | Some e \<Rightarrow> [(''reasoning_effort'', JStr e)])
        @ (case cp_structured_output cap of Prompt_mode \<Rightarrow> []
           | Json_object_mode \<Rightarrow> [(''response_format'', JObj [(''type'', JStr ''json_object'')])]
           | Json_schema_mode \<Rightarrow> [(''response_format'', JObj [(''type'', JStr ''json_schema''), (''json_schema'', JObj
               [(''name'', JStr (if cp_schema_profile cap \<noteq> None then ''polymind_stage_result'' else ''stage_result'')),
                (''strict'', JBool (cp_schema_profile cap \<noteq> None)), (''schema'', schema)])])])))"

text \<open>The usage of a response, which is refused when it is malformed or does not add up.\<close>

definition counts_invalid :: "json \<Rightarrow> bool" where
  "counts_invalid u \<longleftrightarrow>
     (let p = jget ''prompt_tokens'' u; c = jget ''completion_tokens'' u; t = jget ''total_tokens'' u; details = jget ''completion_tokens_details'' u in
      list_ex (\<lambda>v. v \<noteq> JNull \<and> json_count v = None) [p, c, t]
      \<or> (case (json_count p, json_count c, json_count t) of (Some a, Some b, Some s) \<Rightarrow> s \<noteq> a + b | _ \<Rightarrow> False)
      \<or> details \<noteq> JNull \<and> (\<not> json_mapping details
           \<or> (let r = jget ''reasoning_tokens'' details in r \<noteq> JNull \<and> (case (json_count r, json_count c) of (Some n, Some b) \<Rightarrow> n > b | _ \<Rightarrow> True))))"

definition checked_usage :: "json \<Rightarrow> inference_error + inference_usage option" where
  "checked_usage value = (case jget ''usage'' value of
      JNull \<Rightarrow> Inr (openai_usage value)
    | JObj d \<Rightarrow> if counts_invalid (JObj d) then Inl InferenceResponseError else Inr (openai_usage value)
    | _ \<Rightarrow> Inl InferenceResponseError)"

definition first_choice :: "json \<Rightarrow> json" where
  "first_choice value = (case jget ''choices'' value of JArr (c # _) \<Rightarrow> if json_mapping c then c else JObj [] | _ \<Rightarrow> JObj [])"

text \<open>A strict response has one choice with a message, no refusal and a reason to end.\<close>

definition strict_ok :: "json \<Rightarrow> bool" where
  "strict_ok value = (case jget ''choices'' value of
      JArr [c] \<Rightarrow> json_mapping c \<and> json_mapping (jget ''message'' c) \<and> jget ''refusal'' (jget ''message'' c) = JNull \<and> jget ''finish_reason'' c \<noteq> JNull
    | _ \<Rightarrow> False)"

definition model_ok :: "string \<Rightarrow> capability_profile \<Rightarrow> json \<Rightarrow> bool" where
  "model_ok model cap returned \<longleftrightarrow> returned = JNull \<or> list_ex (\<lambda>m. is_text m returned) (model # cp_response_models cap)"

definition openai_result :: "string \<Rightarrow> generation_request \<Rightarrow> json \<Rightarrow> failure_value + (code_points \<times> inference_usage option)" where
  "openai_result model q value =
     (case checked_usage value of Inl e \<Rightarrow> Inl (Exn_inference e, None)
      | Inr usage \<Rightarrow>
          (let cap = gq_capability q; first = first_choice value; msg = jget ''message'' first; reason = jget ''finish_reason'' first in
           if cp_schema_profile cap \<noteq> None \<and> \<not> strict_ok value then Inl (Exn_inference InferenceResponseError, usage)
           else case (if json_mapping msg \<and> jget ''content'' msg = JNull \<and> truncated reason then Inr JNull
                      else (case completion_content value of Inl e \<Rightarrow> Inl e | Inr t \<Rightarrow> Inr (JText t))) of
               Inl e \<Rightarrow> Inl (Exn_inference e, usage)
             | Inr content \<Rightarrow>
                 if \<not> model_ok model cap (jget ''model'' value) then Inl (Exn_inference InferenceResponseError, usage)
                 else case result_text content q reason of
                     Inl Exn_other \<Rightarrow> Inl (Exn_other, None)
                   | Inl e \<Rightarrow> Inl (e, usage)
                   | Inr t \<Rightarrow> Inr (t, usage)))"

definition openai_execute :: "(bytes \<Rightarrow> json option) \<Rightarrow> (json \<Rightarrow> post_outcome) \<Rightarrow> openai_provider \<Rightarrow> generation_request
    \<Rightarrow> failure_value + (code_points \<times> inference_usage option)" where
  "openai_execute loads post pv q =
     (case sbind (validate_request q) (\<lambda>_. sbind (generation_schema_for_capability (gq_capability q) (gq_schema q)) (\<lambda>schema.
             sbind (openai_model_id pv (gq_role q)) (\<lambda>model.
             sbind (bounded_request_json loads (post (execute_payload model schema q)) (gq_total_seconds q) (envelope_limit q)) (\<lambda>value. Inr (model, value))))) of
        Inl e \<Rightarrow> Inl (Exn_inference e, None)
      | Inr (model, value) \<Rightarrow> openai_result model q value)"

subsection \<open>Plain and streamed generation\<close>

datatype plain_outcome = Plain_timeout | Plain_failed "int option" | Plain_json json | Plain_unparsable

definition openai_generate :: "(json \<Rightarrow> plain_outcome) \<Rightarrow> openai_provider \<Rightarrow> code_points \<Rightarrow> model_role \<Rightarrow> inference_error + (code_points \<times> inference_usage option)" where
  "openai_generate post pv prompt role = sbind (openai_payload pv prompt role False) (\<lambda>payload.
     case post payload of
       Plain_timeout \<Rightarrow> Inl InferenceTimeoutError
     | Plain_failed status \<Rightarrow> Inl (error_for_status status)
     | Plain_unparsable \<Rightarrow> Inl InferenceResponseError
     | Plain_json v \<Rightarrow> sbind (completion_content v) (\<lambda>t. Inr (t, openai_usage v)))"

text \<open>The content of one event of a stream: none for a closing or filtering event.\<close>

definition stream_content :: "json \<Rightarrow> inference_error + code_points option" where
  "stream_content payload = (case jget ''choices'' payload of
      JArr [] \<Rightarrow> if json_mapping (jget ''usage'' payload) then Inr None
        else (case jget ''prompt_filter_results'' payload of
            JArr items \<Rightarrow> if list_all json_mapping items then Inr None else Inl InferenceResponseError
          | _ \<Rightarrow> Inl InferenceResponseError)
    | JArr (c # _) \<Rightarrow> (case jget ''delta'' c of
          JObj d \<Rightarrow> (case jget ''content'' (JObj d) of JNull \<Rightarrow> Inr None
            | v \<Rightarrow> (case json_chars v of Some t \<Rightarrow> Inr (Some t) | None \<Rightarrow> Inl InferenceResponseError))
        | _ \<Rightarrow> Inl InferenceResponseError)
    | _ \<Rightarrow> Inl InferenceResponseError)"

text \<open>The lines of a stream end, or the connection fails; \<open>loads\<close> parses the data of a line.\<close>

datatype stream_end = Stream_closed | Stream_timeout | Stream_failed "int option"

fun openai_lines :: "(code_points \<Rightarrow> json option) \<Rightarrow> code_points list \<Rightarrow> stream_end \<Rightarrow> code_points list \<times> inference_error option" where
  "openai_lines loads [] Stream_closed = ([], Some InferenceResponseError)"
| "openai_lines loads [] Stream_timeout = ([], Some InferenceTimeoutError)"
| "openai_lines loads [] (Stream_failed status) = ([], Some (error_for_status status))"
| "openai_lines loads (line # lines) fin =
     (if line = [] \<or> take 1 line = map of_char '':'' then openai_lines loads lines fin
      else if take 5 line \<noteq> map of_char ''data:'' then ([], Some InferenceResponseError)
      else if strip (drop 5 line) = map of_char ''[DONE]'' then ([], None)
      else case loads (strip (drop 5 line)) of None \<Rightarrow> ([], Some InferenceResponseError)
        | Some payload \<Rightarrow> (case stream_content payload of Inl e \<Rightarrow> ([], Some e)
            | Inr content \<Rightarrow> (let (parts, err) = openai_lines loads lines fin in
                (case content of Some (c # cs) \<Rightarrow> ((c # cs) # parts, err) | _ \<Rightarrow> (parts, err)))))"

datatype 'l stream_outcome = Open_timeout | Open_failed "int option" | Open_lines "'l list" stream_end

definition openai_generate_stream :: "(code_points \<Rightarrow> json option) \<Rightarrow> (json \<Rightarrow> code_points stream_outcome) \<Rightarrow> openai_provider
    \<Rightarrow> code_points \<Rightarrow> model_role \<Rightarrow> code_points list \<times> inference_error option" where
  "openai_generate_stream loads post pv prompt role = (case openai_payload pv prompt role True of
      Inl e \<Rightarrow> ([], Some e)
    | Inr payload \<Rightarrow> (case post payload of
          Open_timeout \<Rightarrow> ([], Some InferenceTimeoutError)
        | Open_failed status \<Rightarrow> ([], Some (error_for_status status))
        | Open_lines lines fin \<Rightarrow> openai_lines loads lines fin))"

subsection \<open>Readiness\<close>

datatype readiness_status = Ready | Unreachable | Probe_timeout | Authentication_failure | Overloaded | Model_unavailable | Protocol_failure | Upstream_failure

text \<open>The status of the category of an error; a probe meets only the errors of a transport status, which are the first six.\<close>

fun readiness_of :: "inference_error \<Rightarrow> readiness_status" where
  "readiness_of InferenceError = Upstream_failure"
| "readiness_of InferenceConnectionError = Unreachable"
| "readiness_of InferenceTimeoutError = Probe_timeout"
| "readiness_of InferenceAuthenticationError = Authentication_failure"
| "readiness_of (InferenceRateLimitError _) = Overloaded"
| "readiness_of InferenceModelUnavailableError = Model_unavailable"
| "readiness_of _ = Protocol_failure"

definition retryable_status :: "readiness_status \<Rightarrow> bool" where
  "retryable_status s \<longleftrightarrow> s \<in> {Unreachable, Probe_timeout, Overloaded, Upstream_failure}"

text \<open>The identifiers that a listing offers under a key; a malformed entry refuses the listing.\<close>

definition listed_models :: "string \<Rightarrow> json list \<Rightarrow> code_points list option" where
  "listed_models key items = those (map (\<lambda>i. json_chars (jget key i)) items)"

definition openai_probe :: "openai_provider \<Rightarrow> string list \<Rightarrow> plain_outcome \<Rightarrow> readiness_status" where
  "openai_probe pv models outcome = (case outcome of
      Plain_timeout \<Rightarrow> Probe_timeout
    | Plain_failed status \<Rightarrow> readiness_of (error_for_status status)
    | Plain_unparsable \<Rightarrow> Protocol_failure
    | Plain_json v \<Rightarrow> (case jget ''data'' v of
          JArr items \<Rightarrow> (case listed_models ''id'' items of None \<Rightarrow> Protocol_failure
            | Some ids \<Rightarrow> if \<not> op_readiness_model_check pv \<or> set (map (map of_char) models) \<subseteq> set ids then Ready else Model_unavailable)
        | _ \<Rightarrow> Protocol_failure))"

fun probe_loop :: "(nat \<Rightarrow> readiness_status) \<Rightarrow> nat \<Rightarrow> nat \<Rightarrow> readiness_status" where
  "probe_loop probe attempt 0 = probe attempt"
| "probe_loop probe attempt (Suc retries) =
     (if retryable_status (probe attempt) then probe_loop probe (Suc attempt) retries else probe attempt)"

definition role_models :: "(model_role \<Rightarrow> inference_error + string) \<Rightarrow> inference_error + string list" where
  "role_models model_id = collect model_id [GENERAL, CODING, SUMMARIZATION, FAST]"

definition openai_readiness :: "(nat \<Rightarrow> plain_outcome) \<Rightarrow> openai_provider \<Rightarrow> inference_error + readiness_status" where
  "openai_readiness get pv = sbind (role_models (openai_model_id pv)) (\<lambda>models.
     Inr (probe_loop (\<lambda>n. openai_probe pv models (get n)) 0 (op_readiness_retries pv)))"

section \<open>The Ollama adapter\<close>

record ollama_client =
  oc_model :: "string option"
  oc_model_map :: "(string \<times> string) list"
  oc_readiness_retries :: nat

text \<open>A model that is set, and not empty, serves every role.\<close>

definition ollama_model_id :: "ollama_client \<Rightarrow> model_role \<Rightarrow> inference_error + string" where
  "ollama_model_id oc role = (case oc_model oc of
      Some (c # m) \<Rightarrow> Inr (c # m)
    | _ \<Rightarrow> (case map_of (oc_model_map oc) (role_value role) of None \<Rightarrow> Inl InferenceResponseError | Some m \<Rightarrow> Inr m))"

definition ollama_payload :: "ollama_client \<Rightarrow> code_points \<Rightarrow> model_role \<Rightarrow> bool \<Rightarrow> inference_error + json" where
  "ollama_payload oc prompt role stream = sbind (ollama_model_id oc role) (\<lambda>model.
     Inr (JObj [(''model'', JStr model), (''messages'', JArr [chat_message ''user'' (JText prompt)]), (''stream'', JBool stream)]))"

text \<open>The listing must name every entry, and name each of them once.\<close>

definition ollama_probe :: "string list \<Rightarrow> plain_outcome \<Rightarrow> readiness_status" where
  "ollama_probe models outcome = (case outcome of
      Plain_timeout \<Rightarrow> Probe_timeout
    | Plain_failed status \<Rightarrow> readiness_of (error_for_status status)
    | Plain_unparsable \<Rightarrow> Protocol_failure
    | Plain_json v \<Rightarrow> (case jget ''models'' v of
          JArr items \<Rightarrow> (let available = remdups (List.map_filter (\<lambda>i. json_chars (jget ''name'' i)) items) in
            if length available \<noteq> length items then Protocol_failure
            else if set (map (map of_char) models) \<subseteq> set available then Ready else Model_unavailable)
        | _ \<Rightarrow> Protocol_failure))"

definition ollama_readiness :: "(nat \<Rightarrow> plain_outcome) \<Rightarrow> ollama_client \<Rightarrow> inference_error + readiness_status" where
  "ollama_readiness get oc = sbind (role_models (ollama_model_id oc)) (\<lambda>models.
     Inr (probe_loop (\<lambda>n. ollama_probe models (get n)) 0 (oc_readiness_retries oc)))"

definition message_content :: "json \<Rightarrow> json option" where
  "message_content value = Option.bind (json_item ''message'' value) (json_item ''content'')"

definition ollama_usage :: "json \<Rightarrow> inference_usage option" where
  "ollama_usage payload =
     (let p = json_count (jget ''prompt_eval_count'' payload); c = json_count (jget ''eval_count'' payload) in
      if p = None \<and> c = None then None
      else Some \<lparr>prompt_tokens = p, completion_tokens = c,
        total_tokens = (case (p, c) of (Some a, Some b) \<Rightarrow> Some (a + b) | _ \<Rightarrow> None)\<rparr>)"

definition ollama_generate :: "(json \<Rightarrow> plain_outcome) \<Rightarrow> ollama_client \<Rightarrow> code_points \<Rightarrow> model_role \<Rightarrow> inference_error + (code_points \<times> inference_usage option)" where
  "ollama_generate post oc prompt role = sbind (ollama_payload oc prompt role False) (\<lambda>payload.
     case post payload of
       Plain_timeout \<Rightarrow> Inl InferenceTimeoutError
     | Plain_failed status \<Rightarrow> Inl (error_for_status status)
     | Plain_unparsable \<Rightarrow> Inl InferenceResponseError
     | Plain_json v \<Rightarrow> (case Option.bind (message_content v) json_chars of None \<Rightarrow> Inl InferenceResponseError
         | Some t \<Rightarrow> Inr (t, ollama_usage v)))"

text \<open>A stream of Ollama has no closing marker: it ends with its lines.\<close>

fun ollama_lines :: "(bytes \<Rightarrow> json option) \<Rightarrow> bytes list \<Rightarrow> stream_end \<Rightarrow> code_points list \<times> inference_error option" where
  "ollama_lines loads [] Stream_closed = ([], None)"
| "ollama_lines loads [] Stream_timeout = ([], Some InferenceTimeoutError)"
| "ollama_lines loads [] (Stream_failed status) = ([], Some (error_for_status status))"
| "ollama_lines loads (line # lines) fin =
     (if line = [] then ollama_lines loads lines fin
      else case Option.bind (Option.bind (loads line) message_content) json_chars of None \<Rightarrow> ([], Some InferenceResponseError)
        | Some content \<Rightarrow> (let (parts, err) = ollama_lines loads lines fin in
            (if content = [] then parts else content # parts, err)))"

definition ollama_generate_stream :: "(bytes \<Rightarrow> json option) \<Rightarrow> (json \<Rightarrow> bytes stream_outcome) \<Rightarrow> ollama_client
    \<Rightarrow> code_points \<Rightarrow> model_role \<Rightarrow> code_points list \<times> inference_error option" where
  "ollama_generate_stream loads post oc prompt role = (case ollama_payload oc prompt role True of
      Inl e \<Rightarrow> ([], Some e)
    | Inr payload \<Rightarrow> (case post payload of
          Open_timeout \<Rightarrow> ([], Some InferenceTimeoutError)
        | Open_failed status \<Rightarrow> ([], Some (error_for_status status))
        | Open_lines lines fin \<Rightarrow> ollama_lines loads lines fin))"

subsection \<open>Bounded execution\<close>

definition ollama_execute_payload :: "string \<Rightarrow> generation_request \<Rightarrow> json" where
  "ollama_execute_payload model q =
     (let cap = gq_capability q in
      JObj ([(''model'', JStr model), (''stream'', JBool False),
        (''options'', JObj ([(''num_predict'', JInt (gq_output_tokens q)), (''num_ctx'', JInt (cp_context_tokens cap))]
           @ (case cp_temperature cap of None \<Rightarrow> [] | Some t \<Rightarrow> [(''temperature'', JFloat t)]))),
        (''messages'', JArr [chat_message ''system'' (JText (gq_system q)), chat_message ''user'' (JStr (gq_data q))])]
        @ (case cp_structured_output cap of Prompt_mode \<Rightarrow> []
           | Json_object_mode \<Rightarrow> [(''format'', JStr ''json'')]
           | Json_schema_mode \<Rightarrow> [(''format'', gq_schema q)])))"

definition ollama_result :: "string \<Rightarrow> generation_request \<Rightarrow> json \<Rightarrow> failure_value + (code_points \<times> inference_usage option)" where
  "ollama_result model q value = (case message_content value of
      None \<Rightarrow> Inl (Exn_inference InferenceResponseError, None)
    | Some content \<Rightarrow>
        if jget ''done'' value \<noteq> JBool True \<or> \<not> model_ok model (gq_capability q) (jget ''model'' value)
        then Inl (Exn_inference InferenceResponseError, None)
        else case result_text content q (jget ''done_reason'' value) of
            Inl Exn_other \<Rightarrow> Inl (Exn_other, None)
          | Inl e \<Rightarrow> Inl (e, ollama_usage value)
          | Inr t \<Rightarrow> Inr (t, ollama_usage value))"

definition ollama_execute :: "(bytes \<Rightarrow> json option) \<Rightarrow> (json \<Rightarrow> post_outcome) \<Rightarrow> ollama_client \<Rightarrow> generation_request
    \<Rightarrow> failure_value + (code_points \<times> inference_usage option)" where
  "ollama_execute loads post oc q =
     (case sbind (validate_request q) (\<lambda>_.
             if cp_schema_profile (gq_capability q) \<noteq> None \<or> cp_reasoning_effort (gq_capability q) \<noteq> None
             then Inl InferenceConfigurationError
             else sbind (ollama_model_id oc (gq_role q)) (\<lambda>model.
               sbind (bounded_request_json loads (post (ollama_execute_payload model q)) (gq_total_seconds q) (envelope_limit q)) (\<lambda>value. Inr (model, value)))) of
        Inl e \<Rightarrow> Inl (Exn_inference e, None)
      | Inr (model, value) \<Rightarrow> ollama_result model q value)"

end
