(* ===== verification/ProviderTheorems.thy ===== *)
theory ProviderTheorems
  imports Providers
begin

text \<open>
  What the provider adapters promise. The governed execution relies on an adapter through one contract: a result encodes
  to no more bytes than the request allows, and the usage that it hands to the accounting adds up, on success and with a failure. Both
  adapters are shown to keep it, and the governed call inherits it.
\<close>

section \<open>The contract of an adapter\<close>

text \<open>Counts are not negative, and a total of known parts is their sum.\<close>

definition usage_consistent :: "inference_usage option \<Rightarrow> bool" where
  "usage_consistent u = (case u of None \<Rightarrow> True
     | Some v \<Rightarrow> list_all (\<lambda>c. case c of None \<Rightarrow> True | Some n \<Rightarrow> 0 \<le> n) [prompt_tokens v, completion_tokens v, total_tokens v]
         \<and> (case (prompt_tokens v, completion_tokens v, total_tokens v) of (Some a, Some b, Some s) \<Rightarrow> s = a + b | _ \<Rightarrow> True))"

definition fits :: "generation_request \<Rightarrow> code_points \<Rightarrow> bool" where
  "fits q t = (case utf8_encode t of None \<Rightarrow> False | Some data \<Rightarrow> int (length data) \<le> gq_response_bytes q)"

lemma result_text_fits: "result_text content q reason = Inr t \<Longrightarrow> fits q t"
  using result_text_bounded(1) by (fastforce simp: fits_def)

locale bounded_adapter =
  fixes execute :: "generation_request \<Rightarrow> failure_value + (code_points \<times> inference_usage option)"
  assumes result_fits: "execute q = Inr (t, u) \<Longrightarrow> fits q t"
    and result_usage: "execute q = Inr (t, u) \<Longrightarrow> usage_consistent u"
    and failure_usage: "execute q = Inl (e, u) \<Longrightarrow> usage_consistent u"
begin

lemma outcome_consistent: "execute q = Inl f \<Longrightarrow> usage_consistent (fst (exn_outcome f))"
  by (cases f) (auto simp: exn_outcome_def usage_consistent_def [of None] failure_usage split: exec_exn.splits)

lemma body_result:
  assumes "exec_body C (pv\<lparr>pv_execute := execute\<rparr>) s q ticket w = (Inr t, started, usage, outcome, w')"
  shows "fits q t"
  using assms by (auto simp: exec_body_def Let_def intro: result_fits split: sum.splits option.splits)

lemma body_usage:
  assumes "exec_body C (pv\<lparr>pv_execute := execute\<rparr>) s q ticket w = (res, started, usage, outcome, w')" and "xc_inactive C 1 = None"
  shows "usage_consistent usage"
  using assms by (auto simp: exec_body_def Let_def usage_consistent_def [of None] outcome_consistent intro: result_usage
    split: sum.splits option.splits)

lemma call_result:
  assumes "fst (execute_call H C (pv\<lparr>pv_execute := execute\<rparr>) s q identity workload w) = Inr t"
  shows "fits q t"
  using assms by (auto simp: execute_call_def Let_def intro: body_result split: sum.splits option.splits prod.splits)

end

section \<open>Usage\<close>

lemma json_count_nonneg: "json_count v = Some n \<Longrightarrow> 0 \<le> n"
  by (cases v) (auto split: if_splits)

lemma counts_add_up:
  assumes "\<not> counts_invalid u" and "json_count (jget ''prompt_tokens'' u) = Some a" "json_count (jget ''completion_tokens'' u) = Some b"
    "json_count (jget ''total_tokens'' u) = Some n"
  shows "n = a + b"
  using assms(1) unfolding counts_invalid_def Let_def by (simp add: assms(2-4))

lemma openai_usage_consistent:
  assumes "jget ''usage'' value = JObj d" and "\<not> counts_invalid (JObj d)"
  shows "usage_consistent (openai_usage value)"
proof -
  define p c t where "p = json_count (jget ''prompt_tokens'' (JObj d))" "c = json_count (jget ''completion_tokens'' (JObj d))"
    "t = json_count (jget ''total_tokens'' (JObj d))"
  note nonneg = json_count_nonneg [of "jget ''prompt_tokens'' (JObj d)"] json_count_nonneg [of "jget ''completion_tokens'' (JObj d)"]
    json_count_nonneg [of "jget ''total_tokens'' (JObj d)"]
  note facts = counts_add_up [OF assms(2)] nonneg
  have "openai_usage value = (if p = None \<and> c = None \<and> t = None then None else Some \<lparr>prompt_tokens = p, completion_tokens = c, total_tokens = t\<rparr>)"
    by (simp add: openai_usage_def assms(1) p_c_t_def Let_def del: jget.simps)
  then show ?thesis using facts [folded p_c_t_def] by (auto simp: usage_consistent_def split: option.splits)
qed

lemma checked_usage_consistent:
  assumes "checked_usage value = Inr u"
  shows "usage_consistent u"
proof (cases "\<exists>d. jget ''usage'' value = JObj d")
  case True
  then show ?thesis using assms openai_usage_consistent by (auto simp: checked_usage_def split: if_splits)
next
  case False
  then have "openai_usage value = None" by (auto simp: openai_usage_def split: json.splits)
  then show ?thesis using assms False by (auto simp: checked_usage_def usage_consistent_def split: json.splits)
qed

lemma ollama_usage_consistent: "usage_consistent (ollama_usage value)"
  by (auto simp: ollama_usage_def usage_consistent_def Let_def json_count_nonneg split: option.splits)

section \<open>Both adapters keep the contract\<close>

interpretation openai: bounded_adapter "openai_execute loads post pv" for loads post pv
  by unfold_locales
    (auto simp: openai_execute_def openai_result_def Let_def usage_consistent_def [of None] checked_usage_consistent result_text_fits
      split: sum.splits if_splits exec_exn.splits prod.splits)

interpretation ollama: bounded_adapter "ollama_execute loads post oc" for loads post oc
  by unfold_locales
    (auto simp: ollama_execute_def ollama_result_def usage_consistent_def [of None] ollama_usage_consistent result_text_fits
      split: sum.splits if_splits exec_exn.splits prod.splits option.splits)

text \<open>C14: A governed call through either provider adapter returns only a text whose encoding exists and is no longer than the
  response limit of its request, whatever the provider sends; and whatever the transport does, the usage that either adapter reports
  for settlement, with a result or with an error, has no negative count and a total that is the sum of its parts.\<close>

theorem governed_result_bounded:
  "(case fst (execute_call H C (pv\<lparr>pv_execute := openai_execute loads post op\<rparr>) s q identity workload w) of Inl e \<Rightarrow> True | Inr t \<Rightarrow> fits q t)
   \<and> (case fst (execute_call H C (pv\<lparr>pv_execute := ollama_execute loads post oc\<rparr>) s q identity workload w) of Inl e \<Rightarrow> True | Inr t \<Rightarrow> fits q t)
   \<and> (case openai_execute loads post op q of Inl (e, u) \<Rightarrow> usage_consistent u | Inr (t, u) \<Rightarrow> usage_consistent u)
   \<and> (case ollama_execute loads post oc q of Inl (e, u) \<Rightarrow> usage_consistent u | Inr (t, u) \<Rightarrow> usage_consistent u)"
proof (intro conjI)
  show "case fst (execute_call H C (pv\<lparr>pv_execute := openai_execute loads post op\<rparr>) s q identity workload w) of Inl e \<Rightarrow> True | Inr t \<Rightarrow> fits q t"
    using openai.call_result by (auto split: sum.split)
  show "case fst (execute_call H C (pv\<lparr>pv_execute := ollama_execute loads post oc\<rparr>) s q identity workload w) of Inl e \<Rightarrow> True | Inr t \<Rightarrow> fits q t"
    using ollama.call_result by (auto split: sum.split)
  show "case openai_execute loads post op q of Inl (e, u) \<Rightarrow> usage_consistent u | Inr (t, u) \<Rightarrow> usage_consistent u"
    using openai.failure_usage openai.result_usage by (auto split: sum.split)
  show "case ollama_execute loads post oc q of Inl (e, u) \<Rightarrow> usage_consistent u | Inr (t, u) \<Rightarrow> usage_consistent u"
    using ollama.failure_usage ollama.result_usage by (auto split: sum.split)
qed

section \<open>The transport\<close>

lemma bounded_request_bounded:
  assumes "bounded_request_json loads outcome deadline limit = Inr v" and "0 \<le> limit"
  obtains r t data where "outcome = Post_response r" "hr_status r < 300" "hr_end r = Body_done t" "t \<le> deadline"
    "data = concat (map snd (hr_chunks r))" "int (length data) \<le> limit" "loads data = Some v"
proof -
  from assms(1) obtain r data where r: "outcome = Post_response r" "status_error r = None"
      and data: "read_body deadline limit (hr_chunks r) (hr_end r) [] = Inr data" "loads data = Some v"
    by (auto simp: bounded_request_json_def sbind_def split: post_outcome.splits option.splits if_splits sum.splits)
  have "hr_status r < 300" using r(2) by (auto simp: status_error_def Let_def split: if_splits)
  then show ?thesis using that r read_body_bounded [OF data(1)] data(2) assms(2) by auto
qed

section \<open>Streams\<close>

lemma openai_stream_complete:
  "snd (openai_lines loads lines fin) = None \<Longrightarrow> \<exists>line \<in> set lines. take 5 line = map of_char ''data:'' \<and> strip (drop 5 line) = map of_char ''[DONE]''"
  by (induction loads lines fin rule: openai_lines.induct)
    (auto split: if_splits option.splits sum.splits prod.splits list.splits)

lemma openai_lines_nonempty: "[] \<notin> set (fst (openai_lines loads lines fin))"
proof (induction lines)
  case Nil
  show ?case by (cases fin) auto
next
  case (Cons line lines)
  then show ?case by (auto split: option.splits sum.splits prod.splits list.splits)
qed

section \<open>Readiness\<close>

lemma probe_loop_attempt:
  "\<exists>k \<le> retries. probe_loop probe n retries = probe (n + k) \<and> (\<forall>j < k. retryable_status (probe (n + j)))
     \<and> (k < retries \<longrightarrow> \<not> retryable_status (probe (n + k)))"
proof (induction retries arbitrary: n)
  case 0
  then show ?case by simp
next
  case (Suc r)
  show ?case
  proof (cases "retryable_status (probe n)")
    case True
    obtain k where k: "k \<le> r" "probe_loop probe (Suc n) r = probe (Suc n + k)" "\<forall>j < k. retryable_status (probe (Suc n + j))"
        "k < r \<longrightarrow> \<not> retryable_status (probe (Suc n + k))"
      using Suc.IH [of "Suc n"] by blast
    have "\<forall>j < Suc k. retryable_status (probe (n + j))" using True k(3) by (auto simp: less_Suc_eq_0_disj)
    then show ?thesis using True k by (intro exI [of _ "Suc k"]) auto
  qed (auto intro: exI [of _ 0])
qed

lemma readiness_of_status: "readiness_of (error_for_status status) \<noteq> Ready"
  by (auto simp: error_for_status_def split: option.split)

lemma ollama_ready_lists:
  assumes "ollama_probe models outcome = Ready" and "m \<in> set models"
  obtains v items i where "outcome = Plain_json v" "jget ''models'' v = JArr items" "i \<in> set items" "is_text m (jget ''name'' i)"
proof -
  obtain v items where v: "outcome = Plain_json v" "jget ''models'' v = JArr items"
      and sub: "set (map (map of_char) models) \<subseteq> set (remdups (List.map_filter (\<lambda>i. json_chars (jget ''name'' i)) items))"
    using assms(1) by (auto simp: ollama_probe_def Let_def readiness_of_status split: plain_outcome.splits json.splits if_splits)
  then obtain i where "i \<in> set items" "json_chars (jget ''name'' i) = Some (map of_char m)"
    using assms(2) by (auto simp: List.map_filter_def) 
  then show ?thesis using that v by (simp add: is_text_def)
qed

lemma those_eq_Some: "those xs = Some ys \<Longrightarrow> xs = map Some ys"
  by (induction xs arbitrary: ys) (auto split: option.splits)

lemma openai_ready_lists:
  assumes "openai_probe pv models outcome = Ready" and "op_readiness_model_check pv" and "m \<in> set models"
  obtains v items i where "outcome = Plain_json v" "jget ''data'' v = JArr items" "i \<in> set items" "is_text m (jget ''id'' i)"
proof -
  obtain v items ids where v: "outcome = Plain_json v" "jget ''data'' v = JArr items"
      and ids: "listed_models ''id'' items = Some ids" "set (map (map of_char) models) \<subseteq> set ids"
    using assms(1,2) by (auto simp: openai_probe_def readiness_of_status split: plain_outcome.splits json.splits if_splits option.splits)
  have "map (\<lambda>i. json_chars (jget ''id'' i)) items = map Some ids"
    using ids(1) by (intro those_eq_Some) (simp add: listed_models_def)
  moreover have "Some (map of_char m) \<in> set (map Some ids)" using ids(2) assms(3) by auto
  ultimately obtain i where "i \<in> set items" "json_chars (jget ''id'' i) = Some (map of_char m)" by (metis (no_types, lifting) image_iff list.set_map)
  then show ?thesis using that v by (simp add: is_text_def)
qed

end
