(* ===== verification/Identity.thy ===== *)
theory Identity
  imports Security ProviderHttp
begin

text \<open>
  The identity of an access token (security/identity.py): the settings of the issuer, the cache of signing keys
  and the verification of a token. The request for the keys, the construction of a key (\<open>jwk\<close>: the key and its size) and
  the decoding of a token with its signature (for an issuer, an audience, the strictness of the audience and the required claims) are arguments. A key identifier and a text of a token that becomes part of a principal are
  strings, as in Security; the shape of a URL is tested by an argument.
\<close>

section \<open>Settings\<close>

datatype token_profile = OIDC | ENTRA_V2

record oidc_settings =
  oi_token_profile :: token_profile
  oi_tenant_id :: "string option"
  oi_issuer :: string
  oi_audience :: string
  oi_jwks_url :: string
  oi_tenant_claim :: string
  oi_roles_claim :: string
  oi_purpose_claim :: string
  oi_purpose_value :: string
  oi_role_mapping :: "(string \<times> action list) list"
  oi_service_roles :: "string list"
  oi_cache_seconds :: int
  oi_refresh_seconds :: int
  oi_timeout_seconds :: rat

definition claim_name :: "string \<Rightarrow> bool" where
  "claim_name s = (case s of [] \<Rightarrow> False
     | c # cs \<Rightarrow> c \<in> set ''ABCDEFGHIJKLMNOPQRSTUVWXYZabcdefghijklmnopqrstuvwxyz'' \<and> length cs \<le> 63
         \<and> list_all (\<lambda>x. safe_char x \<or> x = CHR ''_'') cs)"

definition text_within :: "nat \<Rightarrow> string \<Rightarrow> bool" where
  "text_within n s \<longleftrightarrow> 1 \<le> length s \<and> length s \<le> n"

text \<open>A string that is the printed form of the UUID it denotes.\<close>

definition canonical_uuid :: "string \<Rightarrow> bool" where
  "canonical_uuid s \<longleftrightarrow> length s = 36 \<and> list_all (\<lambda>(i, c). if i \<in> {8, 13, 18, 23} then c = CHR ''-'' else c \<in> set ''0123456789abcdef'')
     (zip [0..<36] s)"

definition entra_authority :: "string \<Rightarrow> string" where
  "entra_authority t = ''https://login.microsoftonline.com/'' @ t"

definition entra_settings :: "oidc_settings \<Rightarrow> bool" where
  "entra_settings c = (case oi_tenant_id c of None \<Rightarrow> False
     | Some t \<Rightarrow> canonical_uuid t \<and> canonical_uuid (oi_audience c)
         \<and> oi_issuer c = entra_authority t @ ''/v2.0'' \<and> oi_jwks_url c = entra_authority t @ ''/discovery/v2.0/keys''
         \<and> oi_tenant_claim c = ''tid'' \<and> oi_roles_claim c = ''roles'' \<and> oi_purpose_claim c = ''token_use'' \<and> oi_purpose_value c = ''access''
         \<and> oi_service_roles c = [] \<and> oi_role_mapping c = [])"

definition oidc_valid :: "(string \<Rightarrow> bool) \<Rightarrow> oidc_settings \<Rightarrow> bool" where
  "oidc_valid https_anchor c \<longleftrightarrow>
     text_within 2048 (oi_issuer c) \<and> text_within 512 (oi_audience c) \<and> text_within 2048 (oi_jwks_url c)
     \<and> list_all claim_name [oi_tenant_claim c, oi_roles_claim c, oi_purpose_claim c] \<and> text_within 64 (oi_purpose_value c)
     \<and> 1 \<le> oi_cache_seconds c \<and> oi_cache_seconds c \<le> 3600 \<and> 1 \<le> oi_refresh_seconds c \<and> oi_refresh_seconds c \<le> 300
     \<and> 0 < oi_timeout_seconds c \<and> oi_timeout_seconds c \<le> 10
     \<and> https_anchor (oi_issuer c) \<and> https_anchor (oi_jwks_url c)
     \<and> distinct [oi_tenant_claim c, oi_roles_claim c, oi_purpose_claim c, ''sub'', ''iss'', ''aud'', ''exp'', ''nbf'']
     \<and> length (oi_role_mapping c) \<le> 32 \<and> length (oi_service_roles c) \<le> 32
     \<and> (case oi_token_profile c of ENTRA_V2 \<Rightarrow> entra_settings c | OIDC \<Rightarrow> oi_tenant_id c = None)"

section \<open>Keys\<close>

datatype key_exn = Key_error security_error | Key_raised

record 'k key_cache =
  kc_keys :: "(string \<times> 'k) list"
  kc_loaded :: "rat option"
  kc_attempted :: "rat option"

fun json_str :: "json \<Rightarrow> string option" where
  "json_str (JStr s) = Some s"
| "json_str _ = None"

text \<open>\<^verbatim>\<open>item.get(key, default)\<close>.\<close>

definition jget_or :: "string \<Rightarrow> json \<Rightarrow> json \<Rightarrow> json" where
  "jget_or k dflt v = (case json_item k v of Some x \<Rightarrow> x | None \<Rightarrow> dflt)"

definition str_within :: "nat \<Rightarrow> nat \<Rightarrow> json \<Rightarrow> bool" where
  "str_within a b v = (case json_chars v of None \<Rightarrow> False | Some s \<Rightarrow> a \<le> length s \<and> length s \<le> b)"

definition verify_only :: "json \<Rightarrow> bool" where
  "verify_only v = (case v of JArr [x] \<Rightarrow> is_text ''verify'' x | _ \<Rightarrow> False)"

definition key_item_ok :: "oidc_settings \<Rightarrow> json \<Rightarrow> bool" where
  "key_item_ok c item \<longleftrightarrow>
     is_text ''RSA'' (jget ''kty'' item) \<and> is_text ''RS256'' (jget_or ''alg'' (JStr ''RS256'') item)
     \<and> is_text ''sig'' (jget_or ''use'' (JStr ''sig'') item) \<and> verify_only (jget_or ''key_ops'' (JArr [JStr ''verify'']) item)
     \<and> list_all (\<lambda>k. json_item k item = None) [''d'', ''p'', ''q'', ''jku'', ''x5u'', ''k'']
     \<and> str_within 256 1400 (jget ''n'' item) \<and> str_within 1 16 (jget ''e'' item)
     \<and> (case (oi_token_profile c, json_item ''issuer'' item) of
          (ENTRA_V2, Some i) \<Rightarrow> is_text (oi_issuer c) i \<or> is_text ''https://login.microsoftonline.com/{tenantid}/v2.0'' i
        | _ \<Rightarrow> True)"

definition read_key :: "(json \<Rightarrow> ('k \<times> int) option) \<Rightarrow> oidc_settings \<Rightarrow> (string \<times> 'k) list \<Rightarrow> json \<Rightarrow> key_exn + (string \<times> 'k)" where
  "read_key jwk c keys item = (case json_str (jget ''kid'' item) of
      None \<Rightarrow> Inl (Key_error Security_unavailable)
    | Some kid \<Rightarrow>
        if \<not> text_within 128 kid \<or> map_of keys kid \<noteq> None \<or> \<not> key_item_ok c item then Inl (Key_error Security_unavailable)
        else case jwk item of None \<Rightarrow> Inl Key_raised
          | Some (k, bits) \<Rightarrow> if bits < 2048 \<or> bits > 8192 then Inl (Key_error Security_unavailable) else Inr (kid, k))"

fun read_keys :: "(json \<Rightarrow> ('k \<times> int) option) \<Rightarrow> oidc_settings \<Rightarrow> json list \<Rightarrow> (string \<times> 'k) list \<Rightarrow> key_exn + (string \<times> 'k) list" where
  "read_keys jwk c [] keys = Inr keys"
| "read_keys jwk c (item # items) keys = sbind (read_key jwk c keys item) (\<lambda>e. read_keys jwk c items (keys @ [e]))"

definition load_keys :: "(json \<Rightarrow> ('k \<times> int) option) \<Rightarrow> oidc_settings \<Rightarrow> json option \<Rightarrow> key_exn + (string \<times> 'k) list" where
  "load_keys jwk c raw = (case raw of None \<Rightarrow> Inl Key_raised
     | Some v \<Rightarrow> (case jget ''keys'' v of
           JArr items \<Rightarrow> if 1 \<le> length items \<and> length items \<le> 32 then read_keys jwk c items [] else Inl (Key_error Security_unavailable)
         | _ \<Rightarrow> Inl (Key_error Security_unavailable)))"

text \<open>The request for the keys reads at most 65536 bytes within the timeout; \<open>None\<close> is an exception.\<close>

fun read_jwks :: "rat \<Rightarrow> (rat \<times> bytes) list \<Rightarrow> body_end \<Rightarrow> bytes \<Rightarrow> bytes option" where
  "read_jwks timeout [] (Body_done _) data = Some data"
| "read_jwks timeout [] _ data = None"
| "read_jwks timeout ((t, chunk) # chunks) fin data =
     (if length (data @ chunk) > 65536 \<or> t > timeout then None else read_jwks timeout chunks fin (data @ chunk))"

definition fetch_jwks :: "(bytes \<Rightarrow> json option) \<Rightarrow> oidc_settings \<Rightarrow> http_response \<Rightarrow> json option" where
  "fetch_jwks loads c r = (if hr_status r < 200 \<or> hr_status r \<ge> 300 then None
     else Option.bind (read_jwks (oi_timeout_seconds c) (hr_chunks r) (hr_end r) []) loads)"

definition keys_expired :: "oidc_settings \<Rightarrow> rat \<Rightarrow> 'k key_cache \<Rightarrow> bool" where
  "keys_expired c now st = (case kc_loaded st of None \<Rightarrow> True | Some t \<Rightarrow> now - t \<ge> rat_of_int (oi_cache_seconds c))"

text \<open>Whether a call asks for the keys: they are expired or lack the identifier, and the last attempt is long enough ago.\<close>

definition fetches :: "oidc_settings \<Rightarrow> rat \<Rightarrow> string \<Rightarrow> 'k key_cache \<Rightarrow> bool" where
  "fetches c now kid st \<longleftrightarrow> (keys_expired c now st \<or> map_of (kc_keys st) kid = None)
     \<and> (case kc_attempted st of None \<Rightarrow> True | Some t \<Rightarrow> now - t \<ge> rat_of_int (oi_refresh_seconds c))"

definition find_key :: "string \<Rightarrow> 'k key_cache \<Rightarrow> key_exn + 'k" where
  "find_key kid st = (case map_of (kc_keys st) kid of None \<Rightarrow> Inl (Key_error Authentication_required) | Some k \<Rightarrow> Inr k)"

definition served_key :: "oidc_settings \<Rightarrow> rat \<Rightarrow> string \<Rightarrow> 'k key_cache \<Rightarrow> key_exn + 'k" where
  "served_key c now kid st = (if keys_expired c now st then Inl (Key_error Security_unavailable) else find_key kid st)"

definition get_key :: "(json \<Rightarrow> ('k \<times> int) option) \<Rightarrow> oidc_settings \<Rightarrow> rat \<Rightarrow> json option \<Rightarrow> string \<Rightarrow> 'k key_cache
    \<Rightarrow> (key_exn + 'k) \<times> 'k key_cache" where
  "get_key jwk c now raw kid st =
     (if keys_expired c now st \<or> map_of (kc_keys st) kid = None
      then if fetches c now kid st
        then let st1 = st\<lparr>kc_attempted := Some now\<rparr> in
          case load_keys jwk c raw of Inl e \<Rightarrow> (Inl e, st1)
          | Inr keys \<Rightarrow> (let st2 = st1\<lparr>kc_keys := keys, kc_loaded := Some now\<rparr> in (served_key c now kid st2, st2))
        else (served_key c now kid st, st)
      else (find_key kid st, st))"

section \<open>Tokens\<close>

definition header_ok :: "json \<Rightarrow> bool" where
  "header_ok h \<longleftrightarrow> is_text ''RS256'' (jget ''alg'' h) \<and> (is_text ''JWT'' (jget ''typ'' h) \<or> is_text ''at+jwt'' (jget ''typ'' h))
     \<and> (case h of JObj d \<Rightarrow> fst ` set d \<subseteq> {''alg'', ''kid'', ''typ''} | _ \<Rightarrow> False)
     \<and> (case json_str (jget ''kid'' h) of None \<Rightarrow> False | Some k \<Rightarrow> text_within 128 k)"

definition required_claims :: "oidc_settings \<Rightarrow> string list" where
  "required_claims c = [''iss'', ''aud'', ''sub'', ''exp'', ''nbf'', oi_tenant_claim c]
     @ (case oi_token_profile c of ENTRA_V2 \<Rightarrow> [''iat'', ''ver'', ''scp'', ''roles''] | OIDC \<Rightarrow> [oi_purpose_claim c])"

fun json_int :: "json \<Rightarrow> int option" where
  "json_int (JInt n) = Some n"
| "json_int _ = None"

fun split_space :: "nat list \<Rightarrow> nat list list" where
  "split_space [] = [[]]"
| "split_space (x # xs) = (if x = 32 then [] # split_space xs
     else case split_space xs of w # ws \<Rightarrow> (x # w) # ws | [] \<Rightarrow> [[x]])"

text \<open>The claims of a delegated user token of the one tenant.\<close>

definition entra_claims :: "oidc_settings \<Rightarrow> json \<Rightarrow> int \<Rightarrow> bool" where
  "entra_claims c claims expires \<longleftrightarrow>
     is_text ''2.0'' (jget ''ver'' claims) \<and> (case oi_tenant_id c of None \<Rightarrow> jget ''tid'' claims = JNull | Some t \<Rightarrow> is_text t (jget ''tid'' claims))
     \<and> (case json_int (jget ''iat'' claims) of None \<Rightarrow> False | Some i \<Rightarrow> i < expires)
     \<and> (case json_chars (jget ''scp'' claims) of None \<Rightarrow> False | Some s \<Rightarrow> map of_char ''access_as_user'' \<in> set (split_space s))
     \<and> is_text ''user'' (jget_or ''idtyp'' (JStr ''user'') claims) \<and> is_text ''access'' (jget_or ''token_use'' (JStr ''access'') claims)"

definition role_list :: "oidc_settings \<Rightarrow> json \<Rightarrow> string list option" where
  "role_list c claims = (case jget_or (oi_roles_claim c) (JArr []) claims of
      JArr items \<Rightarrow> if length items > 32 then None
        else Option.bind (those (map json_str items)) (\<lambda>roles. if list_all (\<lambda>r. length r \<le> 128) roles then Some roles else None)
    | _ \<Rightarrow> None)"

definition mapped_permissions :: "oidc_settings \<Rightarrow> string list \<Rightarrow> action set" where
  "mapped_permissions c roles = set (concat (map (\<lambda>r. case map_of (oi_role_mapping c) r of None \<Rightarrow> [] | Some actions \<Rightarrow> actions) roles))"

definition token_permissions :: "oidc_settings \<Rightarrow> string list \<Rightarrow> action set" where
  "token_permissions c roles = (if oi_token_profile c = ENTRA_V2 then {PUBLICATION_MANAGE} else mapped_permissions c roles)"

definition token_kind :: "oidc_settings \<Rightarrow> string list \<Rightarrow> string" where
  "token_kind c roles = (if set roles \<inter> set (oi_service_roles c) \<noteq> {} then ''service'' else ''user'')"

definition claims_ok :: "oidc_settings \<Rightarrow> json \<Rightarrow> int \<Rightarrow> int \<Rightarrow> string list \<Rightarrow> bool" where
  "claims_ok c claims expires nbf roles \<longleftrightarrow> nbf < expires \<and>
     (case oi_token_profile c of ENTRA_V2 \<Rightarrow> entra_claims c claims expires \<and> set roles = {''PolyMind.L1Operator''}
      | OIDC \<Rightarrow> is_text (oi_purpose_value c) (jget (oi_purpose_claim c) claims))"

definition token_principal :: "prims \<Rightarrow> rat \<Rightarrow> oidc_settings \<Rightarrow> json \<Rightarrow> principal option" where
  "token_principal H now c claims =
     (case (json_int (jget ''exp'' claims), json_int (jget ''nbf'' claims), role_list c claims,
            json_str (jget ''sub'' claims), json_str (jget (oi_tenant_claim c) claims)) of
        (Some expires, Some nbf, Some roles, Some subject, Some tenant_identity) \<Rightarrow>
          if \<not> claims_ok c claims expires nbf roles then None
          else (case make_principal H now (oi_issuer c) subject tenant_identity (token_permissions c roles) (token_kind c roles) expires of
                 Inl e \<Rightarrow> None | Inr p \<Rightarrow> Some p)
      | _ \<Rightarrow> None)"

text \<open>Every failure is the same refusal; \<open>tick\<close> is the clock of the cache and \<open>now\<close> the time of day.\<close>

definition verify_token :: "prims \<Rightarrow> (json \<Rightarrow> ('k \<times> int) option) \<Rightarrow> (string \<Rightarrow> json option) \<Rightarrow> ('k \<Rightarrow> string \<Rightarrow> string \<Rightarrow> bool \<Rightarrow> string list \<Rightarrow> string \<Rightarrow> json option)
    \<Rightarrow> oidc_settings \<Rightarrow> rat \<Rightarrow> rat \<Rightarrow> json option \<Rightarrow> string \<Rightarrow> 'k key_cache \<Rightarrow> (security_error + principal) \<times> 'k key_cache" where
  "verify_token H jwk header decode c tick now raw token st =
     (if \<not> text_within 16384 token then (Inl Authentication_required, st)
      else case header token of None \<Rightarrow> (Inl Authentication_required, st)
        | Some h \<Rightarrow> if \<not> header_ok h then (Inl Authentication_required, st)
            else case get_key jwk c tick raw (the (json_str (jget ''kid'' h))) st of
                (Inl e, st') \<Rightarrow> (Inl Authentication_required, st')
              | (Inr key, st') \<Rightarrow>
                  (case Option.bind (decode key (oi_issuer c) (oi_audience c) (oi_token_profile c = ENTRA_V2) (required_claims c) token)
                     (token_principal H now c) of
                     None \<Rightarrow> (Inl Authentication_required, st') | Some p \<Rightarrow> (Inr p, st')))"

definition verifier_ready :: "(json \<Rightarrow> ('k \<times> int) option) \<Rightarrow> oidc_settings \<Rightarrow> rat \<Rightarrow> rat \<Rightarrow> json option \<Rightarrow> 'k key_cache \<Rightarrow> bool \<times> 'k key_cache" where
  "verifier_ready jwk c now later raw st =
     (let st' = snd (get_key jwk c now raw (case kc_keys st of [] \<Rightarrow> ''__readiness__'' | (k, _) # _ \<Rightarrow> k) st)
      in (kc_keys st' \<noteq> [] \<and> \<not> keys_expired c later st', st'))"

section \<open>The history of a verifier\<close>

text \<open>
  A world of the cache: the last reading of the clock and what was fetched when, newest first. A step is a call at
  a later reading, for any identifier and with any answer of the issuer.
\<close>

record 'k key_world =
  kw_clock :: rat
  kw_cache :: "'k key_cache"
  kw_log :: "(rat \<times> json option) list"

definition key_call :: "(json \<Rightarrow> ('k \<times> int) option) \<Rightarrow> oidc_settings \<Rightarrow> rat \<Rightarrow> json option \<Rightarrow> string \<Rightarrow> 'k key_world \<Rightarrow> (key_exn + 'k) \<times> 'k key_world" where
  "key_call jwk c now raw kid w =
     (let (r, st) = get_key jwk c now raw kid (kw_cache w)
      in (r, \<lparr>kw_clock = now, kw_cache = st, kw_log = (if fetches c now kid (kw_cache w) then [(now, raw)] else []) @ kw_log w\<rparr>))"

definition key_init :: "'k key_world \<Rightarrow> bool" where
  "key_init w \<longleftrightarrow> kw_cache w = \<lparr>kc_keys = [], kc_loaded = None, kc_attempted = None\<rparr> \<and> kw_log w = []"

inductive key_step :: "(json \<Rightarrow> ('k \<times> int) option) \<Rightarrow> oidc_settings \<Rightarrow> 'k key_world \<Rightarrow> 'k key_world \<Rightarrow> bool" for jwk c where
  key_step: "kw_clock w \<le> now \<Longrightarrow> key_step jwk c w (snd (key_call jwk c now raw kid w))"

inductive_cases key_stepE: "key_step jwk c w w'"

fun spaced :: "rat \<Rightarrow> rat list \<Rightarrow> bool" where
  "spaced d (t # u # ts) \<longleftrightarrow> u + d \<le> t \<and> spaced d (u # ts)"
| "spaced d _ = True"

definition key_inv :: "(json \<Rightarrow> ('k \<times> int) option) \<Rightarrow> oidc_settings \<Rightarrow> 'k key_world \<Rightarrow> bool" where
  "key_inv jwk c w \<longleftrightarrow>
     spaced (rat_of_int (oi_refresh_seconds c)) (map fst (kw_log w))
     \<and> kc_attempted (kw_cache w) = (case kw_log w of [] \<Rightarrow> None | (t, _) # _ \<Rightarrow> Some t)
     \<and> (case kc_loaded (kw_cache w) of None \<Rightarrow> kc_keys (kw_cache w) = []
        | Some t \<Rightarrow> \<exists>raw. (t, raw) \<in> set (kw_log w) \<and> load_keys jwk c raw = Inr (kc_keys (kw_cache w)))"

lemma fetch_spaced:
  assumes inv: "key_inv jwk c w" and due: "fetches c now kid (kw_cache w)"
  shows "spaced (rat_of_int (oi_refresh_seconds c)) (now # map fst (kw_log w))"
proof (cases "kw_log w")
  case (Cons e es)
  then have "kc_attempted (kw_cache w) = Some (fst e)" using inv by (cases e) (simp add: key_inv_def)
  then have "fst e + rat_of_int (oi_refresh_seconds c) \<le> now" using due by (simp add: fetches_def algebra_simps)
  moreover have "spaced (rat_of_int (oi_refresh_seconds c)) (map fst (kw_log w))" using inv by (simp add: key_inv_def)
  ultimately show ?thesis using Cons by simp
qed simp

lemma key_call_inv:
  assumes inv: "key_inv jwk c w"
  shows "key_inv jwk c (snd (key_call jwk c now raw kid w))"
proof (cases "fetches c now kid (kw_cache w)")
  case True
  note spaced = fetch_spaced [OF inv True]
  have stale: "keys_expired c now (kw_cache w) \<or> map_of (kc_keys (kw_cache w)) kid = None" using True by (simp add: fetches_def)
  show ?thesis
  proof (cases "load_keys jwk c raw")
    case (Inl e)
    then have "snd (key_call jwk c now raw kid w)
        = \<lparr>kw_clock = now, kw_cache = (kw_cache w)\<lparr>kc_attempted := Some now\<rparr>, kw_log = (now, raw) # kw_log w\<rparr>"
      using True stale by (simp add: key_call_def get_key_def)
    then show ?thesis using spaced inv by (auto simp: key_inv_def split: option.splits)
  next
    case (Inr keys)
    then have "snd (key_call jwk c now raw kid w)
        = \<lparr>kw_clock = now, kw_cache = \<lparr>kc_keys = keys, kc_loaded = Some now, kc_attempted = Some now\<rparr>, kw_log = (now, raw) # kw_log w\<rparr>"
      using True stale by (simp add: key_call_def get_key_def Let_def)
    then show ?thesis using spaced Inr by (auto simp: key_inv_def)
  qed
next
  case False
  then have "snd (key_call jwk c now raw kid w) = w\<lparr>kw_clock := now\<rparr>" by (auto simp: key_call_def get_key_def)
  then show ?thesis using inv by (simp add: key_inv_def split: option.splits)
qed

interpretation key_cache: invariant_system key_init "key_step jwk c" "key_inv jwk c" for jwk c
proof
  show "key_init w \<Longrightarrow> key_inv jwk c w" for w by (simp add: key_init_def key_inv_def)
  show "key_inv jwk c w \<Longrightarrow> key_step jwk c w w' \<Longrightarrow> key_inv jwk c w'" for w w'
    by (auto elim!: key_stepE intro: key_call_inv)
qed

lemma get_key_fresh:
  assumes "get_key jwk c now raw kid st = (Inr k, st')"
  shows "map_of (kc_keys st') kid = Some k" and "\<not> keys_expired c now st'"
  using assms by (auto simp: get_key_def served_key_def find_key_def Let_def keys_expired_def [where st = "st\<lparr>kc_attempted := a\<rparr>" for a]
    split: if_splits sum.splits option.splits)

lemma served_key_sourced:
  assumes inv: "key_inv jwk c w" and call: "key_call jwk c now raw kid w = (Inr k, w')"
  obtains t raw' keys where "(t, raw') \<in> set (kw_log w')" "now - t < rat_of_int (oi_cache_seconds c)"
    "load_keys jwk c raw' = Inr keys" "map_of keys kid = Some k"
proof -
  have inv': "key_inv jwk c w'" using key_call_inv [OF inv, of now raw kid] call by simp
  have g: "get_key jwk c now raw kid (kw_cache w) = (Inr k, kw_cache w')"
    using call by (auto simp: key_call_def split: prod.splits)
  note fresh = get_key_fresh [OF g]
  then obtain t where "kc_loaded (kw_cache w') = Some t" "now - t < rat_of_int (oi_cache_seconds c)"
    by (auto simp: keys_expired_def split: option.splits)
  then show ?thesis using that inv' fresh(1) by (auto simp: key_inv_def)
qed

text \<open>C25: Over every history of calls of a verifier, two requests for the signing keys are at least the refresh interval apart, whatever
  tokens arrive; and a key that a call serves was in a key set of the issuer that was fetched less than the cache time before and
  whose every entry had passed the checks.\<close>

theorem signing_keys_fresh:
  assumes "reachable key_init (key_step jwk c) w"
  shows "spaced (rat_of_int (oi_refresh_seconds c)) (map fst (kw_log w))
    \<and> (case key_call jwk c now raw kid w of (Inl e, w') \<Rightarrow> True
       | (Inr k, w') \<Rightarrow> \<exists>t raw' keys. (t, raw') \<in> set (kw_log w') \<and> now - t < rat_of_int (oi_cache_seconds c)
           \<and> load_keys jwk c raw' = Inr keys \<and> map_of keys kid = Some k)"
proof -
  have inv: "key_inv jwk c w" using assms by (rule key_cache.reachable_inv)
  have "\<exists>t raw' keys. (t, raw') \<in> set (kw_log w') \<and> now - t < rat_of_int (oi_cache_seconds c)
      \<and> load_keys jwk c raw' = Inr keys \<and> map_of keys kid = Some k" if "key_call jwk c now raw kid w = (Inr k, w')" for k w'
    using served_key_sourced [OF inv that] by metis
  then show ?thesis using inv by (auto simp: key_inv_def split: prod.split sum.split)
qed

definition sample_oidc :: oidc_settings where
  "sample_oidc = \<lparr>oi_token_profile = OIDC, oi_tenant_id = None, oi_issuer = ''https://idp'', oi_audience = ''api'', oi_jwks_url = ''https://idp/keys'',
     oi_tenant_claim = ''tid'', oi_roles_claim = ''roles'', oi_purpose_claim = ''token_use'', oi_purpose_value = ''access'',
     oi_role_mapping = [(''reader'', [DOCUMENT_READ])], oi_service_roles = [], oi_cache_seconds = 300, oi_refresh_seconds = 30, oi_timeout_seconds = 3\<rparr>"

definition sample_key_set :: json where
  "sample_key_set = JObj [(''keys'', JArr [JObj [(''kid'', JStr ''a''), (''kty'', JStr ''RSA''), (''n'', JStr (replicate 256 CHR ''A'')), (''e'', JStr ''AQAB'')]])]"

definition sample_key_world :: "nat key_world" where
  "sample_key_world = \<lparr>kw_clock = 0, kw_cache = \<lparr>kc_keys = [], kc_loaded = None, kc_attempted = None\<rparr>, kw_log = []\<rparr>"

definition sample_loaded_world :: "nat key_world" where
  "sample_loaded_world = snd (key_call (\<lambda>_. Some (7, 2048)) sample_oidc 0 (Some sample_key_set) ''a'' sample_key_world)"

lemma sample_load: "load_keys (\<lambda>_. Some (7, 2048)) sample_oidc (Some sample_key_set) = Inr [(''a'', 7 :: nat)]"
  by (simp add: load_keys_def sample_key_set_def read_key_def key_item_ok_def sample_oidc_def is_text_def jget_or_def verify_only_def
    str_within_def text_within_def)

lemma sample_loaded_world_eq:
  "sample_loaded_world = \<lparr>kw_clock = 0, kw_cache = \<lparr>kc_keys = [(''a'', 7)], kc_loaded = Some 0, kc_attempted = Some 0\<rparr>, kw_log = [(0, Some sample_key_set)]\<rparr>"
  by (simp add: sample_loaded_world_def key_call_def get_key_def sample_key_world_def keys_expired_def fetches_def sample_load served_key_def
    find_key_def Let_def)

theorem signing_keys_fresh_witness:
  "\<exists>t raw' keys. (t, raw') \<in> set (kw_log (snd (key_call (\<lambda>_. Some (7, 2048)) sample_oidc 100 None ''a'' sample_loaded_world)))
     \<and> 100 - t < 300 \<and> load_keys (\<lambda>_. Some (7, 2048)) sample_oidc raw' = Inr keys \<and> map_of keys ''a'' = Some (7 :: nat)"
proof -
  have "key_step (\<lambda>_. Some (7, 2048)) sample_oidc sample_key_world sample_loaded_world"
    unfolding sample_loaded_world_def by (rule key_step) (simp add: sample_key_world_def)
  moreover have "key_init sample_key_world" by (simp add: key_init_def sample_key_world_def)
  ultimately have r: "reachable key_init (key_step (\<lambda>_. Some (7, 2048)) sample_oidc) sample_loaded_world"
    by (auto intro: reachable.intros)
  have call: "fst (key_call (\<lambda>_. Some (7, 2048)) sample_oidc 100 None ''a'' sample_loaded_world) = Inr 7"
    by (simp add: key_call_def get_key_def sample_loaded_world_eq keys_expired_def find_key_def) (simp add: sample_oidc_def)
  show ?thesis using signing_keys_fresh [OF r, where now = 100 and raw = None and kid = "''a''"] call
    by (auto simp: sample_oidc_def [THEN arg_cong [where f = oi_cache_seconds]] split: prod.splits)
qed

lemma read_jwks_bounded:
  "read_jwks timeout chunks fin data = Some out \<Longrightarrow> length data \<le> 65536
    \<Longrightarrow> length out \<le> 65536 \<and> out = data @ concat (map snd chunks) \<and> list_all (\<lambda>(t, _). t \<le> timeout) chunks"
  by (induction timeout chunks fin data rule: read_jwks.induct) (auto split: if_splits)

section \<open>Principals of tokens\<close>

lemma make_principal_fields:
  assumes "make_principal H now issuer subject tenant_identity permissions kind expires = Inr p"
  shows "p_issuer p = issuer" "p_subject p = subject" "p_tenant_identity p = tenant_identity" "p_permissions p = permissions" "p_kind p = kind"
    "p_expires p = expires" "now < rat_of_int expires"
    "p_scope p = \<lparr>tenant = stable_id H [''polymind-identity/1/tenant'', issuer, tenant_identity],
       owner = stable_id H [''polymind-identity/1/owner'', issuer, tenant_identity, subject]\<rparr>"
  using assms by (auto simp: make_principal_def sbind_def guard_def Let_def split: if_splits)

lemma json_strD: "json_str v = Some s \<Longrightarrow> v = JStr s"
  by (cases v) simp_all

lemma json_intD: "json_int v = Some n \<Longrightarrow> v = JInt n"
  by (cases v) simp_all

lemma those_map_strD: "those (map json_str vs) = Some ss \<Longrightarrow> vs = map JStr ss"
  by (induction vs arbitrary: ss) (auto dest: json_strD split: option.splits)

lemma role_listD: "role_list c claims = Some roles \<Longrightarrow> jget_or (oi_roles_claim c) (JArr []) claims = JArr (map JStr roles)"
  by (auto simp: role_list_def dest!: those_map_strD split: json.split_asm if_split_asm Option.bind_splits)

lemma mapped_permissions_iff:
  "a \<in> mapped_permissions c roles \<longleftrightarrow> (\<exists>r \<in> set roles. \<exists>actions. map_of (oi_role_mapping c) r = Some actions \<and> a \<in> set actions)"
proof -
  have "a \<in> set (case v of None \<Rightarrow> [] | Some x \<Rightarrow> x) \<longleftrightarrow> (\<exists>x. v = Some x \<and> a \<in> set x)" for v :: "action list option" by (cases v) auto
  then show ?thesis by (simp add: mapped_permissions_def)
qed

lemma token_principalD:
  assumes "token_principal H now c claims = Some p"
  obtains roles nbf where "jget ''exp'' claims = JInt (p_expires p)" "jget ''nbf'' claims = JInt nbf" "role_list c claims = Some roles"
    "jget ''sub'' claims = JStr (p_subject p)" "jget (oi_tenant_claim c) claims = JStr (p_tenant_identity p)"
    "claims_ok c claims (p_expires p) nbf roles"
    "make_principal H now (oi_issuer c) (p_subject p) (p_tenant_identity p) (token_permissions c roles) (token_kind c roles) (p_expires p) = Inr p"
proof -
  obtain expires nbf roles subject tenant_identity where parts: "json_int (jget ''exp'' claims) = Some expires"
    "json_int (jget ''nbf'' claims) = Some nbf" "role_list c claims = Some roles" "json_str (jget ''sub'' claims) = Some subject"
    "json_str (jget (oi_tenant_claim c) claims) = Some tenant_identity" "claims_ok c claims expires nbf roles"
    "make_principal H now (oi_issuer c) subject tenant_identity (token_permissions c roles) (token_kind c roles) expires = Inr p"
    using assms by (auto simp: token_principal_def split: option.split_asm if_split_asm sum.split_asm)
  note fields = make_principal_fields [OF parts(7)]
  show thesis
    by (rule that [of nbf roles])
      (use parts fields in \<open>simp_all add: json_intD json_strD\<close>)
qed

lemma verify_tokenD:
  assumes "fst (verify_token H jwk header decode c tick now raw token st) = Inr p"
  obtains h kid key claims where "header token = Some h" "header_ok h" "jget ''kid'' h = JStr kid"
    "fst (get_key jwk c tick raw kid st) = Inr key"
    "decode key (oi_issuer c) (oi_audience c) (oi_token_profile c = ENTRA_V2) (required_claims c) token = Some claims"
    "token_principal H now c claims = Some p"
proof -
  obtain h where h: "header token = Some h" "header_ok h"
    using assms by (auto simp: verify_token_def split: if_split_asm option.split_asm)
  then obtain kid where kid: "json_str (jget ''kid'' h) = Some kid" by (auto simp: header_ok_def split: option.split_asm)
  obtain key st' where key: "get_key jwk c tick raw kid st = (Inr key, st')"
    using assms h kid by (auto simp: verify_token_def split: if_split_asm prod.split_asm sum.split_asm)
  obtain claims where "decode key (oi_issuer c) (oi_audience c) (oi_token_profile c = ENTRA_V2) (required_claims c) token = Some claims"
    "token_principal H now c claims = Some p"
    using assms h kid key by (auto simp: verify_token_def bind_eq_Some_conv split: if_split_asm option.split_asm)
  then show thesis using that h json_strD [OF kid] key by simp
qed

text \<open>C24: A token that a verifier accepts, at any point of its history, was signed by the issuer and entitles to what it says. Its header
  names RS256 and nothing but a key identifier and a type; the key of that identifier comes from a key set of the
  issuer that was fetched less than the cache time before and passed the checks, and the claims are what the decoder returns under
  that key for the configured issuer and audience with the required claims. The principal is the subject, tenant and expiry of these claims, not
  expired; it is a service exactly when one of the token's roles is a service role. Under the OIDC profile the token has the
  configured purpose and the permissions are exactly the actions that the configuration maps to the roles of the token; under the
  Entra profile it is a version 2.0 token of the tenant with the scope for users and the one operator role, and may manage
  publications and nothing else.\<close>

theorem token_principal_entitled:
  assumes reach: "reachable key_init (key_step jwk c) w"
    and accepted: "fst (verify_token H jwk header decode c tick now raw token (kw_cache w)) = Inr p"
  shows "\<exists>d kid t raw' keys key claims nbf roles.
      header token = Some (JObj d) \<and> fst ` set d \<subseteq> {''alg'', ''kid'', ''typ''} \<and> is_text ''RS256'' (jget ''alg'' (JObj d))
      \<and> jget ''kid'' (JObj d) = JStr kid
      \<and> (t, raw') \<in> set (kw_log (snd (key_call jwk c tick raw kid w))) \<and> tick - t < rat_of_int (oi_cache_seconds c)
      \<and> load_keys jwk c raw' = Inr keys \<and> map_of keys kid = Some key
      \<and> decode key (oi_issuer c) (oi_audience c) (oi_token_profile c = ENTRA_V2) (required_claims c) token = Some claims
      \<and> p_issuer p = oi_issuer c \<and> jget ''sub'' claims = JStr (p_subject p) \<and> jget (oi_tenant_claim c) claims = JStr (p_tenant_identity p)
      \<and> tenant (p_scope p) = stable_id H [''polymind-identity/1/tenant'', p_issuer p, p_tenant_identity p]
      \<and> owner (p_scope p) = stable_id H [''polymind-identity/1/owner'', p_issuer p, p_tenant_identity p, p_subject p]
      \<and> jget ''exp'' claims = JInt (p_expires p) \<and> now < rat_of_int (p_expires p) \<and> jget ''nbf'' claims = JInt nbf \<and> nbf < p_expires p
      \<and> jget_or (oi_roles_claim c) (JArr []) claims = JArr (map JStr roles)
      \<and> p_kind p = (if set roles \<inter> set (oi_service_roles c) \<noteq> {} then ''service'' else ''user'')
      \<and> (case oi_token_profile c of
           OIDC \<Rightarrow> is_text (oi_purpose_value c) (jget (oi_purpose_claim c) claims)
             \<and> p_permissions p = {a. \<exists>r \<in> set roles. \<exists>actions. map_of (oi_role_mapping c) r = Some actions \<and> a \<in> set actions}
         | ENTRA_V2 \<Rightarrow> is_text ''2.0'' (jget ''ver'' claims) \<and> (\<forall>i. oi_tenant_id c = Some i \<longrightarrow> is_text i (jget ''tid'' claims))
             \<and> (\<exists>scopes. json_chars (jget ''scp'' claims) = Some scopes \<and> map of_char ''access_as_user'' \<in> set (split_space scopes))
             \<and> set roles = {''PolyMind.L1Operator''} \<and> p_permissions p = {PUBLICATION_MANAGE})"
proof -
  obtain h kid key claims where v: "header token = Some h" "header_ok h" "jget ''kid'' h = JStr kid"
    "fst (get_key jwk c tick raw kid (kw_cache w)) = Inr key"
    "decode key (oi_issuer c) (oi_audience c) (oi_token_profile c = ENTRA_V2) (required_claims c) token = Some claims"
    "token_principal H now c claims = Some p"
    using accepted by (rule verify_tokenD)
  obtain d where d: "h = JObj d" "fst ` set d \<subseteq> {''alg'', ''kid'', ''typ''}" "is_text ''RS256'' (jget ''alg'' h)"
    using v(2) by (auto simp: header_ok_def split: json.split_asm)
  have inv: "key_inv jwk c w" using reach by (rule key_cache.reachable_inv)
  have call: "key_call jwk c tick raw kid w = (Inr key, snd (key_call jwk c tick raw kid w))"
    using v(4) by (auto simp: key_call_def split: prod.splits)
  obtain t raw' keys where k: "(t, raw') \<in> set (kw_log (snd (key_call jwk c tick raw kid w)))" "tick - t < rat_of_int (oi_cache_seconds c)"
    "load_keys jwk c raw' = Inr keys" "map_of keys kid = Some key"
    using served_key_sourced [OF inv call] by metis
  obtain roles nbf where tp: "jget ''exp'' claims = JInt (p_expires p)" "jget ''nbf'' claims = JInt nbf" "role_list c claims = Some roles"
    "jget ''sub'' claims = JStr (p_subject p)" "jget (oi_tenant_claim c) claims = JStr (p_tenant_identity p)"
    "claims_ok c claims (p_expires p) nbf roles"
    "make_principal H now (oi_issuer c) (p_subject p) (p_tenant_identity p) (token_permissions c roles) (token_kind c roles) (p_expires p) = Inr p"
    using v(6) by (rule token_principalD)
  note fields = make_principal_fields [OF tp(7)]
  have profile: "case oi_token_profile c of
           OIDC \<Rightarrow> is_text (oi_purpose_value c) (jget (oi_purpose_claim c) claims)
             \<and> p_permissions p = {a. \<exists>r \<in> set roles. \<exists>actions. map_of (oi_role_mapping c) r = Some actions \<and> a \<in> set actions}
         | ENTRA_V2 \<Rightarrow> is_text ''2.0'' (jget ''ver'' claims) \<and> (\<forall>i. oi_tenant_id c = Some i \<longrightarrow> is_text i (jget ''tid'' claims))
             \<and> (\<exists>scopes. json_chars (jget ''scp'' claims) = Some scopes \<and> map of_char ''access_as_user'' \<in> set (split_space scopes))
             \<and> set roles = {''PolyMind.L1Operator''} \<and> p_permissions p = {PUBLICATION_MANAGE}"
  proof (cases "oi_token_profile c")
    case OIDC
    then have "p_permissions p = mapped_permissions c roles" using fields(4) by (simp add: token_permissions_def)
    then have "p_permissions p = {a. \<exists>r \<in> set roles. \<exists>actions. map_of (oi_role_mapping c) r = Some actions \<and> a \<in> set actions}"
      by (simp only: set_eq_iff mapped_permissions_iff mem_Collect_eq simp_thms)
    moreover have "is_text (oi_purpose_value c) (jget (oi_purpose_claim c) claims)" using tp(6) OIDC by (simp add: claims_ok_def)
    ultimately show ?thesis using OIDC by simp
  next
    case ENTRA_V2
    then show ?thesis using tp(6) fields(4) by (auto simp: claims_ok_def token_permissions_def entra_claims_def split: option.split_asm)
  qed
  have window: "nbf < p_expires p" using tp(6) by (simp add: claims_ok_def)
  have h: "header token = Some (JObj d)" "is_text ''RS256'' (jget ''alg'' (JObj d))" "jget ''kid'' (JObj d) = JStr kid" using v(1,3) d(1,3) by simp_all
  have kind: "p_kind p = (if set roles \<inter> set (oi_service_roles c) \<noteq> {} then ''service'' else ''user'')" using fields(5) by (simp add: token_kind_def)
  have scope: "tenant (p_scope p) = stable_id H [''polymind-identity/1/tenant'', p_issuer p, p_tenant_identity p]"
    "owner (p_scope p) = stable_id H [''polymind-identity/1/owner'', p_issuer p, p_tenant_identity p, p_subject p]"
    using fields(1,8) by simp_all
  show ?thesis
    by (rule exI [of _ d], rule exI [of _ kid], rule exI [of _ t], rule exI [of _ raw'], rule exI [of _ keys], rule exI [of _ key],
        rule exI [of _ claims], rule exI [of _ nbf], rule exI [of _ roles], intro conjI)
      (rule h d(2) k v(5) fields(1,7) scope tp(1,2,4,5) window role_listD [OF tp(3)] kind profile)+
qed

definition sample_claims :: json where
  "sample_claims = JObj [(''sub'', JStr ''ann''), (''tid'', JStr ''acme''), (''exp'', JInt 900), (''nbf'', JInt 0),
     (''token_use'', JStr ''access''), (''roles'', JArr [JStr ''reader'', JStr ''guest''])]"

definition sample_decode :: "nat \<Rightarrow> string \<Rightarrow> string \<Rightarrow> bool \<Rightarrow> string list \<Rightarrow> string \<Rightarrow> json option" where
  "sample_decode key issuer audience strict required token = (if key = 7 \<and> token = ''a.b.c'' then Some sample_claims else None)"

definition sample_header :: "string \<Rightarrow> json option" where
  "sample_header token = Some (JObj [(''alg'', JStr ''RS256''), (''kid'', JStr ''a''), (''typ'', JStr ''JWT'')])"

theorem token_principal_entitled_witness:
  "case fst (verify_token sample_prims (\<lambda>_. Some (7, 2048)) sample_header sample_decode sample_oidc 100 200 None ''a.b.c'' (kw_cache sample_loaded_world)) of
     Inl e \<Rightarrow> False | Inr p \<Rightarrow> p_permissions p = {DOCUMENT_READ} \<and> p_subject p = ''ann'' \<and> p_kind p = ''user''"
proof -
  let ?r = "fst (verify_token sample_prims (\<lambda>_. Some (7, 2048)) sample_header sample_decode sample_oidc 100 200 None ''a.b.c'' (kw_cache sample_loaded_world))"
  have step: "key_step (\<lambda>_. Some (7, 2048)) sample_oidc sample_key_world sample_loaded_world"
    unfolding sample_loaded_world_def by (rule key_step) (simp add: sample_key_world_def)
  have "key_init sample_key_world" by (simp add: key_init_def sample_key_world_def)
  with step have reach: "reachable key_init (key_step (\<lambda>_. Some (7, 2048)) sample_oidc) sample_loaded_world"
    by (auto intro: reachable.intros)
  have key: "get_key (\<lambda>_. Some (7, 2048)) sample_oidc 100 None ''a'' (kw_cache sample_loaded_world) = (Inr 7, kw_cache sample_loaded_world)"
    by (simp add: get_key_def sample_loaded_world_eq keys_expired_def find_key_def) (simp add: sample_oidc_def)
  have ok: "claims_ok sample_oidc sample_claims 900 0 [''reader'', ''guest'']"
    by (simp add: claims_ok_def sample_oidc_def sample_claims_def is_text_def)
  have roles: "role_list sample_oidc sample_claims = Some [''reader'', ''guest'']"
    by (simp add: role_list_def jget_or_def sample_oidc_def sample_claims_def)
  have "\<exists>p. make_principal sample_prims 200 (oi_issuer sample_oidc) ''ann'' ''acme'' perms kind 900 = Inr p"
    if "kind \<in> {''user'', ''service''}" for perms kind
    using that by (simp add: make_principal_def identity_part_def sample_oidc_def Let_def sbind_def guard_def)
  then obtain p where "make_principal sample_prims 200 (oi_issuer sample_oidc) ''ann'' ''acme'' (token_permissions sample_oidc [''reader'', ''guest''])
      (token_kind sample_oidc [''reader'', ''guest'']) 900 = Inr p" by (fastforce simp: token_kind_def)
  then have tp: "token_principal sample_prims 200 sample_oidc sample_claims = Some p"
    using ok roles by (simp add: token_principal_def) (simp add: sample_claims_def sample_oidc_def)
  have p: "?r = Inr p"
    by (simp add: verify_token_def text_within_def sample_header_def header_ok_def is_text_def key sample_decode_def tp)
  obtain key claims roles where f: "sample_decode key (oi_issuer sample_oidc) (oi_audience sample_oidc) False (required_claims sample_oidc) ''a.b.c'' = Some claims"
      "jget ''sub'' claims = JStr (p_subject p)" "jget_or (oi_roles_claim sample_oidc) (JArr []) claims = JArr (map JStr roles)"
      "p_kind p = (if set roles \<inter> set (oi_service_roles sample_oidc) \<noteq> {} then ''service'' else ''user'')"
      "p_permissions p = {a. \<exists>r \<in> set roles. \<exists>actions. map_of (oi_role_mapping sample_oidc) r = Some actions \<and> a \<in> set actions}"
    using token_principal_entitled [OF reach p] by (auto simp: sample_oidc_def [THEN arg_cong [where f = oi_token_profile], simplified])
  have claims: "claims = sample_claims" using f(1) by (simp add: sample_decode_def split: if_split_asm)
  then have "map JStr roles = map JStr [''reader'', ''guest'']" using f(3) by (simp add: sample_claims_def jget_or_def sample_oidc_def)
  then have "roles = [''reader'', ''guest'']" by (rule map_injective) (simp add: inj_def)
  then have roles_set: "set roles = {''reader'', ''guest''}" by simp
  have "map_of (oi_role_mapping sample_oidc) r = (if r = ''reader'' then Some [DOCUMENT_READ] else None)" for r by (simp add: sample_oidc_def)
  then have "p_permissions p = {DOCUMENT_READ}" unfolding f(5) roles_set by simp
  moreover have "p_kind p = ''user''" using f(4) by (simp add: sample_oidc_def)
  moreover have "p_subject p = ''ann''" using f(2) unfolding claims by (simp add: sample_claims_def)
  ultimately show ?thesis unfolding p by simp
qed

end
