(* ===== verification/ApplicationEdge.thy ===== *)
theory ApplicationEdge
  imports Identity
begin

text \<open>
  The edge of the web application (api/security.py): correlation, authentication, the limit of a request body and the release of every
  message of a response. The application behind it is any program that receives request messages,
  sends response messages, replaces the snapshot of its request and ends or raises (\<open>app\<close>). What the transport
  and other processes do is the environment: the authority and the clock at each send, failures of a send and the
  messages of the request. The rendering of a JSON response by the web framework is an argument. Connections other than HTTP pass
  through; metrics and logs are left out.
\<close>

section \<open>Paths and tokens\<close>

definition prefixed :: "string \<Rightarrow> string \<Rightarrow> bool" where
  "prefixed p s \<longleftrightarrow> take (length p) s = p"

definition endpoint_class :: "string \<Rightarrow> string option" where
  "endpoint_class path =
     (if path \<in> {''/query'', ''/query/stream'', ''/documents/analyze''} then Some (if prefixed ''/documents/'' path then ''document'' else ''query'')
      else if prefixed ''/memory/'' path then Some ''memory''
      else if prefixed ''/documents/'' path then Some ''document''
      else if prefixed ''/jobs/'' path then Some ''job''
      else if path = ''/usage'' \<or> prefixed ''/usage/'' path then Some ''usage''
      else None)"

definition documentation_urls :: "bool \<Rightarrow> string option \<times> string option \<times> string option" where
  "documentation_urls enabled = (if enabled then (Some ''/docs'', Some ''/redoc'', Some ''/openapi.json'') else (None, None, None))"

definition ascii_lower :: "string \<Rightarrow> string" where
  "ascii_lower = map (\<lambda>c. if 65 \<le> (of_char c :: nat) \<and> (of_char c :: nat) \<le> 90 then char_of ((of_char c :: nat) + 32) else c)"




datatype edge_exn = Edge_security security_error | Edge_too_large | Edge_other


section \<open>Messages and applications\<close>

datatype response_message = Response_start int "(string \<times> string) list" | Response_body bytes bool

datatype request_message = Request_body bytes bool | Request_disconnect

datatype app =
    App_end
  | App_raise edge_exn
  | App_send response_message "edge_exn option \<Rightarrow> app"
  | App_receive "edge_exn + request_message \<Rightarrow> app"
  | App_snapshot authorization_snapshot app

datatype send_result = Send_ok | Send_os_error | Send_raised

record edge_env =
  ev_authority :: "nat \<Rightarrow> authority"
  ev_now :: "nat \<Rightarrow> rat"
  ev_send :: "nat \<Rightarrow> send_result"
  ev_receive :: "nat \<Rightarrow> edge_exn + request_message"

text \<open>
  The state of one request. The messages that left are kept with the number of the send and the snapshot that it
  was released under; the bodies that reached the application are kept too.
\<close>

record edge_state =
  es_snapshot :: "authorization_snapshot option"
  es_started :: bool
  es_sends :: nat
  es_sent :: "(nat \<times> authorization_snapshot option \<times> response_message) list"
  es_receives :: nat
  es_consumed :: int
  es_delivered :: "request_message list"
  es_ran :: bool


definition correlated :: "string \<Rightarrow> response_message \<Rightarrow> response_message" where
  "correlated cid m = (case m of Response_start status hs \<Rightarrow> Response_start status (hs @ [(''x-request-id'', cid)]) | _ \<Rightarrow> m)"

fun is_start :: "response_message \<Rightarrow> bool" where
  "is_start (Response_start _ _) = True"
| "is_start (Response_body _ _) = False"

text \<open>The release holds a transaction of the authority around the send, which turns an error of the operating system, a timeout among
  them, into a security error.\<close>

definition released :: "edge_env \<Rightarrow> nat \<Rightarrow> authorization_snapshot \<Rightarrow> edge_exn option" where
  "released E n s = (case revalidate (ev_now E n) s (ev_authority E n) of Inl e \<Rightarrow> Some (Edge_security e)
     | Inr _ \<Rightarrow> (case ev_send E n of Send_ok \<Rightarrow> None | Send_os_error \<Rightarrow> Some (Edge_security Security_unavailable) | Send_raised \<Rightarrow> Some Edge_other))"

definition plain_send :: "edge_env \<Rightarrow> nat \<Rightarrow> edge_exn option" where
  "plain_send E n = (if ev_send E n = Send_ok then None else Some Edge_other)"

definition correlated_send :: "edge_env \<Rightarrow> bool \<Rightarrow> bool \<Rightarrow> string \<Rightarrow> response_message \<Rightarrow> edge_state \<Rightarrow> edge_exn option \<times> edge_state" where
  "correlated_send E oidc runtime cid m st =
     (let n = es_sends st; snap = (if oidc then es_snapshot st else None); st1 = st\<lparr>es_sends := n + 1\<rparr>;
          failure = (case snap of None \<Rightarrow> plain_send E n | Some s \<Rightarrow> if runtime then released E n s else Some Edge_other)
      in case failure of Some e \<Rightarrow> (Some e, st1)
         | None \<Rightarrow> (None, st1\<lparr>es_sent := es_sent st @ [(n, snap, correlated cid m)], es_started := es_started st \<or> is_start m\<rparr>))"

fun send_all :: "(response_message \<Rightarrow> edge_state \<Rightarrow> edge_exn option \<times> edge_state) \<Rightarrow> response_message list \<Rightarrow> edge_state \<Rightarrow> edge_exn option \<times> edge_state" where
  "send_all snd_one [] st = (None, st)"
| "send_all snd_one (m # ms) st = (case snd_one m st of (Some e, st') \<Rightarrow> (Some e, st') | (None, st') \<Rightarrow> send_all snd_one ms st')"

definition message_bytes :: "request_message \<Rightarrow> int" where
  "message_bytes m = (case m of Request_body b _ \<Rightarrow> int (length b) | Request_disconnect \<Rightarrow> 0)"

text \<open>\<^verbatim>\<open>limited_receive\<close>, or the plain receive when there is no limit.\<close>

definition limited_receive :: "edge_env \<Rightarrow> int option \<Rightarrow> edge_state \<Rightarrow> (edge_exn + request_message) \<times> edge_state" where
  "limited_receive E limit st =
     (let n = es_receives st; st1 = st\<lparr>es_receives := n + 1\<rparr> in
      case ev_receive E n of Inl e \<Rightarrow> (Inl e, st1)
      | Inr m \<Rightarrow> (let used = es_consumed st + message_bytes m; st2 = st1\<lparr>es_consumed := used\<rparr> in
          if (case (limit, m) of (Some l, Request_body _ _) \<Rightarrow> used > l | _ \<Rightarrow> False) then (Inl Edge_too_large, st2)
          else (Inr m, st2\<lparr>es_delivered := es_delivered st @ [m]\<rparr>)))"

primrec run_app :: "edge_env \<Rightarrow> bool \<Rightarrow> bool \<Rightarrow> string \<Rightarrow> int option \<Rightarrow> app \<Rightarrow> edge_state \<Rightarrow> edge_exn option \<times> edge_state" where
  "run_app E oidc runtime cid limit App_end = (\<lambda>st. (None, st))"
| "run_app E oidc runtime cid limit (App_raise e) = (\<lambda>st. (Some e, st))"
| "run_app E oidc runtime cid limit (App_send m k) = (\<lambda>st. case correlated_send E oidc runtime cid m st of (r, st') \<Rightarrow> run_app E oidc runtime cid limit (k r) st')"
| "run_app E oidc runtime cid limit (App_receive k) = (\<lambda>st. case limited_receive E limit st of (r, st') \<Rightarrow> run_app E oidc runtime cid limit (k r) st')"
| "run_app E oidc runtime cid limit (App_snapshot s k) = (\<lambda>st. run_app E oidc runtime cid limit k (st\<lparr>es_snapshot := Some s\<rparr>))"

section \<open>The middleware\<close>

datatype auth_mode = Auth_disabled | Static_bearer | Oidc_jwt

record edge_config =
  ec_mode :: auth_mode
  ec_token :: string
  ec_max_request_bytes :: int

record edge_request =
  rq_path :: string
  rq_method :: string
  rq_headers :: "(string \<times> string) list"

definition header_values :: "string \<Rightarrow> edge_request \<Rightarrow> string list" where
  "header_values name rq = map snd (filter (\<lambda>(k, v). ascii_lower k = name) (rq_headers rq))"

definition header_value :: "string \<Rightarrow> edge_request \<Rightarrow> string option" where
  "header_value name rq = (case rev (header_values name rq) of [] \<Rightarrow> None | v # _ \<Rightarrow> Some v)"





text \<open>\<^verbatim>\<open>int\<close> of the bytes of a header: blanks around, a sign, digits with single underscores between them.\<close>

definition blank_byte :: "char \<Rightarrow> bool" where
  "blank_byte c \<longleftrightarrow> c = CHR '' '' \<or> 9 \<le> (of_char c :: nat) \<and> (of_char c :: nat) \<le> 13"

definition digit_char :: "char \<Rightarrow> bool" where
  "digit_char c \<longleftrightarrow> 48 \<le> (of_char c :: nat) \<and> (of_char c :: nat) \<le> 57"

fun digit_groups :: "string \<Rightarrow> bool" where
  "digit_groups [] = False"
| "digit_groups [c] = digit_char c"
| "digit_groups (c # d # r) = (digit_char c \<and> (if d = CHR ''_'' then digit_groups r else digit_groups (d # r)))"

definition digits_int :: "string \<Rightarrow> int" where
  "digits_int s = foldl (\<lambda>n c. 10 * n + (int (of_char c) - 48)) 0 (filter digit_char s)"

definition parse_int :: "string \<Rightarrow> int option" where
  "parse_int s = (let t = rev (dropWhile blank_byte (rev (dropWhile blank_byte s)));
                      (sign, ds) = (case t of c # r \<Rightarrow> if c = CHR ''-'' then (-1, r) else if c = CHR ''+'' then (1, r) else (1, t) | [] \<Rightarrow> (1, []))
     in if digit_groups ds then Some (sign * digits_int ds) else None)"

definition declared_too_large :: "edge_config \<Rightarrow> edge_request \<Rightarrow> bool" where
  "declared_too_large C rq = (case header_value ''content-length'' rq of None \<Rightarrow> False
     | Some v \<Rightarrow> (case parse_int v of None \<Rightarrow> True | Some n \<Rightarrow> n < 0 \<or> n > ec_max_request_bytes C))"

text \<open>The request behind the authentication.\<close>

definition edge_body :: "(int \<Rightarrow> bool \<Rightarrow> response_message list) \<Rightarrow> edge_config \<Rightarrow> edge_env \<Rightarrow> bool \<Rightarrow> string \<Rightarrow> edge_request \<Rightarrow> app \<Rightarrow> edge_state
    \<Rightarrow> edge_exn option \<times> edge_state" where
  "edge_body respond C E runtime cid rq app st =
     (let oidc = ec_mode C = Oidc_jwt; send = correlated_send E oidc runtime cid; limit = ec_max_request_bytes C in
      if endpoint_class (rq_path rq) = None \<or> rq_method rq \<notin> {''POST'', ''PUT'', ''PATCH'', ''DELETE''}
      then run_app E oidc runtime cid None app (st\<lparr>es_ran := True\<rparr>)
      else if declared_too_large C rq then send_all send (respond 413 False) st
      else case run_app E oidc runtime cid (Some limit) app (st\<lparr>es_ran := True\<rparr>) of
          (Some Edge_too_large, st') \<Rightarrow> send_all send (respond 413 False) st'
        | r \<Rightarrow> r)"



section \<open>What leaves and what enters\<close>

text \<open>A refusal of the edge itself, and the messages that may leave a protected request: released, or a refusal.\<close>

definition refusal :: "(int \<Rightarrow> bool \<Rightarrow> response_message list) \<Rightarrow> string \<Rightarrow> response_message \<Rightarrow> bool" where
  "refusal respond cid m \<longleftrightarrow> m = Response_body [] False
     \<or> list_ex (\<lambda>(status, a). m \<in> set (map (correlated cid) (respond status a))) [(401, True), (403, False), (413, False), (503, False)]"

definition sent_ok :: "(int \<Rightarrow> bool \<Rightarrow> response_message list) \<Rightarrow> string \<Rightarrow> edge_env \<Rightarrow> nat \<times> authorization_snapshot option \<times> response_message \<Rightarrow> bool" where
  "sent_ok respond cid E = (\<lambda>(n, snap, m). case snap of Some s \<Rightarrow> revalidate (ev_now E n) s (ev_authority E n) = Inr () | None \<Rightarrow> refusal respond cid m)"


lemma sent_ok_simps [simp]:
  "sent_ok respond cid E (n, Some s, m) \<longleftrightarrow> revalidate (ev_now E n) s (ev_authority E n) = Inr ()"
  "sent_ok respond cid E (n, None, m) \<longleftrightarrow> refusal respond cid m"
  by (simp_all add: sent_ok_def)

lemma correlated_send_keeps:
  "correlated_send E oidc runtime cid m st = (r, st')
    \<Longrightarrow> es_ran st' = es_ran st \<and> es_snapshot st' = es_snapshot st \<and> es_delivered st' = es_delivered st \<and> es_consumed st' = es_consumed st"
  by (auto simp: correlated_send_def Let_def split: option.splits if_splits)


lemma send_all_keeps:
  "send_all (correlated_send E oidc runtime cid) ms st = (r, st')
    \<Longrightarrow> es_ran st' = es_ran st \<and> es_snapshot st' = es_snapshot st \<and> es_delivered st' = es_delivered st"
  by (induction ms arbitrary: st) (auto split: prod.splits option.splits dest!: correlated_send_keeps)




lemma limited_receive_keeps:
  assumes "limited_receive E limit st = (r, st')"
  shows "es_ran st' = es_ran st" and "es_snapshot st' = es_snapshot st" and "es_sent st' = es_sent st"
  using assms by (auto simp: limited_receive_def Let_def split: sum.splits if_splits)


lemma run_app_keeps:
  assumes "run_app E oidc runtime cid limit app st = (r, st')"
  shows "es_ran st' = es_ran st \<and> (es_snapshot st \<noteq> None \<longrightarrow> es_snapshot st' \<noteq> None)"
  using assms
proof (induction app arbitrary: st)
  case (App_send m k)
  obtain x st1 where c: "correlated_send E oidc runtime cid m st = (x, st1)" by fastforce
  show ?case using App_send.IH [of "k x" st1] App_send.prems c correlated_send_keeps [OF c] by auto
next
  case (App_receive k)
  obtain x st1 where c: "limited_receive E limit st = (x, st1)" by fastforce
  show ?case using App_receive.IH [of "k x" st1] App_receive.prems c limited_receive_keeps [OF c] by auto
next
  case (App_snapshot s k)
  show ?case using App_snapshot.IH [of "st\<lparr>es_snapshot := Some s\<rparr>"] App_snapshot.prems by auto
qed auto

subsection \<open>Request bodies\<close>

lemma limited_receive_bound:
  assumes "limited_receive E (Some l) st = (r, st')" and "sum_list (map message_bytes (es_delivered st)) \<le> es_consumed st"
    and "sum_list (map message_bytes (es_delivered st)) \<le> l"
  shows "sum_list (map message_bytes (es_delivered st')) \<le> es_consumed st' \<and> sum_list (map message_bytes (es_delivered st')) \<le> l"
  using assms by (auto simp: limited_receive_def Let_def message_bytes_def split: sum.splits if_splits request_message.splits)

lemma run_app_bound:
  assumes "run_app E oidc runtime cid (Some l) app st = (r, st')" and "sum_list (map message_bytes (es_delivered st)) \<le> es_consumed st"
    and "sum_list (map message_bytes (es_delivered st)) \<le> l"
  shows "sum_list (map message_bytes (es_delivered st')) \<le> l"
  using assms
proof (induction app arbitrary: st)
  case (App_send m k)
  obtain x st1 where c: "correlated_send E oidc runtime cid m st = (x, st1)" by fastforce
  show ?case using App_send.IH [of "k x" st1] App_send.prems c correlated_send_keeps [OF c] by auto
next
  case (App_receive k)
  obtain x st1 where c: "limited_receive E (Some l) st = (x, st1)" by fastforce
  show ?case using App_receive.IH [of "k x" st1] App_receive.prems c limited_receive_bound [OF c] by auto
next
  case (App_snapshot s k)
  show ?case using App_snapshot.IH [of "st\<lparr>es_snapshot := Some s\<rparr>"] App_snapshot.prems by auto
qed auto

section \<open>The middleware\<close>
















lemma request_body_bounded:
  assumes "edge_body respond C E runtime cid rq app st = (r, st')" and "endpoint_class (rq_path rq) \<noteq> None"
    and "rq_method rq \<in> {''POST'', ''PUT'', ''PATCH'', ''DELETE''}" and "es_delivered st = []" "es_consumed st = 0" "0 \<le> ec_max_request_bytes C"
  shows "sum_list (map message_bytes (es_delivered st')) \<le> ec_max_request_bytes C"
proof -
  have bound: "sum_list (map message_bytes (es_delivered st1)) \<le> ec_max_request_bytes C"
    if "run_app E oidc runtime cid (Some (ec_max_request_bytes C)) app (st\<lparr>es_ran := True\<rparr>) = (x, st1)" for oidc x st1
    using run_app_bound [OF that] assms(4-6) by simp
  have same: "es_delivered st2 = es_delivered st1"
    if "send_all (correlated_send E oidc runtime cid) ms st1 = (x, st2)" for oidc ms st1 x st2
    using send_all_keeps [OF that] by simp
  show ?thesis using assms bound same
    by (auto simp: edge_body_def Let_def split: if_splits prod.splits option.splits edge_exn.splits)
qed

end
