(* ===== verification/Spec2Isabelle.thy ===== *)
theory Spec2Isabelle
  imports MemoryStore WorkflowTheorems AuthorizedServices ManagedSamples ProviderTheorems ApplicationEdge
begin

text \<open>
  Verification of Estudio PolyMind: the durable and governed core of its document pipeline.

  \<^bold>\<open>The program and its parts.\<close> A document enters as an immutable source object. A job with a fixed
  plan of steps is admitted to a durable ledger; an outbox relays due steps to a dispatcher;
  workers claim a step with a fenced lease, run its handler through a store that registers every
  write as an intent, and commit a manifest of object references. Extraction turns the source into
  an artifact of text units and blocks. Digestion plans chunks and a reduction tree over the
  artifact, and admits a generated stage result only when its citations resolve. Publication turns
  accepted digests into a generation of retrieval records, checks it and activates it with a fenced epoch;
  a replica answers queries from the active generation and re-reads the authority for every hit.
  Every inference call passes the security authority (who may do what), the governance ledger (what
  it may cost) and the shared admission (how many and how fast).

  \<^bold>\<open>Shared vocabulary.\<close> Prelude: errors as sums (\<open>Inl\<close> the error), \<open>sbind\<close>, transactions
  (\<open>run_txn\<close>: an exception keeps the old state), Python dictionaries as association lists with
  distinct keys, \<open>reachable\<close>, and the two contracts that the stateful components share as locales:
  \<open>invariant_system\<close> (an invariant kept by every step) and \<open>frozen_rows\<close> (a row that is final stays
  so along every history). Json: canonical JSON text, fingerprints and stable identifiers
  (documents/jobs/models.py, documents/models.py). SHA-256, UUIDv5 and the printing of a float are
  the fields of the record \<open>prims\<close>; nothing is assumed of them where it is not named as a
  hypothesis.

  \<^bold>\<open>Jobs.\<close>
  \<^item> JobModels: documents/jobs/models.py and errors.py. One record per contract; a validator is a
    predicate, a fingerprint a function of the JSON dump.
  \<^item> JobLedger: documents/jobs/sqlite.py. The database is the record \<open>ledger\<close> with one field per
    table; every public method is one function of the clock reading and the database, with the
    private helpers of the class (\<open>check_lease\<close>, \<open>complete_step\<close>, \<open>promote\<close>, \<open>finish_job\<close>, ...) as
    functions of their own. \<open>ledger_call\<close> is the sum of the calls, \<open>ledger_step_rel\<close> one call of any
    process. Because SQLite runs each method as one immediate transaction, an interleaving of
    processes is a sequence of calls.
  \<^item> LedgerInvariants, LedgerEvents, LedgerLive, LedgerRefinement, LedgerHistory, LedgerIdentity,
    LedgerTheorems: the abstract specification is the state machine \<open>ledger_event\<close> of guarded events;
    every operation refines a sequence of them. The invariants, and what histories keep (fences
    grow, settled rows and manifests are final, attempts are bounded, dependencies come first), are
    proved once per event and hold for every history of calls. JobSamples has the concrete
    database that the witnesses run.
  \<^item> ObjectStore: documents/storage.py; the directory is a map from object keys to entries. The locale
    \<open>write_once\<close> is the contract that the clients use, interpreted as \<open>objects\<close>.
  \<^item> Worker: documents/jobs/worker.py and service.py: dispatcher (locale \<open>dispatcher\<close>, interpreted as
    \<open>local_queue\<close>), outbox relay, intent store and one worker round over the ledger and the store. Whatever the handler does,
    the only manifest that a round adds itself is the one its handler returned, under a lease that still holds, of
    objects that were verified and intended.

  \<^bold>\<open>Documents.\<close>
  \<^item> DocModels: documents/models.py, policy.py, provenance.py. TextExtraction: documents/extraction.py
    over any object-store port. Pipeline: the extraction step handler of documents/jobs/worker.py over
    the intent store. Text is a list of Unicode code points; what Python asks Unicode about a code point
    is in the record \<open>lang\<close>.
  \<^item> DigestDiagnostics, DigestModels, DigestSizing, DigestPlanning, DigestValidation:
    documents/digestion/diagnostics.py, models.py, sizing.py and codec.py, planning.py, validation.py.
    DigestPlanTheorems: an accepted plan carries the eligible text once and in order, within the
    limits of its profile. PlanIdentity: no two stages of a plan have the same name, so their identifiers
    differ as far as UUIDv5 keeps different names apart. DigestTheorems: the evidence index (a binary search) is equivalent to the
    reference definition of provenance.py, accepted results cite only what they were given, a
    complete digest covers every eligible character. DigestSamples has a concrete plan.
  \<^item> DigestCodec: the dumps of the durable digestion objects, with put and read of documents/digestion/codec.py.
    DigestWorkflow: documents/digestion/workflow.py; the steps of a plan, admission, the step handler over the
    intent store, the accepted digest. WorkflowTheorems: the steps are a graph that the ledger admits, the handler
    is a client of the ledger, a stored stage result has passed the validator, and a digest is
    published only after every stage has passed it again.
  \<^item> ManagedSynthesis: documents/digestion/managed.py; settings, binding, the prompt with its control and material
    parts, governed and direct execution, classification of failures and the step handler.
    ManagedTheorems: a request that the planner admits is rendered within the size of the profile and the
    context of the provider, as the governed call measures it again; a direct call settles its admission on
    every path. ManagedSamples has a concrete request. Utf8Text: encoding and decoding of text, and their
    round trip.

  \<^bold>\<open>Publication and retrieval.\<close>
  \<^item> Publication: documents/publication/authority.py. PublicationPlan: models.py, encoding.py and
    planning.py. PublicationTheorems: published records are the exact source text of the blocks the
    digest includes. PublicationService: service.py and workflow.py; the reader that validates a generation, and
    plan, prepare, activate, revoke, roll back and reconcile over the jobs, the objects and a vector store, with other
    processes between their steps. ServiceTheorems: a generation becomes active only when what the vector store
    lists for it is exact source text of accepted digests, and the service keeps the linear history of the authority.
  \<^item> RankFusion: rag/bm25.py, retriever.py and hybrid_retriever.py; the fused order is that of the
    reciprocal-rank sums. Replica: retrieval.py and rag/reranker.py; a replica loads a generation, pins it for a
    request, retrieves and cites. ReplicaTheorems: what a retrieval returns is authorized and sourced, and a
    citation quotes the text that its evidence resolves to.
  \<^item> DocumentAnalysis: documents/publication/analysis.py; one question is pinned, retrieved, cited, sent through
    the governed call and answered only with citations that were supplied to that call, each of them source text of the
    generation that the question pinned. AuthorizedServices:
    security/services.py; an answer is released on a snapshot of the authority that is checked again, and
    a job is cancelled only by a principal that may delete its document.

  \<^bold>\<open>Governed inference.\<close>
  \<^item> Inference: llm/inference.py and the call identity. ProviderSchema: llm/azure_schema.py and
    llm/structured.py; the conversion of a schema to the strict subset of the provider, its bounds, and that a second
    conversion changes nothing. Admission: llm/admission.py; rates,
    concurrency and the priority of interactive calls over every history (\<open>admission_step\<close>).
  \<^item> Security, AuthorityEvents, AuthorityTheorems: security/models.py and authority.py; events
    labelled with a tenant, withdrawal of access, epochs, separation of tenants, audit.
  \<^item> Identity: security/identity.py; the settings of the issuer, the cache of signing keys and the verification of a
    token. Over every history the keys are requested no more often than the refresh interval and served no longer than the
    cache time; an accepted token has the configured header, issuer, tenant, times and purpose, its key is one of the
    fetched keys, and the principal has the permissions of the roles in the token.
  \<^item> ApplicationEdge: api/security.py; endpoint classes, static and OIDC authentication, the limit of the request and
    the release of every message, for any application behind the middleware. On a protected path the application runs
    only with credentials, and a message leaves only under a snapshot that holds at its send.
  \<^item> Governance, GovernanceEvents, GovernanceTheorems: governance/ledger.py; quotas, budgets, one
    execution per identity, final settlements. Amounts are exact rationals.
  \<^item> Execution: governance/execution.py; one call composed of the three ledgers, with the
    \<^verbatim>\<open>finally\<close> block, for any provider. A call leaves every ledger settled, except that a provider
    whose reported counts are beyond the range of the governance ledger leaves its row started; the theorem states both.
  \<^item> ProviderHttp: llm/bounded_http.py and operational.py; the reading of a response within its size and
    deadline, and the errors of statuses. Providers: llm/openai_compatible.py and ollama_client.py; bounded
    execution, plain and streamed generation, readiness. ProviderTheorems: the locale \<open>bounded_adapter\<close> is what
    the governed call relies on (a result within the response limit, consistent usage with every outcome), and both
    adapters are its interpretations; a stream without error saw its closing marker; a ready provider lists every model.
  \<^item> MemoryStore: memory/memory_store.py and security/memory.py. The locale \<open>conversation_store\<close> is the contract of
    the stores (a session is a list of messages, changed by exchanges and clearings); the file store and the
    Redis store are its interpretations. Time passes between the calls: a key of the Redis store expires, a file does not. With no
    time to live the stores agree on every history, otherwise the Redis store has what has not expired. The facade keeps
    principals apart over any store of the locale \<open>keyed_store\<close>, and both stores are its interpretations.

  \<^bold>\<open>Choices of the model.\<close> Times are integers in microseconds, or rationals where the code computes
  with floats of seconds. A clock reading is an argument. Random identifiers are arguments or left
  out where no behaviour depends on them. Every loop of the source is a total function: structural
  recursion, or a measure; there is no fuel. Two loops of the planner end only because of what the
  schema validators guarantee: the split of a block needs a positive chunk limit
  (\<open>dp_chunk_characters\<close>), the split of a record a positive record limit (\<open>rp_max_characters\<close>); the
  functions test the limit, and the theorems about them show that the validated profile passes the
  test. The rounds of the reducer end because a round with more than one stage shrinks
  (\<open>reduction_round_shrinks\<close>).

  \<^bold>\<open>Parameters.\<close> What is not in the repository is an argument: the hash and UUID functions, the PDF
  parser process, the serialisation of an artifact (pydantic over UTF-8), the JSON parser with the
  schema validation of \<^verbatim>\<open>decode\<close>, the Redis client, the tokenizer and the embedding model, the inference
  provider behind the governed call, the network and the JSON parser behind the adapters, the vector store, the
  BM25 engine and the reranker, the schemas that pydantic derives and checks, and the step handler of a worker. The theorems hold for every such argument except where a
  hypothesis names what they rely on, such as distinct identifiers for distinct names.

  \<^bold>\<open>Not modelled.\<close> File paths, descriptors, temporary files, PRAGMAs and faults of the operating system;
  the scores of BM25, the embeddings and the adapters of Chroma; the cryptography of tokens and keys; the
  routes and wiring of the web API, the conversation graph and the user interface; Prometheus metrics; the evaluation reports and the
  migration of the governance package; configuration loading from the environment; scripts and experiments. They are
  glue over libraries that the repository does not hold, or keep no state of their own. The manifest lists each part with its reason.
\<close>

end
